(* ===== verification/Prelude.thy ===== *)
theory Prelude
  imports Main "HOL-Library.Word"
begin

text \<open>
  Shared base of the development: the result type of a Go call that may return
  an error or panic, the machine integers, little- and big-endian byte
  sequences, and the list lemmas the component theories rely on. The
  collection \<open>res_simps\<close> unfolds the result combinators, \<open>codec\<close> holds the
  encode/decode equations that round-trip proofs rewrite with.
\<close>

named_theorems res_simps \<comment> \<open>equations that compute on results of Go calls\<close>
named_theorems codec \<comment> \<open>decode-after-encode equations\<close>

section \<open>Results of Go calls\<close>

text \<open>
  A Go function with an \<open>error\<close> result returns \<open>Inr\<close> of its values or \<open>Inl\<close> of
  the error; a run-time panic (index out of range, failed type assertion,
  invalid slice bounds) is a value of its own, because \<open>recover\<close> treats it
  differently from an error, and so is the end of the process by \<open>log.Fatal\<close>, which
  nothing recovers.
\<close>

datatype go_exc = Error string | Panic string | Exit string

type_synonym 'a res = "go_exc + 'a"

fun bind_res :: "'a res \<Rightarrow> ('a \<Rightarrow> 'b res) \<Rightarrow> 'b res" where
  "bind_res (Inl e) f = Inl e"
| "bind_res (Inr x) f = f x"

lemma bind_res_Inr_iff [res_simps]:
  "bind_res m f = Inr y \<longleftrightarrow> (\<exists>x. m = Inr x \<and> f x = Inr y)"
  by (cases m) auto

lemma bind_res_assoc [res_simps]:
  "bind_res (bind_res m f) g = bind_res m (\<lambda>x. bind_res (f x) g)"
  by (cases m) auto

lemma bind_res_cong [fundef_cong]:
  "m = m' \<Longrightarrow> (\<And>x. m' = Inr x \<Longrightarrow> f x = g x) \<Longrightarrow> bind_res m f = bind_res m' g"
  by (cases m') auto

definition guard_res :: "bool \<Rightarrow> go_exc \<Rightarrow> unit res" where
  "guard_res b e = (if b then Inr () else Inl e)"

lemma guard_res_simps [res_simps]:
  "guard_res True e = Inr ()"
  "guard_res False e = Inl e"
  by (simp_all add: guard_res_def)

section \<open>Machine integers\<close>

type_synonym byte = "8 word"
type_synonym bytes = "byte list"
type_synonym int64 = "64 word" \<comment> \<open>two's complement: read it with \<open>sint\<close>\<close>
type_synonym uint64 = "64 word" \<comment> \<open>read it with \<open>unat\<close>\<close>

text \<open>\<open>i64\<close> is Go's conversion of a mathematical integer to \<open>int64\<close>: modulo \<open>2^64\<close>.\<close>

abbreviation i64 :: "int \<Rightarrow> int64" where
  "i64 \<equiv> word_of_int"

definition min_int64 :: int where "min_int64 = - (2 ^ 63)"
definition max_int64 :: int where "max_int64 = 2 ^ 63 - 1"

lemma sint_i64: "min_int64 \<le> x \<Longrightarrow> x \<le> max_int64 \<Longrightarrow> sint (i64 x) = x"
  by (simp add: min_int64_def max_int64_def sint_word_ariths signed_of_int
      signed_take_bit_int_eq_self_iff)

lemma sint64_lower: "min_int64 \<le> sint (w :: int64)"
  using sint_greater_eq [of w] by (simp add: min_int64_def)

lemma sint64_upper: "sint (w :: int64) \<le> max_int64"
  using sint_less [of w] by (simp add: max_int64_def)

lemmas sint64_range = sint64_lower sint64_upper

text \<open>\<open>wrap64\<close> is the value of an \<open>int64\<close> (or \<open>int\<close>) expression whose exact value is \<open>x\<close>.\<close>

definition wrap64 :: "int \<Rightarrow> int" where
  "wrap64 x = sint (i64 x)"

lemma wrap64_small: "- (2 ^ 63) \<le> x \<Longrightarrow> x < 2 ^ 63 \<Longrightarrow> wrap64 x = x"
  unfolding wrap64_def by (intro sint_i64) (simp_all add: min_int64_def max_int64_def)

lemma wrap64_nonneg: "0 \<le> x \<Longrightarrow> x < 2 ^ 63 \<Longrightarrow> wrap64 x = x"
  by (intro wrap64_small) simp_all

text \<open>
  Go's signed division truncates toward zero; the one overflowing quotient,
  \<open>MinInt64 / -1\<close>, wraps to \<open>MinInt64\<close>.
\<close>

definition trunc_div :: "int \<Rightarrow> int \<Rightarrow> int" where
  "trunc_div a b = sgn a * sgn b * (\<bar>a\<bar> div \<bar>b\<bar>)"

definition trunc_mod :: "int \<Rightarrow> int \<Rightarrow> int" where
  "trunc_mod a b = a - b * trunc_div a b"

definition int64_div :: "int64 \<Rightarrow> int64 \<Rightarrow> int64" where
  "int64_div a b = i64 (trunc_div (sint a) (sint b))"

lemma trunc_div_nonneg: "0 \<le> a \<Longrightarrow> 0 < b \<Longrightarrow> trunc_div a b = a div b"
  by (cases "a = 0") (simp_all add: trunc_div_def)

lemma trunc_mod_nonneg: "0 \<le> a \<Longrightarrow> 0 < b \<Longrightarrow> trunc_mod a b = a mod b"
  by (simp add: trunc_mod_def trunc_div_nonneg minus_mult_div_eq_mod)

section \<open>Byte sequences\<close>

fun le_bytes :: "nat \<Rightarrow> nat \<Rightarrow> bytes" where
  "le_bytes 0 x = []"
| "le_bytes (Suc k) x = of_nat x # le_bytes k (x div 256)"

fun le_nat :: "bytes \<Rightarrow> nat" where
  "le_nat [] = 0"
| "le_nat (b # bs) = unat b + 256 * le_nat bs"

definition be_bytes :: "nat \<Rightarrow> nat \<Rightarrow> bytes" where
  "be_bytes k x = rev (le_bytes k x)"

definition be_nat :: "bytes \<Rightarrow> nat" where
  "be_nat bs = le_nat (rev bs)"

lemma length_le_bytes [simp]: "length (le_bytes k x) = k"
  by (induction k arbitrary: x) auto

lemma length_be_bytes [simp]: "length (be_bytes k x) = k"
  by (simp add: be_bytes_def)

lemma unat_byte_of_nat: "unat (of_nat x :: byte) = x mod 256"
  by (simp add: unat_of_nat)

lemma unat_byte_less [simp]: "unat (b :: byte) < 256"
  using unsigned_less [of b] by simp

lemma le_nat_le_bytes: "le_nat (le_bytes k x) = x mod 256 ^ k"
proof (induction k arbitrary: x)
  case 0
  show ?case by simp
next
  case (Suc k)
  have "le_nat (le_bytes (Suc k) x) = x mod 256 + 256 * (x div 256 mod 256 ^ k)"
    by (simp add: Suc unat_byte_of_nat)
  also have "\<dots> = x mod 256 ^ Suc k"
    by (simp add: mod_mult2_eq)
  finally show ?case .
qed

lemma be_nat_be_bytes: "be_nat (be_bytes k x) = x mod 256 ^ k"
  by (simp add: be_nat_def be_bytes_def le_nat_le_bytes)

lemma le_nat_less: "le_nat bs < 256 ^ length bs"
proof (induction bs)
  case Nil
  show ?case by simp
next
  case (Cons b bs)
  have "unat b < 256" by simp
  with Cons have "unat b + 256 * le_nat bs < 256 * 256 ^ length bs" by linarith
  then show ?case by simp
qed

lemma be_nat_less: "be_nat bs < 256 ^ length bs"
  using le_nat_less [of "rev bs"] by (simp add: be_nat_def)

lemma le_nat_append: "le_nat (xs @ ys) = le_nat xs + 256 ^ length xs * le_nat ys"
  by (induction xs) (simp_all add: algebra_simps)

lemma le_nat_replicate_0 [simp]: "le_nat (replicate n 0) = 0"
  by (induction n) auto

lemma le_nat_append_zeros [simp]: "le_nat (xs @ replicate n 0) = le_nat xs"
  by (simp add: le_nat_append)

lemma be_nat_zeros_append [simp]: "be_nat (replicate n 0 @ xs) = be_nat xs"
  by (simp add: be_nat_def)

lemma be_nat_Cons: "be_nat (b # bs) = unat b * 256 ^ length bs + be_nat bs"
  by (simp add: be_nat_def le_nat_append)

lemma le_bytes_le_nat: "le_bytes (length bs) (le_nat bs) = bs"
proof (induction bs)
  case Nil
  show ?case by simp
next
  case (Cons b bs)
  have "unat (of_nat (unat b + 256 * le_nat bs) :: byte) = unat b"
    by (simp only: unat_byte_of_nat) simp
  then have "of_nat (unat b + 256 * le_nat bs) = b"
    by (simp only: word_unat_eq_iff)
  moreover have "(unat b + 256 * le_nat bs) div 256 = le_nat bs" by simp
  ultimately show ?case using Cons by (simp del: of_nat_add of_nat_mult)
qed

lemma le_bytes_inj: "le_bytes k x = le_bytes k y \<Longrightarrow> x < 256 ^ k \<Longrightarrow> y < 256 ^ k \<Longrightarrow> x = y"
  by (metis le_nat_le_bytes mod_less)

section \<open>Encoders and decoders\<close>

text \<open>
  \<open>decode_n n dec bs\<close> reads \<open>n\<close> items one after the other. The locale \<open>codec\<close> is what a
  reader of a byte stream relies on: the decoder recovers an encoded value and
  leaves exactly the bytes behind it.
\<close>

fun decode_n :: "nat \<Rightarrow> (bytes \<Rightarrow> ('a \<times> bytes) res) \<Rightarrow> bytes \<Rightarrow> ('a list \<times> bytes) res" where
  "decode_n 0 dec bs = Inr ([], bs)"
| "decode_n (Suc n) dec bs =
     bind_res (dec bs) (\<lambda>(x, bs). bind_res (decode_n n dec bs) (\<lambda>(xs, bs). Inr (x # xs, bs)))"

locale codec =
  fixes enc :: "'a \<Rightarrow> bytes"
    and dec :: "bytes \<Rightarrow> ('a \<times> bytes) res"
    and ok :: "'a \<Rightarrow> bool"
  assumes dec_enc: "ok x \<Longrightarrow> dec (enc x @ rest) = Inr (x, rest)"
begin

lemma dec_enc_Nil: "ok x \<Longrightarrow> dec (enc x) = Inr (x, [])"
  using dec_enc [of x "[]"] by simp

lemma prefix_free:
  assumes "ok x" "ok y" "enc x @ r = enc y @ r'"
  shows "x = y \<and> r = r'"
proof -
  have "Inr (x, r) = dec (enc y @ r')"
    using dec_enc [OF assms(1), of r] by (simp only: assms(3))
  then show ?thesis by (simp only: dec_enc [OF assms(2)] sum.inject prod.inject)
qed

lemma enc_inj: "inj_on enc {x. ok x}"
proof (rule inj_onI)
  fix x y
  assume "x \<in> {x. ok x}" "y \<in> {x. ok x}" "enc x = enc y"
  then show "x = y" using prefix_free [of x y "[]" "[]"] by simp
qed

lemma decode_n_enc:
  "list_all ok xs \<Longrightarrow> decode_n (length xs) dec (concat (map enc xs) @ rest) = Inr (xs, rest)"
  by (induction xs) (simp_all add: dec_enc)

end

section \<open>Lists\<close>

lemma take_drop_Cons_nth: "n < length xs \<Longrightarrow> xs = take n xs @ xs ! n # drop (Suc n) xs"
  by (simp add: id_take_nth_drop)

end
