(* ===== verification/Go_Std.thy ===== *)
theory Go_Std
  imports Prelude
begin

text \<open>
  The parts of Go's standard library that the modelled sources call: the
  \<open>strconv\<close> integer parser and formatter, the \<open>strings\<close> helpers and the UTF-8
  coding behind \<open>[]rune(s)\<close>, \<open>string(runes)\<close> and \<open>range\<close> over a string. A Go
  string is a sequence of bytes, here a HOL \<open>string\<close> whose characters are those
  bytes; a rune is a natural number.
\<close>

section \<open>Characters\<close>

abbreviation code :: "char \<Rightarrow> nat" where
  "code c \<equiv> of_char c"

type_synonym rune = nat

definition is_digit :: "char \<Rightarrow> bool" where
  "is_digit c \<longleftrightarrow> 48 \<le> code c \<and> code c \<le> 57"

definition is_lower :: "char \<Rightarrow> bool" where
  "is_lower c \<longleftrightarrow> 97 \<le> code c \<and> code c \<le> 122"

definition is_upper :: "char \<Rightarrow> bool" where
  "is_upper c \<longleftrightarrow> 65 \<le> code c \<and> code c \<le> 90"

definition digit_char :: "nat \<Rightarrow> char" where
  "digit_char d = char_of (48 + d)"

lemma code_digit_char [simp]: "d < 10 \<Longrightarrow> code (digit_char d) = 48 + d"
  by (simp add: digit_char_def)

lemma is_digit_digit_char [simp]: "d < 10 \<Longrightarrow> is_digit (digit_char d)"
  by (simp add: is_digit_def)

lemma digit_char_literal:
  "digit_char 0 = CHR ''0''" "digit_char (Suc 0) = CHR ''1''" "digit_char 2 = CHR ''2''"
  "digit_char 3 = CHR ''3''" "digit_char 4 = CHR ''4''" "digit_char 5 = CHR ''5''"
  "digit_char 6 = CHR ''6''" "digit_char 7 = CHR ''7''" "digit_char 8 = CHR ''8''"
  "digit_char 9 = CHR ''9''"
  by code_simp+

definition byte_of_char :: "char \<Rightarrow> byte" where
  "byte_of_char c = of_nat (code c)"

definition char_of_byte :: "byte \<Rightarrow> char" where
  "char_of_byte b = char_of (unat b)"

definition bytes_of_string :: "string \<Rightarrow> bytes" where
  "bytes_of_string s = map byte_of_char s"

definition string_of_bytes :: "bytes \<Rightarrow> string" where
  "string_of_bytes bs = map char_of_byte bs"

lemma char_of_byte_of_char [simp]: "char_of_byte (byte_of_char c) = c"
  by (simp add: char_of_byte_def byte_of_char_def unat_byte_of_nat)

lemma byte_of_char_of_byte [simp]: "byte_of_char (char_of_byte b) = b"
  by (simp add: char_of_byte_def byte_of_char_def)

lemma string_of_bytes_of_string [simp]: "string_of_bytes (bytes_of_string s) = s"
  by (simp add: string_of_bytes_def bytes_of_string_def comp_def)

lemma bytes_of_string_of_bytes [simp]: "bytes_of_string (string_of_bytes bs) = bs"
  by (simp add: string_of_bytes_def bytes_of_string_def comp_def)

lemma length_bytes_of_string [simp]: "length (bytes_of_string s) = length s"
  by (simp add: bytes_of_string_def)

section \<open>strconv\<close>

fun show_nat :: "nat \<Rightarrow> string" where
  "show_nat n = (if n < 10 then [digit_char n] else show_nat (n div 10) @ [digit_char (n mod 10)])"

declare show_nat.simps [simp del]

definition show_int :: "int \<Rightarrow> string" where
  "show_int i = (if i < 0 then CHR ''-'' # show_nat (nat (- i)) else show_nat (nat i))"

datatype num_err = ErrSyntax | ErrRange

text \<open>
  \<open>parse_uint_loop m acc s\<close> is the digit loop of \<open>strconv.ParseUint(s, 10, 64)\<close> with
  \<open>m\<close> the largest value: it stops at the first character that is no digit
  (\<open>ErrSyntax\<close>, value 0) or at the first digit that overflows (\<open>ErrRange\<close>, value \<open>m\<close>).
\<close>

fun parse_uint_loop :: "nat \<Rightarrow> nat \<Rightarrow> string \<Rightarrow> nat \<times> num_err option" where
  "parse_uint_loop m acc [] = (acc, None)"
| "parse_uint_loop m acc (c # cs) =
     (if \<not> is_digit c then (0, Some ErrSyntax)
      else if acc * 10 + (code c - 48) > m then (m, Some ErrRange)
      else parse_uint_loop m (acc * 10 + (code c - 48)) cs)"

definition ParseUint :: "string \<Rightarrow> nat \<times> num_err option" where
  "ParseUint s = (if s = [] then (0, Some ErrSyntax) else parse_uint_loop (2 ^ 64 - 1) 0 s)"

definition ParseInt :: "string \<Rightarrow> int \<times> num_err option" where
  "ParseInt s =
     (if s = [] then (0, Some ErrSyntax)
      else
        let neg = (hd s = CHR ''-'');
            body = (if hd s = CHR ''-'' \<or> hd s = CHR ''+'' then tl s else s);
            (un, err) = ParseUint body
        in if err = Some ErrSyntax then (0, Some ErrSyntax)
           else if \<not> neg \<and> un \<ge> 2 ^ 63 then (2 ^ 63 - 1, Some ErrRange)
           else if neg \<and> un > 2 ^ 63 then (- (2 ^ 63), Some ErrRange)
           else (if neg then - int un else int un, None))"

lemma show_nat_not_Nil [simp]: "show_nat n \<noteq> []"
  by (subst show_nat.simps) simp

lemma show_nat_digits: "list_all is_digit (show_nat n)"
proof (induction n rule: show_nat.induct)
  case (1 n)
  then show ?case by (subst show_nat.simps) auto
qed

lemma parse_uint_loop_append:
  assumes "parse_uint_loop m acc s = (x, None)"
  shows "parse_uint_loop m acc (s @ t) = parse_uint_loop m x t"
  using assms by (induction s arbitrary: acc) (auto split: if_splits)

lemma parse_show_nat: "n \<le> m \<Longrightarrow> parse_uint_loop m 0 (show_nat n) = (n, None)"
proof (induction n rule: show_nat.induct)
  case (1 n)
  show ?case
  proof (cases "n < 10")
    case True
    with 1 show ?thesis by (subst show_nat.simps) simp
  next
    case False
    with 1 have "parse_uint_loop m 0 (show_nat (n div 10)) = (n div 10, None)" by simp
    with False 1 show ?thesis
      by (subst show_nat.simps) (simp add: parse_uint_loop_append)
  qed
qed

lemma ParseUint_show_nat [codec]: "n < 2 ^ 64 \<Longrightarrow> ParseUint (show_nat n) = (n, None)"
  by (simp add: ParseUint_def parse_show_nat)

lemma hd_show_nat_digit: "is_digit (hd (show_nat n))"
  using show_nat_digits [of n] by (cases "show_nat n") auto

lemma is_digit_not_sign: "is_digit c \<Longrightarrow> c \<noteq> CHR ''-'' \<and> c \<noteq> CHR ''+''"
  by (auto simp: is_digit_def)

lemma ParseInt_show_int [codec]:
  assumes "min_int64 \<le> i" "i \<le> max_int64"
  shows "ParseInt (show_int i) = (i, None)"
proof (cases "i < 0")
  case True
  with assms have "nat (- i) \<le> 2 ^ 63" by (simp add: min_int64_def)
  then have "ParseUint (show_nat (nat (- i))) = (nat (- i), None)"
    by (intro ParseUint_show_nat) simp
  with True \<open>nat (- i) \<le> 2 ^ 63\<close> show ?thesis
    by (simp add: show_int_def ParseInt_def)
next
  case False
  with assms have "nat i < 2 ^ 63" by (simp add: max_int64_def)
  then have "ParseUint (show_nat (nat i)) = (nat i, None)"
    by (intro ParseUint_show_nat) simp
  with False \<open>nat i < 2 ^ 63\<close> is_digit_not_sign [OF hd_show_nat_digit [of "nat i"]]
  show ?thesis by (simp add: show_int_def ParseInt_def)
qed

lemma parse_uint_loop_le: "acc \<le> m \<Longrightarrow> fst (parse_uint_loop m acc s) \<le> m"
  by (induction s arbitrary: acc) auto

lemma ParseUint_less: "fst (ParseUint s) < 2 ^ 64"
  using parse_uint_loop_le [of 0 "2 ^ 64 - 1" s] by (simp add: ParseUint_def)

lemma ParseInt_range: "min_int64 \<le> fst (ParseInt s) \<and> fst (ParseInt s) \<le> max_int64"
  by (auto simp: ParseInt_def Let_def min_int64_def max_int64_def split: prod.splits)

section \<open>strings\<close>

definition has_prefix :: "string \<Rightarrow> string \<Rightarrow> bool" where
  "has_prefix p s \<longleftrightarrow> take (length p) s = p"

text \<open>\<open>strings.Replace(s, old, new, -1)\<close> for a non-empty \<open>old\<close>.\<close>

function str_replace :: "string \<Rightarrow> string \<Rightarrow> string \<Rightarrow> string" where
  "str_replace old new s =
     (if s = [] then []
      else if old \<noteq> [] \<and> has_prefix old s then new @ str_replace old new (drop (length old) s)
      else hd s # str_replace old new (tl s))"
  by pat_completeness auto
termination
  by (relation "measure (\<lambda>(old, new, s). length s)") auto

declare str_replace.simps [simp del]

lemma str_replace_Nil [simp]: "str_replace old new [] = []"
  by (simp add: str_replace.simps)

lemma str_replace_single_Cons:
  "str_replace [a] new (c # cs) = (if c = a then new else [c]) @ str_replace [a] new cs"
  by (simp add: str_replace.simps [of "[a]" new "c # cs"] has_prefix_def)

lemma str_replace_single: "str_replace [a] new s = concat (map (\<lambda>c. if c = a then new else [c]) s)"
  by (induction s) (auto simp: str_replace_single_Cons)

fun str_index :: "string \<Rightarrow> string \<Rightarrow> nat option" where
  "str_index sub [] = (if sub = [] then Some 0 else None)"
| "str_index sub (c # cs) =
     (if has_prefix sub (c # cs) then Some 0 else map_option Suc (str_index sub cs))"

definition str_contains :: "string \<Rightarrow> string \<Rightarrow> bool" where
  "str_contains s sub \<longleftrightarrow> str_index sub s \<noteq> None"

fun str_split :: "char \<Rightarrow> string \<Rightarrow> string list" where
  "str_split sep [] = [[]]"
| "str_split sep (c # cs) =
     (if c = sep then [] # str_split sep cs
      else (case str_split sep cs of [] \<Rightarrow> [[c]] | w # ws \<Rightarrow> (c # w) # ws))"

definition trim_right :: "string \<Rightarrow> string \<Rightarrow> string" where
  "trim_right cutset s = rev (dropWhile (\<lambda>c. c \<in> set cutset) (rev s))"

section \<open>UTF-8\<close>

definition valid_rune :: "rune \<Rightarrow> bool" where
  "valid_rune r \<longleftrightarrow> r < 0xD800 \<or> (0xDFFF < r \<and> r \<le> 0x10FFFF)"

definition utf8_encode :: "rune \<Rightarrow> string" where
  "utf8_encode r0 =
     (let r = (if valid_rune r0 then r0 else 0xFFFD) in
      if r < 0x80 then [char_of r]
      else if r < 0x800 then [char_of (0xC0 + r div 64), char_of (0x80 + r mod 64)]
      else if r < 0x10000 then
        [char_of (0xE0 + r div 4096), char_of (0x80 + r div 64 mod 64), char_of (0x80 + r mod 64)]
      else
        [char_of (0xF0 + r div 262144), char_of (0x80 + r div 4096 mod 64),
         char_of (0x80 + r div 64 mod 64), char_of (0x80 + r mod 64)])"

definition cont_byte :: "nat \<Rightarrow> nat \<Rightarrow> char \<Rightarrow> bool" where
  "cont_byte lo hi c \<longleftrightarrow> lo \<le> code c \<and> code c \<le> hi"

text \<open>
  \<open>decode_rune\<close> is \<open>utf8.DecodeRuneInString\<close>: the rune and its width in bytes.
  \<open>decode2\<close>, \<open>decode3\<close> and \<open>decode4\<close> read the tail of a sequence that starts with
  the byte \<open>b0\<close>; anything malformed is the replacement rune, one byte wide.
\<close>

fun decode2 :: "nat \<Rightarrow> string \<Rightarrow> rune \<times> nat" where
  "decode2 b0 (c1 # _) =
     (if cont_byte 0x80 0xBF c1 then ((b0 - 0xC0) * 64 + (code c1 - 0x80), 2) else (0xFFFD, 1))"
| "decode2 b0 _ = (0xFFFD, 1)"

fun decode3 :: "nat \<Rightarrow> string \<Rightarrow> rune \<times> nat" where
  "decode3 b0 (c1 # c2 # _) =
     (if cont_byte (if b0 = 0xE0 then 0xA0 else 0x80) (if b0 = 0xED then 0x9F else 0xBF) c1
         \<and> cont_byte 0x80 0xBF c2
      then ((b0 - 0xE0) * 4096 + (code c1 - 0x80) * 64 + (code c2 - 0x80), 3)
      else (0xFFFD, 1))"
| "decode3 b0 _ = (0xFFFD, 1)"

fun decode4 :: "nat \<Rightarrow> string \<Rightarrow> rune \<times> nat" where
  "decode4 b0 (c1 # c2 # c3 # _) =
     (if cont_byte (if b0 = 0xF0 then 0x90 else 0x80) (if b0 = 0xF4 then 0x8F else 0xBF) c1
         \<and> cont_byte 0x80 0xBF c2 \<and> cont_byte 0x80 0xBF c3
      then ((b0 - 0xF0) * 262144 + (code c1 - 0x80) * 4096 + (code c2 - 0x80) * 64
            + (code c3 - 0x80), 4)
      else (0xFFFD, 1))"
| "decode4 b0 _ = (0xFFFD, 1)"

fun decode_rune :: "string \<Rightarrow> rune \<times> nat" where
  "decode_rune [] = (0xFFFD, 0)"
| "decode_rune (c0 # t0) =
     (if code c0 < 0x80 then (code c0, 1)
      else if 0xC2 \<le> code c0 \<and> code c0 \<le> 0xDF then decode2 (code c0) t0
      else if 0xE0 \<le> code c0 \<and> code c0 \<le> 0xEF then decode3 (code c0) t0
      else if 0xF0 \<le> code c0 \<and> code c0 \<le> 0xF4 then decode4 (code c0) t0
      else (0xFFFD, 1))"

lemma decode_rune_width: "s \<noteq> [] \<Longrightarrow> 0 < snd (decode_rune s)"
proof -
  have "0 < snd (decode2 b t)" for b t by (cases "(b, t)" rule: decode2.cases) simp_all
  moreover have "0 < snd (decode3 b t)" for b t by (cases "(b, t)" rule: decode3.cases) simp_all
  moreover have "0 < snd (decode4 b t)" for b t by (cases "(b, t)" rule: decode4.cases) simp_all
  ultimately show "s \<noteq> [] \<Longrightarrow> 0 < snd (decode_rune s)" by (cases s) simp_all
qed

text \<open>\<open>range_string off s\<close> is the sequence of (byte offset, rune) pairs of \<open>range s\<close>.\<close>

function range_string :: "nat \<Rightarrow> string \<Rightarrow> (nat \<times> rune) list" where
  "range_string off s =
     (if s = [] then []
      else let (r, w) = decode_rune s in (off, r) # range_string (off + w) (drop w s))"
  by pat_completeness auto
termination
  by (relation "measure (\<lambda>(off, s). length s)")
    (auto, metis decode_rune_width diff_less length_greater_0_conv snd_conv)

declare range_string.simps [simp del]

definition runes :: "string \<Rightarrow> rune list" where
  "runes s = map snd (range_string 0 s)"

definition string_of_runes :: "rune list \<Rightarrow> string" where
  "string_of_runes rs = concat (map utf8_encode rs)"

lemma string_of_runes_simps [simp]:
  "string_of_runes [] = []"
  "string_of_runes (r # rs) = utf8_encode r @ string_of_runes rs"
  "string_of_runes (rs @ rs') = string_of_runes rs @ string_of_runes rs'"
  by (simp_all add: string_of_runes_def)

lemma utf8_encode_ascii: "r < 128 \<Longrightarrow> utf8_encode r = [char_of r]"
  by (simp add: utf8_encode_def valid_rune_def)

lemma utf8_encode_not_Nil [simp]: "utf8_encode r \<noteq> []"
  by (simp add: utf8_encode_def Let_def)

lemma base64_digits3: "(r :: nat) div 4096 * 4096 + r div 64 mod 64 * 64 + r mod 64 = r"
proof -
  have "r div 4096 = r div 64 div 64" by (simp flip: div_mult2_eq)
  then show ?thesis
    using div_mult_mod_eq [of r 64] div_mult_mod_eq [of "r div 64" 64] by linarith
qed

lemma base64_digits4:
  "(r :: nat) div 262144 * 262144 + r div 4096 mod 64 * 4096 + r div 64 mod 64 * 64 + r mod 64 = r"
proof -
  have "r div 262144 = r div 4096 div 64" by (simp flip: div_mult2_eq)
  then show ?thesis
    using div_mult_mod_eq [of "r div 4096" 64] base64_digits3 [of r] by linarith
qed

lemma decode_utf8_2:
  assumes "0x80 \<le> r" "r < 0x800"
  shows "decode_rune (char_of (0xC0 + r div 64) # char_of (0x80 + r mod 64) # s) = (r, 2)"
proof -
  have "2 \<le> r div 64" "r div 64 < 32" "r mod 64 < 64" "r div 64 * 64 + r mod 64 = r"
    using assms by auto
  then show ?thesis
    by (simp add: cont_byte_def)
qed

lemma decode_utf8_3:
  assumes "0x800 \<le> r" "r < 0x10000" "valid_rune r"
  shows "decode_rune (char_of (0xE0 + r div 4096) # char_of (0x80 + r div 64 mod 64)
           # char_of (0x80 + r mod 64) # s) = (r, 3)"
proof -
  define a b c where "a = r div 4096" and "b = r div 64 mod 64" and "c = r mod 64"
  have r: "r = a * 4096 + b * 64 + c" by (simp only: a_def b_def c_def base64_digits3)
  have "a < 16" "b < 64" "c < 64" using assms by (auto simp: a_def b_def c_def)
  moreover have "a = 0 \<Longrightarrow> 32 \<le> b" using assms(1) r \<open>c < 64\<close> by auto
  moreover have "a = 13 \<Longrightarrow> b < 32" using assms(3) r \<open>c < 64\<close> \<open>b < 64\<close>
    by (auto simp: valid_rune_def)
  ultimately have "decode_rune (char_of (0xE0 + a) # char_of (0x80 + b) # char_of (0x80 + c) # s)
      = (a * 4096 + b * 64 + c, 3)"
    by (auto simp: cont_byte_def)
  then show ?thesis by (simp only: r [symmetric]) (simp only: a_def b_def c_def)
qed

lemma decode_utf8_4:
  assumes "0x10000 \<le> r" "r \<le> 0x10FFFF"
  shows "decode_rune (char_of (0xF0 + r div 262144) # char_of (0x80 + r div 4096 mod 64)
           # char_of (0x80 + r div 64 mod 64) # char_of (0x80 + r mod 64) # s) = (r, 4)"
proof -
  define a b c d where "a = r div 262144" and "b = r div 4096 mod 64"
    and "c = r div 64 mod 64" and "d = r mod 64"
  have r: "r = a * 262144 + b * 4096 + c * 64 + d"
    by (simp only: a_def b_def c_def d_def base64_digits4)
  have "a < 5" "b < 64" "c < 64" "d < 64" using assms by (auto simp: a_def b_def c_def d_def)
  moreover have "a = 0 \<Longrightarrow> 16 \<le> b" using assms(1) r \<open>c < 64\<close> \<open>d < 64\<close> by auto
  moreover have "a = 4 \<Longrightarrow> b < 16" using assms(2) r by auto
  ultimately have "decode_rune (char_of (0xF0 + a) # char_of (0x80 + b) # char_of (0x80 + c)
      # char_of (0x80 + d) # s) = (a * 262144 + b * 4096 + c * 64 + d, 4)"
    by (auto simp: cont_byte_def)
  then show ?thesis by (simp only: r [symmetric]) (simp only: a_def b_def c_def d_def)
qed

lemma decode_utf8_encode [codec]:
  assumes "valid_rune r"
  shows "decode_rune (utf8_encode r @ s) = (r, length (utf8_encode r))"
proof -
  consider "r < 0x80" | "0x80 \<le> r" "r < 0x800" | "0x800 \<le> r" "r < 0x10000" | "0x10000 \<le> r"
    by linarith
  then show ?thesis
  proof cases
    case 1
    then show ?thesis by (simp add: utf8_encode_ascii)
  next
    case 2
    with decode_utf8_2 [OF 2, of s] assms show ?thesis by (simp add: utf8_encode_def)
  next
    case 3
    with decode_utf8_3 [OF 3 assms, of s] assms show ?thesis by (simp add: utf8_encode_def)
  next
    case 4
    with assms have "r \<le> 0x10FFFF" by (simp add: valid_rune_def)
    with 4 decode_utf8_4 [OF 4 this, of s] assms show ?thesis by (simp add: utf8_encode_def)
  qed
qed

lemma map_snd_range_string:
  "list_all valid_rune rs \<Longrightarrow> map snd (range_string off (string_of_runes rs)) = rs"
proof (induction rs arbitrary: off)
  case Nil
  show ?case by (simp add: range_string.simps)
next
  case (Cons r rs)
  then show ?case
    by (simp add: range_string.simps [of off "utf8_encode r @ string_of_runes rs"]
        decode_utf8_encode)
qed

lemma runes_string_of_runes [codec]: "list_all valid_rune rs \<Longrightarrow> runes (string_of_runes rs) = rs"
  by (simp add: runes_def map_snd_range_string)

lemma valid_rune_3:
  assumes "a \<le> 15" "b \<le> 63" "c \<le> 63" "a = 13 \<Longrightarrow> b \<le> 31"
  shows "valid_rune (a * 4096 + b * 64 + c)"
proof -
  consider "a \<le> 12" | "a = 13" | "14 \<le> a" by linarith
  then show ?thesis using assms by cases (simp_all add: valid_rune_def)
qed

lemma valid_rune_4:
  assumes "a \<le> 4" "b \<le> 63" "c \<le> 63" "d \<le> 63" "a = 0 \<Longrightarrow> 16 \<le> b" "a = 4 \<Longrightarrow> b \<le> 15"
  shows "valid_rune (a * 262144 + b * 4096 + c * 64 + d)"
proof -
  consider "a = 0" | "1 \<le> a" "a \<le> 3" | "a = 4" using assms(1) by linarith
  then show ?thesis using assms by cases (simp_all add: valid_rune_def)
qed

lemma valid_rune_small: "r < 0xD800 \<or> r = 0xFFFD \<Longrightarrow> valid_rune r"
  by (auto simp: valid_rune_def)

lemma valid_rune_if: "(ok \<Longrightarrow> valid_rune r) \<Longrightarrow> valid_rune (fst (if ok then (r, w) else (0xFFFD, 1)))"
  by (simp add: valid_rune_small)

lemma decode2_valid: "b0 \<le> 0xDF \<Longrightarrow> valid_rune (fst (decode2 b0 t))"
  by (cases "(b0, t)" rule: decode2.cases) (auto simp: cont_byte_def intro!: valid_rune_small)

lemma decode3_valid:
  assumes "0xE0 \<le> b0" "b0 \<le> 0xEF"
  shows "valid_rune (fst (decode3 b0 t))"
proof (cases "(b0, t)" rule: decode3.cases)
  case (1 b c1 c2 cs)
  have "valid_rune ((b0 - 0xE0) * 4096 + (code c1 - 0x80) * 64 + (code c2 - 0x80))"
    if "cont_byte (if b0 = 0xE0 then 0xA0 else 0x80) (if b0 = 0xED then 0x9F else 0xBF) c1
        \<and> cont_byte 0x80 0xBF c2"
    using assms that by (intro valid_rune_3) (auto simp: cont_byte_def split: if_splits)
  then have "valid_rune (fst (decode3 b0 (c1 # c2 # cs)))"
    unfolding decode3.simps by (rule valid_rune_if)
  with 1 show ?thesis by simp
qed (simp_all add: valid_rune_small)

lemma decode4_valid:
  assumes "0xF0 \<le> b0" "b0 \<le> 0xF4"
  shows "valid_rune (fst (decode4 b0 t))"
proof (cases "(b0, t)" rule: decode4.cases)
  case (1 b c1 c2 c3 cs)
  have "valid_rune ((b0 - 0xF0) * 262144 + (code c1 - 0x80) * 4096 + (code c2 - 0x80) * 64
      + (code c3 - 0x80))"
    if "cont_byte (if b0 = 0xF0 then 0x90 else 0x80) (if b0 = 0xF4 then 0x8F else 0xBF) c1
        \<and> cont_byte 0x80 0xBF c2 \<and> cont_byte 0x80 0xBF c3"
    using assms that by (intro valid_rune_4) (auto simp: cont_byte_def split: if_splits)
  then have "valid_rune (fst (decode4 b0 (c1 # c2 # c3 # cs)))"
    unfolding decode4.simps by (rule valid_rune_if)
  with 1 show ?thesis by simp
qed (simp_all add: valid_rune_small)

lemma decode_rune_valid: "valid_rune (fst (decode_rune s))"
  by (cases s) (simp_all add: valid_rune_small decode2_valid decode3_valid decode4_valid)

lemma range_string_valid: "list_all valid_rune (map snd (range_string off s))"
proof (induction off s rule: range_string.induct)
  case (1 off s)
  show ?case
  proof (cases "s = []")
    case False
    obtain r w where rw: "decode_rune s = (r, w)" by (cases "decode_rune s")
    with decode_rune_valid [of s] False 1 [OF False rw [symmetric] refl] show ?thesis
      by (simp add: range_string.simps [of off s])
  qed (simp add: range_string.simps)
qed

lemma runes_valid: "list_all valid_rune (runes s)"
  by (simp only: runes_def range_string_valid)

end
