(* ===== verification/Converter_Codec.thy ===== *)
theory Converter_Codec
  imports Go_Std
begin

unbundle bit_operations_syntax

text \<open>
  The binary codec of \<open>packages/converter/converter.go\<close>: length-prefixed
  integers and byte strings (\<open>EncodeLenInt64\<close>, \<open>EncodeLength\<close> and their decoders)
  and the reflective \<open>BinMarshal\<close> / \<open>BinUnmarshal\<close> / \<open>BinUnmarshalBuff\<close>. A function
  that shifts a slice through a pointer returns the remaining bytes beside its
  result; a \<open>bytes.Buffer\<close> is the list of its unread bytes. After an error the
  callers drop the buffer, so an error carries no remainder. Slices are taken
  at a capacity equal to their length.
\<close>

section \<open>Length-prefixed integers\<close>

definition FillLeft :: "bytes \<Rightarrow> bytes" where
  "FillLeft sl = (if length sl \<ge> 32 then sl else replicate (32 - length sl) 0 @ sl)"

text \<open>The loop \<open>for length = n; length > 0 && buf[length-1] == 0; length--\<close>.\<close>

fun trim_len :: "bytes \<Rightarrow> nat \<Rightarrow> nat" where
  "trim_len buf 0 = 0"
| "trim_len buf (Suc n) = (if buf ! n = 0 then trim_len buf n else Suc n)"

definition EncodeLenInt64 :: "bytes \<Rightarrow> int64 \<Rightarrow> bytes" where
  "EncodeLenInt64 data x =
     (let buf = le_bytes 8 (unat x); len = trim_len buf 8
      in (data @ [of_nat len]) @ take len buf)"

definition EncodeLenInt64InPlace :: "int64 \<Rightarrow> bytes" where
  "EncodeLenInt64InPlace x =
     (let value = le_bytes 8 (unat x); len = trim_len value 8
      in take (len + 1) (of_nat len # value))"

text \<open>The loop \<open>for ; buf[i] == 0 && i < 8; i++\<close> of \<open>EncodeLength\<close>.\<close>

function skip_zeros :: "bytes \<Rightarrow> nat \<Rightarrow> nat" where
  "skip_zeros buf i = (if buf ! i = 0 \<and> i < 8 then skip_zeros buf (Suc i) else i)"
  by pat_completeness auto
termination
  by (relation "measure (\<lambda>(buf, i). 8 - i)") auto

declare skip_zeros.simps [simp del]

definition EncodeLength :: "int64 \<Rightarrow> bytes" where
  "EncodeLength len =
     (if 0 \<le> sint len \<and> sint len \<le> 127 then [ucast len]
      else
        let buf = 0 # be_bytes 8 (unat len); i = skip_zeros buf 1
        in (0x80 OR of_nat (9 - i)) # drop i buf)"

definition EncodeLenByte :: "bytes \<Rightarrow> bytes \<Rightarrow> bytes" where
  "EncodeLenByte out buf = (out @ EncodeLength (of_nat (length buf))) @ buf"

definition DecodeLenInt64 :: "bytes \<Rightarrow> (int64 \<times> bytes) res" where
  "DecodeLenInt64 data =
     (case data of
        [] \<Rightarrow> Inr (0, [])
      | b # t \<Rightarrow>
          let len = unat b + 1 in
          if length data < len then Inl (Error ''length of data is smaller'')
          else Inr (of_nat (le_nat (take 8 (take (len - 1) t))), drop len data))"

definition DecodeLenInt64Buf :: "bytes \<Rightarrow> (int64 \<times> bytes) res" where
  "DecodeLenInt64Buf buf =
     (case buf of
        [] \<Rightarrow> Inr (0, [])
      | val # buf \<Rightarrow>
          let len = unat val in
          if length buf < len then Inl (Error ''length of data is smaller'')
          else Inr (of_nat (le_nat (take 8 (take len buf))), drop len buf))"

text \<open>
  In \<open>DecodeLength\<close> the size \<open>8-length\<close> of the zero prefix is computed on a byte,
  so it wraps for an encoded length above 8; \<open>binary.BigEndian.Uint64\<close> then reads the
  first eight bytes of the padded slice.
\<close>

definition pad_uint64 :: "byte \<Rightarrow> bytes \<Rightarrow> uint64" where
  "pad_uint64 len bs = of_nat (be_nat (take 8 (replicate (unat (8 - len)) 0 @ bs)))"

definition DecodeLength :: "bytes \<Rightarrow> (int64 \<times> bytes) res" where
  "DecodeLength buf =
     (case buf of
        [] \<Rightarrow> Inr (0, [])
      | b # t \<Rightarrow>
          if b AND 0x80 \<noteq> 0 then
            let len = b AND 0x7F in
            if length buf < unat (len + 1) then Inl (Error ''input slice has small size'')
            else Inr (pad_uint64 len (take (unat len) t), drop (unat (len + 1)) buf)
          else Inr (ucast b, t))"

definition DecodeLengthBuf :: "bytes \<Rightarrow> (int \<times> bytes) res" where
  "DecodeLengthBuf buf =
     (case buf of
        [] \<Rightarrow> Inr (0, [])
      | b # buf \<Rightarrow>
          if b AND 0x80 = 0 then Inr (uint b, buf)
          else
            let len = b AND 0x7F in
            if length buf < unat len then Inl (Error ''input slice has small size'')
            else
              let n = sint (pad_uint64 len (take (unat len) buf)) in
              if n < 0 then Inl (Error ''input slice has negative size'')
              else Inr (n, drop (unat len) buf))"

subsection \<open>Trimming zero bytes\<close>

lemma trim_len_le: "trim_len buf n \<le> n"
  by (induction n) (auto simp: le_Suc_eq)

lemma trim_len_zeros:
  "n \<le> length buf \<Longrightarrow> take n buf = take (trim_len buf n) buf @ replicate (n - trim_len buf n) 0"
proof (induction n)
  case 0
  show ?case by simp
next
  case (Suc n)
  then have "take (Suc n) buf = take n buf @ [buf ! n]" by (simp add: take_Suc_conv_app_nth)
  with Suc show ?case
    by (auto simp: Suc_diff_le trim_len_le replicate_append_same)
qed

lemma le_nat_trim:
  assumes "length buf = n"
  shows "le_nat (take (trim_len buf n) buf) = le_nat buf"
proof -
  have "buf = take (trim_len buf n) buf @ replicate (n - trim_len buf n) 0"
    using trim_len_zeros [of n buf] assms by simp
  then show ?thesis by (metis le_nat_append_zeros)
qed

lemma skip_zeros_bounds: "i \<le> 8 \<Longrightarrow> i \<le> skip_zeros buf i \<and> skip_zeros buf i \<le> 8"
proof (induction buf i rule: skip_zeros.induct)
  case (1 buf i)
  then show ?case by (cases "buf ! i = 0 \<and> i < 8") (auto simp: skip_zeros.simps [of buf i])
qed

lemma skip_zeros_zeros:
  "i \<le> 8 \<Longrightarrow> length buf = 9 \<Longrightarrow>
   drop i buf = replicate (skip_zeros buf i - i) 0 @ drop (skip_zeros buf i) buf"
proof (induction buf i rule: skip_zeros.induct)
  case (1 buf i)
  show ?case
  proof (cases "buf ! i = 0 \<and> i < 8")
    case True
    with 1 have "drop (Suc i) buf
        = replicate (skip_zeros buf (Suc i) - Suc i) 0 @ drop (skip_zeros buf (Suc i)) buf" by simp
    moreover have "drop i buf = 0 # drop (Suc i) buf"
      using True 1 by (simp add: Cons_nth_drop_Suc [symmetric])
    moreover have "Suc i \<le> skip_zeros buf (Suc i)" using skip_zeros_bounds [of "Suc i" buf] True by simp
    ultimately show ?thesis using True
      by (simp add: skip_zeros.simps [of buf i] Suc_diff_le replicate_Suc [symmetric]
          Suc_diff_Suc del: replicate_Suc)
  next
    case False
    then show ?thesis by (auto simp: skip_zeros.simps [of buf i])
  qed
qed

subsection \<open>Decoding inverts encoding\<close>

lemma EncodeLenInt64_Nil:
  "EncodeLenInt64 data x = data @ EncodeLenInt64 [] x"
  by (simp add: EncodeLenInt64_def Let_def)

lemma EncodeLenInt64InPlace_eq: "EncodeLenInt64InPlace x = EncodeLenInt64 [] x"
  by (simp add: EncodeLenInt64InPlace_def EncodeLenInt64_def Let_def)

lemma unat_mod64: "unat (x :: 64 word) mod 18446744073709551616 = unat x"
  using unsigned_less [of x, where ?'a = nat] by simp

lemma of_nat_le_nat_le_bytes8: "of_nat (le_nat (le_bytes 8 (unat x))) = (x :: 64 word)"
  by (simp add: le_nat_le_bytes unat_mod64)

lemma DecodeLenInt64_Encode [codec]:
  "DecodeLenInt64 (EncodeLenInt64 [] x @ rest) = Inr (x, rest)"
proof -
  let ?buf = "le_bytes 8 (unat x)" and ?len = "trim_len (le_bytes 8 (unat x)) 8"
  have len: "?len \<le> 8" by (rule trim_len_le)
  then have "unat (of_nat ?len :: byte) = ?len" by (simp add: unat_byte_of_nat)
  with len show ?thesis
    by (simp add: EncodeLenInt64_def DecodeLenInt64_def Let_def le_nat_trim min_absorb2
        of_nat_le_nat_le_bytes8)
qed

lemma DecodeLenInt64Buf_eq: "DecodeLenInt64Buf buf = DecodeLenInt64 buf"
  by (cases buf) (auto simp: DecodeLenInt64Buf_def DecodeLenInt64_def Let_def)

lemma length_tag_byte:
  assumes "1 \<le> L" "L \<le> 8"
  shows "(0x80 OR of_nat L :: byte) AND 0x80 \<noteq> 0" "(0x80 OR of_nat L :: byte) AND 0x7F = of_nat L"
proof -
  have "L \<in> {1, 2, 3, 4, 5, 6, 7, 8}" using assms by auto
  then show "(0x80 OR of_nat L :: byte) AND 0x80 \<noteq> 0" "(0x80 OR of_nat L :: byte) AND 0x7F = of_nat L"
    by auto
qed

lemma small_length_byte:
  assumes "0 \<le> sint (l :: int64)" "sint l \<le> 127"
  shows "(ucast l :: byte) AND 0x80 = 0" "ucast (ucast l :: byte) = l" "uint (ucast l :: byte) = sint l"
proof -
  obtain n where n: "sint l = int n" "n \<le> 127" using assms by (metis nat_0_le nat_le_iff of_nat_numeral)
  have "l = of_int (sint l)" by simp
  then have l: "l = of_nat n" by (simp only: n of_int_of_nat_eq)
  have b: "(ucast l :: byte) = of_nat n"
    using n by (simp add: l unsigned_of_nat take_bit_nat_eq_self)
  have "\<forall>n \<in> {0..127 :: nat}. (of_nat n :: byte) AND 0x80 = 0" by code_simp
  with n b show "(ucast l :: byte) AND 0x80 = 0" by simp
  have u: "unat (of_nat n :: byte) = n" using n by (simp add: unat_byte_of_nat)
  then show "ucast (ucast l :: byte) = l" 
    using n by (simp add: b l unsigned_of_nat take_bit_nat_eq_self)
  show "uint (ucast l :: byte) = sint l"
    using u n by (simp only: b n(1)) (metis of_nat_unat)
qed

text \<open>The two shapes an encoded length can have.\<close>

lemma EncodeLength_cases:
  obtains (short) "0 \<le> sint l" "sint l \<le> 127" "EncodeLength l = [ucast l]"
  | (long) L bs where "1 \<le> L" "L \<le> 8" "EncodeLength l = (0x80 OR of_nat L) # bs" "length bs = L"
      "pad_uint64 (of_nat L) bs = l"
proof (cases "0 \<le> sint l \<and> sint l \<le> 127")
  case True
  then show ?thesis by (intro short) (simp_all add: EncodeLength_def)
next
  case False
  define buf where "buf = 0 # be_bytes 8 (unat l)"
  define i where "i = skip_zeros buf 1"
  have len: "length buf = 9" by (simp add: buf_def)
  have i: "1 \<le> i" "i \<le> 8" using skip_zeros_bounds [of 1 buf] by (simp_all add: i_def)
  have bs: "be_bytes 8 (unat l) = replicate (i - 1) 0 @ drop i buf"
    using skip_zeros_zeros [of 1 buf] len by (simp add: i_def buf_def)
  have u: "unat (8 - of_nat (9 - i) :: byte) = i - 1"
  proof -
    have "i \<in> {1, 2, 3, 4, 5, 6, 7, 8}" using i by auto
    then show ?thesis by auto
  qed
  have "pad_uint64 (of_nat (9 - i)) (drop i buf) = l"
    by (simp only: pad_uint64_def u bs [symmetric]) (simp add: be_nat_be_bytes unat_mod64)
  with False i len show ?thesis
    by (intro long [of "9 - i" "drop i buf"]) (simp_all add: EncodeLength_def buf_def i_def Let_def)
qed

lemma unat_byte_len: "L \<le> 8 \<Longrightarrow> unat (of_nat L :: byte) = L"
  by (simp add: unat_byte_of_nat)

lemma unat_byte_Suc_len: "L \<le> 8 \<Longrightarrow> unat (of_nat L + 1 :: byte) = Suc L"
  using unat_byte_of_nat [of "Suc L"] by (simp add: add.commute)

lemma DecodeLength_Encode [codec]: "DecodeLength (EncodeLength l @ rest) = Inr (l, rest)"
proof (cases l rule: EncodeLength_cases)
  case short
  then show ?thesis by (simp add: DecodeLength_def small_length_byte)
next
  case (long L bs)
  then show ?thesis
    by (simp add: DecodeLength_def Let_def length_tag_byte unat_byte_len unat_byte_Suc_len)
qed

lemma DecodeLengthBuf_Encode [codec]:
  assumes "0 \<le> sint l"
  shows "DecodeLengthBuf (EncodeLength l @ rest) = Inr (sint l, rest)"
proof (cases l rule: EncodeLength_cases)
  case short
  then show ?thesis by (simp add: DecodeLengthBuf_def small_length_byte)
next
  case (long L bs)
  with assms show ?thesis
    by (simp add: DecodeLengthBuf_def Let_def length_tag_byte unat_byte_len)
qed

lemma EncodeLength_not_Nil [simp]: "EncodeLength l \<noteq> []"
  by (simp add: EncodeLength_def Let_def)

lemma EncodeLenInt64_not_Nil [simp]: "EncodeLenInt64 data x \<noteq> []"
  by (simp add: EncodeLenInt64_def Let_def)

section \<open>BinMarshal and its inverses\<close>

text \<open>
  A value that \<open>BinMarshal\<close> meets, by its reflect kind. Floats are the bits of
  \<open>math.Float64bits\<close>; \<open>GSlice\<close> is a byte slice and \<open>GSliceOther\<close> any other slice (on
  which \<open>reflect.Value.Bytes\<close> panics); \<open>GOther\<close> is a value of every remaining kind.
\<close>

datatype gval =
    GUint8 byte | GInt8 byte | GUint32 "32 word" | GInt32 "32 word" | GFloat64 "64 word"
  | GInt64 int64 | GUint64 uint64 | GString string | GStruct "gval list" | GSlice bytes
  | GSliceOther nat | GPtr gval | GOther

datatype gkind =
    KUint8 | KInt8 | KUint32 | KInt32 | KFloat64 | KInt64 | KUint64 | KString
  | KStruct "gkind list" | KSlice | KOther

fun kind_of :: "gval \<Rightarrow> gkind" where
  "kind_of (GUint8 _) = KUint8"
| "kind_of (GInt8 _) = KInt8"
| "kind_of (GUint32 _) = KUint32"
| "kind_of (GInt32 _) = KInt32"
| "kind_of (GFloat64 _) = KFloat64"
| "kind_of (GInt64 _) = KInt64"
| "kind_of (GUint64 _) = KUint64"
| "kind_of (GString _) = KString"
| "kind_of (GStruct vs) = KStruct (map kind_of vs)"
| "kind_of (GSlice _) = KSlice"
| "kind_of _ = KOther"

definition float2Bytes :: "64 word \<Rightarrow> bytes" where
  "float2Bytes f = le_bytes 8 (unat f)"

definition bytes2Float :: "bytes \<Rightarrow> 64 word" where
  "bytes2Float bs = of_nat (le_nat bs)"

text \<open>The loop of the \<open>Int32\<close> case that finds the first non-zero byte of \<open>tmp\<close>.\<close>

fun first_nonzero :: "bytes \<Rightarrow> nat" where
  "first_nonzero [] = 0"
| "first_nonzero (b # bs) = (if b \<noteq> 0 then 0 else Suc (first_nonzero bs))"

definition marshal_int32 :: "32 word \<Rightarrow> bytes" where
  "marshal_int32 w =
     (if w < 128 then [ucast w]
      else let tmp = be_bytes 4 (unat w); i = first_nonzero tmp
           in (128 + 4 - of_nat i) # drop i tmp)"

fun BinMarshal :: "bytes \<Rightarrow> gval \<Rightarrow> bytes res"
  and BinMarshal_fields :: "bytes \<Rightarrow> gval list \<Rightarrow> bytes res" where
  "BinMarshal out (GUint8 b) = Inr (out @ [b])"
| "BinMarshal out (GInt8 b) = Inl (Panic ''reflect: call of reflect.Value.Uint on int8 Value'')"
| "BinMarshal out (GUint32 w) = Inr (out @ be_bytes 4 (unat w))"
| "BinMarshal out (GInt32 w) = Inr (out @ marshal_int32 w)"
| "BinMarshal out (GFloat64 f) = Inr (out @ float2Bytes f)"
| "BinMarshal out (GInt64 x) = Inr (EncodeLenInt64 out x)"
| "BinMarshal out (GUint64 x) = Inr (out @ be_bytes 8 (unat x))"
| "BinMarshal out (GString s) =
     Inr ((out @ EncodeLength (of_nat (length s))) @ bytes_of_string s)"
| "BinMarshal out (GStruct vs) = BinMarshal_fields out vs"
| "BinMarshal out (GSlice bs) = Inr ((out @ EncodeLength (of_nat (length bs))) @ bs)"
| "BinMarshal out (GSliceOther n) = Inl (Panic ''reflect.Value.Bytes of non-byte slice'')"
| "BinMarshal out (GPtr v) = BinMarshal out v"
| "BinMarshal out GOther = Inl (Error ''unsupported type of BinMarshal'')"
| "BinMarshal_fields out [] = Inr out"
| "BinMarshal_fields out (v # vs) = bind_res (BinMarshal out v) (\<lambda>out. BinMarshal_fields out vs)"

text \<open>
  \<open>reflect.Value.SetInt\<close> on an \<open>int32\<close> keeps the low 32 bits, so the decoded
  \<open>uint32\<close> is stored unchanged as a \<open>32 word\<close>.
\<close>

definition unmarshal_int32 :: "bytes \<Rightarrow> (gval \<times> bytes) res" where
  "unmarshal_int32 out =
     (case out of
        [] \<Rightarrow> Inl (Panic ''index out of range'')
      | val # t \<Rightarrow>
          if val < 128 then Inr (GInt32 (ucast val), t)
          else
            let size = unat (val - 128) in
            if length out \<le> size \<or> size > 4 then Inl (Error ''wrong input data'')
            else Inr (GInt32 (of_nat (be_nat (replicate (4 - size) 0 @ take size t))), drop (size + 1) out))"

definition unmarshal_int32_buf :: "bytes \<Rightarrow> (gval \<times> bytes) res" where
  "unmarshal_int32_buf buf =
     (case buf of
        [] \<Rightarrow> Inl (Error ''EOF'')
      | val # buf \<Rightarrow>
          if val < 128 then Inr (GInt32 (ucast val), buf)
          else
            let size = unat (val - 128) in
            if length buf \<le> size \<or> size > 4 then Inl (Error ''wrong input data'')
            else Inr (GInt32 (of_nat (be_nat (replicate (4 - size) 0 @ take size buf))), drop size buf))"

text \<open>\<open>take_exact\<close> is a fixed-size read: a slice expression or \<open>binary.*.Uint\<close> on short input panics.\<close>

definition take_exact :: "nat \<Rightarrow> bytes \<Rightarrow> (bytes \<times> bytes) res" where
  "take_exact n bs =
     (if length bs < n then Inl (Panic ''slice bounds out of range'') else Inr (take n bs, drop n bs))"

definition take_string :: "int64 \<Rightarrow> bytes \<Rightarrow> (bytes \<times> bytes) res" where
  "take_string val out =
     (if int (length out) < sint val then Inl (Error ''input slice is short'')
      else if sint val < 0 then Inl (Panic ''slice bounds out of range'')
      else Inr (take (nat (sint val)) out, drop (nat (sint val)) out))"

definition take_string_buf :: "int \<Rightarrow> bytes \<Rightarrow> (bytes \<times> bytes) res" where
  "take_string_buf val buf =
     (if int (length buf) < val then Inl (Error ''input slice is short'')
      else Inr (take (nat val) buf, drop (nat val) buf))"

fun BinUnmarshal :: "gkind \<Rightarrow> bytes \<Rightarrow> (gval \<times> bytes) res"
  and BinUnmarshal_fields :: "gkind list \<Rightarrow> bytes \<Rightarrow> (gval list \<times> bytes) res" where
  "BinUnmarshal k out =
     (if out = [] then Inl (Error ''input slice is empty'')
      else
        case k of
          KUint8 \<Rightarrow> Inr (GUint8 (hd out), tl out)
        | KInt8 \<Rightarrow> Inl (Panic ''reflect: call of reflect.Value.SetUint on int8 Value'')
        | KUint32 \<Rightarrow> bind_res (take_exact 4 out) (\<lambda>(b, rest). Inr (GUint32 (of_nat (be_nat b)), rest))
        | KInt32 \<Rightarrow> unmarshal_int32 out
        | KFloat64 \<Rightarrow> bind_res (take_exact 8 out) (\<lambda>(b, rest). Inr (GFloat64 (bytes2Float b), rest))
        | KInt64 \<Rightarrow> bind_res (DecodeLenInt64 out) (\<lambda>(x, rest). Inr (GInt64 x, rest))
        | KUint64 \<Rightarrow> bind_res (take_exact 8 out) (\<lambda>(b, rest). Inr (GUint64 (of_nat (be_nat b)), rest))
        | KString \<Rightarrow> bind_res (DecodeLength out) (\<lambda>(val, out).
            bind_res (take_string val out) (\<lambda>(b, rest). Inr (GString (string_of_bytes b), rest)))
        | KStruct ks \<Rightarrow> bind_res (BinUnmarshal_fields ks out) (\<lambda>(vs, rest). Inr (GStruct vs, rest))
        | KSlice \<Rightarrow> bind_res (DecodeLength out) (\<lambda>(val, out).
            bind_res (take_string val out) (\<lambda>(b, rest). Inr (GSlice b, rest)))
        | KOther \<Rightarrow> Inl (Error ''unsupported type of BinUnmarshal''))"
| "BinUnmarshal_fields [] out = Inr ([], out)"
| "BinUnmarshal_fields (k # ks) out =
     bind_res (BinUnmarshal k out) (\<lambda>(v, out).
       bind_res (BinUnmarshal_fields ks out) (\<lambda>(vs, out). Inr (v # vs, out)))"

fun BinUnmarshalBuff :: "gkind \<Rightarrow> bytes \<Rightarrow> (gval \<times> bytes) res"
  and BinUnmarshalBuff_fields :: "gkind list \<Rightarrow> bytes \<Rightarrow> (gval list \<times> bytes) res" where
  "BinUnmarshalBuff k buf =
     (if buf = [] then Inl (Error ''input slice is empty'')
      else
        case k of
          KUint8 \<Rightarrow> Inr (GUint8 (hd buf), tl buf)
        | KInt8 \<Rightarrow> Inl (Panic ''reflect: call of reflect.Value.SetUint on int8 Value'')
        | KUint32 \<Rightarrow> bind_res (take_exact 4 buf) (\<lambda>(b, rest). Inr (GUint32 (of_nat (be_nat b)), rest))
        | KInt32 \<Rightarrow> unmarshal_int32_buf buf
        | KFloat64 \<Rightarrow> bind_res (take_exact 8 buf) (\<lambda>(b, rest). Inr (GFloat64 (bytes2Float b), rest))
        | KInt64 \<Rightarrow> bind_res (DecodeLenInt64Buf buf) (\<lambda>(x, rest). Inr (GInt64 x, rest))
        | KUint64 \<Rightarrow> bind_res (take_exact 8 buf) (\<lambda>(b, rest). Inr (GUint64 (of_nat (be_nat b)), rest))
        | KString \<Rightarrow> bind_res (DecodeLengthBuf buf) (\<lambda>(val, buf).
            bind_res (take_string_buf val buf) (\<lambda>(b, rest). Inr (GString (string_of_bytes b), rest)))
        | KStruct ks \<Rightarrow> bind_res (BinUnmarshalBuff_fields ks buf) (\<lambda>(vs, rest). Inr (GStruct vs, rest))
        | KSlice \<Rightarrow> bind_res (DecodeLengthBuf buf) (\<lambda>(val, buf).
            bind_res (take_string_buf val buf) (\<lambda>(b, rest). Inr (GSlice b, rest)))
        | KOther \<Rightarrow> Inl (Error ''unsupported type of BinUnmarshal''))"
| "BinUnmarshalBuff_fields [] buf = Inr ([], buf)"
| "BinUnmarshalBuff_fields (k # ks) buf =
     bind_res (BinUnmarshalBuff k buf) (\<lambda>(v, buf).
       bind_res (BinUnmarshalBuff_fields ks buf) (\<lambda>(vs, buf). Inr (v # vs, buf)))"

declare BinUnmarshal.simps(1) [simp del] BinUnmarshalBuff.simps(1) [simp del]

text \<open>
  The values the code marshals: no \<open>int8\<close>, no pointer and no foreign slice inside, no
  empty struct (it would have an empty encoding), and strings whose length is an \<open>int64\<close>.
\<close>

fun marshallable :: "gval \<Rightarrow> bool" where
  "marshallable (GString s) \<longleftrightarrow> length s < 2 ^ 63"
| "marshallable (GSlice bs) \<longleftrightarrow> length bs < 2 ^ 63"
| "marshallable (GStruct vs) \<longleftrightarrow> vs \<noteq> [] \<and> list_all marshallable vs"
| "marshallable (GInt8 _) \<longleftrightarrow> False"
| "marshallable (GSliceOther _) \<longleftrightarrow> False"
| "marshallable (GPtr _) \<longleftrightarrow> False"
| "marshallable GOther \<longleftrightarrow> False"
| "marshallable _ \<longleftrightarrow> True"

subsection \<open>The encoding as a function of the value\<close>

fun marshal_bytes :: "gval \<Rightarrow> bytes" where
  "marshal_bytes (GUint8 b) = [b]"
| "marshal_bytes (GUint32 w) = be_bytes 4 (unat w)"
| "marshal_bytes (GInt32 w) = marshal_int32 w"
| "marshal_bytes (GFloat64 f) = float2Bytes f"
| "marshal_bytes (GInt64 x) = EncodeLenInt64 [] x"
| "marshal_bytes (GUint64 x) = be_bytes 8 (unat x)"
| "marshal_bytes (GString s) = EncodeLength (of_nat (length s)) @ bytes_of_string s"
| "marshal_bytes (GStruct vs) = concat (map marshal_bytes vs)"
| "marshal_bytes (GSlice bs) = EncodeLength (of_nat (length bs)) @ bs"
| "marshal_bytes _ = []"

lemma BinMarshal_marshal_bytes:
  "marshallable v \<Longrightarrow> BinMarshal out v = Inr (out @ marshal_bytes v)"
  "list_all marshallable vs \<Longrightarrow> BinMarshal_fields out vs = Inr (out @ concat (map marshal_bytes vs))"
  by (induction out v and out vs rule: BinMarshal_BinMarshal_fields.induct)
    (simp_all add: EncodeLenInt64_def Let_def)

lemma first_nonzero_le: "first_nonzero bs \<le> length bs"
  by (induction bs) auto

lemma first_nonzero_zeros: "bs = replicate (first_nonzero bs) 0 @ drop (first_nonzero bs) bs"
  by (induction bs) auto

lemma first_nonzero_less: "be_nat bs \<noteq> 0 \<Longrightarrow> first_nonzero bs < length bs"
proof (rule ccontr)
  assume "be_nat bs \<noteq> 0" "\<not> first_nonzero bs < length bs"
  then have "first_nonzero bs = length bs" using first_nonzero_le [of bs] by simp
  then have "bs = replicate (length bs) 0 @ []" using first_nonzero_zeros [of bs] by simp
  then have "be_nat bs = be_nat []" by (metis be_nat_zeros_append)
  with \<open>be_nat bs \<noteq> 0\<close> show False by (simp add: be_nat_def)
qed

lemma unat_mod32: "unat (w :: 32 word) mod 4294967296 = unat w"
  using unsigned_less [of w, where ?'a = nat] by simp

lemma marshal_int32_cases:
  obtains (short) "w < 128" "marshal_int32 w = [ucast w]"
  | (long) L bs where "\<not> w < 128" "1 \<le> L" "L \<le> 4" "marshal_int32 w = (128 + of_nat L) # bs"
      "length bs = L" "of_nat (be_nat bs) = w"
proof (cases "w < 128")
  case True
  then show ?thesis by (intro short) (simp_all add: marshal_int32_def)
next
  case False
  define tmp where "tmp = be_bytes 4 (unat w)"
  define i where "i = first_nonzero tmp"
  have nat_tmp: "be_nat tmp = unat w" by (simp add: tmp_def be_nat_be_bytes unat_mod32)
  moreover have "unat w \<noteq> 0" using False by (auto simp: unat_eq_0 word_less_nat_alt)
  ultimately have i: "i < 4" using first_nonzero_less [of tmp] by (simp add: i_def tmp_def)
  have "be_nat (drop i tmp) = unat w"
    using nat_tmp first_nonzero_zeros [of tmp] by (metis be_nat_zeros_append i_def)
  then have "of_nat (be_nat (drop i tmp)) = w" by simp
  moreover have "(128 + 4 - of_nat i :: byte) = 128 + of_nat (4 - i)" using i by simp
  ultimately show ?thesis using False i
    by (intro long [of "4 - i" "drop i tmp"])
      (simp_all add: marshal_int32_def tmp_def i_def Let_def)
qed

lemma int32_tag:
  assumes "1 \<le> L" "L \<le> 4"
  shows "\<not> (128 + of_nat L :: byte) < 128" "unat (128 + of_nat L - 128 :: byte) = L"
proof -
  have "L \<in> {1, 2, 3, 4}" using assms by auto
  then show "\<not> (128 + of_nat L :: byte) < 128" "unat (128 + of_nat L - 128 :: byte) = L" by auto
qed

lemma ucast_small_32:
  assumes "(w :: 32 word) < 128"
  shows "(ucast w :: byte) < 128" "ucast (ucast w :: byte) = w"
proof -
  have "unat w < 128" using assms by (simp add: word_less_nat_alt)
  moreover from this have "unat (ucast w :: byte) = unat w"
    by (simp add: unsigned_ucast_eq unsigned_take_bit_eq take_bit_nat_eq_self)
  ultimately show "(ucast w :: byte) < 128" "ucast (ucast w :: byte) = w"
    by (simp_all add: word_less_nat_alt word_unat_eq_iff unsigned_ucast_eq
        unsigned_take_bit_eq take_bit_nat_eq_self)
qed

lemma unmarshal_int32_marshal: "unmarshal_int32 (marshal_int32 w @ rest) = Inr (GInt32 w, rest)"
proof (cases w rule: marshal_int32_cases)
  case short
  then show ?thesis by (simp add: unmarshal_int32_def ucast_small_32)
next
  case (long L bs)
  then show ?thesis
    by (simp add: unmarshal_int32_def Let_def int32_tag unat_byte_len)
qed

text \<open>
  The buffer variant compares the size with the bytes left \<^emph>\<open>after\<close> the tag, so it
  needs one byte more than the encoding has.
\<close>

lemma unmarshal_int32_buf_marshal:
  "rest \<noteq> [] \<Longrightarrow> unmarshal_int32_buf (marshal_int32 w @ rest) = Inr (GInt32 w, rest)"
proof (cases w rule: marshal_int32_cases)
  case short
  then show ?thesis by (simp add: unmarshal_int32_buf_def ucast_small_32)
next
  case (long L bs)
  moreover assume "rest \<noteq> []"
  ultimately show ?thesis
    by (simp add: unmarshal_int32_buf_def Let_def int32_tag unat_byte_len Suc_le_eq)
qed

lemma unmarshal_int32_buf_last:
  assumes "\<not> w < 128"
  shows "unmarshal_int32_buf (marshal_int32 w) = Inl (Error ''wrong input data'')"
proof (cases w rule: marshal_int32_cases)
  case (long L bs)
  then show ?thesis by (simp add: unmarshal_int32_buf_def Let_def int32_tag unat_byte_len)
qed (use assms in simp)

subsection \<open>Round trips\<close>

lemma sint_of_nat64: "n < 2 ^ 63 \<Longrightarrow> sint (of_nat n :: int64) = int n"
  using sint_i64 [of "int n"] by (simp add: min_int64_def max_int64_def)

lemma take_exact_append [codec]: "length bs = n \<Longrightarrow> take_exact n (bs @ rest) = Inr (bs, rest)"
  by (simp add: take_exact_def)

lemma take_string_append [codec]:
  "length bs < 2 ^ 63 \<Longrightarrow> take_string (of_nat (length bs)) (bs @ rest) = Inr (bs, rest)"
  by (simp add: take_string_def sint_of_nat64)

lemma take_string_buf_append [codec]: "take_string_buf (int (length bs)) (bs @ rest) = Inr (bs, rest)"
  by (simp add: take_string_buf_def)

lemma take_string_bytes [codec]:
  "length s < 2 ^ 63 \<Longrightarrow>
     take_string (of_nat (length s)) (bytes_of_string s @ rest) = Inr (bytes_of_string s, rest)"
  "take_string_buf (int (length s)) (bytes_of_string s @ rest) = Inr (bytes_of_string s, rest)"
  using take_string_append [of "bytes_of_string s"] take_string_buf_append [of "bytes_of_string s"]
  by simp_all

lemma DecodeLengthBuf_len [codec]:
  "n < 2 ^ 63 \<Longrightarrow> DecodeLengthBuf (EncodeLength (of_nat n) @ rest) = Inr (int n, rest)"
  by (simp add: DecodeLengthBuf_Encode sint_of_nat64)

lemma of_nat_be_bytes [codec]:
  "of_nat (be_nat (be_bytes 8 (unat (x :: 64 word)))) = x"
  "of_nat (be_nat (be_bytes 4 (unat (w :: 32 word)))) = w"
  by (simp_all add: be_nat_be_bytes unat_mod64 unat_mod32)

lemma bytes2Float_float2Bytes [codec]: "bytes2Float (float2Bytes f) = f"
  by (simp add: bytes2Float_def float2Bytes_def of_nat_le_nat_le_bytes8)

lemma length_float2Bytes [simp]: "length (float2Bytes f) = 8"
  by (simp add: float2Bytes_def)

lemma marshal_int32_not_Nil [simp]: "marshal_int32 w \<noteq> []"
  by (simp add: marshal_int32_def Let_def)

lemma be_bytes_not_Nil: "0 < k \<Longrightarrow> be_bytes k x \<noteq> []"
  by (metis length_be_bytes length_greater_0_conv)

lemma marshal_bytes_not_Nil: "marshallable v \<Longrightarrow> marshal_bytes v \<noteq> []"
proof (induction v)
  case (GStruct vs)
  then show ?case by (cases vs) (auto simp: list_all_iff)
qed (auto simp: be_bytes_not_Nil float2Bytes_def le_bytes.simps [unfolded numeral_2_eq_2]
     simp flip: length_greater_0_conv)

lemma BinUnmarshal_fields_marshal:
  assumes "\<And>v rest. v \<in> set vs \<Longrightarrow>
    BinUnmarshal (kind_of v) (marshal_bytes v @ rest) = Inr (v, rest)"
  shows "BinUnmarshal_fields (map kind_of vs) (concat (map marshal_bytes vs) @ rest) = Inr (vs, rest)"
  using assms by (induction vs) simp_all

lemma BinUnmarshal_marshal:
  "marshallable v \<Longrightarrow> BinUnmarshal (kind_of v) (marshal_bytes v @ rest) = Inr (v, rest)"
proof (induction v arbitrary: rest)
  case (GStruct vs)
  then have "BinUnmarshal_fields (map kind_of vs) (concat (map marshal_bytes vs) @ rest) = Inr (vs, rest)"
    by (intro BinUnmarshal_fields_marshal) (auto simp: list_all_iff)
  with GStruct.prems marshal_bytes_not_Nil [OF GStruct.prems] show ?case
    by (simp add: BinUnmarshal.simps(1))
qed (auto simp: BinUnmarshal.simps(1) codec unmarshal_int32_marshal be_bytes_not_Nil
     simp flip: length_greater_0_conv)

lemma BinUnmarshalBuff_fields_marshal:
  assumes "\<And>v rest. v \<in> set vs \<Longrightarrow> rest \<noteq> [] \<Longrightarrow>
    BinUnmarshalBuff (kind_of v) (marshal_bytes v @ rest) = Inr (v, rest)"
    and "rest \<noteq> []"
  shows "BinUnmarshalBuff_fields (map kind_of vs) (concat (map marshal_bytes vs) @ rest) = Inr (vs, rest)"
  using assms by (induction vs) simp_all

lemma BinUnmarshalBuff_marshal:
  "marshallable v \<Longrightarrow> rest \<noteq> [] \<Longrightarrow>
     BinUnmarshalBuff (kind_of v) (marshal_bytes v @ rest) = Inr (v, rest)"
proof (induction v arbitrary: rest)
  case (GStruct vs)
  then have "BinUnmarshalBuff_fields (map kind_of vs) (concat (map marshal_bytes vs) @ rest)
      = Inr (vs, rest)"
    by (intro BinUnmarshalBuff_fields_marshal) (auto simp: list_all_iff)
  with GStruct.prems show ?case by (simp add: BinUnmarshalBuff.simps(1))
qed (auto simp: BinUnmarshalBuff.simps(1) DecodeLenInt64Buf_eq codec unmarshal_int32_buf_marshal)

text \<open>The buffer decoder is the stricter one: whatever it accepts, \<open>BinUnmarshal\<close> decodes alike.\<close>

lemma DecodeLengthBuf_sound:
  assumes "DecodeLengthBuf buf = Inr (n, rest)" "buf \<noteq> []"
  obtains val where "DecodeLength buf = Inr (val, rest)" "sint val = n" "0 \<le> n"
proof (cases buf)
  case (Cons b t)
  show ?thesis
  proof (cases "b AND 0x80 = 0")
    case True
    have "uint b < 256" using unsigned_less [of b, where ?'a = int] by simp
    moreover have "min_int64 \<le> uint b"
      by (rule order_trans [of _ 0]) (simp_all add: min_int64_def)
    ultimately have "sint (ucast b :: int64) = uint b"
      using sint_i64 [of "uint b"] by (simp add: max_int64_def)
    moreover have "0 \<le> uint b" by simp
    moreover from True assms Cons have "uint b = n" "t = rest" by (simp_all add: DecodeLengthBuf_def)
    ultimately show ?thesis using True Cons that [of "ucast b"]
      by (simp add: DecodeLength_def)
  next
    case False
    have "b AND 0x7F \<le> 0x7F" by (rule word_and_le1)
    then have "unat (b AND 0x7F) \<le> 127" by (simp add: word_le_nat_alt)
    then have "unat ((b AND 0x7F) + 1) = unat (b AND 0x7F) + 1"
      by (simp add: unat_word_ariths)
    with False assms Cons that [of "pad_uint64 (b AND 0x7F) (take (unat (b AND 0x7F)) t)"]
    show ?thesis
      by (simp add: DecodeLengthBuf_def DecodeLength_def Let_def split: if_splits)
  qed
qed (use assms in simp)

lemma take_string_buf_sound:
  "take_string_buf (sint val) buf = Inr r \<Longrightarrow> 0 \<le> sint val \<Longrightarrow> take_string val buf = Inr r"
  by (simp add: take_string_buf_def take_string_def split: if_splits)

lemma unmarshal_int32_buf_sound: "unmarshal_int32_buf buf = Inr r \<Longrightarrow> unmarshal_int32 buf = Inr r"
  by (cases buf) (auto simp: unmarshal_int32_buf_def unmarshal_int32_def Let_def split: if_splits)

lemma BinUnmarshalBuff_string_sound:
  assumes "bind_res (DecodeLengthBuf buf) (\<lambda>(val, buf). bind_res (take_string_buf val buf) g) = Inr r"
    and "buf \<noteq> []"
  shows "bind_res (DecodeLength buf) (\<lambda>(val, buf). bind_res (take_string val buf) g) = Inr r"
proof -
  from assms obtain n b2 p where d: "DecodeLengthBuf buf = Inr (n, b2)"
    and t: "take_string_buf n b2 = Inr p" "g p = Inr r"
    by (auto simp: bind_res_Inr_iff split: prod.splits)
  from DecodeLengthBuf_sound [OF d assms(2)] obtain val
    where "DecodeLength buf = Inr (val, b2)" "sint val = n" "0 \<le> n" .
  with t show ?thesis by (auto dest: take_string_buf_sound)
qed

lemma BinUnmarshalBuff_imp:
  "BinUnmarshalBuff k buf = Inr r \<Longrightarrow> BinUnmarshal k buf = Inr r"
  "BinUnmarshalBuff_fields ks buf = Inr rs \<Longrightarrow> BinUnmarshal_fields ks buf = Inr rs"
proof (induction k buf and ks buf arbitrary: r and rs rule: BinUnmarshalBuff_BinUnmarshalBuff_fields.induct)
  case (1 k buf)
  then have ne: "buf \<noteq> []" by (auto simp: BinUnmarshalBuff.simps(1))
  show ?case
  proof (cases k)
    case KString
    with 1 ne show ?thesis
      by (simp add: BinUnmarshalBuff.simps(1) BinUnmarshal.simps(1) BinUnmarshalBuff_string_sound)
  next
    case KSlice
    with 1 ne show ?thesis
      by (simp add: BinUnmarshalBuff.simps(1) BinUnmarshal.simps(1) BinUnmarshalBuff_string_sound)
  next
    case (KStruct ks)
    with 1 ne show ?thesis
      by (auto simp: BinUnmarshalBuff.simps(1) BinUnmarshal.simps(1) bind_res_Inr_iff)
  qed (use 1 ne in \<open>simp_all add: BinUnmarshalBuff.simps(1) BinUnmarshal.simps(1)
        DecodeLenInt64Buf_eq unmarshal_int32_buf_sound\<close>)
next
  case (3 k ks buf)
  then show ?case by (fastforce simp: bind_res_Inr_iff)
qed simp_all

interpretation len_int64: codec "EncodeLenInt64 []" DecodeLenInt64 "\<lambda>_. True"
  by unfold_locales (simp add: DecodeLenInt64_Encode)

interpretation len_tag: codec EncodeLength DecodeLength "\<lambda>_. True"
  by unfold_locales (simp add: DecodeLength_Encode)

interpretation bin_struct: codec marshal_bytes "BinUnmarshal k" "\<lambda>v. marshallable v \<and> kind_of v = k"
  for k
  by unfold_locales (auto simp: BinUnmarshal_marshal)

section \<open>Properties\<close>

text \<open>
  C9: \<open>BinUnmarshal\<close> inverts \<open>BinMarshal\<close>. Every value the code can marshal is appended
  to the output without an error, and reading it back with the same shape returns the
  value and leaves exactly the bytes that follow it.
\<close>

theorem BinMarshal_roundtrip:
  assumes "marshallable v"
  shows "\<exists>bs. BinMarshal out v = Inr (out @ bs) \<and>
    BinUnmarshal (kind_of v) (bs @ rest) = Inr (v, rest)"
  using BinMarshal_marshal_bytes(1) [OF assms] bin_struct.dec_enc [of v "kind_of v"] assms by auto

theorem BinMarshal_roundtrip_witness:
  "\<exists>bs. BinMarshal [] (GStruct [GInt64 300, GString ''ab'', GInt32 200]) = Inr ([] @ bs) \<and>
    BinUnmarshal (KStruct [KInt64, KString, KInt32]) (bs @ [7])
      = Inr (GStruct [GInt64 300, GString ''ab'', GInt32 200], [7])"
  using BinMarshal_roundtrip [of "GStruct [GInt64 300, GString ''ab'', GInt32 200]" "[]" "[7]"] by simp

text \<open>
  C37: the buffer decoder \<open>BinUnmarshalBuff\<close> never disagrees with \<open>BinUnmarshal\<close>: whatever it
  accepts, the slice decoder reads as the same value with the same remainder.
\<close>

theorem BinUnmarshalBuff_refines:
  assumes "BinUnmarshalBuff k buf = Inr (v, rest)"
  shows "BinUnmarshal k buf = Inr (v, rest)"
  using assms by (rule BinUnmarshalBuff_imp(1))

theorem BinUnmarshalBuff_refines_witness:
  "BinUnmarshal KString [2, 97, 98, 1] = Inr (GString ''ab'', [1])"
  by (rule BinUnmarshalBuff_refines) code_simp

text \<open>
  \<open>BinUnmarshalBuff\<close> cannot read back an \<open>int32\<close> of 128 or more (or a negative one) that ends the
  buffer: it compares the size with the bytes left after the tag byte and asks for one byte too
  many, so it returns an error on exactly what \<open>BinMarshal\<close> wrote and \<open>BinUnmarshal\<close> accepts.
\<close>

theorem BinUnmarshalBuff_int32_at_end:
  assumes "\<not> w < 128"
  shows "BinMarshal [] (GInt32 w) = Inr (marshal_int32 w)
    \<and> BinUnmarshal KInt32 (marshal_int32 w) = Inr (GInt32 w, [])
    \<and> BinUnmarshalBuff KInt32 (marshal_int32 w) = Inl (Error ''wrong input data'')"
  using unmarshal_int32_buf_last [OF assms] unmarshal_int32_marshal [of w "[]"]
  by (simp add: BinUnmarshal.simps(1) BinUnmarshalBuff.simps(1))

theorem BinUnmarshalBuff_int32_at_end_witness:
  "marshal_int32 300 = [130, 1, 44]
   \<and> BinUnmarshalBuff KInt32 [130, 1, 44] = Inl (Error ''wrong input data'')"
proof -
  have m: "marshal_int32 300 = [130, 1, 44]" by code_simp
  have "\<not> (300 :: 32 word) < 128" by simp
  from BinUnmarshalBuff_int32_at_end [OF this] m show ?thesis by simp
qed

text \<open>
  the length prefix is self-delimiting: \<open>DecodeLength\<close> returns the encoded length, negative ones
  included, and shifts the slice by the encoding only; the encoding takes at most nine bytes.
\<close>

theorem EncodeLength_roundtrip:
  "DecodeLength (EncodeLength n @ rest) = Inr (n, rest) \<and> length (EncodeLength n) \<le> 9"
proof (cases n rule: EncodeLength_cases)
  case (long L bs)
  then show ?thesis using len_tag.dec_enc [of n rest] by simp
qed (use len_tag.dec_enc [of n rest] in simp)

end
