(* ===== verification/Converter_Text.thy ===== *)
theory Converter_Text
  imports Converter_Codec
begin

unbundle bit_operations_syntax

text \<open>
  The textual half of \<open>packages/converter/converter.go\<close>: sanitising and escaping of
  names, decimal and hexadecimal conversions, account addresses with their check
  digit, token amounts and names qualified by an ecosystem; and the address
  derivation of \<open>packages/crypto/converter.go\<close>, whose hashes are parameters.
\<close>

section \<open>Sanitising and escaping\<close>

definition sanitize_rune :: "string \<Rightarrow> rune \<Rightarrow> bool" where
  "sanitize_rune available ch \<longleftrightarrow>
     ch > 127 \<or> (48 \<le> ch \<and> ch \<le> 57) \<or> ch = 95 \<or> (97 \<le> ch \<and> ch \<le> 122) \<or>
     (65 \<le> ch \<and> ch \<le> 90) \<or> ch \<in> set (runes available)"

definition Sanitize :: "string \<Rightarrow> string \<Rightarrow> string" where
  "Sanitize name available = string_of_runes (filter (sanitize_rune available) (runes name))"

definition SanitizeScript :: "string \<Rightarrow> string" where
  "SanitizeScript input =
     str_replace ''script>'' ''script&gt;'' (str_replace ''<script'' ''&lt;script'' input)"

definition SanitizeName :: "string \<Rightarrow> string" where
  "SanitizeName input = Sanitize input ''- ''"

definition SanitizeNumber :: "string \<Rightarrow> string" where
  "SanitizeNumber input = Sanitize input ''+.- ''"

abbreviation dquote :: char where
  "dquote \<equiv> CHR 0x22"

abbreviation squote :: char where
  "squote \<equiv> CHR 0x27"

definition EscapeSQL :: "string \<Rightarrow> string" where
  "EscapeSQL name =
     str_replace [squote] [squote, squote]
       (str_replace '';'' [] (str_replace [dquote] [dquote, dquote] name))"

definition escape_name_char :: "char \<Rightarrow> bool" where
  "escape_name_char ch \<longleftrightarrow>
     is_digit ch \<or> ch = CHR ''_'' \<or> ch = CHR ''-'' \<or> is_lower ch \<or> is_upper ch \<or>
     ch \<in> set ''() ,''"

definition EscapeName :: "string \<Rightarrow> string" where
  "EscapeName name =
     (let out = dquote # filter escape_name_char name in
      if (\<exists>c \<in> set out. c \<in> set ''() ,'') then tl out else out @ [dquote])"

definition EscapeForJSON :: "string \<Rightarrow> string" where
  "EscapeForJSON data = str_replace [dquote] [CHR 0x5C, dquote] data"

definition StripTags :: "string \<Rightarrow> string" where
  "StripTags value = str_replace ''>'' ''&gt;'' (str_replace ''<'' ''&lt;'' value)"

definition IsLatin :: "string \<Rightarrow> bool" where
  "IsLatin name \<longleftrightarrow>
     list_all (\<lambda>ch. is_digit ch \<or> ch = CHR ''_'' \<or> ch = CHR ''-'' \<or> is_lower ch \<or> is_upper ch) name"

section \<open>Numbers and byte strings\<close>

definition UInt32ToStr :: "32 word \<Rightarrow> string" where
  "UInt32ToStr num = show_int (uint num)"

definition Int64ToStr :: "int64 \<Rightarrow> string" where
  "Int64ToStr num = show_int (sint num)"

definition Int64ToByte :: "int64 \<Rightarrow> bytes" where
  "Int64ToByte num = bytes_of_string (show_int (sint num))"

definition StrToInt64 :: "string \<Rightarrow> int64" where
  "StrToInt64 s = i64 (fst (ParseInt s))"

definition BytesToInt64 :: "bytes \<Rightarrow> int64" where
  "BytesToInt64 s = i64 (fst (ParseInt (string_of_bytes s)))"

definition StrToUint64 :: "string \<Rightarrow> uint64" where
  "StrToUint64 s = of_nat (fst (ParseUint s))"

definition hex_digit :: "nat \<Rightarrow> char" where
  "hex_digit d = (if d < 10 then char_of (48 + d) else char_of (87 + d))"

definition hex_value :: "char \<Rightarrow> nat option" where
  "hex_value c =
     (if 48 \<le> code c \<and> code c \<le> 57 then Some (code c - 48)
      else if 97 \<le> code c \<and> code c \<le> 102 then Some (code c - 87)
      else if 65 \<le> code c \<and> code c \<le> 70 then Some (code c - 55)
      else None)"

definition hex_encode :: "bytes \<Rightarrow> string" where
  "hex_encode bs = concat (map (\<lambda>b. [hex_digit (unat b div 16), hex_digit (unat b mod 16)]) bs)"

text \<open>
  \<open>hex.DecodeString\<close> (Go 1.10 and later): the bytes decoded before the first error,
  and whether there was one. \<open>HexToBin\<close> logs the error and returns those bytes.
\<close>

fun hex_decode :: "string \<Rightarrow> bytes \<times> bool" where
  "hex_decode [] = ([], True)"
| "hex_decode [c] = ([], False)"
| "hex_decode (c # d # s) =
     (case (hex_value c, hex_value d) of
        (Some h, Some l) \<Rightarrow> (let (bs, good) = hex_decode s in (of_nat (16 * h + l) # bs, good))
      | _ \<Rightarrow> ([], False))"

definition BinToHex :: "bytes \<Rightarrow> bytes" where
  "BinToHex bin = bytes_of_string (hex_encode bin)"

definition HexToBin :: "bytes \<Rightarrow> bytes" where
  "HexToBin hexdata = fst (hex_decode (string_of_bytes hexdata))"

fun show_hex :: "nat \<Rightarrow> string" where
  "show_hex n = (if n < 16 then [hex_digit n] else show_hex (n div 16) @ [hex_digit (n mod 16)])"

declare show_hex.simps [simp del]

text \<open>\<open>fmt.Sprintf("%0Wx", dec)\<close>: zero padding to the width \<open>W\<close>, after the sign of a negative value.\<close>

definition sprintf_hex :: "nat \<Rightarrow> int \<Rightarrow> string" where
  "sprintf_hex w dec =
     (if dec < 0 then CHR ''-'' #
        (let s = show_hex (nat (- dec)) in replicate (w - 1 - length s) CHR ''0'' @ s)
      else (let s = show_hex (nat dec) in replicate (w - length s) CHR ''0'' @ s))"

definition DecToBin :: "int64 \<Rightarrow> nat \<Rightarrow> bytes" where
  "DecToBin dec sizeBytes = HexToBin (bytes_of_string (sprintf_hex (sizeBytes * 2) (sint dec)))"

text \<open>
  The loop of \<open>BinToDec\<close> ors the bytes into a \<open>uint64\<close> at shifts \<open>8 * (l - i - 1)\<close>;
  a shift of 64 or more contributes nothing.
\<close>

fun bin_to_dec_loop :: "uint64 \<Rightarrow> bytes \<Rightarrow> uint64" where
  "bin_to_dec_loop a [] = a"
| "bin_to_dec_loop a (b # bs) = bin_to_dec_loop (a OR push_bit (8 * length bs) (ucast b)) bs"

definition BinToDec :: "bytes \<Rightarrow> int64" where
  "BinToDec bin = bin_to_dec_loop 0 bin"

definition BytesShift :: "bytes \<Rightarrow> int64 \<Rightarrow> (bytes \<times> bytes) res" where
  "BytesShift str index =
     (if int (length str) < sint index \<or> index = 0 then Inr ([], [])
      else if sint index < 0 then Inl (Panic ''slice bounds out of range'')
      else Inr (take (nat (sint index)) str, drop (nat (sint index)) str))"

definition BinToDecBytesShift :: "bytes \<Rightarrow> int64 \<Rightarrow> (int64 \<times> bytes) res" where
  "BinToDecBytesShift bin num =
     bind_res (BytesShift bin num) (\<lambda>(b, rest). Inr (BinToDec b, rest))"

definition BytesShiftReverse :: "bytes \<Rightarrow> int64 \<Rightarrow> (bytes \<times> bytes) res" where
  "BytesShiftReverse str v =
     (let slen = int (length str);
          index = (if slen < sint v then slen else sint v) in
      if index < 0 then Inl (Panic ''slice bounds out of range'')
      else Inr (drop (nat (slen - index)) str, take (nat (slen - index)) str))"

definition EncodeLengthPlusData :: "bytes \<Rightarrow> bytes" where
  "EncodeLengthPlusData data = EncodeLength (of_nat (length data)) @ data"

text \<open>
  \<open>NumString\<close> allocates \<open>out\<close> with \<open>len(in)+4\<close> zero bytes (a length, not a capacity) and
  prepends the groups of three digits to it.
\<close>

function num_groups :: "string \<Rightarrow> string \<Rightarrow> string" where
  "num_groups buf out =
     (if length buf > 3
      then num_groups (take (length buf - 3) buf) (CHR '' '' # drop (length buf - 3) buf @ out)
      else buf @ out)"
  by pat_completeness auto
termination
  by (relation "measure (\<lambda>(buf, out). length buf)") auto

declare num_groups.simps [simp del]

text \<open>
  On an input with a dot the function calls itself on the part before the first dot,
  which has none.
\<close>

definition NumString :: "string \<Rightarrow> string" where
  "NumString input =
     (let grp = (\<lambda>s. num_groups s (replicate (length s + 4) (CHR 0x00))) in
      if CHR ''.'' \<in> set input then
        let lr = str_split (CHR ''.'') input in grp (lr ! 0) @ ''.'' @ lr ! 1
      else grp input)"

section \<open>Addresses\<close>

fun check_sum_loop :: "nat \<Rightarrow> int \<Rightarrow> int \<Rightarrow> bytes \<Rightarrow> int \<times> int" where
  "check_sum_loop i one two [] = (one, two)"
| "check_sum_loop i one two (ch # val) =
     (let digit = uint (ch - 48) in
      if odd i then check_sum_loop (Suc i) (one + digit) two val
      else check_sum_loop (Suc i) one (two + digit) val)"

definition checkSum :: "bytes \<Rightarrow> int" where
  "checkSum val =
     (let (one, two) = check_sum_loop 0 0 0 val;
          checksum = (two + 3 * one) mod 10
      in if checksum > 0 then 10 - checksum else checksum)"

definition AddressToString :: "int64 \<Rightarrow> string" where
  "AddressToString address =
     (let num = show_nat (unat address);
          val = replicate (20 - length num) CHR ''0'' @ num
      in concat (map (\<lambda>i. take 4 (drop (i * 4) val) @ ''-'') [0..<4]) @ drop 16 val)"

text \<open>The part of \<open>StringToAddress\<close> after the sign has been dealt with.\<close>

definition parse_address :: "string \<Rightarrow> int64" where
  "parse_address address0 =
     (let address = (if length address0 < 20 then replicate (20 - length address0) CHR ''0'' @ address0
                     else address0);
          val = str_replace ''-'' [] address
      in if length val \<noteq> 20 then 0
         else
           let (ret, err) = ParseUint val in
           if err \<noteq> None then 0
           else if checkSum (bytes_of_string (take 19 val)) \<noteq> uint (byte_of_char (val ! 19) - 48) then 0
           else of_nat ret)"

definition StringToAddress :: "string \<Rightarrow> int64" where
  "StringToAddress address =
     (if address = [] then 0
      else if hd address = CHR ''-'' then
        let (n, err) = ParseInt address in
        if err \<noteq> None then 0 else parse_address (show_nat (unat (i64 n)))
      else parse_address address)"

definition IsValidAddress :: "string \<Rightarrow> bool" where
  "IsValidAddress address =
     (let val = str_replace ''-'' [] address in
      if length val \<noteq> 20 then False
      else if snd (ParseUint val) \<noteq> None then False
      else checkSum (bytes_of_string (take 19 val)) = uint (byte_of_char (val ! 19) - 48))"

text \<open>
  \<open>crypto.Address\<close> and \<open>crypto.KeyToAddress\<close>: the SHA-256, SHA-512 and CRC-64 functions of
  the standard library are parameters.
\<close>

definition CutPub :: "bytes \<Rightarrow> bytes" where
  "CutPub pubKey = (if length pubKey = 65 \<and> pubKey ! 0 = 4 then tl pubKey else pubKey)"

definition Address ::
  "(bytes \<Rightarrow> bytes) \<Rightarrow> (bytes \<Rightarrow> bytes) \<Rightarrow> (bytes \<Rightarrow> uint64) \<Rightarrow> bytes \<Rightarrow> int64" where
  "Address sha256 sha512 crc64 pubKey =
     (let crc = crc64 (sha512 (sha256 (CutPub pubKey)));
          num = show_nat (unat crc);
          val = replicate (20 - length num) CHR ''0'' @ num
      in crc - (crc mod 10) + of_int (checkSum (bytes_of_string (take (length val - 1) val))))"

definition KeyToAddress ::
  "(bytes \<Rightarrow> bytes) \<Rightarrow> (bytes \<Rightarrow> bytes) \<Rightarrow> (bytes \<Rightarrow> uint64) \<Rightarrow> bytes \<Rightarrow> string" where
  "KeyToAddress sha256 sha512 crc64 pubKey = AddressToString (Address sha256 sha512 crc64 pubKey)"

section \<open>Amounts and qualified names\<close>

definition EGSMoney :: "string \<Rightarrow> string" where
  "EGSMoney money0 =
     (let digit = 18;
          money = (if length money0 < digit + 1
                   then replicate (digit + 1 - length money0) CHR ''0'' @ money0 else money0);
          money = take (length money - digit) money @ ''.'' @ drop (length money - digit) money
      in trim_right ''.'' (trim_right ''0'' money))"

text \<open>
  \<open>ParseName\<close> matches \<open>(?is)^@(\d+)(\w[_\w\d]*)$\<close>. Under the flag \<open>i\<close> the class \<open>\w\<close> also
  contains U+017F and U+212A, the non-ASCII runes that fold to \<open>s\<close> and \<open>k\<close>. The greedy \<open>\d+\<close> takes all
  leading digits, but leaves the last one to the name when nothing else follows.
\<close>

definition rune_digit :: "rune \<Rightarrow> bool" where
  "rune_digit r \<longleftrightarrow> 48 \<le> r \<and> r \<le> 57"

definition rune_word :: "rune \<Rightarrow> bool" where
  "rune_word r \<longleftrightarrow> rune_digit r \<or> (65 \<le> r \<and> r \<le> 90) \<or> (97 \<le> r \<and> r \<le> 122) \<or> r = 95
     \<or> r = 0x17F \<or> r = 0x212A"

definition ParseName :: "string \<Rightarrow> int64 \<times> string" where
  "ParseName input =
     (case runes input of
        at # t \<Rightarrow>
          let ds = takeWhile rune_digit t;
              name = dropWhile rune_digit t;
              ds' = (if name = [] then butlast ds else ds);
              name' = (if name = [] then (if ds = [] then [] else [last ds]) else name)
          in if at = 64 \<and> ds' \<noteq> [] \<and> name' \<noteq> [] \<and> list_all rune_word name'
             then (StrToInt64 (string_of_runes ds'), string_of_runes name')
             else (0, [])
      | [] \<Rightarrow> (0, []))"

section \<open>Small helpers on slices and maps\<close>

text \<open>\<open>SliceReverse\<close> swaps \<open>s[i]\<close> and \<open>s[j]\<close> for \<open>i\<close> from the left and \<open>j\<close> from the right.\<close>

function slice_reverse_loop :: "'a list \<Rightarrow> nat \<Rightarrow> int \<Rightarrow> 'a list" where
  "slice_reverse_loop s i j =
     (if int i < j then slice_reverse_loop (s[i := s ! nat j, nat j := s ! i]) (Suc i) (j - 1) else s)"
  by pat_completeness auto
termination
  by (relation "measure (\<lambda>(s, i, j). nat (j - int i))") auto

declare slice_reverse_loop.simps [simp del]

definition SliceReverse :: "int64 list \<Rightarrow> int64 list" where
  "SliceReverse s = slice_reverse_loop s 0 (int (length s) - 1)"

fun InSliceString :: "string \<Rightarrow> string list \<Rightarrow> bool" where
  "InSliceString search [] = False"
| "InSliceString search (v # vs) = (if v = search then True else InSliceString search vs)"

section \<open>Lemmas\<close>

subsection \<open>Zero-padded decimals\<close>

definition pad20 :: "nat \<Rightarrow> string" where
  "pad20 n = replicate (20 - length (show_nat n)) CHR ''0'' @ show_nat n"

lemma length_show_nat_le: "n < 10 ^ k \<Longrightarrow> 0 < k \<Longrightarrow> length (show_nat n) \<le> k"
proof (induction k arbitrary: n)
  case (Suc k)
  show ?case
  proof (cases "n < 10")
    case True
    then show ?thesis by (simp add: show_nat.simps)
  next
    case False
    with Suc.prems have "0 < k" by (cases k) auto
    moreover from Suc.prems have "n div 10 < 10 ^ k" by (simp add: less_mult_imp_div_less)
    ultimately have "length (show_nat (n div 10)) \<le> k" by (rule Suc.IH [rotated])
    with False show ?thesis by (subst show_nat.simps) simp
  qed
qed simp

lemma length_pad20: "n < 10 ^ 20 \<Longrightarrow> length (pad20 n) = 20"
  using length_show_nat_le [of n 20] by (simp add: pad20_def)

lemma parse_zeros: "parse_uint_loop m 0 (replicate k CHR ''0'' @ s) = parse_uint_loop m 0 s"
  by (induction k) (simp_all add: is_digit_def)

lemma ParseUint_pad20: "n < 2 ^ 64 \<Longrightarrow> ParseUint (pad20 n) = (n, None)"
  by (simp add: ParseUint_def pad20_def parse_zeros parse_show_nat)

lemma pad20_split: "pad20 n = take 19 (pad20 n) @ [digit_char (n mod 10)]" if "n < 10 ^ 20"
proof -
  have "\<exists>s. pad20 n = s @ [digit_char (n mod 10)]"
    by (subst pad20_def, subst (2) show_nat.simps) auto
  then obtain s where s: "pad20 n = s @ [digit_char (n mod 10)]" ..
  then have "length s = 19" using length_pad20 [OF that] by simp
  with s show ?thesis by simp
qed

lemma pad20_head: "take 19 (pad20 n) = take 19 (pad20 m)" if "n div 10 = m div 10" "n < 10 ^ 20" "m < 10 ^ 20"
proof -
  have "take 19 (pad20 n) = replicate (19 - length (show_nat (n div 10))) CHR ''0'' @ show_nat (n div 10)"
    if n: "n < 10 ^ 20" "\<not> n < 10" for n
  proof -
    have "length (show_nat n) = Suc (length (show_nat (n div 10)))" "length (show_nat n) \<le> 20"
      using n length_show_nat_le [of n 20] by (simp_all add: show_nat.simps [of n])
    then show ?thesis using n by (simp add: pad20_def show_nat.simps [of n])
  qed
  moreover have "take 19 (pad20 n) = replicate 19 CHR ''0''" if "n < 10" for n
    using that by (simp add: pad20_def show_nat.simps [of n])
  moreover have "n < 10 \<longleftrightarrow> m < 10" using that(1) by auto
  ultimately show ?thesis using that by (cases "n < 10") auto
qed

lemma pad20_digits: "list_all is_digit (pad20 n)"
  using show_nat_digits [of n] by (auto simp: pad20_def list_all_iff is_digit_def)

subsection \<open>Addresses\<close>

lemma concat_str_replace_minus: "list_all is_digit s \<Longrightarrow> str_replace ''-'' [] s = s"
  by (induction s) (auto simp: str_replace_single_Cons is_digit_def)

lemma str_replace_minus_append: "str_replace ''-'' [] (s @ t) = str_replace ''-'' [] s @ str_replace ''-'' [] t"
  by (simp add: str_replace_single)

lemma list_all_take_drop: "list_all P xs \<Longrightarrow> list_all P (take n xs) \<and> list_all P (drop n xs)"
  by (simp add: list_all_iff) (meson in_set_dropD in_set_takeD)

lemma AddressToString_pad20: "AddressToString a = (let val = pad20 (unat a) in
    take 4 val @ ''-'' @ take 4 (drop 4 val) @ ''-'' @ take 4 (drop 8 val) @ ''-''
      @ take 4 (drop 12 val) @ ''-'' @ drop 16 val)"
  by (simp add: AddressToString_def pad20_def Let_def upt_rec)

lemma take_drop_chunks:
  "take 4 val @ take 4 (drop 4 val) @ take 4 (drop 8 val) @ take 4 (drop 12 val) @ drop 16 val = val"
proof -
  have "take 4 (drop n val) @ drop (n + 4) val = drop n val" for n
    by (metis append_take_drop_id drop_drop add.commute)
  from this [of 0] this [of 4] this [of 8] this [of 12] show ?thesis by simp
qed

lemma str_replace_minus_Cons: "str_replace ''-'' [] (CHR ''-'' # s) = str_replace ''-'' [] s"
  by (simp add: str_replace_single_Cons)

lemma AddressToString_no_minus: "str_replace ''-'' [] (AddressToString a) = pad20 (unat a)"
proof -
  let ?v = "pad20 (unat a)"
  have d: "str_replace ''-'' [] (take m (drop n ?v)) = take m (drop n ?v)" for m n
    using list_all_take_drop [OF pad20_digits [of "unat a"], of n] list_all_take_drop
    by (blast intro: concat_str_replace_minus)
  have d0: "str_replace ''-'' [] (take 4 ?v) = take 4 ?v" "str_replace ''-'' [] (drop 16 ?v) = drop 16 ?v"
    using list_all_take_drop [OF pad20_digits [of "unat a"]] by (blast intro: concat_str_replace_minus)+
  show ?thesis
    by (simp add: AddressToString_pad20 Let_def str_replace_minus_append str_replace_minus_Cons d d0
        take_drop_chunks)
qed

lemma unat_less_10_20: "unat (a :: 64 word) < 10 ^ 20"
  using unsigned_less [of a, where ?'a = nat] by simp

text \<open>The check digit of an address is right when its last digit is the check sum of the others.\<close>

definition check_digit_ok :: "nat \<Rightarrow> bool" where
  "check_digit_ok n \<longleftrightarrow> checkSum (bytes_of_string (take 19 (pad20 n))) = int (n mod 10)"

lemma last_digit_pad20: "n < 10 ^ 20 \<Longrightarrow> uint (byte_of_char (pad20 n ! 19) - 48) = int (n mod 10)"
proof -
  assume n: "n < 10 ^ 20"
  have "pad20 n ! 19 = (take 19 (pad20 n) @ [digit_char (n mod 10)]) ! 19"
    using pad20_split [OF n] by simp
  then have "pad20 n ! 19 = digit_char (n mod 10)" by (simp add: nth_append length_pad20 [OF n])
  moreover have "(of_nat (48 + n mod 10) - 48 :: byte) = of_nat (n mod 10)" by simp
  moreover have "unat (of_nat (n mod 10) :: byte) = n mod 10" by (simp add: unat_byte_of_nat)
  ultimately show ?thesis by (simp add: byte_of_char_def) (metis of_nat_unat)
qed

lemma length_AddressToString: "length (AddressToString a) = 24"
  using length_pad20 [OF unat_less_10_20 [of a]] by (simp add: AddressToString_pad20 Let_def)

lemma AddressToString_hd: "AddressToString a \<noteq> []" "hd (AddressToString a) \<noteq> CHR ''-''"
proof -
  obtain c s where cs: "pad20 (unat a) = c # s"
    using length_pad20 [OF unat_less_10_20 [of a]] by (cases "pad20 (unat a)") auto
  with pad20_digits [of "unat a"] have "is_digit c" by simp
  then show "AddressToString a \<noteq> []" "hd (AddressToString a) \<noteq> CHR ''-''"
    using is_digit_not_sign [of c] by (simp_all add: AddressToString_pad20 Let_def cs)
qed

lemma IsValidAddress_AddressToString: "IsValidAddress (AddressToString a) \<longleftrightarrow> check_digit_ok (unat a)"
proof -
  have "unat a < 2 ^ 64" using unsigned_less [of a, where ?'a = nat] by simp
  then show ?thesis
    by (simp add: IsValidAddress_def AddressToString_no_minus length_pad20 [OF unat_less_10_20]
        ParseUint_pad20 last_digit_pad20 [OF unat_less_10_20] check_digit_ok_def)
qed

lemma StringToAddress_AddressToString:
  "StringToAddress (AddressToString a) = (if check_digit_ok (unat a) then a else 0)"
proof -
  have "unat a < 2 ^ 64" using unsigned_less [of a, where ?'a = nat] by simp
  then show ?thesis
    by (simp add: StringToAddress_def AddressToString_hd parse_address_def length_AddressToString
        AddressToString_no_minus length_pad20 [OF unat_less_10_20] ParseUint_pad20
        last_digit_pad20 [OF unat_less_10_20] check_digit_ok_def)
qed

lemma checkSum_range: "0 \<le> checkSum val \<and> checkSum val \<le> 9"
  by (auto simp: checkSum_def Let_def split: prod.split)

text \<open>Replacing the last digit by the check sum never overflows: the largest prefix has check sum 4.\<close>

lemma pad20_max: "pad20 18446744073709551615 = ''18446744073709551615''"
  by (simp add: pad20_def show_nat.simps digit_char_literal)

lemma checkSum_max_prefix:
  "checkSum (bytes_of_string (take 19 (pad20 18446744073709551615))) = 4"
  unfolding pad20_max by code_simp

lemma address_no_overflow:
  assumes "n < 2 ^ 64"
  shows "n - n mod 10 + nat (checkSum (bytes_of_string (take 19 (pad20 n)))) < 2 ^ 64"
proof (cases "n div 10 = 1844674407370955161")
  case True
  then have "take 19 (pad20 n) = take 19 (pad20 18446744073709551615)"
    using assms by (intro pad20_head) auto
  moreover have "n - n mod 10 = 18446744073709551610" using True by (simp add: minus_mod_eq_mult_div)
  ultimately show ?thesis by (simp add: checkSum_max_prefix)
next
  case False
  with assms have "n div 10 \<le> 1844674407370955160" by simp
  then have "n - n mod 10 \<le> 18446744073709551600" by (simp add: minus_mod_eq_mult_div)
  moreover have "nat (checkSum (bytes_of_string (take 19 (pad20 n)))) \<le> 9"
    using checkSum_range [of "bytes_of_string (take 19 (pad20 n))"] by linarith
  ultimately have "n - n mod 10 + nat (checkSum (bytes_of_string (take 19 (pad20 n))))
      \<le> 18446744073709551600 + 9" by (rule add_mono)
  then show ?thesis by (rule le_less_trans) simp
qed

lemma check_digit_ok_Address: "check_digit_ok (unat (Address sha256 sha512 crc64 pubKey))"
proof -
  define crc where "crc = crc64 (sha512 (sha256 (CutPub pubKey)))"
  define n where "n = unat crc"
  define cs where "cs = checkSum (bytes_of_string (take 19 (pad20 n)))"
  have n: "n < 2 ^ 64" "n < 10 ^ 20"
    using unsigned_less [of crc, where ?'a = nat] by (simp_all add: n_def)
  have cs: "0 \<le> cs" "cs \<le> 9" using checkSum_range by (simp_all add: cs_def)
  have "Address sha256 sha512 crc64 pubKey = crc - (crc mod 10) + of_int cs"
    unfolding Address_def Let_def crc_def [symmetric] n_def [symmetric] pad20_def [symmetric]
    by (simp add: length_pad20 [OF n(2)] cs_def)
  also have "\<dots> = of_nat (n - n mod 10 + nat cs)"
  proof -
    have "crc - (crc mod 10) = of_nat (n - n mod 10)"
      by (simp add: n_def word_arith_nat_mod of_nat_diff)
    with cs show ?thesis by simp
  qed
  finally have eq: "Address sha256 sha512 crc64 pubKey = of_nat (n - n mod 10 + nat cs)" .
  define m where "m = n - n mod 10 + nat cs"
  have m: "m < 2 ^ 64" "m < 10 ^ 20" using address_no_overflow [OF n(1)] by (simp_all add: cs_def m_def)
  have "unat (Address sha256 sha512 crc64 pubKey) = m"
    unfolding eq m_def [symmetric] using m by (simp add: unat_of_nat)
  moreover have "m div 10 = n div 10" "m mod 10 = nat cs"
    using cs by (simp_all add: m_def minus_mod_eq_mult_div)
  moreover from this have "take 19 (pad20 m) = take 19 (pad20 n)" using m n by (intro pad20_head)
  ultimately show ?thesis using cs by (simp add: check_digit_ok_def cs_def)
qed

subsection \<open>Hexadecimal\<close>

lemma hex_value_digit: "d < 16 \<Longrightarrow> hex_value (hex_digit d) = Some d"
  by (simp add: hex_value_def hex_digit_def)

lemma hex_decode_encode: "hex_decode (hex_encode bs) = (bs, True)"
proof (induction bs)
  case (Cons b bs)
  have "16 * (unat b div 16) + unat b mod 16 = unat b" by simp
  moreover have "unat b div 16 < 16" by (rule less_mult_imp_div_less) simp
  moreover have "hex_encode (b # bs) = hex_digit (unat b div 16) # hex_digit (unat b mod 16) # hex_encode bs"
    by (simp add: hex_encode_def)
  ultimately show ?case using Cons by (simp add: hex_value_digit del: of_nat_add of_nat_mult)
qed (simp add: hex_encode_def)

lemma HexToBin_BinToHex: "HexToBin (BinToHex bin) = bin"
  by (simp add: HexToBin_def BinToHex_def hex_decode_encode)

text \<open>\<open>pad_hex k n\<close>: the \<open>k\<close> low hexadecimal digits of \<open>n\<close>, most significant first.\<close>

fun pad_hex :: "nat \<Rightarrow> nat \<Rightarrow> string" where
  "pad_hex 0 n = []"
| "pad_hex (Suc k) n = pad_hex k (n div 16) @ [hex_digit (n mod 16)]"

lemma length_pad_hex [simp]: "length (pad_hex k n) = k"
  by (induction k arbitrary: n) auto

lemma pad_hex_0: "pad_hex k 0 = replicate k CHR ''0''"
proof (induction k)
  case (Suc k)
  have "hex_digit 0 = CHR ''0''" by code_simp
  with Suc show ?case by (simp add: replicate_append_same)
qed simp

lemma length_show_hex_le: "n < 16 ^ k \<Longrightarrow> 0 < k \<Longrightarrow> length (show_hex n) \<le> k"
proof (induction k arbitrary: n)
  case (Suc k)
  show ?case
  proof (cases "n < 16")
    case True
    then show ?thesis by (simp add: show_hex.simps)
  next
    case False
    with Suc.prems have "0 < k" by (cases k) auto
    moreover from Suc.prems have "n div 16 < 16 ^ k" by (simp add: less_mult_imp_div_less)
    ultimately have "length (show_hex (n div 16)) \<le> k" by (rule Suc.IH [rotated])
    with False show ?thesis by (subst show_hex.simps) simp
  qed
qed simp

lemma pad_hex_show_hex:
  "n < 16 ^ k \<Longrightarrow> 0 < k \<Longrightarrow> replicate (k - length (show_hex n)) CHR ''0'' @ show_hex n = pad_hex k n"
proof (induction k arbitrary: n)
  case (Suc k)
  show ?case
  proof (cases "n < 16")
    case True
    then show ?thesis by (simp add: show_hex.simps pad_hex_0)
  next
    case False
    with Suc.prems have "0 < k" by (cases k) auto
    moreover from Suc.prems have "n div 16 < 16 ^ k" by (simp add: less_mult_imp_div_less)
    ultimately have "replicate (k - length (show_hex (n div 16))) CHR ''0'' @ show_hex (n div 16)
        = pad_hex k (n div 16)" by (rule Suc.IH [rotated])
    with False show ?thesis by (simp add: show_hex.simps [of n])
  qed
qed simp

lemma hex_encode_append: "hex_encode (xs @ ys) = hex_encode xs @ hex_encode ys"
  by (simp add: hex_encode_def)

lemma hex_encode_be_bytes: "hex_encode (be_bytes k n) = pad_hex (2 * k) n"
proof (induction k arbitrary: n)
  case (Suc k)
  have "unat (of_nat n :: byte) = n mod 256" by (rule unat_byte_of_nat)
  moreover have "n mod 256 div 16 = n div 16 mod 16" "n mod 256 mod 16 = n mod 16"
    using mod_mult2_eq [of n 16 16] by (simp_all add: mod_mod_cancel)
  moreover have "n div 256 = n div 16 div 16" by (simp flip: div_mult2_eq)
  moreover have "be_bytes (Suc k) n = be_bytes k (n div 256) @ [of_nat n]" by (simp add: be_bytes_def)
  ultimately show ?case using Suc [of "n div 256"]
    by (simp add: hex_encode_append) (simp add: hex_encode_def)
qed (simp add: be_bytes_def hex_encode_def)

lemma DecToBin_be_bytes:
  assumes "0 \<le> sint dec" "nat (sint dec) < 256 ^ k" "0 < k"
  shows "DecToBin dec k = be_bytes k (nat (sint dec))"
proof -
  have "(256 :: nat) ^ k = 16 ^ (2 * k)" by (simp add: power_mult)
  with assms have "sprintf_hex (k * 2) (sint dec) = pad_hex (2 * k) (nat (sint dec))"
    using pad_hex_show_hex [of "nat (sint dec)" "2 * k"] by (simp add: sprintf_hex_def mult.commute)
  then show ?thesis
    by (simp add: DecToBin_def HexToBin_def hex_decode_encode flip: hex_encode_be_bytes)
qed

lemma push_bit_8_or_byte: "push_bit 8 c OR ucast (b :: byte) = push_bit 8 c + (ucast b :: 64 word)"
proof -
  have "push_bit 8 c AND ucast b = (0 :: 64 word)"
  proof (rule bit_word_eqI)
    fix n
    assume "n < LENGTH(64)"
    have "bit b n \<Longrightarrow> n < 8" using bit_imp_le_length [of b n] by simp
    then show "bit (push_bit 8 c AND ucast b :: 64 word) n = bit 0 n"
      by (auto simp: bit_simps)
  qed
  then show ?thesis by (rule disjunctive_add_eq_or [symmetric])
qed

lemma bin_to_dec_loop_push:
  "bin_to_dec_loop (push_bit (8 * length bs) c) bs = push_bit (8 * length bs) c + of_nat (be_nat bs)"
proof (induction bs arbitrary: c)
  case Nil
  show ?case by (simp add: be_nat_def)
next
  case (Cons b bs)
  let ?c = "push_bit 8 c OR ucast b :: 64 word"
  have "push_bit (8 * length (b # bs)) c OR push_bit (8 * length bs) (ucast b)
      = push_bit (8 * length bs) ?c"
    by (simp add: push_bit_or push_bit_push_bit add.commute)
  then have "bin_to_dec_loop (push_bit (8 * length (b # bs)) c) (b # bs)
      = push_bit (8 * length bs) ?c + of_nat (be_nat bs)"
    by (simp only: bin_to_dec_loop.simps Cons)
  moreover have "(2 :: 64 word) ^ (8 * length bs) = 256 ^ length bs" by (simp add: power_mult)
  then have "push_bit (8 * length bs) ?c
      = push_bit (8 * length (b # bs)) c + of_nat (unat b * 256 ^ length bs)"
    by (simp only: push_bit_8_or_byte)
      (simp add: push_bit_eq_mult algebra_simps power_add)
  ultimately show ?case by (simp only: be_nat_Cons of_nat_add ac_simps)
qed

lemma BinToDec_be_nat: "BinToDec bin = of_nat (be_nat bin)"
  using bin_to_dec_loop_push [of bin 0] by (simp add: BinToDec_def)

subsection \<open>Slices and strings\<close>

lemma length_slice_reverse_loop: "length (slice_reverse_loop s i j) = length s"
proof (induction s i j rule: slice_reverse_loop.induct)
  case (1 s i j)
  then show ?case by (cases "int i < j") (simp_all add: slice_reverse_loop.simps [of s i j])
qed

lemma nth_slice_reverse_loop:
  "j < int (length s) \<Longrightarrow> p < length s \<Longrightarrow>
   slice_reverse_loop s i j ! p = (if i \<le> p \<and> int p \<le> j then s ! (i + nat j - p) else s ! p)"
proof (induction s i j rule: slice_reverse_loop.induct)
  case (1 s i j)
  show ?case
  proof (cases "int i < j")
    case True
    with 1 have IH: "slice_reverse_loop (s[i := s ! nat j, nat j := s ! i]) (Suc i) (j - 1) ! p
      = (if Suc i \<le> p \<and> int p \<le> j - 1 then s[i := s ! nat j, nat j := s ! i] ! (Suc i + nat (j - 1) - p)
         else s[i := s ! nat j, nat j := s ! i] ! p)" by simp
    have idx: "Suc (i + nat (j - 1)) - p = i + nat j - p" using True by simp
    consider "p < i" | "p = i" | "i < p" "int p < j" | "int p = j" | "j < int p" by linarith
    then show ?thesis
      unfolding slice_reverse_loop.simps [of s i j]
      by cases (use True 1 in \<open>auto simp: IH idx nth_list_update\<close>)
  next
    case False
    moreover have "i + nat j - p = p" if "i \<le> p" "int p \<le> j" using False that by simp
    ultimately show ?thesis by (simp add: slice_reverse_loop.simps [of s i j])
  qed
qed

lemma SliceReverse_rev: "SliceReverse s = rev s"
  by (rule nth_equalityI)
    (auto simp: SliceReverse_def length_slice_reverse_loop nth_slice_reverse_loop rev_nth
      nat_diff_distrib)

lemma num_groups_suffix: "\<exists>p. num_groups buf out = p @ out"
proof (induction buf out rule: num_groups.induct)
  case (1 buf out)
  show ?case
  proof (cases "length buf > 3")
    case True
    with 1 obtain p where
      "num_groups (take (length buf - 3) buf) (CHR '' '' # drop (length buf - 3) buf @ out)
        = p @ CHR '' '' # drop (length buf - 3) buf @ out" by blast
    with True have "num_groups buf out = (p @ CHR '' '' # drop (length buf - 3) buf) @ out"
      by (simp add: num_groups.simps [of buf out])
    then show ?thesis by blast
  qed (auto simp: num_groups.simps [of buf out])
qed

lemma list_all_filter_self: "list_all P xs \<Longrightarrow> filter P xs = xs"
  by (induction xs) auto

lemma Sanitize_runes: "runes (Sanitize name available) = filter (sanitize_rune available) (runes name)"
proof -
  have "list_all valid_rune (filter (sanitize_rune available) (runes name))"
    using runes_valid [of name] by (auto simp: list_all_iff)
  then show ?thesis by (simp add: Sanitize_def runes_string_of_runes)
qed

section \<open>Properties\<close>

text \<open>
  C36: every account address derived from a public key carries the right check digit,
  whatever the three hash functions return: its printed form passes \<open>IsValidAddress\<close> and
  \<open>StringToAddress\<close> reads it back. Replacing the last decimal digit of the checksum by the
  check digit never overflows 64 bits.
\<close>

theorem key_address_valid:
  "IsValidAddress (KeyToAddress sha256 sha512 crc64 pubKey)
   \<and> StringToAddress (KeyToAddress sha256 sha512 crc64 pubKey) = Address sha256 sha512 crc64 pubKey"
  by (simp add: KeyToAddress_def IsValidAddress_AddressToString StringToAddress_AddressToString
      check_digit_ok_Address)

text \<open>
  for any account number, \<open>IsValidAddress\<close> and \<open>StringToAddress\<close> agree on its printed form:
  a valid address is read back as the number it was printed from, an invalid one as 0.
\<close>

theorem address_print_parse:
  "StringToAddress (AddressToString a) = (if IsValidAddress (AddressToString a) then a else 0)
   \<and> length (AddressToString a) = 24"
  by (simp add: IsValidAddress_AddressToString StringToAddress_AddressToString length_AddressToString)

text \<open>
  the fixed-width integers of a block header survive encoding: \<open>DecToBin\<close> writes a
  non-negative number that fits in \<open>k\<close> bytes as exactly \<open>k\<close> big-endian bytes, and
  \<open>BinToDecBytesShift\<close> reads it back and leaves the bytes behind it.
\<close>

theorem DecToBin_roundtrip:
  assumes "0 \<le> sint n" "nat (sint n) < 256 ^ k" "0 < k" "k < 2 ^ 63"
  shows "BinToDecBytesShift (DecToBin n k @ rest) (of_nat k) = Inr (n, rest) \<and> length (DecToBin n k) = k"
proof -
  have d: "DecToBin n k = be_bytes k (nat (sint n))" using assms by (intro DecToBin_be_bytes)
  have k: "sint (of_nat k :: int64) = int k" using assms(4) by (rule sint_of_nat64)
  then have "(of_nat k :: int64) \<noteq> 0" using assms(3) by (metis of_nat_0 of_nat_less_0_iff sint_0 less_irrefl of_nat_0_less_iff)
  then have "BytesShift (DecToBin n k @ rest) (of_nat k) = Inr (be_bytes k (nat (sint n)), rest)"
    by (simp add: BytesShift_def d k)
  moreover have "(of_nat (nat (sint n)) :: int64) = n"
    using assms(1) by (simp add: of_nat_nat)
  ultimately show ?thesis
    using assms by (simp add: BinToDecBytesShift_def BinToDec_be_nat be_nat_be_bytes d)
qed

theorem DecToBin_roundtrip_witness:
  "BinToDecBytesShift (DecToBin 1000 2 @ [9]) 2 = Inr (1000, [9])"
  using DecToBin_roundtrip [of 1000 2 "[9]"] by simp

text \<open>
  \<open>Sanitize\<close> keeps only letters, digits, underscores, non-ASCII runes and the runes of its second
  argument, and sanitising twice changes nothing.
\<close>

theorem Sanitize_idempotent:
  "list_all (sanitize_rune available) (runes (Sanitize name available))
   \<and> Sanitize (Sanitize name available) available = Sanitize name available"
proof -
  have "Sanitize (Sanitize name available) available
      = string_of_runes (filter (sanitize_rune available) (runes (Sanitize name available)))"
    by (rule Sanitize_def)
  also have "\<dots> = string_of_runes (filter (sanitize_rune available) (runes name))"
    by (simp add: Sanitize_runes)
  also have "\<dots> = Sanitize name available" by (simp only: Sanitize_def)
  finally show ?thesis by (simp add: Sanitize_runes list_all_iff)
qed

text \<open>
  a name that went through \<open>EscapeName\<close> cannot break out of the SQL text around it: the only
  quotes are the two that may enclose it, and no semicolon or single quote survives.
\<close>

theorem EscapeName_safe:
  "\<exists>body. list_all escape_name_char body
     \<and> (EscapeName name = body \<or> EscapeName name = dquote # body @ [dquote])
     \<and> CHR '';'' \<notin> set (EscapeName name) \<and> squote \<notin> set (EscapeName name)
     \<and> dquote \<notin> set body"
proof (intro exI conjI)
  let ?body = "filter escape_name_char name"
  have bad: "\<not> escape_name_char c" if "c \<in> {CHR '';'', squote, dquote}" for c
    using that by (auto simp: escape_name_char_def is_digit_def is_lower_def is_upper_def)
  show "list_all escape_name_char ?body" by (simp add: list_all_iff)
  show "EscapeName name = ?body \<or> EscapeName name = dquote # ?body @ [dquote]"
    by (simp add: EscapeName_def Let_def)
  show "CHR '';'' \<notin> set (EscapeName name)" "squote \<notin> set (EscapeName name)" "dquote \<notin> set ?body"
    using bad by (auto simp: EscapeName_def Let_def)
qed

text \<open>\<open>SliceReverse\<close>, which swaps elements in place, computes the reversed slice.\<close>

theorem SliceReverse_correct: "SliceReverse s = rev s"
  by (rule SliceReverse_rev)

text \<open>
  \<open>NumString\<close> does not return what its comment shows. For an input without a dot the result
  always ends in \<open>len(in)+4\<close> zero bytes, so \<open>7123456\<close> gives the expected text followed by eleven of them.
\<close>

theorem NumString_trailing_zeros:
  "(\<forall>input. CHR ''.'' \<notin> set input \<longrightarrow>
      (\<exists>s. NumString input = s @ replicate (length input + 4) (CHR 0x00)))
   \<and> NumString ''7123456'' = ''7 123 456'' @ replicate 11 (CHR 0x00)"
proof
  show "\<forall>input. CHR ''.'' \<notin> set input \<longrightarrow>
      (\<exists>s. NumString input = s @ replicate (length input + 4) (CHR 0x00))"
    using num_groups_suffix by (simp add: NumString_def Let_def)
  show "NumString ''7123456'' = ''7 123 456'' @ replicate 11 (CHR 0x00)"
    by (simp add: NumString_def Let_def num_groups.simps)
qed

theorem NumString_trailing_zeros_witness:
  "\<exists>s. NumString ''12'' = s @ replicate 6 (CHR 0x00)"
proof -
  have "CHR ''.'' \<notin> set ''12''" by simp
  with NumString_trailing_zeros have
    "\<exists>s. NumString ''12'' = s @ replicate (length ''12'' + 4) (CHR 0x00)" by blast
  then show ?thesis by simp
qed

end
