(* ===== verification/Ordered_Map.thy ===== *)
theory Ordered_Map
  imports Go_Std "HOL-Library.AList" "HOL-Library.List_Lexorder" "HOL-Library.Multiset"
begin

text \<open>
  \<open>packages/types/map.go\<close>: the insertion-ordered string map behind every \<open>map\<close> value
  of the contract language. A \<open>Map\<close> is a Go map from keys to links of a doubly linked
  list plus the head and tail pointers; here the links live in an explicit store of
  addresses. The interface the rest of the system relies on is the locale
  \<open>ordered_map\<close>: every operation acts on the list of key-value pairs in insertion
  order. The linked structure interprets it.
\<close>

section \<open>The specification: pairs in insertion order\<close>

type_synonym 'v pairs = "(string \<times> 'v) list"

fun pairs_set :: "string \<Rightarrow> 'v \<Rightarrow> 'v pairs \<Rightarrow> 'v pairs" where
  "pairs_set k v [] = [(k, v)]"
| "pairs_set k v ((k', v') # ps) = (if k' = k then (k, v) # ps else (k', v') # pairs_set k v ps)"

definition pairs_remove :: "string \<Rightarrow> 'v pairs \<Rightarrow> 'v pairs" where
  "pairs_remove k ps = filter (\<lambda>p. fst p \<noteq> k) ps"

lemma map_of_pairs_set: "map_of (pairs_set k v ps) = (map_of ps)(k \<mapsto> v)"
  by (induction ps) auto

lemma map_of_pairs_remove: "map_of (pairs_remove k ps) = (map_of ps)(k := None)"
  by (induction ps) (auto simp: pairs_remove_def)

lemma fst_set_pairs_set: "set (map fst (pairs_set k v ps)) = insert k (set (map fst ps))"
proof (induction ps)
  case (Cons p ps)
  then show ?case by (cases p) (simp add: insert_commute)
qed simp

lemma distinct_pairs_set: "distinct (map fst ps) \<Longrightarrow> distinct (map fst (pairs_set k v ps))"
proof (induction ps)
  case (Cons p ps)
  then show ?case using fst_set_pairs_set [of k v ps] by (cases p) auto
qed simp

lemma distinct_pairs_remove: "distinct (map fst ps) \<Longrightarrow> distinct (map fst (pairs_remove k ps))"
  by (induction ps) (auto simp: pairs_remove_def)

lemma pairs_set_new: "k \<notin> set (map fst ps) \<Longrightarrow> pairs_set k v ps = ps @ [(k, v)]"
  by (induction ps) auto

lemma pairs_set_old: "pairs_set k v (xs @ (k, v') # ys) = xs @ (k, v) # ys" if "k \<notin> set (map fst xs)"
  using that by (induction xs) auto

lemma map_fst_pairs_set_old: "k \<in> set (map fst ps) \<Longrightarrow> map fst (pairs_set k v ps) = map fst ps"
proof (induction ps)
  case (Cons p ps)
  then show ?case by (cases p) auto
qed simp

locale ordered_map =
  fixes new :: 'm
    and Set :: "'m \<Rightarrow> string \<Rightarrow> 'v \<Rightarrow> 'm"
    and Get :: "'m \<Rightarrow> string \<Rightarrow> 'v option"
    and Remove :: "'m \<Rightarrow> string \<Rightarrow> 'm res"
    and Size :: "'m \<Rightarrow> nat"
    and Keys :: "'m \<Rightarrow> string list res"
    and Values :: "'m \<Rightarrow> 'v list res"
    and invar :: "'m \<Rightarrow> bool"
    and abs :: "'m \<Rightarrow> 'v pairs"
  assumes invar_new: "invar new" and abs_new: "abs new = []"
    and invar_distinct: "invar m \<Longrightarrow> distinct (map fst (abs m))"
    and invar_Set: "invar m \<Longrightarrow> invar (Set m k v)"
    and abs_Set: "invar m \<Longrightarrow> abs (Set m k v) = pairs_set k v (abs m)"
    and Remove_abs: "invar m \<Longrightarrow>
      \<exists>m'. Remove m k = Inr m' \<and> invar m' \<and> abs m' = pairs_remove k (abs m)"
    and Get_abs: "invar m \<Longrightarrow> Get m k = map_of (abs m) k"
    and Size_abs: "invar m \<Longrightarrow> Size m = length (abs m)"
    and Keys_abs: "invar m \<Longrightarrow> Keys m = Inr (map fst (abs m))"
    and Values_abs: "invar m \<Longrightarrow> Values m = Inr (map snd (abs m))"
begin

lemma Get_Set: "invar m \<Longrightarrow> Get (Set m k v) k' = (if k' = k then Some v else Get m k')"
  by (simp add: Get_abs invar_Set abs_Set map_of_pairs_set)

lemma Get_Remove:
  assumes "invar m"
  shows "\<exists>m'. Remove m k = Inr m' \<and> invar m' \<and> (\<forall>k'. Get m' k' = (if k' = k then None else Get m k'))"
  using Remove_abs [OF assms, of k] assms by (auto simp: Get_abs map_of_pairs_remove)

lemma Keys_Set_old:
  assumes "invar m" "Get m k = Some v'"
  shows "Keys (Set m k v) = Keys m"
proof -
  have "k \<in> set (map fst (abs m))"
    using assms by (auto simp: Get_abs dest!: map_of_SomeD intro: rev_image_eqI)
  then show ?thesis using assms(1) by (simp add: Keys_abs invar_Set abs_Set map_fst_pairs_set_old)
qed

lemma Keys_Set_new:
  assumes "invar m" "Get m k = None" "Keys m = Inr ks"
  shows "Keys (Set m k v) = Inr (ks @ [k])"
proof -
  have "k \<notin> set (map fst (abs m))" using assms by (simp add: Get_abs map_of_eq_None_iff)
  then have "pairs_set k v (abs m) = abs m @ [(k, v)]" by (rule pairs_set_new)
  then show ?thesis using assms by (simp add: Keys_abs invar_Set abs_Set)
qed

lemma Size_Keys: "invar m \<Longrightarrow> \<exists>ks. Keys m = Inr ks \<and> distinct ks \<and> length ks = Size m"
  by (simp add: Keys_abs Size_abs invar_distinct)

lemma fold_Set_invar: "invar m \<Longrightarrow> invar (fold (\<lambda>(k, v) m. Set m k v) kvs m)"
  by (induction kvs arbitrary: m) (auto simp: invar_Set)

lemma fold_Set_abs:
  "invar m \<Longrightarrow> abs (fold (\<lambda>(k, v) m. Set m k v) kvs m) = fold (\<lambda>(k, v). pairs_set k v) kvs (abs m)"
  by (induction kvs arbitrary: m) (auto simp: invar_Set abs_Set)

end

section \<open>The linked hash map\<close>

type_synonym ref = nat

record 'v Link =
  l_key :: string
  l_value :: 'v
  l_next :: "ref option"
  l_prev :: "ref option"

text \<open>
  \<open>m_m\<close> is the Go map, an association list without duplicate keys whose order carries no
  meaning; \<open>m_links\<close> holds the links, \<open>m_fresh\<close> is the address of the next one.
\<close>

record 'v Map =
  m_m :: "(string \<times> ref) list"
  m_head :: "ref option"
  m_tail :: "ref option"
  m_links :: "ref \<Rightarrow> 'v Link option"
  m_fresh :: ref

definition newLink :: "string \<Rightarrow> 'v \<Rightarrow> 'v Link" where
  "newLink k v = \<lparr>l_key = k, l_value = v, l_next = None, l_prev = None\<rparr>"

definition NewMap :: "'v Map" where
  "NewMap = \<lparr>m_m = [], m_head = None, m_tail = None, m_links = (\<lambda>_. None), m_fresh = 0\<rparr>"

text \<open>Assignment to a field of the link at an address.\<close>

definition upd_link :: "ref \<Rightarrow> ('v Link \<Rightarrow> 'v Link) \<Rightarrow> 'v Map \<Rightarrow> 'v Map" where
  "upd_link r f mp =
     (case m_links mp r of None \<Rightarrow> mp | Some l \<Rightarrow> mp\<lparr>m_links := (m_links mp)(r \<mapsto> f l)\<rparr>)"

definition Map_Set :: "'v Map \<Rightarrow> string \<Rightarrow> 'v \<Rightarrow> 'v Map" where
  "Map_Set mp k v =
     (case map_of (m_m mp) k of
        None \<Rightarrow>
          let r = m_fresh mp;
              mp = mp\<lparr>m_links := (m_links mp)(r \<mapsto> newLink k v), m_fresh := Suc r\<rparr>;
              mp = (case m_tail mp of
                      None \<Rightarrow> mp\<lparr>m_head := Some r, m_tail := Some r\<rparr>
                    | Some t \<Rightarrow>
                        let mp = upd_link t (\<lambda>l. l\<lparr>l_next := Some r\<rparr>) mp;
                            mp = upd_link r (\<lambda>l. l\<lparr>l_prev := m_tail mp\<rparr>) mp
                        in mp\<lparr>m_tail := Some r\<rparr>)
          in mp\<lparr>m_m := AList.update k r (m_m mp)\<rparr>
      | Some r \<Rightarrow> upd_link r (\<lambda>l. l\<lparr>l_value := v\<rparr>) mp)"

definition Map_Get :: "'v Map \<Rightarrow> string \<Rightarrow> 'v option" where
  "Map_Get mp k =
     (case map_of (m_m mp) k of None \<Rightarrow> None | Some r \<Rightarrow> map_option l_value (m_links mp r))"

definition Map_Remove :: "'v Map \<Rightarrow> string \<Rightarrow> 'v Map res" where
  "Map_Remove mp k =
     (case map_of (m_m mp) k of
        None \<Rightarrow> Inr mp
      | Some r \<Rightarrow>
          let mp = mp\<lparr>m_m := AList.delete k (m_m mp)\<rparr>;
              nx = Option.bind (m_links mp r) l_next;
              pv = Option.bind (m_links mp r) l_prev
          in if m_head mp = Some r \<and> m_tail mp = Some r then Inr (mp\<lparr>m_head := None, m_tail := None\<rparr>)
             else if m_tail mp = Some r then
               (case pv of
                  None \<Rightarrow> Inl (Panic ''nil pointer dereference'')
                | Some p \<Rightarrow> Inr (upd_link p (\<lambda>l. l\<lparr>l_next := None\<rparr>) (mp\<lparr>m_tail := Some p\<rparr>)))
             else if m_head mp = Some r then
               (case nx of
                  None \<Rightarrow> Inl (Panic ''nil pointer dereference'')
                | Some n \<Rightarrow> Inr (upd_link n (\<lambda>l. l\<lparr>l_prev := None\<rparr>) (mp\<lparr>m_head := Some n\<rparr>)))
             else
               (case (pv, nx) of
                  (Some p, Some n) \<Rightarrow>
                    Inr (upd_link n (\<lambda>l. l\<lparr>l_prev := Some p\<rparr>) (upd_link p (\<lambda>l. l\<lparr>l_next := Some n\<rparr>) mp))
                | _ \<Rightarrow> Inl (Panic ''nil pointer dereference'')))"

definition Map_Size :: "'v Map \<Rightarrow> nat" where
  "Map_Size mp = length (m_m mp)"

definition Map_IsEmpty :: "'v Map \<Rightarrow> bool" where
  "Map_IsEmpty mp \<longleftrightarrow> Map_Size mp = 0"

text \<open>
  The loop of \<open>Keys\<close> and \<open>Values\<close> follows \<open>next\<close> from the head and stores each element
  at the next index of a slice of \<open>Size()\<close> elements; one element too many panics. The
  links it meets are returned; \<open>pad\<close> fills the indices that were not reached.
\<close>

fun walk :: "(ref \<Rightarrow> 'v Link option) \<Rightarrow> nat \<Rightarrow> ref option \<Rightarrow> 'v Link list res" where
  "walk st n None = Inr []"
| "walk st 0 (Some r) = Inl (Panic ''index out of range'')"
| "walk st (Suc n) (Some r) =
     (case st r of
        None \<Rightarrow> Inl (Panic ''nil pointer dereference'')
      | Some l \<Rightarrow> bind_res (walk st n (l_next l)) (\<lambda>ls. Inr (l # ls)))"

definition pad :: "nat \<Rightarrow> 'a \<Rightarrow> 'a list \<Rightarrow> 'a list" where
  "pad n z xs = xs @ replicate (n - length xs) z"

definition Map_Keys :: "'v Map \<Rightarrow> string list res" where
  "Map_Keys mp =
     bind_res (walk (m_links mp) (Map_Size mp) (m_head mp)) (\<lambda>ls. Inr (pad (Map_Size mp) [] (map l_key ls)))"

definition Map_Values :: "'v \<Rightarrow> 'v Map \<Rightarrow> 'v list res" where
  "Map_Values nil mp =
     bind_res (walk (m_links mp) (Map_Size mp) (m_head mp)) (\<lambda>ls. Inr (pad (Map_Size mp) nil (map l_value ls)))"

definition Map_Clear :: "'v Map \<Rightarrow> 'v Map" where
  "Map_Clear mp = mp\<lparr>m_m := [], m_head := None, m_tail := None\<rparr>"

text \<open>
  \<open>MarshalJSON\<close> writes the members in list order; only quotation marks of the keys are
  escaped. \<open>json.Marshal\<close> of the values is the parameter \<open>jm\<close>. The loop is not bounded by
  \<open>Size()\<close>; the number of links ever allocated bounds the chain, since no link occurs
  in it twice.
\<close>

fun marshal_members :: "('v \<Rightarrow> string res) \<Rightarrow> 'v Link list \<Rightarrow> string \<Rightarrow> string res" where
  "marshal_members jm [] s = Inr s"
| "marshal_members jm (l # ls) s =
     bind_res (jm (l_value l)) (\<lambda>v.
       marshal_members jm ls
         (s @ [CHR 0x22] @ str_replace [CHR 0x22] [CHR 0x5C, CHR 0x22] (l_key l) @ [CHR 0x22, CHR 0x3A]
            @ v @ [CHR 0x2C]))"

definition Map_MarshalJSON :: "('v \<Rightarrow> string res) \<Rightarrow> 'v Map \<Rightarrow> string res" where
  "Map_MarshalJSON jm mp =
     bind_res (walk (m_links mp) (m_fresh mp) (m_head mp)) (\<lambda>ls.
       bind_res (marshal_members jm ls ''{'') (\<lambda>s.
         Inr ((if length s > 1 then butlast s else s) @ ''}'')))"

text \<open>
  \<open>ConvertMap\<close> and \<open>LoadMap\<close>. A decoded JSON value is a Go map, a slice or a leaf; a Go map
  is an association list whose order is the order the runtime happens to iterate in.
\<close>

datatype 'v gtree = GMap "(string \<times> 'v gtree) list" | GSlice "'v gtree list" | GLeaf 'v

datatype 'v cval = CMap "(string \<times> 'v cval) list" | CSlice "'v cval list" | CLeaf 'v

text \<open>The order of \<open>sort.Strings\<close>: bytewise lexicographic.\<close>

definition string_rank :: "string \<Rightarrow> nat list" where
  "string_rank = map of_char"

text \<open>
  The nested maps of a converted value are given by their pairs in insertion order; what
  \<open>Set\<close> does to them is \<open>pairs_set\<close>, which \<open>Map_Set\<close> refines (below). A slice is converted
  in place, so the caller's slice is the returned one.
\<close>

primrec ConvertMap :: "'v gtree \<Rightarrow> 'v cval" where
  "ConvertMap (GMap kvs) =
     CMap (fold (\<lambda>(k, v). pairs_set k v)
             (sort_key (\<lambda>p. string_rank (fst p)) (map (map_prod id ConvertMap) kvs)) [])"
| "ConvertMap (GSlice xs) = CSlice (map ConvertMap xs)"
| "ConvertMap (GLeaf v) = CLeaf v"

definition LoadMap :: "(string \<times> 'v gtree) list \<Rightarrow> 'v cval Map" where
  "LoadMap init = fold (\<lambda>(k, v) mp. Map_Set mp k (ConvertMap v)) init NewMap"

section \<open>The invariant\<close>

text \<open>
  \<open>seg st p s rs l n\<close>: the links \<open>rs\<close> are chained from \<open>s\<close>; the first points back to \<open>p\<close>, \<open>l\<close> is the
  last one (or \<open>p\<close>), whose next pointer is \<open>n\<close>.
\<close>

fun seg :: "(ref \<Rightarrow> 'v Link option) \<Rightarrow> ref option \<Rightarrow> ref option \<Rightarrow> ref list \<Rightarrow>
    ref option \<Rightarrow> ref option \<Rightarrow> bool" where
  "seg st p s [] l n \<longleftrightarrow> s = n \<and> l = p"
| "seg st p s (r # rs) l n \<longleftrightarrow>
     s = Some r \<and> (\<exists>k. st r = Some k \<and> l_prev k = p \<and> seg st (Some r) (l_next k) rs l n)"

lemma seg_append:
  "seg st p s (xs @ ys) l n \<longleftrightarrow> (\<exists>q i. seg st p s xs q i \<and> seg st q i ys l n)"
  by (induction xs arbitrary: p s) auto

lemma seg_frame [simp]: "r \<notin> set rs \<Longrightarrow> seg (st(r := x)) p s rs l n = seg st p s rs l n"
  by (induction rs arbitrary: p s) auto

lemma seg_dom: "seg st p s rs l n \<Longrightarrow> r \<in> set rs \<Longrightarrow> \<exists>k. st r = Some k"
  by (induction rs arbitrary: p s) auto

lemma seg_same_links:
  assumes "\<And>r. r \<in> set rs \<Longrightarrow> map_option l_next (st' r) = map_option l_next (st r)
      \<and> map_option l_prev (st' r) = map_option l_prev (st r)"
    and "seg st p s rs l n"
  shows "seg st' p s rs l n"
  using assms
proof (induction rs arbitrary: p s)
  case (Cons r rs)
  from Cons.prems(2) obtain k where k: "s = Some r" "st r = Some k" "l_prev k = p"
      "seg st (Some r) (l_next k) rs l n" by auto
  with Cons.prems(1) [of r] obtain k' where k': "st' r = Some k'" "l_next k' = l_next k" "l_prev k' = p"
    by (cases "st' r") auto
  have "seg st' (Some r) (l_next k) rs l n" using Cons.prems(1) k(4) by (intro Cons.IH) auto
  with k k' show ?case by simp
qed simp

lemma walk_seg:
  "seg st p s rs l None \<Longrightarrow> walk st (length rs) s = Inr (map (\<lambda>r. the (st r)) rs)"
  by (induction rs arbitrary: p s) auto

text \<open>The last link of a chain, its predecessor pointer and what re-linking it does.\<close>

lemma seg_snoc_iff:
  "seg st p s (xs @ [r]) l n \<longleftrightarrow>
     l = Some r \<and> (\<exists>k q. st r = Some k \<and> l_prev k = q \<and> l_next k = n \<and> seg st p s xs q (Some r))"
  by (auto simp: seg_append)

lemma seg_relink_last:
  assumes "seg st p s (xs @ [r]) (Some r) n" "distinct (xs @ [r])" "st r = Some k"
  shows "seg (st(r \<mapsto> k\<lparr>l_next := n'\<rparr>)) p s (xs @ [r]) (Some r) n'"
  using assms by (auto simp: seg_snoc_iff)

lemma seg_relink_first:
  assumes "seg st p s (r # xs) l n" "distinct (r # xs)" "st r = Some k"
  shows "seg (st(r \<mapsto> k\<lparr>l_prev := p'\<rparr>)) p' s (r # xs) l n"
  using assms by auto

definition entry :: "(ref \<Rightarrow> 'v Link option) \<Rightarrow> ref \<Rightarrow> string \<times> 'v" where
  "entry st r = (l_key (the (st r)), l_value (the (st r)))"

definition lmap_inv :: "'v Map \<Rightarrow> ref list \<Rightarrow> bool" where
  "lmap_inv mp rs \<longleftrightarrow>
     seg (m_links mp) None (m_head mp) rs (m_tail mp) None \<and> distinct rs \<and> (\<forall>r \<in> set rs. r < m_fresh mp)
     \<and> distinct (map (fst \<circ> entry (m_links mp)) rs)
     \<and> distinct (map fst (m_m mp)) \<and> length (m_m mp) = length rs
     \<and> (\<forall>k r. map_of (m_m mp) k = Some r \<longleftrightarrow> r \<in> set rs \<and> fst (entry (m_links mp) r) = k)"

definition lmap_invar :: "'v Map \<Rightarrow> bool" where
  "lmap_invar mp \<longleftrightarrow> (\<exists>rs. lmap_inv mp rs)"

definition lmap_abs :: "'v Map \<Rightarrow> 'v pairs" where
  "lmap_abs mp =
     (case walk (m_links mp) (Map_Size mp) (m_head mp) of
        Inl e \<Rightarrow> [] | Inr ls \<Rightarrow> map (\<lambda>l. (l_key l, l_value l)) ls)"

lemma lmap_inv_walk:
  "lmap_inv mp rs \<Longrightarrow> walk (m_links mp) (Map_Size mp) (m_head mp) = Inr (map (\<lambda>r. the (m_links mp r)) rs)"
  unfolding lmap_inv_def Map_Size_def by (metis walk_seg)

lemma lmap_abs_eq: "lmap_inv mp rs \<Longrightarrow> lmap_abs mp = map (entry (m_links mp)) rs"
  by (simp add: lmap_abs_def lmap_inv_walk entry_def comp_def)

lemma lmap_inv_lookup:
  "lmap_inv mp rs \<Longrightarrow> map_of (m_m mp) k = Some r \<longleftrightarrow> r \<in> set rs \<and> fst (entry (m_links mp) r) = k"
  by (simp only: lmap_inv_def)

lemma lmap_inv_None:
  assumes "lmap_inv mp rs" "map_of (m_m mp) k = None"
  shows "k \<notin> set (map fst (lmap_abs mp))"
  using lmap_inv_lookup [OF assms(1), of k] assms(2) by (auto simp: lmap_abs_eq [OF assms(1)])

lemma lmap_inv_Some:
  assumes "lmap_inv mp rs" "map_of (m_m mp) k = Some r"
  obtains xs ys l where "rs = xs @ r # ys" "m_links mp r = Some l" "l_key l = k"
proof -
  from assms have r: "r \<in> set rs" "fst (entry (m_links mp) r) = k" by (auto simp: lmap_inv_def)
  moreover from r(1) obtain xs ys where "rs = xs @ r # ys" by (meson split_list)
  moreover from assms(1) r(1) obtain l where "m_links mp r = Some l"
    unfolding lmap_inv_def by (meson seg_dom)
  ultimately show ?thesis using that by (simp add: entry_def)
qed

lemma lmap_Set_old:
  assumes inv: "lmap_inv mp rs" and r: "map_of (m_m mp) k = Some r"
  shows "lmap_inv (Map_Set mp k v) rs \<and> lmap_abs (Map_Set mp k v) = pairs_set k v (lmap_abs mp)"
proof -
  from lmap_inv_Some [OF inv r] obtain xs ys l
    where rs: "rs = xs @ r # ys" and l: "m_links mp r = Some l" "l_key l = k" .
  let ?st = "(m_links mp)(r \<mapsto> l\<lparr>l_value := v\<rparr>)"
  have mp': "Map_Set mp k v = mp\<lparr>m_links := ?st\<rparr>" by (simp add: Map_Set_def r upd_link_def l)
  have keys: "fst (entry ?st q) = fst (entry (m_links mp) q)" for q by (simp add: entry_def l)
  have "seg ?st None (m_head mp) rs (m_tail mp) None"
    by (rule seg_same_links [of _ _ "m_links mp"]) (use inv l in \<open>auto simp: lmap_inv_def\<close>)
  with inv have inv': "lmap_inv (Map_Set mp k v) rs"
    by (simp add: lmap_inv_def mp' keys comp_def)
  have k: "entry ?st r = (k, v)" "entry (m_links mp) r = (k, l_value l)" by (simp_all add: entry_def l)
  have d: "r \<notin> set xs" "r \<notin> set ys" using inv by (auto simp: lmap_inv_def rs)
  have "map (entry ?st) xs = map (entry (m_links mp)) xs" "map (entry ?st) ys = map (entry (m_links mp)) ys"
    using d by (auto simp: entry_def)
  moreover have "k \<notin> set (map fst (map (entry (m_links mp)) xs))"
    using inv k(2) by (auto simp: lmap_inv_def rs)
  moreover have "lmap_abs (Map_Set mp k v) = map (entry ?st) rs"
    using lmap_abs_eq [OF inv'] by (simp add: mp')
  ultimately have "lmap_abs (Map_Set mp k v) = pairs_set k v (lmap_abs mp)"
    by (simp add: lmap_abs_eq [OF inv] rs k pairs_set_old)
  with inv' show ?thesis by simp
qed

lemma length_update_new: "k \<notin> fst ` set xs \<Longrightarrow> length (AList.update k v xs) = Suc (length xs)"
  by (induction xs) auto

lemma length_delete_old:
  "distinct (map fst xs) \<Longrightarrow> k \<in> fst ` set xs \<Longrightarrow> length xs = Suc (length (AList.delete k xs))"
proof (induction xs)
  case (Cons x xs)
  then show ?case
  proof (cases "fst x = k")
    case True
    with Cons.prems have "k \<notin> fst ` set xs" by auto
    with True show ?thesis by (cases x) (simp add: AList.delete_id)
  qed (cases x, auto)
qed simp

lemma entry_frame: "r \<notin> set rs \<Longrightarrow> map (entry (st(r := x))) rs = map (entry st) rs"
  by (induction rs) (auto simp: entry_def)

lemma entry_key_frame: "r \<notin> set rs \<Longrightarrow> map (fst \<circ> entry (st(r := x))) rs = map (fst \<circ> entry st) rs"
  by (induction rs) (auto simp: entry_def)

text \<open>
  The shape every operation leaves behind: a chain of links, whose keys are looked up by the
  Go map. \<open>lmap_invI\<close> builds the invariant and the abstraction of a new state from it.
\<close>

lemma lmap_invI:
  assumes "seg (m_links mp) None (m_head mp) rs (m_tail mp) None" "distinct rs"
    and "\<And>r. r \<in> set rs \<Longrightarrow> r < m_fresh mp"
    and "map (entry (m_links mp)) rs = ps" "distinct (map fst ps)"
    and "distinct (map fst (m_m mp))" "length (m_m mp) = length rs"
    and "\<And>k r. map_of (m_m mp) k = Some r \<longleftrightarrow> r \<in> set rs \<and> fst (entry (m_links mp) r) = k"
  shows "lmap_invar mp \<and> lmap_abs mp = ps"
proof -
  have "map (fst \<circ> entry (m_links mp)) rs = map fst ps" by (simp add: assms(4) [symmetric])
  then have "lmap_inv mp rs" using assms by (simp add: lmap_inv_def)
  then show ?thesis using assms(4) by (auto simp: lmap_invar_def lmap_abs_eq)
qed

lemma lmap_Set_new:
  assumes inv: "lmap_inv mp rs" and k: "map_of (m_m mp) k = None"
  shows "lmap_invar (Map_Set mp k v) \<and> lmap_abs (Map_Set mp k v) = pairs_set k v (lmap_abs mp)"
proof -
  define r where "r = m_fresh mp"
  have r: "r \<notin> set rs" using inv by (auto simp: lmap_inv_def r_def)
  have seg: "seg (m_links mp) None (m_head mp) rs (m_tail mp) None" and dist: "distinct rs"
    using inv by (simp_all add: lmap_inv_def)
  obtain st' where st': "m_links (Map_Set mp k v) = st'" "m_tail (Map_Set mp k v) = Some r"
      "m_m (Map_Set mp k v) = AList.update k r (m_m mp)" "m_fresh (Map_Set mp k v) = Suc r"
    and chain: "seg st' None (m_head (Map_Set mp k v)) (rs @ [r]) (Some r) None"
    and ents: "map (entry st') (rs @ [r]) = map (entry (m_links mp)) rs @ [(k, v)]"
  proof (cases rs rule: rev_cases)
    case Nil
    with seg have ht: "m_tail mp = None" by simp
    show ?thesis
      by (rule that [of "(m_links mp)(r \<mapsto> newLink k v)"])
        (simp_all add: Map_Set_def Let_def k ht r_def Nil newLink_def entry_def)
  next
    case (snoc zs t)
    with seg have tl: "m_tail mp = Some t" by (simp add: seg_snoc_iff)
    from seg snoc obtain lt where lt: "m_links mp t = Some lt" using seg_dom by fastforce
    have rt: "r \<noteq> t" using r snoc by auto
    let ?st1 = "(m_links mp)(t \<mapsto> lt\<lparr>l_next := Some r\<rparr>)"
    let ?new = "(newLink k v)\<lparr>l_prev := Some t\<rparr>"
    let ?st = "?st1(r \<mapsto> ?new)"
    have eq: "((m_links mp)(r \<mapsto> newLink k v))(t \<mapsto> lt\<lparr>l_next := Some r\<rparr>, r \<mapsto> ?new) = ?st"
      using rt by (auto simp: fun_eq_iff)
    have "seg ?st1 None (m_head mp) rs (Some t) (Some r)"
      using seg_relink_last [of "m_links mp" None "m_head mp" zs t None lt "Some r"] seg dist lt tl snoc by simp
    then have "seg ?st None (m_head mp) (rs @ [r]) (Some r) None"
      using r by (simp add: seg_snoc_iff newLink_def)
    moreover have "map (entry ?st) (rs @ [r]) = map (entry (m_links mp)) rs @ [(k, v)]"
      using r lt by (auto simp: entry_def newLink_def)
    ultimately show ?thesis
      by (intro that [of ?st])
        (simp_all add: Map_Set_def k tl Let_def upd_link_def lt rt rt [symmetric] r_def [symmetric] eq)
  qed
  have "map (entry st') rs = map (entry (m_links mp)) rs" and er: "entry st' r = (k, v)" using ents by auto
  then have er': "\<And>q. q \<in> set rs \<Longrightarrow> entry st' q = entry (m_links mp) q" by (simp add: map_eq_conv)
  have ps: "pairs_set k v (lmap_abs mp) = map (entry (m_links mp)) rs @ [(k, v)]"
    using pairs_set_new [OF lmap_inv_None [OF inv k]] by (simp add: lmap_abs_eq [OF inv])
  have nokey: "q \<in> set rs \<Longrightarrow> fst (entry (m_links mp) q) \<noteq> k" for q
    using lmap_inv_None [OF inv k] by (auto simp: lmap_abs_eq [OF inv])
  have knew: "k \<notin> fst ` set (m_m mp)" using k by (simp add: map_of_eq_None_iff)
  show ?thesis
  proof (rule lmap_invI [where rs = "rs @ [r]"])
    show "distinct (map fst (pairs_set k v (lmap_abs mp)))"
      using inv by (intro distinct_pairs_set) (simp add: lmap_abs_eq [OF inv] lmap_inv_def)
    show "length (m_m (Map_Set mp k v)) = length (rs @ [r])"
      using inv knew by (simp add: st' lmap_inv_def length_update_new)
    show "map_of (m_m (Map_Set mp k v)) k' = Some q \<longleftrightarrow>
        q \<in> set (rs @ [r]) \<and> fst (entry (m_links (Map_Set mp k v)) q) = k'" for k' q
      using lmap_inv_lookup [OF inv, of k' q] er er' nokey r
      by (auto simp: st' update_conv' split: if_splits)
  qed (use inv r ents chain st' ps distinct_update in \<open>auto simp: lmap_inv_def r_def less_Suc_eq\<close>)
qed

lemma seg_last_eq: "seg st p s (xs @ [t]) l n \<Longrightarrow> l = Some t"
  by (simp add: seg_snoc_iff)

lemma seg_last_mem: "seg st p s xs l n \<Longrightarrow> xs \<noteq> [] \<Longrightarrow> \<exists>t \<in> set xs. l = Some t"
  by (cases xs rule: rev_cases) (auto simp: seg_snoc_iff)

lemma entry_relink:
  "st p = Some lp \<Longrightarrow> entry (st(p \<mapsto> lp\<lparr>l_next := n\<rparr>)) = entry st"
  "st p = Some lp \<Longrightarrow> entry (st(p \<mapsto> lp\<lparr>l_prev := n\<rparr>)) = entry st"
  by (auto simp: entry_def fun_eq_iff)

text \<open>Unlinking \<open>r\<close>: the four cases of \<open>Remove\<close>, by what stands before and behind the link.\<close>

lemma lmap_unlink:
  assumes inv: "lmap_inv mp (xs @ r # ys)" and k: "map_of (m_m mp) k = Some r"
  obtains mp' where "Map_Remove mp k = Inr mp'" "m_m mp' = AList.delete k (m_m mp)"
    "m_fresh mp' = m_fresh mp" "entry (m_links mp') = entry (m_links mp)"
    "seg (m_links mp') None (m_head mp') (xs @ ys) (m_tail mp') None"
proof -
  have dist: "distinct (xs @ r # ys)" using inv by (simp add: lmap_inv_def)
  from inv obtain q l where
    sx: "seg (m_links mp) None (m_head mp) xs q (Some r)" and l: "m_links mp r = Some l" "l_prev l = q"
    and sy: "seg (m_links mp) (Some r) (l_next l) ys (m_tail mp) None"
    by (auto simp: lmap_inv_def seg_append)
  show ?thesis
  proof (cases xs rule: rev_cases)
    case Nil
    then have hd: "m_head mp = Some r" using sx by simp
    show ?thesis
    proof (cases ys)
      case Nil
      with sy have "m_tail mp = Some r" by simp
      with hd \<open>xs = []\<close> Nil k show ?thesis
        by (intro that [of "mp\<lparr>m_m := AList.delete k (m_m mp), m_head := None, m_tail := None\<rparr>"])
          (simp_all add: Map_Remove_def Let_def)
    next
      case (Cons n ws)
      with sy obtain ln where ln: "l_next l = Some n" "m_links mp n = Some ln" by auto
      have tl: "m_tail mp \<noteq> Some r"
        using seg_last_mem [OF sy] dist Cons by auto
      let ?st = "(m_links mp)(n \<mapsto> ln\<lparr>l_prev := None\<rparr>)"
      have "seg ?st None (Some n) ys (m_tail mp) None"
        using seg_relink_first [of "m_links mp" "Some r" "l_next l" n ws "m_tail mp" None ln None]
          sy Cons ln dist by simp
      with hd tl \<open>xs = []\<close> k l ln entry_relink(2) [of "m_links mp" n ln None] show ?thesis
        by (intro that [of "mp\<lparr>m_m := AList.delete k (m_m mp), m_head := Some n, m_links := ?st\<rparr>"])
          (simp_all add: Map_Remove_def Let_def upd_link_def)
    qed
  next
    case (snoc zs p)
    have q: "q = Some p" using sx snoc by (simp add: seg_last_eq)
    from sx snoc obtain lp where lp: "m_links mp p = Some lp" using seg_dom by fastforce
    have hd: "m_head mp \<noteq> Some r"
      using sx dist snoc by (cases zs) auto
    let ?st = "\<lambda>n. (m_links mp)(p \<mapsto> lp\<lparr>l_next := n\<rparr>)"
    have sx': "seg (?st n) None (m_head mp) xs (Some p) n" for n
      using seg_relink_last [of "m_links mp" None "m_head mp" zs p "Some r" lp n] sx q lp dist snoc by simp
    show ?thesis
    proof (cases ys)
      case Nil
      with sy have "m_tail mp = Some r" by simp
      with hd Nil k l q lp sx' [of None] entry_relink(1) [of "m_links mp" p lp None] show ?thesis
        by (intro that [of "mp\<lparr>m_m := AList.delete k (m_m mp), m_tail := Some p, m_links := ?st None\<rparr>"])
          (simp_all add: Map_Remove_def Let_def upd_link_def)
    next
      case (Cons n ws)
      with sy obtain ln where ln: "l_next l = Some n" "m_links mp n = Some ln" by auto
      have tl: "m_tail mp \<noteq> Some r"
        using seg_last_mem [OF sy] dist Cons by auto
      have pn: "p \<noteq> n" "p \<notin> set ys" "n \<notin> set xs" using dist snoc Cons by auto
      let ?st2 = "(?st (Some n))(n \<mapsto> ln\<lparr>l_prev := Some p\<rparr>)"
      have "seg (?st (Some n)) (Some r) (Some n) (n # ws) (m_tail mp) None"
        using sy pn Cons ln by simp
      then have "seg ?st2 (Some p) (Some n) ys (m_tail mp) None"
        using seg_relink_first [of "?st (Some n)" "Some r" "Some n" n ws "m_tail mp" None ln "Some p"]
          Cons ln pn dist by simp
      moreover have "seg ?st2 None (m_head mp) xs (Some p) (Some n)" using sx' [of "Some n"] pn by simp
      moreover have "entry ?st2 = entry (m_links mp)" using lp ln pn by (auto simp: entry_def fun_eq_iff)
      ultimately show ?thesis using hd tl k l q lp ln pn
        by (intro that [of "mp\<lparr>m_m := AList.delete k (m_m mp), m_links := ?st2\<rparr>"])
          (auto simp: Map_Remove_def Let_def upd_link_def seg_append)
    qed
  qed
qed

lemma lmap_Remove:
  assumes inv: "lmap_inv mp rs"
  shows "\<exists>mp'. Map_Remove mp k = Inr mp' \<and> lmap_invar mp' \<and> lmap_abs mp' = pairs_remove k (lmap_abs mp)"
proof (cases "map_of (m_m mp) k")
  case None
  then have "pairs_remove k (lmap_abs mp) = lmap_abs mp"
    using lmap_inv_None [OF inv None] by (auto simp: pairs_remove_def filter_id_conv intro: rev_image_eqI)
  with None inv show ?thesis by (auto simp: Map_Remove_def lmap_invar_def)
next
  case (Some r)
  from lmap_inv_Some [OF inv Some] obtain xs ys l
    where rs: "rs = xs @ r # ys" and l: "m_links mp r = Some l" "l_key l = k" .
  from lmap_unlink [OF inv [unfolded rs] Some] obtain mp' where mp': "Map_Remove mp k = Inr mp'"
      "m_m mp' = AList.delete k (m_m mp)" "m_fresh mp' = m_fresh mp" "entry (m_links mp') = entry (m_links mp)"
      "seg (m_links mp') None (m_head mp') (xs @ ys) (m_tail mp') None" .
  let ?e = "entry (m_links mp)"
  have er: "fst (?e r) = k" using l by (simp add: entry_def)
  have kd: "distinct (map (fst \<circ> ?e) (xs @ r # ys))" using inv by (simp add: lmap_inv_def rs)
  then have other: "q \<in> set (xs @ ys) \<Longrightarrow> fst (?e q) \<noteq> k" for q using er by (fastforce simp: image_iff)
  have ps: "pairs_remove k (lmap_abs mp) = map ?e (xs @ ys)"
  proof -
    have "filter (\<lambda>p. fst p \<noteq> k) (map ?e zs) = map ?e zs" if "set zs \<subseteq> set (xs @ ys)" for zs
      using that other by (induction zs) auto
    from this [of xs] this [of ys] show ?thesis
      by (simp add: pairs_remove_def lmap_abs_eq [OF inv] rs er)
  qed
  have "lmap_invar mp' \<and> lmap_abs mp' = pairs_remove k (lmap_abs mp)"
  proof (rule lmap_invI [where rs = "xs @ ys"])
    show "distinct (map fst (pairs_remove k (lmap_abs mp)))" using kd by (simp add: ps)
    have "k \<in> fst ` set (m_m mp)" using Some by (auto dest!: map_of_SomeD intro: rev_image_eqI)
    then show "length (m_m mp') = length (xs @ ys)"
      using inv length_delete_old [of "m_m mp" k] by (simp add: mp' lmap_inv_def rs)
    show "map_of (m_m mp') k' = Some q \<longleftrightarrow> q \<in> set (xs @ ys) \<and> fst (entry (m_links mp') q) = k'" for k' q
      using lmap_inv_lookup [OF inv, of k' q] other er by (auto simp: mp' rs AList.delete_conv')
  qed (use inv mp' ps AList.distinct_delete in \<open>auto simp: lmap_inv_def rs\<close>)
  with mp' show ?thesis by blast
qed

lemma lmap_NewMap: "lmap_invar (NewMap :: 'v Map) \<and> lmap_abs (NewMap :: 'v Map) = []"
  by (rule lmap_invI [where rs = "[]"]) (simp_all add: NewMap_def)

interpretation lmap: ordered_map NewMap Map_Set Map_Get Map_Remove Map_Size Map_Keys
  "Map_Values nil" lmap_invar lmap_abs
  for nil
proof unfold_locales
  show "lmap_invar (NewMap :: 'a Map)" "lmap_abs (NewMap :: 'a Map) = []"
    by (simp_all add: lmap_NewMap)
next
  fix mp :: "'a Map" and k v
  assume "lmap_invar mp"
  then obtain rs where inv: "lmap_inv mp rs" by (auto simp: lmap_invar_def)
  show "distinct (map fst (lmap_abs mp))" using inv by (simp add: lmap_abs_eq [OF inv] lmap_inv_def)
  show "lmap_invar (Map_Set mp k v)" "lmap_abs (Map_Set mp k v) = pairs_set k v (lmap_abs mp)"
    using lmap_Set_old [OF inv] lmap_Set_new [OF inv] unfolding lmap_invar_def
    by (cases "map_of (m_m mp) k"; blast)+
  show "\<exists>mp'. Map_Remove mp k = Inr mp' \<and> lmap_invar mp' \<and> lmap_abs mp' = pairs_remove k (lmap_abs mp)"
    using inv by (rule lmap_Remove)
  show "Map_Size mp = length (lmap_abs mp)"
    using inv by (simp add: Map_Size_def lmap_abs_eq [OF inv] lmap_inv_def)
  then have "Map_Size mp = length rs" by (simp add: lmap_abs_eq [OF inv])
  then show "Map_Keys mp = Inr (map fst (lmap_abs mp))" "Map_Values nil mp = Inr (map snd (lmap_abs mp))"
    using lmap_inv_walk [OF inv]
    by (simp_all add: Map_Keys_def Map_Values_def lmap_abs_eq [OF inv] pad_def entry_def comp_def)
  show "Map_Get mp k = map_of (lmap_abs mp) k"
  proof (cases "map_of (m_m mp) k")
    case None
    moreover have "map_of (lmap_abs mp) k = None"
      using lmap_inv_None [OF inv None] by (simp add: map_of_eq_None_iff)
    ultimately show ?thesis by (simp add: Map_Get_def)
  next
    case (Some r)
    from lmap_inv_Some [OF inv Some] obtain xs ys l
      where rs: "rs = xs @ r # ys" and l: "m_links mp r = Some l" "l_key l = k" .
    have "distinct (map fst (lmap_abs mp))" using inv by (simp add: lmap_abs_eq [OF inv] lmap_inv_def)
    moreover have "(k, l_value l) \<in> set (lmap_abs mp)" using l by (simp add: lmap_abs_eq [OF inv] rs entry_def)
    ultimately show ?thesis using Some l by (simp add: Map_Get_def)
  qed
qed

section \<open>What the operations promise\<close>

lemma fold_pairs_set_distinct:
  "distinct (map fst (ps @ kvs)) \<Longrightarrow> fold (\<lambda>(k, v). pairs_set k v) kvs ps = ps @ kvs"
proof (induction kvs arbitrary: ps)
  case (Cons p kvs)
  obtain k v where p: "p = (k, v)" by force
  with Cons.prems have "pairs_set k v ps = ps @ [(k, v)]" by (intro pairs_set_new) auto
  with Cons.IH [of "ps @ [p]"] Cons.prems show ?case by (simp add: p)
qed simp

lemma string_rank_inj: "string_rank a = string_rank b \<Longrightarrow> a = b"
  by (simp add: string_rank_def inj_map_eq_map inj_def)

lemma distinct_string_rank: "distinct (map fst ps) \<Longrightarrow> distinct (map (\<lambda>p. string_rank (fst p)) ps)"
  by (auto simp: distinct_map inj_on_def dest: string_rank_inj)

lemma key_rank_inj: "distinct (map fst xs) \<Longrightarrow> inj_on (\<lambda>p. string_rank (fst p)) (set xs)"
  using distinct_string_rank distinct_map by blast

lemma sort_key_perm:
  assumes "mset xs = mset ys" "inj_on f (set xs)"
  shows "sort_key f xs = sort_key f ys"
  by (rule sort_key_inj_key_eq) (use assms in simp_all)

datatype 'v map_op = OpSet string 'v | OpRemove string | OpClear

fun run_op :: "'v map_op \<Rightarrow> 'v Map \<Rightarrow> 'v Map res" where
  "run_op (OpSet k v) mp = Inr (Map_Set mp k v)"
| "run_op (OpRemove k) mp = Map_Remove mp k"
| "run_op OpClear mp = Inr (Map_Clear mp)"

fun run_ops :: "'v map_op list \<Rightarrow> 'v Map \<Rightarrow> 'v Map res" where
  "run_ops [] mp = Inr mp"
| "run_ops (p # ps) mp = bind_res (run_op p mp) (run_ops ps)"

fun spec_op :: "'v map_op \<Rightarrow> 'v pairs \<Rightarrow> 'v pairs" where
  "spec_op (OpSet k v) ps = pairs_set k v ps"
| "spec_op (OpRemove k) ps = pairs_remove k ps"
| "spec_op OpClear ps = []"

lemma lmap_Clear: "lmap_invar (Map_Clear mp) \<and> lmap_abs (Map_Clear mp) = []"
  by (rule lmap_invI [where rs = "[]"]) (simp_all add: Map_Clear_def)

lemma run_op_refines:
  "lmap_invar mp \<Longrightarrow> \<exists>mp'. run_op p mp = Inr mp' \<and> lmap_invar mp' \<and> lmap_abs mp' = spec_op p (lmap_abs mp)"
  using lmap.Remove_abs [of mp] lmap_Clear [of mp] by (cases p) (auto simp: lmap.invar_Set lmap.abs_Set)

lemma run_ops_refines:
  "lmap_invar mp \<Longrightarrow> \<exists>mp'. run_ops ps mp = Inr mp' \<and> lmap_invar mp' \<and> lmap_abs mp' = fold spec_op ps (lmap_abs mp)"
proof (induction ps arbitrary: mp)
  case (Cons p ps)
  from run_op_refines [OF Cons.prems, of p] obtain mp1 where
    "run_op p mp = Inr mp1" "lmap_invar mp1" "lmap_abs mp1 = spec_op p (lmap_abs mp)" by blast
  then show ?case using Cons.IH [of mp1] by simp
qed simp

text \<open>
  C13: \<open>Set\<close>, \<open>Get\<close>, \<open>Remove\<close>, \<open>Keys\<close> and \<open>Size\<close> on the linked structure implement a list
  of key-value pairs in insertion order, after every sequence of operations on a new map: a \<open>Set\<close> of a
  present key keeps its place, a \<open>Set\<close> of a new key appends, a \<open>Remove\<close> deletes exactly the
  key and never dereferences nil.
\<close>


theorem map_refines_pairs:
  "\<exists>mp. run_ops ops NewMap = Inr mp
     \<and> Map_Keys mp = Inr (map fst (fold spec_op ops []))
     \<and> Map_Values nil mp = Inr (map snd (fold spec_op ops []))
     \<and> Map_Size mp = length (fold spec_op ops [])
     \<and> Map_IsEmpty mp = (fold spec_op ops [] = [])
     \<and> (\<forall>k. Map_Get mp k = map_of (fold spec_op ops []) k)"
proof -
  obtain mp where "run_ops ops NewMap = Inr mp" "lmap_invar mp" "lmap_abs mp = fold spec_op ops []"
    using run_ops_refines [OF lmap.invar_new, of ops] by (auto simp: lmap.abs_new)
  then show ?thesis
    by (auto simp: Map_IsEmpty_def lmap.Keys_abs lmap.Values_abs lmap.Size_abs lmap.Get_abs)
qed

lemma ConvertMap_pairs:
  assumes "distinct (map fst kvs)"
  shows "ConvertMap (GMap kvs) =
    CMap (sort_key (\<lambda>p. string_rank (fst p)) (map (map_prod id ConvertMap) kvs))"
proof -
  let ?c = "map (map_prod id ConvertMap) kvs" and ?f = "\<lambda>p. string_rank (fst p)"
  have "distinct (map fst ?c)" using assms by (simp add: comp_def)
  moreover have "mset (map fst (sort_key ?f ?c)) = mset (map fst ?c)" by (metis mset_map mset_sort)
  ultimately have "distinct (map fst (sort_key ?f ?c))" using mset_eq_imp_distinct_iff by blast
  then show ?thesis by (simp add: fold_pairs_set_distinct)
qed

text \<open>
  \<open>ConvertMap\<close> does not depend on the order in which the Go runtime iterates over a map:
  two iteration orders of one map give the same insertion-ordered map, with its keys in
  increasing order.
\<close>

theorem ConvertMap_iteration_order:
  assumes "mset kvs = mset kvs'" "distinct (map fst kvs)"
  shows "ConvertMap (GMap kvs) = ConvertMap (GMap kvs')
    \<and> (\<exists>ps. ConvertMap (GMap kvs) = CMap ps \<and> set (map fst ps) = set (map fst kvs)
         \<and> sorted (map (\<lambda>p. string_rank (fst p)) ps))"
proof -
  let ?c = "map (map_prod id ConvertMap)" and ?f = "\<lambda>p. string_rank (fst p)"
  have d: "distinct (map fst (?c kvs))" using assms(2) by (simp add: comp_def)
  have "mset (map fst kvs) = mset (map fst kvs')" using assms(1) by simp
  then have d': "distinct (map fst kvs')" using assms(2) mset_eq_imp_distinct_iff by blast
  have "mset (?c kvs) = mset (?c kvs')" using assms(1) by simp
  then have "sort_key ?f (?c kvs) = sort_key ?f (?c kvs')"
    using d by (intro sort_key_perm key_rank_inj)
  then show ?thesis
    using ConvertMap_pairs [OF assms(2)] ConvertMap_pairs [OF d'] mset_eq_setD [OF assms(1)]
    by (simp add: image_image del: ConvertMap.simps(1))
qed

text \<open>A map of the keys \<open>b\<close> and \<open>a\<close>, iterated in both orders.\<close>

lemma ConvertMap_iteration_order_witness:
  "ConvertMap (GMap [(''b'', GLeaf (1::nat)), (''a'', GLeaf 2)]) =
     ConvertMap (GMap [(''a'', GLeaf 2), (''b'', GLeaf 1)])"
  using ConvertMap_iteration_order [of "[(''b'', GLeaf (1::nat)), (''a'', GLeaf 2)]"
      "[(''a'', GLeaf 2), (''b'', GLeaf 1)]"] by simp

text \<open>
  \<open>LoadMap\<close> does depend on it: the insertion order of its result is the order in which
  the Go runtime happened to iterate over the map, which is not specified and differs from
  run to run.
\<close>

theorem LoadMap_iteration_order:
  "Map_Keys (LoadMap [(k1, v1), (k2, v2)]) = Map_Keys (LoadMap [(k2, v2), (k1, v1)]) \<longleftrightarrow> k1 = k2"
  by (simp add: LoadMap_def lmap.Keys_abs lmap.invar_Set lmap.invar_new lmap.abs_Set lmap.abs_new)

end
