(* ===== verification/Block_Codec.thy ===== *)
theory Block_Codec
  imports Converter_Text
begin

text \<open>
  Transactions and blocks as they travel between nodes: \<open>packages/transaction/transaction.go\<close>
  (raw transactions, their hash, the transaction cache), \<open>packages/utils/utils.go\<close>
  (\<open>ParseBlockHeader\<close>, \<open>MerkleTreeRoot\<close>) and \<open>packages/block/serialization.go\<close>
  (\<open>MarshallBlock\<close>, \<open>UnmarshallBlock\<close>, with \<open>ForSign\<close> of \<open>block.go\<close>). SHA-256, the signing
  function, the msgpack decoder and the table of contracts are parameters.
\<close>

section \<open>Hashes and the Merkle root\<close>

text \<open>\<open>crypto.DoubleHash\<close>, whose provider is always SHA-256 here, so that it returns no error.\<close>

definition DoubleHash :: "(bytes \<Rightarrow> bytes) \<Rightarrow> bytes \<Rightarrow> bytes" where
  "DoubleHash sha256 msg = sha256 (sha256 msg)"

text \<open>
  One level of the tree from the level below, two nodes at a time; the last node of an odd
  level is carried over. Both branches on the presence of \<open>result[j+1]\<close> append.
\<close>

fun merkle_level :: "(bytes \<Rightarrow> bytes) \<Rightarrow> bytes list \<Rightarrow> bytes list" where
  "merkle_level sha256 (a # b # xs) = BinToHex (DoubleHash sha256 (a @ b)) # merkle_level sha256 xs"
| "merkle_level sha256 [a] = [a]"
| "merkle_level sha256 [] = []"

lemma length_merkle_level: "length (merkle_level sha256 xs) = (length xs + 1) div 2"
  by (induction sha256 xs rule: merkle_level.induct) auto

function merkle_loop :: "(bytes \<Rightarrow> bytes) \<Rightarrow> bytes list \<Rightarrow> bytes list" where
  "merkle_loop sha256 lvl = (if length lvl > 1 then merkle_loop sha256 (merkle_level sha256 lvl) else lvl)"
  by auto
termination by (relation "measure (length \<circ> snd)") (auto simp: length_merkle_level)

declare merkle_loop.simps [simp del]

definition MerkleTreeRoot :: "(bytes \<Rightarrow> bytes) \<Rightarrow> bytes list \<Rightarrow> bytes res" where
  "MerkleTreeRoot sha256 dataArray =
     (case merkle_loop sha256 (map (\<lambda>v. BinToHex (DoubleHash sha256 v)) dataArray) of
        [] \<Rightarrow> Inl (Panic ''index out of range'')
      | r # _ \<Rightarrow> Inr r)"

section \<open>Raw transactions\<close>

record RawTransaction =
  rtx_txType :: int64
  rtx_hash :: bytes
  rtx_data :: bytes
  rtx_payload :: bytes
  rtx_signature :: bytes

definition IsContractTransaction :: "int64 \<Rightarrow> bool" where
  "IsContractTransaction txType \<longleftrightarrow> sint txType > 127"

definition unmarshal_bytes :: "bytes \<Rightarrow> (bytes \<times> bytes) res" where
  "unmarshal_bytes buffer =
     bind_res (BinUnmarshalBuff KSlice buffer) (\<lambda>(v, rest).
       case v of GSlice b \<Rightarrow> Inr (b, rest) | _ \<Rightarrow> Inl (Panic ''not a byte slice''))"

definition RawTransaction_Unmarshall :: "(bytes \<Rightarrow> bytes) \<Rightarrow> bytes \<Rightarrow> RawTransaction res" where
  "RawTransaction_Unmarshall sha256 buffer =
     (case buffer of
        [] \<Rightarrow> Inl (Error ''empty transaction buffer'')
      | b # rest \<Rightarrow>
          let txType = ucast b in
          bind_res
            (if IsContractTransaction txType then unmarshal_bytes rest else Inr (buffer, []))
            (\<lambda>(payload, signature).
               Inr \<lparr>rtx_txType = txType, rtx_hash = DoubleHash sha256 payload, rtx_data = buffer,
                    rtx_payload = payload, rtx_signature = signature\<rparr>))"

section \<open>Transactions\<close>

record BlockData =
  bd_BlockID :: int64
  bd_Time :: int64
  bd_EcosystemID :: int64
  bd_KeyID :: int64
  bd_NodePosition :: int64
  bd_Sign :: bytes
  bd_Hash :: bytes
  bd_Version :: int64
  bd_PrivateBlockchain :: bool

definition empty_BlockData :: BlockData where
  "empty_BlockData = \<lparr>bd_BlockID = 0, bd_Time = 0, bd_EcosystemID = 0, bd_KeyID = 0, bd_NodePosition = 0,
     bd_Sign = [], bd_Hash = [], bd_Version = 0, bd_PrivateBlockchain = False\<rparr>"

text \<open>
  The fields of \<open>tx.SmartContract\<close> that parsing uses, with the parameters \<open>'p\<close> of the call, and
  \<open>transaction.Transaction\<close> with a contract of type \<open>'c\<close>.
\<close>

record 'p SmartTx =
  sc_ID :: int64
  sc_EcosystemID :: int64
  sc_Time :: int64
  sc_KeyID :: int64
  sc_Params :: 'p

record ('c, 'p) Transaction =
  TxFullData :: bytes
  TxBinaryData :: bytes
  TxHash :: bytes
  TxSignature :: bytes
  TxKeyID :: int64
  TxTime :: int64
  TxType :: int64
  TxFuel :: int64
  TxPtr :: "gval option"
  TxSmart :: "'p SmartTx option"
  TxData :: "'p option"
  TxContract :: "'c option"
  TxBlockData :: "BlockData option"

text \<open>
  What parsing relies on: SHA-256, \<open>msgpack.Unmarshal\<close>, the loaded contracts
  (\<open>smart.GetContractByID\<close>, whether a contract has a \<open>data\<close> section, \<open>smart.FillTxData\<close>) and the
  \<open>Validate\<close> methods of the two embedded transactions.
\<close>

record ('c, 'p) tx_env =
  te_sha256 :: "bytes \<Rightarrow> bytes"
  te_msgpack :: "bytes \<Rightarrow> 'p SmartTx res"
  te_GetContractByID :: "32 word \<Rightarrow> 'c option"
  te_has_tx :: "'c \<Rightarrow> bool"
  te_FillTxData :: "'c \<Rightarrow> 'p \<Rightarrow> 'p res"
  te_Validate :: "int64 \<Rightarrow> gval \<Rightarrow> unit res"

definition TxHeader_kind :: gkind where
  "TxHeader_kind = KStruct [KUint8, KUint32, KInt64]"

definition MakeStruct :: "int64 \<Rightarrow> gkind" where
  "MakeStruct txType =
     (if txType = 1 then KStruct [TxHeader_kind, KSlice, KSlice, KSlice, KInt64, KUint64]
      else KStruct [TxHeader_kind, KSlice])"

definition IsStruct :: "int64 \<Rightarrow> bool" where
  "IsStruct txType \<longleftrightarrow> txType = 1 \<or> txType = 2"

fun Header :: "gval \<Rightarrow> (32 word \<times> int64) res" where
  "Header (GStruct (GStruct [GUint8 _, GUint32 tm, GInt64 key] # _)) = Inr (tm, key)"
| "Header _ = Inl (Panic ''interface conversion'')"

definition parseFromStruct ::
  "('c, 'p) tx_env \<Rightarrow> ('c, 'p) Transaction \<Rightarrow> ('c, 'p) Transaction res" where
  "parseFromStruct env t =
     bind_res (BinUnmarshal (MakeStruct (TxType t)) (TxBinaryData t)) (\<lambda>(ptr, rest).
       bind_res (Header ptr) (\<lambda>(tm, key).
         bind_res (te_Validate env (TxType t) ptr) (\<lambda>_.
           Inr (t\<lparr>TxPtr := Some ptr, TxBinaryData := rest, TxKeyID := key, TxTime := ucast tm\<rparr>))))"

definition parseFromContract ::
  "('c, 'p) tx_env \<Rightarrow> bool \<Rightarrow> ('c, 'p) Transaction \<Rightarrow> ('c, 'p) Transaction res" where
  "parseFromContract env fillData t =
     bind_res (te_msgpack env (TxBinaryData t)) (\<lambda>smartTx.
       let t = t\<lparr>TxPtr := None, TxSmart := Some smartTx, TxTime := sc_Time smartTx, TxKeyID := sc_KeyID smartTx\<rparr> in
       case te_GetContractByID env (ucast (sc_ID smartTx)) of
         None \<Rightarrow> Inl (Error (''unknown contract '' @ show_int (sint (sc_ID smartTx))))
       | Some contract \<Rightarrow>
           let t = t\<lparr>TxContract := Some contract, TxData := None\<rparr> in
           if te_has_tx env contract then
             if fillData then
               bind_res (te_FillTxData env contract (sc_Params smartTx)) (\<lambda>d. Inr (t\<lparr>TxData := Some d\<rparr>))
             else Inr (t\<lparr>TxData := Some (sc_Params smartTx)\<rparr>)
           else Inr t)"

text \<open>\<open>transactionCache\<close>: parsed transactions by their hash.\<close>

type_synonym ('c, 'p) transactionCache = "bytes \<rightharpoonup> ('c, 'p) Transaction"

definition cache_Get :: "('c, 'p) transactionCache \<Rightarrow> bytes \<Rightarrow> ('c, 'p) Transaction option" where
  "cache_Get tc h = tc h"

definition cache_Set :: "('c, 'p) transactionCache \<Rightarrow> ('c, 'p) Transaction \<Rightarrow> ('c, 'p) transactionCache" where
  "cache_Set tc t = tc(TxHash t \<mapsto> t)"

definition cache_Clean :: "('c, 'p) transactionCache \<Rightarrow> ('c, 'p) transactionCache" where
  "cache_Clean tc = Map.empty"

definition newTransaction :: "RawTransaction \<Rightarrow> ('c, 'p) Transaction" where
  "newTransaction rtx =
     \<lparr>TxFullData = rtx_data rtx, TxBinaryData = rtx_payload rtx, TxHash = rtx_hash rtx,
      TxSignature = (if IsContractTransaction (rtx_txType rtx) then rtx_signature rtx else []),
      TxKeyID = 0, TxTime = 0, TxType = rtx_txType rtx, TxFuel = 0, TxPtr = None, TxSmart = None, TxData = None,
      TxContract = None, TxBlockData = None\<rparr>"

text \<open>
  The result is the new cache and the transaction, or the error together with the transaction
  that the code returns beside it (only when a struct transaction does not parse).
\<close>

definition UnmarshallTransaction ::
  "('c, 'p) tx_env \<Rightarrow> bool \<Rightarrow> bytes \<Rightarrow> ('c, 'p) transactionCache \<Rightarrow>
    ('c, 'p) transactionCache \<times> ((('c, 'p) Transaction option \<times> go_exc) + ('c, 'p) Transaction)" where
  "UnmarshallTransaction env fillData buffer tc =
     (case RawTransaction_Unmarshall (te_sha256 env) buffer of
        Inl e \<Rightarrow> (tc, Inl (None, e))
      | Inr rtx \<Rightarrow>
          case cache_Get tc (rtx_hash rtx) of
            Some t \<Rightarrow> (tc, Inr t)
          | None \<Rightarrow>
              let t = newTransaction rtx in
              if IsContractTransaction (rtx_txType rtx) then
                case parseFromContract env fillData t of
                  Inl e \<Rightarrow> (tc, Inl (None, e)) | Inr t \<Rightarrow> (cache_Set tc t, Inr t)
              else if IsStruct (rtx_txType rtx) then
                case parseFromStruct env t of
                  Inl e \<Rightarrow> (tc, Inl (Some t, e)) | Inr t \<Rightarrow> (cache_Set tc t, Inr t)
              else (cache_Set tc t, Inr t))"

section \<open>Block headers\<close>

text \<open>\<open>bytes.Buffer.Next\<close>: at most \<open>n\<close> bytes, fewer at the end of the buffer.\<close>

definition buf_Next :: "nat \<Rightarrow> bytes \<Rightarrow> bytes \<times> bytes" where
  "buf_Next n buf = (take n buf, drop n buf)"

definition ParseBlockHeader :: "int64 \<Rightarrow> bytes \<Rightarrow> bool \<Rightarrow> (BlockData \<times> bytes) res" where
  "ParseBlockHeader maxBlockSize buf checkMaxSize =
     (if length buf < 9 then Inl (Error ''bad binary block length'')
      else
        let (v, buf) = buf_Next 2 buf; blockVersion = BinToDec v in
        if checkMaxSize \<and> int (length buf) > sint maxBlockSize then
          Inl (Error (''len(binaryBlock) > variables.Int64[\"max_block_size\"]  '' @ show_nat (length buf)
                 @ '' > '' @ show_int (sint maxBlockSize)))
        else
          let (i, buf) = buf_Next 4 buf; (tm, buf) = buf_Next 4 buf; (eco, buf) = buf_Next 4 buf in
          bind_res (DecodeLenInt64Buf buf) (\<lambda>(key, buf).
            let (p, buf) = buf_Next 1 buf;
                block = empty_BlockData\<lparr>bd_BlockID := BinToDec i, bd_Time := BinToDec tm, bd_Version := blockVersion,
                  bd_EcosystemID := BinToDec eco, bd_KeyID := key, bd_NodePosition := BinToDec p\<rparr> in
            if sint (bd_BlockID block) > 1 then
              bind_res (DecodeLengthBuf buf) (\<lambda>(signSize, buf).
                if int (length buf) < signSize then Inl (Error ''bad block format (no sign)'')
                else let (s, buf) = buf_Next (nat signSize) buf in Inr (block\<lparr>bd_Sign := s\<rparr>, buf))
            else Inr (block, snd (buf_Next 1 buf))))"

section \<open>Blocks\<close>

record ('c, 'p) Block =
  b_Header :: BlockData
  b_PrevHeader :: "BlockData option"
  b_MrklRoot :: bytes
  b_BinData :: bytes
  b_Transactions :: "('c, 'p) Transaction list"
  b_GenBlock :: bool

definition for_sign_text :: "int64 \<Rightarrow> bytes \<Rightarrow> int64 \<Rightarrow> int64 \<Rightarrow> int64 \<Rightarrow> int64 \<Rightarrow> bytes \<Rightarrow> string" where
  "for_sign_text blockID prevHash tm eco key pos root =
     ''0,'' @ Int64ToStr blockID @ '','' @ hex_encode prevHash @ '','' @ Int64ToStr tm @ '','' @ Int64ToStr eco
       @ '','' @ Int64ToStr key @ '','' @ Int64ToStr pos @ '','' @ string_of_bytes root"

text \<open>\<open>ForSign\<close> dereferences \<open>PrevHeader\<close>.\<close>

definition ForSign :: "('c, 'p) Block \<Rightarrow> string res" where
  "ForSign b =
     (case b_PrevHeader b of
        None \<Rightarrow> Inl (Panic ''nil pointer dereference'')
      | Some prev \<Rightarrow>
          Inr (for_sign_text (bd_BlockID (b_Header b)) (bd_Hash prev) (bd_Time (b_Header b))
                 (bd_EcosystemID (b_Header b)) (bd_KeyID (b_Header b)) (bd_NodePosition (b_Header b)) (b_MrklRoot b)))"

definition ForSha :: "('c, 'p) Block \<Rightarrow> string res" where
  "ForSha b =
     (case b_PrevHeader b of
        None \<Rightarrow> Inl (Panic ''nil pointer dereference'')
      | Some prev \<Rightarrow>
          Inr (Int64ToStr (bd_BlockID (b_Header b)) @ '','' @ hex_encode (bd_Hash prev) @ '',''
                 @ string_of_bytes (b_MrklRoot b) @ '','' @ Int64ToStr (bd_Time (b_Header b)) @ '',''
                 @ Int64ToStr (bd_EcosystemID (b_Header b)) @ '','' @ Int64ToStr (bd_KeyID (b_Header b)) @ '',''
                 @ Int64ToStr (bd_NodePosition (b_Header b))))"

text \<open>\<open>sign\<close> is \<open>crypto.SignString\<close>.\<close>

definition MarshallBlock ::
  "(bytes \<Rightarrow> bytes) \<Rightarrow> (string \<Rightarrow> string \<Rightarrow> bytes res) \<Rightarrow> BlockData \<Rightarrow> bytes list \<Rightarrow> bytes \<Rightarrow> string \<Rightarrow> bytes res" where
  "MarshallBlock sha256 sign header trData prevHash key =
     (let mrklArray = map (\<lambda>tr. BinToHex (DoubleHash sha256 tr)) trData;
          blockDataTx = concat (map EncodeLengthPlusData trData) in
      bind_res
        (if key \<noteq> [] then
           let mrklArray = (if mrklArray = [] then [bytes_of_string ''0''] else mrklArray) in
           bind_res (MerkleTreeRoot sha256 mrklArray) (\<lambda>mrklRoot.
             sign key (for_sign_text (bd_BlockID header) prevHash (bd_Time header) (bd_EcosystemID header)
                         (bd_KeyID header) (bd_NodePosition header) mrklRoot))
         else Inr [])
        (\<lambda>signed.
           Inr (DecToBin (bd_Version header) 2 @ DecToBin (bd_BlockID header) 4 @ DecToBin (bd_Time header) 4
                @ DecToBin (bd_EcosystemID header) 4 @ EncodeLenInt64InPlace (bd_KeyID header)
                @ DecToBin (bd_NodePosition header) 1 @ EncodeLengthPlusData signed @ blockDataTx)))"

text \<open>
  The loop of \<open>UnmarshallBlock\<close>. It returns the cache, the transactions that were marked bad
  with the error text, and the parsed transactions with the leaves of the Merkle tree. The cache
  holds pointers, so the assignment to \<open>t.BlockData\<close> is seen through it.
\<close>

type_synonym ('c, 'p, 'r) parse_out = "('c, 'p) transactionCache \<times> (bytes \<times> string) list \<times> 'r res"

lemma DecodeLengthBuf_shorter:
  "DecodeLengthBuf buf = Inr (n, rest) \<Longrightarrow> buf \<noteq> [] \<Longrightarrow> length rest < length buf"
  by (auto simp: DecodeLengthBuf_def Let_def split: list.splits if_splits)

function parse_transactions ::
  "('c, 'p) tx_env \<Rightarrow> bool \<Rightarrow> BlockData \<Rightarrow> bytes \<Rightarrow> ('c, 'p) transactionCache \<Rightarrow>
    ('c, 'p) Transaction list \<Rightarrow> bytes list \<Rightarrow>
    ('c, 'p, ('c, 'p) Transaction list \<times> bytes list) parse_out" where
  "parse_transactions env fillData header buf tc transactions mrklSlice =
     (if buf = [] then (tc, [], Inr (transactions, mrklSlice))
      else
        case DecodeLengthBuf buf of
          Inl (Error e) \<Rightarrow> (tc, [], Inl (Error (''bad block format ('' @ e @ '')'')))
        | Inl e \<Rightarrow> (tc, [], Inl e)
        | Inr (transactionSize, rest) \<Rightarrow>
            if int (length rest) < transactionSize then
              (tc, [], Inl (Error (''bad block format (transaction len is too big: '' @ show_int transactionSize @ '')'')))
            else if transactionSize = 0 then (tc, [], Inl (Error ''transaction size is 0''))
            else
              case UnmarshallTransaction env fillData (take (nat transactionSize) rest) tc of
                (tc, Inl (t, Error e)) \<Rightarrow>
                  (tc, (case t of None \<Rightarrow> [] | Some t \<Rightarrow> [(TxHash t, e)]),
                   Inl (Error (''parse transaction error('' @ e @ '')'')))
              | (tc, Inl (t, e)) \<Rightarrow> (tc, [], Inl e)
              | (tc, Inr t) \<Rightarrow>
                  let t = t\<lparr>TxBlockData := Some header\<rparr>;
                      tc = cache_Set tc t;
                      mrklSlice = (if length (TxFullData t) > 0
                                   then mrklSlice @ [BinToHex (DoubleHash (te_sha256 env) (TxFullData t))]
                                   else mrklSlice)
                  in parse_transactions env fillData header (drop (nat transactionSize) rest) tc
                       (transactions @ [t]) mrklSlice)"
  by pat_completeness auto
termination
  by (relation "measure (\<lambda>(_, _, _, buf, _). length buf)") (auto dest!: DecodeLengthBuf_shorter)

declare parse_transactions.simps [simp del]

definition UnmarshallBlock ::
  "('c, 'p) tx_env \<Rightarrow> int64 \<Rightarrow> bytes \<Rightarrow> bool \<Rightarrow> bool \<Rightarrow> ('c, 'p) transactionCache \<Rightarrow>
    ('c, 'p, ('c, 'p) Block) parse_out" where
  "UnmarshallBlock env maxBlockSize buf firstBlock fillData tc =
     (case ParseBlockHeader maxBlockSize buf (\<not> firstBlock) of
        Inl e \<Rightarrow> (tc, [], Inl e)
      | Inr (header, buf) \<Rightarrow>
          case parse_transactions env fillData header buf tc [] [] of
            (tc, bad, Inl e) \<Rightarrow> (tc, bad, Inl e)
          | (tc, bad, Inr (transactions, mrklSlice)) \<Rightarrow>
              let mrklSlice = (if mrklSlice = [] then [bytes_of_string ''0''] else mrklSlice) in
              (tc, bad,
               bind_res (MerkleTreeRoot (te_sha256 env) mrklSlice) (\<lambda>root.
                 Inr \<lparr>b_Header = header, b_PrevHeader = None, b_MrklRoot = root, b_BinData = [],
                      b_Transactions = transactions, b_GenBlock = False\<rparr>)))"

section \<open>The Merkle root binds the transactions\<close>

lemma BinToHex_inj: "BinToHex a = BinToHex b \<Longrightarrow> a = b"
  using HexToBin_BinToHex by metis

lemma length_BinToHex: "length (BinToHex b) = 2 * length b"
  by (simp add: BinToHex_def hex_encode_def bytes_of_string_def length_concat sum_list_triv comp_def)

text \<open>
  The messages that are hashed on the way to the root, in their order: the transactions, then the pairs of every level.
\<close>

fun level_inputs :: "bytes list \<Rightarrow> bytes list" where
  "level_inputs (a # b # xs) = (a @ b) # level_inputs xs"
| "level_inputs xs = []"

function loop_inputs :: "(bytes \<Rightarrow> bytes) \<Rightarrow> bytes list \<Rightarrow> bytes list" where
  "loop_inputs sha256 lvl = (if length lvl > 1 then level_inputs lvl @ loop_inputs sha256 (merkle_level sha256 lvl) else [])"
  by auto
termination by (relation "measure (length \<circ> snd)") (auto simp: length_merkle_level)

declare loop_inputs.simps [simp del]

definition root_inputs :: "(bytes \<Rightarrow> bytes) \<Rightarrow> bytes list \<Rightarrow> bytes list" where
  "root_inputs sha256 xs = xs @ loop_inputs sha256 (map (\<lambda>v. BinToHex (DoubleHash sha256 v)) xs)"

text \<open>At one position two lists of messages differ although their hashes agree.\<close>

definition clash :: "(bytes \<Rightarrow> bytes) \<Rightarrow> bytes list \<Rightarrow> bytes list \<Rightarrow> bool" where
  "clash sha256 us vs \<longleftrightarrow> list_ex (\<lambda>(a, b). a \<noteq> b \<and> DoubleHash sha256 a = DoubleHash sha256 b) (zip us vs)"

lemma clash_simps:
  "clash sha256 (a # us) (b # vs) \<longleftrightarrow> a \<noteq> b \<and> DoubleHash sha256 a = DoubleHash sha256 b \<or> clash sha256 us vs"
  "length us = length vs \<Longrightarrow> clash sha256 (us @ us') (vs @ vs') \<longleftrightarrow> clash sha256 us vs \<or> clash sha256 us' vs'"
  by (auto simp: clash_def)

lemma length_level_inputs: "length (level_inputs xs) = length xs div 2"
  by (induction xs rule: level_inputs.induct) simp_all

lemma level_clash:
  assumes "length xs = length ys" "\<forall>x \<in> set (xs @ ys). length x = 64"
    and "merkle_level sha256 xs = merkle_level sha256 ys"
  shows "xs = ys \<or> clash sha256 (level_inputs xs) (level_inputs ys)"
  using assms
proof (induction sha256 xs arbitrary: ys rule: merkle_level.induct)
  case (1 sha256 a b xs)
  from "1.prems"(1) obtain c d zs where ys: "ys = c # d # zs"
    by (cases ys; cases "tl ys") auto
  with "1.prems" have "DoubleHash sha256 (a @ b) = DoubleHash sha256 (c @ d)"
    by (auto dest: BinToHex_inj)
  moreover have "length a = length c" using "1.prems"(2) ys by simp
  ultimately show ?case using "1.IH" [of zs] "1.prems" ys by (auto simp: clash_simps)
next
  case (2 sha256 a)
  then obtain c where "ys = [c]" by (auto simp: Suc_length_conv)
  with 2 show ?case by simp
qed simp

lemma merkle_level_width:
  "\<forall>h. length (sha256 h) = 32 \<Longrightarrow> \<forall>x \<in> set xs. length x = 64 \<Longrightarrow> \<forall>x \<in> set (merkle_level sha256 xs). length x = 64"
  by (induction sha256 xs rule: merkle_level.induct) (auto simp: length_BinToHex DoubleHash_def)

lemma merkle_loop_step: "length xs > 1 \<Longrightarrow> merkle_loop sha256 xs = merkle_loop sha256 (merkle_level sha256 xs)"
  by (subst merkle_loop.simps) simp

lemma merkle_loop_stop: "\<not> length xs > 1 \<Longrightarrow> merkle_loop sha256 xs = xs"
  by (subst merkle_loop.simps) simp

lemma loop_clash:
  assumes "\<forall>h. length (sha256 h) = 32"
    and "length xs = length ys" "\<forall>x \<in> set (xs @ ys). length x = 64"
    and "merkle_loop sha256 xs = merkle_loop sha256 ys"
  shows "xs = ys \<or> clash sha256 (loop_inputs sha256 xs) (loop_inputs sha256 ys)"
  using assms
proof (induction sha256 xs arbitrary: ys rule: merkle_loop.induct)
  case (1 sha256 xs)
  show ?case
  proof (cases "length xs > 1")
    case True
    let ?x = "merkle_level sha256 xs" and ?y = "merkle_level sha256 ys"
    have "merkle_loop sha256 ?x = merkle_loop sha256 ?y"
      using "1.prems"(4) merkle_loop_step [OF True, of sha256] merkle_loop_step [of ys sha256] True "1.prems"(2)
      by simp
    moreover have "\<forall>x \<in> set ?x. length x = 64" "\<forall>x \<in> set ?y. length x = 64"
      by (rule merkle_level_width [OF "1.prems"(1)], use "1.prems"(3) in simp)+
    moreover from this have "\<forall>x \<in> set (?x @ ?y). length x = 64" by (simp only: set_append ball_Un)
    ultimately have "?x = ?y \<or> clash sha256 (loop_inputs sha256 ?x) (loop_inputs sha256 ?y)"
      using "1.IH" [OF True "1.prems"(1), of ?y] "1.prems"(2) by (simp add: length_merkle_level)
    moreover have "loop_inputs sha256 xs = level_inputs xs @ loop_inputs sha256 ?x" "loop_inputs sha256 ys = level_inputs ys @ loop_inputs sha256 ?y"
      using True "1.prems"(2) by (simp_all add: loop_inputs.simps [of sha256 xs] loop_inputs.simps [of sha256 ys])
    ultimately show ?thesis
      using level_clash [OF "1.prems"(2,3)] "1.prems"(2) by (auto simp: clash_simps length_level_inputs)
  next
    case False
    then show ?thesis
      using "1.prems"(4) merkle_loop_stop [OF False, of sha256] merkle_loop_stop [of ys sha256] "1.prems"(2) by simp
  qed
qed

lemma merkle_loop_single: "xs \<noteq> [] \<Longrightarrow> length (merkle_loop sha256 xs) = 1"
proof (induction sha256 xs rule: merkle_loop.induct)
  case (1 sha256 xs)
  show ?case
  proof (cases "length xs > 1")
    case True
    then have "merkle_level sha256 xs \<noteq> []" using length_merkle_level [of sha256 xs] by auto
    with 1 True show ?thesis by (subst merkle_loop.simps) simp
  next
    case False
    with "1.prems" have "length xs = 1" by (cases xs) auto
    then show ?thesis by (subst merkle_loop.simps) simp
  qed
qed

lemma MerkleTreeRoot_total: "xs \<noteq> [] \<Longrightarrow> \<exists>r. MerkleTreeRoot sha256 xs = Inr r"
  using merkle_loop_single [of "map (\<lambda>v. BinToHex (DoubleHash sha256 v)) xs" sha256]
  by (auto simp: MerkleTreeRoot_def split: list.splits)

text \<open>
  C25: the Merkle root of a block commits to its transactions. When two different lists of the same number of transactions (at least one)
  have the same root, then among the messages hashed on the way to the roots, at the same position in both computations, there are
  two different ones with the same double hash: whoever finds such lists has found them. SHA-256 is given as a function to 32 bytes.
\<close>

theorem MerkleTreeRoot_binds:
  assumes "\<forall>h. length (sha256 h) = 32"
    and "length xs = length ys" "xs \<noteq> []" "xs \<noteq> ys"
    and "MerkleTreeRoot sha256 xs = MerkleTreeRoot sha256 ys"
  shows "clash sha256 (root_inputs sha256 xs) (root_inputs sha256 ys)"
proof -
  let ?f = "\<lambda>v. BinToHex (DoubleHash sha256 v)"
  have ys: "ys \<noteq> []" using assms by auto
  have "merkle_loop sha256 (map ?f xs) = merkle_loop sha256 (map ?f ys)"
    using merkle_loop_single [of "map ?f xs" sha256] merkle_loop_single [of "map ?f ys" sha256] assms ys
    by (auto simp: MerkleTreeRoot_def length_Suc_conv split: list.splits)
  then have "map ?f xs = map ?f ys \<or> clash sha256 (loop_inputs sha256 (map ?f xs)) (loop_inputs sha256 (map ?f ys))"
    using assms by (intro loop_clash) (auto simp: length_BinToHex DoubleHash_def)
  moreover have "clash sha256 xs ys" if "map ?f xs = map ?f ys"
    using assms(2,4) that by (induction xs ys rule: list_induct2) (auto simp: clash_simps dest!: BinToHex_inj)
  ultimately show ?thesis using assms(2) by (auto simp: root_inputs_def clash_simps)
qed

text \<open>A function that forgets everything but the first byte.\<close>

definition weak_hash :: "bytes \<Rightarrow> bytes" where
  "weak_hash b = take 32 (take 1 b @ replicate 32 0)"

theorem MerkleTreeRoot_binds_witness:
  "MerkleTreeRoot weak_hash [[1, 5], [2]] = MerkleTreeRoot weak_hash [[1, 6], [2]] \<and>
   clash weak_hash (root_inputs weak_hash [[1, 5], [2]]) (root_inputs weak_hash [[1, 6], [2]])"
proof -
  have eq: "MerkleTreeRoot weak_hash [[1, 5], [2]] = MerkleTreeRoot weak_hash [[1, 6], [2]]"
    by (simp add: MerkleTreeRoot_def DoubleHash_def weak_hash_def)
  have "\<forall>h. length (weak_hash h) = 32" by (simp add: weak_hash_def)
  from MerkleTreeRoot_binds [OF this _ _ _ eq] eq show ?thesis by simp
qed

section \<open>Reading back a block\<close>

definition raw_hash :: "(bytes \<Rightarrow> bytes) \<Rightarrow> bytes \<Rightarrow> bytes option" where
  "raw_hash sha256 tr =
     (case RawTransaction_Unmarshall sha256 tr of Inl _ \<Rightarrow> None | Inr rtx \<Rightarrow> Some (rtx_hash rtx))"

text \<open>A transaction that parses on a node whose cache is empty.\<close>

definition tx_parses :: "('c, 'p) tx_env \<Rightarrow> bool \<Rightarrow> bytes \<Rightarrow> bool" where
  "tx_parses env fillData tr \<longleftrightarrow>
     (case snd (UnmarshallTransaction env fillData tr Map.empty) of Inl _ \<Rightarrow> False | Inr _ \<Rightarrow> True)"

text \<open>What the cache holds under the hash of \<open>tr\<close>, if anything, is \<open>tr\<close> itself.\<close>

definition cache_agrees :: "(bytes \<Rightarrow> bytes) \<Rightarrow> ('c, 'p) transactionCache \<Rightarrow> bytes \<Rightarrow> bool" where
  "cache_agrees sha256 tc tr \<longleftrightarrow>
     (case raw_hash sha256 tr of
        None \<Rightarrow> True
      | Some h \<Rightarrow> (case tc h of None \<Rightarrow> True | Some t \<Rightarrow> TxFullData t = tr \<and> TxHash t = h))"

lemma parseFromStruct_keeps:
  "parseFromStruct env t = Inr t' \<Longrightarrow> TxFullData t' = TxFullData t \<and> TxHash t' = TxHash t \<and> TxSignature t' = TxSignature t"
  by (auto simp: parseFromStruct_def res_simps)

lemma parseFromContract_keeps:
  "parseFromContract env f t = Inr t' \<Longrightarrow> TxFullData t' = TxFullData t \<and> TxHash t' = TxHash t \<and> TxSignature t' = TxSignature t"
  unfolding parseFromContract_def bind_res_Inr_iff
  by (elim exE conjE, case_tac "te_GetContractByID env (ucast (sc_ID x))";
      cases f; case_tac "te_has_tx env a"; clarsimp simp: Let_def bind_res_Inr_iff)

lemma RawTransaction_data: "RawTransaction_Unmarshall sha256 buf = Inr rtx \<Longrightarrow> rtx_data rtx = buf"
  by (auto simp: RawTransaction_Unmarshall_def Let_def res_simps split: list.splits)

lemmas parse_keeps = parseFromStruct_keeps parseFromContract_keeps

lemma UnmarshallTransaction_agrees:
  assumes "tx_parses env f tr" "cache_agrees (te_sha256 env) tc tr"
  obtains tc' t where "UnmarshallTransaction env f tr tc = (tc', Inr t)" "TxFullData t = tr"
    "raw_hash (te_sha256 env) tr = Some (TxHash t)" "\<And>h. h \<noteq> TxHash t \<Longrightarrow> tc' h = tc h"
proof -
  from assms(1) obtain rtx where rtx: "RawTransaction_Unmarshall (te_sha256 env) tr = Inr rtx"
    by (auto simp: tx_parses_def UnmarshallTransaction_def split: sum.splits)
  then have h: "raw_hash (te_sha256 env) tr = Some (rtx_hash rtx)" and d: "rtx_data rtx = tr"
    by (simp_all add: raw_hash_def RawTransaction_data)
  have new: "TxFullData (newTransaction rtx) = tr" "TxHash (newTransaction rtx) = rtx_hash rtx"
    by (simp_all add: newTransaction_def d)
  show ?thesis
  proof (cases "tc (rtx_hash rtx)")
    case None
    from assms(1) rtx obtain t where
      "UnmarshallTransaction env f tr tc = (cache_Set tc t, Inr t)" "TxFullData t = tr" "TxHash t = rtx_hash rtx"
      using new
      by (auto simp: tx_parses_def UnmarshallTransaction_def cache_Get_def None Let_def
          dest!: parse_keeps split: sum.splits if_splits)
    then show ?thesis by (intro that [of "cache_Set tc t" t]) (auto simp: cache_Set_def h)
  next
    case (Some t)
    with assms(2) h have "TxFullData t = tr" "TxHash t = rtx_hash rtx" by (simp_all add: cache_agrees_def)
    with Some rtx h show ?thesis
      by (intro that [of tc t]) (simp_all add: UnmarshallTransaction_def cache_Get_def)
  qed
qed

lemma parse_transactions_roundtrip:
  assumes "\<forall>tr \<in> set trs. tr \<noteq> [] \<and> length tr < 2 ^ 63 \<and> tx_parses env f tr \<and> cache_agrees (te_sha256 env) tc tr"
    and "inj_on (raw_hash (te_sha256 env)) (set trs)"
  shows "\<exists>tc' ts'. parse_transactions env f header (concat (map EncodeLengthPlusData trs)) tc ts ms
      = (tc', [], Inr (ts @ ts', ms @ map (\<lambda>tr. BinToHex (DoubleHash (te_sha256 env) tr)) trs))
    \<and> map TxFullData ts' = trs \<and> (\<forall>t \<in> set ts'. TxBlockData t = Some header)"
  using assms
proof (induction trs arbitrary: tc ts ms)
  case Nil
  show ?case by (subst parse_transactions.simps) simp
next
  case (Cons tr trs)
  let ?sha = "te_sha256 env"
  from Cons.prems(1) have tr: "tr \<noteq> []" "length tr < 2 ^ 63" "tx_parses env f tr" "cache_agrees ?sha tc tr" by simp_all
  obtain tc1 t where t: "UnmarshallTransaction env f tr tc = (tc1, Inr t)" "TxFullData t = tr"
      "raw_hash ?sha tr = Some (TxHash t)" "\<And>h. h \<noteq> TxHash t \<Longrightarrow> tc1 h = tc h"
    using UnmarshallTransaction_agrees [OF tr(3,4)] by blast
  let ?t = "t\<lparr>TxBlockData := Some header\<rparr>"
  let ?rest = "concat (map EncodeLengthPlusData trs)"
  have agrees: "cache_agrees ?sha (cache_Set tc1 ?t) tr'" if "tr' \<in> set trs" for tr'
  proof (cases "raw_hash ?sha tr' = Some (TxHash t)")
    case True
    with t(3) Cons.prems(2) that have "tr' = tr" by (auto simp: inj_on_def)
    with True t(2) show ?thesis by (simp add: cache_agrees_def cache_Set_def)
  next
    case False
    then show ?thesis using Cons.prems(1) that t(4)
      by (auto simp: cache_agrees_def cache_Set_def split: option.splits)
  qed
  have len: "DecodeLengthBuf (EncodeLengthPlusData tr @ ?rest) = Inr (int (length tr), tr @ ?rest)"
    using DecodeLengthBuf_len [OF tr(2), of "tr @ ?rest"] by (simp add: EncodeLengthPlusData_def)
  have step: "parse_transactions env f header (concat (map EncodeLengthPlusData (tr # trs))) tc ts ms =
      parse_transactions env f header ?rest (cache_Set tc1 ?t) (ts @ [?t]) (ms @ [BinToHex (DoubleHash ?sha tr)])"
    using tr(1) t(2)
    by (subst parse_transactions.simps) (simp add: len t(1) Let_def, simp add: EncodeLengthPlusData_def)
  have "\<exists>tc' ts'. parse_transactions env f header ?rest (cache_Set tc1 ?t) (ts @ [?t]) (ms @ [BinToHex (DoubleHash ?sha tr)])
      = (tc', [], Inr ((ts @ [?t]) @ ts', (ms @ [BinToHex (DoubleHash ?sha tr)])
          @ map (\<lambda>tr. BinToHex (DoubleHash ?sha tr)) trs))
    \<and> map TxFullData ts' = trs \<and> (\<forall>t \<in> set ts'. TxBlockData t = Some header)"
    by (rule Cons.IH) (use Cons.prems agrees in \<open>auto simp: inj_on_def\<close>)
  then obtain tc' ts' where "parse_transactions env f header ?rest (cache_Set tc1 ?t) (ts @ [?t]) (ms @ [BinToHex (DoubleHash ?sha tr)])
      = (tc', [], Inr ((ts @ [?t]) @ ts', (ms @ [BinToHex (DoubleHash ?sha tr)])
          @ map (\<lambda>tr. BinToHex (DoubleHash ?sha tr)) trs))"
    "map TxFullData ts' = trs" "\<forall>t \<in> set ts'. TxBlockData t = Some header" by blast
  with step t(2) show ?case by (intro exI [of _ tc'] exI [of _ "?t # ts'"]) simp
qed

text \<open>The fields of a header that its fixed-width encoding can hold.\<close>

definition header_fits :: "BlockData \<Rightarrow> bool" where
  "header_fits h \<longleftrightarrow> 0 \<le> sint (bd_Version h) \<and> sint (bd_Version h) < 2 ^ 16
     \<and> 0 \<le> sint (bd_BlockID h) \<and> sint (bd_BlockID h) < 2 ^ 32
     \<and> 0 \<le> sint (bd_Time h) \<and> sint (bd_Time h) < 2 ^ 32
     \<and> 0 \<le> sint (bd_EcosystemID h) \<and> sint (bd_EcosystemID h) < 2 ^ 32
     \<and> 0 \<le> sint (bd_NodePosition h) \<and> sint (bd_NodePosition h) < 2 ^ 8"

lemma DecToBin_fits:
  assumes "0 \<le> sint x" "sint x < 256 ^ k" "0 < k"
  shows "BinToDec (DecToBin x k) = x \<and> length (DecToBin x k) = k"
proof -
  have n: "nat (sint x) < 256 ^ k" using assms by (simp add: nat_less_iff)
  with assms show ?thesis
    by (simp add: DecToBin_be_bytes BinToDec_be_nat be_nat_be_bytes)
qed

text \<open>What the decoder keeps of a header: the hash and the blockchain flag do not travel.\<close>

definition wire_header :: "BlockData \<Rightarrow> bytes \<Rightarrow> BlockData" where
  "wire_header h sg = h\<lparr>bd_Sign := sg, bd_Hash := [], bd_PrivateBlockchain := False\<rparr>"

definition header_bytes :: "BlockData \<Rightarrow> bytes \<Rightarrow> bytes" where
  "header_bytes h sg =
     DecToBin (bd_Version h) 2 @ DecToBin (bd_BlockID h) 4 @ DecToBin (bd_Time h) 4
       @ DecToBin (bd_EcosystemID h) 4 @ EncodeLenInt64InPlace (bd_KeyID h)
       @ DecToBin (bd_NodePosition h) 1 @ EncodeLengthPlusData sg"

lemma header_fields_fit:
  assumes "header_fits h"
  shows "BinToDec (DecToBin (bd_Version h) 2) = bd_Version h" "length (DecToBin (bd_Version h) 2) = 2"
    "BinToDec (DecToBin (bd_BlockID h) 4) = bd_BlockID h" "length (DecToBin (bd_BlockID h) 4) = 4"
    "BinToDec (DecToBin (bd_Time h) 4) = bd_Time h" "length (DecToBin (bd_Time h) 4) = 4"
    "BinToDec (DecToBin (bd_EcosystemID h) 4) = bd_EcosystemID h" "length (DecToBin (bd_EcosystemID h) 4) = 4"
    "BinToDec (DecToBin (bd_NodePosition h) 1) = bd_NodePosition h" "length (DecToBin (bd_NodePosition h) 1) = 1"
  using DecToBin_fits [of "bd_Version h" 2] DecToBin_fits [of "bd_BlockID h" 4] DecToBin_fits [of "bd_Time h" 4]
    DecToBin_fits [of "bd_EcosystemID h" 4] DecToBin_fits [of "bd_NodePosition h" 1] assms
  by (simp_all add: header_fits_def)

lemma header_bytes_length: "header_fits h \<Longrightarrow> length sg + 15 \<le> length (header_bytes h sg)"
  by (simp add: header_bytes_def header_fields_fit EncodeLengthPlusData_def del: One_nat_def)

lemma length_concat_ge: "tr \<in> set trs \<Longrightarrow> length tr \<le> length (concat (map EncodeLengthPlusData trs))"
  by (induction trs) (auto simp: EncodeLengthPlusData_def)

lemma ParseBlockHeader_roundtrip:
  assumes "header_fits h" "sint (bd_BlockID h) > 1" "length sg < 2 ^ 63"
    and "chk \<longrightarrow> int (length (header_bytes h sg @ rest)) \<le> sint maxSize + 2"
  shows "ParseBlockHeader maxSize (header_bytes h sg @ rest) chk = Inr (wire_header h sg, rest)"
proof -
  have key: "DecodeLenInt64Buf (EncodeLenInt64InPlace (bd_KeyID h) @ r) = Inr (bd_KeyID h, r)" for r
    by (simp add: DecodeLenInt64Buf_eq EncodeLenInt64InPlace_eq codec)
  have sz: "DecodeLengthBuf (EncodeLengthPlusData sg @ rest) = Inr (int (length sg), sg @ rest)"
    using DecodeLengthBuf_len [OF assms(3), of "sg @ rest"] by (simp add: EncodeLengthPlusData_def)
  show ?thesis
    using assms(2,4)
    by (auto simp: ParseBlockHeader_def header_bytes_def buf_Next_def header_fields_fit [OF assms(1)] key sz Let_def wire_header_def empty_BlockData_def
        simp del: One_nat_def)
qed

lemma MarshallBlock_signed:
  assumes "MarshallBlock sha256 sign header trs prevHash key = Inr data" "key \<noteq> []"
  obtains root sg where
    "MerkleTreeRoot sha256 (if trs = [] then [bytes_of_string ''0'']
       else map (\<lambda>tr. BinToHex (DoubleHash sha256 tr)) trs) = Inr root"
    "sign key (for_sign_text (bd_BlockID header) prevHash (bd_Time header) (bd_EcosystemID header)
       (bd_KeyID header) (bd_NodePosition header) root) = Inr sg"
    "data = header_bytes header sg @ concat (map EncodeLengthPlusData trs)"
  using assms by (auto simp: MarshallBlock_def Let_def header_bytes_def res_simps split: if_splits)

lemma block_reads_back:
  assumes "MarshallBlock (te_sha256 env) sign header trs prevHash key = Inr data"
    and "key \<noteq> []" "header_fits header" "sint (bd_BlockID header) > 1"
    and "int (length data) \<le> sint maxSize + 2"
    and "\<forall>tr \<in> set trs. tr \<noteq> [] \<and> tx_parses env f tr \<and> cache_agrees (te_sha256 env) tc tr"
    and "inj_on (raw_hash (te_sha256 env)) (set trs)"
  shows "\<exists>tc' b. UnmarshallBlock env maxSize data False f tc = (tc', [], Inr b)
    \<and> map TxFullData (b_Transactions b) = trs
    \<and> b_Header b = wire_header header (bd_Sign (b_Header b))
    \<and> (\<forall>prev text. bd_Hash prev = prevHash \<and> ForSign (b\<lparr>b_PrevHeader := Some prev\<rparr>) = Inr text
          \<longrightarrow> sign key text = Inr (bd_Sign (b_Header b)))"
proof -
  let ?sha = "te_sha256 env"
  obtain root sg where
    root: "MerkleTreeRoot ?sha (if trs = [] then [bytes_of_string ''0'']
       else map (\<lambda>tr. BinToHex (DoubleHash ?sha tr)) trs) = Inr root"
    and sg: "sign key (for_sign_text (bd_BlockID header) prevHash (bd_Time header) (bd_EcosystemID header)
       (bd_KeyID header) (bd_NodePosition header) root) = Inr sg"
    and data: "data = header_bytes header sg @ concat (map EncodeLengthPlusData trs)"
    using MarshallBlock_signed [OF assms(1,2)] .
  have "int (length data) < 2 ^ 63 + 2" using assms(5) sint64_upper [of maxSize] by (simp add: max_int64_def)
  moreover have "length sg + 8 < length data" using header_bytes_length [OF assms(3), of sg] by (simp add: data)
  moreover have "length tr + 8 < length data" if "tr \<in> set trs" for tr
    using header_bytes_length [OF assms(3), of sg] length_concat_ge [OF that] by (simp add: data)
  ultimately have len: "length sg < 2 ^ 63" "\<And>tr. tr \<in> set trs \<Longrightarrow> length tr < 2 ^ 63" by force+
  have hdr: "ParseBlockHeader maxSize data True = Inr (wire_header header sg, concat (map EncodeLengthPlusData trs))"
    unfolding data by (rule ParseBlockHeader_roundtrip) (use assms len data in auto)
  obtain tc' ts where "parse_transactions env f (wire_header header sg) (concat (map EncodeLengthPlusData trs)) tc [] []
      = (tc', [], Inr (ts, map (\<lambda>tr. BinToHex (DoubleHash ?sha tr)) trs))" "map TxFullData ts = trs"
    using parse_transactions_roundtrip [of trs env f tc "wire_header header sg" "[]" "[]"] assms len by auto
  with hdr root sg show ?thesis
    by (auto simp: UnmarshallBlock_def Let_def ForSign_def wire_header_def)
qed

text \<open>
  C11: what a node writes with \<open>MarshallBlock\<close>, every other node reads back with \<open>UnmarshallBlock\<close>:
  the header with all the fields that travel, the transactions in order and with nothing left
  over; and the text over which the reader checks the signature (\<open>ForSign\<close>, with the Merkle root
  the reader computed itself) is the text the writer signed. The hypotheses: the header fits its
  fields, the block is within the size limit, every transaction parses, and neither the cache nor
  the block itself holds another transaction under the hash of one of them.
\<close>

theorem block_roundtrip:
  assumes "MarshallBlock (te_sha256 env) sign header trs prevHash key = Inr data"
    and "key \<noteq> []" "header_fits header" "sint (bd_BlockID header) > 1"
    and "int (length data) \<le> sint maxSize + 2"
    and "\<forall>tr \<in> set trs. tr \<noteq> [] \<and> tx_parses env f tr \<and> cache_agrees (te_sha256 env) tc tr"
    and "inj_on (raw_hash (te_sha256 env)) (set trs)"
  shows "\<exists>tc' b. UnmarshallBlock env maxSize data False f tc = (tc', [], Inr b)
    \<and> map TxFullData (b_Transactions b) = trs
    \<and> b_Header b = wire_header header (bd_Sign (b_Header b))
    \<and> (\<forall>prev text. bd_Hash prev = prevHash \<and> ForSign (b\<lparr>b_PrevHeader := Some prev\<rparr>) = Inr text
          \<longrightarrow> sign key text = Inr (bd_Sign (b_Header b)))"
  by (rule block_reads_back [OF assms])

section \<open>A block that carries one transaction\<close>

definition demo_env :: "(nat, nat) tx_env" where
  "demo_env = \<lparr>te_sha256 = (\<lambda>b. take 32 (b @ replicate 32 0)), te_msgpack = (\<lambda>_. Inl (Error ''no msgpack'')),
     te_GetContractByID = (\<lambda>_. None), te_has_tx = (\<lambda>_. False), te_FillTxData = (\<lambda>_ p. Inr p),
     te_Validate = (\<lambda>_ _. Inr ())\<rparr>"

definition demo_header :: BlockData where
  "demo_header = empty_BlockData\<lparr>bd_BlockID := 2, bd_Time := 1500000000, bd_Version := 1\<rparr>"

lemma demo_header_fits: "header_fits demo_header"
  by (simp add: header_fits_def demo_header_def empty_BlockData_def)

lemma demo_block:
  "\<exists>data. MarshallBlock (te_sha256 demo_env) (\<lambda>_ _. Inr [1, 2]) demo_header [[3, 7]] [9] ''k'' = Inr data
     \<and> length data \<le> 64"
proof -
  obtain root where "MerkleTreeRoot (te_sha256 demo_env) [BinToHex (DoubleHash (te_sha256 demo_env) [3, 7])] = Inr root"
    using MerkleTreeRoot_total [of "[BinToHex (DoubleHash (te_sha256 demo_env) [3, 7])]" "te_sha256 demo_env"] by auto
  moreover have "length (header_bytes demo_header [1, 2]) \<le> 50"
    by (simp add: header_bytes_def header_fields_fit [OF demo_header_fits] del: One_nat_def)
      (simp add: demo_header_def empty_BlockData_def EncodeLenInt64InPlace_def EncodeLengthPlusData_def Let_def
        EncodeLength_def)
  ultimately show ?thesis
    by (simp add: MarshallBlock_def header_bytes_def EncodeLengthPlusData_def Let_def EncodeLength_def)
qed

lemma demo_tx_parses: "tx_parses demo_env True [3, 7]"
  by (simp add: tx_parses_def UnmarshallTransaction_def RawTransaction_Unmarshall_def IsContractTransaction_def
      Let_def cache_Get_def IsStruct_def)

theorem block_roundtrip_witness:
  "\<exists>data tc' b. MarshallBlock (te_sha256 demo_env) (\<lambda>_ _. Inr [1, 2]) demo_header [[3, 7]] [9] ''k'' = Inr data
     \<and> UnmarshallBlock demo_env 1000 data False True Map.empty = (tc', [], Inr b)
     \<and> map TxFullData (b_Transactions b) = [[3, 7]]"
proof -
  obtain data where d: "MarshallBlock (te_sha256 demo_env) (\<lambda>_ _. Inr [1, 2]) demo_header [[3, 7]] [9] ''k'' = Inr data"
    "length data \<le> 64" using demo_block by blast
  have "0 \<le> sint (1000 :: int64)" "sint (bd_BlockID demo_header) > 1"
    by (simp_all add: demo_header_def empty_BlockData_def)
  with block_roundtrip [OF d(1) _ demo_header_fits, of 1000 True Map.empty] d(2) demo_tx_parses
  have "\<exists>tc' b. UnmarshallBlock demo_env 1000 data False True Map.empty = (tc', [], Inr b)
      \<and> map TxFullData (b_Transactions b) = [[3, 7]]"
    by (fastforce simp: cache_agrees_def split: option.splits)
  then obtain tc' b where "UnmarshallBlock demo_env 1000 data False True Map.empty = (tc', [], Inr b)"
    "map TxFullData (b_Transactions b) = [[3, 7]]" by (elim exE conjE)
  with d(1) show ?thesis by (intro exI [of _ data] exI [of _ tc'] exI [of _ b]) simp
qed

lemma unmarshal_bytes_slice:
  "length p < 2 ^ 63 \<Longrightarrow> unmarshal_bytes (EncodeLength (of_nat (length p)) @ p @ rest) = Inr (p, rest)"
  by (simp add: unmarshal_bytes_def BinUnmarshalBuff.simps codec)

text \<open>A contract transaction on the wire: its type, the payload with its length, the signature.\<close>

definition contract_tx :: "byte \<Rightarrow> bytes \<Rightarrow> bytes \<Rightarrow> bytes" where
  "contract_tx c payload sg = c # EncodeLength (of_nat (length payload)) @ payload @ sg"

lemma IsContractTransaction_byte: "c > 127 \<Longrightarrow> IsContractTransaction (ucast (c :: byte))"
proof -
  assume c: "c > 127"
  have u: "0 \<le> uint c" "uint c < 256" using uint_bounded [of c] by simp_all
  then have "- 9223372036854775808 \<le> uint c" by linarith
  with u have "sint (ucast c :: int64) = uint c" by (simp add: signed_ucast_eq signed_take_bit_int_eq_self_iff)
  then show ?thesis using c by (simp add: IsContractTransaction_def word_less_def)
qed

lemma RawTransaction_contract:
  assumes "c > 127" "length p < 2 ^ 63"
  shows "RawTransaction_Unmarshall sha256 (contract_tx c p sg) = Inr
    \<lparr>rtx_txType = ucast c, rtx_hash = DoubleHash sha256 p, rtx_data = contract_tx c p sg,
     rtx_payload = p, rtx_signature = sg\<rparr>"
  using unmarshal_bytes_slice [OF assms(2), of sg] IsContractTransaction_byte [OF assms(1)]
  by (simp add: RawTransaction_Unmarshall_def contract_tx_def Let_def)

text \<open>
  The cache of parsed transactions is keyed by the hash of the payload alone. Once a contract
  transaction was parsed, the same payload under any other type byte and any other signature is
  answered with the transaction seen first: its full data and its signature, not those received.
\<close>

theorem transaction_cache_ignores_signature:
  assumes "UnmarshallTransaction env f (contract_tx c p sg) Map.empty = (tc, Inr t)"
    and "c > 127" "c' > 127" "length p < 2 ^ 63"
  shows "UnmarshallTransaction env f' (contract_tx c' p sg') tc = (tc, Inr t)
    \<and> TxFullData t = contract_tx c p sg \<and> TxSignature t = sg"
proof -
  let ?sha = "te_sha256 env"
  have "TxHash t = DoubleHash ?sha p" "TxFullData t = contract_tx c p sg" "TxSignature t = sg" "tc = Map.empty(TxHash t \<mapsto> t)"
    using assms(1) by (auto simp: UnmarshallTransaction_def RawTransaction_contract [OF assms(2,4)] IsContractTransaction_byte [OF assms(2)] cache_Get_def
        newTransaction_def cache_Set_def Let_def dest!: parse_keeps split: sum.splits if_splits)
  then show ?thesis
    by (simp add: UnmarshallTransaction_def RawTransaction_contract [OF assms(3,4)] cache_Get_def)
qed

definition demo_contract_env :: "(nat, nat) tx_env" where
  "demo_contract_env = demo_env\<lparr>te_msgpack := (\<lambda>_. Inr \<lparr>sc_ID = 1, sc_EcosystemID = 1, sc_Time = 0, sc_KeyID = 5, sc_Params = 0\<rparr>),
     te_GetContractByID := (\<lambda>_. Some 1)\<rparr>"

theorem transaction_cache_ignores_signature_witness:
  "\<exists>tc t. UnmarshallTransaction demo_contract_env True (contract_tx 200 [5] [1]) Map.empty = (tc, Inr t)
     \<and> UnmarshallTransaction demo_contract_env True (contract_tx 201 [5] [2]) tc = (tc, Inr t)
     \<and> TxSignature t = [1]"
proof -
  obtain tc t where "UnmarshallTransaction demo_contract_env True (contract_tx 200 [5] [1]) Map.empty = (tc, Inr t)"
    by (simp add: UnmarshallTransaction_def RawTransaction_contract cache_Get_def IsContractTransaction_def
        parseFromContract_def demo_contract_env_def demo_env_def Let_def)
  then show ?thesis
    using transaction_cache_ignores_signature [of demo_contract_env True 200 "[5]" "[1]" tc t 201 True "[2]"]
    by (intro exI [of _ tc] exI [of _ t]) simp
qed

end
