(* ===== verification/Block_Time.thy ===== *)
theory Block_Time
  imports Prelude
begin

text \<open>
  When a node may generate a block: \<open>packages/protocols/generation-queue.go\<close> (the counter the node
  uses), \<open>packages/utils/time_calculator.go\<close> and \<open>packages/utils/block_time_calculator.go\<close> (its two
  predecessors). A \<open>time.Time\<close> is the integer number of nanoseconds since the epoch, a
  \<open>time.Duration\<close> an \<open>int64\<close> number of nanoseconds, kept as an integer with its wrap-around
  written out.
\<close>

definition Second :: int where "Second = 1000000000"
definition Millisecond :: int where "Millisecond = 1000000"

text \<open>\<open>dur\<close> is the wrap-around of \<open>Duration\<close> arithmetic; \<open>Time.Sub\<close> saturates instead.\<close>

abbreviation dur :: "int \<Rightarrow> int" where
  "dur \<equiv> wrap64"

definition time_Sub :: "int \<Rightarrow> int \<Rightarrow> int" where
  "time_Sub t u = max min_int64 (min max_int64 (t - u))"

definition time_Unix :: "int \<Rightarrow> int" where
  "time_Unix t = t div Second"

definition go_div :: "int \<Rightarrow> int \<Rightarrow> int res" where
  "go_div a b = (if b = 0 then Inl (Panic ''integer divide by zero'') else Inr (dur (trunc_div a b)))"

definition go_mod :: "int \<Rightarrow> int \<Rightarrow> int res" where
  "go_mod a b = (if b = 0 then Inl (Panic ''integer divide by zero'') else Inr (dur (trunc_mod a b)))"

section \<open>The generation queue\<close>

record BlockTimeCounter =
  btc_start :: int
  btc_duration :: int
  btc_numberNodes :: int

text \<open>The parameters of the first block's time, \<open>max_block_generation_time\<close> and \<open>gap_between_blocks\<close>.\<close>

definition NewBlockTimeCounter :: "32 word \<Rightarrow> int64 \<Rightarrow> int64 \<Rightarrow> int64 \<Rightarrow> BlockTimeCounter" where
  "NewBlockTimeCounter firstTime maxGenTime gaps nodes =
     \<lparr>btc_start = uint firstTime * Second,
      btc_duration = dur (dur (Millisecond * sint maxGenTime) + dur (Second * sint gaps)),
      btc_numberNodes = sint nodes\<rparr>"

definition queue :: "BlockTimeCounter \<Rightarrow> int \<Rightarrow> int res" where
  "queue btc t =
     (let t = time_Unix t * Second in
      if t < btc_start btc then Inl (Error ''current time before first block'')
      else go_div (dur (time_Sub t (btc_start btc) - 1)) (btc_duration btc))"

definition nodePosition :: "BlockTimeCounter \<Rightarrow> int \<Rightarrow> int res" where
  "nodePosition btc t = bind_res (queue btc t) (\<lambda>q. go_mod q (btc_numberNodes btc))"

definition nextTime :: "BlockTimeCounter \<Rightarrow> int \<Rightarrow> int \<Rightarrow> int res" where
  "nextTime btc t pos =
     (if pos \<ge> btc_numberNodes btc then Inl (Error ''wrong node position'')
      else
        bind_res (queue btc t) (\<lambda>q.
        bind_res (go_mod q (btc_numberNodes btc)) (\<lambda>cur.
          let d = dur (pos - cur);
              d = (if cur \<ge> pos then dur (d + btc_numberNodes btc) else d)
          in Inr (btc_start btc + dur (dur (btc_duration btc * dur (q + d)) + Millisecond)))))"

definition RangeByTime :: "BlockTimeCounter \<Rightarrow> int \<Rightarrow> (int \<times> int) res" where
  "RangeByTime btc t =
     bind_res (queue btc t) (\<lambda>q.
       let start = btc_start btc + dur (dur (btc_duration btc * q) + Second)
       in Inr (start, start + dur (btc_duration btc - Second)))"

definition TimeToGenerate :: "BlockTimeCounter \<Rightarrow> int \<Rightarrow> int \<Rightarrow> bool res" where
  "TimeToGenerate btc at pos =
     (if pos \<ge> btc_numberNodes btc then Inl (Error ''wrong node position'')
      else bind_res (nodePosition btc at) (\<lambda>p. Inr (p = pos)))"

text \<open>
  \<open>model.Block.GetNodeBlocksAtTime\<close>: the blocks of a node whose time, in seconds, lies between two
  instants, both cut to seconds. The blockchain table is the list of the times and node positions
  of the blocks; the parameter \<open>db\<close> gives it, or the error of the query.
\<close>

definition GetNodeBlocksAtTime :: "(int \<times> int) list \<Rightarrow> int \<Rightarrow> int \<Rightarrow> int \<Rightarrow> (int \<times> int) list" where
  "GetNodeBlocksAtTime blocks from to node =
     filter (\<lambda>(tm, pos). pos = node \<and> time_Unix from \<le> tm \<and> tm \<le> time_Unix to) blocks"

definition BlockForTimeExists ::
  "(int \<times> int) list res \<Rightarrow> BlockTimeCounter \<Rightarrow> int \<Rightarrow> int \<Rightarrow> bool res" where
  "BlockForTimeExists db btc t pos =
     bind_res (RangeByTime btc t) (\<lambda>(start, stop).
     bind_res db (\<lambda>blocks. Inr (GetNodeBlocksAtTime blocks start stop pos \<noteq> [])))"

section \<open>The predecessors\<close>

definition utils_Block :: "BlockTimeCounter \<Rightarrow> int \<Rightarrow> int res" where
  "utils_Block btc t = go_div (dur (time_Sub t (btc_start btc) - 1)) (btc_duration btc)"

definition utils_NodePosition :: "BlockTimeCounter \<Rightarrow> int \<Rightarrow> int res" where
  "utils_NodePosition btc t = bind_res (utils_Block btc t) (\<lambda>q. go_mod q (btc_numberNodes btc))"

definition utils_ValidateBlock :: "BlockTimeCounter \<Rightarrow> int \<Rightarrow> int \<Rightarrow> bool res" where
  "utils_ValidateBlock btc t pos = bind_res (utils_NodePosition btc t) (\<lambda>p. Inr (p = pos))"

definition utils_NextTime :: "BlockTimeCounter \<Rightarrow> int \<Rightarrow> int \<Rightarrow> int res" where
  "utils_NextTime btc t pos =
     bind_res (utils_Block btc t) (\<lambda>q.
     bind_res (go_mod q (btc_numberNodes btc)) (\<lambda>cur.
       let d = dur (pos - cur);
           d = (if cur \<ge> pos then dur (d + btc_numberNodes btc) else d)
       in Inr (btc_start btc + dur (dur (btc_duration btc * dur (q + d)) + Second))))"

definition utils_RangesByTime :: "BlockTimeCounter \<Rightarrow> int \<Rightarrow> (int \<times> int) res" where
  "utils_RangesByTime btc t =
     bind_res (utils_NodePosition btc t) (\<lambda>p.
       let stop = btc_start btc + dur (dur (btc_duration btc * p) + 1)
       in Inr (stop + dur (- btc_duration btc), stop))"

record BlockTimeCalculator =
  calc_firstBlockTime :: int
  calc_blockGenerationTime :: int
  calc_blocksGap :: int
  calc_nodesCount :: int

record blockGenerationState =
  bgs_start :: int
  bgs_duration :: int
  bgs_nodePosition :: int

text \<open>The loop of \<open>countBlockTime\<close>; it may run forever, and then has no value.\<close>

partial_function (option) countBlockTime_loop ::
  "BlockTimeCalculator \<Rightarrow> int \<Rightarrow> int \<Rightarrow> int \<Rightarrow> blockGenerationState option" where
  "countBlockTime_loop btc blockTime nextBlockStart curNodeIndex =
     (let step = dur (calc_blocksGap btc + calc_blockGenerationTime btc);
          curBlockStart = nextBlockStart;
          nextBlockStart = curBlockStart + step + Second in
      if blockTime = curBlockStart \<or> blockTime > curBlockStart \<and> blockTime < nextBlockStart then
        Some \<lparr>bgs_start = curBlockStart, bgs_duration = step, bgs_nodePosition = curNodeIndex\<rparr>
      else
        countBlockTime_loop btc blockTime nextBlockStart
          (if calc_nodesCount btc > 0 then trunc_mod (dur (curNodeIndex + 1)) (calc_nodesCount btc) else curNodeIndex))"

definition countBlockTime :: "BlockTimeCalculator \<Rightarrow> int \<Rightarrow> blockGenerationState res option" where
  "countBlockTime btc blockTime =
     (if blockTime < calc_firstBlockTime btc then Some (Inl (Error ''current time before first block''))
      else map_option Inr (countBlockTime_loop btc blockTime (calc_firstBlockTime btc) 0))"

text \<open>\<open>ValidateBlock\<close>; \<open>TimeToGenerate\<close> is the same at the current time. \<open>count\<close> is the block counter.\<close>

definition calc_ValidateBlock ::
  "(blockGenerationState \<Rightarrow> int res) \<Rightarrow> BlockTimeCalculator \<Rightarrow> int \<Rightarrow> int \<Rightarrow> bool res option" where
  "calc_ValidateBlock count btc pos at =
     map_option (\<lambda>r.
       bind_res r (\<lambda>bgs.
       bind_res (count bgs) (\<lambda>blocks.
         if blocks \<noteq> 0 then Inl (Error ''block with that time interval already exists in db'')
         else Inr (bgs_nodePosition bgs = pos)))) (countBlockTime btc at)"

section \<open>The slots\<close>

text \<open>
  A counter the node can be configured with: at least one node, slots of a positive length, the
  start at a full second. \<open>time_ok\<close> bounds the time so that no duration overflows (292 years).
\<close>

definition btc_ok :: "BlockTimeCounter \<Rightarrow> bool" where
  "btc_ok btc \<longleftrightarrow> Millisecond \<le> btc_duration btc \<and> btc_duration btc < 2 ^ 61 \<and> 0 < btc_numberNodes btc
     \<and> btc_numberNodes btc < 2 ^ 61 \<and> btc_start btc mod Second = 0"

definition time_ok :: "BlockTimeCounter \<Rightarrow> int \<Rightarrow> bool" where
  "time_ok btc t \<longleftrightarrow> btc_start btc \<le> t \<and> t - btc_start btc < 2 ^ 61"

text \<open>The slot of an instant \<open>x\<close> nanoseconds after the start: the slots are open on the left.\<close>

definition slot :: "int \<Rightarrow> int \<Rightarrow> int" where
  "slot d x = (if x = 0 then 0 else (x - 1) div d)"

lemma dur_nonneg: "0 \<le> x \<Longrightarrow> x < 2 ^ 61 \<Longrightarrow> dur x = x"
  by (intro wrap64_small) simp_all

lemma trunc_div_slot: "0 \<le> x \<Longrightarrow> 1 < d \<Longrightarrow> trunc_div (x - 1) d = slot d x"
  by (auto simp: slot_def trunc_div_nonneg) (simp add: trunc_div_def)

lemma div_iff: "0 < d \<Longrightarrow> x div d = q \<longleftrightarrow> q * d \<le> x \<and> x < (q + 1) * (d :: int)"
proof -
  assume d: "0 < d"
  have e: "x div d * d = x - x mod d" by (simp add: minus_mod_eq_div_mult)
  have "0 \<le> x mod d" "x mod d < d" using d by simp_all
  moreover have "x div d = q" if "q * d \<le> x" "x < (q + 1) * d"
    using that by (intro int_div_pos_eq [where r = "x - q * d"]) (simp_all add: algebra_simps)
  ultimately show ?thesis by (auto simp: distrib_right e)
qed

lemma slot_iff: "0 < x \<Longrightarrow> 0 < d \<Longrightarrow> slot d x = q \<longleftrightarrow> q * d < x \<and> x \<le> (q + 1) * d"
  by (auto simp: slot_def div_iff)

lemma slot_nonneg: "0 \<le> x \<Longrightarrow> 0 < d \<Longrightarrow> 0 \<le> slot d x"
  by (simp add: slot_def pos_imp_zdiv_nonneg_iff)

lemma slot_mult_le: "0 \<le> x \<Longrightarrow> 0 < d \<Longrightarrow> slot d x * d \<le> x"
  using slot_iff [of x d "slot d x"] by (cases "x = 0") (auto simp: slot_def)

lemma slot_le: "0 \<le> x \<Longrightarrow> 0 < d \<Longrightarrow> slot d x \<le> x"
  using slot_mult_le [of x d] slot_nonneg [of x d] mult_left_mono [of 1 d "slot d x"] by simp

definition since :: "BlockTimeCounter \<Rightarrow> int \<Rightarrow> int" where
  "since btc t = time_Unix t * Second - btc_start btc"

lemma since_range:
  assumes "btc_ok btc" "time_ok btc t"
  shows "0 \<le> since btc t" "since btc t < 2 ^ 61"
proof -
  have "btc_start btc = btc_start btc div Second * Second"
    using assms(1) by (simp add: btc_ok_def dvd_eq_mod_eq_0 [symmetric])
  moreover have "btc_start btc div Second \<le> t div Second"
    using assms(2) by (intro zdiv_mono1) (simp_all add: time_ok_def Second_def)
  ultimately show "0 \<le> since btc t" unfolding since_def time_Unix_def Second_def by linarith
  have "t div Second * Second \<le> t" by (simp add: Second_def)
  then show "since btc t < 2 ^ 61" using assms(2) by (simp add: since_def time_Unix_def time_ok_def)
qed

lemma queue_slot:
  assumes "btc_ok btc" "time_ok btc t"
  shows "queue btc t = Inr (slot (btc_duration btc) (since btc t))"
proof -
  let ?x = "since btc t" and ?d = "btc_duration btc"
  have x: "0 \<le> ?x" "?x < 2 ^ 61" and d: "1 < ?d" "?d \<noteq> 0"
    using since_range [OF assms] assms(1) by (simp_all add: btc_ok_def Millisecond_def)
  then have "time_Sub (time_Unix t * Second) (btc_start btc) = ?x"
    by (simp add: time_Sub_def since_def min_int64_def max_int64_def)
  moreover have "dur (?x - 1) = ?x - 1" using x by (intro wrap64_small) simp_all
  moreover have "dur (slot ?d ?x) = slot ?d ?x"
    using x d slot_nonneg [of ?x ?d] slot_le [of ?x ?d] by (intro wrap64_small) simp_all
  ultimately show ?thesis using x d
    by (simp add: queue_def go_div_def trunc_div_slot Let_def since_def)
qed

lemma nodePosition_slot:
  assumes "btc_ok btc" "time_ok btc t"
  shows "nodePosition btc t = Inr (slot (btc_duration btc) (since btc t) mod btc_numberNodes btc)"
proof -
  let ?q = "slot (btc_duration btc) (since btc t)" and ?n = "btc_numberNodes btc"
  have n: "0 < ?n" "?n < 2 ^ 61" and d: "0 < btc_duration btc" using assms(1) by (simp_all add: btc_ok_def Millisecond_def)
  then have "0 \<le> ?q" using since_range(1) [OF assms] by (intro slot_nonneg)
  moreover have "0 \<le> ?q mod ?n" "?q mod ?n < ?n" using n by simp_all
  then have "dur (?q mod ?n) = ?q mod ?n" using n by (intro dur_nonneg) linarith+
  ultimately show ?thesis using n
    by (simp add: nodePosition_def queue_slot [OF assms] go_mod_def trunc_mod_nonneg)
qed

definition demo_btc :: BlockTimeCounter where
  "demo_btc = \<lparr>btc_start = 1500000000 * Second, btc_duration = 4 * Second, btc_numberNodes = 3\<rparr>"

lemma demo_btc_ok: "btc_ok demo_btc" "time_ok demo_btc (1500000010 * Second)"
  by (simp_all add: btc_ok_def time_ok_def demo_btc_def Second_def Millisecond_def)

text \<open>
  C26: at every instant exactly one of the nodes may generate a block. (The counter is one a node
  can be configured with; \<open>time_ok\<close> keeps the duration since the first block within its type.)
\<close>

theorem TimeToGenerate_unique:
  assumes "btc_ok btc" "time_ok btc t"
  shows "\<exists>!p. 0 \<le> p \<and> TimeToGenerate btc t p = Inr True"
proof -
  let ?p = "slot (btc_duration btc) (since btc t) mod btc_numberNodes btc"
  have "0 \<le> ?p" "?p < btc_numberNodes btc" using assms(1) by (simp_all add: btc_ok_def)
  then show ?thesis
    by (intro ex1I [of _ ?p]) (auto simp: TimeToGenerate_def nodePosition_slot [OF assms] split: if_splits)
qed

theorem TimeToGenerate_unique_witness:
  "\<exists>!p. 0 \<le> p \<and> TimeToGenerate demo_btc (1500000010 * Second) p = Inr True"
  using TimeToGenerate_unique [OF demo_btc_ok] .

lemma time_Unix_add: "btc_start btc mod Second = 0 \<Longrightarrow>
    time_Unix (btc_start btc + y) = btc_start btc div Second + y div Second"
  by (simp add: time_Unix_def div_add1_eq)

lemma RangeByTime_slot:
  assumes "btc_ok btc" "time_ok btc t"
  defines "d \<equiv> btc_duration btc" and "q \<equiv> slot (btc_duration btc) (since btc t)"
  shows "RangeByTime btc t = Inr (btc_start btc + (q * d + Second), btc_start btc + (q + 1) * d)"
proof -
  have d: "0 < d" "d < 2 ^ 61" using assms(1) by (simp_all add: btc_ok_def Millisecond_def d_def)
  have x: "0 \<le> since btc t" "since btc t < 2 ^ 61" using since_range [OF assms(1,2)] by simp_all
  have q: "0 \<le> q" "q * d \<le> since btc t"
    using slot_nonneg [OF x(1) d(1)] slot_mult_le [OF x(1) d(1)] by (simp_all add: q_def d_def)
  then have qd: "0 \<le> d * q" "d * q < 2 ^ 61" using x d by (simp_all add: mult.commute)
  have "dur (d * q) = d * q" using qd by (rule dur_nonneg)
  moreover have "dur (d * q + Second) = d * q + Second" using qd by (intro wrap64_small) (simp_all add: Second_def)
  moreover have "dur (d - Second) = d - Second" using d by (intro wrap64_small) (simp_all add: Second_def)
  ultimately show ?thesis
    by (simp add: RangeByTime_def queue_slot [OF assms(1,2)] q_def d_def Let_def algebra_simps)
qed

text \<open>Between the two cut instants lie exactly the full seconds of the slot.\<close>

lemma slot_seconds:
  assumes "0 < d" "0 < x" "x mod Second = 0"
  shows "slot d x = q \<longleftrightarrow> (q * d + Second) div Second \<le> x div Second \<and> x div Second \<le> ((q + 1) * d) div Second"
proof -
  obtain k where x: "x = k * Second" using assms(3) by (metis dvd_eq_mod_eq_0 dvdE mult.commute)
  have "(q * d + Second) div Second = q * d div Second + 1" by (simp add: Second_def)
  moreover have "q * d div Second < k \<longleftrightarrow> q * d < k * Second" by (simp add: Second_def) linarith
  moreover have "k \<le> (q + 1) * d div Second \<longleftrightarrow> k * Second \<le> (q + 1) * d" by (simp add: Second_def) linarith
  moreover have "k * Second div Second = k" by (simp add: Second_def)
  ultimately show ?thesis using slot_iff [OF assms(2,1), of q] x by auto
qed

text \<open>
  C28: \<open>BlockForTimeExists\<close> answers whether the blockchain holds a block of the node whose time lies
  in the same generation slot. The interval it queries, cut to seconds on both sides, is exactly
  the slot, also when a slot is not a whole number of seconds. The tests of the repository expect another range (below).
\<close>

theorem BlockForTimeExists_slot:
  assumes "btc_ok btc" "time_ok btc t"
    and "list_all (\<lambda>(tm, p). btc_start btc < tm * Second \<and> time_ok btc (tm * Second)) blocks"
  shows "BlockForTimeExists (Inr blocks) btc t pos =
    Inr (\<exists>tm. (tm, pos) \<in> set blocks \<and> queue btc (tm * Second) = queue btc t)"
proof -
  let ?d = "btc_duration btc" and ?q = "slot (btc_duration btc) (since btc t)"
  let ?a = "btc_start btc + (?q * ?d + Second)" and ?b = "btc_start btc + (?q + 1) * ?d"
  have d: "0 < ?d" and st: "btc_start btc mod Second = 0" using assms(1) by (simp_all add: btc_ok_def Millisecond_def)
  have "time_Unix ?a \<le> tm \<and> tm \<le> time_Unix ?b \<longleftrightarrow> queue btc (tm * Second) = queue btc t"
    if "(tm, p) \<in> set blocks" for tm p
  proof -
    have tm: "btc_start btc < tm * Second" "time_ok btc (tm * Second)" using assms(3) that by (auto simp: list_all_iff)
    have x: "since btc (tm * Second) = tm * Second - btc_start btc" by (simp add: since_def time_Unix_def Second_def)
    have m: "(tm * Second - btc_start btc) mod Second = 0" using st by (simp add: mod_diff_eq [symmetric])
    obtain k0 where k0: "btc_start btc = k0 * Second" using st by (metis dvd_eq_mod_eq_0 dvdE mult.commute)
    have "tm * Second - btc_start btc = (tm - k0) * Second" by (simp add: k0 left_diff_distrib)
    then have k: "(tm * Second - btc_start btc) div Second = tm - btc_start btc div Second"
      by (simp add: k0 Second_def)
    have "queue btc (tm * Second) = queue btc t \<longleftrightarrow> slot ?d (tm * Second - btc_start btc) = ?q"
      by (simp only: queue_slot [OF assms(1) tm(2)] queue_slot [OF assms(1,2)] x sum.inject)
    also have "\<dots> \<longleftrightarrow> (?q * ?d + Second) div Second \<le> tm - btc_start btc div Second
        \<and> tm - btc_start btc div Second \<le> ((?q + 1) * ?d) div Second"
      using slot_seconds [OF d _ m, of ?q] tm(1) by (simp only: k diff_gt_0_iff_gt)
    also have "\<dots> \<longleftrightarrow> time_Unix ?a \<le> tm \<and> tm \<le> time_Unix ?b"
      unfolding time_Unix_add [OF st] by linarith
    finally show ?thesis by simp
  qed
  then show ?thesis
    by (auto simp: BlockForTimeExists_def RangeByTime_slot [OF assms(1,2)] GetNodeBlocksAtTime_def filter_empty_conv)
qed

theorem BlockForTimeExists_slot_witness:
  "BlockForTimeExists (Inr [(1500000009, 2)]) demo_btc (1500000010 * Second) 2 =
    Inr (queue demo_btc (1500000009 * Second) = queue demo_btc (1500000010 * Second))"
  using BlockForTimeExists_slot [OF demo_btc_ok, of "[(1500000009, 2)]" 2]
  by (simp add: time_ok_def demo_btc_def Second_def)

text \<open>
  The counter and the instant of \<open>TestBlockTimeCounter\<close> (\<open>protocols/block_time_counter_test.go\<close>). The test expects the range to
  begin a millisecond behind the end of the previous slot, the code begins it a whole second behind it.
\<close>

definition test_btc :: BlockTimeCounter where
  "test_btc = \<lparr>btc_start = 0, btc_duration = 5 * Second, btc_numberNodes = 3\<rparr>"

lemma RangeByTime_of_test:
  "RangeByTime test_btc (13 * Second) = Inr (11 * Second, 15 * Second)" "11 * Second \<noteq> 10 * Second + Millisecond"
  by code_simp+

section \<open>The next slot of a node\<close>

lemma nextTime_value:
  assumes "btc_ok btc" "time_ok btc t" "t - btc_start btc < 2 ^ 59"
    and "btc_duration btc * btc_numberNodes btc < 2 ^ 60" "0 \<le> pos" "pos < btc_numberNodes btc"
  obtains k where "nextTime btc t pos = Inr (btc_start btc + (btc_duration btc * k + Millisecond))"
    "k mod btc_numberNodes btc = pos" "slot (btc_duration btc) (since btc t) < k"
    "0 < k" "btc_duration btc * k + Millisecond < 2 ^ 61"
proof -
  let ?d = "btc_duration btc" and ?n = "btc_numberNodes btc" and ?q = "slot (btc_duration btc) (since btc t)"
  define c where "c = ?q mod ?n"
  define e where "e = (if c \<ge> pos then pos - c + ?n else pos - c)"
  have d: "0 < ?d" and n: "0 < ?n" "?n < 2 ^ 61" using assms(1) by (simp_all add: btc_ok_def Millisecond_def)
  have c: "0 \<le> c" "c < ?n" using n by (simp_all add: c_def)
  have e: "0 < e" "e \<le> ?n" using c assms(5,6) by (auto simp: e_def)
  have x: "0 \<le> since btc t" "since btc t < 2 ^ 59" using since_range(1) [OF assms(1,2)] assms(3)
    by (simp_all add: since_def time_Unix_def Second_def)
  have q: "0 \<le> ?q" "?q * ?d \<le> since btc t" "?q \<le> since btc t" using slot_nonneg slot_mult_le slot_le x(1) d by simp_all
  have "?d * e \<le> ?d * ?n" using d e by (intro mult_left_mono) simp_all
  moreover have "?d * (?q + e) = ?q * ?d + ?d * e" by (simp add: algebra_simps)
  ultimately have big: "?d * (?q + e) + Millisecond < 2 ^ 61" using q(2) x(2) assms(4) by (simp add: Millisecond_def)
  have m: "(?q + e) mod ?n = pos"
  proof -
    have "(?q + e) mod ?n = (c + e) mod ?n" by (simp add: mod_add_left_eq c_def)
    also have "\<dots> = pos" using assms(5,6) by (auto simp: e_def)
    finally show ?thesis .
  qed
  have "dur (pos - c) = pos - c" "dur (pos - c + ?n) = pos - c + ?n"
    using c assms(5,6) n by (auto intro!: wrap64_small)
  then have fin: "pos \<le> c \<Longrightarrow> dur (dur (pos - c) + ?n) = e" "\<not> pos \<le> c \<Longrightarrow> dur (pos - c) = e"
    by (simp_all add: e_def)
  have "dur c = c" using c n by (intro wrap64_small) simp_all
  moreover have "dur (?q + e) = ?q + e" using q x(2) e n by (intro wrap64_small) simp_all
  moreover have "dur (?d * (?q + e)) = ?d * (?q + e)"
    using big d q e by (intro dur_nonneg) (simp_all add: Millisecond_def)
  moreover have "dur (?d * (?q + e) + Millisecond) = ?d * (?q + e) + Millisecond"
    using big d q e by (intro wrap64_small) (simp_all add: Millisecond_def)
  ultimately have "nextTime btc t pos = Inr (btc_start btc + (?d * (?q + e) + Millisecond))"
    using assms(6) n q
    by (simp add: nextTime_def queue_slot [OF assms(1,2)] go_mod_def trunc_mod_nonneg Let_def fin flip: c_def)
  then show ?thesis using m q e big by (intro that [of "?q + e"]) simp_all
qed

text \<open>
  With slots of whole seconds, the instant that \<open>nextTime\<close> gives for a node belongs to the node
  before it: \<open>queue\<close> cuts the instant to seconds, which drops the millisecond that \<open>nextTime\<close> adds to
  step over the boundary of the slot.
\<close>

theorem nextTime_not_my_slot:
  assumes "btc_ok btc" "time_ok btc t" "t - btc_start btc < 2 ^ 59"
    and "btc_duration btc * btc_numberNodes btc < 2 ^ 60" "0 \<le> pos" "pos < btc_numberNodes btc"
    and "btc_duration btc mod Second = 0"
  shows "\<exists>t'. nextTime btc t pos = Inr t' \<and> nodePosition btc t' = Inr ((pos - 1) mod btc_numberNodes btc)"
proof -
  let ?d = "btc_duration btc" and ?n = "btc_numberNodes btc"
  obtain k where k: "nextTime btc t pos = Inr (btc_start btc + (?d * k + Millisecond))" "k mod ?n = pos"
      "0 < k" "?d * k + Millisecond < 2 ^ 61"
    using nextTime_value [OF assms(1-6)] by blast
  let ?t = "btc_start btc + (?d * k + Millisecond)"
  have d: "0 < ?d" and st: "btc_start btc mod Second = 0" using assms(1) by (simp_all add: btc_ok_def Millisecond_def)
  have ok: "time_ok btc ?t" using k(3,4) d by (simp add: time_ok_def Millisecond_def)
  obtain m where m: "?d * k = m * Second" using assms(7) by (metis dvd_eq_mod_eq_0 dvdE mult.assoc mult.commute)
  have "(m * Second + Millisecond) div Second = m" by (simp add: Second_def Millisecond_def)
  then have "since btc ?t = ?d * k"
    using st by (simp add: since_def time_Unix_add m distrib_right minus_mod_eq_div_mult [symmetric])
  moreover have "slot ?d (?d * k) = k - 1" using d k(3) by (simp add: slot_iff mult.commute)
  moreover have "(k - 1) mod ?n = (pos - 1) mod ?n" using k(2) by (metis mod_diff_left_eq)
  ultimately show ?thesis using k(1) nodePosition_slot [OF assms(1) ok] by simp
qed

theorem nextTime_not_my_slot_witness:
  "\<exists>t'. nextTime demo_btc (1500000010 * Second) 1 = Inr t' \<and> nodePosition demo_btc t' = Inr 0"
  using nextTime_not_my_slot [OF demo_btc_ok, of 1] by (simp add: demo_btc_def Second_def)

section \<open>The loop of the calculator\<close>

lemma countBlockTime_loop_value:
  assumes "0 \<le> dur (calc_blocksGap btc + calc_blockGenerationTime btc)" "cur \<le> t"
    and "0 \<le> i" "calc_nodesCount btc \<le> 0 \<longrightarrow> i = 0" "0 < calc_nodesCount btc \<longrightarrow> i < calc_nodesCount btc"
    and "calc_nodesCount btc < 2 ^ 62"
  defines "w \<equiv> dur (calc_blocksGap btc + calc_blockGenerationTime btc) + Second"
  shows "countBlockTime_loop btc t cur i = Some
    \<lparr>bgs_start = cur + (t - cur) div w * w, bgs_duration = w - Second,
     bgs_nodePosition = (if calc_nodesCount btc > 0 then (i + (t - cur) div w) mod calc_nodesCount btc else 0)\<rparr>"
  using assms(2-5)
proof (induction "nat (t - cur)" arbitrary: cur i rule: less_induct)
  case less
  let ?n = "calc_nodesCount btc"
  have w: "0 < w" using assms(1) by (simp add: w_def Second_def)
  show ?case
  proof (cases "t < cur + w")
    case True
    then have "(t - cur) div w = 0" using less.prems(1) by (intro div_pos_pos_trivial) simp_all
    then show ?thesis using True less.prems
      by (subst countBlockTime_loop.simps) (auto simp: Let_def w_def)
  next
    case False
    define j where "j = (if ?n > 0 then (i + 1) mod ?n else 0)"
    have k: "(t - cur) div w = (t - (cur + w)) div w + 1"
      using w div_add_self2 [of w "t - (cur + w)"] by (simp add: algebra_simps)
    have "countBlockTime_loop btc t cur i = countBlockTime_loop btc t (cur + w) j"
    proof -
      have "trunc_mod (dur (i + 1)) ?n = (i + 1) mod ?n" if "?n > 0"
        using that less.prems(2,4) assms(6) wrap64_small [of "i + 1"] by (simp add: trunc_mod_nonneg)
      then show ?thesis using False w less.prems(3)
        by (subst countBlockTime_loop.simps) (auto simp: Let_def w_def j_def algebra_simps)
    qed
    also have "\<dots> = Some \<lparr>bgs_start = cur + w + (t - (cur + w)) div w * w, bgs_duration = w - Second,
        bgs_nodePosition = (if ?n > 0 then (j + (t - (cur + w)) div w) mod ?n else 0)\<rparr>"
      using False w by (intro less.hyps) (auto simp: j_def)
    finally show ?thesis by (simp add: k distrib_left distrib_right j_def mod_add_left_eq ac_simps)
  qed
qed

text \<open>
  C29: the loop of \<open>countBlockTime\<close> ends whenever the time is not before the first block and the
  slots are not negative, and computes what a division computes: the slot that holds the time,
  of the length of gap and generation time and one second, and its number modulo the nodes.
\<close>

theorem countBlockTime_closed_form:
  assumes "0 \<le> dur (calc_blocksGap btc + calc_blockGenerationTime btc)" "calc_firstBlockTime btc \<le> t"
    and "0 < calc_nodesCount btc" "calc_nodesCount btc < 2 ^ 62"
    and "w = dur (calc_blocksGap btc + calc_blockGenerationTime btc) + Second"
    and "k = (t - calc_firstBlockTime btc) div w"
  shows "countBlockTime btc t = Some (Inr
    \<lparr>bgs_start = calc_firstBlockTime btc + k * w, bgs_duration = w - Second,
     bgs_nodePosition = k mod calc_nodesCount btc\<rparr>)"
  using assms(2,3) countBlockTime_loop_value [OF assms(1,2) _ _ _ assms(4), of 0]
  by (simp add: countBlockTime_def assms(5,6))

theorem countBlockTime_closed_form_witness:
  "countBlockTime \<lparr>calc_firstBlockTime = 0, calc_blockGenerationTime = 2 * Second, calc_blocksGap = Second,
     calc_nodesCount = 3\<rparr> (13 * Second) =
   Some (Inr \<lparr>bgs_start = 12 * Second, bgs_duration = 3 * Second, bgs_nodePosition = 0\<rparr>)"
proof -
  have "dur (3 * Second) = 3 * Second" by (intro wrap64_small) (simp_all add: Second_def)
  then show ?thesis
    using countBlockTime_closed_form [of "\<lparr>calc_firstBlockTime = 0, calc_blockGenerationTime = 2 * Second,
        calc_blocksGap = Second, calc_nodesCount = 3\<rparr>" "13 * Second" "4 * Second" 3]
    by (simp add: Second_def)
qed

text \<open>
  C27: every node gets its turn. With slots of at least a second, after every instant there comes an instant,
  within the next round of slots and one slot more, at which a given node may generate a block.
\<close>

theorem TimeToGenerate_eventually:
  assumes "btc_ok btc" "time_ok btc t" "Second \<le> btc_duration btc" "0 \<le> pos" "pos < btc_numberNodes btc"
    and "t - btc_start btc + (btc_numberNodes btc + 1) * btc_duration btc < 2 ^ 61"
  shows "\<exists>t'. t < t' \<and> t' \<le> t + (btc_numberNodes btc + 1) * btc_duration btc \<and> TimeToGenerate btc t' pos = Inr True"
proof -
  let ?d = "btc_duration btc" and ?n = "btc_numberNodes btc" and ?x = "since btc t"
  define q where "q = slot ?d ?x"
  define k where "k = q + 1 + (pos - q - 1) mod ?n"
  define s where "s = (k + 1) * ?d div Second * Second"
  have pos: "0 < ?d" "0 < ?n" "0 < Second" and x: "0 \<le> ?x"
    using assms(1,3) since_range [OF assms(1,2)] by (simp_all add: btc_ok_def Second_def)
  have k: "q < k" "k \<le> q + ?n" "k mod ?n = pos"
  proof -
    have "0 \<le> (pos - q - 1) mod ?n" "(pos - q - 1) mod ?n < ?n" using pos by simp_all
    then show "q < k" "k \<le> q + ?n" by (simp_all add: k_def)
    have "k mod ?n = (q + 1 + (pos - q - 1)) mod ?n" unfolding k_def by (rule mod_add_right_eq)
    then show "k mod ?n = pos" using assms(4,5) by simp
  qed
  have q: "0 \<le> q" "q * ?d \<le> ?x" "?x \<le> (q + 1) * ?d"
    using slot_nonneg [OF x pos(1)] slot_mult_le [OF x pos(1)] slot_iff [of ?x ?d q] x pos(1)
    by (auto simp: q_def slot_def)
  have s: "s \<le> (k + 1) * ?d" "(k + 1) * ?d < s + Second"
    using pos_mod_bound [OF pos(3), of "(k + 1) * ?d"] pos_mod_sign [OF pos(3), of "(k + 1) * ?d"]
    by (simp_all add: s_def minus_mod_eq_div_mult [symmetric])
  then have "k * ?d < s" using assms(3) by (simp add: algebra_simps)
  moreover have "(q + 1) * ?d \<le> k * ?d" using k(1) pos(1) by (intro mult_right_mono) simp_all
  ultimately have xs: "?x < s" "0 < s" using q x by linarith+
  then have slot: "slot ?d s = k" using slot_iff [of s ?d k] s(1) pos(1) \<open>k * ?d < s\<close> by simp
  have "btc_start btc = btc_start btc div Second * Second" using assms(1) by (simp add: btc_ok_def dvd_eq_mod_eq_0 [symmetric])
  then obtain c where c: "btc_start btc = c * Second" by metis
  have "btc_start btc + s = (c + (k + 1) * ?d div Second) * Second" unfolding c s_def by (rule distrib_right [symmetric])
  then have since: "since btc (btc_start btc + s) = s"
    using pos(3) by (simp add: since_def time_Unix_def del: distrib_right_numeral)
  have t: "t < btc_start btc + ?x + Second" "btc_start btc + ?x \<le> t"
    using pos_mod_bound [OF pos(3), of t] pos_mod_sign [OF pos(3), of t]
    by (simp_all add: since_def time_Unix_def minus_mod_eq_div_mult [symmetric])
  have "?x = (time_Unix t - c) * Second" using c by (simp add: since_def algebra_simps)
  moreover have "(time_Unix t - c) * Second < s \<Longrightarrow> (time_Unix t - c + 1) * Second \<le> s"
    unfolding s_def mult_less_cancel_right_pos [OF pos(3)] mult_le_cancel_right_pos [OF pos(3)] by simp
  ultimately have "?x + Second \<le> s" using xs(1) by (simp add: distrib_right)
  moreover have "(k + 1) * ?d \<le> (q + (?n + 1)) * ?d" using k(2) pos(1) by (intro mult_right_mono) simp_all
  then have "s \<le> ?x + (?n + 1) * ?d" using s(1) q(2) by (simp add: algebra_simps)
  ultimately have r: "t < btc_start btc + s" "btc_start btc + s \<le> t + (?n + 1) * ?d" using t by linarith+
  then have "time_ok btc (btc_start btc + s)" using assms(6) xs(2) by (simp add: time_ok_def)
  then have "TimeToGenerate btc (btc_start btc + s) pos = Inr True"
    using assms(5) slot k(3) by (simp add: TimeToGenerate_def nodePosition_slot [OF assms(1)] since)
  then show ?thesis using r by blast
qed

theorem TimeToGenerate_eventually_witness:
  "\<exists>t'. 1500000010 * Second < t' \<and> t' \<le> 1500000010 * Second + 16 * Second \<and> TimeToGenerate demo_btc t' 1 = Inr True"
  using TimeToGenerate_eventually [OF demo_btc_ok, of 1] by (simp add: demo_btc_def Second_def)

end
