(* ===== verification/Block_Check.thy ===== *)
theory Block_Check
  imports Block_Codec Block_Time
begin

text \<open>
  When a node accepts a block it received: \<open>Block.Check\<close> and \<open>CheckHash\<close> of \<open>packages/block/block.go\<close>,
  \<open>GetBlockDataFromBlockChain\<close> of \<open>block/db.go\<close>, \<open>Transaction.Check\<close> and \<open>CheckLogTx\<close> of
  \<open>packages/transaction\<close>, \<open>CheckSign\<close> of \<open>packages/utils/utils.go\<close>. The database, the clock, the list
  of nodes and the signature algorithm are parameters. \<open>utils.ErrInfo\<close> appends the place of the
  call to the text of an error; that suffix is left out.
\<close>

section \<open>Signatures\<close>

text \<open>
  A panic in \<open>CheckSign\<close> is recovered and leaves the zero results \<open>false, nil\<close>; \<open>log.Fatal\<close> ends the
  process. \<open>verify\<close> is \<open>crypto.CheckSign\<close>.
\<close>

definition recover_false :: "bool res \<Rightarrow> bool res" where
  "recover_false r = (case r of Inl (Panic _) \<Rightarrow> Inr False | _ \<Rightarrow> r)"

definition CheckSign :: "(bytes \<Rightarrow> bytes \<Rightarrow> bytes \<Rightarrow> bool res) \<Rightarrow> bytes list \<Rightarrow> bytes \<Rightarrow> bytes \<Rightarrow> bool \<Rightarrow> bool res" where
  "CheckSign verify publicKeys forSign signs nodeKeyOrLogin =
     recover_false
       (if forSign = [] then Inl (Error ''len(forSign) == 0'')
        else if publicKeys = [] then Inl (Error ''len(publicKeys) == 0'')
        else if signs = [] then Inl (Error ''len(signs) == 0'')
        else if nodeKeyOrLogin then verify (publicKeys ! 0) forSign signs
        else
          case DecodeLength signs of
            Inl (Error e) \<Rightarrow> Inl (Exit ''decoding signs length'')
          | Inl e \<Rightarrow> Inl e
          | Inr (len, rest) \<Rightarrow>
              bind_res (if sint len > 0 then bind_res (BytesShift rest len) (\<lambda>(s, _). Inr [s]) else Inr [])
                (\<lambda>signsSlice.
                   if length publicKeys \<noteq> length signsSlice then
                     Inl (Error (''sign error '' @ show_nat (length publicKeys) @ ''!='' @ show_nat (length signsSlice)))
                   else verify (publicKeys ! 0) forSign (signsSlice ! 0)))"

section \<open>Transactions\<close>

text \<open>
  The three tables a transaction hash is looked up in: the log of played transactions, the
  verified transactions (the hash of the row, empty when there is none), the queue.
\<close>

record tx_db =
  db_log :: "bytes \<Rightarrow> bool res"
  db_verified :: "bytes \<Rightarrow> bytes res"
  db_queue :: "bytes \<Rightarrow> bool \<times> go_exc option"

definition CheckLogTx :: "tx_db \<Rightarrow> bytes \<Rightarrow> bool \<Rightarrow> bool \<Rightarrow> unit res" where
  "CheckLogTx db txHash transactions txQueue =
     bind_res (db_log db txHash) (\<lambda>found.
     bind_res (guard_res (\<not> found) (Error ''Duplicated transaction'')) (\<lambda>_.
     bind_res (if transactions then
                 bind_res (db_verified db txHash) (\<lambda>h. guard_res (h = []) (Error ''Duplicated transaction''))
               else Inr ()) (\<lambda>_.
       if txQueue then
         case db_queue db txHash of
           (True, _) \<Rightarrow> Inl (Error ''Duplicated transaction'')
         | (False, Some e) \<Rightarrow> Inl e
         | (False, None) \<Rightarrow> Inr ()
       else Inr ())))"

definition MAX_TX_FORW :: int64 where "MAX_TX_FORW = 600"
definition MAX_TX_BACK :: int64 where "MAX_TX_BACK = 86400"

definition Transaction_Check :: "tx_db \<Rightarrow> ('c, 'p) Transaction \<Rightarrow> int64 \<Rightarrow> bool \<Rightarrow> unit res" where
  "Transaction_Check db t checkTime checkForDupTr =
     bind_res (CheckLogTx db (TxHash t) checkForDupTr False) (\<lambda>_.
       if sint (TxTime t) > sint checkTime then
         if sint (TxTime t - MAX_TX_FORW) > sint checkTime then Inl (Error ''transaction time is too big'')
         else Inl (Error ''Early transaction time'')
       else if sint (TxTime t) < sint (checkTime - MAX_TX_BACK) then Inl (Error ''incorrect transaction time'')
       else if TxContract t = None
              \<and> (case TxBlockData t of None \<Rightarrow> False | Some bd \<Rightarrow> bd_BlockID bd \<noteq> 1) \<and> TxKeyID t = 0
         then Inl (Error ''empty user id'')
       else Inr ())"

section \<open>Blocks\<close>

text \<open>
  What \<open>Block.Check\<close> reads: the clock (seconds), the rows of the blockchain table (data and hash by
  block ID; \<open>model.Block.Get\<close> leaves both empty when there is no row), the table as the times and node
  positions of the blocks, the counter of generation slots, the transaction tables, the limit per
  user, the public keys of the nodes by position, and the signature check.
\<close>

record check_env =
  ce_now :: int64
  ce_block :: "int64 \<Rightarrow> (bytes \<times> bytes) res"
  ce_blocks :: "(int \<times> int) list res"
  ce_btc :: BlockTimeCounter
  ce_db :: tx_db
  ce_MaxBlockUserTx :: int
  ce_nodes :: "bytes list"
  ce_verify :: "bytes \<Rightarrow> bytes \<Rightarrow> bytes \<Rightarrow> bool res"

definition GetBlockDataFromBlockChain :: "check_env \<Rightarrow> int64 \<Rightarrow> BlockData res" where
  "GetBlockDataFromBlockChain env blockID =
     bind_res (ce_block env blockID) (\<lambda>(data, hash).
     bind_res (ParseBlockHeader 0 data False) (\<lambda>(header, _). Inr (header\<lparr>bd_Hash := hash\<rparr>)))"

definition readPreviousBlockFromBlockchainTable :: "check_env \<Rightarrow> ('c, 'p) Block \<Rightarrow> ('c, 'p) Block res" where
  "readPreviousBlockFromBlockchainTable env b =
     (if bd_BlockID (b_Header b) = 1 then Inr (b\<lparr>b_PrevHeader := Some empty_BlockData\<rparr>)
      else
        case GetBlockDataFromBlockChain env (bd_BlockID (b_Header b) - 1) of
          Inl (Error _) \<Rightarrow> Inl (Error (''can't get block '' @ Int64ToStr (bd_BlockID (b_Header b) - 1)))
        | Inl e \<Rightarrow> Inl e
        | Inr prev \<Rightarrow> Inr (b\<lparr>b_PrevHeader := Some prev\<rparr>))"

definition GetNodePublicKeyByPosition :: "check_env \<Rightarrow> int64 \<Rightarrow> bytes res" where
  "GetNodePublicKeyByPosition env position =
     (if int (length (ce_nodes env)) \<le> sint position then Inl (Error ''incorrect position'')
      else if sint position < 0 then Inl (Panic ''index out of range'')
      else Inr (ce_nodes env ! nat (sint position)))"

definition CheckHash :: "check_env \<Rightarrow> ('c, 'p) Block \<Rightarrow> bool res" where
  "CheckHash env b =
     (if bd_BlockID (b_Header b) = 1 then Inr True
      else
        case b_PrevHeader b of
          None \<Rightarrow> Inr True
        | Some prev \<Rightarrow>
            bind_res (GetNodePublicKeyByPosition env (bd_NodePosition (b_Header b))) (\<lambda>nodePublicKey.
              if nodePublicKey = [] then Inl (Error ''empty nodePublicKey'')
              else
                bind_res (ForSign b) (\<lambda>text.
                case CheckSign (ce_verify env) [nodePublicKey] (bytes_of_string text) (bd_Sign (b_Header b)) True of
                  Inl (Error err) \<Rightarrow>
                    Inl (Error (''err: '' @ err @ '' / block.PrevHeader.BlockID: '' @ Int64ToStr (bd_BlockID prev)
                           @ '' /  block.PrevHeader.Hash: '' @ hex_encode (bd_Hash prev) @ '' / ''))
                | r \<Rightarrow> r)))"

text \<open>
  The loop over the transactions: \<open>counter\<close> are the transactions per key, \<open>hashes\<close> those seen, as hex.
\<close>

fun check_transactions ::
  "check_env \<Rightarrow> int64 \<Rightarrow> ('c, 'p) Transaction list \<Rightarrow> (int64 \<Rightarrow> int) \<Rightarrow> bytes set \<Rightarrow> unit res" where
  "check_transactions env tm [] counter hashes = Inr ()"
| "check_transactions env tm (t # ts) counter hashes =
     (let hexHash = BinToHex (TxHash t) in
      if hexHash \<in> hashes then Inl (Error (''duplicate transaction '' @ string_of_bytes hexHash))
      else
        let counter = counter(TxKeyID t := wrap64 (counter (TxKeyID t) + 1)) in
        if counter (TxKeyID t) > ce_MaxBlockUserTx env then Inl (Error ''max_block_user_transactions'')
        else bind_res (Transaction_Check (ce_db env) t tm False) (\<lambda>_.
               check_transactions env tm ts counter (insert hexHash hashes)))"

text \<open>\<open>Check\<close> returns the block, in which it may have set the header of the previous block.\<close>

definition check_slot :: "check_env \<Rightarrow> ('c, 'p) Block \<Rightarrow> BlockData \<Rightarrow> unit res" where
  "check_slot env b prev =
     (if bd_BlockID (b_Header b) \<noteq> bd_BlockID prev + 1 then
        Inl (Error (''incorrect block_id '' @ Int64ToStr (bd_BlockID (b_Header b)) @ '' != ''
               @ Int64ToStr (bd_BlockID prev) @ '' +1''))
      else if sint (bd_BlockID (b_Header b)) > 1 then
        bind_res (BlockForTimeExists (ce_blocks env) (ce_btc env) (sint (bd_Time (b_Header b)) * Second)
                    (sint (bd_NodePosition (b_Header b)))) (\<lambda>exists.
          guard_res (\<not> exists) (Error (''incorrect block time '' @ Int64ToStr (bd_Time prev))))
      else Inr ())"

definition ensure_prev :: "check_env \<Rightarrow> ('c, 'p) Block \<Rightarrow> ('c, 'p) Block res" where
  "ensure_prev env b =
     (if (case b_PrevHeader b of None \<Rightarrow> True | Some prev \<Rightarrow> bd_BlockID prev \<noteq> bd_BlockID (b_Header b) - 1)
      then readPreviousBlockFromBlockchainTable env b else Inr b)"

definition Block_Check :: "check_env \<Rightarrow> ('c, 'p) Block \<Rightarrow> ('c, 'p) Block res" where
  "Block_Check env b =
     (if sint (bd_Time (b_Header b)) > sint (ce_now env) then
        Inl (Error ''incorrect block time - block.Header.Time > time.Now().Unix()'')
      else
        bind_res (ensure_prev env b) (\<lambda>b.
          if bd_BlockID (b_Header b) = 1 then Inr b
          else
            bind_res (case b_PrevHeader b of None \<Rightarrow> Inr () | Some prev \<Rightarrow> check_slot env b prev) (\<lambda>_.
            bind_res (check_transactions env (bd_Time (b_Header b)) (b_Transactions b) (\<lambda>_. 0) {}) (\<lambda>_.
            bind_res (CheckHash env b) (\<lambda>result.
              if \<not> result then
                (case b_PrevHeader b of
                   None \<Rightarrow> Inl (Panic ''nil pointer dereference'')
                 | Some prev \<Rightarrow> Inl (Error (''incorrect signature / p.PrevBlock.BlockId: '' @ Int64ToStr (bd_BlockID prev))))
              else Inr b)))))"

section \<open>What an accepted block satisfies\<close>

definition tx_accepted :: "check_env \<Rightarrow> int64 \<Rightarrow> ('c, 'p) Transaction \<Rightarrow> bool" where
  "tx_accepted env tm t \<longleftrightarrow> db_log (ce_db env) (TxHash t) = Inr False
     \<and> sint (tm - MAX_TX_BACK) \<le> sint (TxTime t) \<and> sint (TxTime t) \<le> sint tm"

definition key_count :: "('c, 'p) Transaction list \<Rightarrow> int64 \<Rightarrow> int" where
  "key_count ts k = int (length (filter (\<lambda>t. TxKeyID t = k) ts))"

lemma Transaction_Check_accepted:
  "Transaction_Check (ce_db env) t tm False = Inr u \<Longrightarrow> tx_accepted env tm t"
  by (auto simp: Transaction_Check_def CheckLogTx_def tx_accepted_def res_simps guard_res_def split: if_splits)

lemma check_transactions_accepted:
  assumes "check_transactions env tm ts counter hashes = Inr u"
    and "\<And>k. 0 \<le> counter k" "\<And>k. counter k \<le> max 0 (ce_MaxBlockUserTx env)" "\<And>k. counter k + int (length ts) < 2 ^ 63"
  shows "list_all (tx_accepted env tm) ts \<and> distinct (map TxHash ts) \<and> BinToHex ` TxHash ` set ts \<inter> hashes = {}
    \<and> (\<forall>k. counter k + key_count ts k \<le> max 0 (ce_MaxBlockUserTx env))"
  using assms
proof (induction ts arbitrary: counter hashes)
  case Nil
  then show ?case by (simp add: key_count_def)
next
  case (Cons t ts)
  let ?k = "TxKeyID t" and ?h = "BinToHex (TxHash t)"
  let ?c = "counter(?k := counter ?k + 1)"
  have w: "wrap64 (counter ?k + 1) = counter ?k + 1"
    using Cons.prems(2) [of ?k] Cons.prems(4) [of ?k] by (intro wrap64_nonneg) simp_all
  have h: "?h \<notin> hashes" and le: "counter ?k + 1 \<le> ce_MaxBlockUserTx env"
    and t: "tx_accepted env tm t" and rest: "check_transactions env tm ts ?c (insert ?h hashes) = Inr u"
    using Cons.prems(1) by (auto simp: Let_def w res_simps split: if_splits dest: Transaction_Check_accepted)
  have "list_all (tx_accepted env tm) ts \<and> distinct (map TxHash ts) \<and> BinToHex ` TxHash ` set ts \<inter> insert ?h hashes = {}
      \<and> (\<forall>k. ?c k + key_count ts k \<le> max 0 (ce_MaxBlockUserTx env))"
  proof (rule Cons.IH [OF rest])
    show "0 \<le> ?c k" "?c k \<le> max 0 (ce_MaxBlockUserTx env)" "?c k + int (length ts) < 2 ^ 63" for k
      using Cons.prems(2-4) [of k] le by auto
  qed
  moreover have "counter k + key_count (t # ts) k = ?c k + key_count ts k" for k
    by (simp add: key_count_def)
  ultimately show ?case using h t by auto
qed

lemma check_transactions_block:
  assumes "check_transactions env tm ts (\<lambda>_. 0) {} = Inr u" "length ts < 2 ^ 63"
  shows "list_all (tx_accepted env tm) ts \<and> distinct (map TxHash ts)
    \<and> (\<forall>k. key_count ts k \<le> max 0 (ce_MaxBlockUserTx env))"
  using check_transactions_accepted [OF assms(1)] assms(2) by simp

lemma readPrevious_sets:
  "readPreviousBlockFromBlockchainTable env b = Inr b1 \<Longrightarrow> \<exists>prev. b1 = b\<lparr>b_PrevHeader := Some prev\<rparr>"
  by (auto simp: readPreviousBlockFromBlockchainTable_def split: if_splits sum.splits go_exc.splits)

lemma ensure_prev_sets: "ensure_prev env b = Inr b1 \<Longrightarrow> \<exists>prev. b1 = b\<lparr>b_PrevHeader := Some prev\<rparr>"
proof (cases "b_PrevHeader b")
  case (Some prev)
  then have "b = b\<lparr>b_PrevHeader := Some prev\<rparr>" by simp
  then show "ensure_prev env b = Inr b1 \<Longrightarrow> ?thesis"
    by (auto simp: ensure_prev_def readPrevious_sets split: if_splits)
qed (auto simp: ensure_prev_def readPrevious_sets)

lemma CheckSign_node: "CheckSign verify [key] msg sg True = Inr True \<Longrightarrow> verify key msg sg = Inr True"
  by (auto simp: CheckSign_def recover_false_def split: if_splits sum.splits go_exc.splits)

lemma rewrap_Inr:
  "(case r of Inl (Error err) \<Rightarrow> Inl (f err) | Inl (Panic m) \<Rightarrow> Inl (Panic m) | Inl (Exit m) \<Rightarrow> Inl (Exit m) | Inr y \<Rightarrow> Inr y)
     = Inr x \<longleftrightarrow> r = Inr x"
  by (auto split: sum.splits go_exc.splits)

lemma CheckHash_verified:
  assumes "CheckHash env b = Inr True" "bd_BlockID (b_Header b) \<noteq> 1" "b_PrevHeader b = Some prev"
  obtains key msg where "GetNodePublicKeyByPosition env (bd_NodePosition (b_Header b)) = Inr key"
    "ForSign b = Inr msg" "ce_verify env key (bytes_of_string msg) (bd_Sign (b_Header b)) = Inr True"
  using assms
  by (auto simp: CheckHash_def res_simps rewrap_Inr dest!: CheckSign_node split: if_splits)

lemma Block_Check_steps:
  assumes "Block_Check env b = Inr b'" "bd_BlockID (b_Header b) \<noteq> 1"
  obtains prev where "sint (bd_Time (b_Header b)) \<le> sint (ce_now env)" "b' = b\<lparr>b_PrevHeader := Some prev\<rparr>"
    "check_slot env b' prev = Inr ()"
    "check_transactions env (bd_Time (b_Header b)) (b_Transactions b) (\<lambda>_. 0) {} = Inr ()"
    "CheckHash env b' = Inr True"
proof -
  have now: "sint (bd_Time (b_Header b)) \<le> sint (ce_now env)" using assms(1) by (auto simp: Block_Check_def split: if_splits)
  obtain b1 where b1: "ensure_prev env b = Inr b1"
    using assms(1) now by (cases "ensure_prev env b") (auto simp: Block_Check_def)
  obtain prev where p: "b1 = b\<lparr>b_PrevHeader := Some prev\<rparr>" using ensure_prev_sets [OF b1] ..
  show ?thesis
    using assms now b1 p
    by (intro that [of prev]) (auto simp: Block_Check_def res_simps split: if_splits)
qed


text \<open>
  C10: a block other than the first that \<open>Check\<close> accepts is not from the future, follows the block the
  node holds, comes at a time for which the node of the header has no block yet, and carries the
  signature of the node at its position over \<open>ForSign\<close>. Its transactions have different hashes that were
  never played before, their times lie within the day before the block, and no key has more of
  them than the limit.
\<close>

theorem accepted_block:
  assumes "Block_Check env b = Inr b'" "bd_BlockID (b_Header b) \<noteq> 1" "length (b_Transactions b) < 2 ^ 63"
  shows "sint (bd_Time (b_Header b)) \<le> sint (ce_now env)
    \<and> list_all (tx_accepted env (bd_Time (b_Header b))) (b_Transactions b)
    \<and> distinct (map TxHash (b_Transactions b))
    \<and> (\<forall>k. key_count (b_Transactions b) k \<le> max 0 (ce_MaxBlockUserTx env))
    \<and> (\<exists>prev key msg. b' = b\<lparr>b_PrevHeader := Some prev\<rparr> \<and> bd_BlockID (b_Header b) = bd_BlockID prev + 1
         \<and> (sint (bd_BlockID (b_Header b)) > 1 \<longrightarrow>
              BlockForTimeExists (ce_blocks env) (ce_btc env) (sint (bd_Time (b_Header b)) * Second)
                (sint (bd_NodePosition (b_Header b))) = Inr False)
         \<and> GetNodePublicKeyByPosition env (bd_NodePosition (b_Header b)) = Inr key \<and> ForSign b' = Inr msg
         \<and> ce_verify env key (bytes_of_string msg) (bd_Sign (b_Header b)) = Inr True)"
proof -
  obtain prev where s: "sint (bd_Time (b_Header b)) \<le> sint (ce_now env)" "b' = b\<lparr>b_PrevHeader := Some prev\<rparr>"
    "check_slot env b' prev = Inr ()"
    "check_transactions env (bd_Time (b_Header b)) (b_Transactions b) (\<lambda>_. 0) {} = Inr ()"
    "CheckHash env b' = Inr True"
    using Block_Check_steps [OF assms(1,2)] .
  obtain key msg where "GetNodePublicKeyByPosition env (bd_NodePosition (b_Header b')) = Inr key"
    "ForSign b' = Inr msg" "ce_verify env key (bytes_of_string msg) (bd_Sign (b_Header b')) = Inr True"
    using CheckHash_verified [OF s(5), of prev] assms(2) s(2) by auto
  moreover have "bd_BlockID (b_Header b) = bd_BlockID prev + 1" "sint (bd_BlockID (b_Header b)) > 1 \<longrightarrow>
              BlockForTimeExists (ce_blocks env) (ce_btc env) (sint (bd_Time (b_Header b)) * Second)
                (sint (bd_NodePosition (b_Header b))) = Inr False"
    using s(2,3) by (auto simp: check_slot_def res_simps guard_res_def split: if_splits)
  ultimately show ?thesis using s(1,2) check_transactions_block [OF s(4) assms(3)] by auto
qed

section \<open>A block of a node that is not on turn\<close>

definition demo_check_env :: check_env where
  "demo_check_env = \<lparr>ce_now = 1500000020, ce_block = (\<lambda>_. Inl (Error ''no row'')), ce_blocks = Inr [],
     ce_btc = demo_btc, ce_db = \<lparr>db_log = (\<lambda>_. Inr False), db_verified = (\<lambda>_. Inr []), db_queue = (\<lambda>_. (False, None))\<rparr>,
     ce_MaxBlockUserTx = 10, ce_nodes = [[1], [2], [3]], ce_verify = (\<lambda>_ _ _. Inr True)\<rparr>"

definition demo_received :: "(nat, nat) Block" where
  "demo_received = \<lparr>b_Header = empty_BlockData\<lparr>bd_BlockID := 2, bd_Time := 1500000010, bd_Sign := [7]\<rparr>,
     b_PrevHeader = Some (empty_BlockData\<lparr>bd_BlockID := 1\<rparr>), b_MrklRoot = [], b_BinData = [], b_Transactions = [],
     b_GenBlock = False\<rparr>"

lemma demo_slot_free: "BlockForTimeExists (Inr []) demo_btc (1500000010 * Second) p = Inr False"
  by (simp add: BlockForTimeExists_def RangeByTime_slot [OF demo_btc_ok] GetNodeBlocksAtTime_def)

lemma demo_received_accepted: "Block_Check demo_check_env demo_received = Inr demo_received"
  by (simp add: Block_Check_def ensure_prev_def check_slot_def CheckHash_def GetNodePublicKeyByPosition_def
      CheckSign_def recover_false_def ForSign_def for_sign_text_def guard_res_def demo_received_def demo_check_env_def
      empty_BlockData_def demo_slot_free bytes_of_string_def)

theorem accepted_block_witness:
  "sint (bd_Time (b_Header demo_received)) \<le> sint (ce_now demo_check_env)
    \<and> (\<exists>prev. demo_received = demo_received\<lparr>b_PrevHeader := Some prev\<rparr>
         \<and> bd_BlockID (b_Header demo_received) = bd_BlockID prev + 1)"
proof -
  have "bd_BlockID (b_Header demo_received) \<noteq> 1" "length (b_Transactions demo_received) < 2 ^ 63"
    by (simp_all add: demo_received_def empty_BlockData_def)
  from accepted_block [OF demo_received_accepted this] show ?thesis by blast
qed

text \<open>
  \<open>Check\<close> does not ask whose turn it is. The comment of \<open>BlockForTimeExists\<close> announces that it
  \<open>checks conformity between time and nodePosition\<close>, but it only looks for an earlier block of the
  same node in the slot: there are blocks that \<open>Check\<close> accepts at a time at which
  \<open>TimeToGenerate\<close> says that the node of the header must not generate.
\<close>

theorem Check_ignores_turn:
  "\<exists>(env :: check_env) (b :: (nat, nat) Block). Block_Check env b = Inr b
     \<and> TimeToGenerate (ce_btc env) (sint (bd_Time (b_Header b)) * Second) (sint (bd_NodePosition (b_Header b))) = Inr False"
proof (intro exI conjI)
  show "Block_Check demo_check_env demo_received = Inr demo_received" by (rule demo_received_accepted)
  have "slot (4 * Second) (10 * Second) mod 3 = 2" by (simp add: slot_def Second_def)
  moreover have "since demo_btc (1500000010 * Second) = 10 * Second"
    by (simp add: since_def time_Unix_def Second_def demo_btc_def)
  ultimately show "TimeToGenerate (ce_btc demo_check_env) (sint (bd_Time (b_Header demo_received)) * Second)
      (sint (bd_NodePosition (b_Header demo_received))) = Inr False"
    using nodePosition_slot [OF demo_btc_ok]
    by (simp add: TimeToGenerate_def demo_check_env_def demo_received_def empty_BlockData_def demo_btc_def)
qed

section \<open>Blocks that nodes generate\<close>

text \<open>
  C30: a block that a node generated and signed passes the signature check of every node that reads
  it, provided the reader knows the same hash of the previous block and has, at the node's
  position, a public key under which the signatures of that node verify.
\<close>

theorem generated_block_verifies:
  assumes "MarshallBlock (te_sha256 env) sign header trs prevHash key = Inr data"
    and "key \<noteq> []" "header_fits header" "sint (bd_BlockID header) > 1"
    and "int (length data) \<le> sint maxSize + 2"
    and "\<forall>tr \<in> set trs. tr \<noteq> [] \<and> tx_parses env f tr \<and> cache_agrees (te_sha256 env) tc tr"
    and "inj_on (raw_hash (te_sha256 env)) (set trs)"
    and "GetNodePublicKeyByPosition cenv (bd_NodePosition header) = Inr pub" "pub \<noteq> []"
    and "\<forall>msg sg. sign key msg = Inr sg \<longrightarrow> sg \<noteq> [] \<and> ce_verify cenv pub (bytes_of_string msg) sg = Inr True"
    and "bd_Hash prev = prevHash"
  shows "\<exists>tc' b. UnmarshallBlock env maxSize data False f tc = (tc', [], Inr b)
    \<and> CheckHash cenv (b\<lparr>b_PrevHeader := Some prev\<rparr>) = Inr True"
proof -
  obtain tc' b where b: "UnmarshallBlock env maxSize data False f tc = (tc', [], Inr b)"
    and h: "b_Header b = wire_header header (bd_Sign (b_Header b))"
    and sg: "\<forall>prev msg. bd_Hash prev = prevHash \<and> ForSign (b\<lparr>b_PrevHeader := Some prev\<rparr>) = Inr msg
          \<longrightarrow> sign key msg = Inr (bd_Sign (b_Header b))"
    using block_reads_back [OF assms(1-7)] by (elim exE conjE)
  let ?b = "b\<lparr>b_PrevHeader := Some prev\<rparr>"
  obtain msg where msg: "ForSign ?b = Inr msg" "msg \<noteq> []" by (simp add: ForSign_def for_sign_text_def)
  with sg assms(11) have "sign key msg = Inr (bd_Sign (b_Header b))" by blast
  with assms(10) have "bd_Sign (b_Header b) \<noteq> []"
    "ce_verify cenv pub (bytes_of_string msg) (bd_Sign (b_Header b)) = Inr True" by blast+
  moreover have "bytes_of_string msg \<noteq> []" using msg(2) by (simp add: bytes_of_string_def)
  ultimately have "CheckSign (ce_verify cenv) [pub] (bytes_of_string msg) (bd_Sign (b_Header b)) True = Inr True"
    by (simp add: CheckSign_def recover_false_def)
  moreover have "bd_NodePosition (b_Header b) = bd_NodePosition header"
    by (subst h) (simp add: wire_header_def)
  ultimately have "CheckHash cenv ?b = Inr True"
    using assms(8,9) msg(1) by (simp add: CheckHash_def)
  with b show ?thesis by (intro exI conjI)
qed

theorem generated_block_verifies_witness:
  "\<exists>data tc' b. MarshallBlock (te_sha256 demo_env) (\<lambda>_ _. Inr [1, 2]) demo_header [[3, 7]] [9] ''k'' = Inr data
     \<and> UnmarshallBlock demo_env 1000 data False True Map.empty = (tc', [], Inr b)
     \<and> CheckHash demo_check_env (b\<lparr>b_PrevHeader := Some (empty_BlockData\<lparr>bd_Hash := [9]\<rparr>)\<rparr>) = Inr True"
proof -
  obtain data where d: "MarshallBlock (te_sha256 demo_env) (\<lambda>_ _. Inr [1, 2]) demo_header [[3, 7]] [9] ''k'' = Inr data"
    "length data \<le> 64" using demo_block by blast
  have "\<exists>tc' b. UnmarshallBlock demo_env 1000 data False True Map.empty = (tc', [], Inr b)
     \<and> CheckHash demo_check_env (b\<lparr>b_PrevHeader := Some (empty_BlockData\<lparr>bd_Hash := [9]\<rparr>)\<rparr>) = Inr True"
    by (rule generated_block_verifies [OF d(1) _ demo_header_fits, where pub = "[1]"])
      (use d(2) demo_tx_parses in \<open>auto simp: cache_agrees_def demo_header_def empty_BlockData_def
         GetNodePublicKeyByPosition_def demo_check_env_def split: option.splits\<close>)
  with d(1) show ?thesis by (intro exI [of _ data]) simp
qed

end
