(* ===== verification/Block_Limits.thy ===== *)
theory Block_Limits
  imports Block_Codec
begin

text \<open>
  \<open>packages/block/limits.go\<close>: the limiters a block is checked against, transaction by transaction.
  Each limiter keeps counters of its own; \<open>CheckLimit\<close> asks them in order and stops at the first
  that refuses, so the counters of those before it have already moved. The locale \<open>limiter\<close> is the
  contract that makes this sound: the counters never fall behind what was accepted.
\<close>

unbundle bit_operations_syntax

datatype limit_err =
    ErrLimitSkip \<comment> \<open>the transaction should be skipped\<close>
  | ErrLimitStop \<comment> \<open>the generation of the block should be stopped\<close>
  | VMError string string \<comment> \<open>\<open>limitError\<close>: the type of the VM error and its text\<close>
  | GoPanic string

definition letPreprocess :: int where "letPreprocess = 1"
definition letGenBlock :: int where "letGenBlock = 2"
definition letParsing :: int where "letParsing = 4"

definition limitError :: "string \<Rightarrow> limit_err" where
  "limitError msg = VMError ''panic'' msg"

text \<open>
  The system parameters the limiters read, the clock in nanoseconds, and the ecosystem parameter
  \<open>max_tx_block_per_user\<close>: absent, a text, or an error of the database.
\<close>

record limit_env =
  le_MaxTxCount :: int
  le_MaxBlockUserTx :: int
  le_MaxBlockSize :: int
  le_MaxTxSize :: int
  le_MaxBlockFuel :: int
  le_MaxTxFuel :: int
  le_MaxBlockGenerationTime :: int
  le_StateParameter :: "int64 \<Rightarrow> string option res"

text \<open>
  The limiters with their fields: \<open>txMaxSize\<close> (\<open>Size\<close>, \<open>LimitBlock\<close>, \<open>LimitTx\<close>), \<open>txUserLimit\<close> (\<open>TxUsers\<close>,
  \<open>Limit\<close>), \<open>txMaxLimit\<close> (\<open>Count\<close>, \<open>Limit\<close>), \<open>txUserEcosysLimit\<close> (\<open>TxEcosys\<close>, whose values are \<open>TxUsers\<close> and
  \<open>Limit\<close>), \<open>timeBlockLimit\<close> (\<open>Start\<close>, \<open>Limit\<close>), \<open>txMaxFuel\<close> (\<open>Fuel\<close>, \<open>LimitBlock\<close>, \<open>LimitTx\<close>).
\<close>

datatype limiter =
    TxMaxSize int int int
  | TxUserLimit "int64 \<rightharpoonup> int" int
  | TxMaxLimit int int
  | TxUserEcosysLimit "int64 \<rightharpoonup> (int64 \<rightharpoonup> int) \<times> int"
  | TimeBlockLimit int int
  | TxMaxFuel int int int

definition txMaxSize_check :: "int \<Rightarrow> int \<Rightarrow> int \<Rightarrow> ('c, 'p) Transaction \<Rightarrow> int \<Rightarrow> limiter \<times> (limit_err + unit)" where
  "txMaxSize_check Size LimitBlock LimitTx t mode =
     (let size = int (length (TxFullData t)) in
      if size > LimitTx then (TxMaxSize Size LimitBlock LimitTx, Inl (limitError ''Max size of tx''))
      else
        let Size = wrap64 (Size + size) in
        (TxMaxSize Size LimitBlock LimitTx,
         if Size > LimitBlock then
           if mode = letPreprocess then Inl ErrLimitStop else Inl (limitError ''Max size of the block'')
         else Inr ()))"

definition txUserLimit_check :: "(int64 \<rightharpoonup> int) \<Rightarrow> int \<Rightarrow> ('c, 'p) Transaction \<Rightarrow> int \<Rightarrow> limiter \<times> (limit_err + unit)" where
  "txUserLimit_check TxUsers Limit t mode =
     (case TxSmart t of
        None \<Rightarrow> (TxUserLimit TxUsers Limit, Inl (GoPanic ''nil pointer dereference''))
      | Some smart \<Rightarrow>
          let keyID = sc_KeyID smart in
          case TxUsers keyID of
            None \<Rightarrow> (TxUserLimit (TxUsers(keyID \<mapsto> 1)) Limit, Inr ())
          | Some count \<Rightarrow>
              if wrap64 (count + 1) > Limit then
                (TxUserLimit TxUsers Limit,
                 if mode = letPreprocess then Inl ErrLimitSkip
                 else Inl (limitError (''Max tx from one user '' @ Int64ToStr keyID)))
              else (TxUserLimit (TxUsers(keyID \<mapsto> wrap64 (count + 1))) Limit, Inr ()))"

definition txMaxLimit_check :: "int \<Rightarrow> int \<Rightarrow> int \<Rightarrow> limiter \<times> (limit_err + unit)" where
  "txMaxLimit_check Count Limit mode =
     (let Count = wrap64 (Count + 1) in
      (TxMaxLimit Count Limit,
       if Count > Limit then
         if mode = letPreprocess then Inl ErrLimitStop else Inl (limitError ''Max tx in the block'')
       else Inr ()))"

definition exc_text :: "go_exc \<Rightarrow> string" where
  "exc_text e = (case e of Error s \<Rightarrow> s | Panic s \<Rightarrow> s | Exit s \<Rightarrow> s)"

definition ecosys_limit :: "limit_env \<Rightarrow> int64 \<Rightarrow> int res" where
  "ecosys_limit env eco =
     bind_res (le_StateParameter env eco) (\<lambda>v.
       Inr (case v of None \<Rightarrow> le_MaxBlockUserTx env | Some s \<Rightarrow> sint (StrToInt64 s)))"

definition txUserEcosysLimit_check ::
  "limit_env \<Rightarrow> (int64 \<rightharpoonup> (int64 \<rightharpoonup> int) \<times> int) \<Rightarrow> ('c, 'p) Transaction \<Rightarrow> int \<Rightarrow> limiter \<times> (limit_err + unit)" where
  "txUserEcosysLimit_check env TxEcosys t mode =
     (case TxSmart t of
        None \<Rightarrow> (TxUserEcosysLimit TxEcosys, Inl (GoPanic ''nil pointer dereference''))
      | Some smart \<Rightarrow>
          let keyID = sc_KeyID smart; ecosystemID = sc_EcosystemID smart in
          case TxEcosys ecosystemID of
            Some (TxUsers, Limit) \<Rightarrow>
              (case TxUsers keyID of
                 Some user \<Rightarrow>
                   if wrap64 (user + 1) > Limit then
                     (TxUserEcosysLimit TxEcosys,
                      if mode = letPreprocess then Inl ErrLimitSkip
                      else Inl (limitError (''Max tx from one user '' @ Int64ToStr keyID @ '' in ecosystem '' @ Int64ToStr ecosystemID)))
                   else (TxUserEcosysLimit (TxEcosys(ecosystemID \<mapsto> (TxUsers(keyID \<mapsto> wrap64 (user + 1)), Limit))), Inr ())
               | None \<Rightarrow> (TxUserEcosysLimit (TxEcosys(ecosystemID \<mapsto> (TxUsers(keyID \<mapsto> 1), Limit))), Inr ()))
          | None \<Rightarrow>
              (case ecosys_limit env ecosystemID of
                 Inl e \<Rightarrow> (TxUserEcosysLimit TxEcosys, Inl (limitError (exc_text e)))
               | Inr limit \<Rightarrow> (TxUserEcosysLimit (TxEcosys(ecosystemID \<mapsto> ([keyID \<mapsto> 1], limit))), Inr ())))"

definition timeBlockLimit_check :: "int \<Rightarrow> int \<Rightarrow> int \<Rightarrow> int \<Rightarrow> limiter \<times> (limit_err + unit)" where
  "timeBlockLimit_check now Start Limit mode =
     (TimeBlockLimit Start Limit,
      if now - Start < Limit then Inr ()
      else if mode = letGenBlock then Inl ErrLimitStop
      else Inl (limitError ''Block generation time exceeded''))"

definition txMaxFuel_check :: "int \<Rightarrow> int \<Rightarrow> int \<Rightarrow> ('c, 'p) Transaction \<Rightarrow> int \<Rightarrow> limiter \<times> (limit_err + unit)" where
  "txMaxFuel_check Fuel LimitBlock LimitTx t mode =
     (let fuel = sint (TxFuel t) in
      if fuel > LimitTx then
        (TxMaxFuel Fuel LimitBlock LimitTx,
         Inl (limitError (''Max fuel of tx '' @ show_int fuel @ '' > '' @ show_int LimitTx)))
      else
        let Fuel = wrap64 (Fuel + fuel) in
        (TxMaxFuel Fuel LimitBlock LimitTx,
         if Fuel > LimitBlock then
           if mode = letGenBlock then Inl ErrLimitStop else Inl (limitError ''Max fuel of the block'')
         else Inr ()))"

fun limiter_check :: "limit_env \<Rightarrow> int \<Rightarrow> limiter \<Rightarrow> ('c, 'p) Transaction \<Rightarrow> int \<Rightarrow> limiter \<times> (limit_err + unit)" where
  "limiter_check env now (TxMaxSize s lb lt) t mode = txMaxSize_check s lb lt t mode"
| "limiter_check env now (TxUserLimit us l) t mode = txUserLimit_check us l t mode"
| "limiter_check env now (TxMaxLimit c l) t mode = txMaxLimit_check c l mode"
| "limiter_check env now (TxUserEcosysLimit es) t mode = txUserEcosysLimit_check env es t mode"
| "limiter_check env now (TimeBlockLimit s l) t mode = timeBlockLimit_check now s l mode"
| "limiter_check env now (TxMaxFuel f lb lt) t mode = txMaxFuel_check f lb lt t mode"

record Limits =
  l_Mode :: int
  l_Limiters :: "limiter list"

text \<open>\<open>NewLimits\<close>: \<open>None\<close> is the nil block, \<open>Some g\<close> a block whose \<open>GenBlock\<close> is \<open>g\<close>; \<open>now\<close> is the start time.\<close>

definition limits_mode :: "bool option \<Rightarrow> int" where
  "limits_mode b = (case b of None \<Rightarrow> letPreprocess | Some g \<Rightarrow> if g then letGenBlock else letParsing)"

definition allLimiters :: "limit_env \<Rightarrow> int \<Rightarrow> (limiter \<times> int) list" where
  "allLimiters env now =
     [(TxMaxSize 0 (le_MaxBlockSize env) (le_MaxTxSize env), letPreprocess OR letParsing),
      (TxUserLimit Map.empty (le_MaxBlockUserTx env), letPreprocess OR letParsing),
      (TxMaxLimit 0 (le_MaxTxCount env), letPreprocess OR letParsing),
      (TxUserEcosysLimit Map.empty, letPreprocess OR letParsing),
      (TimeBlockLimit now (wrap64 (1000000 * le_MaxBlockGenerationTime env)), letGenBlock),
      (TxMaxFuel 0 (le_MaxBlockFuel env) (le_MaxTxFuel env), letGenBlock OR letParsing)]"

definition NewLimits :: "limit_env \<Rightarrow> int \<Rightarrow> bool option \<Rightarrow> Limits" where
  "NewLimits env now b =
     (let mode = limits_mode b
      in \<lparr>l_Mode = mode, l_Limiters = map fst (filter (\<lambda>(_, modes). modes AND mode \<noteq> 0) (allLimiters env now))\<rparr>)"

text \<open>\<open>CheckLimit\<close> at the time \<open>now\<close>.\<close>

fun check_limiters :: "limit_env \<Rightarrow> int \<Rightarrow> int \<Rightarrow> limiter list \<Rightarrow> ('c, 'p) Transaction \<Rightarrow> limiter list \<times> (limit_err + unit)" where
  "check_limiters env now mode [] t = ([], Inr ())"
| "check_limiters env now mode (l # ls) t =
     (case limiter_check env now l t mode of
        (l, Inl e) \<Rightarrow> (l # ls, Inl e)
      | (l, Inr _) \<Rightarrow> (let (ls, r) = check_limiters env now mode ls t in (l # ls, r)))"

definition CheckLimit :: "limit_env \<Rightarrow> int \<Rightarrow> Limits \<Rightarrow> ('c, 'p) Transaction \<Rightarrow> Limits \<times> (limit_err + unit)" where
  "CheckLimit env now limits t =
     (let (ls, r) = check_limiters env now (l_Mode limits) (l_Limiters limits) t
      in (limits\<lparr>l_Limiters := ls\<rparr>, r))"

text \<open>
  Checking a sequence of transactions, each at its own time, and keeping those that pass: what
  \<open>Play\<close> and \<open>processTransactions\<close> do with the limits.
\<close>

fun accept :: "limit_env \<Rightarrow> Limits \<Rightarrow> (int \<times> ('c, 'p) Transaction) list \<Rightarrow> ('c, 'p) Transaction list \<Rightarrow>
    Limits \<times> ('c, 'p) Transaction list" where
  "accept env limits [] acc = (limits, acc)"
| "accept env limits ((now, t) # ts) acc =
     (let (limits, r) = CheckLimit env now limits t
      in accept env limits ts (case r of Inl _ \<Rightarrow> acc | Inr _ \<Rightarrow> acc @ [t]))"

section \<open>What a limiter guarantees\<close>

text \<open>
  The contract of a limiter: \<open>inv l off acc\<close> relates its state to the transactions offered and the
  transactions accepted so far, under a bound \<open>fits\<close> on what was offered.
\<close>

locale limiter_contract =
  fixes chk :: "'l \<Rightarrow> 't \<Rightarrow> 'l \<times> ('e + unit)"
    and chks :: "'l list \<Rightarrow> 't \<Rightarrow> 'l list \<times> ('e + unit)"
    and inv :: "'l \<Rightarrow> 't list \<Rightarrow> 't list \<Rightarrow> bool"
    and fits :: "'t list \<Rightarrow> bool"
  assumes chks_Nil: "chks [] t = ([], Inr ())"
    and chks_Cons: "chks (l # ls) t =
      (case chk l t of
         (l', Inl e) \<Rightarrow> (l' # ls, Inl e)
       | (l', Inr _) \<Rightarrow> (let (ls', r) = chks ls t in (l' # ls', r)))"
    and inv_pass: "inv l off acc \<Longrightarrow> fits (off @ [t]) \<Longrightarrow> chk l t = (l', Inr u) \<Longrightarrow> inv l' (off @ [t]) (acc @ [t])"
    and inv_refuse: "inv l off acc \<Longrightarrow> fits (off @ [t]) \<Longrightarrow> chk l t = (l', Inl e) \<Longrightarrow> inv l' (off @ [t]) acc"
    and inv_drop: "inv l off (acc @ [t]) \<Longrightarrow> inv l off acc"
    and inv_offer: "inv l off acc \<Longrightarrow> fits (off @ [t]) \<Longrightarrow> inv l (off @ [t]) acc"
begin

lemma chks_pass:
  "list_all (\<lambda>l. inv l off acc) ls \<Longrightarrow> fits (off @ [t]) \<Longrightarrow> chks ls t = (ls', Inr u) \<Longrightarrow>
    list_all (\<lambda>l. inv l (off @ [t]) (acc @ [t])) ls'"
  by (induction ls arbitrary: ls')
    (auto simp: chks_Nil chks_Cons inv_pass Let_def split: prod.splits sum.splits)

lemma chks_refuse:
  "list_all (\<lambda>l. inv l off acc) ls \<Longrightarrow> fits (off @ [t]) \<Longrightarrow> chks ls t = (ls', Inl e) \<Longrightarrow>
    list_all (\<lambda>l. inv l (off @ [t]) acc) ls'"
proof (induction ls arbitrary: ls')
  case Nil
  then show ?case by (simp add: chks_Nil)
next
  case (Cons l ls)
  then have hd: "inv l off acc" and tl: "list_all (\<lambda>l. inv l (off @ [t]) acc) ls"
    by (auto simp: list_all_iff inv_offer)
  show ?case
  proof (cases "snd (chk l t)")
    case (Inl e')
    then obtain l' where l': "chk l t = (l', Inl e')" by (metis prod.collapse)
    with Cons.prems have "ls' = l' # ls" by (simp add: chks_Cons)
    with l' hd tl show ?thesis using inv_refuse Cons.prems(2) by simp
  next
    case (Inr u)
    then obtain l' where l': "chk l t = (l', Inr u)" by (metis prod.collapse)
    then have "inv l' (off @ [t]) acc" using inv_pass [OF hd Cons.prems(2)] inv_drop by blast
    with l' Cons show ?thesis by (auto simp: chks_Cons Let_def split: prod.splits)
  qed
qed

end

section \<open>The invariants of the limiters\<close>

definition tx_size :: "('c, 'p) Transaction \<Rightarrow> int" where
  "tx_size t = int (length (TxFullData t))"

definition tx_fuel :: "('c, 'p) Transaction \<Rightarrow> int" where
  "tx_fuel t = sint (TxFuel t)"

definition by_user :: "int64 \<Rightarrow> ('c, 'p) Transaction \<Rightarrow> bool" where
  "by_user k t \<longleftrightarrow> (case TxSmart t of None \<Rightarrow> False | Some s \<Rightarrow> sc_KeyID s = k)"

definition by_user_in :: "int64 \<Rightarrow> int64 \<Rightarrow> ('c, 'p) Transaction \<Rightarrow> bool" where
  "by_user_in eco k t \<longleftrightarrow>
     (case TxSmart t of None \<Rightarrow> False | Some s \<Rightarrow> sc_EcosystemID s = eco \<and> sc_KeyID s = k)"

definition count_tx :: "('a \<Rightarrow> bool) \<Rightarrow> 'a list \<Rightarrow> int" where
  "count_tx P xs = int (length (filter P xs))"

definition total_tx :: "('a \<Rightarrow> int) \<Rightarrow> 'a list \<Rightarrow> int" where
  "total_tx f xs = sum_list (map f xs)"

lemma count_tx_simps [simp]:
  "count_tx P [] = 0" "count_tx P (xs @ [x]) = count_tx P xs + (if P x then 1 else 0)" "0 \<le> count_tx P xs"
  by (simp_all add: count_tx_def)

lemma total_tx_simps [simp]: "total_tx f [] = 0" "total_tx f (xs @ [x]) = total_tx f xs + f x"
  by (simp_all add: total_tx_def)

lemma tx_size_nonneg [simp]: "0 \<le> tx_size t"
  by (simp add: tx_size_def)

lemma total_tx_nonneg: "(\<And>x. x \<in> set xs \<Longrightarrow> 0 \<le> f x) \<Longrightarrow> 0 \<le> total_tx f xs"
  by (auto simp: total_tx_def intro!: sum_list_nonneg)

text \<open>
  What may be offered to one \<open>Limits\<close> value without a 64-bit counter wrapping around: fewer than
  \<open>2 ^ 62\<close> transactions, bytes and units of fuel, and no negative fuel.
\<close>

definition offer_fits :: "('c, 'p) Transaction list \<Rightarrow> bool" where
  "offer_fits off \<longleftrightarrow> int (length off) < 2 ^ 62 \<and> total_tx tx_size off < 2 ^ 62 \<and> total_tx tx_fuel off < 2 ^ 62
     \<and> list_all (\<lambda>t. 0 \<le> tx_fuel t) off"

text \<open>
  A map of counters, absent keys counting 0, is never behind the numbers \<open>f\<close> of accepted
  transactions and never above the limit, except that a first transaction always passes.
\<close>

definition ctr :: "(int64 \<rightharpoonup> int) \<Rightarrow> int64 \<Rightarrow> int" where
  "ctr us k = (case us k of None \<Rightarrow> 0 | Some c \<Rightarrow> c)"

definition counters_ok :: "(int64 \<rightharpoonup> int) \<Rightarrow> int \<Rightarrow> nat \<Rightarrow> (int64 \<Rightarrow> int) \<Rightarrow> bool" where
  "counters_ok us l n f \<longleftrightarrow> (\<forall>k. f k \<le> ctr us k \<and> 0 \<le> ctr us k \<and> ctr us k \<le> int n \<and> ctr us k \<le> max 1 l)"

definition user_counts :: "('c, 'p) Transaction list \<Rightarrow> int64 \<Rightarrow> int" where
  "user_counts acc k = count_tx (by_user k) acc"

definition ecosys_counts :: "('c, 'p) Transaction list \<Rightarrow> int64 \<Rightarrow> int64 \<Rightarrow> int" where
  "ecosys_counts acc e k = count_tx (by_user_in e k) acc"

definition ecosys_ok ::
  "limit_env \<Rightarrow> (int64 \<rightharpoonup> (int64 \<rightharpoonup> int) \<times> int) \<Rightarrow> nat \<Rightarrow> ('c, 'p) Transaction list \<Rightarrow> int64 \<Rightarrow> bool" where
  "ecosys_ok env es n acc e \<longleftrightarrow>
     (case es e of
        None \<Rightarrow> ecosys_counts acc e = (\<lambda>_. 0)
      | Some (us, l) \<Rightarrow> ecosys_limit env e = Inr l \<and> counters_ok us l n (ecosys_counts acc e))"

fun limiter_inv :: "limit_env \<Rightarrow> limiter \<Rightarrow> ('c, 'p) Transaction list \<Rightarrow> ('c, 'p) Transaction list \<Rightarrow> bool" where
  "limiter_inv env (TxMaxSize s lb lt) off acc \<longleftrightarrow>
     lb = le_MaxBlockSize env \<and> lt = le_MaxTxSize env \<and> 0 \<le> s \<and> s \<le> total_tx tx_size off
     \<and> total_tx tx_size acc \<le> s \<and> total_tx tx_size acc \<le> max 0 lb \<and> list_all (\<lambda>t. tx_size t \<le> lt) acc"
| "limiter_inv env (TxUserLimit us l) off acc \<longleftrightarrow>
     l = le_MaxBlockUserTx env \<and> counters_ok us l (length off) (user_counts acc)"
| "limiter_inv env (TxMaxLimit c l) off acc \<longleftrightarrow>
     l = le_MaxTxCount env \<and> 0 \<le> c \<and> c \<le> int (length off) \<and> int (length acc) \<le> c \<and> int (length acc) \<le> max 0 l"
| "limiter_inv env (TxUserEcosysLimit es) off acc \<longleftrightarrow>
     (\<forall>e. ecosys_ok env es (length off) acc e)"
| "limiter_inv env (TimeBlockLimit s l) off acc \<longleftrightarrow> True"
| "limiter_inv env (TxMaxFuel f lb lt) off acc \<longleftrightarrow>
     lb = le_MaxBlockFuel env \<and> lt = le_MaxTxFuel env \<and> 0 \<le> f \<and> f \<le> total_tx tx_fuel off
     \<and> total_tx tx_fuel acc \<le> f \<and> total_tx tx_fuel acc \<le> max 0 lb \<and> list_all (\<lambda>t. 0 \<le> tx_fuel t \<and> tx_fuel t \<le> lt) acc"

section \<open>The limiters keep their contract\<close>

lemma wrap64_off: "0 \<le> x \<Longrightarrow> x < 2 ^ 62 \<Longrightarrow> wrap64 x = x"
  by (intro wrap64_nonneg) simp_all

lemma ctr_upd: "ctr (us(k \<mapsto> v)) j = (if j = k then v else ctr us j)"
  by (simp add: ctr_def)

lemma counters_okD:
  "counters_ok us l n f \<Longrightarrow> f k \<le> ctr us k \<and> 0 \<le> ctr us k \<and> ctr us k \<le> int n \<and> ctr us k \<le> max 1 l"
  by (simp add: counters_ok_def)

lemma counters_ok_le: "counters_ok us l n f \<Longrightarrow> f k \<le> max 1 l"
  using counters_okD order_trans by blast

lemma counters_ok_more: "counters_ok us l n f \<Longrightarrow> n \<le> m \<Longrightarrow> counters_ok us l m f"
  unfolding counters_ok_def by (meson of_nat_le_iff order_trans)

lemma counters_ok_less: "counters_ok us l n f \<Longrightarrow> (\<And>k. g k \<le> f k) \<Longrightarrow> counters_ok us l n g"
  unfolding counters_ok_def by (meson order_trans)

lemma counters_ok_bump:
  assumes "counters_ok us l n f" "ctr us k + 1 \<le> max 1 l"
  shows "counters_ok (us(k \<mapsto> ctr us k + 1)) l (Suc n) (f(k := f k + 1))"
  unfolding counters_ok_def
proof
  fix j
  show "(f(k := f k + 1)) j \<le> ctr (us(k \<mapsto> ctr us k + 1)) j \<and> 0 \<le> ctr (us(k \<mapsto> ctr us k + 1)) j
      \<and> ctr (us(k \<mapsto> ctr us k + 1)) j \<le> int (Suc n) \<and> ctr (us(k \<mapsto> ctr us k + 1)) j \<le> max 1 l"
    using counters_okD [OF assms(1), of k] counters_okD [OF assms(1), of j] assms(2) by (simp add: ctr_upd)
qed

lemma counters_ok_first: "counters_ok [k \<mapsto> 1] l (Suc n) ((\<lambda>_. 0)(k := 1))"
  by (auto simp: counters_ok_def ctr_def)

lemma counters_ok_wrap:
  "counters_ok us l (length off) f \<Longrightarrow> offer_fits (off @ [t]) \<Longrightarrow> wrap64 (ctr us k + 1) = ctr us k + 1"
  using counters_okD [of us l "length off" f k] by (intro wrap64_off) (auto simp: offer_fits_def)

lemma user_counts_snoc:
  "TxSmart t = Some s \<Longrightarrow> user_counts (acc @ [t]) = (user_counts acc)(sc_KeyID s := user_counts acc (sc_KeyID s) + 1)"
  by (auto simp: user_counts_def by_user_def fun_eq_iff)

lemma ecosys_counts_snoc:
  "TxSmart t = Some s \<Longrightarrow> ecosys_counts (acc @ [t]) e =
    (if e = sc_EcosystemID s then (ecosys_counts acc e)(sc_KeyID s := ecosys_counts acc e (sc_KeyID s) + 1)
     else ecosys_counts acc e)"
  by (auto simp: ecosys_counts_def by_user_in_def fun_eq_iff)

lemma ecosys_ok_more: "ecosys_ok env es n acc e \<Longrightarrow> n \<le> m \<Longrightarrow> ecosys_ok env es m acc e"
  by (auto simp: ecosys_ok_def intro: counters_ok_more split: option.splits)

lemma le_add_size: "x \<le> s \<Longrightarrow> x \<le> s + tx_size t"
  by (simp add: add_increasing2)

lemma size_add_le: "x + tx_size t \<le> y \<Longrightarrow> x \<le> y"
  using tx_size_nonneg [of t] by linarith

lemma txUserLimit_step:
  assumes inv: "limiter_inv env (TxUserLimit us lim) off acc" and fit: "offer_fits (off @ [t])"
    and chk: "txUserLimit_check us lim t mode = (l', r)"
  shows "limiter_inv env l' (off @ [t]) (case r of Inl _ \<Rightarrow> acc | Inr _ \<Rightarrow> acc @ [t])"
proof -
  have ok: "counters_ok us lim (length off) (user_counts acc)" and lim: "lim = le_MaxBlockUserTx env"
    using inv unfolding limiter_inv.simps by blast+
  have more: "counters_ok us lim (Suc (length off)) (user_counts acc)"
    using counters_ok_more [OF ok] by simp
  show ?thesis
  proof (cases "TxSmart t")
    case None
    with chk more lim show ?thesis by (auto simp: txUserLimit_check_def)
  next
    case (Some sm)
    let ?k = "sc_KeyID sm"
    have "us ?k = None \<Longrightarrow> ctr us ?k = 0" "\<And>c. us ?k = Some c \<Longrightarrow> ctr us ?k = c" by (simp_all add: ctr_def)
    with chk more lim Some counters_ok_bump [OF ok, of ?k] counters_ok_wrap [OF ok fit, of ?k]
    show ?thesis
      by (auto simp: txUserLimit_check_def Let_def user_counts_snoc split: option.splits if_splits)
  qed
qed

lemma txUserEcosysLimit_step:
  assumes inv: "limiter_inv env (TxUserEcosysLimit es) off acc" and fit: "offer_fits (off @ [t])"
    and chk: "txUserEcosysLimit_check env es t mode = (l', r)"
  shows "limiter_inv env l' (off @ [t]) (case r of Inl _ \<Rightarrow> acc | Inr _ \<Rightarrow> acc @ [t])"
proof -
  have ok: "ecosys_ok env es (length off) acc e" for e using inv by simp
  have more: "ecosys_ok env es (Suc (length off)) acc e" for e using ecosys_ok_more [OF ok] by simp
  show ?thesis
  proof (cases r)
    case (Inl err)
    then have "l' = TxUserEcosysLimit es"
      using chk by (auto simp: txUserEcosysLimit_check_def Let_def split: option.splits if_splits sum.splits)
    with Inl more show ?thesis by (simp add: all_conj_distrib) blast
  next
    case (Inr u)
    then obtain sm where sm: "TxSmart t = Some sm"
      using chk by (auto simp: txUserEcosysLimit_check_def split: option.splits)
    let ?e = "sc_EcosystemID sm" and ?k = "sc_KeyID sm"
    obtain us l where l': "l' = TxUserEcosysLimit (es(?e \<mapsto> (us, l)))" and lim: "ecosys_limit env ?e = Inr l"
      and cnt: "counters_ok us l (Suc (length off)) (ecosys_counts (acc @ [t]) ?e)"
    proof (cases "es ?e")
      case None
      with chk Inr sm obtain l where "ecosys_limit env ?e = Inr l" "l' = TxUserEcosysLimit (es(?e \<mapsto> ([?k \<mapsto> 1], l)))"
        by (auto simp: txUserEcosysLimit_check_def Let_def split: sum.splits)
      with ok [of ?e, unfolded ecosys_ok_def] None show ?thesis
        by (intro that [of "[?k \<mapsto> 1]" l]) (simp_all add: ecosys_counts_snoc [OF sm] counters_ok_first)
    next
      case (Some p)
      obtain us l where p: "p = (us, l)" by force
      have c: "counters_ok us l (length off) (ecosys_counts acc ?e)" "ecosys_limit env ?e = Inr l"
        using ok [of ?e, unfolded ecosys_ok_def] Some p by simp_all
      have k: "us ?k = None \<Longrightarrow> ctr us ?k = 0" "\<And>c. us ?k = Some c \<Longrightarrow> ctr us ?k = c" by (simp_all add: ctr_def)
      have "ctr us ?k + 1 \<le> max 1 l \<and> l' = TxUserEcosysLimit (es(?e \<mapsto> (us(?k \<mapsto> ctr us ?k + 1), l)))"
        using chk Inr sm Some p k counters_ok_wrap [OF c(1) fit, of ?k]
        by (auto simp: txUserEcosysLimit_check_def Let_def split: option.splits if_splits)
      with c counters_ok_bump [OF c(1), of ?k] show ?thesis
        by (intro that [of "us(?k \<mapsto> ctr us ?k + 1)" l]) (simp_all add: ecosys_counts_snoc [OF sm])
    qed
    have "ecosys_ok env (es(?e \<mapsto> (us, l))) (Suc (length off)) (acc @ [t]) e" for e
      using lim cnt more [of e] by (auto simp: ecosys_ok_def ecosys_counts_snoc [OF sm] split: option.splits)
    with Inr l' show ?thesis by simp blast
  qed
qed

lemma limiter_step:
  assumes "limiter_inv env l off acc" "offer_fits (off @ [t])" "limiter_check env now l t mode = (l', r)"
  shows "limiter_inv env l' (off @ [t]) (case r of Inl _ \<Rightarrow> acc | Inr _ \<Rightarrow> acc @ [t])"
proof (cases l)
  case (TxMaxSize s lb lt)
  with assms show ?thesis
    using wrap64_off [of "s + tx_size t"]
    by (auto simp: txMaxSize_check_def Let_def offer_fits_def tx_size_def [symmetric]
        intro: le_add_size split: if_splits)
next
  case (TxUserLimit us lim)
  with assms show ?thesis using txUserLimit_step by fastforce
next
  case (TxMaxLimit c lim)
  with assms show ?thesis
    using wrap64_off [of "c + 1"]
    by (auto simp: txMaxLimit_check_def Let_def offer_fits_def split: if_splits)
next
  case (TxUserEcosysLimit es)
  with assms show ?thesis using txUserEcosysLimit_step by fastforce
next
  case (TxMaxFuel f lb lt)
  with assms show ?thesis
    using wrap64_off [of "f + tx_fuel t"]
    by (auto simp: txMaxFuel_check_def Let_def offer_fits_def tx_fuel_def [symmetric] split: if_splits)
qed (use assms in \<open>auto simp: timeBlockLimit_check_def\<close>)

lemma limiter_offer:
  assumes "limiter_inv env l off acc" "offer_fits (off @ [t])"
  shows "limiter_inv env l (off @ [t]) acc"
proof (cases l)
  case (TxUserLimit us lim)
  with assms counters_ok_more [of us lim "length off" "user_counts acc" "length (off @ [t])"] show ?thesis by auto
next
  case (TxUserEcosysLimit es)
  with assms show ?thesis by (auto intro: ecosys_ok_more)
qed (use assms in \<open>auto simp: offer_fits_def intro: le_add_size\<close>)

lemma user_counts_drop: "user_counts acc k \<le> user_counts (acc @ [t]) k"
  by (simp add: user_counts_def)

lemma ecosys_counts_drop: "ecosys_counts acc e k \<le> ecosys_counts (acc @ [t]) e k" "0 \<le> ecosys_counts acc e k"
  by (simp_all add: ecosys_counts_def)

lemma limiter_drop:
  assumes "limiter_inv env l off (acc @ [t])"
  shows "limiter_inv env l off acc"
proof (cases l)
  case (TxUserLimit us lim)
  have "counters_ok us lim (length off) (user_counts (acc @ [t])) \<Longrightarrow> counters_ok us lim (length off) (user_counts acc)"
    by (erule counters_ok_less) (rule user_counts_drop)
  with TxUserLimit assms show ?thesis by auto
next
  case (TxUserEcosysLimit es)
  have "ecosys_ok env es (length off) acc e" for e
  proof (cases "es e")
    case None
    then have "ecosys_counts (acc @ [t]) e = (\<lambda>_. 0)" using assms TxUserEcosysLimit by (auto simp: ecosys_ok_def dest!: spec [of _ e])
    then have "ecosys_counts acc e k \<le> 0" for k using ecosys_counts_drop(1) [of acc e k t] by simp
    then have "ecosys_counts acc e k = 0" for k using ecosys_counts_drop(2) [of acc e k] by (simp add: order_antisym)
    with None show ?thesis by (simp add: fun_eq_iff ecosys_ok_def)
  next
    case (Some p)
    with assms TxUserEcosysLimit show ?thesis
      by (auto simp: ecosys_ok_def dest!: spec [of _ e] intro: counters_ok_less ecosys_counts_drop(1))
  qed
  then show ?thesis by (simp add: TxUserEcosysLimit) blast
qed (use assms in \<open>auto dest: size_add_le\<close>)

interpretation limits: limiter_contract "\<lambda>l t. limiter_check env now l t mode" "check_limiters env now mode"
  "limiter_inv env" offer_fits
  for env now mode
proof unfold_locales
  fix l l' :: limiter and off acc :: "('a, 'b) Transaction list" and t u e
  assume "limiter_inv env l off acc" "offer_fits (off @ [t])"
  note step = limiter_step [OF this]
  show "limiter_check env now l t mode = (l', Inr u) \<Longrightarrow> limiter_inv env l' (off @ [t]) (acc @ [t])"
    using step by fastforce
  show "limiter_check env now l t mode = (l', Inl e) \<Longrightarrow> limiter_inv env l' (off @ [t]) acc"
    using step by fastforce
qed (auto simp: limiter_drop limiter_offer split: prod.splits sum.splits)


section \<open>The limits hold for what is accepted\<close>

fun limiter_kind :: "limiter \<Rightarrow> nat" where
  "limiter_kind (TxMaxSize _ _ _) = 0"
| "limiter_kind (TxUserLimit _ _) = 1"
| "limiter_kind (TxMaxLimit _ _) = 2"
| "limiter_kind (TxUserEcosysLimit _) = 3"
| "limiter_kind (TimeBlockLimit _ _) = 4"
| "limiter_kind (TxMaxFuel _ _ _) = 5"

lemma limiter_check_kind: "limiter_kind (fst (limiter_check env now l t mode)) = limiter_kind l"
  by (cases l) (auto simp: txMaxSize_check_def txUserLimit_check_def txMaxLimit_check_def txUserEcosysLimit_check_def
      timeBlockLimit_check_def txMaxFuel_check_def Let_def split: option.splits sum.splits)

lemma check_limiters_kind: "map limiter_kind (fst (check_limiters env now mode ls t)) = map limiter_kind ls"
proof (induction ls)
  case (Cons l ls)
  then show ?case using limiter_check_kind [of env now l t mode]
    by (auto simp: Let_def split: prod.splits sum.splits)
qed simp

lemma offer_fits_prefix: "offer_fits (xs @ ys) \<Longrightarrow> offer_fits xs"
proof (induction ys rule: rev_induct)
  case (snoc y ys)
  have "offer_fits (xs @ ys)" using snoc.prems
    by (simp add: offer_fits_def flip: append_assoc) (use tx_size_nonneg [of y] in linarith)
  then show ?case by (rule snoc.IH)
qed simp

lemma accept_inv:
  assumes "accept env L ts acc = (L', acc')" "offer_fits (off @ map snd ts)"
    and "list_all (\<lambda>l. limiter_inv env l off acc) (l_Limiters L)"
  shows "list_all (\<lambda>l. limiter_inv env l (off @ map snd ts) acc') (l_Limiters L')
    \<and> map limiter_kind (l_Limiters L') = map limiter_kind (l_Limiters L)"
  using assms
proof (induction ts arbitrary: L acc off)
  case (Cons nt ts)
  obtain now t where nt: "nt = (now, t)" by force
  obtain ls r where chk: "check_limiters env now (l_Mode L) (l_Limiters L) t = (ls, r)" by force
  let ?acc = "case r of Inl _ \<Rightarrow> acc | Inr _ \<Rightarrow> acc @ [t]"
  have fit: "offer_fits (off @ [t])" using Cons.prems(2) offer_fits_prefix [of "off @ [t]" "map snd ts"] by (simp add: nt)
  have "list_all (\<lambda>l. limiter_inv env l (off @ [t]) ?acc) ls"
    using limits.chks_pass [OF Cons.prems(3) fit] limits.chks_refuse [OF Cons.prems(3) fit] chk
    by (cases r) auto
  moreover have "map limiter_kind ls = map limiter_kind (l_Limiters L)"
    using check_limiters_kind [of env now "l_Mode L" "l_Limiters L" t] chk by simp
  moreover have "accept env (L\<lparr>l_Limiters := ls\<rparr>) ts ?acc = (L', acc')"
    using Cons.prems(1) chk by (simp add: nt CheckLimit_def)
  ultimately show ?case using Cons.IH [of "L\<lparr>l_Limiters := ls\<rparr>" ?acc "off @ [t]"] Cons.prems(2) by (simp add: nt)
qed simp

lemma parsing_limiters:
  "l_Limiters (NewLimits env now (Some False)) =
     [TxMaxSize 0 (le_MaxBlockSize env) (le_MaxTxSize env), TxUserLimit Map.empty (le_MaxBlockUserTx env),
      TxMaxLimit 0 (le_MaxTxCount env), TxUserEcosysLimit Map.empty,
      TxMaxFuel 0 (le_MaxBlockFuel env) (le_MaxTxFuel env)]"
  by (simp add: NewLimits_def limits_mode_def allLimiters_def letPreprocess_def letGenBlock_def letParsing_def)

lemma limiter_kind_cases:
  "limiter_kind l = 0 \<Longrightarrow> \<exists>s lb lt. l = TxMaxSize s lb lt"
  "limiter_kind l = 1 \<Longrightarrow> \<exists>us lim. l = TxUserLimit us lim"
  "limiter_kind l = 2 \<Longrightarrow> \<exists>c lim. l = TxMaxLimit c lim"
  "limiter_kind l = 3 \<Longrightarrow> \<exists>es. l = TxUserEcosysLimit es"
  "limiter_kind l = 5 \<Longrightarrow> \<exists>f lb lt. l = TxMaxFuel f lb lt"
  by (cases l; simp)+

text \<open>
  C12: whatever sequence of transactions is offered while a block is parsed, those that pass
  \<open>CheckLimit\<close> respect every limit: the size of the block and of each transaction, the fuel of the
  block and of each transaction, the number of transactions, the number per user and per user and
  ecosystem. The maxima against 0 and 1 are what the code gives: a first transaction of a user
  passes whatever the limit per user is.
\<close>

theorem parsing_limits_hold:
  assumes "accept env (NewLimits env now (Some False)) ts [] = (L', acc)" "offer_fits (map snd ts)"
  shows "total_tx tx_size acc \<le> max 0 (le_MaxBlockSize env)
    \<and> list_all (\<lambda>t. tx_size t \<le> le_MaxTxSize env \<and> tx_fuel t \<le> le_MaxTxFuel env) acc
    \<and> int (length acc) \<le> max 0 (le_MaxTxCount env)
    \<and> total_tx tx_fuel acc \<le> max 0 (le_MaxBlockFuel env)
    \<and> (\<forall>k. user_counts acc k \<le> max 1 (le_MaxBlockUserTx env))
    \<and> (\<forall>e k. case ecosys_limit env e of Inl _ \<Rightarrow> ecosys_counts acc e k = 0 | Inr l \<Rightarrow> ecosys_counts acc e k \<le> max 1 l)"
proof -
  have zero: "list_all (\<lambda>l. limiter_inv env l [] ([] :: ('a, 'b) Transaction list)) (l_Limiters (NewLimits env now (Some False)))"
  proof -
    have "ecosys_ok env Map.empty 0 ([] :: ('a, 'b) Transaction list) e" for e
      by (simp add: ecosys_ok_def ecosys_counts_def fun_eq_iff)
    moreover have "counters_ok Map.empty l 0 (user_counts [])" for l
      by (simp add: counters_ok_def ctr_def user_counts_def max_def)
    ultimately show ?thesis by (simp add: parsing_limiters) blast
  qed
  from accept_inv [OF assms(1) _ zero] assms(2)
  have inv: "list_all (\<lambda>l. limiter_inv env l (map snd ts) acc) (l_Limiters L')"
    and kinds: "map limiter_kind (l_Limiters L') = [0, 1, 2, 3, 5]"
    by (simp_all add: parsing_limiters)
  obtain l0 l1 l2 l3 l5 where L: "l_Limiters L' = [l0, l1, l2, l3, l5]"
    and k: "limiter_kind l0 = 0" "limiter_kind l1 = 1" "limiter_kind l2 = 2" "limiter_kind l3 = 3" "limiter_kind l5 = 5"
    using kinds by (auto simp: map_eq_Cons_conv)
  from k obtain s lb lt us lim c lim' es f fb ft where
    l: "l0 = TxMaxSize s lb lt" "l1 = TxUserLimit us lim" "l2 = TxMaxLimit c lim'" "l3 = TxUserEcosysLimit es"
      "l5 = TxMaxFuel f fb ft"
    using limiter_kind_cases by metis
  have i: "limiter_inv env l0 (map snd ts) acc" "limiter_inv env l1 (map snd ts) acc" "limiter_inv env l2 (map snd ts) acc"
    "limiter_inv env l3 (map snd ts) acc" "limiter_inv env l5 (map snd ts) acc"
    using inv by (simp_all add: L)
  have user: "user_counts acc k \<le> max 1 (le_MaxBlockUserTx env)" for k
    using i(2) counters_ok_le [of us lim "length ts" "user_counts acc" k] by (auto simp: l)
  have eco: "case ecosys_limit env e of Inl _ \<Rightarrow> ecosys_counts acc e k = 0 | Inr l \<Rightarrow> ecosys_counts acc e k \<le> max 1 l" for e k
  proof -
    have "ecosys_ok env es (length ts) acc e" using i(4) by (simp add: l)
    then show ?thesis using counters_ok_le [of _ _ "length ts" "ecosys_counts acc e" k]
      by (auto simp: ecosys_ok_def split: option.splits sum.splits)
  qed
  show ?thesis using i(1,3,5) user eco by (auto simp: l list_all_iff)
qed


definition demo_limits :: limit_env where
  "demo_limits = \<lparr>le_MaxTxCount = 2, le_MaxBlockUserTx = 1, le_MaxBlockSize = 100, le_MaxTxSize = 10,
     le_MaxBlockFuel = 50, le_MaxTxFuel = 20, le_MaxBlockGenerationTime = 2000, le_StateParameter = (\<lambda>_. Inr None)\<rparr>"

definition demo_tx :: "int64 \<Rightarrow> (unit, unit) Transaction" where
  "demo_tx key = \<lparr>TxFullData = [1, 2, 3], TxBinaryData = [], TxHash = [], TxSignature = [], TxKeyID = key, TxTime = 0,
     TxType = 200, TxFuel = 7, TxPtr = None,
     TxSmart = Some \<lparr>sc_ID = 1, sc_EcosystemID = 1, sc_Time = 0, sc_KeyID = key, sc_Params = ()\<rparr>,
     TxData = None, TxContract = None, TxBlockData = None\<rparr>"

theorem parsing_limits_hold_witness:
  "\<exists>L acc. accept demo_limits (NewLimits demo_limits 0 (Some False)) [(0, demo_tx 5), (1, demo_tx 5), (2, demo_tx 6)] [] = (L, acc)
     \<and> int (length acc) \<le> 2 \<and> user_counts acc 5 \<le> 1"
proof -
  obtain L acc where a: "accept demo_limits (NewLimits demo_limits 0 (Some False))
      [(0, demo_tx 5), (1, demo_tx 5), (2, demo_tx 6)] [] = (L, acc)" by fastforce
  have "offer_fits (map snd [(0 :: int, demo_tx 5), (1, demo_tx 5), (2, demo_tx 6)])"
    by (simp add: offer_fits_def total_tx_def tx_size_def tx_fuel_def demo_tx_def)
  from parsing_limits_hold [OF a this] have "int (length acc) \<le> 2" "user_counts acc 5 \<le> 1"
    by (auto simp: demo_limits_def)
  with a show ?thesis by blast
qed

end
