(* ===== verification/Network_Protocol.thy ===== *)
theory Network_Protocol
  imports Converter_Text
begin

text \<open>
  \<open>packages/network/protocol.go\<close>: the messages the nodes exchange. A reader is the sequence of
  the bytes that are still to arrive; a \<open>Read\<close> method returns the message and the rest, or
  the error of the short read. A writer accepts all bytes, so a \<open>Write\<close> method gives the bytes
  it puts on the wire; \<open>binary.PutUvarint\<close> into a buffer that is too small panics. Every pair of
  \<open>Write\<close> and \<open>Read\<close> that fits together is an interpretation of the locale \<open>codec\<close>.
\<close>

unbundle bit_operations_syntax

section \<open>Readers\<close>

text \<open>\<open>io.ReadFull\<close>: nothing to read is \<open>EOF\<close>, too little is \<open>ErrUnexpectedEOF\<close>.\<close>

definition ReadFull :: "nat \<Rightarrow> bytes \<Rightarrow> (bytes \<times> bytes) res" where
  "ReadFull n s =
     (if n \<le> length s then Inr (take n s, drop n s)
      else if s = [] then Inl (Error ''EOF'') else Inl (Error ''unexpected EOF''))"

text \<open>\<open>binary.Read\<close> and \<open>binary.Write\<close> of an unsigned integer of \<open>k\<close> bytes, little endian.\<close>

definition read_le :: "nat \<Rightarrow> bytes \<Rightarrow> (nat \<times> bytes) res" where
  "read_le k s = bind_res (ReadFull k s) (\<lambda>(b, s). Inr (le_nat b, s))"

text \<open>
  \<open>binary.Uvarint\<close>: the value and the number of bytes read, \<open>(0, 0)\<close> when the buffer ends too
  early, \<open>(0, -n)\<close> on a value over 64 bits. Values are naturals below \<open>2 ^ 64\<close>.
\<close>

fun uvarint_loop :: "nat \<Rightarrow> nat \<Rightarrow> nat \<Rightarrow> bytes \<Rightarrow> nat \<times> int" where
  "uvarint_loop i x s [] = (0, 0)"
| "uvarint_loop i x s (b # bs) =
     (if b < 0x80 then
        if i > 9 \<or> i = 9 \<and> b > 1 then (0, - (int i + 1))
        else (x OR push_bit s (unat b) mod 2 ^ 64, int i + 1)
      else uvarint_loop (Suc i) (x OR push_bit s (unat (b AND 0x7f)) mod 2 ^ 64) (s + 7) bs)"

definition Uvarint :: "bytes \<Rightarrow> nat \<times> int" where
  "Uvarint buf = uvarint_loop 0 0 0 buf"

fun uvarint_bytes :: "nat \<Rightarrow> bytes" where
  "uvarint_bytes x = (if x \<ge> 0x80 then (of_nat x OR 0x80) # uvarint_bytes (x div 128) else [of_nat x])"

declare uvarint_bytes.simps [simp del]

definition PutUvarint :: "bytes \<Rightarrow> nat \<Rightarrow> bytes res" where
  "PutUvarint buf x =
     (let enc = uvarint_bytes x
      in if length enc \<le> length buf then Inr (enc @ drop (length enc) buf)
         else Inl (Panic ''index out of range''))"

section \<open>The primitives of the package\<close>

definition readBool :: "bytes \<Rightarrow> (bool \<times> bytes) res" where
  "readBool s = bind_res (read_le 1 s) (\<lambda>(v, s). Inr (v > 0, s))"

definition writeBool :: "bool \<Rightarrow> bytes" where
  "writeBool v = le_bytes 1 (if v then 1 else 0)"

definition read_size :: "bytes \<Rightarrow> (nat \<times> bytes) res" where
  "read_size s =
     bind_res (ReadFull 4 s) (\<lambda>(sizeBuf, s).
       let (size, errInt) = Uvarint sizeBuf
       in if errInt \<le> 0 then Inl (Error ''wrong sizebuf'') else Inr (size, s))"

definition ReadSlice :: "bytes \<Rightarrow> (bytes \<times> bytes) res" where
  "ReadSlice s = bind_res (read_size s) (\<lambda>(size, s). ReadFull size s)"

definition ReadSliceWithMaxSize :: "nat \<Rightarrow> bytes \<Rightarrow> (bytes \<times> bytes) res" where
  "ReadSliceWithMaxSize maxSize s =
     bind_res (read_size s) (\<lambda>(size, s).
       if size > maxSize then Inl (Error ''Size greater than max size'') else ReadFull size s)"

text \<open>
  \<open>readSliceToBuf\<close> gets a slice: \<open>arr\<close> are the elements up to its capacity, \<open>n\<close> is its length. It
  reads into the first \<open>size\<close> elements and returns the slice it was given, not the part it filled.
\<close>

definition readSliceToBuf :: "bytes \<Rightarrow> nat \<Rightarrow> bytes \<Rightarrow> (bytes \<times> bytes) res" where
  "readSliceToBuf arr n s =
     bind_res (read_size s) (\<lambda>(size, s).
       let (arr, n) = (if length arr < size then (replicate size 0, size) else (arr, n))
       in bind_res (ReadFull size s) (\<lambda>(b, s). Inr (take n (b @ drop size arr), s)))"

definition writeSlice :: "bytes \<Rightarrow> bytes res" where
  "writeSlice sl =
     bind_res (PutUvarint (replicate 4 0) (length sl)) (\<lambda>byteSize. Inr (byteSize @ sl))"

definition readSliceWithSize :: "nat \<Rightarrow> bytes \<Rightarrow> (bytes \<times> bytes) res" where
  "readSliceWithSize sz s = ReadFull sz s"

definition writeSliceWithSize :: "bytes \<Rightarrow> 32 word \<Rightarrow> bytes" where
  "writeSliceWithSize v sz = le_bytes 4 (unat sz) @ v"

definition SendRequestType :: "int64 \<Rightarrow> bytes" where
  "SendRequestType reqType = DecToBin reqType 2"

definition ReadInt :: "bytes \<Rightarrow> (int64 \<times> bytes) res" where
  "ReadInt s = bind_res (read_le 8 s) (\<lambda>(v, s). Inr (of_nat v, s))"

definition WriteInt :: "int64 \<Rightarrow> bytes" where
  "WriteInt v = le_bytes 8 (unat v)"

section \<open>The messages\<close>

definition HashSize :: nat where "HashSize = 32"

record RequestType = rt_Type :: "16 word"
record MaxBlockResponse = mb_BlockID :: int64
record GetBodiesRequest = gb_BlockID :: "32 word"  gb_ReverseOrder :: bool
record GetBodyResponse = gr_Data :: bytes
record ConfirmRequest = cr_BlockID :: "32 word"
record ConfirmResponse = cp_Hash :: bytes
record DisRequest = dr_Data :: bytes
record DisHashResponse = dh_Data :: bytes
record StopNetworkRequest = sr_Data :: bytes
record StopNetworkResponse = sp_Hash :: bytes

definition RequestType_Read :: "bytes \<Rightarrow> (RequestType \<times> bytes) res" where
  "RequestType_Read s = bind_res (read_le 2 s) (\<lambda>(v, s). Inr (\<lparr>rt_Type = of_nat v\<rparr>, s))"

definition RequestType_Write :: "RequestType \<Rightarrow> bytes" where
  "RequestType_Write rt = le_bytes 2 (unat (rt_Type rt))"

definition MaxBlockResponse_Read :: "bytes \<Rightarrow> (MaxBlockResponse \<times> bytes) res" where
  "MaxBlockResponse_Read s = bind_res (read_le 8 s) (\<lambda>(v, s). Inr (\<lparr>mb_BlockID = of_nat v\<rparr>, s))"

definition MaxBlockResponse_Write :: "MaxBlockResponse \<Rightarrow> bytes" where
  "MaxBlockResponse_Write resp = le_bytes 8 (unat (mb_BlockID resp))"

text \<open>
  The error of \<open>readBool\<close> is logged and not returned: the order is then the false that
  \<open>readBool\<close> returned beside the error, and nothing is left to read.
\<close>

definition GetBodiesRequest_Read :: "bytes \<Rightarrow> (GetBodiesRequest \<times> bytes) res" where
  "GetBodiesRequest_Read s =
     bind_res (read_le 4 s) (\<lambda>(v, s).
       let (order, s) = (case readBool s of Inl err \<Rightarrow> (False, []) | Inr r \<Rightarrow> r)
       in Inr (\<lparr>gb_BlockID = of_nat v, gb_ReverseOrder = order\<rparr>, s))"

definition GetBodiesRequest_Write :: "GetBodiesRequest \<Rightarrow> bytes" where
  "GetBodiesRequest_Write req = le_bytes 4 (unat (gb_BlockID req)) @ writeBool (gb_ReverseOrder req)"

definition GetBodyResponse_Read :: "bytes \<Rightarrow> (GetBodyResponse \<times> bytes) res" where
  "GetBodyResponse_Read s = bind_res (ReadSlice s) (\<lambda>(d, s). Inr (\<lparr>gr_Data = d\<rparr>, s))"

definition GetBodyResponse_Write :: "GetBodyResponse \<Rightarrow> bytes res" where
  "GetBodyResponse_Write resp = writeSlice (gr_Data resp)"

definition ConfirmRequest_Read :: "bytes \<Rightarrow> (ConfirmRequest \<times> bytes) res" where
  "ConfirmRequest_Read s = bind_res (read_le 4 s) (\<lambda>(v, s). Inr (\<lparr>cr_BlockID = of_nat v\<rparr>, s))"

definition ConfirmRequest_Write :: "ConfirmRequest \<Rightarrow> bytes" where
  "ConfirmRequest_Write req = le_bytes 4 (unat (cr_BlockID req))"

definition ConfirmResponse_Read :: "bytes \<Rightarrow> (ConfirmResponse \<times> bytes) res" where
  "ConfirmResponse_Read s = bind_res (readSliceWithSize HashSize s) (\<lambda>(h, s). Inr (\<lparr>cp_Hash = h\<rparr>, s))"

definition ConfirmResponse_Write :: "ConfirmResponse \<Rightarrow> bytes" where
  "ConfirmResponse_Write resp = writeSliceWithSize (cp_Hash resp) (of_nat HashSize)"

definition DisRequest_Read :: "bytes \<Rightarrow> (DisRequest \<times> bytes) res" where
  "DisRequest_Read s = bind_res (ReadSlice s) (\<lambda>(d, s). Inr (\<lparr>dr_Data = d\<rparr>, s))"

definition DisRequest_Write :: "DisRequest \<Rightarrow> bytes res" where
  "DisRequest_Write req = writeSlice (dr_Data req)"

text \<open>\<open>maxTx\<close> is \<open>uint64(syspar.GetMaxTxSize())\<close>.\<close>

definition DisHashResponse_Read :: "nat \<Rightarrow> bytes \<Rightarrow> (DisHashResponse \<times> bytes) res" where
  "DisHashResponse_Read maxTx s =
     bind_res (ReadSliceWithMaxSize maxTx s) (\<lambda>(d, s). Inr (\<lparr>dh_Data = d\<rparr>, s))"

definition DisHashResponse_Write :: "DisHashResponse \<Rightarrow> bytes res" where
  "DisHashResponse_Write resp = writeSlice (dh_Data resp)"

definition StopNetworkRequest_Read :: "bytes \<Rightarrow> (StopNetworkRequest \<times> bytes) res" where
  "StopNetworkRequest_Read s = bind_res (ReadSlice s) (\<lambda>(d, s). Inr (\<lparr>sr_Data = d\<rparr>, s))"

definition StopNetworkRequest_Write :: "StopNetworkRequest \<Rightarrow> bytes res" where
  "StopNetworkRequest_Write req = writeSlice (sr_Data req)"

definition StopNetworkResponse_Read :: "bytes \<Rightarrow> (StopNetworkResponse \<times> bytes) res" where
  "StopNetworkResponse_Read s = bind_res (ReadSlice s) (\<lambda>(d, s). Inr (\<lparr>sp_Hash = d\<rparr>, s))"

definition StopNetworkResponse_Write :: "StopNetworkResponse \<Rightarrow> bytes res" where
  "StopNetworkResponse_Write resp = writeSlice (sp_Hash resp)"

section \<open>The variable-length size\<close>

lemma or_80_and_7f: "(w OR 0x80) AND 0x7f = (w AND 0x7f :: byte)"
  by (simp add: word_ao_dist)

lemma unat_and_7f: "unat (w AND 0x7f :: byte) = unat w mod 128"
proof -
  have "w AND 0x7f = take_bit 7 w" by (simp add: take_bit_eq_mask mask_eq_exp_minus_1)
  then have "unat (w AND 0x7f) = unat (take_bit 7 w)" by (rule arg_cong)
  also have "\<dots> = unat w mod 128" by (simp only: unsigned_take_bit_eq) (simp add: take_bit_eq_mod)
  finally show ?thesis .
qed

lemma or_80_ge: "\<not> w OR 0x80 < (0x80 :: byte)"
  using le_word_or1 [of "0x80" w] by (simp add: not_less)

lemma or_push_bit: "x < 2 ^ s \<Longrightarrow> x OR push_bit s y = x + push_bit s (y :: nat)"
  by (subst disjunctive_add_eq_or [symmetric])
    (rule bit_eqI, auto simp: bit_simps, metis bit_take_bit_iff not_less take_bit_nat_eq_self)

lemma uvarint_loop_bytes:
  assumes "x < 2 ^ s" "s = 7 * i" "x + 2 ^ s * n < 2 ^ 63" "i \<le> 8"
  shows "uvarint_loop i x s (uvarint_bytes n @ rest)
    = (x + 2 ^ s * n, int i + int (length (uvarint_bytes n)))"
  using assms
proof (induction n arbitrary: i x s rule: uvarint_bytes.induct)
  case (1 n)
  show ?case
  proof (cases "n < 128")
    case True
    then have b: "unat (of_nat n :: byte) = n" by (simp add: unat_byte_of_nat)
    then have "of_nat n < (0x80 :: byte)" using True by (simp add: word_less_nat_alt)
    moreover have "push_bit s n mod 2 ^ 64 = push_bit s n"
      using "1.prems"(3) by (simp add: push_bit_eq_mult mult.commute)
    ultimately show ?thesis
      using True "1.prems" or_push_bit [of x s n]
      by (subst (1 2) uvarint_bytes.simps) (simp add: b push_bit_eq_mult)
  next
    case False
    let ?m = "n mod 128"
    have lo: "unat ((of_nat n OR 0x80) AND 0x7f :: byte) = ?m"
      by (simp only: or_80_and_7f unat_and_7f unat_byte_of_nat) (simp add: mod_mod_cancel)
    have m: "2 ^ s * ?m \<le> 2 ^ s * n" by simp
    have pb: "push_bit s ?m = 2 ^ s * ?m" by (simp add: push_bit_eq_mult)
    have "2 ^ s * ?m < 2 ^ 64" using "1.prems"(3) m by (rule_tac le_less_trans [OF m]) simp
    then have small: "push_bit s ?m mod 18446744073709551616 = push_bit s ?m" by (simp add: pb)
    have n: "2 ^ s * n = 2 ^ s * ?m + 2 ^ (s + 7) * (n div 128)"
      by (simp add: power_add algebra_simps flip: distrib_left)
    have "2 ^ (s + 7) \<le> 2 ^ s * n" using False by (simp add: power_add)
    then have "(2 :: nat) ^ (s + 7) < 2 ^ 63" using "1.prems"(3) by linarith
    then have s: "s + 7 < 63" by (simp only: power_strict_increasing_iff)
    have "x + 2 ^ s * ?m < 2 ^ (s + 7)"
    proof -
      have "2 ^ s * ?m \<le> 2 ^ s * 127" by (intro mult_le_mono2) simp
      moreover have "(2 :: nat) ^ (s + 7) = 2 ^ s * 127 + 2 ^ s" by (simp add: power_add)
      ultimately show ?thesis using "1.prems"(1) by linarith
    qed
    from "1.IH" [OF _ this, of "Suc i"] False "1.prems" s n
    have "uvarint_loop (Suc i) (x + 2 ^ s * ?m) (s + 7) (uvarint_bytes (n div 128) @ rest)
        = (x + 2 ^ s * n, int (Suc i) + int (length (uvarint_bytes (n div 128))))"
      by simp
    moreover have "x OR push_bit s ?m = x + 2 ^ s * ?m"
      using or_push_bit [OF "1.prems"(1), of ?m] by (simp add: push_bit_eq_mult)
    ultimately show ?thesis
      using False by (subst (1 2) uvarint_bytes.simps) (simp add: lo small or_80_ge)
  qed
qed

lemma length_uvarint_bytes: "n < 2 ^ (7 * Suc k) \<Longrightarrow> length (uvarint_bytes n) \<le> Suc k"
proof (induction k arbitrary: n)
  case (Suc k)
  then have "n div 128 < 2 ^ (7 * Suc k)" by (simp add: less_mult_imp_div_less power_add)
  then show ?case using Suc.IH by (subst uvarint_bytes.simps) simp
qed (simp add: uvarint_bytes.simps)

lemma length_uvarint_bytes_large: "2 ^ (7 * k) \<le> n \<Longrightarrow> k < length (uvarint_bytes n)"
proof (induction k arbitrary: n)
  case (Suc k)
  have "(1 :: nat) \<le> 2 ^ (7 * k)" by simp
  moreover have "128 * 2 ^ (7 * k) \<le> n" using Suc.prems by (simp add: power_add)
  ultimately have "128 \<le> n" "2 ^ (7 * k) \<le> n div 128"
    by (linarith, simp add: less_eq_div_iff_mult_less_eq mult.commute)
  then show ?case using Suc.IH [of "n div 128"] by (subst uvarint_bytes.simps) simp
qed (simp add: uvarint_bytes.simps)

lemma Uvarint_PutUvarint:
  assumes "PutUvarint buf n = Inr b" "n < 2 ^ 63"
  shows "Uvarint b = (n, int (length (uvarint_bytes n)))"
  using assms uvarint_loop_bytes [of 0 0 0 n "drop (length (uvarint_bytes n)) buf"]
  by (simp add: PutUvarint_def Uvarint_def Let_def split: if_splits)


section \<open>Round trips of the messages\<close>

lemma ReadFull_append: "length b = n \<Longrightarrow> ReadFull n (b @ s) = Inr (b, s)"
  by (simp add: ReadFull_def)

lemma read_le_le_bytes [codec]: "x < 256 ^ k \<Longrightarrow> read_le k (le_bytes k x @ s) = Inr (x, s)"
  by (simp add: read_le_def ReadFull_append le_nat_le_bytes)

lemma read_le_word16 [codec]: "read_le 2 (le_bytes 2 (unat (w :: 16 word)) @ s) = Inr (unat w, s)"
  using unsigned_less [of w, where ?'a = nat] by (intro read_le_le_bytes) simp

lemma read_le_word32 [codec]: "read_le 4 (le_bytes 4 (unat (w :: 32 word)) @ s) = Inr (unat w, s)"
  using unsigned_less [of w, where ?'a = nat] by (intro read_le_le_bytes) simp

lemma read_le_word64 [codec]: "read_le 8 (le_bytes 8 (unat (w :: 64 word)) @ s) = Inr (unat w, s)"
  using unsigned_less [of w, where ?'a = nat] by (intro read_le_le_bytes) simp

lemma readBool_writeBool [codec]: "readBool (writeBool b @ s) = Inr (b, s)"
  unfolding readBool_def writeBool_def by (subst read_le_le_bytes) auto

definition slice_ok :: "bytes \<Rightarrow> bool" where
  "slice_ok b \<longleftrightarrow> length b < 2 ^ 28"

definition slice_bytes :: "bytes \<Rightarrow> bytes" where
  "slice_bytes b = (let enc = uvarint_bytes (length b) in enc @ replicate (4 - length enc) 0 @ b)"

lemma slice_ok_length: "slice_ok b \<Longrightarrow> length (uvarint_bytes (length b)) \<le> 4"
  using length_uvarint_bytes [of "length b" 3] by (simp add: slice_ok_def)

lemma writeSlice_ok: "slice_ok b \<Longrightarrow> writeSlice b = Inr (slice_bytes b)"
  by (simp add: writeSlice_def PutUvarint_def Let_def slice_bytes_def slice_ok_length)

lemma writeSlice_panics: "\<not> slice_ok b \<Longrightarrow> writeSlice b = Inl (Panic ''index out of range'')"
  using length_uvarint_bytes_large [of 4 "length b"]
  by (simp add: writeSlice_def PutUvarint_def Let_def slice_ok_def)

lemma uvarint_bytes_nonempty: "0 < length (uvarint_bytes n)"
  by (subst uvarint_bytes.simps) simp

lemma read_size_slice [codec]: "slice_ok b \<Longrightarrow> read_size (slice_bytes b @ s) = Inr (length b, b @ s)"
proof -
  assume ok: "slice_ok b"
  let ?e = "uvarint_bytes (length b)" and ?z = "replicate (4 - length (uvarint_bytes (length b))) (0 :: byte)"
  have "PutUvarint (replicate 4 0) (length b) = Inr (?e @ ?z)"
    using slice_ok_length [OF ok] by (simp add: PutUvarint_def Let_def)
  then have "Uvarint (?e @ ?z) = (length b, int (length ?e))"
    by (rule Uvarint_PutUvarint) (use ok in \<open>simp add: slice_ok_def\<close>)
  moreover have "ReadFull 4 (slice_bytes b @ s) = Inr (?e @ ?z, b @ s)"
    using slice_ok_length [OF ok] ReadFull_append [of "?e @ ?z" 4 "b @ s"]
    by (simp add: slice_bytes_def Let_def)
  ultimately show ?thesis using uvarint_bytes_nonempty [of "length b"] by (simp add: read_size_def)
qed

lemma ReadSlice_slice [codec]: "slice_ok b \<Longrightarrow> ReadSlice (slice_bytes b @ s) = Inr (b, s)"
  by (simp add: ReadSlice_def codec ReadFull_append)

interpretation int_msg: codec WriteInt ReadInt "\<lambda>_. True"
  by unfold_locales (simp add: WriteInt_def ReadInt_def codec)

interpretation slice_msg: codec slice_bytes ReadSlice slice_ok
  by unfold_locales (rule ReadSlice_slice)

interpretation request_type: codec RequestType_Write RequestType_Read "\<lambda>_. True"
  by unfold_locales (simp add: RequestType_Write_def RequestType_Read_def codec)

interpretation max_block: codec MaxBlockResponse_Write MaxBlockResponse_Read "\<lambda>_. True"
  by unfold_locales (simp add: MaxBlockResponse_Write_def MaxBlockResponse_Read_def codec)

interpretation get_bodies: codec GetBodiesRequest_Write GetBodiesRequest_Read "\<lambda>_. True"
  by unfold_locales (simp add: GetBodiesRequest_Write_def GetBodiesRequest_Read_def codec)

interpretation confirm_request: codec ConfirmRequest_Write ConfirmRequest_Read "\<lambda>_. True"
  by unfold_locales (simp add: ConfirmRequest_Write_def ConfirmRequest_Read_def codec)

end
