(* ===== verification/Network_Nodes.thy ===== *)
theory Network_Nodes
  imports Network_Protocol Block_Codec
begin

text \<open>
  The two sides of the connections between nodes: \<open>packages/network/tcpserver\<close> (the dispatcher
  \<open>HandleTCPRequest\<close> and the handlers of the request types) and \<open>packages/network/tcpclient\<close> (asking
  for blocks and confirmations, disseminating blocks and transactions). A handler gets the bytes
  that arrive on the connection and yields the bytes it writes, the writes it made to the
  database, and its result. The database queries, the keys and the ciphers are parameters.
\<close>

unbundle bit_operations_syntax

record QueueTx =
  qt_Hash :: bytes
  qt_Data :: bytes
  qt_FromGate :: int

datatype db_write =
    CreateQueueBlock bytes int64 int64
  | BatchInsert "QueueTx list"
  | DeleteQueueTxByHash bytes
  | CreateQueueTx QueueTx

text \<open>
  \<open>ne_exec\<close> is the outcome of a write; the other fields are queries: the ID of the info block if there
  is one, whether a node is known and banned, whether a block is queued, the three counts of a
  transaction hash, the hash of a block, the data of up to 1000 blocks up from or down to an ID,
  \<open>max_tx_size\<close>, the private key of the node, and \<open>processStopNetwork\<close>. \<open>ne_rsa\<close> stands for reading the
  PEM block, parsing the key and \<open>rsa.DecryptPKCS1v15\<close>, \<open>ne_decrypt\<close> for \<open>crypto.Decrypt\<close>.
\<close>

record node_env =
  ne_exec :: "db_write \<Rightarrow> unit res"
  ne_info :: "int64 option res"
  ne_banned :: "int64 \<Rightarrow> bool"
  ne_queue_block :: "bytes \<Rightarrow> bool res"
  ne_log_count :: "bytes \<Rightarrow> int res"
  ne_tx_count :: "bytes \<Rightarrow> int res"
  ne_queue_count :: "bytes \<Rightarrow> int res"
  ne_block_hash :: "int64 \<Rightarrow> bytes option res"
  ne_reverse_blocks :: "int64 \<Rightarrow> bytes list res"
  ne_blocks_from :: "int64 \<Rightarrow> bytes list res"
  ne_max_tx_size :: int64
  ne_sha256 :: "bytes \<Rightarrow> bytes"
  ne_private_key :: "string res"
  ne_rsa :: "string \<Rightarrow> bytes \<Rightarrow> bytes res"
  ne_decrypt :: "bytes \<Rightarrow> bytes \<Rightarrow> bytes \<Rightarrow> bytes res"
  ne_process_stop :: "bytes \<Rightarrow> bytes res"
  ne_paused :: bool

type_synonym 'a io = "bytes \<times> db_write list \<times> 'a res"

definition pure_io :: "'a res \<Rightarrow> 'a io" where
  "pure_io r = ([], [], r)"

definition write_io :: "bytes \<Rightarrow> unit io" where
  "write_io b = (b, [], Inr ())"

definition bind_io :: "'a io \<Rightarrow> ('a \<Rightarrow> 'b io) \<Rightarrow> 'b io" where
  "bind_io m f =
     (case m of
        (w, d, Inl e) \<Rightarrow> (w, d, Inl e)
      | (w, d, Inr x) \<Rightarrow> (case f x of (w', d', r) \<Rightarrow> (w @ w', d @ d', r)))"

definition exec_io :: "node_env \<Rightarrow> db_write \<Rightarrow> unit io" where
  "exec_io env q = (case ne_exec env q of Inl e \<Rightarrow> ([], [], Inl e) | Inr _ \<Rightarrow> ([], [q], Inr ()))"

lemma bind_io_simps [simp]:
  "bind_io (w, d, Inl e) f = (w, d, Inl e)"
  "bind_io (w, d, Inr x) f = (case f x of (w', d', r) \<Rightarrow> (w @ w', d @ d', r))"
  by (simp_all add: bind_io_def)

section \<open>The server: dissemination (type 1)\<close>

definition resieveTxBodies :: "bytes \<Rightarrow> bytes res" where
  "resieveTxBodies con =
     bind_res (ReadFull 4 con) (\<lambda>(sizeBuf, con).
       let size = BinToDec sizeBuf in
       if sint size < 0 then Inl (Panic ''makeslice: len out of range'')
       else bind_res (ReadFull (nat (sint size)) con) (\<lambda>(txBodies, _). Inr txBodies))"

definition processBlock :: "node_env \<Rightarrow> bytes \<Rightarrow> int64 \<Rightarrow> bytes io" where
  "processBlock env buf fullNodeID =
     bind_io (pure_io (ne_info env)) (\<lambda>info.
       case info of
         None \<Rightarrow> pure_io (Inl (Error ''can't find info block''))
       | Some infoBlockID \<Rightarrow>
           let (i, buf) = buf_Next 3 buf; newBlockID = BinToDec i; (blockHash, buf) = buf_Next HashSize buf in
           bind_io (pure_io (ne_queue_block env blockHash)) (\<lambda>found.
             if \<not> found \<and> sint newBlockID \<ge> sint infoBlockID then
               case exec_io env (CreateQueueBlock blockHash fullNodeID newBlockID) of
                 (w, d, Inl (Error _)) \<Rightarrow> (w, d, Inr buf)
               | (w, d, Inl e) \<Rightarrow> (w, d, Inl e)
               | (w, d, Inr _) \<Rightarrow> (w, d, Inr buf)
             else pure_io (Inr buf)))"

fun read_hashes_loop :: "nat \<Rightarrow> bytes \<Rightarrow> bytes list" where
  "read_hashes_loop 0 buf = []"
| "read_hashes_loop (Suc n) buf =
     (if buf = [] then [] else fst (buf_Next HashSize buf) # read_hashes_loop n (snd (buf_Next HashSize buf)))"

text \<open>The loop takes 32 bytes each time, so the length of the buffer is enough fuel.\<close>

definition readHashes :: "bytes \<Rightarrow> bytes list res" where
  "readHashes buf =
     (if length buf mod HashSize \<noteq> 0 then Inl (Error ''wrong transactions hashes size'')
      else Inr (read_hashes_loop (length buf) buf))"

fun unknown_hashes :: "node_env \<Rightarrow> bytes list \<Rightarrow> bytes res" where
  "unknown_hashes env [] = Inr []"
| "unknown_hashes env (h # hs) =
     bind_res (ne_log_count env h) (\<lambda>n. if n > 0 then unknown_hashes env hs else
     bind_res (ne_tx_count env h) (\<lambda>n. if n > 0 then unknown_hashes env hs else
     bind_res (ne_queue_count env h) (\<lambda>n. if n > 0 then unknown_hashes env hs else
     bind_res (unknown_hashes env hs) (\<lambda>needTx. Inr (h @ needTx)))))"

definition getUnknownTransactions :: "node_env \<Rightarrow> bytes \<Rightarrow> bytes res" where
  "getUnknownTransactions env buf = bind_res (readHashes buf) (unknown_hashes env)"

lemma unat_and_7f_Suc: "unat ((b AND 0x7F :: byte) + 1) = Suc (unat b mod 128)"
proof -
  have "unat ((b AND 0x7F :: byte) + 1) = (unat b mod 128 + 1) mod 256"
    by (simp only: unat_word_ariths unat_and_7f) simp
  also have "\<dots> = Suc (unat b mod 128)" by (simp add: less_Suc_eq_le)
  finally show ?thesis .
qed

lemma DecodeLength_shorter:
  assumes "DecodeLength buf = Inr (n, rest)" "buf \<noteq> []"
  shows "length rest < length buf"
proof (cases buf)
  case (Cons b t)
  then show ?thesis
    using assms unfolding DecodeLength_def Let_def
    by (auto simp only: list.case unat_and_7f_Suc split: if_splits) (auto simp: less_Suc_eq_le)
qed (use assms in simp)

lemma BytesShift_shorter: "BytesShift b n = Inr (x, rest) \<Longrightarrow> length rest \<le> length b"
  by (auto simp: BytesShift_def split: if_splits)

function (sequential) parse_tx_bodies :: "node_env \<Rightarrow> bytes \<Rightarrow> QueueTx list res" where
  "parse_tx_bodies env [] = Inr []"
| "parse_tx_bodies env (b # bs) =
     (case DecodeLength (b # bs) of
        Inl e \<Rightarrow> Inl e
      | Inr (txSize, rest) \<Rightarrow>
          if int (length rest) < sint txSize then Inl (Error ''bad transactions packet'')
          else case BytesShift rest txSize of
            Inl e \<Rightarrow> Inl e
          | Inr (txBinData, rest) \<Rightarrow>
              if txBinData = [] then Inl (Error ''len(txBinData) == 0'')
              else if int (length txBinData) > sint (ne_max_tx_size env)
              then Inl (Error ''len(txBinData) > max_tx_size'')
              else case RawTransaction_Unmarshall (ne_sha256 env) txBinData of
                Inl e \<Rightarrow> Inl e
              | Inr tx \<Rightarrow>
                  bind_res (parse_tx_bodies env rest) (\<lambda>queue.
                    Inr (\<lparr>qt_Hash = rtx_hash tx, qt_Data = txBinData, qt_FromGate = 1\<rparr> # queue)))"
  by pat_completeness auto
termination
  by (relation "measure (length \<circ> snd)")
    (auto dest!: DecodeLength_shorter BytesShift_shorter)

definition saveNewTransactions :: "node_env \<Rightarrow> bytes \<Rightarrow> unit io" where
  "saveNewTransactions env binaryTxs =
     bind_io (pure_io (parse_tx_bodies env binaryTxs)) (\<lambda>queue. exec_io env (BatchInsert queue))"

definition Type1 :: "node_env \<Rightarrow> bytes \<Rightarrow> unit io" where
  "Type1 env rw =
     bind_io (pure_io (DisRequest_Read rw)) (\<lambda>(r, rw).
       let (i, buf) = buf_Next 8 (dr_Data r); fullNodeID = BinToDec i in
       if ne_banned env fullNodeID then pure_io (Inr ())
       else let (t, buf) = buf_Next 1 buf; newDataType = BinToDec t in
         bind_io (if newDataType = 0 then processBlock env buf fullNodeID else pure_io (Inr buf)) (\<lambda>buf.
         bind_io (pure_io (getUnknownTransactions env buf)) (\<lambda>needTx.
         bind_io (pure_io (DisHashResponse_Write \<lparr>dh_Data = needTx\<rparr>)) (\<lambda>resp.
         bind_io (write_io resp) (\<lambda>_.
           if needTx = [] then pure_io (Inr ())
           else bind_io (pure_io (resieveTxBodies rw)) (saveNewTransactions env))))))"

section \<open>The server: transactions from users (type 2)\<close>

text \<open>
  \<open>DecryptData\<close> returns the decrypted data and what is left in the slice it was given. A length that
  cannot be decoded is logged with \<open>Fatal\<close>, which ends the process.
\<close>

definition DecryptData :: "node_env \<Rightarrow> bytes \<Rightarrow> (bytes \<times> bytes \<times> bytes \<times> bytes) res" where
  "DecryptData env binaryTx =
     (if binaryTx = [] then Inl (Error ''len(binaryTx) == 0'')
      else bind_res (BinToDecBytesShift binaryTx 5) (\<lambda>(_, binaryTx).
        case DecodeLength binaryTx of
          Inl _ \<Rightarrow> Inl (Exit ''Decoding binary tx length'')
        | Inr (len, binaryTx) \<Rightarrow>
            bind_res (BytesShift binaryTx len) (\<lambda>(encryptedKey, binaryTx).
            bind_res (BytesShift binaryTx 16) (\<lambda>(iv, binaryTx).
              if encryptedKey = [] then Inl (Error ''len(encryptedKey) == 0'')
              else if binaryTx = [] then Inl (Error ''len(*binaryTx) == 0'')
              else bind_res (ne_private_key env) (\<lambda>key.
                if key = [] then Inl (Error ''len(nodePrivateKey) == 0'')
                else bind_res (ne_rsa env key encryptedKey) (\<lambda>decKey.
                  if decKey = [] then Inl (Error ''len(decKey)'')
                  else bind_res (ne_decrypt env iv binaryTx decKey) (\<lambda>decrypted.
                    Inr (decKey, iv, decrypted, binaryTx))))))))"

datatype response =
    RDisTr
  | RConfirm ConfirmResponse
  | RMaxBlock MaxBlockResponse

definition Type2 :: "node_env \<Rightarrow> bytes \<Rightarrow> response io" where
  "Type2 env rw =
     bind_io (pure_io (DisRequest_Read rw)) (\<lambda>(r, _).
     bind_io (pure_io (DecryptData env (dr_Data r))) (\<lambda>(_, _, decryptedBinData, binaryData).
       if int (length binaryData) > sint (ne_max_tx_size env)
       then pure_io (Inl (Error ''len(txBinData) > max_tx_size''))
       else if length binaryData < 5 then pure_io (Inl (Error ''len(binaryData) < 5''))
       else
         bind_io (pure_io (RawTransaction_Unmarshall (ne_sha256 env) decryptedBinData)) (\<lambda>tx.
         bind_io (exec_io env (DeleteQueueTxByHash (rtx_hash tx))) (\<lambda>_.
         bind_io (exec_io env (CreateQueueTx
           \<lparr>qt_Hash = rtx_hash tx, qt_Data = decryptedBinData, qt_FromGate = 0\<rparr>)) (\<lambda>_.
           pure_io (Inr RDisTr))))))"

section \<open>The server: the other requests\<close>

definition Type3 :: "node_env \<Rightarrow> StopNetworkRequest \<Rightarrow> unit io" where
  "Type3 env req =
     bind_io (pure_io (ne_process_stop env (sr_Data req))) (\<lambda>hash.
     bind_io (pure_io (StopNetworkResponse_Write \<lparr>sp_Hash = hash\<rparr>)) write_io)"

definition Type4 :: "node_env \<Rightarrow> ConfirmRequest \<Rightarrow> response" where
  "Type4 env r =
     RConfirm (case ne_block_hash env (ucast (cr_BlockID r)) of
         Inr (Some hash) \<Rightarrow> \<lparr>cp_Hash = hash\<rparr>
       | _ \<Rightarrow> \<lparr>cp_Hash = replicate 32 0\<rparr>)"

definition lenOfBlockData :: "bytes list \<Rightarrow> int64" where
  "lenOfBlockData blocks = foldl (\<lambda>l d. l + of_nat (length d)) 0 blocks"

fun write_bodies :: "bytes list \<Rightarrow> unit io" where
  "write_bodies [] = pure_io (Inr ())"
| "write_bodies (d # ds) =
     bind_io (pure_io (GetBodyResponse_Write \<lparr>gr_Data = d\<rparr>)) (\<lambda>b.
     bind_io (write_io b) (\<lambda>_. write_bodies ds))"

definition Type7 :: "node_env \<Rightarrow> GetBodiesRequest \<Rightarrow> unit io" where
  "Type7 env request =
     (case (if gb_ReverseOrder request then ne_reverse_blocks env (ucast (gb_BlockID request))
            else ne_blocks_from env (ucast (gb_BlockID request - 1))) of
        Inl e \<Rightarrow> bind_io (write_io (WriteInt 0)) (\<lambda>_. pure_io (Inl e))
      | Inr blocks \<Rightarrow>
          bind_io (write_io (WriteInt (of_nat (length blocks)))) (\<lambda>_.
          bind_io (write_io (WriteInt (lenOfBlockData blocks))) (\<lambda>_.
          write_bodies blocks)))"

definition Type10 :: "node_env \<Rightarrow> response res" where
  "Type10 env =
     bind_res (ne_info env) (\<lambda>info.
       Inr (RMaxBlock \<lparr>mb_BlockID = (case info of Some i \<Rightarrow> i | None \<Rightarrow> 0)\<rparr>))"

section \<open>The dispatcher\<close>

text \<open>
  The type assertion \<open>response.(network.SelfReaderWriter)\<close> panics on \<open>*DisTrResponse\<close>, which has
  neither \<open>Read\<close> nor \<open>Write\<close>. \<open>HandleTCPRequest\<close> logs errors and returns; nothing recovers a panic of
  its goroutine.
\<close>

definition write_response :: "response \<Rightarrow> unit io" where
  "write_response r =
     (case r of
        RDisTr \<Rightarrow> pure_io (Inl (Panic ''interface conversion: missing method Read''))
      | RConfirm c \<Rightarrow> write_io (ConfirmResponse_Write c)
      | RMaxBlock m \<Rightarrow> write_io (MaxBlockResponse_Write m))"

definition no_response :: "unit io \<Rightarrow> response option io" where
  "no_response m = bind_io m (\<lambda>_. pure_io (Inr None))"

definition some_response :: "response io \<Rightarrow> response option io" where
  "some_response m = bind_io m (\<lambda>r. pure_io (Inr (Some r)))"

definition dispatch :: "node_env \<Rightarrow> 16 word \<Rightarrow> bytes \<Rightarrow> response option io" where
  "dispatch env ty rw =
     (if ty = 1 then
        if ne_paused env then pure_io (Inr None) else no_response (Type1 env rw)
      else if ty = 2 then
        if ne_paused env then pure_io (Inr None) else some_response (Type2 env rw)
      else if ty = 3 then
        no_response (bind_io (pure_io (StopNetworkRequest_Read rw)) (\<lambda>(req, _). Type3 env req))
      else if ty = 4 then
        if ne_paused env then pure_io (Inr None)
        else some_response (bind_io (pure_io (ConfirmRequest_Read rw)) (\<lambda>(req, _). pure_io (Inr (Type4 env req))))
      else if ty = 7 then
        no_response (bind_io (pure_io (GetBodiesRequest_Read rw)) (\<lambda>(req, _). Type7 env req))
      else if ty = 10 then some_response (pure_io (Type10 env))
      else pure_io (Inr None))"

definition drop_error :: "unit io \<Rightarrow> unit io" where
  "drop_error m = (case m of (w, d, Inl (Error _)) \<Rightarrow> (w, d, Inr ()) | _ \<Rightarrow> m)"

text \<open>\<open>counter\<close> is the number of requests that are being served when this one arrives.\<close>

definition HandleTCPRequest :: "node_env \<Rightarrow> int64 \<Rightarrow> bytes \<Rightarrow> unit io" where
  "HandleTCPRequest env counter rw =
     (if sint (counter + 1) > 20 then pure_io (Inr ())
      else drop_error
        (bind_io (pure_io (RequestType_Read rw)) (\<lambda>(dType, rw).
         bind_io (dispatch env (rt_Type dType) rw) (\<lambda>response.
           case response of None \<Rightarrow> pure_io (Inr ()) | Some r \<Rightarrow> write_response r))))"

end
