(* ===== verification/Network_Client.thy ===== *)
theory Network_Client
  imports Network_Nodes
begin

text \<open>
  \<open>packages/network/tcpclient\<close>: asking another node for blocks, for its last block and for the
  confirmation of a block, and disseminating blocks and transactions. A peer maps the bytes the
  client has written so far to all bytes the peer sends in answer; a connection that cannot be
  opened is an error. The theorems connect the client with the handlers of \<open>Network_Nodes\<close>.
\<close>

unbundle bit_operations_syntax

type_synonym peer = "bytes \<Rightarrow> bytes"

text \<open>
  \<open>split_err\<close> is the error of \<open>net.SplitHostPort\<close>, if any, and \<open>dial\<close> is \<open>net.DialTimeout\<close>.
\<close>

definition has_suffix :: "string \<Rightarrow> string \<Rightarrow> bool" where
  "has_suffix s suf \<longleftrightarrow> length suf \<le> length s \<and> drop (length s - length suf) s = suf"

definition NormalizeHostAddress :: "(string \<Rightarrow> string option) \<Rightarrow> string \<Rightarrow> int64 \<Rightarrow> string res" where
  "NormalizeHostAddress split_err address defaultPort =
     (case split_err address of
        Some err \<Rightarrow>
          if has_suffix err ''missing port in address''
          then Inr (address @ '':'' @ show_int (sint defaultPort)) else Inl (Error err)
      | None \<Rightarrow> Inr address)"

definition DEFAULT_TCP_PORT :: int64 where "DEFAULT_TCP_PORT = 7078"

record net_env =
  net_split_err :: "string \<Rightarrow> string option"
  net_dial :: "string \<Rightarrow> peer res"

definition newConnection :: "net_env \<Rightarrow> string \<Rightarrow> peer res" where
  "newConnection net addr =
     (if addr = [] then Inl (Error ''Wrong address'')
      else bind_res (NormalizeHostAddress (net_split_err net) addr DEFAULT_TCP_PORT) (net_dial net))"

section \<open>Buffers\<close>

text \<open>
  \<open>powerOfTwo\<close> works on a 64-bit \<open>int\<close>, whose \<open>>>\<close> keeps the sign. A pool of a size is the list of
  the buffers that were put back; \<open>sync.Pool\<close> hands out any of them or a new one.
\<close>

definition powerOfTwo :: "int64 \<Rightarrow> int64" where
  "powerOfTwo v =
     (let v = v - 1;
          v = v OR signed_drop_bit 1 v;
          v = v OR signed_drop_bit 2 v;
          v = v OR signed_drop_bit 4 v;
          v = v OR signed_drop_bit 8 v;
          v = v OR signed_drop_bit 16 v
      in v + 1)"

type_synonym bytePool = "int64 \<Rightarrow> bytes list option"

text \<open>
  \<open>pick\<close> is the choice of \<open>sync.Pool\<close>: the index of a stored buffer, or anything larger for a new
  buffer.
\<close>

definition pool_Get :: "nat \<Rightarrow> bytePool \<Rightarrow> int64 \<Rightarrow> (bytes \<times> bytePool) res" where
  "pool_Get pick p sz =
     (let power = powerOfTwo sz; stored = (case p power of Some l \<Rightarrow> l | None \<Rightarrow> []) in
      if pick < length stored
      then Inr (stored ! pick, p(power \<mapsto> take pick stored @ drop (Suc pick) stored))
      else if sint power < 0 then Inl (Panic ''makeslice: len out of range'')
      else Inr (replicate (nat (sint power)) 0, p(power \<mapsto> stored)))"

definition pool_Put :: "bytePool \<Rightarrow> bytes \<Rightarrow> bytePool" where
  "pool_Put p buf =
     (if buf = [] then p
      else case p (of_nat (length buf)) of
        Some l \<Rightarrow> p(of_nat (length buf) \<mapsto> buf # l)
      | None \<Rightarrow> p)"

section \<open>Collecting blocks\<close>

text \<open>
  The goroutine of \<open>GetBlockBodiesChan\<close>: the bodies it sends to the channel and how it ends. A body
  is the part of \<open>bodyBuf\<close> it was read into, and slicing past the end of that buffer panics.
\<close>

fun bodies_loop :: "nat \<Rightarrow> bytes \<Rightarrow> int64 \<Rightarrow> bytes \<Rightarrow> bytes list \<times> unit res" where
  "bodies_loop 0 bodyBuf start src = ([], Inr ())"
| "bodies_loop (Suc n) bodyBuf start src =
     (case ReadFull 4 src of
        Inl e \<Rightarrow> ([], Inl e)
      | Inr (sizeBuf, src) \<Rightarrow>
          let (sz, intErr) = Uvarint sizeBuf in
          if intErr < 0 then ([], Inl (Error ''wrong size bytes''))
          else let stop = start + of_nat sz in
            if sint stop < sint start \<or> int (length bodyBuf) < sint stop
            then ([], Inl (Panic ''slice bounds out of range''))
            else case ReadFull (nat (sint stop - sint start)) src of
              Inl e \<Rightarrow> ([], Inl e)
            | Inr (body, src) \<Rightarrow>
                case bodies_loop n bodyBuf stop src of (bs, r) \<Rightarrow> (body # bs, r))"

definition GetBlockBodiesChan ::
    "nat \<Rightarrow> bytePool \<Rightarrow> bytes \<Rightarrow> int64 \<Rightarrow> bytes list \<times> unit res" where
  "GetBlockBodiesChan pick pool src blocksCount =
     (if sint blocksCount < 0 then ([], Inl (Panic ''makechan: size out of range''))
      else case ReadInt src of
        Inl e \<Rightarrow> ([], Inl e)
      | Inr (dataSize, src) \<Rightarrow>
          case pool_Get pick pool dataSize of
            Inl e \<Rightarrow> ([], Inl e)
          | Inr (bodyBuf, _) \<Rightarrow> bodies_loop (nat (sint blocksCount)) bodyBuf 0 src)"

text \<open>\<open>None\<close> is the nil channel that stands for a host without the block.\<close>

definition GetBlocksBodies ::
    "net_env \<Rightarrow> nat \<Rightarrow> bytePool \<Rightarrow> string \<Rightarrow> int64 \<Rightarrow> bool \<Rightarrow> (bytes list \<times> unit res) option res" where
  "GetBlocksBodies net pick pool host blockID reverseOrder =
     bind_res (newConnection net host) (\<lambda>conn.
       let sent = RequestType_Write \<lparr>rt_Type = 7\<rparr>
                  @ GetBodiesRequest_Write \<lparr>gb_BlockID = ucast blockID, gb_ReverseOrder = reverseOrder\<rparr>
       in bind_res (ReadInt (conn sent)) (\<lambda>(blocksCount, src).
            if blocksCount = 0 then Inr None
            else Inr (Some (GetBlockBodiesChan pick pool src blocksCount))))"

section \<open>Confirmations and the last block\<close>

definition CheckConfirmation :: "net_env \<Rightarrow> string \<Rightarrow> int64 \<Rightarrow> string" where
  "CheckConfirmation net host blockID =
     (case newConnection net host of
        Inl _ \<Rightarrow> ''0''
      | Inr conn \<Rightarrow>
          case ConfirmResponse_Read (conn (RequestType_Write \<lparr>rt_Type = 4\<rparr>
                 @ ConfirmRequest_Write \<lparr>cr_BlockID = ucast blockID\<rparr>)) of
            Inl _ \<Rightarrow> ''0''
          | Inr (resp, _) \<Rightarrow> string_of_bytes (BinToHex (cp_Hash resp)))"

definition getMaxBlock :: "net_env \<Rightarrow> string \<Rightarrow> int64 res" where
  "getMaxBlock net host =
     bind_res (newConnection net host) (\<lambda>con.
     bind_res (MaxBlockResponse_Read (con (RequestType_Write \<lparr>rt_Type = 10\<rparr>))) (\<lambda>(resp, _).
       Inr (mb_BlockID resp)))"

text \<open>
  \<open>results\<close> are the answers in the order in which they arrive on the channel. The loop keeps the
  best host, its block and the number of errors.
\<close>

fun best_loop :: "(string \<times> int64 res) list \<Rightarrow> string \<Rightarrow> int64 \<Rightarrow> nat \<Rightarrow> string \<times> int64 \<times> nat" where
  "best_loop [] bestHost maxBlockID errCount = (bestHost, maxBlockID, errCount)"
| "best_loop ((host, r) # results) bestHost maxBlockID errCount =
     (case r of
        Inl _ \<Rightarrow> best_loop results bestHost maxBlockID (Suc errCount)
      | Inr blockID \<Rightarrow>
          if sint blockID > sint maxBlockID then best_loop results host blockID errCount
          else best_loop results bestHost maxBlockID errCount)"

definition hostWithMaxBlock :: "(string \<times> int64 res) list \<Rightarrow> (string \<times> int64) res" where
  "hostWithMaxBlock results =
     (let (bestHost, maxBlockID, errCount) = best_loop results [] (- 1) 0 in
      if errCount = length results then Inl (Error ''All nodes unvailabale'')
      else Inr (bestHost, maxBlockID))"

definition HostWithMaxBlock :: "net_env \<Rightarrow> string list \<Rightarrow> (string \<times> int64) res" where
  "HostWithMaxBlock net hosts =
     (if hosts = [] then Inr ([], - 1)
      else hostWithMaxBlock (map (\<lambda>h. (h, getMaxBlock net h)) hosts))"

definition SendStopNetwork :: "net_env \<Rightarrow> string \<Rightarrow> StopNetworkRequest \<Rightarrow> unit res" where
  "SendStopNetwork net addr req =
     bind_res (newConnection net addr) (\<lambda>conn.
     bind_res (StopNetworkRequest_Write req) (\<lambda>b.
     bind_res (StopNetworkResponse_Read (conn (RequestType_Write \<lparr>rt_Type = 3\<rparr> @ b))) (\<lambda>(r, _).
       if length (sp_Hash r) \<noteq> HashSize then Inl (Error ''Not accepted'') else Inr ())))"

section \<open>Dissemination\<close>

record model_tx =
  mt_Hash :: bytes
  mt_Data :: bytes

record InfoBlock =
  ib_BlockID :: int64
  ib_Hash :: bytes

definition InfoBlock_Marshall :: "InfoBlock option \<Rightarrow> bytes" where
  "InfoBlock_Marshall ib = (case ib of Some b \<Rightarrow> DecToBin (ib_BlockID b) 3 @ ib_Hash b | None \<Rightarrow> [])"

definition prepareTxPacket :: "model_tx list \<Rightarrow> bytes" where
  "prepareTxPacket txes = concat (map mt_Data txes)"

definition prepareFullBlockRequest :: "InfoBlock option \<Rightarrow> model_tx list \<Rightarrow> int64 \<Rightarrow> bytes" where
  "prepareFullBlockRequest block trs nodeID =
     (let noBlockFlag = (if block = None then 1 else 0 :: byte) in
      DecToBin nodeID 8 @ [noBlockFlag]
      @ (if noBlockFlag = 0 then InfoBlock_Marshall block else [])
      @ concat (map mt_Hash trs))"

definition sendDisseminatorRequest :: "int \<Rightarrow> bytes \<Rightarrow> bytes res" where
  "sendDisseminatorRequest requestType packet =
     bind_res (DisRequest_Write \<lparr>dr_Data = packet\<rparr>) (\<lambda>b.
       Inr (RequestType_Write \<lparr>rt_Type = word_of_int requestType\<rparr> @ b))"

definition resieveRequiredTransactions :: "int64 \<Rightarrow> bytes \<Rightarrow> bytes res" where
  "resieveRequiredTransactions maxTxSize con =
     (case DisHashResponse_Read (unat maxTxSize) con of
        Inl (Error e) \<Rightarrow> if e = ''Size greater than max size'' then Inr [] else Inl (Error e)
      | Inl e \<Rightarrow> Inl e
      | Inr (needTxResp, _) \<Rightarrow> Inr (dh_Data needTxResp))"

function parseTxHashesFromResponse :: "bytes \<Rightarrow> bytes list" where
  "parseTxHashesFromResponse resp =
     (if length resp \<ge> HashSize
      then take HashSize resp # parseTxHashesFromResponse (drop HashSize resp) else [])"
  by auto
termination by (relation "measure length") (simp_all add: HashSize_def)

declare parseTxHashesFromResponse.simps [simp del]

definition tx_data_map :: "model_tx list \<Rightarrow> bytes \<Rightarrow> bytes option" where
  "tx_data_map txes = foldl (\<lambda>m tx. m(mt_Hash tx \<mapsto> mt_Data tx)) Map.empty txes"

definition requested_bodies :: "model_tx list \<Rightarrow> bytes \<Rightarrow> bytes" where
  "requested_bodies txes response =
     concat (map (\<lambda>h. case tx_data_map txes h of
                        Some d \<Rightarrow> if d \<noteq> [] then EncodeLengthPlusData d else []
                      | None \<Rightarrow> [])
       (parseTxHashesFromResponse response))"

text \<open>What one goroutine of \<open>SendFullBlockToAll\<close> writes to its peer in all.\<close>

definition send_full_block :: "int64 \<Rightarrow> model_tx list \<Rightarrow> bytes \<Rightarrow> peer \<Rightarrow> bytes res" where
  "send_full_block maxTxSize txes req conn =
     bind_res (sendDisseminatorRequest 1 req) (\<lambda>sent.
     bind_res (resieveRequiredTransactions maxTxSize (conn sent)) (\<lambda>response.
       if length response < HashSize then Inr sent
       else let buf = requested_bodies txes response
            in Inr (sent @ DecToBin (of_nat (length buf)) 4 @ buf)))"

text \<open>
  The goroutines count their errors; one that panics takes the process down. The context is not
  cancelled.
\<close>

definition is_error :: "'a res \<Rightarrow> bool" where
  "is_error r = (case r of Inl (Error _) \<Rightarrow> True | _ \<Rightarrow> False)"

definition await_all :: "'a res list \<Rightarrow> unit res" where
  "await_all outcomes =
     (case filter (\<lambda>r. isl r \<and> \<not> is_error r) outcomes of
        Inl p # _ \<Rightarrow> Inl p
      | _ \<Rightarrow> if list_all is_error outcomes then Inl (Error ''All nodes unvailabale'') else Inr ())"

definition SendFullBlockToAll ::
    "net_env \<Rightarrow> int64 \<Rightarrow> string list \<Rightarrow> InfoBlock option \<Rightarrow> model_tx list \<Rightarrow> int64 \<Rightarrow> unit res" where
  "SendFullBlockToAll net maxTxSize hosts block txes nodeID =
     (if hosts = [] then Inr ()
      else
        let req = prepareFullBlockRequest block txes nodeID
        in await_all (map (\<lambda>h. bind_res (newConnection net h) (send_full_block maxTxSize txes req)) hosts))"

definition sendRawTransacitionsToHost :: "net_env \<Rightarrow> string \<Rightarrow> bytes \<Rightarrow> bytes res" where
  "sendRawTransacitionsToHost net host packet =
     bind_res (newConnection net host) (\<lambda>_. sendDisseminatorRequest 2 packet)"

definition SendTransacitionsToAll :: "net_env \<Rightarrow> string list \<Rightarrow> model_tx list \<Rightarrow> unit res" where
  "SendTransacitionsToAll net hosts txes =
     (if hosts = [] \<or> txes = [] then Inr ()
      else
        let packet = prepareTxPacket txes
        in await_all (map (\<lambda>h. sendRawTransacitionsToHost net h packet) hosts))"

section \<open>Buffers are large enough\<close>

definition smear :: "nat \<Rightarrow> int64 \<Rightarrow> int64" where
  "smear n v = v OR signed_drop_bit n v"

lemma powerOfTwo_smear: "powerOfTwo v = smear 16 (smear 8 (smear 4 (smear 2 (smear 1 (v - 1))))) + 1"
  by (simp only: powerOfTwo_def smear_def Let_def)

lemma ex_split: "(\<exists>i<n + n :: nat. P (j + i)) \<longleftrightarrow> (\<exists>i<n. P (j + i)) \<or> (\<exists>i<n. P (n + j + i))"
proof
  assume "\<exists>i<n + n. P (j + i)"
  then obtain i where i: "i < n + n" "P (j + i)" by blast
  show "(\<exists>i<n. P (j + i)) \<or> (\<exists>i<n. P (n + j + i))"
  proof (cases "i < n")
    case False
    then have "n + j + (i - n) = j + i" "i - n < n" using i by simp_all
    then show ?thesis using i by metis
  qed (use i in blast)
next
  assume "(\<exists>i<n. P (j + i)) \<or> (\<exists>i<n. P (n + j + i))"
  then obtain i where "i < n" "P (j + i) \<or> P (n + j + i)" by blast
  moreover have "n + j + i = j + (n + i)" by simp
  ultimately show "\<exists>i<n + n. P (j + i)" by (metis add_less_cancel_left trans_less_add1)
qed

text \<open>Smearing \<open>2n\<close> positions out of \<open>n\<close>: the highest set bit is copied to all below it.\<close>

lemma bit_smear:
  assumes "\<And>j. bit (w :: int64) j \<longleftrightarrow> (\<exists>i<n. bit (v :: int64) (j + i))" "\<And>j. 32 \<le> j \<Longrightarrow> \<not> bit v j" "n \<le> 16"
  shows "bit (smear n w) j \<longleftrightarrow> (\<exists>i<n + n. bit v (j + i))"
proof -
  have "\<not> bit w 63" using assms by (auto simp: assms(1))
  then have "bit (signed_drop_bit n w) j \<longleftrightarrow> bit w (n + j)"
    using assms(2) by (auto simp: bit_signed_drop_bit_iff assms(1) not_le)
  then show ?thesis
    unfolding ex_split by (simp add: smear_def bit_or_iff assms(1) ac_simps)
qed

lemma nat_bits_bounds:
  fixes m :: nat
  assumes "0 < m"
  obtains k where "2 ^ k \<le> m" "m < 2 ^ Suc k" "bit m k" "\<forall>j>k. \<not> bit m j"
proof -
  from assms obtain k where k: "2 ^ k \<le> m" "m < 2 ^ (k + 1)" using ex_power_ivl1 [of 2 m] by auto
  have "m div 2 ^ k = 1" using k by (simp add: div_nat_eqI)
  then have "bit m k" by (simp add: bit_iff_odd)
  moreover have "\<not> bit m j" if "k < j" for j
  proof -
    have "(2 :: nat) ^ (k + 1) \<le> 2 ^ j" using that by (intro power_increasing) auto
    then have "m < 2 ^ j" using k by linarith
    then show ?thesis by (simp add: bit_iff_odd)
  qed
  ultimately show thesis using k that by simp
qed

lemma powerOfTwo_mask:
  assumes "1 < sint v" "sint v \<le> 2 ^ 32"
  shows "\<exists>k<32. 2 ^ k \<le> sint v - 1 \<and> sint v - 1 < 2 ^ Suc k \<and> sint (powerOfTwo v) = 2 ^ Suc k"
proof -
  define n where "n = v - 1"
  define m where "m = unat n"
  have "n = i64 (sint v - 1)" by (simp add: n_def)
  then have "uint n = (sint v - 1) mod 2 ^ 64" by (simp only: uint_word_of_int) simp
  also have "\<dots> = sint v - 1" using assms by (intro mod_pos_pos_trivial) simp_all
  finally have "uint n = sint v - 1" .
  then have m: "int m = sint v - 1" by (simp add: m_def)
  then have "0 < int m" "int m < 2 ^ 32" using assms by linarith+
  then have "0 < m" "m < 2 ^ 32" by simp_all
  from \<open>0 < m\<close> obtain k where k: "2 ^ k \<le> m" "m < 2 ^ Suc k" "bit m k" "\<forall>j>k. \<not> bit m j"
    by (rule nat_bits_bounds)
  have "(2 :: nat) ^ k < 2 ^ 32" using k \<open>m < 2 ^ 32\<close> by linarith
  then have k32: "k < 32" by (simp only: power_strict_increasing_iff)
  have bits: "bit n j \<longleftrightarrow> bit m j" for j
    using bit_imp_le_length [of n j] k(4) k32 by (auto simp: m_def bit_unsigned_iff)
  have high: "\<not> bit n j" if "32 \<le> j" for j using that k32 k(4) by (simp add: bits)
  note sm = bit_smear [OF _ high]
  have "bit n j \<longleftrightarrow> (\<exists>i<1. bit n (j + i))" for j by simp
  then have "bit (smear 1 n) j \<longleftrightarrow> (\<exists>i<2. bit n (j + i))" for j
    using sm [of n 1 j] by (simp add: numeral_2_eq_2)
  then have "bit (smear 2 (smear 1 n)) j \<longleftrightarrow> (\<exists>i<4. bit n (j + i))" for j
    using sm [of "smear 1 n" 2 j] by simp
  then have "bit (smear 4 (smear 2 (smear 1 n))) j \<longleftrightarrow> (\<exists>i<8. bit n (j + i))" for j
    using sm [of "smear 2 (smear 1 n)" 4 j] by simp
  then have "bit (smear 8 (smear 4 (smear 2 (smear 1 n)))) j \<longleftrightarrow> (\<exists>i<16. bit n (j + i))" for j
    using sm [of "smear 4 (smear 2 (smear 1 n))" 8 j] by simp
  then have all: "bit (smear 16 (smear 8 (smear 4 (smear 2 (smear 1 n))))) j \<longleftrightarrow> (\<exists>i<32. bit n (j + i))" for j
    using sm [of "smear 8 (smear 4 (smear 2 (smear 1 n)))" 16 j] by simp
  have "(\<exists>i<32. bit n (j + i)) \<longleftrightarrow> j \<le> k" for j
  proof
    assume "j \<le> k"
    then show "\<exists>i<32. bit n (j + i)" using k(3) k32 by (intro exI [of _ "k - j"]) (simp add: bits)
  next
    assume "\<exists>i<32. bit n (j + i)"
    then obtain i where "bit m (j + i)" by (auto simp: bits)
    then have "\<not> k < j + i" using k(4) by blast
    then show "j \<le> k" by simp
  qed
  then have "smear 16 (smear 8 (smear 4 (smear 2 (smear 1 n)))) = mask (Suc k)"
    by (intro bit_word_eqI) (simp add: all bit_mask_iff less_Suc_eq_le del: One_nat_def)
  then have "powerOfTwo v = mask (Suc k) + 1" by (simp only: powerOfTwo_smear n_def)
  also have "\<dots> = 2 ^ Suc k" by (simp add: mask_eq_exp_minus_1)
  finally have p: "powerOfTwo v = i64 (2 ^ Suc k)" by simp
  have "(2 :: int) ^ Suc k \<le> 2 ^ 32" using k32 by (intro power_increasing) auto
  then have "2 ^ Suc k \<le> max_int64" by (rule order_trans) (simp add: max_int64_def)
  moreover have "min_int64 \<le> 2 ^ Suc k" by (rule order_trans [of _ 0]) (simp_all add: min_int64_def)
  ultimately have "sint (powerOfTwo v) = 2 ^ Suc k" unfolding p by (intro sint_i64)
  moreover have "2 ^ k \<le> sint v - 1" "sint v - 1 < 2 ^ Suc k"
    using k(1,2) unfolding m [symmetric] by (metis of_nat_le_iff of_nat_numeral of_nat_power,
      metis of_nat_less_iff of_nat_numeral of_nat_power)
  ultimately show ?thesis using k32 by blast
qed

lemma powerOfTwo_0: "powerOfTwo 0 = 0"
  by code_simp

lemma powerOfTwo_1: "powerOfTwo 1 = 1"
  by code_simp

lemma sint_eqD: "sint v = x \<Longrightarrow> v = i64 x"
  by (drule sym) simp

lemma powerOfTwo_bound:
  assumes "0 \<le> sint v" "sint v \<le> 2 ^ 32"
  shows "sint v \<le> sint (powerOfTwo v) \<and> sint (powerOfTwo v) \<le> 2 ^ 32"
proof -
  consider "sint v = 0" | "sint v = 1" | "1 < sint v" using assms(1) by linarith
  then show ?thesis
  proof cases
    case 3
    then obtain k where k: "k < 32" "sint v - 1 < 2 ^ Suc k" "sint (powerOfTwo v) = 2 ^ Suc k"
      using powerOfTwo_mask assms by blast
    have "(2 :: int) ^ Suc k \<le> 2 ^ 32" using k(1) by (intro power_increasing) auto
    then show ?thesis using k by simp
  qed (auto dest!: sint_eqD simp: powerOfTwo_0 powerOfTwo_1)
qed

text \<open>
  For every size from 1 to \<open>2^32\<close> bytes \<open>powerOfTwo\<close> returns the least power of two that is not
  smaller.
\<close>

theorem powerOfTwo_least:
  assumes "0 < sint v" "sint v \<le> 2 ^ 32"
  shows "\<exists>k. sint (powerOfTwo v) = 2 ^ k \<and> sint v \<le> 2 ^ k \<and> (\<forall>j. sint v \<le> 2 ^ j \<longrightarrow> k \<le> j)"
proof (cases "sint v = 1")
  case True
  then have "v = 1" using sint_eqD by fastforce
  then show ?thesis by (intro exI [of _ 0]) (simp add: powerOfTwo_1)
next
  case False
  then obtain k where k: "2 ^ k \<le> sint v - 1" "sint v - 1 < 2 ^ Suc k" "sint (powerOfTwo v) = 2 ^ Suc k"
    using powerOfTwo_mask [of v] assms by auto
  have "Suc k \<le> j" if "sint v \<le> 2 ^ j" for j
  proof -
    have "(2 :: int) ^ k < 2 ^ j" using that k(1) by linarith
    then show ?thesis by (simp add: Suc_le_eq)
  qed
  then show ?thesis using k by (intro exI [of _ "Suc k"]) auto
qed

theorem powerOfTwo_least_witness:
  "\<exists>k. sint (powerOfTwo 1000) = 2 ^ k \<and> (1000 :: int) \<le> 2 ^ k \<and> (\<forall>j. (1000 :: int) \<le> 2 ^ j \<longrightarrow> k \<le> j)"
  using powerOfTwo_least [of 1000] by simp

definition pool_ok :: "bytePool \<Rightarrow> bool" where
  "pool_ok p \<longleftrightarrow> (\<forall>k l b. p k = Some l \<longrightarrow> b \<in> set l \<longrightarrow> int (length b) = sint k)"

lemma pool_ok_empty: "pool_ok Map.empty"
  by (simp add: pool_ok_def)

lemma pool_Get_length:
  assumes "pool_ok p" "pool_Get pick p sz = Inr (b, p')"
  shows "int (length b) = sint (powerOfTwo sz) \<and> pool_ok p'"
  using assms unfolding pool_Get_def pool_ok_def Let_def
  by (auto split: if_splits option.splits dest!: in_set_takeD in_set_dropD)

lemma pool_Get_ok: "0 \<le> sint (powerOfTwo sz) \<Longrightarrow> \<exists>b p'. pool_Get pick p sz = Inr (b, p')"
  by (simp add: pool_Get_def Let_def)

lemma pool_Put_ok:
  assumes "pool_ok p" "length b < 2 ^ 63"
  shows "pool_ok (pool_Put p b)"
proof -
  have "sint (of_nat (length b) :: int64) = int (length b)"
    using assms(2) wrap64_nonneg [of "int (length b)"] by (simp add: wrap64_def)
  then show ?thesis using assms(1) unfolding pool_Put_def pool_ok_def
    by (auto split: option.splits) (metis of_nat_eq_iff)
qed

section \<open>Collecting blocks end to end\<close>

definition total_length :: "bytes list \<Rightarrow> nat" where
  "total_length ds = sum_list (map length ds)"

lemma foldl_lengths: "foldl (\<lambda>l d. l + of_nat (length d)) a ds = (a + of_nat (total_length ds) :: int64)"
  by (induction ds arbitrary: a) (simp_all add: total_length_def ac_simps)

lemma lenOfBlockData_total: "lenOfBlockData ds = of_nat (total_length ds)"
  by (simp add: lenOfBlockData_def foldl_lengths)

lemma write_bodies_ok:
  "list_all slice_ok ds \<Longrightarrow> write_bodies ds = (concat (map slice_bytes ds), [], Inr ())"
  by (induction ds)
    (simp_all add: pure_io_def write_io_def GetBodyResponse_Write_def writeSlice_ok)

lemma ReadFull_size:
  assumes "slice_ok d"
  shows "\<exists>b. ReadFull 4 (slice_bytes d @ s) = Inr (b, d @ s)
    \<and> Uvarint b = (length d, int (length (uvarint_bytes (length d))))"
proof -
  let ?e = "uvarint_bytes (length d)" and ?z = "replicate (4 - length (uvarint_bytes (length d))) (0 :: byte)"
  have "PutUvarint (replicate 4 0) (length d) = Inr (?e @ ?z)"
    using slice_ok_length [OF assms] by (simp add: PutUvarint_def Let_def)
  then have "Uvarint (?e @ ?z) = (length d, int (length ?e))"
    by (rule Uvarint_PutUvarint) (use assms in \<open>simp add: slice_ok_def\<close>)
  moreover have "ReadFull 4 (slice_bytes d @ s) = Inr (?e @ ?z, d @ s)"
    using slice_ok_length [OF assms] ReadFull_append [of "?e @ ?z" 4 "d @ s"]
    by (simp add: slice_bytes_def Let_def)
  ultimately show ?thesis by blast
qed

lemma bodies_loop_ok:
  assumes "list_all slice_ok ds" "s + total_length ds \<le> length buf" "length buf < 2 ^ 63"
  shows "bodies_loop (length ds) buf (of_nat s) (concat (map slice_bytes ds) @ rest) = (ds, Inr ())"
  using assms
proof (induction ds arbitrary: s)
  case (Cons d ds)
  then obtain b where b: "ReadFull 4 (slice_bytes d @ concat (map slice_bytes ds) @ rest)
      = Inr (b, d @ concat (map slice_bytes ds) @ rest)"
    "Uvarint b = (length d, int (length (uvarint_bytes (length d))))"
    using ReadFull_size by fastforce
  have le: "s + length d \<le> length buf" using Cons.prems by (simp add: total_length_def)
  have "of_nat s + of_nat (length d) = (of_nat (s + length d) :: int64)" by simp
  moreover have "sint (of_nat s :: int64) = int s" "sint (of_nat (s + length d) :: int64) = int (s + length d)"
    using le Cons.prems by (intro sint_of_nat64; linarith)+
  moreover have "bodies_loop (length ds) buf (of_nat (s + length d)) (concat (map slice_bytes ds) @ rest) = (ds, Inr ())"
    using Cons.prems by (intro Cons.IH) (simp_all add: total_length_def)
  ultimately show ?case
    using le by (simp add: b ReadFull_append del: of_nat_add)
qed simp

lemma GetBlockBodiesChan_ok:
  assumes "list_all slice_ok ds" "total_length ds \<le> 2 ^ 32" "length ds < 2 ^ 63" "pool_ok pool"
  shows "GetBlockBodiesChan pick pool
      (WriteInt (of_nat (total_length ds)) @ concat (map slice_bytes ds)) (of_nat (length ds)) = (ds, Inr ())"
proof -
  let ?n = "of_nat (total_length ds) :: int64"
  have n: "sint ?n = int (total_length ds)" using assms(2) by (intro sint_of_nat64) simp
  have le: "sint ?n \<le> 2 ^ 32" using assms(2) by (simp only: n) simp
  from powerOfTwo_bound [OF _ this] have p: "sint ?n \<le> sint (powerOfTwo ?n)" "sint (powerOfTwo ?n) \<le> 2 ^ 32"
    by (simp_all add: n)
  then obtain buf p' where g: "pool_Get pick pool ?n = Inr (buf, p')"
    using pool_Get_ok [of ?n pick pool] n by fastforce
  have l: "int (length buf) = sint (powerOfTwo ?n)" using pool_Get_length [OF assms(4) g] by blast
  have "length buf \<le> 2 ^ 32" using p(2) l by simp
  then have "bodies_loop (length ds) buf (of_nat 0) (concat (map slice_bytes ds) @ []) = (ds, Inr ())"
    using p(1) l n by (intro bodies_loop_ok assms(1)) simp_all
  then show ?thesis
    using g int_msg.dec_enc [of ?n] by (simp add: GetBlockBodiesChan_def sint_of_nat64 [OF assms(3)])
qed

lemma bind_pure [simp]:
  "bind_io (pure_io (Inr x)) f = f x"
  "bind_io (pure_io (Inl e)) f = pure_io (Inl e)"
  by (simp_all add: pure_io_def split: prod.splits)

text \<open>The peer that a node with the state \<open>env\<close> is, while it serves few enough requests.\<close>

definition node_peer :: "node_env \<Rightarrow> peer" where
  "node_peer env sent = fst (HandleTCPRequest env 0 sent)"

lemma HandleTCPRequest_first:
  "HandleTCPRequest env 0 (RequestType_Write \<lparr>rt_Type = ty\<rparr> @ b) =
     drop_error (bind_io (dispatch env ty b) (\<lambda>response.
       case response of None \<Rightarrow> pure_io (Inr ()) | Some r \<Rightarrow> write_response r))"
  by (simp add: HandleTCPRequest_def request_type.dec_enc bind_pure)

definition node_blocks :: "node_env \<Rightarrow> 32 word \<Rightarrow> bool \<Rightarrow> bytes list res" where
  "node_blocks env blockID reverseOrder =
     (if reverseOrder then ne_reverse_blocks env (ucast blockID) else ne_blocks_from env (ucast (blockID - 1)))"

lemma node_peer_blocks:
  assumes "node_blocks env i r = Inr ds" "list_all slice_ok ds"
  shows "node_peer env (RequestType_Write \<lparr>rt_Type = 7\<rparr> @ GetBodiesRequest_Write \<lparr>gb_BlockID = i, gb_ReverseOrder = r\<rparr>)
    = WriteInt (of_nat (length ds)) @ WriteInt (of_nat (total_length ds)) @ concat (map slice_bytes ds)"
  using assms unfolding node_peer_def HandleTCPRequest_first node_blocks_def
  by (simp add: dispatch_def get_bodies.dec_enc_Nil no_response_def pure_io_def write_io_def Type7_def
      write_bodies_ok lenOfBlockData_total drop_error_def cong: if_cong)

text \<open>
  C15: Collecting blocks works end to end: a client that asks a node for blocks receives on its
  channel exactly the block bodies the database of the node returned, in their order, whatever
  buffer the pool hands out. The bodies have to be smaller than \<open>2^28\<close> bytes each and \<open>2^32\<close> bytes
  together.
\<close>

theorem blocks_collected:
  assumes "newConnection net host = Inr (node_peer env)"
    and "node_blocks env (ucast blockID) reverseOrder = Inr ds" "ds \<noteq> []"
    and "list_all slice_ok ds" "total_length ds \<le> 2 ^ 32" "length ds < 2 ^ 63" "pool_ok pool"
  shows "GetBlocksBodies net pick pool host blockID reverseOrder = Inr (Some (ds, Inr ()))"
proof -
  have "sint (of_nat (length ds) :: int64) \<noteq> 0" using assms(3,6) by (simp add: sint_of_nat64)
  then have "of_nat (length ds) \<noteq> (0 :: int64)" by auto
  then show ?thesis
    using node_peer_blocks [OF assms(2,4)] GetBlockBodiesChan_ok [OF assms(4-7), of pick] assms(1)
    by (simp add: GetBlocksBodies_def int_msg.dec_enc)
qed

definition demo_node :: "bytes list \<Rightarrow> node_env" where
  "demo_node ds = \<lparr>ne_exec = (\<lambda>_. Inr ()), ne_info = Inr (Some 1), ne_banned = (\<lambda>_. False),
     ne_queue_block = (\<lambda>_. Inr False), ne_log_count = (\<lambda>_. Inr 0), ne_tx_count = (\<lambda>_. Inr 0),
     ne_queue_count = (\<lambda>_. Inr 0), ne_block_hash = (\<lambda>_. Inr (Some (replicate 32 7))),
     ne_reverse_blocks = (\<lambda>_. Inr (rev ds)), ne_blocks_from = (\<lambda>_. Inr ds), ne_max_tx_size = 1000,
     ne_sha256 = (\<lambda>b. take 32 (b @ replicate 32 0)), ne_private_key = Inr ''key'', ne_rsa = (\<lambda>_ b. Inr b),
     ne_decrypt = (\<lambda>_ b _. Inr b), ne_process_stop = (\<lambda>_. Inr (replicate 32 0)), ne_paused = False\<rparr>"

definition demo_net :: "peer \<Rightarrow> net_env" where
  "demo_net p = \<lparr>net_split_err = (\<lambda>_. None), net_dial = (\<lambda>_. Inr p)\<rparr>"

lemma demo_connection: "h \<noteq> [] \<Longrightarrow> newConnection (demo_net p) h = Inr p"
  by (simp add: newConnection_def NormalizeHostAddress_def demo_net_def)

theorem blocks_collected_witness:
  "GetBlocksBodies (demo_net (node_peer (demo_node [[1, 2], [3]]))) 0 Map.empty ''a:1'' 2 True
     = Inr (Some ([[3], [1, 2]], Inr ()))"
  by (rule blocks_collected [OF demo_connection])
    (simp_all add: node_blocks_def demo_node_def slice_ok_def total_length_def pool_ok_empty)

section \<open>Dissemination end to end\<close>

lemma DecToBin_reads_back:
  assumes "0 \<le> sint n" "nat (sint n) < 256 ^ k" "0 < k" "k < 2 ^ 63"
  shows "BinToDec (DecToBin n k) = n" "length (DecToBin n k) = k"
proof -
  have d: "DecToBin n k = be_bytes k (nat (sint n))" using assms by (intro DecToBin_be_bytes)
  then show "length (DecToBin n k) = k" by simp
  have "(of_nat (nat (sint n)) :: int64) = n" using assms(1) by (simp add: of_nat_nat)
  then show "BinToDec (DecToBin n k) = n" using assms by (simp add: BinToDec_be_nat be_nat_be_bytes d)
qed

definition hash_list :: "bytes list \<Rightarrow> bool" where
  "hash_list hs \<longleftrightarrow> list_all (\<lambda>h. length h = HashSize) hs"

lemma length_hash_list: "hash_list hs \<Longrightarrow> length (concat hs) = HashSize * length hs"
  by (induction hs) (simp_all add: hash_list_def)

lemma read_hashes_loop_concat:
  "hash_list hs \<Longrightarrow> length hs \<le> n \<Longrightarrow> read_hashes_loop n (concat hs) = hs"
proof (induction hs arbitrary: n)
  case Nil
  then show ?case by (cases n) simp_all
next
  case (Cons h hs)
  then obtain m where "n = Suc m" by (cases n) auto
  then show ?case using Cons by (auto simp: hash_list_def buf_Next_def HashSize_def)
qed

lemma readHashes_concat: "hash_list hs \<Longrightarrow> readHashes (concat hs) = Inr hs"
  using length_hash_list [of hs] by (simp add: readHashes_def read_hashes_loop_concat HashSize_def)

lemma parse_hashes_concat: "hash_list hs \<Longrightarrow> parseTxHashesFromResponse (concat hs) = hs"
  by (induction hs; subst parseTxHashesFromResponse.simps) (simp_all add: hash_list_def HashSize_def)

text \<open>A node knows a transaction when one of its three tables has the hash.\<close>

definition unknown_tx :: "node_env \<Rightarrow> bytes \<Rightarrow> bool" where
  "unknown_tx env h \<longleftrightarrow>
     (\<exists>a b c. ne_log_count env h = Inr a \<and> ne_tx_count env h = Inr b \<and> ne_queue_count env h = Inr c
        \<and> \<not> a > 0 \<and> \<not> b > 0 \<and> \<not> c > 0)"

definition counts_ok :: "node_env \<Rightarrow> bytes \<Rightarrow> bool" where
  "counts_ok env h \<longleftrightarrow> \<not> isl (ne_log_count env h) \<and> \<not> isl (ne_tx_count env h) \<and> \<not> isl (ne_queue_count env h)"

lemma unknown_hashes_filter:
  "list_all (counts_ok env) hs \<Longrightarrow> unknown_hashes env hs = Inr (concat (filter (unknown_tx env) hs))"
proof (induction hs)
  case (Cons h hs)
  then obtain a b c where "ne_log_count env h = Inr a" "ne_tx_count env h = Inr b" "ne_queue_count env h = Inr c"
    by (cases "ne_log_count env h"; cases "ne_tx_count env h"; cases "ne_queue_count env h")
      (auto simp: counts_ok_def)
  then show ?case using Cons by (auto simp: unknown_tx_def)
qed simp

lemma tx_data_map_lookup:
  assumes "distinct (map mt_Hash txes)" "tx \<in> set txes"
  shows "tx_data_map txes (mt_Hash tx) = Some (mt_Data tx)"
proof -
  have "foldl (\<lambda>m tx. m(mt_Hash tx \<mapsto> mt_Data tx)) m txes = m ++ map_of (rev (map (\<lambda>tx. (mt_Hash tx, mt_Data tx)) txes))" for m
    by (induction txes arbitrary: m) (simp_all add: map_add_def fun_eq_iff split: option.splits)
  then have "tx_data_map txes = map_of (rev (map (\<lambda>tx. (mt_Hash tx, mt_Data tx)) txes))"
    by (simp add: tx_data_map_def)
  moreover have "distinct (map fst (rev (map (\<lambda>tx. (mt_Hash tx, mt_Data tx)) txes)))"
    using assms(1) by (simp add: comp_def flip: rev_map)
  ultimately show ?thesis using assms(2) by (auto simp: map_of_eq_Some_iff image_iff)
qed

lemma requested_bodies_of:
  assumes "distinct (map mt_Hash txes)" "hash_list (map mt_Hash txes)" "set sel \<subseteq> set txes"
    "\<And>tx. tx \<in> set txes \<Longrightarrow> mt_Data tx \<noteq> []"
  shows "requested_bodies txes (concat (map mt_Hash sel)) = concat (map (EncodeLengthPlusData \<circ> mt_Data) sel)"
proof -
  have "hash_list (map mt_Hash sel)" using assms(2,3) by (auto simp: hash_list_def list_all_iff)
  then show ?thesis using assms
    by (auto simp: requested_bodies_def parse_hashes_concat tx_data_map_lookup subset_iff
        intro!: arg_cong [where f = concat])
qed

definition queued_tx :: "node_env \<Rightarrow> bytes \<Rightarrow> QueueTx" where
  "queued_tx env d =
     \<lparr>qt_Hash = (case RawTransaction_Unmarshall (ne_sha256 env) d of Inr tx \<Rightarrow> rtx_hash tx | Inl _ \<Rightarrow> []),
      qt_Data = d, qt_FromGate = 1\<rparr>"

definition valid_tx :: "node_env \<Rightarrow> bytes \<Rightarrow> bool" where
  "valid_tx env d \<longleftrightarrow> d \<noteq> [] \<and> int (length d) \<le> sint (ne_max_tx_size env)
     \<and> \<not> isl (RawTransaction_Unmarshall (ne_sha256 env) d)"

lemma parse_tx_bodies_step:
  assumes "valid_tx env d"
  shows "parse_tx_bodies env (EncodeLengthPlusData d @ rest)
    = bind_res (parse_tx_bodies env rest) (\<lambda>q. Inr (queued_tx env d # q))"
proof -
  obtain tx where tx: "RawTransaction_Unmarshall (ne_sha256 env) d = Inr tx"
    using assms by (cases "RawTransaction_Unmarshall (ne_sha256 env) d") (auto simp: valid_tx_def)
  have "int (length d) \<le> max_int64"
    using assms sint64_upper [of "ne_max_tx_size env"] by (simp add: valid_tx_def)
  then have "length d < 2 ^ 63" by (simp add: max_int64_def)
  then have n: "sint (of_nat (length d) :: int64) = int (length d)" by (rule sint_of_nat64)
  have d: "DecodeLength (EncodeLengthPlusData d @ rest) = Inr (of_nat (length d), d @ rest)"
    by (simp add: EncodeLengthPlusData_def codec)
  then obtain b bs where c: "EncodeLengthPlusData d @ rest = b # bs"
    using assms by (cases "EncodeLengthPlusData d @ rest") (auto simp: valid_tx_def EncodeLengthPlusData_def)
  have "(of_nat (length d) :: int64) \<noteq> 0" using n assms by (auto simp: valid_tx_def)
  then have "BytesShift (d @ rest) (of_nat (length d)) = Inr (d, rest)" by (simp add: BytesShift_def n)
  then show ?thesis
    using d assms unfolding c by (simp add: n valid_tx_def tx queued_tx_def)
qed

lemma parse_tx_bodies_concat:
  "list_all (valid_tx env) ds \<Longrightarrow>
   parse_tx_bodies env (concat (map EncodeLengthPlusData ds)) = Inr (map (queued_tx env) ds)"
  by (induction ds) (simp_all add: parse_tx_bodies_step)

lemma resieveTxBodies_ok:
  assumes "length b < 2 ^ 32"
  shows "resieveTxBodies (DecToBin (of_nat (length b)) 4 @ b) = Inr b"
proof -
  let ?n = "of_nat (length b) :: int64"
  have n: "sint ?n = int (length b)" using assms by (intro sint_of_nat64) simp
  then have "BinToDec (DecToBin ?n 4) = ?n" "length (DecToBin ?n 4) = 4"
    using assms by (intro DecToBin_reads_back; simp)+
  then show ?thesis by (simp add: resieveTxBodies_def ReadFull_append n) (simp add: ReadFull_def)
qed

definition block_announced :: "node_env \<Rightarrow> int64 \<Rightarrow> InfoBlock option \<Rightarrow> db_write list" where
  "block_announced env nodeID block =
     (case (block, ne_info env) of
        (Some b, Inr (Some info)) \<Rightarrow>
          if ne_queue_block env (ib_Hash b) = Inr False \<and> sint (ib_BlockID b) \<ge> sint info
          then [CreateQueueBlock (ib_Hash b) nodeID (ib_BlockID b)] else []
      | _ \<Rightarrow> [])"

definition block_fits :: "node_env \<Rightarrow> InfoBlock option \<Rightarrow> bool" where
  "block_fits env block =
     (case block of
        None \<Rightarrow> True
      | Some b \<Rightarrow> 0 \<le> sint (ib_BlockID b) \<and> sint (ib_BlockID b) < 2 ^ 24 \<and> length (ib_Hash b) = HashSize
          \<and> (\<exists>info. ne_info env = Inr (Some info)) \<and> \<not> isl (ne_queue_block env (ib_Hash b)))"

definition writes_ok :: "node_env \<Rightarrow> bool" where
  "writes_ok env \<longleftrightarrow> (\<forall>q. ne_exec env q = Inr ())"

lemma processBlock_announced:
  assumes "block_fits env (Some b)" "writes_ok env"
  shows "processBlock env (InfoBlock_Marshall (Some b) @ rest) nodeID = ([], block_announced env nodeID (Some b), Inr rest)"
proof -
  obtain info where i: "ne_info env = Inr (Some info)" using assms(1) by (auto simp: block_fits_def)
  obtain q where q: "ne_queue_block env (ib_Hash b) = Inr q"
    using assms(1) by (cases "ne_queue_block env (ib_Hash b)") (auto simp: block_fits_def)
  have "0 \<le> sint (ib_BlockID b)" "nat (sint (ib_BlockID b)) < 256 ^ 3"
    using assms(1) by (simp_all add: block_fits_def nat_less_iff)
  from DecToBin_reads_back [OF this] have "BinToDec (DecToBin (ib_BlockID b) 3) = ib_BlockID b"
    "length (DecToBin (ib_BlockID b) 3) = 3" by simp_all
  then show ?thesis
    using assms i q unfolding processBlock_def InfoBlock_Marshall_def
    by (simp add: buf_Next_def block_announced_def writes_ok_def exec_io_def block_fits_def pure_io_def)
qed

lemma length_concat_filter: "length (concat (filter P xs)) \<le> length (concat xs)"
  by (induction xs) auto

lemma nodeID_reads_back:
  assumes "0 \<le> sint nodeID"
  shows "BinToDec (DecToBin nodeID 8) = nodeID" "length (DecToBin nodeID 8) = 8"
proof -
  have "nat (sint nodeID) < 256 ^ 8" using sint64_upper [of nodeID] by (simp add: max_int64_def)
  then show "BinToDec (DecToBin nodeID 8) = nodeID" "length (DecToBin nodeID 8) = 8"
    by (intro DecToBin_reads_back assms; simp)+
qed

lemma Type1_announced:
  assumes "\<not> ne_banned env nodeID" "0 \<le> sint nodeID" "block_fits env block" "writes_ok env"
    "hash_list (map mt_Hash txes)" "list_all (counts_ok env) (map mt_Hash txes)"
    "slice_ok (prepareFullBlockRequest block txes nodeID)"
    "need = concat (filter (unknown_tx env) (map mt_Hash txes))"
  shows "Type1 env (slice_bytes (prepareFullBlockRequest block txes nodeID) @ tail) =
    bind_io (slice_bytes need, block_announced env nodeID block, Inr ()) (\<lambda>_.
      if need = [] then pure_io (Inr ())
      else bind_io (pure_io (resieveTxBodies tail)) (saveNewTransactions env))"
proof -
  let ?hs = "map mt_Hash txes"
  let ?body = "(if block = None then [] else InfoBlock_Marshall block) @ concat ?hs"
  have req: "prepareFullBlockRequest block txes nodeID
      = DecToBin nodeID 8 @ [if block = None then 1 else 0] @ ?body"
    by (simp add: prepareFullBlockRequest_def)
  have "slice_ok need"
    using assms(7) length_concat_filter [of "unknown_tx env" ?hs]
    unfolding assms(8) req slice_ok_def length_append by linarith
  moreover have "getUnknownTransactions env (concat ?hs) = Inr need"
    using assms(5,6) by (simp add: getUnknownTransactions_def readHashes_concat unknown_hashes_filter assms(8))
  moreover have "(if BinToDec [if block = None then 1 else 0] = 0 then processBlock env ?body nodeID else pure_io (Inr ?body))
      = ([], block_announced env nodeID block, Inr (concat ?hs))"
    using processBlock_announced [of env _ "concat ?hs" nodeID] assms(3,4)
    by (cases block) (simp_all add: BinToDec_def pure_io_def block_announced_def)
  ultimately show ?thesis
    using assms(1) slice_msg.dec_enc [OF assms(7), of tail] nodeID_reads_back [OF assms(2)]
    unfolding Type1_def DisRequest_Read_def req
    by (simp add: buf_Next_def DisHashResponse_Write_def writeSlice_ok write_io_def
        split: prod.splits)
qed

definition missing_txs :: "node_env \<Rightarrow> model_tx list \<Rightarrow> model_tx list" where
  "missing_txs env txes = filter (\<lambda>tx. unknown_tx env (mt_Hash tx)) txes"

text \<open>
  C14: Dissemination works end to end. A node that announces a block and its transactions to another
  node, answers the list of hashes it gets back and closes the connection leaves in the database of
  the other node the announced block, if that is new, and exactly the transactions that node did not
  know, in the order of the announcement.
\<close>

theorem dissemination_delivers:
  assumes "\<not> ne_paused env" "\<not> ne_banned env nodeID" "0 \<le> sint nodeID" "block_fits env block" "writes_ok env"
    and "hash_list (map mt_Hash txes)" "distinct (map mt_Hash txes)" "list_all (counts_ok env) (map mt_Hash txes)"
    and "list_all (\<lambda>tx. valid_tx env (mt_Data tx)) txes"
    and "slice_ok (prepareFullBlockRequest block txes nodeID)"
    and "HashSize * length (missing_txs env txes) \<le> unat maxTxSize"
    and "length (concat (map (EncodeLengthPlusData \<circ> mt_Data) (missing_txs env txes))) < 2 ^ 32" "missing_txs env txes \<noteq> []"
  shows "\<exists>sent answer.
    send_full_block maxTxSize txes (prepareFullBlockRequest block txes nodeID) (node_peer env) = Inr sent
    \<and> HandleTCPRequest env 0 sent
      = (answer, block_announced env nodeID block @ [BatchInsert (map (queued_tx env \<circ> mt_Data) (missing_txs env txes))], Inr ())"
proof -
  define sel where "sel = missing_txs env txes"
  note assms = assms [folded sel_def] and sel = sel_def and sel_def = sel_def [unfolded missing_txs_def]
  let ?req = "prepareFullBlockRequest block txes nodeID"
  define need where "need = concat (filter (unknown_tx env) (map mt_Hash txes))"
  let ?buf = "concat (map (EncodeLengthPlusData \<circ> mt_Data) sel)"
  let ?head = "RequestType_Write \<lparr>rt_Type = 1\<rparr> @ slice_bytes ?req"
  note t1 = Type1_announced [OF assms(2-6,8,10) need_def]
  have need: "need = concat (map mt_Hash sel)"
    by (simp add: need_def sel_def filter_map comp_def)
  have hs: "hash_list (map mt_Hash sel)" using assms(6) by (auto simp: sel_def hash_list_def list_all_iff)
  have len: "length need = HashSize * length sel" using length_hash_list [OF hs] by (simp add: need)
  then have ne: "need \<noteq> []" using assms(13) by (auto simp: HashSize_def)
  have "slice_ok need"
    using assms(10) length_concat_filter [of "unknown_tx env" "map mt_Hash txes"]
    unfolding need_def slice_ok_def prepareFullBlockRequest_def by (simp add: Let_def)
  have "\<exists>e. HandleTCPRequest env 0 (?head @ []) = (slice_bytes need, e)"
    using t1 [of "[]"] ne assms(1)
    by (simp add: HandleTCPRequest_first dispatch_def no_response_def resieveTxBodies_def ReadFull_def pure_io_def drop_error_def)
  then have "node_peer env ?head = slice_bytes need" by (auto simp: node_peer_def)
  moreover have "resieveRequiredTransactions maxTxSize (slice_bytes need) = Inr need"
    using read_size_slice [OF \<open>slice_ok need\<close>, of "[]"] assms(11)
    by (simp add: resieveRequiredTransactions_def DisHashResponse_Read_def ReadSliceWithMaxSize_def len ReadFull_def)
  moreover have "requested_bodies txes need = ?buf"
    unfolding need using assms(6,7,9) by (intro requested_bodies_of) (auto simp: sel_def list_all_iff valid_tx_def)
  ultimately have "send_full_block maxTxSize txes ?req (node_peer env) = Inr (?head @ DecToBin (of_nat (length ?buf)) 4 @ ?buf)"
    using assms(10) len assms(13)
    by (simp add: send_full_block_def sendDisseminatorRequest_def DisRequest_Write_def writeSlice_ok Let_def)
  moreover have "resieveTxBodies (DecToBin (of_nat (length ?buf)) 4 @ ?buf) = Inr ?buf"
    using assms(12) by (rule resieveTxBodies_ok)
  moreover have "parse_tx_bodies env ?buf = Inr (map (queued_tx env \<circ> mt_Data) sel)"
    using parse_tx_bodies_concat [of env "map mt_Data sel"] assms(9) by (simp add: sel_def list_all_iff comp_def)
  ultimately show ?thesis unfolding sel [symmetric]
    using t1 [of "DecToBin (of_nat (length ?buf)) 4 @ ?buf"] ne assms(1,5)
    by (simp add: HandleTCPRequest_first dispatch_def no_response_def saveNewTransactions_def exec_io_def writes_ok_def
        pure_io_def drop_error_def)
qed

theorem dissemination_delivers_witness:
  "\<exists>sent answer.
    send_full_block 1000 [\<lparr>mt_Hash = replicate 32 5, mt_Data = [1, 2, 3]\<rparr>]
      (prepareFullBlockRequest (Some \<lparr>ib_BlockID = 9, ib_Hash = replicate 32 1\<rparr>)
         [\<lparr>mt_Hash = replicate 32 5, mt_Data = [1, 2, 3]\<rparr>] 4) (node_peer (demo_node [])) = Inr sent
    \<and> HandleTCPRequest (demo_node []) 0 sent
      = (answer, [CreateQueueBlock (replicate 32 1) 4 9,
           BatchInsert [\<lparr>qt_Hash = [1, 2, 3] @ replicate 29 0, qt_Data = [1, 2, 3], qt_FromGate = 1\<rparr>]], Inr ())"
proof -
  let ?txes = "[\<lparr>mt_Hash = replicate 32 5, mt_Data = [1, 2, 3]\<rparr>]" and ?b = "Some \<lparr>ib_BlockID = 9, ib_Hash = replicate 32 1\<rparr>"
  have m: "missing_txs (demo_node []) ?txes = ?txes"
    by (simp add: missing_txs_def unknown_tx_def demo_node_def)
  have "length (DecToBin 4 8) = 8" "length (DecToBin 9 3) = 3" by (simp_all add: DecToBin_reads_back)
  then have l: "slice_ok (prepareFullBlockRequest ?b ?txes 4)"
    by (simp add: slice_ok_def prepareFullBlockRequest_def InfoBlock_Marshall_def)
  have q: "RawTransaction_Unmarshall (ne_sha256 (demo_node [])) [1, 2, 3]
      = Inr \<lparr>rtx_txType = 1, rtx_hash = [1, 2, 3] @ replicate 29 0, rtx_data = [1, 2, 3], rtx_payload = [1, 2, 3], rtx_signature = []\<rparr>"
    by (simp add: RawTransaction_Unmarshall_def IsContractTransaction_def DoubleHash_def demo_node_def Let_def)
  have "length (concat (map (EncodeLengthPlusData \<circ> mt_Data) ?txes)) < 2 ^ 32"
    by (simp add: EncodeLengthPlusData_def EncodeLength_def)
  then show ?thesis
    using dissemination_delivers [of "demo_node []" 4 ?b ?txes 1000] l
    by (simp add: m q queued_tx_def valid_tx_def block_announced_def block_fits_def hash_list_def HashSize_def counts_ok_def
        writes_ok_def) (simp add: demo_node_def)
qed

text \<open>
  A confirmation never carries the hash of the block: \<open>ConfirmResponse.Write\<close> puts the size in
  front of the hash and \<open>ConfirmResponse.Read\<close> does not expect it, so the client sees the bytes
  \<open>20 00 00 00\<close> followed by the first 28 bytes of the hash.
\<close>

theorem confirmation_shifted:
  assumes "newConnection net host = Inr (node_peer env)" "\<not> ne_paused env"
    and "ne_block_hash env (ucast (ucast blockID :: 32 word)) = Inr (Some h)" "length h = HashSize"
  shows "CheckConfirmation net host blockID = string_of_bytes (BinToHex ([0x20, 0, 0, 0] @ take 28 h))"
proof -
  have w: "le_bytes 4 32 = [0x20, 0, 0, 0]" by code_simp
  have "node_peer env (RequestType_Write \<lparr>rt_Type = 4\<rparr> @ ConfirmRequest_Write \<lparr>cr_BlockID = ucast blockID\<rparr>)
      = [0x20, 0, 0, 0] @ h"
    using assms(2,3) unfolding node_peer_def HandleTCPRequest_first
    by (simp add: dispatch_def some_response_def confirm_request.dec_enc_Nil Type4_def write_response_def write_io_def
        ConfirmResponse_Write_def writeSliceWithSize_def HashSize_def w drop_error_def)
  then show ?thesis
    using assms(1,4) by (simp add: CheckConfirmation_def ConfirmResponse_Read_def readSliceWithSize_def ReadFull_def HashSize_def)
qed

theorem confirmation_shifted_witness:
  "CheckConfirmation (demo_net (node_peer (demo_node []))) ''a:1'' 5
     = string_of_bytes (BinToHex ([0x20, 0, 0, 0] @ replicate 28 7))"
  using confirmation_shifted [OF demo_connection, of "''a:1''" "demo_node []" 5 "replicate 32 7"]
  by (simp add: demo_node_def HashSize_def)

text \<open>
  C35: A user transaction that \<open>Type2\<close> accepts and stores takes the node down: the response has no
  \<open>Write\<close> method, so the type assertion in \<open>HandleTCPRequest\<close> panics after the transaction was queued.
\<close>

theorem accepted_user_transaction_panics:
  assumes "\<not> ne_paused env" "Type2 env rw = (w, d, Inr r)"
  shows "HandleTCPRequest env 0 (RequestType_Write \<lparr>rt_Type = 2\<rparr> @ rw)
    = (w, d, Inl (Panic ''interface conversion: missing method Read''))"
proof -
  have "r = RDisTr" using assms(2)
    by (auto simp: Type2_def bind_io_def pure_io_def exec_io_def split: prod.splits sum.splits if_splits)
  then show ?thesis using assms
    by (simp add: HandleTCPRequest_first dispatch_def some_response_def write_response_def pure_io_def drop_error_def)
qed

theorem accepted_user_transaction_panics_witness:
  "HandleTCPRequest (demo_node []) 0
     (RequestType_Write \<lparr>rt_Type = 2\<rparr> @ slice_bytes (replicate 5 0 @ [1, 9] @ replicate 16 0 @ [1, 2, 3, 4, 5]))
   = ([], [DeleteQueueTxByHash ([1, 2, 3, 4, 5] @ replicate 27 0),
       CreateQueueTx \<lparr>qt_Hash = [1, 2, 3, 4, 5] @ replicate 27 0, qt_Data = [1, 2, 3, 4, 5], qt_FromGate = 0\<rparr>],
     Inl (Panic ''interface conversion: missing method Read''))"
proof -
  let ?data = "replicate 5 0 @ [1, 9] @ replicate 16 0 @ [1, 2, 3, 4, 5 :: byte]"
  have e: "replicate (n :: nat) (0 :: byte) @ x = (if n = 0 then x else 0 # replicate (n - 1) 0 @ x)" for n x
    by (cases n) simp_all
  have "DisRequest_Read (slice_bytes ?data) = Inr (\<lparr>dr_Data = ?data\<rparr>, [])"
    using slice_msg.dec_enc_Nil [of ?data] by (simp add: DisRequest_Read_def slice_ok_def)
  moreover have "BytesShift ?data 5 = Inr (replicate 5 0, [1, 9] @ replicate 16 0 @ [1, 2, 3, 4, 5])"
    by (simp add: BytesShift_def)
  then have "DecryptData (demo_node []) ?data = Inr ([9], replicate 16 0, [1, 2, 3, 4, 5], [1, 2, 3, 4, 5])"
    by (simp add: DecryptData_def BinToDecBytesShift_def DecodeLength_def BytesShift_def demo_node_def)
  ultimately have "Type2 (demo_node []) (slice_bytes ?data)
      = ([], [DeleteQueueTxByHash ([1, 2, 3, 4, 5] @ replicate 27 0),
         CreateQueueTx \<lparr>qt_Hash = [1, 2, 3, 4, 5] @ replicate 27 0, qt_Data = [1, 2, 3, 4, 5], qt_FromGate = 0\<rparr>], Inr RDisTr)"
    by (simp add: Type2_def RawTransaction_Unmarshall_def IsContractTransaction_def DoubleHash_def exec_io_def Let_def
        pure_io_def) (simp add: demo_node_def)
  moreover have "\<not> ne_paused (demo_node [])" by (simp add: demo_node_def)
  ultimately show ?thesis by (intro accepted_user_transaction_panics)
qed

lemma best_loop_max:
  "best_loop results h m e = (h', m', e') \<Longrightarrow>
   sint m \<le> sint m' \<and> (\<forall>(host, r) \<in> set results. \<forall>b. r = Inr b \<longrightarrow> sint b \<le> sint m')
   \<and> ((h', m') = (h, m) \<or> (h', Inr m') \<in> set results)
   \<and> e' = e + length (filter (isl \<circ> snd) results)"
  by (induction results h m e rule: best_loop.induct) (auto split: sum.splits if_splits)

text \<open>
  In whatever order the answers arrive, \<open>hostWithMaxBlock\<close> fails exactly when no host answered,
  and otherwise returns a block ID no answer exceeds, together with a host that reported it (no host
  and -1 only when nobody reported a block above -1).
\<close>

theorem hostWithMaxBlock_best:
  "case hostWithMaxBlock results of
     Inl _ \<Rightarrow> list_all (isl \<circ> snd) results
   | Inr (host, m) \<Rightarrow>
       \<not> list_all (isl \<circ> snd) results
       \<and> (\<forall>(h, r) \<in> set results. \<forall>b. r = Inr b \<longrightarrow> sint b \<le> sint m)
       \<and> ((host, m) = ([], - 1) \<or> (host, Inr m) \<in> set results)"
proof -
  obtain h m e where b: "best_loop results [] (- 1) 0 = (h, m, e)" by (cases "best_loop results [] (- 1) 0")
  have "length (filter (isl \<circ> snd) results) = length results \<longleftrightarrow> list_all (isl \<circ> snd) results"
    using length_filter_less [of _ results "isl \<circ> snd"] by (fastforce simp: list_all_iff)
  then show ?thesis
    using best_loop_max [OF b] unfolding hostWithMaxBlock_def by (auto simp: b)
qed

theorem hostWithMaxBlock_best_witness:
  "hostWithMaxBlock [(''a'', Inl (Error ''dial'')), (''b'', Inr 3), (''c'', Inr 5)] = Inr (''c'', 5)"
  using hostWithMaxBlock_best [of "[(''a'', Inl (Error ''dial'')), (''b'', Inr 3), (''c'', Inr 5)]"]
  by (simp split: sum.splits prod.splits) auto

text \<open>
  A peer can take the client down: when the first block body it announces is longer than the
  buffer that was sized by the announced total, slicing the buffer panics, and nothing recovers the
  panic of that goroutine.
\<close>

theorem oversized_body_panics:
  assumes "pool_ok pool" "0 \<le> sint n" "sint n \<le> 2 ^ 32" "0 < sint blocksCount"
    and "slice_ok d" "sint (powerOfTwo n) < int (length d)"
  shows "GetBlockBodiesChan pick pool (WriteInt n @ slice_bytes d) blocksCount
    = ([], Inl (Panic ''slice bounds out of range''))"
proof -
  have p: "0 \<le> sint (powerOfTwo n)" using powerOfTwo_bound [OF assms(2,3)] assms(2) by linarith
  then obtain buf p' where g: "pool_Get pick pool n = Inr (buf, p')" using pool_Get_ok by blast
  have l: "int (length buf) = sint (powerOfTwo n)" using pool_Get_length [OF assms(1) g] by blast
  obtain k where k: "nat (sint blocksCount) = Suc k" using assms(4) by (metis gr0_implies_Suc zero_less_nat_eq)
  obtain b where b: "ReadFull 4 (slice_bytes d @ []) = Inr (b, d @ [])"
      "Uvarint b = (length d, int (length (uvarint_bytes (length d))))"
    using ReadFull_size [OF assms(5)] by blast
  have "sint (of_nat (length d) :: int64) = int (length d)" using assms(5) by (intro sint_of_nat64) (simp add: slice_ok_def)
  then show ?thesis using assms(4,6) b int_msg.dec_enc [of n] by (simp add: GetBlockBodiesChan_def g k l)
qed

theorem oversized_body_panics_witness:
  "GetBlockBodiesChan 0 Map.empty (WriteInt 1 @ slice_bytes [7, 7]) 1 = ([], Inl (Panic ''slice bounds out of range''))"
  using oversized_body_panics [of Map.empty 1 1 "[7, 7]" 0]
  by (simp add: pool_ok_empty slice_ok_def powerOfTwo_1)

end
