(* ===== verification/Go_Num.thy ===== *)
theory Go_Num
  imports Go_Std Complex_Main
begin

text \<open>
  Numbers of the script language beside the integers: Go's \<open>float64\<close> with the rounding of
  IEEE 754 and \<open>strconv.ParseFloat\<close>, and the fixed-point numbers of the vendored package
  \<open>github.com/shopspring/decimal\<close>.
\<close>

section \<open>float64\<close>

text \<open>\<open>FFin s q\<close> is the number with sign \<open>s\<close> (true for minus) and magnitude \<open>q\<close>; zero has a sign.\<close>

datatype float64 = FNaN | FInf bool | FFin bool rat

function ilog2 :: "int \<Rightarrow> int" where
  "ilog2 x = (if x \<le> 1 then 0 else 1 + ilog2 (x div 2))"
  by pat_completeness auto
termination
  by (relation "measure nat") auto

declare ilog2.simps [simp del]

definition pow2 :: "int \<Rightarrow> rat" where
  "pow2 k = (if 0 \<le> k then 2 ^ nat k else 1 / 2 ^ nat (- k))"

text \<open>The nearest integer; of two nearest ones the even one.\<close>

definition round_even :: "rat \<Rightarrow> int" where
  "round_even q =
     (let f = \<lfloor>q\<rfloor>; r = q - of_int f in
      if r < 1 / 2 \<or> r = 1 / 2 \<and> even f then f else f + 1)"

text \<open>The exponent of the leading bit of a positive number.\<close>

definition rat_exp :: "rat \<Rightarrow> int" where
  "rat_exp q =
     (let (n, d) = quotient_of q; e = ilog2 n - ilog2 d in if q < pow2 e then e - 1 else e)"

definition f64_round :: "bool \<Rightarrow> rat \<Rightarrow> float64" where
  "f64_round s q =
     (if q = 0 then FFin s 0
      else
        let e = rat_exp q;
            u = max (e - 52) (- 1074);
            m = round_even (q / pow2 u)
        in if e > 1023 \<or> e = 1023 \<and> m = 2 ^ 53 then FInf s else FFin s (of_int m * pow2 u))"

definition signed_rat :: "bool \<Rightarrow> rat \<Rightarrow> rat" where
  "signed_rat s q = (if s then - q else q)"

definition f64_neg :: "float64 \<Rightarrow> float64" where
  "f64_neg x = (case x of FNaN \<Rightarrow> FNaN | FInf s \<Rightarrow> FInf (\<not> s) | FFin s q \<Rightarrow> FFin (\<not> s) q)"

definition f64_add :: "float64 \<Rightarrow> float64 \<Rightarrow> float64" where
  "f64_add x y =
     (case (x, y) of
        (FNaN, _) \<Rightarrow> FNaN
      | (_, FNaN) \<Rightarrow> FNaN
      | (FInf s, FInf t) \<Rightarrow> if s = t then FInf s else FNaN
      | (FInf s, _) \<Rightarrow> FInf s
      | (_, FInf t) \<Rightarrow> FInf t
      | (FFin s p, FFin t q) \<Rightarrow>
          let r = signed_rat s p + signed_rat t q in
          if r = 0 then FFin (s \<and> t) 0 else f64_round (r < 0) \<bar>r\<bar>)"

definition f64_sub :: "float64 \<Rightarrow> float64 \<Rightarrow> float64" where
  "f64_sub x y = f64_add x (f64_neg y)"

definition f64_mul :: "float64 \<Rightarrow> float64 \<Rightarrow> float64" where
  "f64_mul x y =
     (case (x, y) of
        (FNaN, _) \<Rightarrow> FNaN
      | (_, FNaN) \<Rightarrow> FNaN
      | (FInf s, FInf t) \<Rightarrow> FInf (s \<noteq> t)
      | (FInf s, FFin t q) \<Rightarrow> if q = 0 then FNaN else FInf (s \<noteq> t)
      | (FFin s p, FInf t) \<Rightarrow> if p = 0 then FNaN else FInf (s \<noteq> t)
      | (FFin s p, FFin t q) \<Rightarrow> f64_round (s \<noteq> t) (p * q))"

definition f64_div :: "float64 \<Rightarrow> float64 \<Rightarrow> float64" where
  "f64_div x y =
     (case (x, y) of
        (FNaN, _) \<Rightarrow> FNaN
      | (_, FNaN) \<Rightarrow> FNaN
      | (FInf s, FInf t) \<Rightarrow> FNaN
      | (FInf s, FFin t q) \<Rightarrow> FInf (s \<noteq> t)
      | (FFin s p, FInf t) \<Rightarrow> FFin (s \<noteq> t) 0
      | (FFin s p, FFin t q) \<Rightarrow>
          if q = 0 then if p = 0 then FNaN else FInf (s \<noteq> t) else f64_round (s \<noteq> t) (p / q))"

definition f64_less :: "float64 \<Rightarrow> float64 \<Rightarrow> bool" where
  "f64_less x y =
     (case (x, y) of
        (FNaN, _) \<Rightarrow> False
      | (_, FNaN) \<Rightarrow> False
      | (FInf s, FInf t) \<Rightarrow> s \<and> \<not> t
      | (FInf s, _) \<Rightarrow> s
      | (_, FInf t) \<Rightarrow> \<not> t
      | (FFin s p, FFin t q) \<Rightarrow> signed_rat s p < signed_rat t q)"

definition f64_eq :: "float64 \<Rightarrow> float64 \<Rightarrow> bool" where
  "f64_eq x y =
     (case (x, y) of
        (FInf s, FInf t) \<Rightarrow> s = t
      | (FFin s p, FFin t q) \<Rightarrow> signed_rat s p = signed_rat t q
      | _ \<Rightarrow> False)"

definition f64_zero :: float64 where
  "f64_zero = FFin False 0"

text \<open>\<open>float64(i)\<close> and, on amd64, \<open>int64(f)\<close>: out of range gives the least integer.\<close>

definition f64_of_int :: "int \<Rightarrow> float64" where
  "f64_of_int i = f64_round (i < 0) (of_int \<bar>i\<bar>)"

definition int_of_f64 :: "float64 \<Rightarrow> int" where
  "int_of_f64 x =
     (case x of
        FFin s q \<Rightarrow> let i = (if s then - \<lfloor>q\<rfloor> else \<lfloor>q\<rfloor>) in if min_int64 \<le> i \<and> i \<le> max_int64 then i else min_int64
      | _ \<Rightarrow> min_int64)"

section \<open>strconv.ParseFloat\<close>

fun digits_int :: "int \<Rightarrow> string \<Rightarrow> int" where
  "digits_int acc [] = acc"
| "digits_int acc (c # cs) = digits_int (10 * acc + int (code c - 48)) cs"

definition split_digits :: "string \<Rightarrow> string \<times> string" where
  "split_digits s = (takeWhile is_digit s, dropWhile is_digit s)"

definition pow10 :: "int \<Rightarrow> rat" where
  "pow10 k = (if 0 \<le> k then 10 ^ nat k else 1 / 10 ^ nat (- k))"

definition lower_char :: "char \<Rightarrow> char" where
  "lower_char c = (if is_upper c then char_of (code c + 32) else c)"

definition strip_sign :: "string \<Rightarrow> bool \<times> string" where
  "strip_sign s =
     (case s of [] \<Rightarrow> (False, [])
      | c # cs \<Rightarrow> if c = CHR ''-'' then (True, cs) else if c = CHR ''+'' then (False, cs) else (False, s))"

text \<open>The exponent behind \<open>e\<close>; the parser stops adding digits at 10000.\<close>

fun exp_digits :: "int \<Rightarrow> string \<Rightarrow> int" where
  "exp_digits acc [] = acc"
| "exp_digits acc (c # cs) = exp_digits (if acc < 10000 then 10 * acc + int (code c - 48) else acc) cs"

definition parse_exp :: "string \<Rightarrow> int option" where
  "parse_exp s =
     (case s of [] \<Rightarrow> Some 0
      | c # cs \<Rightarrow>
          if lower_char c \<noteq> CHR ''e'' then None
          else
            let (neg, ds) = strip_sign cs in
            if ds = [] \<or> \<not> list_all is_digit ds then None
            else Some (if neg then - exp_digits 0 ds else exp_digits 0 ds))"

definition parse_decimal_float :: "bool \<Rightarrow> string \<Rightarrow> float64 \<times> num_err option" where
  "parse_decimal_float neg s =
     (let (ip, rest) = split_digits s;
          (fp, rest) = (if rest \<noteq> [] \<and> hd rest = CHR ''.'' then split_digits (tl rest) else ([], rest))
      in if ip @ fp = [] then (f64_zero, Some ErrSyntax)
         else
           case parse_exp rest of
             None \<Rightarrow> (f64_zero, Some ErrSyntax)
           | Some e \<Rightarrow>
               let x = f64_round neg (of_int (digits_int 0 (ip @ fp)) * pow10 (e - int (length fp)))
               in (x, case x of FInf _ \<Rightarrow> Some ErrRange | _ \<Rightarrow> None))"

definition ParseFloat :: "string \<Rightarrow> float64 \<times> num_err option" where
  "ParseFloat s =
     (let (neg, body) = strip_sign s; w = map lower_char body in
      if w = ''inf'' \<or> w = ''infinity'' then (FInf neg, None)
      else if map lower_char s = ''nan'' then (FNaN, None)
      else parse_decimal_float neg body)"

section \<open>shopspring/decimal\<close>

text \<open>\<open>Dec value exp\<close> is \<open>value * 10 ^ exp\<close>; the exponent is an \<open>int32\<close>.\<close>

datatype decimal = Dec int int

definition wrap32 :: "int \<Rightarrow> int" where
  "wrap32 x = sint (word_of_int x :: 32 word)"

definition min_int32 :: int where "min_int32 = - (2 ^ 31)"
definition max_int32 :: int where "max_int32 = 2 ^ 31 - 1"

definition dec_zero :: decimal where "dec_zero = Dec 0 0"

fun dec_rescale :: "decimal \<Rightarrow> int \<Rightarrow> decimal" where
  "dec_rescale (Dec v e) e' =
     Dec (if e' > e then trunc_div v (10 ^ nat (e' - e)) else if e' < e then v * 10 ^ nat (e - e') else v) e'"

fun dec_value :: "decimal \<Rightarrow> int" where
  "dec_value (Dec v e) = v"

fun dec_Abs :: "decimal \<Rightarrow> decimal" where
  "dec_Abs (Dec v e) = Dec \<bar>v\<bar> e"

fun dec_Add :: "decimal \<Rightarrow> decimal \<Rightarrow> decimal" where
  "dec_Add (Dec v e) (Dec v' e') =
     (let b = min e e' in Dec (dec_value (dec_rescale (Dec v e) b) + dec_value (dec_rescale (Dec v' e') b)) b)"

fun dec_Sub :: "decimal \<Rightarrow> decimal \<Rightarrow> decimal" where
  "dec_Sub (Dec v e) (Dec v' e') =
     (let b = min e e' in Dec (dec_value (dec_rescale (Dec v e) b) - dec_value (dec_rescale (Dec v' e') b)) b)"

fun dec_Mul :: "decimal \<Rightarrow> decimal \<Rightarrow> decimal res" where
  "dec_Mul (Dec v e) (Dec v' e') =
     (if e + e' > max_int32 \<or> e + e' < min_int32 then Inl (Panic ''exponent overflows an int32!'')
      else Inr (Dec (v * v') (e + e')))"

fun dec_Cmp :: "decimal \<Rightarrow> decimal \<Rightarrow> int" where
  "dec_Cmp (Dec v e) (Dec v' e') =
     (if e = e' then sgn (v - v')
      else let b = min e e' in sgn (dec_value (dec_rescale (Dec v e) b) - dec_value (dec_rescale (Dec v' e') b)))"

fun dec_QuoRem :: "decimal \<Rightarrow> decimal \<Rightarrow> int \<Rightarrow> (decimal \<times> decimal) res" where
  "dec_QuoRem (Dec v e) (Dec v' e') precision =
     (if v' = 0 then Inl (Panic ''decimal division by 0'')
      else
        let scale = - precision;
            d = wrap32 (wrap32 (e - e') - scale);
            (aa, bb, rest) =
              (if d < 0 then (v, v' * 10 ^ nat (- d), e) else (v * 10 ^ nat d, v', wrap32 (scale + e')))
        in Inr (Dec (trunc_div aa bb) scale, Dec (trunc_mod aa bb) rest))"

fun dec_DivRound :: "decimal \<Rightarrow> decimal \<Rightarrow> int \<Rightarrow> decimal res" where
  "dec_DivRound d d2 precision =
     bind_res (dec_QuoRem d d2 precision) (\<lambda>(q, r).
       case r of Dec rv re \<Rightarrow>
         if dec_Cmp (Dec (2 * \<bar>rv\<bar>) (wrap32 (re + precision))) (dec_Abs d2) < 0 then Inr q
         else if sgn (dec_value d) * sgn (dec_value d2) < 0 then Inr (dec_Sub q (Dec 1 (- precision)))
         else Inr (dec_Add q (Dec 1 (- precision))))"

definition dec_Div :: "decimal \<Rightarrow> decimal \<Rightarrow> decimal res" where
  "dec_Div d d2 = dec_DivRound d d2 16"

fun dec_Floor :: "decimal \<Rightarrow> decimal" where
  "dec_Floor (Dec v e) = (if e \<ge> 0 then Dec v e else Dec (v div 10 ^ nat (- e)) 0)"

text \<open>
  \<open>NewFromFloat\<close> writes the exact binary fraction as a decimal one: a reduced fraction with
  denominator \<open>2^k\<close> is multiplied by \<open>5^k\<close>.
\<close>

definition dec_NewFromFloat :: "float64 \<Rightarrow> decimal res" where
  "dec_NewFromFloat x =
     (case x of
        FFin s q \<Rightarrow>
          let (n, d) = quotient_of q; k = ilog2 d; v = n * 5 ^ nat k in Inr (Dec (if s then - v else v) (- k))
      | _ \<Rightarrow> Inl (Panic ''Cannot create a Decimal''))"

fun split_exp :: "string \<Rightarrow> string \<times> string option" where
  "split_exp [] = ([], None)"
| "split_exp (c # cs) =
     (if c = CHR ''E'' \<or> c = CHR ''e'' then ([], Some cs)
      else (case split_exp cs of (a, b) \<Rightarrow> (c # a, b)))"

text \<open>\<open>big.Int.SetString\<close> in base 10.\<close>

definition big_SetString :: "string \<Rightarrow> int option" where
  "big_SetString s =
     (let (neg, ds) = strip_sign s in
      if ds = [] \<or> \<not> list_all is_digit ds then None
      else Some (if neg then - digits_int 0 ds else digits_int 0 ds))"

definition conv_err :: "string \<Rightarrow> string \<Rightarrow> go_exc" where
  "conv_err value t = Error (''can't convert '' @ value @ '' to decimal'' @ t)"

definition dec_mantissa :: "string \<Rightarrow> string \<Rightarrow> int \<Rightarrow> decimal res" where
  "dec_mantissa orig value ex =
     (case str_split (CHR ''.'') value of
        [_] \<Rightarrow>
          (case big_SetString value of None \<Rightarrow> Inl (conv_err value []) | Some v \<Rightarrow> Inr (Dec v ex))
      | [a, b] \<Rightarrow>
          let f = trim_right ''0'' b; ex = ex - int (length f) in
          (case big_SetString (a @ f) of
             None \<Rightarrow> Inl (conv_err value [])
           | Some v \<Rightarrow>
               if ex < min_int32 \<or> ex > max_int32 then Inl (conv_err orig '': fractional part too long'')
               else Inr (Dec v ex))
      | _ \<Rightarrow> Inl (conv_err value '': too many .s''))"

definition dec_NewFromString :: "string \<Rightarrow> decimal res" where
  "dec_NewFromString value =
     (case split_exp value of
        (m, None) \<Rightarrow> dec_mantissa value value 0
      | (m, Some x) \<Rightarrow>
          (case ParseInt x of
             (_, Some ErrSyntax) \<Rightarrow> Inl (conv_err value '': exponent is not numeric'')
           | (_, Some ErrRange) \<Rightarrow> Inl (conv_err value '': fractional part too long'')
           | (e, None) \<Rightarrow>
               if e < min_int32 \<or> e > max_int32 then Inl (conv_err value '': fractional part too long'')
               else dec_mantissa value m e))"

fun dec_String :: "decimal \<Rightarrow> string" where
  "dec_String (Dec v e) =
     (if e \<ge> 0 then show_int (v * 10 ^ nat e)
      else
        let str = show_int \<bar>v\<bar>; n = nat (- e);
            (ip, fp) = (if length str > n then (take (length str - n) str, drop (length str - n) str)
                        else (''0'', replicate (n - length str) (CHR ''0'') @ str));
            fp = trim_right ''0'' fp;
            number = (if fp = [] then ip else ip @ ''.'' @ fp)
        in if v < 0 then CHR ''-'' # number else number)"

section \<open>The comparison of decimals is the comparison of the numbers they denote\<close>

fun dec_rat :: "decimal \<Rightarrow> rat" where
  "dec_rat (Dec v e) = of_int v * pow10 e"

lemma pow10_pos: "0 < pow10 k"
  by (simp add: pow10_def)

lemma pow10_shift: "b \<le> e \<Longrightarrow> pow10 e = 10 ^ nat (e - b) * pow10 b"
proof -
  assume "b \<le> e"
  consider "0 \<le> b" | "b < 0" "0 \<le> e" | "e < 0" using \<open>b \<le> e\<close> by linarith
  then show ?thesis
  proof cases
    case 1
    then have "nat e = nat (e - b) + nat b" using \<open>b \<le> e\<close> by simp
    then show ?thesis using 1 \<open>b \<le> e\<close> by (simp add: pow10_def power_add)
  next
    case 2
    then have "nat (e - b) = nat e + nat (- b)" by simp
    then show ?thesis using 2 by (simp add: pow10_def power_add)
  next
    case 3
    then have "nat (- b) = nat (e - b) + nat (- e)" using \<open>b \<le> e\<close> by simp
    then show ?thesis using 3 \<open>b \<le> e\<close> by (simp add: pow10_def power_add field_simps)
  qed
qed

lemma dec_rescale_down: "b \<le> e \<Longrightarrow> dec_rat (dec_rescale (Dec v e) b) = dec_rat (Dec v e)"
proof (cases "b = e")
  case False
  assume "b \<le> e"
  with False have "b < e" by simp
  then have "dec_rat (dec_rescale (Dec v e) b) = of_int v * (10 ^ nat (e - b) * pow10 b)" by simp
  then show ?thesis using pow10_shift [OF \<open>b \<le> e\<close>] by simp
qed simp

lemma dec_value_rescale:
  "b \<le> e \<Longrightarrow> of_int (dec_value (dec_rescale (Dec v e) b)) * pow10 b = dec_rat (Dec v e)"
  using dec_rescale_down [of b e v] by simp

lemma dec_Add_rat: "dec_rat (dec_Add x y) = dec_rat x + dec_rat y"
  by (cases x; cases y) (simp add: Let_def distrib_right dec_value_rescale del: dec_rescale.simps)

lemma dec_Sub_rat: "dec_rat (dec_Sub x y) = dec_rat x - dec_rat y"
  by (cases x; cases y) (simp add: Let_def left_diff_distrib dec_value_rescale del: dec_rescale.simps)

lemma dec_Mul_rat: "dec_Mul x y = Inr z \<Longrightarrow> dec_rat z = dec_rat x * dec_rat y"
proof (cases x; cases y)
  fix v e v' e' assume *: "x = Dec v e" "y = Dec v' e'" "dec_Mul x y = Inr z"
  have "pow10 (e + e') = pow10 e * pow10 e'"
  proof (cases "e \<ge> 0")
    case True
    then show ?thesis using pow10_shift [of e' "e + e'"] by (simp add: pow10_def)
  next
    case False
    then show ?thesis using pow10_shift [of "e + e'" e'] pow10_pos [of e] by (simp add: pow10_def field_simps)
  qed
  then show ?thesis using * by (auto split: if_splits)
qed

lemma sgn_int_rat: "sgn (i - j) = (if (of_int i :: rat) < of_int j then - 1 else if (of_int i :: rat) = of_int j then 0 else (1 :: int))"
  by (simp add: sgn_if)

lemma dec_Cmp_rat:
  "dec_Cmp x y = (if dec_rat x < dec_rat y then - 1 else if dec_rat x = dec_rat y then 0 else 1)"
proof (cases x; cases y)
  fix v e v' e' assume *: "x = Dec v e" "y = Dec v' e'"
  let ?b = "min e e'"
  let ?i = "dec_value (dec_rescale (Dec v e) ?b)" and ?j = "dec_value (dec_rescale (Dec v' e') ?b)"
  have "dec_Cmp x y = sgn (?i - ?j)" using * by (auto simp: Let_def)
  moreover have "dec_rat x = of_int ?i * pow10 ?b" "dec_rat y = of_int ?j * pow10 ?b"
    using * dec_value_rescale [of ?b e v] dec_value_rescale [of ?b e' v'] by (simp_all del: dec_rescale.simps)
  ultimately show ?thesis
    using pow10_pos [of ?b] by (simp add: sgn_int_rat del: dec_rescale.simps)
qed

lemma dec_Cmp_zero: "dec_Cmp (Dec v e) dec_zero = 0 \<longleftrightarrow> v = 0"
  using pow10_pos [of e] by (simp add: dec_Cmp_rat dec_zero_def del: dec_Cmp.simps)

end
