(* ===== verification/Script_Lexer.thy ===== *)
theory Script_Lexer
  imports Go_Std
begin

text \<open>
  \<open>packages/script/lex.go\<close>, the lexical analysis of the contract language: the finite machine of
  \<open>lex_table.go\<close>, the generator \<open>lextable/lextable.go\<close> that computes the table from the description of
  the states, and the loop of \<open>lexParser\<close> that runs the machine over the runes of a source and
  emits lexemes. Every slice and index expression of the code is checked against its bounds, so that
  a panic is a value of the model. \<open>strconv.ParseFloat\<close> is an argument of the definitions.
\<close>

unbundle bit_operations_syntax

section \<open>The machine\<close>

definition alphabet :: "nat list" where
  "alphabet =
    [0, 0, 0, 0, 0, 0, 0, 0, 0, 2, 1, 0, 0, 2, 0, 0, 0, 0, 0, 0, 0, 0, 0, 0, 0, 0, 0, 0, 0, 0, 0,
     0, 2, 20, 4, 14, 22, 0, 12, 0, 6, 7, 21, 25, 16, 26, 15, 27, 29, 30, 30, 30, 30, 30, 30, 30,
     30, 30, 24, 5, 17, 19, 18, 0, 23, 31, 31, 31, 31, 31, 31, 31, 31, 31, 31, 31, 31, 31, 31, 31,
     31, 31, 31, 31, 31, 31, 31, 31, 31, 31, 31, 8, 28, 9, 0, 32, 3, 31, 31, 31, 31, 31, 31, 31,
     31, 31, 31, 31, 31, 31, 31, 31, 31, 31, 31, 31, 31, 31, 31, 31, 31, 31, 31, 10, 13, 11, 0, 0,
     33]"

definition lexTable :: "32 word list list" where
  "lexTable = [
    [0xff0000, 0x501, 0x1, 0xe0003, 0xf0003, 0x501, 0x101, 0x101, 0x101, 0x101, 0x101, 0x101,
     0x50003, 0xc0003, 0x101, 0xb0003, 0x101, 0x80003, 0x80003, 0xd0003, 0x80003, 0x201, 0x90003,
     0x90003, 0x101, 0x201, 0x201, 0x70003, 0xff0000, 0x30003, 0x30003, 0x60003, 0x60003, 0x60003],
    [0x10001, 0x0, 0x10001, 0x10001, 0x10001, 0x10001, 0x10001, 0x10001, 0x10001, 0x10001, 0x10001,
     0x10001, 0x10001, 0x10001, 0x10001, 0x10001, 0x10001, 0x10001, 0x10001, 0x10001, 0x10001,
     0x10001, 0x10001, 0x10001, 0x10001, 0x10001, 0x10001, 0x10001, 0x10001, 0x10001, 0x10001,
     0x10001, 0x10001, 0x10001],
    [0xff0000, 0xff0000, 0xff0000, 0xff0000, 0xff0000, 0xff0000, 0xff0000, 0xff0000, 0xff0000,
     0xff0000, 0xff0000, 0xff0000, 0xff0000, 0xff0000, 0xff0000, 0x405, 0xff0000, 0xff0000,
     0xff0000, 0xff0000, 0xff0000, 0xff0000, 0xff0000, 0xff0000, 0xff0000, 0xff0000, 0xff0000,
     0xff0000, 0xff0000, 0xff0000, 0xff0000, 0xff0000, 0xff0000, 0xff0000],
    [0x304, 0x304, 0x304, 0x304, 0x304, 0x304, 0x304, 0x304, 0x304, 0x304, 0x304, 0x304, 0x304,
     0x304, 0x304, 0x30001, 0x304, 0x304, 0x304, 0x304, 0x304, 0x304, 0x304, 0x304, 0x304, 0x304,
     0x304, 0x304, 0x304, 0x30001, 0x30001, 0xff0000, 0xff0000, 0xff0000],
    [0x40001, 0x40001, 0x40001, 0x40001, 0x40001, 0x40001, 0x40001, 0x40001, 0x40001, 0x40001,
     0x40001, 0x40001, 0x40001, 0x40001, 0x40001, 0x40001, 0x40001, 0x40001, 0x40001, 0x40001,
     0x40001, 0x100001, 0x40001, 0x40001, 0x40001, 0x40001, 0x40001, 0x40001, 0x40001, 0x40001,
     0x40001, 0x40001, 0x40001, 0x40001],
    [0xff0000, 0xff0000, 0xff0000, 0xff0000, 0xff0000, 0xff0000, 0xff0000, 0xff0000, 0xff0000,
     0xff0000, 0xff0000, 0xff0000, 0x205, 0xff0000, 0xff0000, 0xff0000, 0xff0000, 0xff0000,
     0xff0000, 0xff0000, 0xff0000, 0xff0000, 0xff0000, 0xff0000, 0xff0000, 0xff0000, 0xff0000,
     0xff0000, 0xff0000, 0xff0000, 0xff0000, 0xff0000, 0xff0000, 0xff0000],
    [0x404, 0x404, 0x404, 0x404, 0x404, 0x404, 0x404, 0x404, 0x404, 0x404, 0x404, 0x404, 0x404,
     0x404, 0x404, 0x404, 0x404, 0x404, 0x404, 0x404, 0x404, 0x404, 0x404, 0x404, 0x404, 0x404,
     0x404, 0x404, 0x404, 0x60001, 0x60001, 0x60001, 0x60001, 0x60001],
    [0x204, 0x204, 0x204, 0x204, 0x204, 0x204, 0x204, 0x204, 0x204, 0x204, 0x204, 0x204, 0x204,
     0x204, 0x204, 0x204, 0x204, 0x204, 0x204, 0x204, 0x204, 0x40001, 0x204, 0x204, 0x204, 0x204,
     0x204, 0x10005, 0x204, 0x204, 0x204, 0x204, 0x204, 0x204],
    [0x204, 0x204, 0x204, 0x204, 0x204, 0x204, 0x204, 0x204, 0x204, 0x204, 0x204, 0x204, 0x204,
     0x204, 0x204, 0x204, 0x204, 0x204, 0x204, 0x205, 0x204, 0x204, 0x204, 0x204, 0x204, 0x204,
     0x204, 0x204, 0x204, 0x204, 0x204, 0x204, 0x204, 0x204],
    [0xff0000, 0xff0000, 0xff0000, 0xff0000, 0xff0000, 0xff0000, 0xff0000, 0xff0000, 0xff0000,
     0xff0000, 0xff0000, 0xff0000, 0xff0000, 0xff0000, 0xff0000, 0xff0000, 0xff0000, 0xff0000,
     0xff0000, 0xff0000, 0xff0000, 0xff0000, 0xff0000, 0xff0000, 0xff0000, 0xff0000, 0xff0000,
     0xff0000, 0xff0000, 0x60001, 0x60001, 0x60001, 0x60001, 0x60001],
    [0xf0001, 0xf0001, 0xf0001, 0xf0001, 0xf0001, 0xf0001, 0xf0001, 0xf0001, 0xf0001, 0xf0001,
     0xf0001, 0xf0001, 0xf0001, 0xf0001, 0xf0001, 0xf0001, 0xf0001, 0xf0001, 0xf0001, 0xf0001,
     0xf0001, 0xf0001, 0xf0001, 0xf0001, 0xf0001, 0xf0001, 0xf0001, 0xf0001, 0xf0001, 0xf0001,
     0xf0001, 0xf0001, 0xf0001, 0xf0001],
    [0x104, 0x104, 0x104, 0x104, 0x104, 0x104, 0x104, 0x104, 0x104, 0x104, 0x104, 0x104, 0x104,
     0x104, 0x104, 0x20001, 0x104, 0x104, 0x104, 0x104, 0x104, 0x104, 0x104, 0x104, 0x104, 0x104,
     0x104, 0x104, 0x104, 0x30001, 0x30001, 0x104, 0x104, 0x104],
    [0xff0000, 0xff0000, 0xff0000, 0xff0000, 0xff0000, 0xff0000, 0xff0000, 0xff0000, 0xff0000,
     0xff0000, 0xff0000, 0xff0000, 0xff0000, 0x205, 0xff0000, 0xff0000, 0xff0000, 0xff0000,
     0xff0000, 0xff0000, 0xff0000, 0xff0000, 0xff0000, 0xff0000, 0xff0000, 0xff0000, 0xff0000,
     0xff0000, 0xff0000, 0xff0000, 0xff0000, 0xff0000, 0xff0000, 0xff0000],
    [0x104, 0x104, 0x104, 0x104, 0x104, 0x104, 0x104, 0x104, 0x104, 0x104, 0x104, 0x104, 0x104,
     0x104, 0x104, 0x104, 0x104, 0x104, 0x104, 0x205, 0x104, 0x104, 0x104, 0x104, 0x104, 0x104,
     0x104, 0x104, 0x104, 0x104, 0x104, 0x104, 0x104, 0x104],
    [0xe0001, 0xe0001, 0xe0001, 0x605, 0xe0001, 0xe0001, 0xe0001, 0xe0001, 0xe0001, 0xe0001,
     0xe0001, 0xe0001, 0xe0001, 0xe0001, 0xe0001, 0xe0001, 0xe0001, 0xe0001, 0xe0001, 0xe0001,
     0xe0001, 0xe0001, 0xe0001, 0xe0001, 0xe0001, 0xe0001, 0xe0001, 0xe0001, 0xe0001, 0xe0001,
     0xe0001, 0xe0001, 0xe0001, 0xe0001],
    [0xf0001, 0xf0001, 0xf0001, 0xf0001, 0x605, 0xf0001, 0xf0001, 0xf0001, 0xf0001, 0xf0001,
     0xf0001, 0xf0001, 0xf0001, 0xf0001, 0xf0001, 0xf0001, 0xf0001, 0xf0001, 0xf0001, 0xf0001,
     0xf0001, 0xf0001, 0xf0001, 0xf0001, 0xf0001, 0xf0001, 0xf0001, 0xf0001, 0xa0008, 0xf0001,
     0xf0001, 0xf0001, 0xf0001, 0xf0001],
    [0x40001, 0x40001, 0x40001, 0x40001, 0x40001, 0x40001, 0x40001, 0x40001, 0x40001, 0x40001,
     0x40001, 0x40001, 0x40001, 0x40001, 0x40001, 0x40001, 0x40001, 0x40001, 0x40001, 0x40001,
     0x40001, 0x40001, 0x40001, 0x40001, 0x40001, 0x40001, 0x40001, 0x705, 0x40001, 0x40001,
     0x40001, 0x40001, 0x40001, 0x40001]]"

section \<open>The generator of the table\<close>

text \<open>
  The states of \<open>lextable.go\<close>: for every state its actions, an action being the characters it is for,
  the next state, the kind of the lexeme it completes and its flags. The list has the order in
  which the generator that wrote \<open>lex_table.go\<close> met the states while it ranged over its map.
\<close>

type_synonym action = "string \<times> string \<times> string \<times> string"

definition BS :: char where "BS = char_of (92 :: nat)"

definition gen_states :: "(string \<times> action list) list" where
  "gen_states = [
    (''main'', [
       (''n;'', ''main'', ''newline'', ''next''),
       (''()#[],{}:'', ''main'', ''sys'', ''next''),
       (''s'', ''main'', '''', ''next''),
       (''q'', ''string'', '''', ''push next''),
       (''Q'', ''dstring'', '''', ''push next''),
       (''&'', ''and'', '''', ''push next''),
       (''|'', ''or'', '''', ''push next''),
       (''='', ''eq'', '''', ''push next''),
       (''/'', ''solidus'', '''', ''push next''),
       (''<>!'', ''oneq'', '''', ''push next''),
       (''*+-'', ''main'', ''oper'', ''next''),
       (''01'', ''number'', '''', ''push next''),
       (''a_r'', ''ident'', '''', ''push next''),
       (''@$'', ''mustident'', '''', ''push next''),
       (''.'', ''dot'', '''', ''push next''),
       (''d'', ''error'', '''', '''')]),
    (''comline'', [(''n'', ''main'', '''', ''''), (''d'', ''comline'', '''', ''next'')]),
    (''ddot'', [(''.'', ''main'', ''ident'', ''pop next''), (''d'', ''error'', '''', '''')]),
    (''number'', [(''01.'', ''number'', '''', ''next''), (''a_r'', ''error'', '''', ''''), (''d'', ''main'', ''number'', ''pop'')]),
    (''comment'', [(''*'', ''comstop'', '''', ''next''), (''d'', ''comment'', '''', ''next'')]),
    (''and'', [(''&'', ''main'', ''oper'', ''pop next''), (''d'', ''error'', '''', '''')]),
    (''ident'', [(''01a_r'', ''ident'', '''', ''next''), (''d'', ''main'', ''ident'', ''pop'')]),
    (''solidus'', [(''/'', ''comline'', '''', ''pop next''), (''*'', ''comment'', '''', ''next''), (''d'', ''main'', ''oper'', ''pop'')]),
    (''oneq'', [(''='', ''main'', ''oper'', ''pop next''), (''d'', ''main'', ''oper'', ''pop'')]),
    (''mustident'', [(''01a_r'', ''ident'', '''', ''next''), (''d'', ''error'', '''', '''')]),
    (''dslash'', [(''d'', ''dstring'', '''', ''next'')]),
    (''dot'', [(''.'', ''ddot'', '''', ''next''), (''01'', ''number'', '''', ''next''), (''d'', ''main'', ''sys'', ''pop'')]),
    (''or'', [(''|'', ''main'', ''oper'', ''pop next''), (''d'', ''error'', '''', '''')]),
    (''eq'', [(''='', ''main'', ''oper'', ''pop next''), (''d'', ''main'', ''sys'', ''pop'')]),
    (''string'', [(''q'', ''main'', ''string'', ''pop next''), (''d'', ''string'', '''', ''next'')]),
    (''dstring'', [(''Q'', ''main'', ''string'', ''pop next''), ([BS], ''dslash'', '''', ''skip''), (''d'', ''dstring'', '''', ''next'')]),
    (''comstop'', [(''/'', ''main'', ''comment'', ''pop next''), (''d'', ''comment'', '''', ''next'')])]"

text \<open>The alphabet of the generator: every character stands for itself or, as in \<open>main\<close>, for a class.\<close>

definition gen_alphabet :: "nat list" where
  "gen_alphabet = [0x01, 0x0a] @ map of_char '' `'' @ [34] @ map of_char '';()[]{}&|#.,<>=!*$@:+-/''
     @ [92] @ map of_char ''01a_'' @ [128]"

definition gen_lexem :: "(string \<times> 32 word) list" where
  "gen_lexem = [('''', 0), (''sys'', 1), (''oper'', 2), (''number'', 3), (''ident'', 4), (''newline'', 5),
     (''string'', 6), (''comment'', 7)]"

definition gen_flags :: "(string \<times> 32 word) list" where
  "gen_flags = [(''next'', 1), (''push'', 2), (''pop'', 4), (''skip'', 8)]"

definition AlphaSize :: nat where "AlphaSize = 34"

fun gen_alpha_loop :: "nat \<Rightarrow> nat list \<Rightarrow> nat list \<Rightarrow> nat list" where
  "gen_alpha_loop i [] alpha = alpha"
| "gen_alpha_loop i (ch # chs) alpha =
     gen_alpha_loop (Suc i) chs
       (if ch = 32 then alpha[9 := i, 13 := i, 32 := i]
        else if ch = 49 then foldl (\<lambda>a k. a[k := i]) alpha [49 ..< 58]
        else if ch = 97 then foldl (\<lambda>a k. a[k := i]) alpha ([65 ..< 91] @ [97 ..< 123])
        else if ch = 128 then alpha[128 := i]
        else alpha[ch := i])"

definition gen_alpha :: "nat list" where
  "gen_alpha = gen_alpha_loop 0 gen_alphabet (replicate 129 0)"

text \<open>A key that a Go map does not hold reads as 0; so does the position of a character not in the alphabet.\<close>

definition lookup0 :: "('k \<times> 32 word) list \<Rightarrow> 'k \<Rightarrow> 32 word" where
  "lookup0 m k = (case map_of m k of Some v \<Rightarrow> v | None \<Rightarrow> 0)"

fun position0 :: "nat list \<Rightarrow> nat \<Rightarrow> nat \<Rightarrow> nat" where
  "position0 [] i ch = 0"
| "position0 (a # as) i ch = (if a = ch then i else position0 as (Suc i) ch)"

definition gen_index :: "char \<Rightarrow> nat" where
  "gen_index ch =
     (if ch = CHR ''d'' then 0 else if ch = CHR ''n'' then 1 else if ch = CHR ''s'' then 2
      else if ch = CHR ''q'' then 3 else if ch = CHR ''Q'' then 4 else if ch = CHR ''r'' then AlphaSize - 1
      else position0 gen_alphabet 0 (of_char ch))"

definition gen_val :: "(string \<times> 32 word) list \<Rightarrow> action \<Rightarrow> 32 word" where
  "gen_val state2int act =
     (case act of (_, next, kind, cmds) \<Rightarrow>
        (if next = ''error'' then 0xff0000 else push_bit 16 (lookup0 state2int next))
        OR push_bit 8 (lookup0 gen_lexem kind)
        OR foldl (\<lambda>f c. f OR lookup0 gen_flags c) 0 (str_split CHR '' '' cmds))"

definition gen_set :: "32 word \<Rightarrow> 32 word list \<Rightarrow> char \<Rightarrow> 32 word list" where
  "gen_set val row ch =
     (let ind = gen_index ch; row = row[ind := val] in
      if ind = 0 then map (\<lambda>x. if x = 0xFE0000 then val else x) row else row)"

definition gen_row :: "(string \<times> 32 word) list \<Rightarrow> action list \<Rightarrow> 32 word list" where
  "gen_row state2int acts =
     foldl (\<lambda>row act. foldl (gen_set (gen_val state2int act)) row (fst act)) (replicate AlphaSize 0xFE0000) acts"

definition gen_table :: "(string \<times> action list) list \<Rightarrow> 32 word list list" where
  "gen_table states =
     (let state2int = zip (map fst states) (map of_nat [0 ..< length states])
      in map (gen_row state2int \<circ> snd) states)"

lemma gen_alpha_correct: "gen_alpha = alphabet"
  by code_simp

lemma gen_table_correct: "gen_table gen_states = lexTable"
  by code_simp

section \<open>Lexemes\<close>

text \<open>The kinds of lexemes and the flags of the machine.\<close>

definition lexSys :: "32 word" where "lexSys = 1"
definition lexOper :: "32 word" where "lexOper = 2"
definition lexNumber :: "32 word" where "lexNumber = 3"
definition lexIdent :: "32 word" where "lexIdent = 4"
definition lexNewLine :: "32 word" where "lexNewLine = 5"
definition lexString :: "32 word" where "lexString = 6"
definition lexComment :: "32 word" where "lexComment = 7"
definition lexKeyword :: "32 word" where "lexKeyword = 8"
definition lexType :: "32 word" where "lexType = 9"
definition lexExtend :: "32 word" where "lexExtend = 10"

definition lexfNext :: "32 word" where "lexfNext = 1"
definition lexfPush :: "32 word" where "lexfPush = 2"
definition lexfPop :: "32 word" where "lexfPop = 4"
definition lexfSkip :: "32 word" where "lexfSkip = 8"

lemmas lex_consts = lexSys_def lexOper_def lexNumber_def lexIdent_def lexNewLine_def lexString_def lexComment_def
  lexKeyword_def lexType_def lexExtend_def lexfNext_def lexfPush_def lexfPop_def lexfSkip_def

datatype keyword =
    keyContract | keyFunc | keyReturn | keyIf | keyElif | keyElse | keyWhile | keyTrue | keyFalse | keyVar
  | keyTX | keySettings | keyBreak | keyContinue | keyWarning | keyInfo | keyNil | keyAction | keyCond
  | keyTail | keyError

fun key_id :: "keyword \<Rightarrow> 32 word" where
  "key_id keyContract = 1" | "key_id keyFunc = 2" | "key_id keyReturn = 3" | "key_id keyIf = 4" | "key_id keyElif = 5"
| "key_id keyElse = 6" | "key_id keyWhile = 7" | "key_id keyTrue = 8" | "key_id keyFalse = 9" | "key_id keyVar = 10"
| "key_id keyTX = 11" | "key_id keySettings = 12" | "key_id keyBreak = 13" | "key_id keyContinue = 14"
| "key_id keyWarning = 15" | "key_id keyInfo = 16" | "key_id keyNil = 17" | "key_id keyAction = 18" | "key_id keyCond = 19"
| "key_id keyTail = 20" | "key_id keyError = 21"

definition keyword_map :: "(string \<times> keyword) list" where
  "keyword_map = [(''contract'', keyContract), (''func'', keyFunc), (''return'', keyReturn), (''if'', keyIf), (''elif'', keyElif),
     (''else'', keyElse), (''error'', keyError), (''warning'', keyWarning), (''info'', keyInfo), (''while'', keyWhile),
     (''data'', keyTX), (''settings'', keySettings), (''nil'', keyNil), (''action'', keyAction), (''conditions'', keyCond),
     (''true'', keyTrue), (''false'', keyFalse), (''break'', keyBreak), (''continue'', keyContinue), (''var'', keyVar),
     (''...'', keyTail)]"

text \<open>The types of the language; \<open>map\<close> and \<open>file\<close> name the same reflect type.\<close>

datatype ltype = TBool | TBytes | TInt | TAddress | TArray | TMap | TMoney | TFloat | TString

definition typesMap :: "(string \<times> ltype) list" where
  "typesMap = [(''bool'', TBool), (''bytes'', TBytes), (''int'', TInt), (''address'', TAddress), (''array'', TArray),
     (''map'', TMap), (''money'', TMoney), (''float'', TFloat), (''string'', TString), (''file'', TMap)]"

text \<open>
  The value of a lexeme, an \<open>interface{}\<close>: \<open>LInt\<close> is an \<open>int64\<close>, \<open>LConst\<close> the untyped constant \<open>keyFunc\<close>, which
  becomes an \<open>int\<close>, and \<open>LUint\<close> an \<open>uint32\<close>.
\<close>

datatype lexval = LNil | LUint "32 word" | LConst int | LInt int64 | LFloat "64 word" | LStr string | LBool bool | LType ltype

record Lexem =
  lx_Type :: "32 word"
  lx_Value :: lexval
  lx_Line :: "32 word"
  lx_Column :: "32 word"

record ifBuf =
  ib_count :: int
  ib_pair :: int
  ib_stop :: bool

section \<open>The loop of lexParser\<close>

text \<open>The variables of the loop. The buffer of the \<open>if\<close> statements has its last element first.\<close>

record lexst =
  ls_state :: byte
  ls_off :: nat
  ls_line :: "32 word"
  ls_offline :: "32 word"
  ls_start :: nat
  ls_skip :: bool
  ls_ifbuf :: "ifBuf list"
  ls_lexems :: "Lexem list"

definition todo :: "byte \<Rightarrow> rune \<Rightarrow> (byte \<times> 32 word \<times> 32 word) res" where
  "todo curState r =
     (let letter = (if r > 127 then alphabet ! (length alphabet - 1) else alphabet ! r) in
      if unat curState < length lexTable then
        let val = lexTable ! unat curState ! letter
        in Inr (ucast (drop_bit 16 val), drop_bit 8 val AND 0xff, val AND 0xff)
      else Inl (Panic ''index out of range''))"

text \<open>
  \<open>input[a:b]\<close>, a panic when it reaches behind the length. (Go allows that within the capacity; no pass
  of the loop gets there, as \<open>lex_step_inv\<close> shows.)
\<close>

definition sub_runes :: "rune list \<Rightarrow> nat \<Rightarrow> nat \<Rightarrow> rune list res" where
  "sub_runes input a b =
     (if a \<le> b \<and> b \<le> length input then Inr (take (b - a) (drop a input))
      else Inl (Panic ''slice bounds out of range''))"

definition rune_at :: "rune list \<Rightarrow> nat \<Rightarrow> rune res" where
  "rune_at input i = (if i < length input then Inr (input ! i) else Inl (Panic ''index out of range''))"

definition column :: "lexst \<Rightarrow> nat \<Rightarrow> 32 word" where
  "column s lexOff = of_nat lexOff - ls_offline s + 1"

definition add_lexem :: "32 word \<Rightarrow> lexval \<Rightarrow> nat \<Rightarrow> lexst \<Rightarrow> lexst" where
  "add_lexem ty v lexOff s =
     s\<lparr>ls_lexems := ls_lexems s @ [\<lparr>lx_Type = ty, lx_Value = v, lx_Line = ls_line s, lx_Column = column s lexOff\<rparr>]\<rparr>"

definition close_ifs :: "rune list \<Rightarrow> 32 word \<Rightarrow> nat \<Rightarrow> nat \<Rightarrow> lexst \<Rightarrow> lexst res" where
  "close_ifs input lexID lexOff right s =
     (case ls_ifbuf s of
        b # bs \<Rightarrow>
          if ib_stop b \<and> lexID \<noteq> lexNewLine then
            bind_res (sub_runes input lexOff right) (\<lambda>rs.
              let name = string_of_runes rs in
              if name \<noteq> ''else'' \<and> name \<noteq> ''elif''
              then Inr ((((\<lambda>s. add_lexem (lexSys OR push_bit 8 125) (LUint 125) lexOff s) ^^ nat (ib_count b)) s)\<lparr>ls_ifbuf := bs\<rparr>)
              else Inr (s\<lparr>ls_ifbuf := b\<lparr>ib_stop := False\<rparr> # bs\<rparr>))
          else Inr s
      | [] \<Rightarrow> Inr s)"

definition newline_pos :: "nat \<Rightarrow> string \<Rightarrow> lexst \<Rightarrow> lexst" where
  "newline_pos off value s =
     foldl (\<lambda>s (i, ch). if ch = 0xa then s\<lparr>ls_line := ls_line s + 1, ls_offline := of_nat off + of_nat i + 1\<rparr> else s)
       s (range_string 0 value)"

definition unescape :: "string \<Rightarrow> string" where
  "unescape v =
     (let v = str_replace [BS, char_of (34 :: nat)] [char_of (34 :: nat)] v;
          v = str_replace [BS, CHR ''t''] [char_of (9 :: nat)] v
      in str_replace [BS, CHR ''n''] [char_of (10 :: nat)] (str_replace [BS, CHR ''r''] [char_of (13 :: nat)] v))"

definition pair_bracket :: "32 word \<Rightarrow> ifBuf \<Rightarrow> ifBuf" where
  "pair_bracket ch b =
     (if ch = 123 then b\<lparr>ib_pair := ib_pair b + 1\<rparr>
      else if ch = 125 then
        let b = b\<lparr>ib_pair := ib_pair b - 1\<rparr>
        in if ib_pair b = 0 then b\<lparr>ib_stop := True\<rparr> else b
      else b)"

definition lex_sys :: "rune list \<Rightarrow> nat \<Rightarrow> lexst \<Rightarrow> (lexst \<times> 32 word \<times> lexval) res" where
  "lex_sys input lexOff s =
     bind_res (rune_at input lexOff) (\<lambda>r.
       let ch = of_nat r :: 32 word in
       Inr (s\<lparr>ls_ifbuf := (case ls_ifbuf s of [] \<Rightarrow> [] | b # bs \<Rightarrow> pair_bracket ch b # bs)\<rparr>,
            lexSys OR push_bit 8 ch, LUint ch))"

definition lex_text :: "rune list \<Rightarrow> 32 word \<Rightarrow> nat \<Rightarrow> nat \<Rightarrow> lexst \<Rightarrow> (lexst \<times> 32 word \<times> lexval) res" where
  "lex_text input lexID lexOff right s =
     bind_res (sub_runes input (lexOff + 1) (right - 1)) (\<lambda>rs.
       let value = string_of_runes rs;
           (s, value) = (if lexID = lexString \<and> ls_skip s then (s\<lparr>ls_skip := False\<rparr>, unescape value) else (s, value))
       in Inr (newline_pos (ls_off s) value s, lexID, LStr value))"

text \<open>\<open>binary.BigEndian.Uint32\<close> of the bytes of an operator, padded with zeros on the left.\<close>

definition lex_oper :: "rune list \<Rightarrow> nat \<Rightarrow> nat \<Rightarrow> lexst \<Rightarrow> (lexst \<times> 32 word \<times> lexval) res" where
  "lex_oper input lexOff right s =
     bind_res (sub_runes input lexOff right) (\<lambda>rs.
       let oper = bytes_of_string (string_of_runes rs) in
       if length oper > 4 then Inl (Panic ''makeslice: len out of range'')
       else Inr (s, lexOper, LUint (of_nat (be_nat oper))))"

definition num_error :: "num_err \<Rightarrow> string" where
  "num_error e = (case e of ErrSyntax \<Rightarrow> ''invalid syntax'' | ErrRange \<Rightarrow> ''value out of range'')"

definition lex_number ::
    "(string \<Rightarrow> string + 64 word) \<Rightarrow> rune list \<Rightarrow> nat \<Rightarrow> nat \<Rightarrow> lexst \<Rightarrow> (lexst \<times> 32 word \<times> lexval) res" where
  "lex_number ParseFloat input lexOff right s =
     bind_res (sub_runes input lexOff right) (\<lambda>rs.
       let name = string_of_runes rs;
           err = (\<lambda>e. Inl (Error (e @ '' '' @ name @ '' [Ln:'' @ show_nat (unat (ls_line s))
                        @ '' Col:'' @ show_nat (unat (column s (ls_off s))) @ '']'')))
       in if CHR ''.'' \<in> set name then
            case ParseFloat name of Inr v \<Rightarrow> Inr (s, lexNumber, LFloat v) | Inl e \<Rightarrow> err e
          else case ParseInt name of
            (v, None) \<Rightarrow> Inr (s, lexNumber, LInt (i64 v))
          | (_, Some e) \<Rightarrow> err (''strconv.ParseInt: parsing '' @ [char_of (34 :: nat)] @ name @ [char_of (34 :: nat)] @ '': '' @ num_error e))"

definition key_lexem :: "keyword \<Rightarrow> 32 word" where
  "key_lexem k = lexKeyword OR push_bit 8 (key_id k)"

text \<open>
  \<open>action\<close> and \<open>conditions\<close> get the keyword \<open>func\<close> in front of them unless it is there. The type assertion
  to \<open>uint32\<close> is only reached for a keyword.
\<close>

definition action_ident :: "nat \<Rightarrow> string \<Rightarrow> lexst \<Rightarrow> (lexst \<times> 32 word \<times> lexval) res" where
  "action_ident lexOff name s =
     (case rev (ls_lexems s) of
        [] \<Rightarrow> Inr (s, lexIdent, LStr name)
      | lexf # _ \<Rightarrow>
          let func = (key_lexem keyFunc, LConst 2) in
          if lx_Type lexf AND 0xff \<noteq> lexKeyword
          then Inr (add_lexem (fst func) (snd func) lexOff s, lexIdent, LStr name)
          else case lx_Value lexf of
            LUint v \<Rightarrow>
              Inr (if v \<noteq> key_id keyFunc then add_lexem (fst func) (snd func) lexOff s else s, lexIdent, LStr name)
          | _ \<Rightarrow> Inl (Panic ''interface conversion''))"

definition key_ident :: "keyword \<Rightarrow> nat \<Rightarrow> string \<Rightarrow> lexst \<Rightarrow> (lexst \<times> 32 word \<times> lexval) res" where
  "key_ident k lexOff name s =
     (case k of
        keyIf \<Rightarrow> Inr (s\<lparr>ls_ifbuf := \<lparr>ib_count = 0, ib_pair = 0, ib_stop = False\<rparr> # ls_ifbuf s\<rparr>,
                     key_lexem keyIf, LUint (key_id keyIf))
      | keyElif \<Rightarrow>
          (case ls_ifbuf s of
             b # bs \<Rightarrow>
               Inr ((add_lexem (lexSys OR push_bit 8 123) (LUint 123) lexOff
                      (add_lexem (key_lexem keyElse) (LUint (key_id keyElse)) lexOff s))
                      \<lparr>ls_ifbuf := b\<lparr>ib_count := ib_count b + 1\<rparr> # bs\<rparr>,
                    key_lexem keyIf, LUint (key_id keyIf))
           | [] \<Rightarrow> Inr (s, lexIdent, LNil))
      | keyAction \<Rightarrow> action_ident lexOff name s
      | keyCond \<Rightarrow> action_ident lexOff name s
      | keyTrue \<Rightarrow> Inr (s, lexNumber, LBool True)
      | keyFalse \<Rightarrow> Inr (s, lexNumber, LBool False)
      | keyNil \<Rightarrow> Inr (s, lexNumber, LNil)
      | _ \<Rightarrow> Inr (s, key_lexem k, LUint (key_id k)))"

definition name_ident :: "nat \<Rightarrow> string \<Rightarrow> lexst \<Rightarrow> (lexst \<times> 32 word \<times> lexval) res" where
  "name_ident lexOff name s =
     (if name = [] then Inl (Panic ''index out of range'')
      else if hd name = CHR ''$'' then Inr (s, lexExtend, LStr (tl name))
      else case map_of keyword_map name of
        Some k \<Rightarrow> key_ident k lexOff name s
      | None \<Rightarrow>
          (case map_of typesMap name of
             Some t \<Rightarrow> Inr (s, lexType, LType t)
           | None \<Rightarrow> Inr (s, lexIdent, LStr name)))"

definition lex_ident :: "rune list \<Rightarrow> nat \<Rightarrow> nat \<Rightarrow> lexst \<Rightarrow> (lexst \<times> 32 word \<times> lexval) res" where
  "lex_ident input lexOff right s =
     bind_res (sub_runes input lexOff right) (\<lambda>rs. name_ident lexOff (string_of_runes rs) s)"

definition lex_value ::
    "(string \<Rightarrow> string + 64 word) \<Rightarrow> rune list \<Rightarrow> 32 word \<Rightarrow> nat \<Rightarrow> nat \<Rightarrow> lexst \<Rightarrow> (lexst \<times> 32 word \<times> lexval) res" where
  "lex_value ParseFloat input lexID lexOff right s =
     (if lexID = lexNewLine then
        bind_res (rune_at input lexOff) (\<lambda>r.
          Inr (if r = 0x0a then s\<lparr>ls_line := ls_line s + 1, ls_offline := of_nat (ls_off s)\<rparr> else s, lexID, LNil))
      else if lexID = lexSys then lex_sys input lexOff s
      else if lexID = lexString \<or> lexID = lexComment then lex_text input lexID lexOff right s
      else if lexID = lexOper then lex_oper input lexOff right s
      else if lexID = lexNumber then lex_number ParseFloat input lexOff right s
      else if lexID = lexIdent then lex_ident input lexOff right s
      else Inr (s, lexID, LNil))"

text \<open>
  One pass through the loop. \<open>cap\<close> is the capacity of \<open>input\<close>: the error message for an unknown lexeme
  slices \<open>input[off:off+1]\<close>, also when \<open>off\<close> is the position behind the last rune, where the slice
  holds whatever lies there (\<open>behind\<close>) if the capacity allows and panics otherwise.
\<close>

definition unknown_lexem :: "nat \<Rightarrow> rune \<Rightarrow> rune list \<Rightarrow> lexst \<Rightarrow> go_exc" where
  "unknown_lexem cap behind input s =
     (let off = ls_off s in
      if off + 1 > cap then Panic ''slice bounds out of range''
      else Error (''unknown lexem '' @ string_of_runes [if off < length input then input ! off else behind]
             @ '' [Ln:'' @ show_nat (unat (ls_line s)) @ '' Col:'' @ show_nat (unat (column s off)) @ '']''))"

definition lex_emit ::
    "(string \<Rightarrow> string + 64 word) \<Rightarrow> rune list \<Rightarrow> 32 word \<Rightarrow> 32 word \<Rightarrow> lexst \<Rightarrow> lexst res" where
  "lex_emit ParseFloat input lexID flags s =
     (if lexID = 0 then Inr s
      else
        let lexOff = (if flags AND lexfPop \<noteq> 0 then ls_start s else ls_off s);
            right = (if flags AND lexfNext \<noteq> 0 then ls_off s + 1 else ls_off s)
        in bind_res (close_ifs input lexID lexOff right s) (\<lambda>s.
           bind_res (lex_value ParseFloat input lexID lexOff right s) (\<lambda>(s, lexID, value).
             Inr (if lexID \<noteq> lexComment then add_lexem lexID value lexOff s else s))))"

definition lex_step ::
    "(string \<Rightarrow> string + 64 word) \<Rightarrow> nat \<Rightarrow> rune \<Rightarrow> rune list \<Rightarrow> lexst \<Rightarrow> lexst res" where
  "lex_step ParseFloat cap behind input s =
     bind_res (todo (ls_state s) (if ls_off s = length input then 32 else input ! ls_off s)) (\<lambda>(st, lexID, flags).
       let s = s\<lparr>ls_state := st\<rparr> in
       if st = 0xff then Inl (unknown_lexem cap behind input s)
       else if flags AND lexfSkip \<noteq> 0 then Inr (s\<lparr>ls_off := ls_off s + 1, ls_skip := True\<rparr>)
       else bind_res (lex_emit ParseFloat input lexID flags s) (\<lambda>s.
         let s = (if flags AND lexfPush \<noteq> 0 then s\<lparr>ls_start := ls_off s\<rparr> else s)
         in Inr (if flags AND lexfNext \<noteq> 0 then s\<lparr>ls_off := ls_off s + 1\<rparr> else s)))"

section \<open>Properties of the machine\<close>

definition entry :: "32 word \<Rightarrow> byte \<times> 32 word \<times> 32 word" where
  "entry val = (ucast (drop_bit 16 val), drop_bit 8 val AND 0xff, val AND 0xff)"

definition machine :: "byte \<Rightarrow> nat \<Rightarrow> byte \<times> 32 word \<times> 32 word" where
  "machine st letter = entry (lexTable ! unat st ! letter)"

definition letter_of :: "rune \<Rightarrow> nat" where
  "letter_of r = (if r > 127 then alphabet ! (length alphabet - 1) else alphabet ! r)"

lemma length_lexTable: "length lexTable = 17"
  by code_simp

lemma alphabet_letters: "length alphabet = 129" "list_all (\<lambda>x. x < 34) alphabet"
  by code_simp+

lemma letter_of_less: "letter_of r < 34"
  using alphabet_letters unfolding letter_of_def list_all_length by auto

lemma letter_of_ascii: "letter_of r \<noteq> 33 \<Longrightarrow> r \<le> 127"
proof (rule ccontr)
  assume "letter_of r \<noteq> 33" "\<not> r \<le> 127"
  moreover have "alphabet ! 128 = 33" by code_simp
  ultimately show False by (simp add: letter_of_def alphabet_letters)
qed

lemma letter_of_space: "letter_of 32 = 2"
  by code_simp

lemma todo_machine: "unat st < 17 \<Longrightarrow> todo st r = Inr (machine st (letter_of r))"
  by (simp add: todo_def machine_def entry_def letter_of_def length_lexTable Let_def)

text \<open>
  What the loop relies on, checked entry by entry: a pass moves on, or gives control back to the
  main state, which always moves on; the main state remembers the start of every lexeme it does
  not complete at once; the states of \<open>&\<close>, \<open>/\<close>, the comparisons, \<open>|\<close> and \<open>=\<close> are left after one rune.
\<close>

definition oper_state :: "byte \<Rightarrow> bool" where
  "oper_state st \<longleftrightarrow> st = 5 \<or> st = 7 \<or> st = 8 \<or> st = 12 \<or> st = 13"

definition main_entry_ok :: "nat \<Rightarrow> byte \<times> 32 word \<times> 32 word \<Rightarrow> bool" where
  "main_entry_ok letter e =
     (case e of (st', lexID, flags) \<Rightarrow>
        if st' = 0 then flags = 1 \<and> (lexID = 0 \<or> letter \<noteq> 2 \<and> (lexID = 1 \<or> lexID = 2 \<and> letter \<noteq> 33 \<or> lexID = 5))
        else lexID = 0 \<and> flags = 3 \<and> letter \<noteq> 2 \<and> (oper_state st' \<longrightarrow> letter \<noteq> 33))"

definition entry_ok :: "byte \<Rightarrow> nat \<Rightarrow> byte \<times> 32 word \<times> 32 word \<Rightarrow> bool" where
  "entry_ok st letter e =
     (case e of (st', lexID, flags) \<Rightarrow>
        st' = 255 \<or> st' < 17 \<and>
        (if st = 0 then main_entry_ok letter e
         else if lexID \<noteq> 0 then
           st' = 0 \<and> (flags = 4 \<and> lexID \<noteq> 6 \<and> lexID \<noteq> 7 \<or> flags = 5 \<and> letter \<noteq> 2 \<and> (lexID = 2 \<longrightarrow> letter \<noteq> 33))
           \<and> (lexID = 2 \<longrightarrow> oper_state st) \<and> lexID < 8
         else \<not> oper_state st'
           \<and> (flags = 1 \<or> flags = 5 \<and> st' \<noteq> 0 \<or> flags = 8 \<and> letter = 28 \<and> st' \<noteq> 0 \<or> flags = 0 \<and> st' = 0)))"

lemma entries_ok:
  "list_all (\<lambda>(st, row). length row = 34 \<and> list_all (\<lambda>(letter, val). entry_ok (of_nat st) letter (entry val)) (enumerate 0 row))
     (enumerate 0 lexTable)"
  by code_simp

lemma machine_ok:
  assumes "unat st < 17" "letter < 34"
  shows "entry_ok st letter (machine st letter)"
proof -
  let ?st = "unat st"
  have "(?st, lexTable ! ?st) \<in> set (enumerate 0 lexTable)"
    using assms(1) by (simp add: in_set_enumerate_eq length_lexTable)
  from bspec [OF entries_ok [unfolded list_all_iff] this]
  have r: "length (lexTable ! ?st) = 34"
      "list_all (\<lambda>(letter, val). entry_ok st letter (entry val)) (enumerate 0 (lexTable ! ?st))"
    by (simp_all add: list_all_iff)
  have "(letter, lexTable ! ?st ! letter) \<in> set (enumerate 0 (lexTable ! ?st))"
    using assms(2) r(1) by (simp add: in_set_enumerate_eq)
  then show ?thesis using r(2) by (auto simp: list_all_iff machine_def)
qed

lemma todo_ok:
  assumes "todo st r = Inr (st', lexID, flags)"
  shows "entry_ok st (letter_of r) (st', lexID, flags) \<and> unat st < 17"
proof (cases "unat st < 17")
  case True
  then show ?thesis using assms machine_ok [OF True letter_of_less, of r] by (simp add: todo_machine)
next
  case False
  then show ?thesis using assms by (simp add: todo_def length_lexTable)
qed

section \<open>The loop ends\<close>

lemma add_lexem_simps [simp]:
  "ls_off (add_lexem t v p s) = ls_off s" "ls_state (add_lexem t v p s) = ls_state s"
  "ls_start (add_lexem t v p s) = ls_start s" "ls_ifbuf (add_lexem t v p s) = ls_ifbuf s"
  by (simp_all add: add_lexem_def)

lemma add_lexems_simps [simp]:
  "ls_off ((add_lexem t v p ^^ n) s) = ls_off s" "ls_state ((add_lexem t v p ^^ n) s) = ls_state s"
  "ls_start ((add_lexem t v p ^^ n) s) = ls_start s"
  by (induction n) simp_all

lemma newline_pos_simps [simp]:
  "ls_off (newline_pos off v s) = ls_off s" "ls_state (newline_pos off v s) = ls_state s"
  "ls_start (newline_pos off v s) = ls_start s" "ls_lexems (newline_pos off v s) = ls_lexems s"
proof -
  have "ls_off (foldl f s xs) = ls_off s \<and> ls_state (foldl f s xs) = ls_state s \<and> ls_start (foldl f s xs) = ls_start s
      \<and> ls_lexems (foldl f s xs) = ls_lexems s"
    if "f = (\<lambda>s (i, ch). if ch = 0xa then s\<lparr>ls_line := ls_line s + 1, ls_offline := of_nat off + of_nat i + 1\<rparr> else s)"
    for f and xs :: "(nat \<times> rune) list" and s :: lexst
    unfolding that by (induction xs arbitrary: s) auto
  then show "ls_off (newline_pos off v s) = ls_off s" "ls_state (newline_pos off v s) = ls_state s"
    "ls_start (newline_pos off v s) = ls_start s" "ls_lexems (newline_pos off v s) = ls_lexems s"
    unfolding newline_pos_def by blast+
qed

definition same_pos :: "lexst \<Rightarrow> lexst \<Rightarrow> bool" where
  "same_pos s s' \<longleftrightarrow> ls_off s' = ls_off s \<and> ls_state s' = ls_state s \<and> ls_start s' = ls_start s"

lemma close_ifs_pos: "close_ifs input l p r s = Inr s' \<Longrightarrow> same_pos s s'"
  by (auto simp: close_ifs_def same_pos_def res_simps Let_def split: list.splits if_splits)

lemma action_ident_pos: "action_ident p n s = Inr (s', x) \<Longrightarrow> same_pos s s'"
  by (auto simp: action_ident_def same_pos_def Let_def split: list.splits if_splits lexval.splits)

lemma key_ident_pos: "key_ident k p n s = Inr (s', x) \<Longrightarrow> same_pos s s'"
  by (cases k) (auto simp: key_ident_def same_pos_def split: list.splits dest: action_ident_pos [unfolded same_pos_def])

lemma lex_ident_pos: "lex_ident input p r s = Inr (s', x) \<Longrightarrow> same_pos s s'"
  by (auto simp: lex_ident_def name_ident_def res_simps split: if_splits option.splits dest: key_ident_pos)
    (simp_all add: same_pos_def)

lemma lex_value_pos: "lex_value pf input l p r s = Inr (s', x) \<Longrightarrow> same_pos s s'"
proof -
  assume "lex_value pf input l p r s = Inr (s', x)"
  moreover have "lex_sys input p s = Inr (s', x) \<Longrightarrow> same_pos s s'"
    by (auto simp: lex_sys_def res_simps same_pos_def Let_def)
  moreover have "lex_text input l p r s = Inr (s', x) \<Longrightarrow> same_pos s s'"
    by (auto simp: lex_text_def res_simps same_pos_def Let_def split: if_splits)
  moreover have "lex_oper input p r s = Inr (s', x) \<Longrightarrow> same_pos s s'"
    by (auto simp: lex_oper_def res_simps same_pos_def Let_def split: if_splits)
  moreover have "lex_number pf input p r s = Inr (s', x) \<Longrightarrow> same_pos s s'"
    by (auto simp: lex_number_def res_simps same_pos_def Let_def split: if_splits sum.splits prod.splits option.splits)
  ultimately show ?thesis unfolding lex_value_def
    by (auto dest: lex_ident_pos simp: res_simps split: if_splits) (auto simp: same_pos_def)
qed

lemma lex_emit_pos: "lex_emit pf input l f s = Inr s' \<Longrightarrow> same_pos s s'"
  by (auto simp: lex_emit_def res_simps Let_def split: if_splits dest!: close_ifs_pos lex_value_pos)
    (auto simp: same_pos_def)

text \<open>A pass of the loop moves on, or it leaves a state and the main state moves on next.\<close>

lemma lex_step_progress:
  assumes "lex_step pf cap behind input s = Inr s'"
  shows "ls_off s < ls_off s' \<or> ls_off s' = ls_off s \<and> ls_state s \<noteq> 0 \<and> ls_state s' = 0"
proof -
  let ?r = "if ls_off s = length input then 32 else input ! ls_off s"
  obtain st l f where t: "todo (ls_state s) ?r = Inr (st, l, f)"
    using assms by (auto simp: lex_step_def res_simps split: prod.splits)
  note e = todo_ok [OF t]
  show ?thesis
  proof (cases "f AND lexfSkip \<noteq> 0")
    case True
    then show ?thesis using assms t by (auto simp: lex_step_def Let_def split: if_splits)
  next
    case False
    then obtain s1 where s1: "st \<noteq> 0xff" "lex_emit pf input l f (s\<lparr>ls_state := st\<rparr>) = Inr s1"
      and s': "s' = (let s2 = (if f AND lexfPush \<noteq> 0 then s1\<lparr>ls_start := ls_off s1\<rparr> else s1)
          in if f AND lexfNext \<noteq> 0 then s2\<lparr>ls_off := ls_off s2 + 1\<rparr> else s2)"
      using assms t by (auto simp: lex_step_def Let_def res_simps split: if_splits)
    have p: "ls_off s1 = ls_off s" "ls_state s1 = st" using lex_emit_pos [OF s1(2)] by (simp_all add: same_pos_def)
    show ?thesis
    proof (cases "f AND lexfNext \<noteq> 0")
      case True
      then show ?thesis by (simp add: s' p Let_def)
    next
      case n: False
      then have "f \<noteq> 1" "f \<noteq> 3" "f \<noteq> 5" by (auto simp: lexfNext_def)
      moreover have "f \<noteq> 8" using False by (auto simp: lexfSkip_def)
      ultimately have "ls_state s \<noteq> 0 \<and> st = 0"
        using e s1(1) by (auto simp: entry_ok_def main_entry_ok_def split: if_splits)
      then show ?thesis using n by (simp add: s' p Let_def)
    qed
  qed
qed

function lex_loop :: "(string \<Rightarrow> string + 64 word) \<Rightarrow> nat \<Rightarrow> rune \<Rightarrow> rune list \<Rightarrow> lexst \<Rightarrow> lexst res" where
  "lex_loop ParseFloat cap behind input s =
     (if ls_off s < length input + 1
      then bind_res (lex_step ParseFloat cap behind input s) (lex_loop ParseFloat cap behind input)
      else Inr s)"
  by pat_completeness auto
termination
proof (relation "measures [\<lambda>(_, _, _, input, s). length input + 1 - ls_off s,
    \<lambda>(_, _, _, _, s). if ls_state s = 0 then 0 else 1]")
  fix pf cap behind input s s'
  assume "ls_off s < length input + 1" "lex_step pf cap behind input s = Inr s'"
  with lex_step_progress [OF this(2)]
  show "((pf, cap, behind, input, s'), (pf, cap, behind, input, s))
    \<in> measures [\<lambda>(_, _, _, input, s). length input + 1 - ls_off s, \<lambda>(_, _, _, _, s). if ls_state s = 0 then 0 else 1]"
    by auto
qed simp

declare lex_loop.simps [simp del]

text \<open>\<open>ParseFloat\<close>, the capacity of \<open>input\<close> and what lies behind its runes are arguments.\<close>

definition lexParser :: "(string \<Rightarrow> string + 64 word) \<Rightarrow> nat \<Rightarrow> rune \<Rightarrow> rune list \<Rightarrow> Lexem list res" where
  "lexParser ParseFloat cap behind input =
     bind_res (lex_loop ParseFloat cap behind input
       \<lparr>ls_state = 0, ls_off = 0, ls_line = 1, ls_offline = 0, ls_start = 0, ls_skip = False, ls_ifbuf = [], ls_lexems = []\<rparr>)
       (\<lambda>s. Inr (ls_lexems s))"

section \<open>No pass of the loop leaves its slices\<close>

text \<open>A lexeme of a keyword carries an \<open>uint32\<close>, as the type assertion for \<open>action\<close> expects.\<close>

definition kw_val :: "32 word \<Rightarrow> lexval \<Rightarrow> bool" where
  "kw_val t v \<longleftrightarrow> (t AND 0xff = lexKeyword \<longrightarrow> (\<exists>w. v = LUint w))"

definition kw_ok :: "lexst \<Rightarrow> bool" where
  "kw_ok s \<longleftrightarrow> ls_lexems s = [] \<or> kw_val (lx_Type (last (ls_lexems s))) (lx_Value (last (ls_lexems s)))"

lemma kw_ok_add [simp]: "kw_ok (add_lexem t v p s) \<longleftrightarrow> kw_val t v"
  by (simp add: kw_ok_def add_lexem_def)

lemma kw_ok_upd [simp]:
  "kw_ok (s\<lparr>ls_ifbuf := x\<rparr>) = kw_ok s" "kw_ok (s\<lparr>ls_skip := b\<rparr>) = kw_ok s" "kw_ok (s\<lparr>ls_off := n\<rparr>) = kw_ok s"
  "kw_ok (s\<lparr>ls_start := n\<rparr>) = kw_ok s" "kw_ok (s\<lparr>ls_state := st\<rparr>) = kw_ok s"
  "kw_ok (s\<lparr>ls_line := l, ls_offline := o'\<rparr>) = kw_ok s"
  by (simp_all add: kw_ok_def)

lemma kw_ok_newline [simp]: "kw_ok (newline_pos off v s) = kw_ok s"
  by (simp add: kw_ok_def)

lemma sys_low: "(lexSys OR push_bit 8 ch) AND 0xff = 1"
proof -
  have m: "(0xff :: 32 word) = mask 8" by (simp add: mask_eq_exp_minus_1)
  have "push_bit 8 ch AND 0xff = 0"
    unfolding m by (rule bit_word_eqI) (auto simp: bit_simps)
  then show ?thesis by (simp add: lexSys_def word_ao_dist)
qed

lemma kw_val_sys [simp]: "kw_val (lexSys OR push_bit 8 ch) v"
  by (simp add: kw_val_def sys_low lexKeyword_def)

lemma kw_val_others [simp]:
  "kw_val lexIdent v" "kw_val lexNumber v" "kw_val lexType v" "kw_val lexExtend v" "kw_val lexOper v" "kw_val lexString v"
  "kw_val lexComment v" "kw_val lexNewLine v" "kw_val t (LUint w)" "kw_val (lexSys OR 32000) v" "kw_val (lexSys OR 31488) v"
  by (simp_all add: kw_val_def lex_consts)

definition no_panic :: "'a res \<Rightarrow> bool" where
  "no_panic r \<longleftrightarrow> (case r of Inl (Error _) \<Rightarrow> True | Inl _ \<Rightarrow> False | Inr _ \<Rightarrow> True)"

lemma sub_runes_ok: "a \<le> b \<Longrightarrow> b \<le> length input \<Longrightarrow> sub_runes input a b = Inr (take (b - a) (drop a input))"
  by (simp add: sub_runes_def)

lemma close_ifs_kw:
  assumes "close_ifs input l p r s = Inr s'" "kw_ok s"
  shows "kw_ok s'"
proof -
  have "kw_ok ((add_lexem (lexSys OR push_bit 8 125) v p ^^ n) s)" for v n
    using assms(2) by (induction n) simp_all
  then show ?thesis using assms
    by (auto simp: close_ifs_def res_simps Let_def split: list.splits if_splits)
qed

lemma close_ifs_ok: "p \<le> r \<Longrightarrow> r \<le> length input \<Longrightarrow> \<exists>s'. close_ifs input l p r s = Inr s'"
  by (auto simp: close_ifs_def sub_runes_ok Let_def split: list.splits)

lemma action_ident_ok:
  assumes "kw_ok s"
  shows "\<exists>s' t v. action_ident p n s = Inr (s', t, v) \<and> kw_val t v \<and> t \<noteq> lexComment"
proof (cases "rev (ls_lexems s)")
  case (Cons l ls)
  then have l: "last (ls_lexems s) = l" "ls_lexems s \<noteq> []" by (auto simp: last_rev [symmetric] simp del: last_rev)
  then show ?thesis
    using assms Cons by (auto simp: action_ident_def kw_ok_def kw_val_def Let_def lex_consts)
qed (simp add: action_ident_def lexIdent_def lexComment_def kw_val_def lexKeyword_def)

lemma name_ident_ok:
  assumes "kw_ok s" "n \<noteq> []"
  shows "\<exists>s' t v. name_ident p n s = Inr (s', t, v) \<and> kw_val t v \<and> t \<noteq> lexComment"
proof -
  have "\<exists>s' t v. key_ident k p n s = Inr (s', t, v) \<and> kw_val t v \<and> t \<noteq> lexComment" for k
    using action_ident_ok [OF assms(1)] by (cases k) (auto simp: key_ident_def key_lexem_def lex_consts kw_val_def split: list.splits)
  then show ?thesis using assms(2)
    by (auto simp: name_ident_def lexComment_def lexExtend_def lexType_def lexIdent_def lexKeyword_def kw_val_def split: option.splits)
qed

lemma take_drop_two: "a < length xs \<Longrightarrow> b \<le> length xs \<Longrightarrow> b - a \<le> 2 \<Longrightarrow> a < b \<Longrightarrow>
  take (b - a) (drop a xs) = xs ! a # (if b = a + 1 then [] else [xs ! (a + 1)])"
  by (cases "b = a + 1") (auto simp: Cons_nth_drop_Suc [symmetric] numeral_2_eq_2 take_Suc_Cons le_Suc_eq)

lemma string_of_runes_not_Nil: "rs \<noteq> [] \<Longrightarrow> string_of_runes rs \<noteq> []"
  by (cases rs) (simp_all add: utf8_encode_not_Nil)

lemma lex_oper_ok:
  assumes "p < length input" "input ! p \<le> 127" "p < r" "r \<le> length input" "r \<le> p + 2" "r = p + 1 \<or> input ! (p + 1) \<le> 127"
  shows "\<exists>v. lex_oper input p r s = Inr (s, lexOper, LUint v)"
  using assms by (auto simp: lex_oper_def sub_runes_ok take_drop_two Let_def utf8_encode_ascii bytes_of_string_def)

lemma lex_value_ok:
  assumes "kw_ok s" "p < r" "r \<le> length input" "l < 8"
    and "l = lexString \<or> l = lexComment \<Longrightarrow> p + 1 < r"
    and "l = lexOper \<Longrightarrow> input ! p \<le> 127 \<and> r \<le> p + 2 \<and> (r = p + 1 \<or> input ! (p + 1) \<le> 127)"
  shows "case lex_value pf input l p r s of
      Inl e \<Rightarrow> (\<exists>m. e = Error m) | Inr (s', t, v) \<Rightarrow> kw_val t v \<and> (t = lexComment \<longrightarrow> kw_ok s')"
proof -
  have rs: "sub_runes input p r = Inr (take (r - p) (drop p input))" using assms(2,3) by (simp add: sub_runes_ok)
  have ne: "string_of_runes (take (r - p) (drop p input)) \<noteq> []"
    using assms(2,3) by (intro string_of_runes_not_Nil) simp
  consider "l = lexNewLine" | "l = lexSys" | "l = lexString \<or> l = lexComment" | "l = lexOper" | "l = lexNumber" | "l = lexIdent"
    | "l \<notin> {lexNewLine, lexSys, lexString, lexComment, lexOper, lexNumber, lexIdent}" by blast
  then show ?thesis
  proof cases
    case 1
    then show ?thesis using assms(1,2,3) by (simp add: lex_value_def rune_at_def)
  next
    case 2
    then show ?thesis using assms(1,2,3) by (simp add: lex_value_def lex_consts lex_sys_def rune_at_def Let_def)
  next
    case 3
    then have "sub_runes input (p + 1) (r - 1) = Inr (take (r - 1 - (p + 1)) (drop (p + 1) input))"
      using assms(3,5) by (intro sub_runes_ok) auto
    then show ?thesis using 3 assms(1) by (auto simp: lex_value_def lex_text_def lex_consts Let_def kw_val_def)
  next
    case 4
    then obtain v where "lex_oper input p r s = Inr (s, lexOper, LUint v)"
      using lex_oper_ok [of p input r s] assms(2,3,6) by auto
    then show ?thesis using 4 by (simp add: lex_value_def lex_consts)
  next
    case 5
    then show ?thesis by (auto simp: lex_value_def lex_number_def rs lex_consts Let_def kw_val_def split: sum.splits prod.splits option.splits)
  next
    case 6
    then show ?thesis using name_ident_ok [OF assms(1) ne, of p]
      by (auto simp: lex_value_def lex_ident_def rs lex_consts)
  next
    case 7
    have "l AND 0xff \<le> l" by (rule word_and_le2)
    then have "l AND 0xff < 8" using assms(4) by simp
    then show ?thesis using 7 assms(1) by (auto simp: lex_value_def kw_val_def lexKeyword_def)
  qed
qed

lemma lex_emit_ok:
  assumes "kw_ok s" "l < 8" "flags = 1 \<or> flags = 4 \<or> flags = 5 \<or> l = 0"
    and "p = (if flags AND lexfPop \<noteq> 0 then ls_start s else ls_off s)"
    and "r = (if flags AND lexfNext \<noteq> 0 then ls_off s + 1 else ls_off s)"
    and "l \<noteq> 0 \<Longrightarrow> p < r \<and> r \<le> length input"
    and "l = lexString \<or> l = lexComment \<Longrightarrow> p + 1 < r"
    and "l = lexOper \<Longrightarrow> input ! p \<le> 127 \<and> r \<le> p + 2 \<and> (r = p + 1 \<or> input ! (p + 1) \<le> 127)"
  shows "case lex_emit pf input l flags s of Inl e \<Rightarrow> (\<exists>m. e = Error m) | Inr s' \<Rightarrow> kw_ok s'"
proof (cases "l = 0")
  case True
  then show ?thesis using assms(1) by (simp add: lex_emit_def)
next
  case False
  then have b: "p < r" "r \<le> length input" using assms(6) by simp_all
  then obtain s1 where s1: "close_ifs input l p r s = Inr s1" using close_ifs_ok [of p r input l s] by auto
  note v = lex_value_ok [OF close_ifs_kw [OF s1 assms(1)] b assms(2,7,8), of pf]
  show ?thesis
    using v s1 False close_ifs_kw [OF s1 assms(1)] unfolding lex_emit_def assms(4,5) [symmetric]
    by (auto split: sum.splits)
qed

definition lex_inv :: "rune list \<Rightarrow> lexst \<Rightarrow> bool" where
  "lex_inv input s \<longleftrightarrow>
     unat (ls_state s) < 17 \<and> kw_ok s
     \<and> (ls_state s \<noteq> 0 \<longrightarrow> ls_start s < ls_off s \<and> ls_start s < length input)
     \<and> (oper_state (ls_state s) \<longrightarrow> ls_off s = ls_start s + 1 \<and> input ! ls_start s \<le> 127)"

lemma flag_bits:
  "(1 :: 32 word) AND lexfSkip = 0" "3 AND lexfSkip = 0" "4 AND lexfSkip = 0" "5 AND lexfSkip = 0" "0 AND lexfSkip = 0"
  "8 AND lexfSkip \<noteq> 0"
  "(1 :: 32 word) AND lexfPush = 0" "3 AND lexfPush \<noteq> 0" "4 AND lexfPush = 0" "5 AND lexfPush = 0"
  "(1 :: 32 word) AND lexfPop = 0" "3 AND lexfPop = 0" "4 AND lexfPop \<noteq> 0" "5 AND lexfPop \<noteq> 0"
  "(1 :: 32 word) AND lexfNext \<noteq> 0" "3 AND lexfNext \<noteq> 0" "4 AND lexfNext = 0" "5 AND lexfNext \<noteq> 0"
  by (simp_all add: lex_consts)

lemma unat_less_17: "(st :: byte) < 17 \<Longrightarrow> unat st < 17"
  by (simp add: word_less_nat_alt)

lemma main_not_oper: "\<not> oper_state 0"
  by (simp add: oper_state_def)

lemma lex_step_emit:
  assumes "todo (ls_state s) (if ls_off s = length input then 32 else input ! ls_off s) = Inr (st, l, f)"
    and "st \<noteq> 255" "f AND lexfSkip = 0"
    and "case lex_emit pf input l f (s\<lparr>ls_state := st\<rparr>) of Inl e \<Rightarrow> (\<exists>m. e = Error m) | Inr s' \<Rightarrow> kw_ok s'"
  shows "(\<exists>m. lex_step pf cap behind input s = Inl (Error m))
    \<or> (\<exists>s'. lex_step pf cap behind input s = Inr s' \<and> kw_ok s' \<and> ls_state s' = st
         \<and> ls_off s' = (if f AND lexfNext \<noteq> 0 then ls_off s + 1 else ls_off s)
         \<and> ls_start s' = (if f AND lexfPush \<noteq> 0 then ls_off s else ls_start s))"
proof (cases "lex_emit pf input l f (s\<lparr>ls_state := st\<rparr>)")
  case (Inl e)
  then show ?thesis using assms by (auto simp: lex_step_def Let_def)
next
  case (Inr s1)
  then show ?thesis
    using assms lex_emit_pos [OF Inr] by (auto simp: lex_step_def Let_def same_pos_def)
qed

text \<open>
  The only panic a pass can run into is that of the error message at the end of a source whose
  slice has no capacity left.
\<close>

lemma lex_step_inv:
  assumes "lex_inv input s" "ls_off s \<le> length input" "length input \<le> cap"
  shows "case lex_step pf cap behind input s of
      Inl e \<Rightarrow> (\<exists>m. e = Error m) \<or> (\<exists>m. e = Panic m) \<and> ls_off s = length input \<and> cap = length input
    | Inr s' \<Rightarrow> lex_inv input s'"
proof -
  let ?o = "ls_off s" and ?st = "ls_state s"
  let ?r = "if ?o = length input then 32 else input ! ?o"
  have inv: "unat ?st < 17" "kw_ok s" using assms(1) by (simp_all add: lex_inv_def)
  obtain st l f where m: "machine ?st (letter_of ?r) = (st, l, f)" by (cases "machine ?st (letter_of ?r)")
  have t: "todo ?st ?r = Inr (st, l, f)" using inv(1) by (simp only: todo_machine m)
  have e: "entry_ok ?st (letter_of ?r) (st, l, f)" using todo_ok [OF t] by simp
  have last: "?o < length input" if "letter_of ?r \<noteq> 2"
    using that assms(2) letter_of_space by (cases "?o = length input") auto
  have asc: "input ! ?o \<le> 127" if "letter_of ?r \<noteq> 33" "?o < length input"
    using that letter_of_ascii [of "input ! ?o"] by simp
  have start: "ls_start s < ?o" "ls_start s < length input" if "?st \<noteq> 0" using that assms(1) by (simp_all add: lex_inv_def)
  have "st = 255 \<or> st < 17 \<and> (f = 8 \<longrightarrow> ?st \<noteq> 0 \<and> st \<noteq> 0 \<and> \<not> oper_state st)"
    using e by (auto simp: entry_ok_def main_entry_ok_def split: if_splits)
  then consider "st = 255" | "st \<noteq> 255" "f = 8" "?st \<noteq> 0" "st \<noteq> 0" "\<not> oper_state st" "st < 17"
    | "st \<noteq> 255" "f \<noteq> 8" "st < 17" by blast
  then show ?thesis
  proof cases
    case 1
    then show ?thesis using t assms(2,3) by (auto simp: lex_step_def Let_def unknown_lexem_def)
  next
    case 2
    then show ?thesis using t inv start by (auto simp: lex_step_def Let_def lex_inv_def flag_bits unat_less_17)
  next
    case 3
    then have f: "f AND lexfSkip = 0" "l < 8" "l \<noteq> 0 \<longrightarrow> f = 1 \<or> f = 4 \<or> f = 5"
      using e by (auto simp: entry_ok_def main_entry_ok_def flag_bits split: if_splits)
    let ?p = "if f AND lexfPop \<noteq> 0 then ls_start s else ?o" and ?q = "if f AND lexfNext \<noteq> 0 then ?o + 1 else ?o"
    have b1: "l \<noteq> 0 \<Longrightarrow> ?p < ?q \<and> ?q \<le> length input"
      using e 3 last start assms(2) by (auto simp: entry_ok_def main_entry_ok_def flag_bits split: if_splits)
    have b2: "l = lexString \<or> l = lexComment \<Longrightarrow> ?p + 1 < ?q"
      using e 3 start by (auto simp: entry_ok_def main_entry_ok_def flag_bits lex_consts split: if_splits)
    have b3: "l = lexOper \<Longrightarrow> input ! ?p \<le> 127 \<and> ?q \<le> ?p + 2 \<and> (?q = ?p + 1 \<or> input ! (?p + 1) \<le> 127)"
      using e 3 last asc assms(1) by (auto simp: entry_ok_def main_entry_ok_def flag_bits lex_consts lex_inv_def split: if_splits)
    have em: "case lex_emit pf input l f (s\<lparr>ls_state := st\<rparr>) of Inl e \<Rightarrow> (\<exists>m. e = Error m) | Inr s' \<Rightarrow> kw_ok s'"
      by (rule lex_emit_ok [OF _ f(2) _ _ _ b1 b2 b3]) (use inv(2) f(3) in auto)
    from lex_step_emit [OF t 3(1) f(1) em, of cap behind] show ?thesis
      using e 3 start last asc
      by (auto simp: lex_inv_def entry_ok_def main_entry_ok_def flag_bits unat_less_17 main_not_oper split: if_splits)
  qed
qed

lemma lex_loop_safe:
  assumes "lex_inv input s" "length input \<le> cap"
  shows "case lex_loop pf cap behind input s of
      Inl (Panic _) \<Rightarrow> cap = length input | Inl (Exit _) \<Rightarrow> False | _ \<Rightarrow> True"
  using assms
proof (induction pf cap behind input s rule: lex_loop.induct)
  case (1 pf cap behind input s)
  show ?case
  proof (cases "ls_off s < length input + 1")
    case True
    then have "case lex_step pf cap behind input s of
        Inl e \<Rightarrow> (\<exists>m. e = Error m) \<or> (\<exists>m. e = Panic m) \<and> ls_off s = length input \<and> cap = length input | Inr s' \<Rightarrow> lex_inv input s'"
      using "1.prems" by (intro lex_step_inv) simp_all
    then show ?thesis
      using True "1.IH" [OF True] "1.prems"(2)
      by (subst lex_loop.simps) (auto split: sum.splits go_exc.splits)
  qed (subst lex_loop.simps, simp)
qed

text \<open>
  The table of \<open>lex_table.go\<close> and its alphabet are what the generator \<open>lextable.go\<close> computes from the
  description of the states.
\<close>

theorem lexTable_generated: "gen_table gen_states = lexTable \<and> gen_alpha = alphabet"
  using gen_table_correct gen_alpha_correct by blast

text \<open>
  C39: the lexer ends on every source and never panics, provided the slice of runes has capacity
  behind its last rune: whatever the source, the result is a list of lexemes or an error.
\<close>

theorem lexParser_no_panic:
  assumes "length input < cap"
  shows "case lexParser pf cap behind input of Inl e \<Rightarrow> (\<exists>m. e = Error m) | Inr _ \<Rightarrow> True"
proof -
  have "lex_inv input \<lparr>ls_state = 0, ls_off = 0, ls_line = 1, ls_offline = 0, ls_start = 0, ls_skip = False, ls_ifbuf = [], ls_lexems = []\<rparr>"
    by (simp add: lex_inv_def kw_ok_def main_not_oper)
  from lex_loop_safe [OF this, of cap pf behind] assms show ?thesis
    unfolding lexParser_def by (auto split: sum.splits go_exc.splits)
qed

section \<open>Running the machine\<close>

lemma lex_loop_step:
  "ls_off s \<le> length input \<Longrightarrow> lex_step pf cap behind input s = Inr s' \<Longrightarrow>
   lex_loop pf cap behind input s = lex_loop pf cap behind input s'"
  by (subst lex_loop.simps) simp

lemma lex_step_next:
  assumes "todo (ls_state s) r = Inr (st, 0, f)" "st \<noteq> 255" "f = 1 \<or> f = 5 \<or> f = 3" "drop (ls_off s) input = r # rest"
  shows "lex_step pf cap behind input s =
    Inr (s\<lparr>ls_state := st, ls_off := ls_off s + 1, ls_start := (if f = 3 then ls_off s else ls_start s)\<rparr>)"
proof -
  have "ls_off s < length input" using assms(4) by (cases "ls_off s < length input") simp_all
  moreover have "input ! ls_off s = r" using assms(4) by (rule nth_via_drop)
  ultimately have "todo (ls_state s) (if ls_off s = length input then 32 else input ! ls_off s) = Inr (st, 0, f)"
    using assms(1) by simp
  then show ?thesis using assms(2,3) by (elim disjE) (simp_all add: lex_step_def lex_emit_def flag_bits Let_def)
qed

lemma lex_loop_run:
  assumes "\<forall>r \<in> set rs. todo st r = Inr (st, 0, 1)" "ls_state s = st" "st \<noteq> 255" "drop (ls_off s) input = rs @ rest"
  shows "lex_loop pf cap behind input s = lex_loop pf cap behind input (s\<lparr>ls_off := ls_off s + length rs\<rparr>)"
  using assms
proof (induction rs arbitrary: s)
  case (Cons r rs)
  let ?s = "s\<lparr>ls_off := ls_off s + 1\<rparr>"
  have "ls_off s \<le> length input" using Cons.prems(4) by (cases "ls_off s \<le> length input") simp_all
  moreover have "lex_step pf cap behind input s = Inr ?s"
    using lex_step_next [of s r st 1 input "rs @ rest" pf cap behind] Cons.prems by simp
  ultimately have "lex_loop pf cap behind input s = lex_loop pf cap behind input ?s" by (rule lex_loop_step)
  also have "drop (ls_off s + 1) input = rs @ rest" using arg_cong [OF Cons.prems(4), of "drop 1"] by (simp add: drop_drop)
  then have "lex_loop pf cap behind input ?s = lex_loop pf cap behind input (?s\<lparr>ls_off := ls_off ?s + length rs\<rparr>)"
    using Cons.prems by (intro Cons.IH) simp_all
  finally show ?case by simp
qed simp

lemma lex_step_emits:
  assumes "todo (ls_state s) r = Inr (0, l, f)" "f = 1 \<or> f = 4 \<or> f = 5" "l \<noteq> 0" "drop (ls_off s) input = r # rest"
    and "ls_ifbuf s = []" "p = (if f = 1 then ls_off s else ls_start s)" "q = (if f = 4 then ls_off s else ls_off s + 1)"
    and "lex_value pf input l p q (s\<lparr>ls_state := 0\<rparr>) = Inr (s\<lparr>ls_state := 0\<rparr>, t, v)" "t \<noteq> lexComment"
  shows "lex_step pf cap behind input s = Inr (add_lexem t v p (s\<lparr>ls_state := 0\<rparr>)\<lparr>ls_off := q\<rparr>)"
proof -
  have "ls_off s < length input" using assms(4) by (cases "ls_off s < length input") simp_all
  moreover have "input ! ls_off s = r" using assms(4) by (rule nth_via_drop)
  ultimately have td: "todo (ls_state s) (if ls_off s = length input then 32 else input ! ls_off s) = Inr (0, l, f)"
    using assms(1) by simp
  have "lex_emit pf input l f (s\<lparr>ls_state := 0\<rparr>) = Inr (add_lexem t v p (s\<lparr>ls_state := 0\<rparr>))"
    using assms(2,3,5,8,9) unfolding lex_emit_def assms(6,7)
    by (elim disjE) (simp_all add: flag_bits Let_def close_ifs_def)
  then show ?thesis using assms(2) td unfolding lex_step_def assms(7)
    by (elim disjE) (simp_all add: flag_bits Let_def)
qed

text \<open>The entries of the machine that the tokens below run through.\<close>

lemma main_entries:
  "machine 0 2 = (0, 0, 1)"
  "list_all (\<lambda>l. machine 0 l = (0, 1, 1)) [6, 7, 8, 9, 10, 11, 14, 16, 24]"
  "list_all (\<lambda>l. machine 0 l = (0, 2, 1)) [21, 25, 26]"
  "list_all (\<lambda>l. machine 0 l = (6, 0, 3)) [31, 32, 33]"
  "list_all (\<lambda>l. machine 0 l = (3, 0, 3)) [29, 30]"
  "list_all (\<lambda>l. machine 0 l = (8, 0, 3)) [17, 18, 20]"
  "machine 0 12 = (5, 0, 3)" "machine 0 13 = (12, 0, 3)" "machine 0 19 = (13, 0, 3)" "machine 0 27 = (7, 0, 3)" "machine 0 15 = (11, 0, 3)"
  by code_simp+

lemma other_entries:
  "list_all (\<lambda>l. machine 6 l = (6, 0, 1)) [29, 30, 31, 32, 33]" "machine 6 2 = (0, 4, 4)"
  "list_all (\<lambda>l. machine 3 l = (3, 0, 1)) [29, 30]" "machine 3 2 = (0, 3, 4)"
  "machine 5 12 = (0, 2, 5)" "machine 12 13 = (0, 2, 5)" "machine 13 19 = (0, 2, 5)" "machine 8 19 = (0, 2, 5)"
  "machine 13 2 = (0, 1, 4)" "machine 11 2 = (0, 1, 4)" "machine 8 2 = (0, 2, 4)" "machine 7 2 = (0, 2, 4)"
  by code_simp+

definition lexed :: "32 word \<Rightarrow> lexval \<Rightarrow> nat \<Rightarrow> lexst \<Rightarrow> lexst \<Rightarrow> bool" where
  "lexed t v n s s' \<longleftrightarrow>
     ls_state s' = 0 \<and> ls_ifbuf s' = [] \<and> ls_off s' = ls_off s + n \<and> ls_line s' = ls_line s \<and> ls_offline s' = ls_offline s
     \<and> ls_lexems s' = ls_lexems s @ [\<lparr>lx_Type = t, lx_Value = v, lx_Line = ls_line s, lx_Column = column s (ls_off s)\<rparr>]"

lemma todo_main_space: "todo 0 32 = Inr (0, 0, 1)"
  by (simp add: todo_machine letter_of_space main_entries)

text \<open>After a lexeme the blank behind it is skipped.\<close>

lemma lexed_space:
  assumes "lexed t v n s s'" "drop (ls_off s') input = 32 # rest"
  shows "\<exists>s''. lex_loop pf cap behind input s' = lex_loop pf cap behind input s'' \<and> lexed t v (n + 1) s s''"
proof -
  let ?s = "s'\<lparr>ls_off := ls_off s' + 1\<rparr>"
  have "lex_step pf cap behind input s' = Inr ?s"
    using lex_step_next [of s' 32 0 1 input rest pf cap behind] assms by (simp add: lexed_def todo_main_space)
  moreover have "ls_off s' \<le> length input" using assms(2) by (cases "ls_off s' \<le> length input") simp_all
  ultimately have "lex_loop pf cap behind input s' = lex_loop pf cap behind input ?s" by (intro lex_loop_step)
  moreover have "lexed t v (n + 1) s ?s" using assms(1) by (simp add: lexed_def)
  ultimately show ?thesis by blast
qed

lemma run_main:
  assumes "todo 0 r = Inr (0, l, 1)" "l \<noteq> 0" "drop (ls_off s) input = r # 32 # rest" "ls_state s = 0" "ls_ifbuf s = []"
    and "\<And>s. ls_ifbuf s = [] \<Longrightarrow> lex_value pf input l (ls_off s0) (ls_off s0 + 1) s = Inr (s, t, v)" "t \<noteq> lexComment" "s0 = s"
  shows "\<exists>s'. lex_loop pf cap behind input s = lex_loop pf cap behind input s' \<and> lexed t v 2 s s'"
proof -
  let ?s = "add_lexem t v (ls_off s) (s\<lparr>ls_state := 0\<rparr>)\<lparr>ls_off := ls_off s + 1\<rparr>"
  have "lex_step pf cap behind input s = Inr ?s"
    using assms by (intro lex_step_emits [of s r l 1 input "32 # rest"]) simp_all
  moreover have "ls_off s \<le> length input" using assms(3) by (cases "ls_off s \<le> length input") simp_all
  ultimately have e: "lex_loop pf cap behind input s = lex_loop pf cap behind input ?s" by (intro lex_loop_step)
  have "lexed t v 1 s ?s" using assms(4,5) by (simp add: lexed_def add_lexem_def column_def)
  moreover have "drop (ls_off ?s) input = 32 # rest" using arg_cong [OF assms(3), of "drop 1"] by (simp add: drop_drop)
  ultimately show ?thesis using lexed_space [of t v 1 s ?s input rest pf cap behind] e by (simp add: numeral_2_eq_2)
qed

lemma run_pop:
  assumes "todo 0 r = Inr (st, 0, 3)" "\<forall>r \<in> set rs. todo st r = Inr (st, 0, 1)" "todo st 32 = Inr (0, l, 4)" "l \<noteq> 0"
    and "drop (ls_off s) input = r # rs @ 32 # rest" "ls_state s = 0" "ls_ifbuf s = []" "st \<noteq> 255"
    and "\<And>s'. ls_ifbuf s' = [] \<Longrightarrow> lex_value pf input l (ls_off s) (ls_off s + 1 + length rs) s' = Inr (s', t, v)" "t \<noteq> lexComment"
  shows "\<exists>s'. lex_loop pf cap behind input s = lex_loop pf cap behind input s' \<and> lexed t v (length rs + 2) s s'"
proof -
  let ?loop = "lex_loop pf cap behind input" and ?o = "ls_off s"
  let ?s1 = "s\<lparr>ls_state := st, ls_off := ?o + 1, ls_start := ?o\<rparr>"
  let ?s2 = "?s1\<lparr>ls_off := ?o + 1 + length rs\<rparr>"
  let ?s3 = "add_lexem t v ?o (?s2\<lparr>ls_state := 0\<rparr>)\<lparr>ls_off := ?o + 1 + length rs\<rparr>"
  have d1: "drop (?o + 1) input = rs @ 32 # rest" using arg_cong [OF assms(5), of "drop 1"] by (simp add: drop_drop)
  have d2: "drop (?o + 1 + length rs) input = 32 # rest" using arg_cong [OF d1, of "drop (length rs)"] by (simp add: drop_drop ac_simps)
  have "lex_step pf cap behind input s = Inr ?s1"
    using lex_step_next [of s r st 3 input "rs @ 32 # rest" pf cap behind] assms by simp
  moreover have "?o \<le> length input" using assms(5) by (cases "?o \<le> length input") simp_all
  ultimately have "?loop s = ?loop ?s1" by (intro lex_loop_step)
  also have "\<dots> = ?loop ?s2" using lex_loop_run [of rs st ?s1 input "32 # rest" pf cap behind] assms d1 by simp
  also have "\<dots> = ?loop ?s3"
  proof (rule lex_loop_step)
    show "ls_off ?s2 \<le> length input" using d2 by (cases "?o + 1 + length rs \<le> length input") simp_all
    show "lex_step pf cap behind input ?s2 = Inr ?s3"
      using assms d2 by (intro lex_step_emits [of ?s2 32 l 4 input rest]) simp_all
  qed
  finally have e: "?loop s = ?loop ?s3" .
  have "lexed t v (length rs + 1) s ?s3" using assms(7) by (simp add: lexed_def add_lexem_def column_def)
  moreover have "drop (ls_off ?s3) input = 32 # rest" using d2 by simp
  ultimately show ?thesis using lexed_space [of t v "length rs + 1" s ?s3 input rest pf cap behind] e by simp
qed

lemma run_two:
  assumes "todo 0 r = Inr (st, 0, 3)" "todo st r' = Inr (0, l, 5)" "l \<noteq> 0" "drop (ls_off s) input = r # r' # 32 # rest"
    and "ls_state s = 0" "ls_ifbuf s = []" "st \<noteq> 255"
    and "\<And>s'. ls_ifbuf s' = [] \<Longrightarrow> lex_value pf input l (ls_off s) (ls_off s + 2) s' = Inr (s', t, v)" "t \<noteq> lexComment"
  shows "\<exists>s'. lex_loop pf cap behind input s = lex_loop pf cap behind input s' \<and> lexed t v 3 s s'"
proof -
  let ?loop = "lex_loop pf cap behind input" and ?o = "ls_off s"
  let ?s1 = "s\<lparr>ls_state := st, ls_off := ?o + 1, ls_start := ?o\<rparr>"
  let ?s2 = "add_lexem t v ?o (?s1\<lparr>ls_state := 0\<rparr>)\<lparr>ls_off := ?o + 2\<rparr>"
  have d1: "drop (?o + 1) input = r' # 32 # rest" using arg_cong [OF assms(4), of "drop 1"] by (simp add: drop_drop)
  have d2: "drop (?o + 2) input = 32 # rest" using arg_cong [OF assms(4), of "drop 2"] by (simp add: drop_drop)
  have "lex_step pf cap behind input s = Inr ?s1"
    using lex_step_next [of s r st 3 input "r' # 32 # rest" pf cap behind] assms by simp
  moreover have "?o \<le> length input" using assms(4) by (cases "?o \<le> length input") simp_all
  ultimately have "?loop s = ?loop ?s1" by (intro lex_loop_step)
  also have "\<dots> = ?loop ?s2"
  proof (rule lex_loop_step)
    show "ls_off ?s1 \<le> length input" using d1 by (cases "?o + 1 \<le> length input") simp_all
    show "lex_step pf cap behind input ?s1 = Inr ?s2"
      using assms d1 by (intro lex_step_emits [of ?s1 r' l 5 input "32 # rest"]) simp_all
  qed
  finally have e: "?loop s = ?loop ?s2" .
  have "lexed t v 2 s ?s2" using assms(6) by (simp add: lexed_def add_lexem_def column_def)
  moreover have "drop (ls_off ?s2) input = 32 # rest" using d2 by simp
  ultimately show ?thesis using lexed_space [of t v 2 s ?s2 input rest pf cap behind] e by (simp add: numeral_3_eq_3)
qed

section \<open>Printing and lexing\<close>

text \<open>
  Tokens of the language and the text they are written with, every token followed by a blank:
  identifiers that are no keywords or types, decimal numbers, the system lexemes and the
  operators.
\<close>

datatype token = TkIdent "rune list" | TkNumber nat | TkSys rune | TkOper "rune list"

definition rune_of :: "string \<Rightarrow> rune list" where
  "rune_of s = map of_char s"

definition sys_runes :: "rune list" where
  "sys_runes = rune_of ''()[]{}#,:=.''"

definition oper_texts :: "rune list list" where
  "oper_texts = map rune_of [''*'', ''+'', ''-'', ''/'', ''<'', ''>'', ''!'', ''&&'', ''||'', ''=='', ''<='', ''>='', ''!='']"

fun token_text :: "token \<Rightarrow> rune list" where
  "token_text (TkIdent rs) = rs"
| "token_text (TkNumber n) = rune_of (show_nat n)"
| "token_text (TkSys r) = [r]"
| "token_text (TkOper rs) = rs"

fun token_ok :: "token \<Rightarrow> bool" where
  "token_ok (TkIdent rs) \<longleftrightarrow> rs \<noteq> [] \<and> letter_of (hd rs) \<in> {31, 32, 33} \<and> list_all (\<lambda>r. letter_of r \<in> {29, 30, 31, 32, 33}) rs
     \<and> map_of keyword_map (string_of_runes rs) = None \<and> map_of typesMap (string_of_runes rs) = None"
| "token_ok (TkNumber n) \<longleftrightarrow> n < 2 ^ 63"
| "token_ok (TkSys r) \<longleftrightarrow> r \<in> set sys_runes"
| "token_ok (TkOper rs) \<longleftrightarrow> rs \<in> set oper_texts"

fun token_type :: "token \<Rightarrow> 32 word" where
  "token_type (TkIdent rs) = lexIdent"
| "token_type (TkNumber n) = lexNumber"
| "token_type (TkSys r) = lexSys OR push_bit 8 (of_nat r)"
| "token_type (TkOper rs) = lexOper"

fun token_value :: "token \<Rightarrow> lexval" where
  "token_value (TkIdent rs) = LStr (string_of_runes rs)"
| "token_value (TkNumber n) = LInt (of_nat n)"
| "token_value (TkSys r) = LUint (of_nat r)"
| "token_value (TkOper rs) = LUint (of_nat (foldl (\<lambda>a r. 256 * a + r) 0 rs))"

definition token_source :: "token list \<Rightarrow> rune list" where
  "token_source ts = concat (map (\<lambda>t. token_text t @ [32]) ts)"

lemma sub_runes_drop:
  assumes "drop p input = rs @ rest" "rs \<noteq> []"
  shows "sub_runes input p (p + length rs) = Inr rs"
proof -
  have "length (drop p input) = length (rs @ rest)" using assms(1) by simp
  then have "p + length rs \<le> length input" using assms(2) by (cases rs) auto
  then show ?thesis using assms(1) by (simp add: sub_runes_def)
qed

lemma rune_at_drop: "drop p input = r # rest \<Longrightarrow> rune_at input p = Inr r"
  using nth_via_drop [of p input r rest] by (cases "p < length input") (simp_all add: rune_at_def)

lemma todo_letter: "letter_of r = l \<Longrightarrow> unat st < 17 \<Longrightarrow> todo st r = Inr (machine st l)"
  by (simp add: todo_machine)

definition token_lexed ::
    "(string \<Rightarrow> string + 64 word) \<Rightarrow> nat \<Rightarrow> rune \<Rightarrow> rune list \<Rightarrow> lexst \<Rightarrow> token \<Rightarrow> bool" where
  "token_lexed pf cap behind input s t \<longleftrightarrow>
     (\<exists>s'. lex_loop pf cap behind input s = lex_loop pf cap behind input s'
        \<and> lexed (token_type t) (token_value t) (length (token_text t) + 1) s s')"

lemma utf8_hd_ascii: "hd (utf8_encode r) = c \<Longrightarrow> of_char c < (128 :: nat) \<Longrightarrow> r = of_char c"
proof -
  assume c: "hd (utf8_encode r) = c" "of_char c < (128 :: nat)"
  have "(of_char c :: nat) = of_char (hd (utf8_encode r))" using c(1) by simp
  also have "\<dots> = r \<or> \<dots> \<ge> 192"
    unfolding utf8_encode_def Let_def by (auto simp: valid_rune_def less_mult_imp_div_less mod_nat_eqI)
  finally show ?thesis using c(2) by auto
qed

lemma ident_lexed:
  assumes "token_ok (TkIdent rs)" "drop (ls_off s) input = rs @ 32 # rest" "ls_state s = 0" "ls_ifbuf s = []"
  shows "token_lexed pf cap behind input s (TkIdent rs)"
proof -
  obtain r rs' where rs: "rs = r # rs'" using assms(1) by (cases rs) auto
  have "\<exists>s'. lex_loop pf cap behind input s = lex_loop pf cap behind input s' \<and> lexed lexIdent (LStr (string_of_runes rs)) (length rs' + 2) s s'"
  proof (rule run_pop)
    show "todo 0 r = Inr (6, 0, 3)"
      using assms(1) main_entries(4) by (auto simp: rs todo_letter)
    show "\<forall>r \<in> set rs'. todo 6 r = Inr (6, 0, 1)"
      using assms(1) other_entries(1) by (auto simp: rs list_all_iff todo_machine)
    show "todo 6 32 = Inr (0, 4, 4)" by (simp add: todo_machine letter_of_space other_entries)
    show "drop (ls_off s) input = r # rs' @ 32 # rest" using assms(2) by (simp add: rs)
    show "lex_value pf input 4 (ls_off s) (ls_off s + 1 + length rs') s' = Inr (s', lexIdent, LStr (string_of_runes rs))" for s'
    proof -
      have "string_of_runes rs \<noteq> []" by (simp add: rs utf8_encode_not_Nil)
      moreover have "hd (string_of_runes rs) \<noteq> CHR ''$''"
      proof
        assume "hd (string_of_runes rs) = CHR ''$''"
        then have "hd (utf8_encode r) = CHR ''$''" by (simp add: rs utf8_encode_not_Nil)
        from utf8_hd_ascii [OF this] have "r = 36" by simp
        moreover have "letter_of 36 = 22" by code_simp
        ultimately show False using assms(1) by (simp add: rs)
      qed
      moreover have "sub_runes input (ls_off s) (ls_off s + 1 + length rs') = Inr rs"
        using sub_runes_drop [OF assms(2)] by (simp add: rs)
      ultimately show ?thesis
        using assms(1) by (simp add: lex_value_def lex_consts lex_ident_def name_ident_def)
    qed
  qed (use assms in \<open>simp_all add: lex_consts\<close>)
  then show ?thesis by (simp add: token_lexed_def rs)
qed

lemma digit_letters: "list_all (\<lambda>c. letter_of (of_char c) \<in> {29, 30} \<and> c \<noteq> CHR ''.'') ''0123456789''"
  by code_simp

lemma is_digit_cases: "is_digit c \<Longrightarrow> c \<in> set ''0123456789''"
proof -
  assume "is_digit c"
  then have "of_char c \<in> set [48 ..< 58 :: nat]" unfolding is_digit_def set_upt atLeastLessThan_iff by linarith
  then have "char_of (of_char c :: nat) \<in> char_of ` set [48 ..< 58 :: nat]" by (rule imageI)
  moreover have "map char_of [48 ..< 58 :: nat] = ''0123456789''" by code_simp
  then have "char_of ` set [48 ..< 58 :: nat] = set ''0123456789''" by (metis set_map)
  ultimately show ?thesis by (simp only: char_of_char)
qed

lemma digit_letter: "is_digit c \<Longrightarrow> letter_of (of_char c) \<in> {29, 30} \<and> c \<noteq> CHR ''.''"
  by (rule bspec [OF digit_letters [unfolded list_all_iff] is_digit_cases])

lemma string_of_rune_of: "list_all is_digit s \<Longrightarrow> string_of_runes (rune_of s) = s"
proof (induction s)
  case (Cons c s)
  then have "of_char c < (128 :: nat)" by (auto simp: is_digit_def)
  then show ?case using Cons by (simp add: rune_of_def utf8_encode_ascii)
qed (simp add: rune_of_def)

lemma number_lexed:
  assumes "token_ok (TkNumber n)" "drop (ls_off s) input = token_text (TkNumber n) @ 32 # rest" "ls_state s = 0" "ls_ifbuf s = []"
  shows "token_lexed pf cap behind input s (TkNumber n)"
proof -
  let ?ds = "show_nat n"
  have dig: "list_all is_digit ?ds" by (rule show_nat_digits)
  obtain r rs where rs: "rune_of ?ds = r # rs" by (cases "rune_of ?ds") (auto simp: rune_of_def)
  have l: "\<forall>x \<in> set (r # rs). letter_of x \<in> {29, 30}"
    using dig digit_letter unfolding rs [symmetric] by (auto simp: rune_of_def list_all_iff)
  have "\<exists>s'. lex_loop pf cap behind input s = lex_loop pf cap behind input s' \<and> lexed lexNumber (LInt (of_nat n)) (length rs + 2) s s'"
  proof (rule run_pop)
    show "todo 0 r = Inr (3, 0, 3)" using l main_entries(5) by (auto simp: todo_letter)
    show "\<forall>r \<in> set rs. todo 3 r = Inr (3, 0, 1)" using l other_entries(3) by (auto simp: todo_machine)
    show "todo 3 32 = Inr (0, 3, 4)" by (simp add: todo_machine letter_of_space other_entries)
    show "drop (ls_off s) input = r # rs @ 32 # rest" using assms(2) by (simp add: rs)
    show "lex_value pf input 3 (ls_off s) (ls_off s + 1 + length rs) s' = Inr (s', lexNumber, LInt (of_nat n))" for s'
    proof -
      have "ParseInt (show_int (int n)) = (int n, None)"
        using assms(1) by (intro ParseInt_show_int) (simp_all add: min_int64_def max_int64_def)
      then have "ParseInt ?ds = (int n, None)" by (simp add: show_int_def)
      moreover have "CHR ''.'' \<notin> set ?ds" using dig digit_letter by (auto simp: list_all_iff)
      moreover have "sub_runes input (ls_off s) (ls_off s + 1 + length rs) = Inr (rune_of ?ds)"
        using sub_runes_drop [of "ls_off s" input "r # rs"] assms(2) by (simp add: rs)
      ultimately show ?thesis
        using string_of_rune_of [OF dig] by (simp add: lex_value_def lex_consts lex_number_def)
    qed
  qed (use assms in \<open>simp_all add: lex_consts\<close>)
  then show ?thesis by (simp add: token_lexed_def rs)
qed

lemma lex_sys_value:
  "drop p input = r # rest \<Longrightarrow> ls_ifbuf s = [] \<Longrightarrow>
   lex_value pf input 1 p q s = Inr (s, lexSys OR push_bit 8 (of_nat r), LUint (of_nat r))"
  by (simp add: lex_value_def lex_consts lex_sys_def rune_at_drop Let_def)

lemma sys_not_comment: "lexSys OR push_bit 8 w \<noteq> lexComment"
proof
  assume "lexSys OR push_bit 8 w = lexComment"
  then have "lexComment AND 0xff = 1" using sys_low [of w] by simp
  then show False by (simp add: lexComment_def)
qed

lemma sys_lexed:
  assumes "token_ok (TkSys r)" "drop (ls_off s) input = r # 32 # rest" "ls_state s = 0" "ls_ifbuf s = []"
  shows "token_lexed pf cap behind input s (TkSys r)"
proof -
  let ?t = "lexSys OR push_bit 8 (of_nat r)" and ?v = "LUint (of_nat r)"
  have "list_all (\<lambda>r. letter_of r \<in> {6, 7, 8, 9, 10, 11, 14, 16, 24} \<or> letter_of r = 19 \<or> letter_of r = 15) sys_runes"
    by code_simp
  then consider "letter_of r \<in> {6, 7, 8, 9, 10, 11, 14, 16, 24}" | st where "todo 0 r = Inr (st, 0, 3)" "todo st 32 = Inr (0, 1, 4)" "st \<noteq> 255"
    using assms(1) that(2) [of 13] that(2) [of 11]
    by (auto simp: list_all_iff todo_machine letter_of_space main_entries other_entries)
  then have "\<exists>s'. lex_loop pf cap behind input s = lex_loop pf cap behind input s' \<and> lexed ?t ?v 2 s s'"
  proof cases
    case 1
    then have "todo 0 r = Inr (0, 1, 1)" using main_entries(2) by (auto simp: todo_letter)
    then show ?thesis using assms by (intro run_main [OF _ _ _ _ _ lex_sys_value sys_not_comment refl]) simp_all
  next
    case 2
    then show ?thesis
      using assms run_pop [of r st "[]" 1 s input rest pf ?t ?v cap behind] lex_sys_value [of "ls_off s" input r "32 # rest"]
      by (simp add: sys_not_comment numeral_2_eq_2)
  qed
  then show ?thesis by (simp add: token_lexed_def numeral_2_eq_2)
qed

lemma lex_oper_value:
  assumes "drop p input = rs @ rest" "rs \<in> set oper_texts" "q = p + length rs"
  shows "lex_value pf input 2 p q s = Inr (s, lexOper, token_value (TkOper rs))"
proof -
  have "list_all (\<lambda>rs. rs \<noteq> [] \<and> length (bytes_of_string (string_of_runes rs)) \<le> 4
      \<and> (of_nat (be_nat (bytes_of_string (string_of_runes rs))) :: 32 word) = of_nat (foldl (\<lambda>a r. 256 * a + r) 0 rs)) oper_texts"
    by (simp add: oper_texts_def rune_of_def utf8_encode_ascii bytes_of_string_def byte_of_char_def be_nat_def)
  then have "rs \<noteq> []" "length (bytes_of_string (string_of_runes rs)) \<le> 4"
    "(of_nat (be_nat (bytes_of_string (string_of_runes rs))) :: 32 word) = of_nat (foldl (\<lambda>a r. 256 * a + r) 0 rs)"
    using assms(2) unfolding list_all_iff by blast+
  then show ?thesis using sub_runes_drop [OF assms(1)] assms(3)
    by (simp add: lex_value_def lex_consts lex_oper_def)
qed

lemma oper_lexed:
  assumes "token_ok (TkOper rs)" "drop (ls_off s) input = rs @ 32 # rest" "ls_state s = 0" "ls_ifbuf s = []"
  shows "token_lexed pf cap behind input s (TkOper rs)"
proof -
  let ?v = "token_value (TkOper rs)"
  have letters: "map letter_of (rune_of ''*+-/<>!&|='') = [21, 25, 26, 27, 17, 18, 20, 12, 13, 19]" by code_simp
  have ops: "rs \<in> set oper_texts" using assms(1) by simp
  note val = lex_oper_value [OF assms(2) ops, of _ pf]
  consider (one) r where "rs = [r]" "todo 0 r = Inr (0, 2, 1)"
    | (pop) r st where "rs = [r]" "todo 0 r = Inr (st, 0, 3)" "todo st 32 = Inr (0, 2, 4)" "st \<noteq> 255"
    | (two) r r' st where "rs = [r, r']" "todo 0 r = Inr (st, 0, 3)" "todo st r' = Inr (0, 2, 5)" "st \<noteq> 255"
  proof -
    have "list_all (\<lambda>rs. \<exists>r. rs = [r] \<and> todo 0 r = Inr (0, 2, 1)) (take 3 oper_texts)"
      "list_all (\<lambda>rs. \<exists>r st. rs = [r] \<and> todo 0 r = Inr (st, 0, 3) \<and> todo st 32 = Inr (0, 2, 4) \<and> st \<noteq> 255) (take 4 (drop 3 oper_texts))"
      "list_all (\<lambda>rs. \<exists>r r' st. rs = [r, r'] \<and> todo 0 r = Inr (st, 0, 3) \<and> todo st r' = Inr (0, 2, 5) \<and> st \<noteq> 255) (drop 7 oper_texts)"
      using letters by (simp_all add: oper_texts_def rune_of_def todo_machine letter_of_space main_entries [simplified] other_entries [simplified])
    moreover have "set oper_texts = set (take 3 oper_texts) \<union> set (take 4 (drop 3 oper_texts)) \<union> set (drop 7 oper_texts)"
      by (auto simp: oper_texts_def)
    ultimately consider "\<exists>r. rs = [r] \<and> todo 0 r = Inr (0, 2, 1)"
      | "\<exists>r st. rs = [r] \<and> todo 0 r = Inr (st, 0, 3) \<and> todo st 32 = Inr (0, 2, 4) \<and> st \<noteq> 255"
      | "\<exists>r r' st. rs = [r, r'] \<and> todo 0 r = Inr (st, 0, 3) \<and> todo st r' = Inr (0, 2, 5) \<and> st \<noteq> 255"
      using ops by (auto simp only: list_all_iff Un_iff)
    then show thesis by cases (use one pop two in blast)+
  qed
  then have "\<exists>s'. lex_loop pf cap behind input s = lex_loop pf cap behind input s' \<and> lexed lexOper ?v (length rs + 1) s s'"
  proof cases
    case one
    then have n: "length rs + 1 = 2" by simp
    show ?thesis unfolding n using one assms(2-4) val
      by (intro run_main [OF one(2) _ _ assms(3,4) _ _ refl]) (simp_all add: lexOper_def lexComment_def)
  next
    case pop
    then have n: "length rs + 1 = length ([] :: rune list) + 2" by simp
    show ?thesis unfolding n using pop assms(2-4) val
      by (intro run_pop [OF pop(2) _ pop(3) _ _ assms(3,4) pop(4)]) (simp_all add: lexOper_def lexComment_def)
  next
    case two
    then have n: "length rs + 1 = 3" by simp
    show ?thesis unfolding n using two assms(2-4) val
      by (intro run_two [OF two(2,3) _ _ assms(3,4) two(4)]) (simp_all add: lexOper_def lexComment_def)
  qed
  then show ?thesis by (simp add: token_lexed_def)
qed

lemma token_runs:
  assumes "token_ok t" "drop (ls_off s) input = token_text t @ 32 # rest" "ls_state s = 0" "ls_ifbuf s = []"
  shows "token_lexed pf cap behind input s t"
  using assms by (cases t) (auto intro!: ident_lexed number_lexed sys_lexed oper_lexed simp del: token_ok.simps)

fun token_lexems :: "nat \<Rightarrow> token list \<Rightarrow> Lexem list" where
  "token_lexems off [] = []"
| "token_lexems off (t # ts) =
     \<lparr>lx_Type = token_type t, lx_Value = token_value t, lx_Line = 1, lx_Column = of_nat off + 1\<rparr>
     # token_lexems (off + length (token_text t) + 1) ts"

lemma lex_loop_tokens:
  assumes "list_all token_ok ts" "drop (ls_off s) input = token_source ts" "ls_state s = 0" "ls_ifbuf s = []"
    "ls_line s = 1" "ls_offline s = 0" "ls_off s \<le> length input"
  shows "\<exists>s'. lex_loop pf cap behind input s = Inr s' \<and> ls_lexems s' = ls_lexems s @ token_lexems (ls_off s) ts"
  using assms
proof (induction ts arbitrary: s)
  case Nil
  then have "ls_off s = length input" by (simp add: token_source_def)
  moreover have "lex_step pf cap behind input s = Inr (s\<lparr>ls_off := ls_off s + 1\<rparr>)"
    using Nil calculation by (simp add: lex_step_def todo_main_space lex_emit_def flag_bits Let_def)
  ultimately have "lex_loop pf cap behind input s = Inr (s\<lparr>ls_off := ls_off s + 1\<rparr>)"
    by (simp add: lex_loop.simps [of pf cap behind input s] lex_loop.simps [of pf cap behind input "s\<lparr>ls_off := _\<rparr>"])
  then show ?case by simp
next
  case (Cons t ts)
  have "drop (ls_off s) input = token_text t @ 32 # token_source ts" using Cons.prems(2) by (simp add: token_source_def)
  note d = this
  from token_runs [OF _ d, of pf cap behind] Cons.prems obtain s' where
    e: "lex_loop pf cap behind input s = lex_loop pf cap behind input s'"
    and l: "lexed (token_type t) (token_value t) (length (token_text t) + 1) s s'"
    by (auto simp: token_lexed_def)
  have "drop (ls_off s') input = token_source ts"
    using arg_cong [OF d, of "drop (length (token_text t) + 1)"] l by (simp add: lexed_def drop_drop ac_simps)
  moreover have "ls_off s' \<le> length input"
    using arg_cong [OF d, of length] l Cons.prems(7) by (simp add: lexed_def)
  ultimately obtain s'' where "lex_loop pf cap behind input s' = Inr s''" "ls_lexems s'' = ls_lexems s' @ token_lexems (ls_off s') ts"
    using Cons.IH [of s'] Cons.prems l by (auto simp: lexed_def)
  then show ?case using e l Cons.prems by (auto simp: lexed_def column_def ac_simps)
qed

text \<open>
  C38: lexing inverts printing. A source that consists of identifiers, decimal numbers, brackets,
  punctuation and operators, each followed by a blank, is split into exactly these lexemes, with
  their values, line 1 and the column of their first rune.
\<close>

theorem lexParser_tokens:
  assumes "list_all token_ok ts"
  shows "lexParser pf cap behind (token_source ts) = Inr (token_lexems 0 ts)"
  using lex_loop_tokens [OF assms, of "\<lparr>ls_state = 0, ls_off = 0, ls_line = 1, ls_offline = 0, ls_start = 0, ls_skip = False,
      ls_ifbuf = [], ls_lexems = []\<rparr>" "token_source ts" pf cap behind]
  by (auto simp: lexParser_def)

theorem lexParser_tokens_witness:
  "lexParser (\<lambda>_. Inl ''invalid syntax'') 16 0 (token_source [TkIdent [97, 98], TkOper [60, 61], TkNumber 24, TkSys 41])
     = Inr [\<lparr>lx_Type = 4, lx_Value = LStr ''ab'', lx_Line = 1, lx_Column = 1\<rparr>,
            \<lparr>lx_Type = 2, lx_Value = LUint 15421, lx_Line = 1, lx_Column = 4\<rparr>,
            \<lparr>lx_Type = 3, lx_Value = LInt 24, lx_Line = 1, lx_Column = 7\<rparr>,
            \<lparr>lx_Type = 10497, lx_Value = LUint 41, lx_Line = 1, lx_Column = 10\<rparr>]"
proof -
  let ?ts = "[TkIdent [97, 98], TkOper [60, 61], TkNumber 24, TkSys 41]"
  have "letter_of 97 = 31" "letter_of 98 = 31" "map_of keyword_map ''ab'' = None" "map_of typesMap ''ab'' = None" by code_simp+
  moreover have c: "char_of (97 :: nat) = CHR ''a''" "char_of (98 :: nat) = CHR ''b''" by code_simp+
  ultimately have "list_all token_ok ?ts" by (simp add: utf8_encode_ascii oper_texts_def sys_runes_def rune_of_def)
  moreover have "show_nat 24 = ''24''" by code_simp
  ultimately show ?thesis
    using lexParser_tokens [of ?ts "\<lambda>_. Inl ''invalid syntax''" 16 0]
    by (simp add: lex_consts utf8_encode_ascii rune_of_def c)
qed

theorem lexParser_no_panic_witness:
  "case lexParser (\<lambda>_. Inl ''invalid syntax'') 4 0 [97, 124] of Inl e \<Rightarrow> (\<exists>m. e = Error m) | Inr _ \<Rightarrow> True"
  by (rule lexParser_no_panic) simp

section \<open>Positions in sources with several lines\<close>

lemma string_entries:
  "machine 0 3 = (14, 0, 3)" "machine 14 3 = (0, 6, 5)" "machine 14 31 = (14, 0, 1)" "machine 14 1 = (14, 0, 1)"
  "letter_of 96 = 3" "letter_of 97 = 31" "letter_of 10 = 1" "machine 14 (Suc 0) = (14, 0, 1)"
  by code_simp+

lemma range_ascii_Cons:
  "of_char c < (128 :: nat) \<Longrightarrow> range_string off (c # s) = (off, of_char c) # range_string (off + 1) s"
  by (simp add: range_string.simps [of off "c # s"])

lemma newline_pos_as:
  "foldl (\<lambda>s (i, ch). if ch = 0xa then s\<lparr>ls_line := ls_line s + 1, ls_offline := of_nat off + of_nat i + 1\<rparr> else s)
     s (range_string j (replicate k CHR ''a'' @ [char_of (10 :: nat)]))
   = s\<lparr>ls_line := ls_line s + 1, ls_offline := of_nat off + of_nat (j + k) + 1\<rparr>"
proof (induction k arbitrary: j)
  case 0
  then show ?case by (simp add: range_ascii_Cons range_string.simps [of _ "[]"])
next
  case (Suc k)
  then show ?case by (simp add: range_ascii_Cons)
qed

lemma newline_pos_line:
  "newline_pos off (replicate k CHR ''a'' @ [char_of (10 :: nat)]) s
   = s\<lparr>ls_line := ls_line s + 1, ls_offline := of_nat off + of_nat k + 1\<rparr>"
  using newline_pos_as [of off s 0 k] by (simp only: newline_pos_def add_0)

text \<open>
  the column of a string that spans lines is not a column. The offset of the line is computed
  from the end of the string instead of its start, so that the subtraction wraps around: a string of
  \<open>k\<close> letters and a line break at the start of a source is reported in line 2, column
  \<open>2^32 - (2k + 2)\<close>.
\<close>

theorem string_column_wraps:
  "lexParser pf cap behind (96 # replicate k 97 @ [10, 96])
   = Inr [\<lparr>lx_Type = lexString, lx_Value = LStr (replicate k CHR ''a'' @ [char_of (10 :: nat)]), lx_Line = 2,
           lx_Column = - of_nat (2 * k + 2)\<rparr>]"
proof -
  let ?in = "96 # replicate k 97 @ [10, 96 :: rune]" and ?body = "replicate k CHR ''a'' @ [char_of (10 :: nat)]"
  let ?loop = "lex_loop pf cap behind ?in"
  let ?s0 = "\<lparr>ls_state = 0, ls_off = 0, ls_line = 1, ls_offline = 0, ls_start = 0, ls_skip = False, ls_ifbuf = [], ls_lexems = []\<rparr>"
  let ?s1 = "?s0\<lparr>ls_state := 14, ls_off := 1\<rparr>" and ?s2 = "?s0\<lparr>ls_state := 14, ls_off := k + 2\<rparr>"
  let ?L = "\<lparr>lx_Type = lexString, lx_Value = LStr ?body, lx_Line = 2, lx_Column = - of_nat (2 * k + 2)\<rparr>"
  let ?s3 = "?s0\<lparr>ls_off := k + 3, ls_line := 2, ls_offline := of_nat (k + 2) + of_nat k + 1, ls_lexems := [?L]\<rparr>"
  have "lex_step pf cap behind ?in ?s0 = Inr ?s1"
    by (subst lex_step_next [of _ 96 14 3 ?in "replicate k 97 @ [10, 96]"]) (simp_all add: todo_machine string_entries)
  then have "?loop ?s0 = ?loop ?s1" by (intro lex_loop_step) simp_all
  also have "\<dots> = ?loop ?s2"
    using lex_loop_run [of "replicate k 97 @ [10]" 14 ?s1 ?in "[96]" pf cap behind]
    by (simp add: todo_machine string_entries)
  also have "\<dots> = ?loop ?s3"
  proof (rule lex_loop_step)
    have "sub_runes ?in 1 (k + 2) = Inr (replicate k 97 @ [10])" by (simp add: sub_runes_def)
    moreover have "string_of_runes (replicate k 97 @ [10]) = ?body"
    proof -
      have "char_of (97 :: nat) = CHR ''a''" by code_simp
      then have "string_of_runes (replicate k 97) = replicate k CHR ''a''" by (induction k) (simp_all add: utf8_encode_ascii)
      then show ?thesis by (simp add: utf8_encode_ascii)
    qed
    moreover have "lex_value pf ?in 6 0 (k + 3) s = lex_text ?in 6 0 (k + 3) s" for s by (simp add: lex_value_def lex_consts)
    ultimately have v: "lex_value pf ?in 6 0 (k + 3) (?s2\<lparr>ls_state := 0\<rparr>)
        = Inr (?s0\<lparr>ls_off := k + 2, ls_line := 2, ls_offline := of_nat (k + 2) + of_nat k + 1\<rparr>, lexString, LStr ?body)"
      by (simp add: lexString_def lex_text_def newline_pos_line Let_def)
    have c: "0 - (of_nat (k + 2) + of_nat k + 1) + 1 = (- of_nat (2 * k + 2) :: 32 word)" by simp
    have "todo 14 96 = Inr (0, 6, 5)" by (simp add: todo_machine string_entries)
    moreover have "?in ! (k + 2) = 96" by (simp add: nth_append)
    ultimately show "lex_step pf cap behind ?in ?s2 = Inr ?s3"
      using v c by (simp add: lex_step_def lex_emit_def close_ifs_def flag_bits Let_def add_lexem_def column_def
          lexString_def lexComment_def numeral_3_eq_3)
  qed simp
  also have "\<dots> = Inr (?s3\<lparr>ls_off := k + 4\<rparr>)"
    by (simp add: lex_loop.simps [of pf cap behind] lex_step_def todo_main_space lex_emit_def flag_bits)
  finally show ?thesis by (simp add: lexParser_def)
qed

text \<open>
  an error behind the last rune panics when the slice is full. The message slices
  \<open>input[off:off+1]\<close> at \<open>off = len(input)\<close>: a source that ends with a single \<open>|\<close> makes the lexer panic
  instead of reporting the unknown lexeme if the capacity of the slice is its length.
\<close>

theorem error_at_end_panics:
  "lexParser pf (k + 1) behind (replicate k 32 @ [124]) = Inl (Panic ''slice bounds out of range'')"
proof -
  let ?in = "replicate k 32 @ [124 :: rune]"
  let ?loop = "lex_loop pf (k + 1) behind ?in"
  let ?s0 = "\<lparr>ls_state = 0, ls_off = 0, ls_line = 1, ls_offline = 0, ls_start = 0, ls_skip = False, ls_ifbuf = [], ls_lexems = []\<rparr>"
  have t: "todo 0 124 = Inr (12, 0, 3)" "fst (machine 12 2) = 255" "letter_of 124 = 13"
    by (simp add: todo_machine main_entries, code_simp+)
  have "?loop ?s0 = ?loop (?s0\<lparr>ls_off := k\<rparr>)"
    using lex_loop_run [of "replicate k 32" 0 ?s0 ?in "[124]" pf "k + 1" behind] by (simp add: todo_main_space)
  also have "\<dots> = ?loop (?s0\<lparr>ls_state := 12, ls_off := k + 1, ls_start := k\<rparr>)"
    by (rule lex_loop_step, simp, subst lex_step_next [of _ 124 12 3 ?in "[]"]) (simp_all add: t)
  also have "\<dots> = Inl (Panic ''slice bounds out of range'')"
    using t(2) by (subst lex_loop.simps)
      (auto simp: lex_step_def todo_machine letter_of_space unknown_lexem_def split: prod.splits)
  finally show ?thesis by (simp add: lexParser_def)
qed

end
