(* ===== verification/Script_Values.thy ===== *)
theory Script_Values
  imports Go_Num Ordered_Map Script_Lexer Converter_Text
begin

text \<open>
  The data of the virtual machine, \<open>packages/script/vminit.go\<close> and the first part of \<open>vm.go\<close>:
  values, the objects they point to, compiled blocks with their byte-code, the run-time
  record, and the conversions between values. Go values of type \<open>interface{}\<close> are the
  datatype \<open>val\<close>. Arrays (\<open>[]interface{}\<close>) and maps (\<open>*types.Map\<close>) are shared by reference: they
  live in an explicit heap and a value holds their address.
\<close>

section \<open>Values\<close>

text \<open>
  \<open>VArr r n\<close> is a slice header: the address of the backing array and the length; the capacity
  is the length of the backing array. \<open>VRows\<close> is a \<open>[]map[string]string\<close>, \<open>VNames\<close> the map of tail
  parameters of a call (\<open>map[string][]interface{}\<close>, reachable from one stack slot only). \<open>VSlice t\<close> is
  a slice of another element type, \<open>VHost t k\<close> any other Go value of type \<open>t\<close>.
\<close>

datatype val =
    VNil
  | VInt int64
  | VInt64 int64
  | VUint8 byte
  | VFloat float64
  | VBool bool
  | VString string
  | VBytes bytes
  | VDec decimal
  | VArr ref nat
  | VMap "ref option"
  | VStrMap "(string \<times> string) list"
  | VAnyMap "(string \<times> val) list"
  | VRows ref nat
  | VNames "(string \<times> val list) list"
  | VSlice string "val list"
  | VHost string nat

datatype hobj = HArr "val list" | HMap "val Map" | HRows "(string \<times> string) list list"

record heap =
  h_obj :: "ref \<Rightarrow> hobj option"
  h_next :: ref

definition heap_empty :: heap where
  "heap_empty = \<lparr>h_obj = (\<lambda>_. None), h_next = 1\<rparr>"

definition heap_alloc :: "hobj \<Rightarrow> heap \<Rightarrow> ref \<times> heap" where
  "heap_alloc ob h = (h_next h, h\<lparr>h_obj := (h_obj h)(h_next h \<mapsto> ob), h_next := Suc (h_next h)\<rparr>)"

definition heap_set :: "ref \<Rightarrow> hobj \<Rightarrow> heap \<Rightarrow> heap" where
  "heap_set r ob h = h\<lparr>h_obj := (h_obj h)(r \<mapsto> ob)\<rparr>"

definition nil_deref :: go_exc where
  "nil_deref = Panic ''invalid memory address or nil pointer dereference''"

definition bad_assert :: go_exc where
  "bad_assert = Panic ''interface conversion''"

definition out_of_range :: go_exc where
  "out_of_range = Panic ''index out of range''"

definition bad_slice :: go_exc where
  "bad_slice = Panic ''slice bounds out of range''"

text \<open>
  The backing arrays. Address 0 is the one of the nil slice, which has no elements; a dangling
  address does not occur in Go.
\<close>

definition heap_arr :: "heap \<Rightarrow> ref \<Rightarrow> val list res" where
  "heap_arr h r =
     (if r = 0 then Inr [] else (case h_obj h r of Some (HArr xs) \<Rightarrow> Inr xs | _ \<Rightarrow> Inl nil_deref))"

definition heap_map :: "heap \<Rightarrow> ref \<Rightarrow> val Map res" where
  "heap_map h r = (case h_obj h r of Some (HMap m) \<Rightarrow> Inr m | _ \<Rightarrow> Inl nil_deref)"

definition heap_rows :: "heap \<Rightarrow> ref \<Rightarrow> (string \<times> string) list list res" where
  "heap_rows h r = (case h_obj h r of Some (HRows xs) \<Rightarrow> Inr xs | _ \<Rightarrow> Inl nil_deref)"

text \<open>\<open>xs[i]\<close> with an \<open>int\<close> index.\<close>

definition go_nth :: "'a list \<Rightarrow> int \<Rightarrow> 'a res" where
  "go_nth xs i = (if 0 \<le> i \<and> i < int (length xs) then Inr (xs ! nat i) else Inl out_of_range)"

text \<open>
  \<open>append(slice, vs...)\<close>: in place while the capacity suffices, otherwise in a new array, whose
  capacity the run-time system chooses (\<open>grow cap need\<close>, at least what is needed).
\<close>

definition arr_append :: "(nat \<Rightarrow> nat \<Rightarrow> nat) \<Rightarrow> heap \<Rightarrow> ref \<Rightarrow> nat \<Rightarrow> val list \<Rightarrow> ((ref \<times> nat) \<times> heap) res" where
  "arr_append grow h r n vs =
     bind_res (heap_arr h r) (\<lambda>xs.
       let need = n + length vs in
       if need \<le> length xs then Inr ((r, need), heap_set r (HArr (take n xs @ vs @ drop need xs)) h)
       else
         let cap = max need (grow (length xs) need);
             (r', h) = heap_alloc (HArr (take n xs @ vs @ replicate (cap - need) VNil)) h
         in Inr ((r', need), h))"

text \<open>The elements of a slice.\<close>

definition arr_elems :: "heap \<Rightarrow> ref \<Rightarrow> nat \<Rightarrow> val list res" where
  "arr_elems h r n = bind_res (heap_arr h r) (\<lambda>xs. if n \<le> length xs then Inr (take n xs) else Inl bad_slice)"

section \<open>Dynamic types\<close>

text \<open>\<open>reflect.TypeOf(v).String()\<close>; on nil the method call panics.\<close>

definition type_name :: "val \<Rightarrow> string" where
  "type_name v =
     (case v of
        VNil \<Rightarrow> ''<nil>''
      | VInt _ \<Rightarrow> ''int''
      | VInt64 _ \<Rightarrow> ''int64''
      | VUint8 _ \<Rightarrow> ''uint8''
      | VFloat _ \<Rightarrow> ''float64''
      | VBool _ \<Rightarrow> ''bool''
      | VString _ \<Rightarrow> ''string''
      | VBytes _ \<Rightarrow> ''[]uint8''
      | VDec _ \<Rightarrow> ''decimal.Decimal''
      | VArr _ _ \<Rightarrow> ''[]interface {}''
      | VMap _ \<Rightarrow> ''*types.Map''
      | VStrMap _ \<Rightarrow> ''map[string]string''
      | VAnyMap _ \<Rightarrow> ''map[string]interface {}''
      | VRows _ _ \<Rightarrow> ''[]map[string]string''
      | VNames _ \<Rightarrow> ''map[string][]interface {}''
      | VSlice t _ \<Rightarrow> t
      | VHost t _ \<Rightarrow> t)"

definition go_type :: "val \<Rightarrow> string res" where
  "go_type v = (if v = VNil then Inl nil_deref else Inr (type_name v))"

text \<open>The types of the language (\<open>typesMap\<close>) by their Go names.\<close>

definition ltype_String :: "ltype \<Rightarrow> string" where
  "ltype_String t =
     (case t of
        TBool \<Rightarrow> ''bool''
      | TBytes \<Rightarrow> ''[]uint8''
      | TInt \<Rightarrow> ''int64''
      | TAddress \<Rightarrow> ''uint64''
      | TArray \<Rightarrow> ''[]interface {}''
      | TMap \<Rightarrow> ''*types.Map''
      | TMoney \<Rightarrow> ''decimal.Decimal''
      | TFloat \<Rightarrow> ''float64''
      | TString \<Rightarrow> ''string'')"

text \<open>
  \<open>reflect.New(t).Elem().Interface()\<close> for the types whose zero value is no reference; a map is a nil
  pointer and an array a nil slice, which the callers replace.
\<close>

definition zero_val :: "ltype \<Rightarrow> val" where
  "zero_val t =
     (case t of
        TBool \<Rightarrow> VBool False
      | TBytes \<Rightarrow> VBytes []
      | TInt \<Rightarrow> VInt64 0
      | TAddress \<Rightarrow> VHost ''uint64'' 0
      | TArray \<Rightarrow> VArr 0 0
      | TMap \<Rightarrow> VMap None
      | TMoney \<Rightarrow> VDec dec_zero
      | TFloat \<Rightarrow> VFloat f64_zero
      | TString \<Rightarrow> VString [])"

section \<open>Compiled code\<close>

text \<open>
  Blocks refer to each other by pointers, which the machine compares; a block is stored
  under a number and \<open>blockid\<close> is such a pointer.
\<close>

type_synonym blockid = nat

datatype objtype = ObjUnknown | ObjContract | ObjFunc | ObjExtFunc | ObjVar | ObjExtend

text \<open>\<open>Func\<close> is one of the four functions of \<open>vminit.go\<close> or a function of another package.\<close>

datatype extfunc = FExecContract | FCallContract | FSettings | FMemoryUsage | FHost string

record ExtFuncInfo =
  ef_Name :: string
  ef_Params :: "string list"
  ef_Results :: "string list"
  ef_Auto :: "string list"
  ef_Variadic :: bool
  ef_Func :: extfunc
  ef_CanWrite :: bool

datatype objval = OVNil | OVBlock blockid | OVExt ExtFuncInfo | OVInt nat | OVStr string

record ObjInfo =
  oi_Type :: objtype
  oi_Value :: objval

record VarInfo =
  vi_Obj :: ObjInfo
  vi_Owner :: "blockid option"

record IndexInfo =
  ii_VarOffset :: nat
  ii_Owner :: "blockid option"
  ii_Extend :: string

record FieldInfo =
  fd_Name :: string
  fd_Type :: "ltype option"
  fd_Tags :: string

record FuncName =
  fn_Params :: "ltype option list"
  fn_Offset :: "nat list"
  fn_Variadic :: bool

record FuncInfo =
  fi_Params :: "ltype option list"
  fi_Results :: "ltype option list"
  fi_Names :: "(string \<times> FuncName) list option"
  fi_Variadic :: bool
  fi_ID :: "32 word"
  fi_CanWrite :: bool

record OwnerInfo =
  ow_StateID :: "32 word"
  ow_Active :: bool
  ow_TableID :: int64
  ow_WalletID :: int64
  ow_TokenID :: int64

record ContractInfo =
  ci_ID :: "32 word"
  ci_Name :: string
  ci_Owner :: "OwnerInfo option"
  ci_Used :: "string list"
  ci_Tx :: "FieldInfo list option"
  ci_Settings :: "(string \<times> val) list option"
  ci_CanWrite :: bool

datatype blockinfo = NoInfo | InfoState "32 word" | InfoFunc FuncInfo | InfoContract ContractInfo

text \<open>\<open>mapItem\<close>, the elements of array and map initializers.\<close>

datatype mapItem =
    MapConst val
  | MapExtend string
  | MapVar VarInfo
  | MapMap "(string \<times> mapItem) list"
  | MapArray "mapItem list"

text \<open>The operand of a command, a value of type \<open>interface{}\<close>.\<close>

datatype operand =
    OpInt
  | OpVal val
  | OpPrior "16 word"
  | OpBlock blockid
  | OpVars "VarInfo list"
  | OpVar VarInfo
  | OpKey "32 word"
  | OpFuncName string nat
  | OpObj ObjInfo
  | OpIndex IndexInfo
  | OpArray "mapItem list"
  | OpMap "(string \<times> mapItem) list"

record ByteCode =
  bc_Cmd :: "16 word"
  bc_Value :: operand

record Block =
  b_Objects :: "(string \<times> ObjInfo) list"
  b_Type :: objtype
  b_Owner :: "OwnerInfo option"
  b_Info :: blockinfo
  b_Parent :: "blockid option"
  b_Vars :: "ltype option list"
  b_Code :: "ByteCode list"
  b_Children :: "blockid list"

section \<open>The run-time record\<close>

record blockStack =
  bs_Block :: blockid
  bs_Offset :: nat

datatype memkey = KVar nat | KExt string

text \<open>
  \<open>RunTime\<close> with what its pointers lead to: the extended variables (\<open>*rt.extend\<close>), the heap, and the
  state \<open>rt_world\<close> of everything behind the host functions (database, transaction, call stack
  of contracts). The costs and sizes are \<open>int64\<close> values.
\<close>

record 'w RunTime =
  rt_stack :: "val list"
  rt_blocks :: "blockStack list"
  rt_vars :: "val list"
  rt_extend :: "string \<Rightarrow> val option"
  rt_cost :: int
  rt_err :: "string option"
  rt_unwrap :: bool
  rt_callDepth :: nat
  rt_mem :: int
  rt_memVars :: "memkey \<Rightarrow> int option"
  rt_heap :: heap
  rt_world :: 'w

text \<open>
  What a function of another package can reach: the fields of \<open>RunTime\<close> are not exported, so such a
  function sees the extended variables, the objects its arguments point to, and its own world.
\<close>

record 'w shared =
  sh_extend :: "string \<Rightarrow> val option"
  sh_heap :: heap
  sh_world :: 'w

type_synonym ('w, 'a) host = "'w shared \<Rightarrow> 'a res \<times> 'w shared"

text \<open>
  A computation of the machine: a state goes to a result and a state, also when it panics, or
  to nothing when the given fuel is used up.
\<close>

type_synonym ('w, 'a) run = "'w RunTime \<Rightarrow> ('a res \<times> 'w RunTime) option"

text \<open>
  \<open>VM\<close>: the compiled blocks and named objects, the cost functions, and the parameters of the
  model: the host functions, the \<open>Stacker\<close> behind \<open>sc\<close>, the formatting of values by \<open>fmt\<close>, the growth of
  slices, the iteration order over Go maps and the depth of recursion at which the stack of
  a goroutine overflows.
\<close>

record 'w VM =
  vm_blocks :: "blockid \<Rightarrow> Block option"
  vm_Objects :: "string \<Rightarrow> ObjInfo option"
  vm_ExtCost :: "(string \<Rightarrow> int) option"
  vm_FuncCallsDB :: "(string \<Rightarrow> bool) option"
  vm_host :: "string \<Rightarrow> val list \<Rightarrow> ('w, val list) host"
  vm_extfunc :: "val \<Rightarrow> val list \<Rightarrow> ('w, (string \<times> val) list) host"
  vm_func_arity :: "val \<Rightarrow> nat option"
  vm_AppendStack :: "string \<Rightarrow> ('w, string option) host"
  vm_PopStack :: "string \<Rightarrow> ('w, unit) host"
  vm_check_signature :: "string \<Rightarrow> ('w, string option) host"
  vm_sprint :: "heap \<Rightarrow> val \<Rightarrow> string"
  vm_json :: "string \<Rightarrow> string \<Rightarrow> string"
  vm_grow :: "nat \<Rightarrow> nat \<Rightarrow> nat"
  vm_range :: "(string \<times> val list) list \<Rightarrow> (string \<times> val list) list"
  vm_go_stack :: nat

section \<open>Combinators\<close>

definition ret_run :: "'a \<Rightarrow> ('w, 'a) run" where
  "ret_run x s = Some (Inr x, s)"

definition throw_run :: "go_exc \<Rightarrow> ('w, 'a) run" where
  "throw_run e s = Some (Inl e, s)"

definition lift_run :: "'a res \<Rightarrow> ('w, 'a) run" where
  "lift_run r s = Some (r, s)"

definition bind_run :: "('w, 'a) run \<Rightarrow> ('a \<Rightarrow> ('w, 'b) run) \<Rightarrow> ('w, 'b) run" where
  "bind_run m f s =
     (case m s of
        None \<Rightarrow> None
      | Some (Inl e, s) \<Rightarrow> Some (Inl e, s)
      | Some (Inr x, s) \<Rightarrow> f x s)"

definition get_run :: "('w RunTime \<Rightarrow> 'a) \<Rightarrow> ('w, 'a) run" where
  "get_run f s = Some (Inr (f s), s)"

definition upd_run :: "('w RunTime \<Rightarrow> 'w RunTime) \<Rightarrow> ('w, unit) run" where
  "upd_run f s = Some (Inr (), f s)"

definition seq_run :: "('w, 'a) run \<Rightarrow> ('w, 'b) run \<Rightarrow> ('w, 'b) run" where
  "seq_run m n = bind_run m (\<lambda>_. n)"

text \<open>A call of a host function.\<close>

definition host_run :: "('w, 'a) host \<Rightarrow> ('w, 'a) run" where
  "host_run f s =
     (case f \<lparr>sh_extend = rt_extend s, sh_heap = rt_heap s, sh_world = rt_world s\<rparr> of
        (r, t) \<Rightarrow> Some (r, s\<lparr>rt_extend := sh_extend t, rt_heap := sh_heap t, rt_world := sh_world t\<rparr>))"

text \<open>A computation on the heap that may panic.\<close>

definition heap_run :: "(heap \<Rightarrow> ('a \<times> heap) res) \<Rightarrow> ('w, 'a) run" where
  "heap_run f s =
     (case f (rt_heap s) of
        Inl e \<Rightarrow> Some (Inl e, s)
      | Inr (x, h) \<Rightarrow> Some (Inr x, s\<lparr>rt_heap := h\<rparr>))"

fun for_run :: "('a \<Rightarrow> ('w, unit) run) \<Rightarrow> 'a list \<Rightarrow> ('w, unit) run" where
  "for_run f [] = ret_run ()"
| "for_run f (x # xs) = seq_run (f x) (for_run f xs)"

section \<open>Memory accounting\<close>

text \<open>
  \<open>calcMem\<close> follows the elements of slices and maps; a \<open>*types.Map\<close> is a pointer and counts as the two
  words of an interface. The first argument is the depth of recursion that is left: Go ends the
  process when the stack of a goroutine is used up, and nothing recovers from that.
\<close>

definition host_size :: "string \<Rightarrow> int" where
  "host_size t =
     (if t = ''int8'' then 1
      else if t = ''int16'' \<or> t = ''uint16'' then 2
      else if t = ''int32'' \<or> t = ''uint32'' \<or> t = ''float32'' then 4
      else if t = ''uint64'' \<or> t = ''uint'' then 8
      else 16)"

definition stack_overflow :: go_exc where
  "stack_overflow = Exit ''stack overflow''"

fun sum_res :: "int \<Rightarrow> int res list \<Rightarrow> int res" where
  "sum_res a [] = Inr a"
| "sum_res a (r # rs) = bind_res r (\<lambda>x. sum_res (wrap64 (a + x)) rs)"

fun calcMem :: "nat \<Rightarrow> heap \<Rightarrow> val \<Rightarrow> int res" where
  "calcMem 0 h v = Inl stack_overflow"
| "calcMem (Suc n) h v =
     (case v of
        VBool _ \<Rightarrow> Inr 1
      | VUint8 _ \<Rightarrow> Inr 1
      | VInt64 _ \<Rightarrow> Inr 8
      | VInt _ \<Rightarrow> Inr 8
      | VFloat _ \<Rightarrow> Inr 8
      | VString s \<Rightarrow> Inr (int (length s))
      | VBytes bs \<Rightarrow> sum_res 12 (map (\<lambda>b. calcMem n h (VUint8 b)) bs)
      | VArr r k \<Rightarrow> bind_res (arr_elems h r k) (\<lambda>xs. sum_res 12 (map (calcMem n h) xs))
      | VRows r k \<Rightarrow> bind_res (heap_rows h r) (\<lambda>ms. sum_res 12 (map (\<lambda>m. calcMem n h (VStrMap m)) (take k ms)))
      | VSlice t xs \<Rightarrow> sum_res 12 (map (calcMem n h) xs)
      | VStrMap ps \<Rightarrow> sum_res 4 (concat (map (\<lambda>(k, x). [calcMem n h (VString k), calcMem n h (VString x)]) ps))
      | VAnyMap ps \<Rightarrow> sum_res 4 (concat (map (\<lambda>(k, x). [calcMem n h (VString k), calcMem n h x]) ps))
      | VNames ps \<Rightarrow> sum_res 4 (concat (map (\<lambda>(k, xs). [calcMem n h (VString k), calcMem n h (VSlice ''[]interface {}'' xs)]) ps))
      | VHost t _ \<Rightarrow> Inr (host_size t)
      | _ \<Rightarrow> Inr 16)"

definition calcMem_run :: "'w VM \<Rightarrow> val \<Rightarrow> ('w, int) run" where
  "calcMem_run vm v s = Some (calcMem (vm_go_stack vm) (rt_heap s) v, s)"

definition mem_of :: "memkey \<Rightarrow> 'w RunTime \<Rightarrow> int" where
  "mem_of k s = (case rt_memVars s k of None \<Rightarrow> 0 | Some m \<Rightarrow> m)"

text \<open>\<open>rt.mem += mem - rt.memVars[k]; rt.memVars[k] = mem\<close>\<close>

definition set_mem :: "memkey \<Rightarrow> int \<Rightarrow> 'w RunTime \<Rightarrow> 'w RunTime" where
  "set_mem k mem s =
     s\<lparr>rt_mem := wrap64 (rt_mem s + wrap64 (mem - mem_of k s)), rt_memVars := (rt_memVars s)(k \<mapsto> mem)\<rparr>"

definition ext_get :: "string \<Rightarrow> 'w RunTime \<Rightarrow> val" where
  "ext_get k s = (case rt_extend s k of None \<Rightarrow> VNil | Some v \<Rightarrow> v)"

definition ext_put :: "string \<Rightarrow> val \<Rightarrow> ('w, unit) run" where
  "ext_put k v = upd_run (\<lambda>s. s\<lparr>rt_extend := (rt_extend s)(k \<mapsto> v)\<rparr>)"

definition recalcMemExtendVar :: "'w VM \<Rightarrow> string \<Rightarrow> ('w, unit) run" where
  "recalcMemExtendVar vm k =
     bind_run (get_run (ext_get k)) (\<lambda>v.
     bind_run (calcMem_run vm v) (\<lambda>mem. upd_run (set_mem (KExt k) mem)))"

definition setExtendVar :: "'w VM \<Rightarrow> string \<Rightarrow> val \<Rightarrow> ('w, unit) run" where
  "setExtendVar vm k v = seq_run (ext_put k v) (recalcMemExtendVar vm k)"

definition addVar :: "'w VM \<Rightarrow> val \<Rightarrow> ('w, unit) run" where
  "addVar vm v =
     seq_run (upd_run (\<lambda>s. s\<lparr>rt_vars := rt_vars s @ [v]\<rparr>))
    (bind_run (calcMem_run vm v) (\<lambda>mem.
       upd_run (\<lambda>s. s\<lparr>rt_memVars := (rt_memVars s)(KVar (length (rt_vars s) - 1) \<mapsto> mem),
                      rt_mem := wrap64 (rt_mem s + mem)\<rparr>)))"

definition recalcMemVar :: "'w VM \<Rightarrow> int \<Rightarrow> ('w, unit) run" where
  "recalcMemVar vm k =
     bind_run (get_run rt_vars) (\<lambda>vars.
     bind_run (lift_run (go_nth vars k)) (\<lambda>v.
     bind_run (calcMem_run vm v) (\<lambda>mem. upd_run (set_mem (KVar (nat k)) mem))))"

definition put_var :: "int \<Rightarrow> val \<Rightarrow> ('w, unit) run" where
  "put_var k v =
     bind_run (get_run rt_vars) (\<lambda>vars.
       if 0 \<le> k \<and> k < int (length vars) then upd_run (\<lambda>s. s\<lparr>rt_vars := vars[nat k := v]\<rparr>)
       else throw_run out_of_range)"

definition setVar :: "'w VM \<Rightarrow> int \<Rightarrow> val \<Rightarrow> ('w, unit) run" where
  "setVar vm k v = seq_run (put_var k v) (recalcMemVar vm k)"

section \<open>Conversions\<close>

definition sysVars :: "string list" where
  "sysVars =
     [''block'', ''block_key_id'', ''block_time'', ''data'', ''ecosystem_id'', ''key_id'', ''node_position'',
      ''parent'', ''original_contract'', ''sc'', ''stack'', ''this_contract'', ''time'', ''type'', ''txcost'',
      ''txhash'', ''guest_key'']"

definition isSysVar :: "string \<Rightarrow> bool" where
  "isSysVar name \<longleftrightarrow> name \<in> set sysVars \<or> has_prefix ''loop_'' name"

text \<open>\<open>fmt.Sprintf(`%v`, v)\<close>: a decimal is printed by its \<open>String\<close> method.\<close>

definition sprint :: "'w VM \<Rightarrow> heap \<Rightarrow> val \<Rightarrow> string" where
  "sprint vm h v =
     (case v of
        VNil \<Rightarrow> ''<nil>''
      | VString s \<Rightarrow> s
      | VInt i \<Rightarrow> show_int (sint i)
      | VInt64 i \<Rightarrow> show_int (sint i)
      | VUint8 b \<Rightarrow> show_nat (unat b)
      | VBool b \<Rightarrow> if b then ''true'' else ''false''
      | VDec d \<Rightarrow> dec_String d
      | _ \<Rightarrow> vm_sprint vm h v)"

definition valueToBool :: "'w VM \<Rightarrow> heap \<Rightarrow> val \<Rightarrow> bool res" where
  "valueToBool vm h v =
     (case v of
        VInt i \<Rightarrow> Inr (i \<noteq> 0)
      | VInt64 i \<Rightarrow> Inr (i \<noteq> 0)
      | VFloat f \<Rightarrow> Inr (\<not> f64_eq f f64_zero)
      | VBool b \<Rightarrow> Inr b
      | VString s \<Rightarrow> Inr (length s > 0)
      | VBytes bs \<Rightarrow> Inr (length bs > 0)
      | VArr r n \<Rightarrow> Inr (n > 0)
      | VAnyMap ps \<Rightarrow> Inr (length ps > 0)
      | VStrMap ps \<Rightarrow> Inr (length ps > 0)
      | VMap None \<Rightarrow> Inr False
      | VMap (Some r) \<Rightarrow> bind_res (heap_map h r) (\<lambda>m. Inr (Map_Size m > 0))
      | _ \<Rightarrow>
          Inr (dec_Cmp (case dec_NewFromString (sprint vm h v) of Inl _ \<Rightarrow> dec_zero | Inr d \<Rightarrow> d) dec_zero \<noteq> 0))"

definition valueToBool_run :: "'w VM \<Rightarrow> val \<Rightarrow> ('w, bool) run" where
  "valueToBool_run vm v s = Some (valueToBool vm (rt_heap s) v, s)"

definition ValueToFloat :: "val \<Rightarrow> float64" where
  "ValueToFloat v =
     (case v of
        VFloat f \<Rightarrow> f
      | VInt64 i \<Rightarrow> f64_of_int (sint i)
      | VString s \<Rightarrow> fst (ParseFloat s)
      | _ \<Rightarrow> f64_zero)"

definition ValueToDecimal :: "val \<Rightarrow> decimal res" where
  "ValueToDecimal v =
     (case v of
        VFloat f \<Rightarrow> bind_res (dec_NewFromFloat f) (\<lambda>d. Inr (dec_Floor d))
      | VString s \<Rightarrow> bind_res (dec_NewFromString s) (\<lambda>d. Inr (dec_Floor d))
      | VInt64 i \<Rightarrow> Inr (Dec (sint i) 0)
      | VDec d \<Rightarrow> Inr d
      | _ \<Rightarrow> Inl bad_assert)"

text \<open>\<open>converter.ValueToInt\<close>; the tail of the message is the cause \<open>strconv\<close> gives behind the last colon.\<close>

definition ValueToInt :: "'w VM \<Rightarrow> heap \<Rightarrow> val \<Rightarrow> int64 res" where
  "ValueToInt vm h v =
     (case v of
        VFloat f \<Rightarrow> Inr (i64 (int_of_f64 f))
      | VInt64 i \<Rightarrow> Inr i
      | VString s \<Rightarrow>
          if s = [] then Inr 0
          else
            (case ParseInt s of
               (i, None) \<Rightarrow> Inr (i64 i)
             | (_, Some e) \<Rightarrow>
                 Inl (Error (s @ '' is not a valid integer : '' @
                   (case e of ErrSyntax \<Rightarrow> ''invalid syntax'' | ErrRange \<Rightarrow> ''value out of range''))))
      | VNil \<Rightarrow> Inr 0
      | _ \<Rightarrow> Inl (Error (sprint vm h v @ '' is not a valid integer'')))"

end
