(* ===== verification/Script_Ops.thy ===== *)
theory Script_Ops
  imports Script_Values
begin

text \<open>
  The operators of expressions in \<open>RunCode\<close> (\<open>packages/script/vm.go\<close>): arithmetic, comparison, negation.
  The first operand \<open>a\<close> is \<open>top[1]\<close>, the second \<open>b\<close> is \<open>top[0]\<close>. An operator yields \<open>Inr (bin, err)\<close>, where
  \<open>bin\<close> stays nil when a conversion failed, or \<open>Inl (Error e)\<close> where the code returns at once, or a panic.
\<close>

section \<open>Commands\<close>

definition cmdPush :: "16 word" where "cmdPush = 1"
definition cmdVar :: "16 word" where "cmdVar = 2"
definition cmdExtend :: "16 word" where "cmdExtend = 3"
definition cmdCallExtend :: "16 word" where "cmdCallExtend = 4"
definition cmdPushStr :: "16 word" where "cmdPushStr = 5"
definition cmdCall :: "16 word" where "cmdCall = 6"
definition cmdCallVari :: "16 word" where "cmdCallVari = 7"
definition cmdReturn :: "16 word" where "cmdReturn = 8"
definition cmdIf :: "16 word" where "cmdIf = 9"
definition cmdElse :: "16 word" where "cmdElse = 10"
definition cmdAssignVar :: "16 word" where "cmdAssignVar = 11"
definition cmdAssign :: "16 word" where "cmdAssign = 12"
definition cmdLabel :: "16 word" where "cmdLabel = 13"
definition cmdContinue :: "16 word" where "cmdContinue = 14"
definition cmdWhile :: "16 word" where "cmdWhile = 15"
definition cmdBreak :: "16 word" where "cmdBreak = 16"
definition cmdIndex :: "16 word" where "cmdIndex = 17"
definition cmdSetIndex :: "16 word" where "cmdSetIndex = 18"
definition cmdFuncName :: "16 word" where "cmdFuncName = 19"
definition cmdUnwrapArr :: "16 word" where "cmdUnwrapArr = 20"
definition cmdMapInit :: "16 word" where "cmdMapInit = 21"
definition cmdArrayInit :: "16 word" where "cmdArrayInit = 22"
definition cmdError :: "16 word" where "cmdError = 23"

definition cmdNot :: "16 word" where "cmdNot = 0x100"
definition cmdSign :: "16 word" where "cmdSign = 0x101"

definition cmdAdd :: "16 word" where "cmdAdd = 0x200"
definition cmdSub :: "16 word" where "cmdSub = 0x201"
definition cmdMul :: "16 word" where "cmdMul = 0x202"
definition cmdDiv :: "16 word" where "cmdDiv = 0x203"
definition cmdAnd :: "16 word" where "cmdAnd = 0x204"
definition cmdOr :: "16 word" where "cmdOr = 0x205"
definition cmdEqual :: "16 word" where "cmdEqual = 0x206"
definition cmdNotEq :: "16 word" where "cmdNotEq = 0x207"
definition cmdLess :: "16 word" where "cmdLess = 0x208"
definition cmdNotLess :: "16 word" where "cmdNotLess = 0x209"
definition cmdGreat :: "16 word" where "cmdGreat = 0x20A"
definition cmdNotGreat :: "16 word" where "cmdNotGreat = 0x20B"

lemmas cmd_consts =
  cmdPush_def cmdVar_def cmdExtend_def cmdCallExtend_def cmdPushStr_def cmdCall_def cmdCallVari_def
  cmdReturn_def cmdIf_def cmdElse_def cmdAssignVar_def cmdAssign_def cmdLabel_def cmdContinue_def
  cmdWhile_def cmdBreak_def cmdIndex_def cmdSetIndex_def cmdFuncName_def cmdUnwrapArr_def
  cmdMapInit_def cmdArrayInit_def cmdError_def cmdNot_def cmdSign_def cmdAdd_def cmdSub_def
  cmdMul_def cmdDiv_def cmdAnd_def cmdOr_def cmdEqual_def cmdNotEq_def cmdLess_def cmdNotLess_def
  cmdGreat_def cmdNotGreat_def

section \<open>Errors\<close>

definition errDivZero :: string where "errDivZero = ''divided by zero''"
definition errUnsupportedType :: string where
  "errUnsupportedType = ''unsupported combination of types in the operator''"
definition errWrongCountPars :: string where "errWrongCountPars = ''wrong count of parameters''"
definition errMaxArrayIndex :: string where "errMaxArrayIndex = ''The index is out of range''"
definition errMaxMapCount :: string where "errMaxMapCount = ''The maxumim length of map''"
definition errContractPars :: string where "errContractPars = ''wrong contract parameters''"
definition ErrMemoryLimit :: string where "ErrMemoryLimit = ''Memory limit exceeded''"
definition errCpuOver :: string where "errCpuOver = ''paid CPU resource is over''"
definition errStackEmpty :: string where "errStackEmpty = ''stack is empty''"

section \<open>Arithmetic\<close>

type_synonym opres = "(val \<times> string option) res"

definition unsupported :: opres where
  "unsupported = Inl (Error errUnsupportedType)"

text \<open>\<open>if tmpInt, err = converter.ValueToInt(v); err == nil \<open>bin = f(tmpInt)\<close>\<close>\<close>

definition with_int :: "'w VM \<Rightarrow> heap \<Rightarrow> val \<Rightarrow> (int64 \<Rightarrow> opres) \<Rightarrow> opres" where
  "with_int vm h v f =
     (case ValueToInt vm h v of
        Inr i \<Rightarrow> f i
      | Inl (Error e) \<Rightarrow> Inr (VNil, Some e)
      | Inl e \<Rightarrow> Inl e)"

definition both_dec :: "val \<Rightarrow> val \<Rightarrow> (decimal \<Rightarrow> decimal \<Rightarrow> opres) \<Rightarrow> opres" where
  "both_dec a b f =
     (case a of
        VNil \<Rightarrow> Inl nil_deref
      | VDec x \<Rightarrow>
          (case b of VNil \<Rightarrow> Inl nil_deref | VDec y \<Rightarrow> f x y | _ \<Rightarrow> unsupported)
      | _ \<Rightarrow> unsupported)"

text \<open>The common part of addition, subtraction and multiplication.\<close>

definition arith_op ::
  "(int64 \<Rightarrow> int64 \<Rightarrow> int64) \<Rightarrow> (float64 \<Rightarrow> float64 \<Rightarrow> float64) \<Rightarrow> (decimal \<Rightarrow> decimal \<Rightarrow> decimal res) \<Rightarrow>
    'w VM \<Rightarrow> heap \<Rightarrow> val \<Rightarrow> val \<Rightarrow> opres" where
  "arith_op iop fop dop vm h a b =
     (case a of
        VString _ \<Rightarrow>
          (case b of
             VInt64 y \<Rightarrow> with_int vm h a (\<lambda>x. Inr (VInt64 (iop x y), None))
           | VFloat y \<Rightarrow> Inr (VFloat (fop (ValueToFloat a) y), None)
           | _ \<Rightarrow> unsupported)
      | VFloat x \<Rightarrow>
          (case b of
             VString _ \<Rightarrow> Inr (VFloat (fop x (ValueToFloat b)), None)
           | VInt64 _ \<Rightarrow> Inr (VFloat (fop x (ValueToFloat b)), None)
           | VFloat _ \<Rightarrow> Inr (VFloat (fop x (ValueToFloat b)), None)
           | _ \<Rightarrow> unsupported)
      | VInt64 x \<Rightarrow>
          (case b of
             VString _ \<Rightarrow> with_int vm h b (\<lambda>y. Inr (VInt64 (iop x y), None))
           | VInt64 _ \<Rightarrow> with_int vm h b (\<lambda>y. Inr (VInt64 (iop x y), None))
           | VFloat y \<Rightarrow> Inr (VFloat (fop (ValueToFloat a) y), None)
           | _ \<Rightarrow> unsupported)
      | _ \<Rightarrow> both_dec a b (\<lambda>x y. bind_res (dop x y) (\<lambda>z. Inr (VDec z, None))))"

definition op_Add :: "'w VM \<Rightarrow> heap \<Rightarrow> val \<Rightarrow> val \<Rightarrow> opres" where
  "op_Add vm h a b =
     (case (a, b) of
        (VString x, VString y) \<Rightarrow> Inr (VString (x @ y), None)
      | _ \<Rightarrow> arith_op (+) f64_add (\<lambda>x y. Inr (dec_Add x y)) vm h a b)"

definition op_Sub :: "'w VM \<Rightarrow> heap \<Rightarrow> val \<Rightarrow> val \<Rightarrow> opres" where
  "op_Sub = arith_op (-) f64_sub (\<lambda>x y. Inr (dec_Sub x y))"

definition op_Mul :: "'w VM \<Rightarrow> heap \<Rightarrow> val \<Rightarrow> val \<Rightarrow> opres" where
  "op_Mul = arith_op (*) f64_mul dec_Mul"

definition div_zero :: opres where
  "div_zero = Inl (Error errDivZero)"

definition is_fzero :: "float64 \<Rightarrow> bool" where
  "is_fzero f = f64_eq f f64_zero"

definition op_Div :: "'w VM \<Rightarrow> heap \<Rightarrow> val \<Rightarrow> val \<Rightarrow> opres" where
  "op_Div vm h a b =
     (case a of
        VString _ \<Rightarrow>
          (case b of
             VInt64 y \<Rightarrow>
               if y = 0 then div_zero else with_int vm h a (\<lambda>x. Inr (VInt64 (int64_div x y), None))
           | VFloat y \<Rightarrow>
               if is_fzero y then div_zero else Inr (VFloat (f64_div (ValueToFloat a) y), None)
           | _ \<Rightarrow> unsupported)
      | VFloat x \<Rightarrow>
          if (case b of VString _ \<Rightarrow> True | VInt64 _ \<Rightarrow> True | VFloat _ \<Rightarrow> True | _ \<Rightarrow> False)
          then if is_fzero (ValueToFloat b) then div_zero else Inr (VFloat (f64_div x (ValueToFloat b)), None)
          else unsupported
      | VInt64 x \<Rightarrow>
          (case b of
             VFloat y \<Rightarrow> if is_fzero y then div_zero else Inr (VFloat (f64_div (ValueToFloat a) y), None)
           | VString _ \<Rightarrow> with_int vm h b (\<lambda>y. if y = 0 then div_zero else Inr (VInt64 (int64_div x y), None))
           | VInt64 _ \<Rightarrow> with_int vm h b (\<lambda>y. if y = 0 then div_zero else Inr (VInt64 (int64_div x y), None))
           | _ \<Rightarrow> unsupported)
      | _ \<Rightarrow>
          both_dec a b (\<lambda>x y.
            if dec_Cmp y dec_zero = 0 then div_zero
            else bind_res (dec_Div x y) (\<lambda>z. Inr (VDec (dec_Floor z), None))))"

section \<open>Comparison\<close>

text \<open>Strings are compared byte by byte.\<close>

fun str_less :: "string \<Rightarrow> string \<Rightarrow> bool" where
  "str_less s [] = False"
| "str_less [] (c # t) = True"
| "str_less (a # s) (c # t) = (code a < code c \<or> a = c \<and> str_less s t)"

definition cmp_bool :: "bool \<Rightarrow> opres" where
  "cmp_bool b = Inr (VBool b, None)"

text \<open>A decimal on the left, or a type assertion that fails, once the right side is converted.\<close>

definition cmp_dec :: "(int \<Rightarrow> bool) \<Rightarrow> val \<Rightarrow> val \<Rightarrow> opres" where
  "cmp_dec p a b =
     bind_res (ValueToDecimal b) (\<lambda>y.
       case a of VDec x \<Rightarrow> cmp_bool (p (dec_Cmp x y)) | _ \<Rightarrow> Inl bad_assert)"

definition cmp_op ::
  "(int \<Rightarrow> int \<Rightarrow> bool) \<Rightarrow> (float64 \<Rightarrow> float64 \<Rightarrow> bool) \<Rightarrow> (int \<Rightarrow> bool) \<Rightarrow> (string \<Rightarrow> string \<Rightarrow> bool) \<Rightarrow>
    'w VM \<Rightarrow> heap \<Rightarrow> val \<Rightarrow> val \<Rightarrow> opres" where
  "cmp_op ip fp dp sp vm h a b =
     (case a of
        VString x \<Rightarrow>
          (case b of
             VInt64 y \<Rightarrow> with_int vm h a (\<lambda>i. cmp_bool (ip (sint i) (sint y)))
           | VFloat y \<Rightarrow> cmp_bool (fp (ValueToFloat a) y)
           | VNil \<Rightarrow> Inl nil_deref
           | VDec y \<Rightarrow> bind_res (ValueToDecimal a) (\<lambda>d. cmp_bool (dp (dec_Cmp d y)))
           | VString y \<Rightarrow> cmp_bool (sp x y)
           | _ \<Rightarrow> Inl bad_assert)
      | VFloat x \<Rightarrow> cmp_bool (fp x (ValueToFloat b))
      | VInt64 x \<Rightarrow>
          (case b of
             VInt64 y \<Rightarrow> cmp_bool (ip (sint x) (sint y))
           | VFloat y \<Rightarrow> cmp_bool (fp (ValueToFloat a) y)
           | _ \<Rightarrow> unsupported)
      | _ \<Rightarrow> cmp_dec dp a b)"

definition op_Equal :: "'w VM \<Rightarrow> heap \<Rightarrow> val \<Rightarrow> val \<Rightarrow> opres" where
  "op_Equal vm h a b =
     (if a = VNil \<or> b = VNil then cmp_bool (a = VNil \<and> b = VNil)
      else cmp_op (=) f64_eq (\<lambda>c. c = 0) (=) vm h a b)"

definition op_Less :: "'w VM \<Rightarrow> heap \<Rightarrow> val \<Rightarrow> val \<Rightarrow> opres" where
  "op_Less = cmp_op (<) f64_less (\<lambda>c. c < 0) str_less"

definition op_Great :: "'w VM \<Rightarrow> heap \<Rightarrow> val \<Rightarrow> val \<Rightarrow> opres" where
  "op_Great = cmp_op (>) (\<lambda>x y. f64_less y x) (\<lambda>c. c > 0) (\<lambda>x y. str_less y x)"

text \<open>\<open>bin = !bin.(bool)\<close>, also when a failed conversion left \<open>bin\<close> nil.\<close>

definition negate_bin :: "opres \<Rightarrow> opres" where
  "negate_bin r =
     bind_res r (\<lambda>(v, err). case v of VBool b \<Rightarrow> Inr (VBool (\<not> b), err) | _ \<Rightarrow> Inl bad_assert)"

definition op_And :: "'w VM \<Rightarrow> heap \<Rightarrow> val \<Rightarrow> val \<Rightarrow> opres" where
  "op_And vm h a b =
     bind_res (valueToBool vm h a) (\<lambda>x.
       if x then bind_res (valueToBool vm h b) cmp_bool else cmp_bool False)"

definition op_Or :: "'w VM \<Rightarrow> heap \<Rightarrow> val \<Rightarrow> val \<Rightarrow> opres" where
  "op_Or vm h a b =
     bind_res (valueToBool vm h a) (\<lambda>x.
       if x then cmp_bool True else bind_res (valueToBool vm h b) cmp_bool)"

text \<open>The commands with two operands; \<open>None\<close> for any other.\<close>

definition binary_op :: "16 word \<Rightarrow> ('w VM \<Rightarrow> heap \<Rightarrow> val \<Rightarrow> val \<Rightarrow> opres) option" where
  "binary_op cmd =
     (if cmd = cmdAdd then Some op_Add
      else if cmd = cmdSub then Some op_Sub
      else if cmd = cmdMul then Some op_Mul
      else if cmd = cmdDiv then Some op_Div
      else if cmd = cmdAnd then Some op_And
      else if cmd = cmdOr then Some op_Or
      else if cmd = cmdEqual then Some op_Equal
      else if cmd = cmdNotEq then Some (\<lambda>vm h a b. negate_bin (op_Equal vm h a b))
      else if cmd = cmdLess then Some op_Less
      else if cmd = cmdNotLess then Some (\<lambda>vm h a b. negate_bin (op_Less vm h a b))
      else if cmd = cmdGreat then Some op_Great
      else if cmd = cmdNotGreat then Some (\<lambda>vm h a b. negate_bin (op_Great vm h a b))
      else None)"

text \<open>The commands with one operand.\<close>

definition op_Sign :: "val \<Rightarrow> val res" where
  "op_Sign v =
     (case v of VFloat f \<Rightarrow> Inr (VFloat (f64_neg f)) | VInt64 i \<Rightarrow> Inr (VInt64 (- i)) | _ \<Rightarrow> Inl bad_assert)"

end
