(* ===== verification/Script_VM.thy ===== *)
theory Script_VM
  imports Script_Ops
begin

text \<open>
  The virtual machine, \<open>packages/script/vm.go\<close> and \<open>vminit.go\<close>: the commands of a block, calls of functions
  of the language and of the host, nested contracts, and the loop \<open>RunCode\<close> that pays for every
  command. The recursion between \<open>RunCode\<close>, \<open>callFunc\<close>, \<open>ExecContract\<close> and \<open>Run\<close> is cut by fuel; the
  definitions of the operations take the recursive call as an argument.
\<close>

section \<open>Constants\<close>

definition maxArrayIndex :: int where "maxArrayIndex = 1000000"
definition maxMapCount :: nat where "maxMapCount = 100000"
definition maxCallDepth :: nat where "maxCallDepth = 1000"
definition memoryLimit :: int where "memoryLimit = 134217728"
definition CostCall :: int where "CostCall = 50"
definition CostContract :: int where "CostContract = 100"
definition CostExtend :: int where "CostExtend = 10"

datatype status = statusNormal | statusReturn | statusContinue | statusBreak

section \<open>The stack\<close>

text \<open>
  Pushing, reading and cutting. \<open>rt.stack[:k]\<close> beyond the length is a panic here; Go would bring popped
  values back when the capacity allows it.
\<close>

definition push :: "val \<Rightarrow> ('w, unit) run" where
  "push v = upd_run (\<lambda>s. s\<lparr>rt_stack := rt_stack s @ [v]\<rparr>)"

definition stack_size :: "('w, int) run" where
  "stack_size = get_run (\<lambda>s. int (length (rt_stack s)))"

definition stack_at :: "int \<Rightarrow> ('w, val) run" where
  "stack_at i = bind_run (get_run rt_stack) (\<lambda>st. lift_run (go_nth st i))"

definition stack_put :: "int \<Rightarrow> val \<Rightarrow> ('w, unit) run" where
  "stack_put i v =
     bind_run (get_run rt_stack) (\<lambda>st.
       if 0 \<le> i \<and> i < int (length st) then upd_run (\<lambda>s. s\<lparr>rt_stack := st[nat i := v]\<rparr>)
       else throw_run out_of_range)"

definition stack_cut :: "int \<Rightarrow> ('w, unit) run" where
  "stack_cut k =
     bind_run (get_run rt_stack) (\<lambda>st.
       if 0 \<le> k \<and> k \<le> int (length st) then upd_run (\<lambda>s. s\<lparr>rt_stack := take (nat k) st\<rparr>)
       else throw_run bad_slice)"

definition stack_slice :: "int \<Rightarrow> int \<Rightarrow> ('w, val list) run" where
  "stack_slice i j =
     bind_run (get_run rt_stack) (\<lambda>st.
       if 0 \<le> i \<and> i \<le> j \<and> j \<le> int (length st) then ret_run (take (nat (j - i)) (drop (nat i) st))
       else throw_run bad_slice)"

definition pay :: "int \<Rightarrow> ('w, unit) run" where
  "pay c = upd_run (\<lambda>s. s\<lparr>rt_cost := wrap64 (rt_cost s - c)\<rparr>)"

section \<open>Blocks and their owners\<close>

definition get_block :: "'w VM \<Rightarrow> blockid \<Rightarrow> Block res" where
  "get_block vm b = (case vm_blocks vm b of None \<Rightarrow> Inl nil_deref | Some blk \<Rightarrow> Inr blk)"

definition func_info :: "Block \<Rightarrow> FuncInfo res" where
  "func_info blk = (case b_Info blk of InfoFunc f \<Rightarrow> Inr f | _ \<Rightarrow> Inl bad_assert)"

definition contract_info :: "Block \<Rightarrow> ContractInfo res" where
  "contract_info blk = (case b_Info blk of InfoContract c \<Rightarrow> Inr c | _ \<Rightarrow> Inl bad_assert)"

definition obj_block :: "ObjInfo \<Rightarrow> blockid res" where
  "obj_block ob = (case oi_Value ob of OVBlock b \<Rightarrow> Inr b | _ \<Rightarrow> Inl bad_assert)"

definition obj_ext :: "ObjInfo \<Rightarrow> ExtFuncInfo res" where
  "obj_ext ob = (case oi_Value ob of OVExt f \<Rightarrow> Inr f | _ \<Rightarrow> Inl bad_assert)"

definition obj_int :: "ObjInfo \<Rightarrow> nat res" where
  "obj_int ob = (case oi_Value ob of OVInt i \<Rightarrow> Inr i | _ \<Rightarrow> Inl bad_assert)"

definition obj_str :: "ObjInfo \<Rightarrow> string res" where
  "obj_str ob = (case oi_Value ob of OVStr x \<Rightarrow> Inr x | _ \<Rightarrow> Inl bad_assert)"

text \<open>The loop over \<open>rt.blocks\<close> from the innermost block outwards that looks for the owner of a variable.\<close>

definition find_owner :: "blockid option \<Rightarrow> blockStack list \<Rightarrow> blockStack option" where
  "find_owner ow bs = List.find (\<lambda>b. Some (bs_Block b) = ow) (rev bs)"

definition getInParams :: "'w VM \<Rightarrow> ObjInfo \<Rightarrow> nat res" where
  "getInParams vm ob =
     (if oi_Type ob = ObjExtFunc then bind_res (obj_ext ob) (\<lambda>f. Inr (length (ef_Params f)))
      else
        bind_res (obj_block ob) (\<lambda>b. bind_res (get_block vm b) (\<lambda>blk.
        bind_res (func_info blk) (\<lambda>f. Inr (length (fi_Params f))))))"

section \<open>Initializers\<close>

definition arr_push :: "'w VM \<Rightarrow> ref \<times> nat \<Rightarrow> val \<Rightarrow> ('w, ref \<times> nat) run" where
  "arr_push vm sl v = heap_run (\<lambda>h. arr_append (vm_grow vm) h (fst sl) (snd sl) [v])"

definition alloc_run :: "hobj \<Rightarrow> ('w, ref) run" where
  "alloc_run ob = heap_run (\<lambda>h. Inr (heap_alloc ob h))"

definition var_value :: "VarInfo \<Rightarrow> ('w, val option) run" where
  "var_value ivar =
     bind_run (get_run rt_blocks) (\<lambda>bs.
       case find_owner (vi_Owner ivar) bs of
         None \<Rightarrow> ret_run None
       | Some b \<Rightarrow>
           bind_run (lift_run (obj_int (vi_Obj ivar))) (\<lambda>i.
           bind_run (get_run rt_vars) (\<lambda>vars.
           bind_run (lift_run (go_nth vars (int (bs_Offset b) + int i))) (\<lambda>v. ret_run (Some v)))))"

definition show_objval :: "objval \<Rightarrow> string" where
  "show_objval v = (case v of OVInt n \<Rightarrow> show_nat n | OVStr x \<Rightarrow> x | _ \<Rightarrow> ''?'')"

definition wrong_var :: "VarInfo \<Rightarrow> string" where
  "wrong_var ivar = ''wrong var '' @ show_objval (oi_Value (vi_Obj ivar))"

fun getResultValue :: "'w VM \<Rightarrow> mapItem \<Rightarrow> ('w, val) run"
  and getResultItems :: "'w VM \<Rightarrow> mapItem list \<Rightarrow> ref \<times> nat \<Rightarrow> ('w, ref \<times> nat) run"
  and getResultPairs :: "'w VM \<Rightarrow> (string \<times> mapItem) list \<Rightarrow> val Map \<Rightarrow> ('w, val Map) run" where
  "getResultValue vm (MapConst v) = ret_run v"
| "getResultValue vm (MapExtend name) = get_run (ext_get name)"
| "getResultValue vm (MapVar ivar) =
     bind_run (var_value ivar) (\<lambda>r.
       case r of None \<Rightarrow> throw_run (Error (wrong_var ivar)) | Some v \<Rightarrow> ret_run v)"
| "getResultValue vm (MapMap ps) =
     bind_run (getResultPairs vm ps NewMap) (\<lambda>m. bind_run (alloc_run (HMap m)) (\<lambda>r. ret_run (VMap (Some r))))"
| "getResultValue vm (MapArray xs) =
     bind_run (alloc_run (HArr [])) (\<lambda>r.
     bind_run (getResultItems vm xs (r, 0)) (\<lambda>sl. ret_run (VArr (fst sl) (snd sl))))"
| "getResultItems vm [] sl = ret_run sl"
| "getResultItems vm (x # xs) sl =
     bind_run (getResultValue vm x) (\<lambda>v.
     bind_run (arr_push vm sl v) (\<lambda>sl. getResultItems vm xs sl))"
| "getResultPairs vm [] m = ret_run m"
| "getResultPairs vm ((k, x) # ps) m =
     bind_run (getResultValue vm x) (\<lambda>v. getResultPairs vm ps (Map_Set m k v))"

definition getResultArray :: "'w VM \<Rightarrow> mapItem list \<Rightarrow> ('w, val) run" where
  "getResultArray vm xs = getResultValue vm (MapArray xs)"

definition getResultMap :: "'w VM \<Rightarrow> (string \<times> mapItem) list \<Rightarrow> ('w, val) run" where
  "getResultMap vm ps = getResultValue vm (MapMap ps)"

section \<open>Entering a block\<close>

text \<open>
  The first part of \<open>RunCode\<close>: the block is put on the block stack, its variables are created (parameters
  of a function are taken from the stack) and tail parameters are stored.
\<close>

record frame =
  fr_block :: blockid
  fr_code :: "ByteCode list"
  fr_start :: int
  fr_ci :: nat
  fr_labels :: "nat list"
  fr_assign :: "VarInfo list"

definition block_params :: "Block \<Rightarrow> ltype option list res" where
  "block_params blk =
     (if b_Type blk = ObjFunc then bind_res (func_info blk) (\<lambda>f. Inr (fi_Params f)) else Inr [])"

definition new_value :: "ltype option \<Rightarrow> ('w, val) run" where
  "new_value t =
     (case t of
        None \<Rightarrow> throw_run nil_deref
      | Some TMap \<Rightarrow> bind_run (alloc_run (HMap NewMap)) (\<lambda>r. ret_run (VMap (Some r)))
      | Some TArray \<Rightarrow>
          bind_run (get_run rt_vars) (\<lambda>vars.
          bind_run (alloc_run (HArr (replicate (length vars + 1) VNil))) (\<lambda>r. ret_run (VArr r 0)))
      | Some ty \<Rightarrow> ret_run (zero_val ty))"

fun create_vars :: "'w VM \<Rightarrow> nat \<Rightarrow> int \<Rightarrow> nat \<Rightarrow> ltype option list \<Rightarrow> ('w, unit) run" where
  "create_vars vm np start vkey [] = ret_run ()"
| "create_vars vm np start vkey (t # ts) =
     seq_run (pay 1)
    (bind_run (if vkey < np then stack_at (start - int np + int vkey) else new_value t) (\<lambda>v.
     seq_run (addVar vm v) (create_vars vm np start (Suc vkey) ts)))"

definition no_FuncName :: FuncName where
  "no_FuncName = \<lparr>fn_Params = [], fn_Offset = [], fn_Variadic = False\<rparr>"

fun store_tail :: "'w VM \<Rightarrow> nat \<Rightarrow> FuncName \<Rightarrow> nat \<Rightarrow> val list \<Rightarrow> ('w, unit) run" where
  "store_tail vm varoff ps i [] = ret_run ()"
| "store_tail vm varoff ps i (v # vs) =
     seq_run
       (if fn_Variadic ps \<and> int i \<ge> int (length (fn_Params ps)) - 1 then
          bind_run (lift_run (go_nth (fn_Offset ps) (int (length (fn_Params ps)) - 1))) (\<lambda>o'.
          bind_run (get_run rt_vars) (\<lambda>vars.
          bind_run (lift_run (go_nth vars (int (varoff + o')))) (\<lambda>old.
            case old of
              VArr r n \<Rightarrow> bind_run (arr_push vm (r, n) v) (\<lambda>sl. setVar vm (int (varoff + o')) (VArr (fst sl) (snd sl)))
            | _ \<Rightarrow> throw_run bad_assert)))
        else
          bind_run (lift_run (go_nth (fn_Offset ps) (int i))) (\<lambda>o'. setVar vm (int (varoff + o')) v))
       (store_tail vm varoff ps (Suc i) vs)"

text \<open>The map of tail parameters on top of the stack, where the function has such parameters.\<close>

definition pop_names :: "Block \<Rightarrow> ('w, (string \<times> val list) list) run" where
  "pop_names blk =
     (if b_Type blk \<noteq> ObjFunc then ret_run []
      else
        bind_run (lift_run (func_info blk)) (\<lambda>f.
          if fi_Names f = None then ret_run []
          else
            bind_run stack_size (\<lambda>n.
            bind_run (stack_at (n - 1)) (\<lambda>v.
            bind_run (lift_run (case v of VNil \<Rightarrow> Inr [] | VNames m \<Rightarrow> Inr m | _ \<Rightarrow> Inl bad_assert)) (\<lambda>m.
            seq_run (stack_cut (n - 1)) (ret_run m))))))"

definition block_names :: "Block \<Rightarrow> (string \<times> FuncName) list" where
  "block_names blk = (case b_Info blk of InfoFunc f \<Rightarrow> (case fi_Names f of Some ns \<Rightarrow> ns | None \<Rightarrow> []) | _ \<Rightarrow> [])"

definition lookup_name :: "(string \<times> FuncName) list \<Rightarrow> string \<Rightarrow> FuncName" where
  "lookup_name ns key = (case map_of ns key of None \<Rightarrow> no_FuncName | Some x \<Rightarrow> x)"

definition enter_block :: "'w VM \<Rightarrow> blockid \<Rightarrow> ('w, frame) run" where
  "enter_block vm b =
     bind_run (lift_run (get_block vm b)) (\<lambda>blk.
     seq_run (upd_run (\<lambda>s. s\<lparr>rt_blocks := rt_blocks s @ [\<lparr>bs_Block = b, bs_Offset = length (rt_vars s)\<rparr>]\<rparr>))
    (bind_run (pop_names blk) (\<lambda>namemap.
     bind_run stack_size (\<lambda>start.
     bind_run (get_run (\<lambda>s. length (rt_vars s))) (\<lambda>varoff.
     bind_run (lift_run (block_params blk)) (\<lambda>ps.
     seq_run (create_vars vm (length ps) start 0 (b_Vars blk))
    (seq_run (for_run (\<lambda>(key, item). store_tail vm varoff (lookup_name (block_names blk) key) 0 item)
                (vm_range vm namemap))
       (ret_run \<lparr>fr_block = b, fr_code = b_Code blk, fr_start = start - int (length ps), fr_ci = 0,
                 fr_labels = [], fr_assign = []\<rparr>))))))))"

section \<open>Commands without calls\<close>

text \<open>
  \<open>Tail\<close>: the command goes on to the end of the loop body with the new status, error and
  result; \<open>Jump\<close>: \<open>continue\<close> at the given command; \<open>Leave\<close>: \<open>return 0, err\<close>.
\<close>

datatype after = Tail status "string option" val | Jump nat | Leave string

definition done_run :: "('w, after) run" where
  "done_run = ret_run (Tail statusNormal None VNil)"

definition fail_with :: "string \<Rightarrow> ('w, after) run" where
  "fail_with e = ret_run (Tail statusNormal (Some e) VNil)"

text \<open>An error that the command returns at once.\<close>

definition leave_on_error :: "('w, after) run \<Rightarrow> ('w, after) run" where
  "leave_on_error m s =
     (case m s of Some (Inl (Error e), s) \<Rightarrow> Some (Inr (Leave e), s) | r \<Rightarrow> r)"

definition operand_val :: "operand \<Rightarrow> val" where
  "operand_val x =
     (case x of OpVal v \<Rightarrow> v | OpInt \<Rightarrow> VInt 0 | OpPrior p \<Rightarrow> VHost ''uint16'' (unat p)
      | OpKey k \<Rightarrow> VHost ''uint32'' (unat k) | _ \<Rightarrow> VHost ''script'' 0)"

definition operand_str :: "operand \<Rightarrow> string res" where
  "operand_str x = (case x of OpVal (VString t) \<Rightarrow> Inr t | _ \<Rightarrow> Inl bad_assert)"

definition sys_var_err :: "string \<Rightarrow> string" where
  "sys_var_err name = ''system variable $'' @ name @ '' cannot be changed''"

definition assign_owned :: "'w VM \<Rightarrow> VarInfo \<Rightarrow> val \<Rightarrow> ('w, unit) run" where
  "assign_owned vm item v =
     bind_run (get_run rt_blocks) (\<lambda>bs.
       case find_owner (vi_Owner item) bs of
         None \<Rightarrow> ret_run ()
       | Some b \<Rightarrow>
           bind_run (lift_run (obj_int (vi_Obj item))) (\<lambda>i.
           bind_run (lift_run (get_block vm (bs_Block b))) (\<lambda>blk.
           bind_run (lift_run (go_nth (b_Vars blk) (int i))) (\<lambda>t.
             case t of
               None \<Rightarrow> throw_run nil_deref
             | Some ty \<Rightarrow>
                 bind_run (if ty = TMoney then lift_run (bind_res (ValueToDecimal v) (\<lambda>d. Inr (VDec d))) else ret_run v)
                   (setVar vm (int (bs_Offset b) + int i))))))"

fun assign_loop :: "'w VM \<Rightarrow> int \<Rightarrow> nat \<Rightarrow> VarInfo list \<Rightarrow> ('w, unit) run" where
  "assign_loop vm cnt ivar [] = ret_run ()"
| "assign_loop vm cnt ivar (item # items) =
     seq_run
       (case vi_Owner item of
          None \<Rightarrow>
            if oi_Type (vi_Obj item) = ObjExtend then
              bind_run (lift_run (obj_str (vi_Obj item))) (\<lambda>name.
                if isSysVar name then throw_run (Error (sys_var_err name))
                else
                  bind_run stack_size (\<lambda>n.
                  bind_run (stack_at (n - cnt + int ivar)) (\<lambda>v. setExtendVar vm name v)))
            else ret_run ()
        | Some _ \<Rightarrow>
            bind_run (get_run rt_blocks) (\<lambda>bs.
              if find_owner (vi_Owner item) bs = None then ret_run ()
              else
                bind_run stack_size (\<lambda>n.
                bind_run (stack_at (n - cnt + int ivar)) (\<lambda>v. assign_owned vm item v))))
       (assign_loop vm cnt (Suc ivar) items)"

definition error_type :: "32 word \<Rightarrow> string" where
  "error_type k =
     (if k = key_id keyWarning then ''warning'' else if k = key_id keyInfo then ''info'' else ''error'')"

definition SetVMError :: "'w VM \<Rightarrow> heap \<Rightarrow> string \<Rightarrow> val \<Rightarrow> string" where
  "SetVMError vm h eType eText = vm_json vm eType (sprint vm h eText)"

definition is_array :: "val \<Rightarrow> bool res" where
  "is_array v = bind_res (go_type v) (\<lambda>t. Inr (t = ''[]interface {}''))"

fun tail_params :: "nat \<Rightarrow> int \<Rightarrow> nat \<Rightarrow> ('w, val list) run" where
  "tail_params 0 off i = ret_run []"
| "tail_params (Suc k) off i =
     bind_run (stack_at (off + 1 + int i)) (\<lambda>cur.
     bind_run (get_run rt_unwrap) (\<lambda>u.
     bind_run (if k = 0 \<and> u then lift_run (is_array cur) else ret_run False) (\<lambda>flat.
     bind_run
       (if flat then
          (case cur of
             VArr r n \<Rightarrow>
               bind_run (heap_run (\<lambda>h. bind_res (arr_elems h r n) (\<lambda>xs. Inr (xs, h)))) (\<lambda>xs.
               seq_run (upd_run (\<lambda>s. s\<lparr>rt_unwrap := False\<rparr>)) (ret_run xs))
           | _ \<Rightarrow> throw_run bad_assert)
        else ret_run [cur]) (\<lambda>xs.
     bind_run (tail_params k off (Suc i)) (\<lambda>ys. ret_run (xs @ ys))))))"

definition exec_FuncName :: "string \<Rightarrow> nat \<Rightarrow> ('w, unit) run" where
  "exec_FuncName name cnt =
     bind_run stack_size (\<lambda>n.
     let mapoff = n - 1 - int cnt in
     bind_run (stack_at mapoff) (\<lambda>m.
     seq_run (if m = VNil then stack_put mapoff (VNames []) else ret_run ())
    (bind_run (tail_params cnt mapoff 0) (\<lambda>params.
     bind_run (stack_at mapoff) (\<lambda>m.
     bind_run (lift_run (case m of VNames ps \<Rightarrow> Inr ps | _ \<Rightarrow> Inl bad_assert)) (\<lambda>ps.
     seq_run (stack_put mapoff (VNames (AList.update name params ps))) (stack_cut (mapoff + 1))))))))"

definition no_index :: "string \<Rightarrow> string" where
  "no_index itype = ''Type '' @ itype @ '' doesn't support indexing''"

definition map_index_err :: "val \<Rightarrow> string" where
  "map_index_err v = ''index of map cannot be type '' @ type_name v"

definition arr_index_err :: "val \<Rightarrow> string" where
  "arr_index_err v = ''index of array cannot be type '' @ type_name v"

text \<open>\<open>reflect.Value.Index\<close>\<close>

definition index_value :: "heap \<Rightarrow> val \<Rightarrow> int \<Rightarrow> val res" where
  "index_value h v i =
     (case v of
        VArr r n \<Rightarrow> bind_res (arr_elems h r n) (\<lambda>xs. go_nth xs i)
      | VRows r n \<Rightarrow> bind_res (heap_rows h r) (\<lambda>xs. bind_res (go_nth (take n xs) i) (\<lambda>m. Inr (VStrMap m)))
      | VBytes bs \<Rightarrow> bind_res (go_nth bs i) (\<lambda>b. Inr (VUint8 b))
      | VSlice t xs \<Rightarrow> go_nth xs i
      | _ \<Rightarrow> Inl (Panic ''reflect: call of reflect.Value.Index''))"

definition heap_read :: "(heap \<Rightarrow> 'a res) \<Rightarrow> ('w, 'a) run" where
  "heap_read f = heap_run (\<lambda>h. bind_res (f h) (\<lambda>x. Inr (x, h)))"

definition map_at :: "ref option \<Rightarrow> heap \<Rightarrow> val Map res" where
  "map_at r h = (case r of None \<Rightarrow> Inl nil_deref | Some r \<Rightarrow> heap_map h r)"

definition exec_Index :: "int \<Rightarrow> ('w, after) run" where
  "exec_Index sz =
     bind_run (stack_at (sz - 2)) (\<lambda>c.
     bind_run (lift_run (go_type c)) (\<lambda>itype.
       if itype = ''*types.Map'' then
         bind_run (stack_at (sz - 1)) (\<lambda>i.
         bind_run (lift_run (go_type i)) (\<lambda>ty.
           case (i, c) of
             (VString k, VMap r) \<Rightarrow>
               bind_run (heap_read (map_at r)) (\<lambda>m.
               seq_run (stack_put (sz - 2) (case Map_Get m k of Some v \<Rightarrow> v | None \<Rightarrow> VNil))
              (seq_run (stack_cut (sz - 1)) done_run))
           | _ \<Rightarrow> fail_with (map_index_err i)))
       else if has_prefix ''[]'' itype then
         bind_run (stack_at (sz - 1)) (\<lambda>i.
         bind_run (lift_run (go_type i)) (\<lambda>ty.
           case i of
             VInt64 k \<Rightarrow>
               bind_run (heap_read (\<lambda>h. index_value h c (sint k))) (\<lambda>v.
               seq_run (stack_put (sz - 2) v) (seq_run (stack_cut (sz - 1)) done_run))
           | _ \<Rightarrow> fail_with (arr_index_err i)))
       else fail_with (no_index itype)))"

definition index_key :: "IndexInfo \<Rightarrow> blockStack list \<Rightarrow> nat" where
  "index_key info bs =
     (case ii_Owner info of
        None \<Rightarrow> 0
      | Some b \<Rightarrow> (case find_owner (Some b) bs of None \<Rightarrow> 0 | Some e \<Rightarrow> bs_Offset e + ii_VarOffset info))"

text \<open>\<open>slice[ind] = v\<close>\<close>

definition arr_store :: "ref \<Rightarrow> nat \<Rightarrow> int \<Rightarrow> val \<Rightarrow> ('w, unit) run" where
  "arr_store r n i v =
     heap_run (\<lambda>h.
       bind_res (heap_arr h r) (\<lambda>xs.
         if 0 \<le> i \<and> i < int n \<and> n \<le> length xs then Inr ((), heap_set r (HArr (xs[nat i := v])) h)
         else Inl out_of_range))"

text \<open>An assignment behind the last element makes the array longer, up to \<open>maxArrayIndex\<close>.\<close>

definition set_array :: "'w VM \<Rightarrow> IndexInfo \<Rightarrow> nat \<Rightarrow> int \<Rightarrow> ref \<Rightarrow> nat \<Rightarrow> int \<Rightarrow> ('w, string option) run" where
  "set_array vm info indexKey sz r n ind =
     bind_run (stack_at (sz - 1)) (\<lambda>v.
       if ind \<ge> int n then
         if ind > maxArrayIndex then ret_run (Some errMaxArrayIndex)
         else
           bind_run (heap_run (\<lambda>h. arr_append (vm_grow vm) h r n (replicate (nat ind - n + 1) VNil))) (\<lambda>(r, n).
           seq_run (if ii_Owner info = None then ext_put (ii_Extend info) (VArr r n) else put_var (int indexKey) (VArr r n))
          (seq_run (stack_put (sz - 3) (VArr r n))
          (seq_run (arr_store r n ind v)
          (seq_run (stack_cut (sz - 2)) (ret_run None)))))
       else seq_run (arr_store r n ind v) (seq_run (stack_cut (sz - 2)) (ret_run None)))"

definition set_map :: "int \<Rightarrow> ref option \<Rightarrow> ('w, string option) run" where
  "set_map sz r =
     bind_run (heap_read (map_at r)) (\<lambda>m.
       if Map_Size m > maxMapCount then ret_run (Some errMaxMapCount)
       else
         bind_run (stack_at (sz - 2)) (\<lambda>k.
         bind_run (lift_run (go_type k)) (\<lambda>ty.
           case k of
             VString key \<Rightarrow>
               bind_run (stack_at (sz - 1)) (\<lambda>v.
                 if v = VNil then throw_run (Panic ''reflect: call of reflect.Value.Interface on zero Value'')
                 else
                   seq_run (upd_run (\<lambda>s. s\<lparr>rt_heap := heap_set (the r) (HMap (Map_Set m key v)) (rt_heap s)\<rparr>))
                  (seq_run (stack_cut (sz - 2)) (ret_run None)))
           | _ \<Rightarrow> ret_run (Some (map_index_err k)))))"

definition set_row :: "int \<Rightarrow> ref \<Rightarrow> nat \<Rightarrow> int \<Rightarrow> ('w, string option) run" where
  "set_row sz r n ind =
     bind_run (stack_at (sz - 1)) (\<lambda>v.
       case v of
         VStrMap m \<Rightarrow>
           seq_run (heap_run (\<lambda>h.
             bind_res (heap_rows h r) (\<lambda>xs.
               if 0 \<le> ind \<and> ind < int n then Inr ((), heap_set r (HRows (xs[nat ind := m])) h)
               else Inl out_of_range)))
          (seq_run (stack_cut (sz - 2)) (ret_run None))
       | _ \<Rightarrow> throw_run bad_assert)"

definition set_slice :: "'w VM \<Rightarrow> IndexInfo \<Rightarrow> nat \<Rightarrow> int \<Rightarrow> val \<Rightarrow> string \<Rightarrow> ('w, string option) run" where
  "set_slice vm info indexKey sz c itype =
     bind_run (stack_at (sz - 2)) (\<lambda>i.
     bind_run (lift_run (go_type i)) (\<lambda>ty.
       case i of
         VInt64 k \<Rightarrow>
           if str_contains itype ''interface'' then
             (case c of VArr r n \<Rightarrow> set_array vm info indexKey sz r n (sint k) | _ \<Rightarrow> throw_run bad_assert)
           else
             (case c of VRows r n \<Rightarrow> set_row sz r n (sint k) | _ \<Rightarrow> throw_run bad_assert)
       | _ \<Rightarrow> ret_run (Some (arr_index_err i))))"

definition exec_SetIndex :: "'w VM \<Rightarrow> IndexInfo \<Rightarrow> int \<Rightarrow> ('w, after) run" where
  "exec_SetIndex vm info sz =
     bind_run (stack_at (sz - 3)) (\<lambda>c.
     bind_run (lift_run (go_type c)) (\<lambda>itype.
     bind_run (get_run (\<lambda>s. index_key info (rt_blocks s))) (\<lambda>indexKey.
     bind_run
       (if itype = ''*types.Map'' then (case c of VMap r \<Rightarrow> set_map sz r | _ \<Rightarrow> throw_run bad_assert)
        else if has_prefix ''[]'' itype then set_slice vm info indexKey sz c itype
        else ret_run (Some (no_index itype))) (\<lambda>err.
     seq_run (if ii_Owner info = None then recalcMemExtendVar vm (ii_Extend info) else recalcMemVar vm (int indexKey))
       (ret_run (Tail statusNormal err VNil))))))"

section \<open>Calls of host functions\<close>

definition opt_str :: "string option \<Rightarrow> val" where
  "opt_str e = (case e of None \<Rightarrow> VNil | Some x \<Rightarrow> VString x)"

definition is_stacker :: "val \<Rightarrow> bool" where
  "is_stacker v = (case v of VHost t _ \<Rightarrow> t = ''*smart.SmartContract'' | _ \<Rightarrow> False)"

text \<open>The results of a host function; an \<open>error\<close> is nil or its text.\<close>

fun push_results :: "string list \<Rightarrow> val list \<Rightarrow> ('w, string option) run" where
  "push_results ts [] = ret_run None"
| "push_results [] (v # vs) = throw_run out_of_range"
| "push_results (t # ts) (v # vs) =
     (if t = ''error'' then
        (case v of VNil \<Rightarrow> push_results ts vs | VString e \<Rightarrow> ret_run (Some e) | _ \<Rightarrow> throw_run bad_assert)
      else seq_run (push v) (push_results ts vs))"

text \<open>\<open>extendFunc\<close>: a function stored in an extended variable.\<close>

definition extendFunc :: "'w VM \<Rightarrow> string \<Rightarrow> ('w, string option) run" where
  "extendFunc vm name =
     bind_run (get_run (\<lambda>s. rt_extend s name)) (\<lambda>f.
       case Option.bind f (vm_func_arity vm) of
         None \<Rightarrow> ret_run (Some (''unknown function '' @ name))
       | Some cnt \<Rightarrow>
           bind_run stack_size (\<lambda>sz.
           bind_run (stack_slice (sz - int cnt) sz) (\<lambda>pars.
           bind_run (host_run (vm_extfunc vm (the f) pars)) (\<lambda>result.
           seq_run (stack_cut (sz - int cnt)) (push_results (map fst result) (map snd result))))))"

text \<open>\<open>finfo.Auto[k]\<close> is not empty for the parameters that are taken from extended variables.\<close>

definition count_auto :: "ExtFuncInfo \<Rightarrow> nat" where
  "count_auto f = length (filter (\<lambda>a. a \<noteq> []) (ef_Auto f))"

text \<open>
  The loop \<open>for ; i > limit; i--\<close> that collects the parameters: automatic ones from the extended
  variables, the others from the stack; nil becomes an empty string.
\<close>

function collect_pars :: "ExtFuncInfo \<Rightarrow> int \<Rightarrow> int \<Rightarrow> int \<Rightarrow> int \<Rightarrow> int \<Rightarrow> ('w, val list) run" where
  "collect_pars f sz cnt limit auto i =
     (if i \<le> limit then ret_run []
      else
        bind_run (lift_run (go_nth (ef_Auto f) (cnt - i))) (\<lambda>a.
        bind_run (if a \<noteq> [] then get_run (ext_get a) else stack_at (sz - i + auto)) (\<lambda>v.
        bind_run (collect_pars f sz cnt limit (if a \<noteq> [] then auto - 1 else auto) (i - 1)) (\<lambda>vs.
          ret_run ((if v = VNil then VString [] else v) # vs)))))"
  by pat_completeness auto
termination
  by (relation "measure (\<lambda>(f, sz, cnt, limit, auto, i). nat (i - limit))") auto

declare collect_pars.simps [simp del]

text \<open>The first result of a function that queries the database is its cost.\<close>

definition is_db_func :: "'w VM \<Rightarrow> string \<Rightarrow> bool" where
  "is_db_func vm name = (case vm_FuncCallsDB vm of None \<Rightarrow> False | Some p \<Rightarrow> p name)"

definition push_db_results :: "'w VM \<Rightarrow> ExtFuncInfo \<Rightarrow> val list \<Rightarrow> ('w, string option) run" where
  "push_db_results vm f vs =
     (case vs of
        v # vs' \<Rightarrow>
          if is_db_func vm (ef_Name f) then
            (case v of
               VInt64 c \<Rightarrow>
                 bind_run (get_run rt_cost) (\<lambda>left.
                   if sint c > left then
                     seq_run (upd_run (\<lambda>s. s\<lparr>rt_cost := 0\<rparr>)) (ret_run (Some errCpuOver))
                   else seq_run (pay (sint c)) (push_results (tl (ef_Results f)) vs'))
             | _ \<Rightarrow> throw_run (Panic ''reflect: call of reflect.Value.Int''))
          else push_results (ef_Results f) vs
      | [] \<Rightarrow> ret_run None)"

definition is_string :: "val \<Rightarrow> bool" where
  "is_string v = (case v of VString _ \<Rightarrow> True | _ \<Rightarrow> False)"

text \<open>The check on calls of contracts, before the function is called.\<close>

definition exec_contract_args :: "ExtFuncInfo \<Rightarrow> val list \<Rightarrow> bool" where
  "exec_contract_args f pars \<longleftrightarrow>
     ef_Name f \<noteq> ''ExecContract'' \<or> length pars > 3 \<and> is_string (pars ! 2)"

definition call_host ::
  "'w VM \<Rightarrow> (extfunc \<Rightarrow> val list \<Rightarrow> ('w, val list) run) \<Rightarrow> ExtFuncInfo \<Rightarrow> int \<Rightarrow> int \<Rightarrow> ('w, string option) run" where
  "call_host vm apply_func f cnt sz =
     (let inn = int (length (ef_Params f)); auto = int (count_auto f) in
      bind_run (get_run (\<lambda>s. is_stacker (ext_get ''sc'' s))) (\<lambda>sc.
      bind_run (if sc then host_run (vm_AppendStack vm (ef_Name f)) else ret_run None) (\<lambda>err.
        if err \<noteq> None then ret_run err
        else
          seq_run (ext_put ''rt'' (VHost ''*script.RunTime'' 0))
         (let (shift, cnt, limit) =
               (if ef_Variadic f then (sz - cnt, cnt + auto, cnt + auto - inn + 1) else (sz - cnt + auto, cnt, 0))
          in
          bind_run (collect_pars f sz cnt limit auto cnt) (\<lambda>pars.
          bind_run (if min cnt limit > 0
                    then bind_run (stack_slice (sz - min cnt limit) sz) (\<lambda>vs. ret_run (pars @ [VSlice ''[]interface {}'' vs]))
                    else ret_run pars) (\<lambda>pars.
            if \<not> exec_contract_args f pars then
              bind_run (lift_run (go_nth pars 1)) (\<lambda>p.
              bind_run (get_run (\<lambda>s. sprint vm (rt_heap s) p)) (\<lambda>t. ret_run (Some (''unknown function '' @ t))))
            else if int (length pars) \<noteq> inn then throw_run (Panic ''reflect: call using zero Value argument'')
            else
              bind_run (apply_func (ef_Func f) pars) (\<lambda>result.
              seq_run (stack_cut shift)
             (seq_run (if sc then host_run (vm_PopStack vm (ef_Name f)) else ret_run ())
               (push_db_results vm f result)))))))))"

section \<open>Calls of functions of the language\<close>

text \<open>\<open>callDepth\<close> is counted up for the time of a call (\<open>defer\<close>).\<close>

definition with_depth :: "('w, 'a) run \<Rightarrow> ('w, 'a) run" where
  "with_depth m s =
     (case m (s\<lparr>rt_callDepth := Suc (rt_callDepth s)\<rparr>) of
        None \<Rightarrow> None
      | Some (r, s) \<Rightarrow> Some (r, s\<lparr>rt_callDepth := rt_callDepth s - 1\<rparr>))"

definition type_param_err :: "nat \<Rightarrow> string" where
  "type_param_err i = ''parameter '' @ show_nat (i + 1) @ '' has wrong type''"

text \<open>Only parameters of the types string and int are checked.\<close>

fun check_params :: "int \<Rightarrow> nat \<Rightarrow> ltype option list \<Rightarrow> ('w, string option) run" where
  "check_params base i [] = ret_run None"
| "check_params base i (t # ts) =
     (case t of
        None \<Rightarrow> throw_run nil_deref
      | Some ty \<Rightarrow>
          if ty = TString \<or> ty = TInt then
            bind_run (stack_at (base + int i)) (\<lambda>v.
              if type_name v \<noteq> ltype_String ty then ret_run (Some (type_param_err i))
              else check_params base (Suc i) ts)
          else check_params base (Suc i) ts)"

definition val_int :: "val \<Rightarrow> int res" where
  "val_int v = (case v of VInt i \<Rightarrow> Inr (sint i) | _ \<Rightarrow> Inl bad_assert)"

text \<open>Surplus arguments of a variadic function are packed into an array.\<close>

definition pack_variadic :: "int \<Rightarrow> int \<Rightarrow> int \<Rightarrow> ('w, bool) run" where
  "pack_variadic cnt sz inn =
     (let parcount = cnt + 1 - inn in
      if parcount < 0 then ret_run False
      else
        bind_run (get_run rt_stack) (\<lambda>st.
          if 0 \<le> sz - parcount \<and> sz \<le> int (length st) then
            bind_run (alloc_run (HArr (take (nat parcount) (drop (nat (sz - parcount)) st)))) (\<lambda>r.
            seq_run (stack_cut (sz - parcount)) (seq_run (push (VArr r (nat parcount))) (ret_run True)))
          else throw_run out_of_range))"

definition call_block ::
  "'w VM \<Rightarrow> (blockid \<Rightarrow> ('w, status \<times> string option) run) \<Rightarrow> bool \<Rightarrow> ObjInfo \<Rightarrow> int \<Rightarrow> int \<Rightarrow> int \<Rightarrow>
    ('w, string option) run" where
  "call_block vm run_code vari ob cnt sz inn =
     bind_run (lift_run (obj_block ob)) (\<lambda>b.
     bind_run (lift_run (get_block vm b)) (\<lambda>blk.
     bind_run (lift_run (func_info blk)) (\<lambda>finfo.
     bind_run
       (if fi_Names finfo = None then ret_run []
        else
          bind_run (stack_at (sz - 1)) (\<lambda>v.
          bind_run (lift_run (case v of VNil \<Rightarrow> Inr [] | VNames m \<Rightarrow> Inr m | _ \<Rightarrow> Inl bad_assert)) (\<lambda>imap.
          seq_run (stack_cut (sz - 1)) (ret_run imap)))) (\<lambda>imap.
     bind_run (if vari then pack_variadic cnt sz inn else ret_run True) (\<lambda>ok.
     bind_run stack_size (\<lambda>n.
       if \<not> ok \<or> n < int (length (fi_Params finfo)) then ret_run (Some errWrongCountPars)
       else
         bind_run (check_params (n - inn) 0 (fi_Params finfo)) (\<lambda>err.
           if err \<noteq> None then ret_run err
           else
             seq_run (if fi_Names finfo = None then ret_run () else push (VNames imap))
            (bind_run (run_code b) (\<lambda>(st, err). ret_run err)))))))))"

text \<open>The array in front of the number of arguments is spread over the stack after \<open>...\<close>.\<close>

definition unwrap_args :: "bool \<Rightarrow> ('w, unit) run" where
  "unwrap_args vari =
     bind_run stack_size (\<lambda>sz.
     bind_run (get_run rt_unwrap) (\<lambda>u.
     bind_run (if u \<and> vari \<and> sz > 1 then bind_run (stack_at (sz - 2)) (\<lambda>v. lift_run (is_array v)) else ret_run False) (\<lambda>spread.
     seq_run
       (if spread then
          bind_run (stack_at (sz - 1)) (\<lambda>c.
          bind_run (lift_run (val_int c)) (\<lambda>cnt.
          bind_run (stack_at (sz - 2)) (\<lambda>a.
          bind_run (case a of VArr r n \<Rightarrow> heap_read (\<lambda>h. arr_elems h r n) | _ \<Rightarrow> throw_run bad_assert) (\<lambda>xs.
          seq_run (stack_cut (sz - 2))
            (upd_run (\<lambda>s. s\<lparr>rt_stack := rt_stack s @ xs @ [VInt (i64 (cnt - 1 + int (length xs)))]\<rparr>))))))
        else ret_run ())
      (upd_run (\<lambda>s. s\<lparr>rt_unwrap := False\<rparr>)))))"

definition callFunc ::
  "'w VM \<Rightarrow> (blockid \<Rightarrow> ('w, status \<times> string option) run) \<Rightarrow> (extfunc \<Rightarrow> val list \<Rightarrow> ('w, val list) run) \<Rightarrow>
    bool \<Rightarrow> ObjInfo \<Rightarrow> ('w, string option) run" where
  "callFunc vm run_code apply_func vari ob =
     bind_run (get_run rt_callDepth) (\<lambda>d.
       if d \<ge> maxCallDepth then ret_run (Some ''max call depth'')
       else
         with_depth
          (bind_run (lift_run (getInParams vm ob)) (\<lambda>inn.
           seq_run (unwrap_args vari)
          (bind_run stack_size (\<lambda>n.
           bind_run (if vari then bind_run (stack_at (n - 1)) (\<lambda>c. lift_run (val_int c)) else ret_run (int inn)) (\<lambda>cnt.
           let sz = (if vari then n - 1 else n) in
             if oi_Type ob = ObjFunc then call_block vm run_code vari ob cnt sz (int inn)
             else bind_run (lift_run (obj_ext ob)) (\<lambda>f. call_host vm apply_func f cnt sz)))))))"

section \<open>Contracts\<close>

text \<open>\<open>RunInit\<close>: a fresh run-time record that shares the extended variables, the heap and the world.\<close>

definition RunInit :: "int \<Rightarrow> (string \<Rightarrow> val option) \<Rightarrow> heap \<Rightarrow> 'w \<Rightarrow> 'w RunTime" where
  "RunInit cost ext h w =
     \<lparr>rt_stack = [], rt_blocks = [], rt_vars = [], rt_extend = ext, rt_cost = cost, rt_err = None,
      rt_unwrap = False, rt_callDepth = 0, rt_mem = 0, rt_memVars = (\<lambda>_. None), rt_heap = h, rt_world = w\<rparr>"

text \<open>\<open>Run\<close> recovers from panics.\<close>

definition recover_run :: "('w, val list \<times> string option) run \<Rightarrow> ('w, val list \<times> string option) run" where
  "recover_run m s =
     (case m s of
        Some (Inl (Panic p), s) \<Rightarrow> Some (Inr ([], Some ''runtime panic error''), s)
      | r \<Rightarrow> r)"

definition Run :: "'w VM \<Rightarrow> (blockid \<Rightarrow> ('w, status \<times> string option) run) \<Rightarrow> blockid \<Rightarrow>
    ('w, val list \<times> string option) run" where
  "Run vm run_code b =
     recover_run
      (bind_run (lift_run (get_block vm b)) (\<lambda>blk.
       bind_run (lift_run (func_info blk)) (\<lambda>info.
       bind_run (run_code b) (\<lambda>(st, err).
         if err \<noteq> None then ret_run ([], err)
         else
           bind_run stack_size (\<lambda>n.
           bind_run (stack_slice (n - int (length (fi_Results info))) n) (\<lambda>vs. ret_run (vs, None)))))))"

text \<open>\<open>rtemp := rt.vm.RunInit(rt.cost)\<close>, \<open>rtemp.Run(block, nil, rt.extend)\<close>, \<open>rt.cost = rtemp.cost\<close>.\<close>

definition nested_run :: "('w, 'a) run \<Rightarrow> ('w, 'a) run" where
  "nested_run m s =
     (case m (RunInit (rt_cost s) (rt_extend s) (rt_heap s) (rt_world s)) of
        None \<Rightarrow> None
      | Some (r, t) \<Rightarrow>
          Some (r, s\<lparr>rt_cost := rt_cost t, rt_extend := rt_extend t, rt_heap := rt_heap t, rt_world := rt_world t\<rparr>))"

definition StateName :: "32 word \<Rightarrow> string \<Rightarrow> string" where
  "StateName state name =
     (if \<not> has_prefix ''@'' name then ''@'' @ show_nat (unat state) @ name
      else if length name > 1 \<and> \<not> is_digit (name ! 1) then ''@1'' @ tl name
      else name)"

definition get_contract :: "'w VM \<Rightarrow> string \<Rightarrow> (Block option) res" where
  "get_contract vm name =
     (case vm_Objects vm name of
        None \<Rightarrow> Inr None
      | Some ob \<Rightarrow> bind_res (obj_block ob) (\<lambda>b. bind_res (get_block vm b) (\<lambda>blk. Inr (Some blk))))"

text \<open>\<open>reflect.New(tx.Type).Elem().Interface()\<close>\<close>

definition zero_of :: "ltype option \<Rightarrow> val res" where
  "zero_of t = (case t of None \<Rightarrow> Inl nil_deref | Some ty \<Rightarrow> Inr (zero_val ty))"

fun default_params :: "string list \<Rightarrow> FieldInfo list \<Rightarrow> ('w, string option) run" where
  "default_params pars [] = ret_run None"
| "default_params pars (tx # txs) =
     (if fd_Name tx \<in> set pars then default_params pars txs
      else if \<not> str_contains (fd_Tags tx) ''optional'' then ret_run (Some (fd_Name tx @ '' is not defined''))
      else
        bind_run (lift_run (zero_of (fd_Type tx))) (\<lambda>v.
        seq_run (ext_put (fd_Name tx) v) (default_params pars txs)))"

definition keep_sys :: "(string \<Rightarrow> val option) \<Rightarrow> string \<Rightarrow> val option" where
  "keep_sys ext k = (if isSysVar k then ext k else None)"

definition drop_sys :: "(string \<Rightarrow> val option) \<Rightarrow> string \<Rightarrow> val option" where
  "drop_sys ext k = (if isSysVar k then None else ext k)"

text \<open>The name of the contract that calls, as the callee sees it in \<open>$parent\<close>.\<close>

fun caller_contract :: "'w VM \<Rightarrow> blockStack list \<Rightarrow> ContractInfo option res" where
  "caller_contract vm [] = Inr None"
| "caller_contract vm (e # es) =
     bind_res (get_block vm (bs_Block e)) (\<lambda>blk.
       case b_Parent blk of
         None \<Rightarrow> caller_contract vm es
       | Some p \<Rightarrow>
           if b_Type blk = ObjFunc then
             bind_res (get_block vm p) (\<lambda>pb.
               if b_Type pb = ObjContract then bind_res (contract_info pb) (\<lambda>c. Inr (Some c))
               else caller_contract vm es)
           else caller_contract vm es)"

definition parent_name :: "string \<Rightarrow> ContractInfo option \<Rightarrow> string" where
  "parent_name name c =
     (case c of
        None \<Rightarrow> []
      | Some ci \<Rightarrow>
          let (fid, fname) = ParseName (ci_Name ci); (cid, _) = ParseName name in
          if fname = [] then ci_Name ci
          else if fid = 0 then CHR ''@'' # fname
          else if fid = cid then fname
          else ci_Name ci)"

fun run_methods ::
  "'w VM \<Rightarrow> (blockid \<Rightarrow> ('w, status \<times> string option) run) \<Rightarrow> Block \<Rightarrow> string \<Rightarrow> string list \<Rightarrow> ('w, string option) run" where
  "run_methods vm run_code cblock parent [] = ret_run None"
| "run_methods vm run_code cblock parent (m # ms) =
     (case map_of (b_Objects cblock) m of
        Some ob \<Rightarrow>
          if oi_Type ob = ObjFunc then
            seq_run (ext_put ''parent'' (VString parent))
           (bind_run (lift_run (obj_block ob)) (\<lambda>b.
            bind_run (nested_run (Run vm run_code b)) (\<lambda>(r, err).
              if err \<noteq> None then ret_run err else run_methods vm run_code cblock parent ms)))
          else run_methods vm run_code cblock parent ms
      | None \<Rightarrow> run_methods vm run_code cblock parent ms)"

definition check_signature :: "'w VM \<Rightarrow> string \<Rightarrow> bool \<Rightarrow> ('w, string option) run" where
  "check_signature vm name isSignature =
     bind_run (get_run (ext_get ''sc'')) (\<lambda>sc.
       if sc \<noteq> VNil \<and> isSignature then
         (case vm_Objects vm ''check_signature'' of
            None \<Rightarrow> throw_run nil_deref
          | Some ob \<Rightarrow> bind_run (lift_run (obj_ext ob)) (\<lambda>f. host_run (vm_check_signature vm name)))
       else ret_run None)"

text \<open>\<open>defer delete(*rt.extend, k)\<close>, run on every way out.\<close>

definition defer_delete :: "string \<Rightarrow> ('w, 'a) run \<Rightarrow> ('w, 'a) run" where
  "defer_delete k m s =
     (case m s of
        None \<Rightarrow> None
      | Some (r, s) \<Rightarrow> Some (r, s\<lparr>rt_extend := (rt_extend s)(k := None)\<rparr>))"

text \<open>The part of \<open>ExecContract\<close> behind the recursion check; the result is the value and the error.\<close>

definition exec_contract_body ::
  "'w VM \<Rightarrow> (blockid \<Rightarrow> ('w, status \<times> string option) run) \<Rightarrow> Block \<Rightarrow> string \<Rightarrow> string list \<Rightarrow> val list \<Rightarrow>
    ('w, val \<times> string option) run" where
  "exec_contract_body vm run_code cblock name pars params =
     bind_run (get_run rt_extend) (\<lambda>ext.
     seq_run (upd_run (\<lambda>s. s\<lparr>rt_extend := keep_sys ext\<rparr>))
    (bind_run (lift_run (contract_info cblock)) (\<lambda>ci.
     let txs = (case ci_Tx ci of None \<Rightarrow> [] | Some xs \<Rightarrow> xs) in
     bind_run (default_params pars txs) (\<lambda>err.
       if err \<noteq> None then ret_run (VString [], err)
       else
         seq_run (for_run (\<lambda>(k, v). ext_put k v) (zip pars params))
        (bind_run (get_run (ext_get ''this_contract'')) (\<lambda>prevthis.
         seq_run (ext_put ''this_contract'' (VString (snd (ParseName name))))
        (bind_run (get_run (ext_get ''parent'')) (\<lambda>prevparent.
         bind_run (get_run rt_blocks) (\<lambda>bs.
         bind_run (lift_run (caller_contract vm (rev bs))) (\<lambda>caller.
         seq_run (pay CostContract)
        (bind_run (get_run (\<lambda>s. is_stacker (ext_get ''sc'' s))) (\<lambda>sc.
         bind_run (if sc then host_run (vm_AppendStack vm name) else ret_run None) (\<lambda>err.
           if err \<noteq> None then ret_run (VNil, err)
           else
             bind_run (check_signature vm name (list_ex (\<lambda>tx. fd_Name tx = ''Signature'') txs)) (\<lambda>err.
               if err \<noteq> None then ret_run (VNil, err)
               else
                 bind_run (run_methods vm run_code cblock (parent_name name caller) [''conditions'', ''action'']) (\<lambda>err.
                   if err \<noteq> None then ret_run (VNil, err)
                   else
                     seq_run (if sc then host_run (vm_PopStack vm name) else ret_run ())
                    (seq_run (ext_put ''parent'' prevparent)
                    (seq_run (ext_put ''this_contract'' prevthis)
                    (bind_run (get_run (ext_get ''result'')) (\<lambda>result.
                     seq_run (upd_run (\<lambda>s. s\<lparr>rt_extend := keep_sys (rt_extend s) ++ drop_sys ext\<rparr>))
                       (ret_run (result, None)))))))))))))))))))))"

definition ExecContract ::
  "'w VM \<Rightarrow> (blockid \<Rightarrow> ('w, status \<times> string option) run) \<Rightarrow> string \<Rightarrow> string \<Rightarrow> val list \<Rightarrow> ('w, val \<times> string option) run" where
  "ExecContract vm run_code name txs params =
     bind_run (lift_run (get_contract vm name)) (\<lambda>c.
       case c of
         None \<Rightarrow> ret_run (VNil, Some (''unknown contract '' @ name))
       | Some cblock \<Rightarrow>
           let pars = str_split (CHR '','') txs in
           if length pars \<noteq> length params then ret_run (VString [], Some errContractPars)
           else
             bind_run (get_run (\<lambda>s. rt_extend s (''loop_'' @ name))) (\<lambda>l.
               if l \<noteq> None then ret_run (VNil, Some (''there is loop in '' @ name @ '' contract''))
               else
                 seq_run (ext_put (''loop_'' @ name) (VBool True))
                   (defer_delete (''loop_'' @ name) (exec_contract_body vm run_code cblock name pars params))))"

fun ex_params :: "val Map \<Rightarrow> FieldInfo list \<Rightarrow> ((string \<times> val) list) res" where
  "ex_params m [] = Inr []"
| "ex_params m (tx # txs) =
     bind_res
       (case Map_Get m (fd_Name tx) of
          Some v \<Rightarrow> Inr v
        | None \<Rightarrow>
            if \<not> str_contains (fd_Tags tx) ''optional'' then Inl (Error (fd_Name tx @ '' is not defined''))
            else zero_of (fd_Type tx)) (\<lambda>v.
     bind_res (ex_params m txs) (\<lambda>ps. Inr ((fd_Name tx, v) # ps)))"

fun join_comma :: "string list \<Rightarrow> string" where
  "join_comma [] = []"
| "join_comma [x] = x"
| "join_comma (x # xs) = x @ '','' @ join_comma xs"

definition ExContract ::
  "'w VM \<Rightarrow> (blockid \<Rightarrow> ('w, status \<times> string option) run) \<Rightarrow> 32 word \<Rightarrow> string \<Rightarrow> ref option \<Rightarrow> ('w, val \<times> string option) run" where
  "ExContract vm run_code state name params =
     (let name = StateName state name in
      bind_run (lift_run (get_contract vm name)) (\<lambda>c.
        case c of
          None \<Rightarrow> ret_run (VNil, Some (''unknown contract '' @ name))
        | Some cblock \<Rightarrow>
            bind_run (case params of None \<Rightarrow> ret_run NewMap | Some r \<Rightarrow> heap_read (\<lambda>h. heap_map h r)) (\<lambda>m.
            bind_run (lift_run (contract_info cblock)) (\<lambda>ci.
              case ex_params m (case ci_Tx ci of None \<Rightarrow> [] | Some xs \<Rightarrow> xs) of
                Inl (Error e) \<Rightarrow> ret_run (VNil, Some e)
              | Inl e \<Rightarrow> throw_run e
              | Inr ps \<Rightarrow>
                  ExecContract vm run_code name (join_comma (map fst ps))
                    (if ps = [] then [VString []] else map snd ps)))))"

definition GetSettings :: "'w VM \<Rightarrow> string \<Rightarrow> string \<Rightarrow> (val \<times> string option) res" where
  "GetSettings vm cntname name =
     bind_res (get_contract vm cntname) (\<lambda>c.
       case c of
         None \<Rightarrow> Inr (VNil, Some (''unknown contract '' @ cntname))
       | Some cblock \<Rightarrow>
           bind_res (contract_info cblock) (\<lambda>ci.
             case Option.bind (ci_Settings ci) (\<lambda>st. map_of st name) of
               Some v \<Rightarrow> Inr (v, None)
             | None \<Rightarrow> Inr (VString [], None)))"

definition MemoryUsage :: "'w RunTime \<Rightarrow> val" where
  "MemoryUsage s = VInt64 (i64 (rt_mem s))"

text \<open>
  The function value behind \<open>ExtFuncInfo.Func\<close> applied by reflection: arguments of the wrong types
  panic. The functions of other packages are a parameter of the model.
\<close>

definition two_results :: "('w, val \<times> string option) run \<Rightarrow> ('w, val list) run" where
  "two_results m = bind_run m (\<lambda>(v, err). ret_run [v, opt_str err])"

definition apply_func ::
  "'w VM \<Rightarrow> (blockid \<Rightarrow> ('w, status \<times> string option) run) \<Rightarrow> extfunc \<Rightarrow> val list \<Rightarrow> ('w, val list) run" where
  "apply_func vm run_code f pars =
     (case f of
        FHost name \<Rightarrow> host_run (vm_host vm name pars)
      | FExecContract \<Rightarrow>
          (case pars of
             [_, VString name, VString txs, VSlice _ params] \<Rightarrow> two_results (ExecContract vm run_code name txs params)
           | _ \<Rightarrow> throw_run (Panic ''reflect: Call using wrong type''))
      | FCallContract \<Rightarrow>
          (case pars of
             [_, VHost t state, VString name, VMap r] \<Rightarrow>
               if t = ''uint32'' then two_results (ExContract vm run_code (of_nat state) name r)
               else throw_run (Panic ''reflect: Call using wrong type'')
           | _ \<Rightarrow> throw_run (Panic ''reflect: Call using wrong type''))
      | FSettings \<Rightarrow>
          (case pars of
             [_, VString cnt, VString name] \<Rightarrow> two_results (lift_run (GetSettings vm cnt name))
           | _ \<Rightarrow> throw_run (Panic ''reflect: Call using wrong type''))
      | FMemoryUsage \<Rightarrow> get_run (\<lambda>s. [MemoryUsage s]))"

section \<open>The loop of RunCode\<close>

text \<open>The price of a call, paid before it is made.\<close>

definition pay_call :: "'w VM \<Rightarrow> ObjInfo \<Rightarrow> ('w, bool) run" where
  "pay_call vm ob =
     (if oi_Type ob = ObjExtFunc then
        bind_run (lift_run (obj_ext ob)) (\<lambda>f.
          case vm_ExtCost vm of
            None \<Rightarrow> ret_run True
          | Some ec \<Rightarrow>
              bind_run (get_run rt_cost) (\<lambda>left.
                if ec (ef_Name f) > left then seq_run (upd_run (\<lambda>s. s\<lparr>rt_cost := 0\<rparr>)) (ret_run False)
                else if ec (ef_Name f) = - 1 then seq_run (pay CostCall) (ret_run True)
                else seq_run (pay (ec (ef_Name f))) (ret_run True)))
      else seq_run (pay CostCall) (ret_run True))"

definition exec_call ::
  "'w VM \<Rightarrow> (blockid \<Rightarrow> ('w, status \<times> string option) run) \<Rightarrow> bool \<Rightarrow> ObjInfo \<Rightarrow> ('w, after) run" where
  "exec_call vm run_code vari ob =
     bind_run (pay_call vm ob) (\<lambda>paid.
       if \<not> paid then ret_run (Leave errCpuOver)
       else bind_run (callFunc vm run_code (apply_func vm run_code) vari ob) (\<lambda>err. ret_run (Tail statusNormal err VNil)))"

definition exec_extend :: "'w VM \<Rightarrow> bool \<Rightarrow> string \<Rightarrow> ('w, after) run" where
  "exec_extend vm call name =
     bind_run (get_run (\<lambda>s. rt_extend s name)) (\<lambda>r.
       case r of
         None \<Rightarrow> fail_with (''unknown extend identifier '' @ name)
       | Some v \<Rightarrow>
           seq_run (pay CostExtend)
             (if call then
                bind_run (extendFunc vm name) (\<lambda>err.
                  case err of None \<Rightarrow> done_run | Some e \<Rightarrow> ret_run (Leave (''extend function '' @ name @ '' '' @ e)))
              else seq_run (push (case v of VInt i \<Rightarrow> VInt64 i | _ \<Rightarrow> v)) done_run))"

text \<open>\<open>cmdIf\<close> and \<open>cmdElse\<close> leave the condition on the stack.\<close>

definition exec_branch ::
  "'w VM \<Rightarrow> (blockid \<Rightarrow> ('w, status \<times> string option) run) \<Rightarrow> bool \<Rightarrow> operand \<Rightarrow> ('w, after) run" where
  "exec_branch vm run_code want x =
     bind_run stack_size (\<lambda>n.
     bind_run (stack_at (n - 1)) (\<lambda>v.
     bind_run (valueToBool_run vm v) (\<lambda>b.
       if b = want then
         (case x of
            OpBlock blk \<Rightarrow> bind_run (run_code blk) (\<lambda>(st, err). ret_run (Tail st err VNil))
          | _ \<Rightarrow> throw_run bad_assert)
       else done_run)))"

definition exec_while ::
  "'w VM \<Rightarrow> (blockid \<Rightarrow> ('w, status \<times> string option) run) \<Rightarrow> operand \<Rightarrow> frame \<Rightarrow> ('w, frame \<times> after) run" where
  "exec_while vm run_code x fr =
     bind_run stack_size (\<lambda>n.
     bind_run (stack_at (n - 1)) (\<lambda>v.
     seq_run (stack_cut (n - 1))
    (bind_run (valueToBool_run vm v) (\<lambda>b.
       if \<not> b then ret_run (fr, Tail statusNormal None VNil)
       else
         case x of
           OpBlock blk \<Rightarrow>
             bind_run (run_code blk) (\<lambda>(st, err).
               if fr_labels fr = [] then throw_run out_of_range
               else
                 let fr' = fr\<lparr>fr_labels := butlast (fr_labels fr)\<rparr> in
                 if st = statusContinue then ret_run (fr', Jump (last (fr_labels fr)))
                 else ret_run (fr', Tail (if st = statusBreak then statusNormal else st) err VNil))
         | _ \<Rightarrow> throw_run bad_assert))))"

definition exec_var :: "VarInfo \<Rightarrow> ('w, after) run" where
  "exec_var ivar =
     bind_run (var_value ivar) (\<lambda>r.
       case r of None \<Rightarrow> ret_run (Leave (wrong_var ivar)) | Some v \<Rightarrow> seq_run (push v) done_run)"

definition exec_error :: "'w VM \<Rightarrow> operand \<Rightarrow> ('w, after) run" where
  "exec_error vm x =
     (case x of
        OpKey k \<Rightarrow>
          bind_run stack_size (\<lambda>n.
          bind_run (stack_at (n - 1)) (\<lambda>v.
          bind_run (get_run rt_heap) (\<lambda>h. fail_with (SetVMError vm h (error_type k) v))))
      | _ \<Rightarrow> throw_run bad_assert)"

definition exec_unwrap :: "int \<Rightarrow> ('w, after) run" where
  "exec_unwrap sz =
     bind_run (stack_at (sz - 1)) (\<lambda>v.
     bind_run (lift_run (is_array v)) (\<lambda>arr.
     seq_run (if arr then upd_run (\<lambda>s. s\<lparr>rt_unwrap := True\<rparr>) else ret_run ()) done_run))"

text \<open>Commands that do not run other code.\<close>

definition exec_plain :: "'w VM \<Rightarrow> ByteCode \<Rightarrow> int \<Rightarrow> frame \<Rightarrow> ('w, after) run" where
  "exec_plain vm cmd sz fr =
     (let c = bc_Cmd cmd; x = bc_Value cmd in
      if c = cmdPush then seq_run (push (operand_val x)) done_run
      else if c = cmdPushStr then bind_run (lift_run (operand_str x)) (\<lambda>t. seq_run (push (VString t)) done_run)
      else if c = cmdLabel then done_run
      else if c = cmdContinue then ret_run (Tail statusContinue None VNil)
      else if c = cmdBreak then ret_run (Tail statusBreak None VNil)
      else if c = cmdReturn then ret_run (Tail statusReturn None VNil)
      else if c = cmdAssignVar then (case x of OpVars vs \<Rightarrow> done_run | _ \<Rightarrow> throw_run bad_assert)
      else if c = cmdAssign then
        leave_on_error (seq_run (assign_loop vm (int (length (fr_assign fr))) 0 (fr_assign fr)) done_run)
      else if c = cmdError then exec_error vm x
      else if c = cmdFuncName then
        (case x of
           OpFuncName name cnt \<Rightarrow> seq_run (exec_FuncName name cnt) (ret_run (Jump (Suc (fr_ci fr))))
         | _ \<Rightarrow> throw_run bad_assert)
      else if c = cmdVar then (case x of OpVar v \<Rightarrow> exec_var v | _ \<Rightarrow> throw_run bad_assert)
      else if c = cmdIndex then exec_Index sz
      else if c = cmdSetIndex then (case x of OpIndex info \<Rightarrow> exec_SetIndex vm info sz | _ \<Rightarrow> throw_run bad_assert)
      else if c = cmdUnwrapArr then exec_unwrap sz
      else if c = cmdArrayInit then
        (case x of
           OpArray xs \<Rightarrow> leave_on_error (bind_run (getResultArray vm xs) (\<lambda>v. seq_run (push v) done_run))
         | _ \<Rightarrow> throw_run bad_assert)
      else if c = cmdMapInit then
        (case x of
           OpMap ps \<Rightarrow> leave_on_error (bind_run (getResultMap vm ps) (\<lambda>v. seq_run (push v) done_run))
         | _ \<Rightarrow> throw_run bad_assert)
      else if c = cmdSign then
        bind_run (stack_at (sz - 1)) (\<lambda>v. bind_run (lift_run (op_Sign v)) (\<lambda>r. seq_run (stack_put (sz - 1) r) done_run))
      else if c = cmdNot then
        bind_run (stack_at (sz - 1)) (\<lambda>v.
        bind_run (valueToBool_run vm v) (\<lambda>b. seq_run (stack_put (sz - 1) (VBool (\<not> b))) done_run))
      else
        (case binary_op c of
           Some f \<Rightarrow>
             bind_run (stack_at (sz - 2)) (\<lambda>a.
             bind_run (stack_at (sz - 1)) (\<lambda>b.
             leave_on_error
               (bind_run (heap_read (\<lambda>h. f vm h a b)) (\<lambda>(bin, err). ret_run (Tail statusNormal err bin)))))
         | None \<Rightarrow> fail_with (''Unknown command '' @ show_nat (unat c))))"

text \<open>All commands; the labels and the variables to assign are local to \<open>RunCode\<close>.\<close>

definition exec_cmd ::
  "'w VM \<Rightarrow> (blockid \<Rightarrow> ('w, status \<times> string option) run) \<Rightarrow> ByteCode \<Rightarrow> int \<Rightarrow> frame \<Rightarrow> ('w, frame \<times> after) run" where
  "exec_cmd vm run_code cmd sz fr =
     (let c = bc_Cmd cmd; x = bc_Value cmd; keep = (\<lambda>m. bind_run m (\<lambda>a. ret_run (fr, a))) in
      if c = cmdIf then keep (exec_branch vm run_code True x)
      else if c = cmdElse then keep (exec_branch vm run_code False x)
      else if c = cmdWhile then exec_while vm run_code x fr
      else if c = cmdCall \<or> c = cmdCallVari then
        (case x of OpObj ob \<Rightarrow> keep (exec_call vm run_code (c = cmdCallVari) ob) | _ \<Rightarrow> throw_run bad_assert)
      else if c = cmdExtend \<or> c = cmdCallExtend then
        bind_run (lift_run (operand_str x)) (\<lambda>name. keep (exec_extend vm (c = cmdCallExtend) name))
      else
        bind_run (exec_plain vm cmd sz fr) (\<lambda>a.
          ret_run
            (if c = cmdLabel then fr\<lparr>fr_labels := fr_labels fr @ [fr_ci fr]\<rparr>
             else if c = cmdAssignVar then fr\<lparr>fr_assign := (case x of OpVars vs \<Rightarrow> vs | _ \<Rightarrow> [])\<rparr>
             else fr, a)))"

text \<open>The results of a function are moved to where its parameters were.\<close>

fun move_results :: "nat \<Rightarrow> int \<Rightarrow> ('w, int) run" where
  "move_results 0 start = ret_run start"
| "move_results (Suc k) start =
     bind_run stack_size (\<lambda>n.
     bind_run (stack_at (n - int (Suc k))) (\<lambda>v.
     seq_run (stack_put start v) (move_results k (start + 1))))"

text \<open>The end of \<open>RunCode\<close>: the innermost block is left.\<close>

definition leave_block :: "'w VM \<Rightarrow> int \<Rightarrow> status \<Rightarrow> string option \<Rightarrow> ('w, status \<times> string option) run" where
  "leave_block vm start st err =
     bind_run (get_run rt_blocks) (\<lambda>bs.
       if bs = [] then throw_run out_of_range
       else
         seq_run (upd_run (\<lambda>s. s\<lparr>rt_blocks := butlast bs\<rparr>))
           (if st = statusReturn then
              bind_run (lift_run (get_block vm (bs_Block (last bs)))) (\<lambda>blk.
                if b_Type blk = ObjFunc then
                  bind_run (lift_run (func_info blk)) (\<lambda>f.
                  bind_run (move_results (length (fi_Results f)) start) (\<lambda>start.
                  seq_run (stack_cut start) (ret_run (statusNormal, err))))
                else ret_run (statusReturn, err))
            else seq_run (stack_cut start) (ret_run (st, err))))"

definition fits_top :: "16 word \<Rightarrow> bool" where
  "fits_top c \<longleftrightarrow> drop_bit 8 c \<le> 8"

definition arity :: "16 word \<Rightarrow> int" where
  "arity c = int (unat (drop_bit 8 c))"

text \<open>One turn of the loop; \<open>loop\<close> is the rest of the loop, \<open>run_code\<close> the recursive call.\<close>

definition loop_body ::
  "'w VM \<Rightarrow> (blockid \<Rightarrow> ('w, status \<times> string option) run) \<Rightarrow> (frame \<Rightarrow> ('w, status \<times> string option) run) \<Rightarrow> frame \<Rightarrow>
    ('w, status \<times> string option) run" where
  "loop_body vm run_code loop fr =
     (if fr_ci fr \<ge> length (fr_code fr) then leave_block vm (fr_start fr) statusNormal None
      else
        let cmd = fr_code fr ! fr_ci fr; c = bc_Cmd cmd in
        seq_run (pay 1)
       (bind_run (get_run (\<lambda>s. (rt_cost s, rt_mem s, int (length (rt_stack s))))) (\<lambda>(cost, mem, sz).
          if cost \<le> 0 then ret_run (statusNormal, Some errCpuOver)
          else if mem > memoryLimit then ret_run (statusNormal, Some ErrMemoryLimit)
          else if sz < arity c then ret_run (statusNormal, Some errStackEmpty)
          else if \<not> fits_top c then throw_run out_of_range
          else
            bind_run (exec_cmd vm run_code cmd sz fr) (\<lambda>(fr, a).
              case a of
                Leave e \<Rightarrow> ret_run (statusNormal, Some e)
              | Jump ci \<Rightarrow> loop (fr\<lparr>fr_ci := ci\<rparr>)
              | Tail st err bin \<Rightarrow>
                  if err \<noteq> None then
                    seq_run (upd_run (\<lambda>s. s\<lparr>rt_err := err\<rparr>)) (leave_block vm (fr_start fr) st err)
                  else if st \<noteq> statusNormal then leave_block vm (fr_start fr) st None
                  else
                    seq_run (if arity c = 2 then seq_run (stack_put (sz - 2) bin) (stack_cut (sz - 1)) else ret_run ())
                      (loop (fr\<lparr>fr_ci := Suc (fr_ci fr)\<rparr>))))))"

fun RunCode :: "'w VM \<Rightarrow> nat \<Rightarrow> blockid \<Rightarrow> ('w, status \<times> string option) run"
  and code_loop :: "'w VM \<Rightarrow> nat \<Rightarrow> frame \<Rightarrow> ('w, status \<times> string option) run" where
  "RunCode vm 0 = (\<lambda>b s. None)"
| "RunCode vm (Suc n) = (\<lambda>b. bind_run (enter_block vm b) (code_loop vm n))"
| "code_loop vm 0 = (\<lambda>fr s. None)"
| "code_loop vm (Suc n) = loop_body vm (RunCode vm n) (code_loop vm n)"

text \<open>\<open>rt.Run\<close> for a given amount of fuel.\<close>

definition run_block :: "'w VM \<Rightarrow> nat \<Rightarrow> blockid \<Rightarrow> ('w, val list \<times> string option) run" where
  "run_block vm n = Run vm (RunCode vm n)"

section \<open>Named objects\<close>

text \<open>\<open>getObjByName\<close> follows the dots of a name through the objects of contracts and functions.\<close>

fun lookup_path :: "'w VM \<Rightarrow> (string \<Rightarrow> ObjInfo option) \<Rightarrow> string list \<Rightarrow> ObjInfo option res" where
  "lookup_path vm objs [] = Inr None"
| "lookup_path vm objs (n # ns) =
     (case objs n of
        None \<Rightarrow> Inr None
      | Some ob \<Rightarrow>
          if ns = [] then Inr (Some ob)
          else if oi_Type ob \<noteq> ObjContract \<and> oi_Type ob \<noteq> ObjFunc then Inr None
          else
            bind_res (obj_block ob) (\<lambda>b. bind_res (get_block vm b) (\<lambda>blk. lookup_path vm (map_of (b_Objects blk)) ns)))"

definition getObjByName :: "'w VM \<Rightarrow> string \<Rightarrow> ObjInfo option res" where
  "getObjByName vm name = lookup_path vm (vm_Objects vm) (str_split (CHR ''.'') name)"

definition getObjByNameExt :: "'w VM \<Rightarrow> string \<Rightarrow> 32 word \<Rightarrow> ObjInfo option res" where
  "getObjByNameExt vm name state =
     bind_res (getObjByName vm name) (\<lambda>r.
       if r = None then getObjByName vm (StateName state name) else Inr r)"

text \<open>
  \<open>VM.Call\<close> of a function of the language: the remaining cost is written back to \<open>$txcost\<close>. The
  state holds what the call shares: extended variables, heap and world.
\<close>

definition call_object :: "'w VM \<Rightarrow> string \<Rightarrow> ('w, ObjInfo option) run" where
  "call_object vm name =
     bind_run (get_run (\<lambda>s. rt_extend s ''rt_state'')) (\<lambda>r.
       case r of
         None \<Rightarrow> lift_run (getObjByName vm name)
       | Some (VHost t st) \<Rightarrow>
           if t = ''uint32'' then lift_run (getObjByNameExt vm name (of_nat st)) else throw_run bad_assert
       | Some _ \<Rightarrow> throw_run bad_assert)"

definition call_cost :: "int \<Rightarrow> ('w, int) run" where
  "call_cost maxCost =
     bind_run (get_run (\<lambda>s. rt_extend s ''txcost'')) (\<lambda>r.
       case r of None \<Rightarrow> ret_run maxCost | Some (VInt64 c) \<Rightarrow> ret_run (sint c) | Some _ \<Rightarrow> throw_run bad_assert)"

definition Call :: "'w VM \<Rightarrow> nat \<Rightarrow> int \<Rightarrow> string \<Rightarrow> val list \<Rightarrow> ('w, val list \<times> string option) run" where
  "Call vm n maxCost name params =
     bind_run (call_object vm name) (\<lambda>r.
       case r of
         None \<Rightarrow> ret_run ([], Some (''unknown function '' @ name))
       | Some ob \<Rightarrow>
           if oi_Type ob = ObjFunc then
             bind_run (call_cost maxCost) (\<lambda>cost.
             bind_run (lift_run (obj_block ob)) (\<lambda>b.
             seq_run (upd_run (\<lambda>s. s\<lparr>rt_cost := cost\<rparr>))
            (bind_run (nested_run (run_block vm n b)) (\<lambda>res.
             bind_run (get_run rt_cost) (\<lambda>left.
             seq_run (ext_put ''txcost'' (VInt64 (i64 left))) (ret_run res))))))
           else if oi_Type ob = ObjExtFunc then
             bind_run (lift_run (obj_ext ob)) (\<lambda>f.
               let k = length (ef_Params f) in
               if length params < (if ef_Variadic f then k - 1 else k) then throw_run out_of_range
               else
                 bind_run
                   (apply_func vm (RunCode vm n) (ef_Func f)
                     (if ef_Variadic f then take (k - 1) params @ [VSlice ''[]interface {}'' (drop (k - 1) params)]
                      else take k params)) (\<lambda>vs. ret_run (vs, None)))
           else ret_run ([], Some (''unknown function '' @ name)))"

end
