(* ===== verification/Script_Logic.thy ===== *)
theory Script_Logic
  imports Script_VM
begin

text \<open>
  A logic for the virtual machine. \<open>keeps N R m\<close>: every run of \<open>m\<close> that ends relates the states before and
  after by \<open>R\<close>; a run may fail to end only if \<open>N\<close>. The locales state which primitive changes of the
  run-time record a relation has to contain: for \<open>vm_rel\<close> everything but the costs, so all commands that
  run no other code keep the relation; for \<open>vm_cost_rel\<close> also the costs, so whole programs do.
\<close>

section \<open>Relations between the states before and after a computation\<close>

definition keeps :: "bool \<Rightarrow> ('w RunTime \<Rightarrow> 'w RunTime \<Rightarrow> bool) \<Rightarrow> ('w, 'a) run \<Rightarrow> bool" where
  "keeps N R m \<longleftrightarrow> (\<forall>s. case m s of None \<Rightarrow> N | Some (_, s') \<Rightarrow> R s s')"

lemma keepsD: "keeps N R m \<Longrightarrow> m s = Some (r, s') \<Longrightarrow> R s s'"
  by (auto simp: keeps_def dest!: spec [of _ s])

lemma keeps_returns: "keeps False R m \<Longrightarrow> \<exists>r s'. m s = Some (r, s') \<and> R s s'"
  by (cases "m s") (auto simp: keeps_def dest!: spec [of _ s])

lemma keepsI:
  assumes "\<And>s. m s = None \<Longrightarrow> N" "\<And>s r s'. m s = Some (r, s') \<Longrightarrow> R s s'"
  shows "keeps N R m"
  using assms by (auto simp: keeps_def split: option.split)

lemma keeps_None: "keeps N R m \<Longrightarrow> m s = None \<Longrightarrow> N"
  by (auto simp: keeps_def dest!: spec [of _ s])

lemma bind_run_Inr:
  "bind_run m f s = Some (Inr y, s') \<longleftrightarrow> (\<exists>x t. m s = Some (Inr x, t) \<and> f x t = Some (Inr y, s'))"
  by (auto simp: bind_run_def split: option.splits sum.splits)

lemma seq_run_Inr:
  "seq_run m k s = Some (Inr y, s') \<longleftrightarrow> (\<exists>x t. m s = Some (Inr x, t) \<and> k t = Some (Inr y, s'))"
  by (simp add: seq_run_def bind_run_Inr)

lemmas run_results = bind_run_Inr seq_run_Inr ret_run_def lift_run_def get_run_def throw_run_def

text \<open>A frame executes the code of its block and keeps it.\<close>

lemma enter_block_code:
  "enter_block vm b s = Some (Inr fr, s') \<Longrightarrow> \<exists>blk. vm_blocks vm b = Some blk \<and> fr_code fr = b_Code blk"
  by (auto simp: enter_block_def get_block_def run_results split: option.splits)

lemma exec_while_code: "exec_while vm rc x fr s = Some (Inr (fr', a), s') \<Longrightarrow> fr_code fr' = fr_code fr"
  by (auto simp: exec_while_def Let_def run_results split: if_splits operand.splits)

lemma exec_cmd_code: "exec_cmd vm rc cmd sz fr s = Some (Inr (fr', a), s') \<Longrightarrow> fr_code fr' = fr_code fr"
  by (auto simp: exec_cmd_def Let_def run_results split: if_splits operand.splits dest: exec_while_code)

locale run_rel =
  fixes N :: bool and R :: "'w RunTime \<Rightarrow> 'w RunTime \<Rightarrow> bool"
  assumes R_refl: "R s s"
    and R_trans: "R s t \<Longrightarrow> R t u \<Longrightarrow> R s u"
begin

lemma keeps_ret: "keeps N R (ret_run x)"
  by (simp add: keeps_def ret_run_def R_refl)

lemma keeps_throw: "keeps N R (throw_run e)"
  by (simp add: keeps_def throw_run_def R_refl)

lemma keeps_lift: "keeps N R (lift_run r)"
  by (simp add: keeps_def lift_run_def R_refl)

lemma keeps_get: "keeps N R (get_run f)"
  by (simp add: keeps_def get_run_def R_refl)

lemma keeps_upd: "(\<And>s. R s (f s)) \<Longrightarrow> keeps N R (upd_run f)"
  by (simp add: keeps_def upd_run_def)

lemma keeps_bind_res:
  "keeps N R m \<Longrightarrow> (\<And>x s s'. m s = Some (Inr x, s') \<Longrightarrow> keeps N R (f x)) \<Longrightarrow> keeps N R (bind_run m f)"
proof (rule keepsI)
  assume m: "keeps N R m" and f: "\<And>x s s'. m s = Some (Inr x, s') \<Longrightarrow> keeps N R (f x)"
  show N if "bind_run m f s = None" for s
    using that keeps_None [OF m, of s] keeps_None [OF f]
    by (auto simp: bind_run_def split: option.splits sum.splits)
  show "R s s'" if "bind_run m f s = Some (r, s')" for s r s'
    using that keepsD [OF m, of s] keepsD [OF f] R_trans
    by (auto simp: bind_run_def split: option.splits sum.splits)
qed

lemma keeps_bind: "keeps N R m \<Longrightarrow> (\<And>x. keeps N R (f x)) \<Longrightarrow> keeps N R (bind_run m f)"
  by (rule keeps_bind_res)

lemma keeps_bind_lift: "(\<And>x. r = Inr x \<Longrightarrow> keeps N R (f x)) \<Longrightarrow> keeps N R (bind_run (lift_run r) f)"
  by (rule keeps_bind_res [OF keeps_lift]) (simp add: lift_run_def)

lemma keeps_seq: "keeps N R m \<Longrightarrow> keeps N R n \<Longrightarrow> keeps N R (seq_run m n)"
  unfolding seq_run_def by (rule keeps_bind)

lemma keeps_if: "(b \<Longrightarrow> keeps N R m) \<Longrightarrow> (\<not> b \<Longrightarrow> keeps N R n) \<Longrightarrow> keeps N R (if b then m else n)"
  by simp

lemma keeps_calcMem: "keeps N R (calcMem_run vm v)"
  by (simp add: keeps_def calcMem_run_def R_refl)

lemma keeps_bool: "keeps N R (valueToBool_run vm v)"
  by (simp add: keeps_def valueToBool_run_def R_refl)

lemma keeps_leave: "keeps N R m \<Longrightarrow> keeps N R (leave_on_error m)"
  by (rule keepsI; auto simp: leave_on_error_def split: option.splits sum.splits go_exc.splits dest: keeps_None keepsD)

lemma keeps_recover: "keeps N R m \<Longrightarrow> keeps N R (recover_run m)"
  by (rule keepsI; auto simp: recover_run_def split: option.splits sum.splits go_exc.splits dest: keeps_None keepsD)

lemma keeps_option: "keeps N R m \<Longrightarrow> (\<And>x. keeps N R (f x)) \<Longrightarrow> keeps N R (case_option m f r)"
  by (simp split: option.split)

lemma keeps_prod: "(\<And>x y. keeps N R (f x y)) \<Longrightarrow> keeps N R (case_prod f r)"
  by (simp split: prod.split)

lemma keeps_list: "keeps N R m \<Longrightarrow> (\<And>x xs. keeps N R (f x xs)) \<Longrightarrow> keeps N R (case_list m f r)"
  by (simp split: list.split)

lemma keeps_val:
  assumes "keeps N R a1" "\<And>x. keeps N R (a2 x)" "\<And>x. keeps N R (a3 x)" "\<And>x. keeps N R (a4 x)"
    "\<And>x. keeps N R (a5 x)" "\<And>x. keeps N R (a6 x)" "\<And>x. keeps N R (a7 x)" "\<And>x. keeps N R (a8 x)"
    "\<And>x. keeps N R (a9 x)" "\<And>x y. keeps N R (a10 x y)" "\<And>x. keeps N R (a11 x)" "\<And>x. keeps N R (a12 x)"
    "\<And>x. keeps N R (a13 x)" "\<And>x y. keeps N R (a14 x y)" "\<And>x. keeps N R (a15 x)"
    "\<And>x y. keeps N R (a16 x y)" "\<And>x y. keeps N R (a17 x y)"
  shows "keeps N R (case_val a1 a2 a3 a4 a5 a6 a7 a8 a9 a10 a11 a12 a13 a14 a15 a16 a17 v)"
  using assms by (cases v) auto

lemma keeps_operand:
  assumes "keeps N R a1" "\<And>x. keeps N R (a2 x)" "\<And>x. keeps N R (a3 x)" "\<And>x. keeps N R (a4 x)"
    "\<And>x. keeps N R (a5 x)" "\<And>x. keeps N R (a6 x)" "\<And>x. keeps N R (a7 x)" "\<And>x y. keeps N R (a8 x y)"
    "\<And>x. keeps N R (a9 x)" "\<And>x. keeps N R (a10 x)" "\<And>x. keeps N R (a11 x)" "\<And>x. keeps N R (a12 x)"
  shows "keeps N R (case_operand a1 a2 a3 a4 a5 a6 a7 a8 a9 a10 a11 a12 v)"
  using assms by (cases v) auto

lemma keeps_for: "(\<And>x. keeps N R (f x)) \<Longrightarrow> keeps N R (for_run f xs)"
  by (induction xs) (auto intro: keeps_ret keeps_seq)

lemmas keeps_rules =
  keeps_ret keeps_throw keeps_lift keeps_get keeps_bind keeps_seq keeps_if keeps_calcMem keeps_bool keeps_leave
  keeps_option keeps_prod keeps_list keeps_val keeps_operand keeps_for

end

text \<open>A relation that the fields of the run-time record do not matter for, apart from the costs and what is shared with the host.\<close>

locale mach_rel = run_rel N R for N and R :: "'w RunTime \<Rightarrow> 'w RunTime \<Rightarrow> bool" +
  assumes R_stack: "R s (s\<lparr>rt_stack := xs\<rparr>)"
    and R_blocks: "R s (s\<lparr>rt_blocks := bs\<rparr>)"
    and R_err: "R s (s\<lparr>rt_err := er\<rparr>)"
    and R_unwrap: "R s (s\<lparr>rt_unwrap := b\<rparr>)"
    and R_heap: "R s (s\<lparr>rt_heap := h\<rparr>)"
    and R_depth: "R s (s\<lparr>rt_callDepth := d\<rparr>)"
    and R_vars: "length vs = length (rt_vars s) \<Longrightarrow> R s (s\<lparr>rt_vars := vs\<rparr>)"
    and R_push_var: "R s (s\<lparr>rt_vars := rt_vars s @ [v]\<rparr>)"
    and R_add_var: "R s (s\<lparr>rt_vars := rt_vars s @ [v], rt_memVars := (rt_memVars s)(KVar (length (rt_vars s)) \<mapsto> m),
          rt_mem := wrap64 (rt_mem s + m)\<rparr>)"
    and R_mem_ext: "R s (set_mem (KExt k) m s)"
    and R_mem_var: "i < length (rt_vars s) \<Longrightarrow> R s (set_mem (KVar i) m s)"
begin

lemma keeps_heap: "keeps N R (heap_run f)"
  by (auto simp: keeps_def heap_run_def R_refl R_heap split: sum.split)

lemma keeps_stack_ops:
  "keeps N R (push v)" "keeps N R stack_size" "keeps N R (stack_at i)" "keeps N R (stack_put i v)"
  "keeps N R (stack_cut i)" "keeps N R (stack_slice i j)" "keeps N R (arr_push vm sl v)" "keeps N R (alloc_run ob)"
  "keeps N R (heap_read g)"
  unfolding push_def stack_size_def stack_at_def stack_put_def stack_cut_def stack_slice_def arr_push_def alloc_run_def
    heap_read_def
  by (intro keeps_rules keeps_heap keeps_upd R_stack)+

lemma keeps_recalc_ext: "keeps N R (recalcMemExtendVar vm k)"
  unfolding recalcMemExtendVar_def by (intro keeps_rules keeps_upd R_mem_ext)

lemma keeps_addVar: "keeps N R (addVar vm v)"
  by (auto simp: keeps_def addVar_def seq_run_def bind_run_def upd_run_def calcMem_run_def R_push_var R_add_var
      split: sum.split)

lemma keeps_recalc_var: "keeps N R (recalcMemVar vm k)"
  by (auto simp: keeps_def recalcMemVar_def bind_run_def get_run_def lift_run_def calcMem_run_def upd_run_def go_nth_def
      R_refl intro!: R_mem_var split: sum.split)

lemma keeps_put_var: "keeps N R (put_var k v)"
  by (auto simp: keeps_def put_var_def bind_run_def get_run_def upd_run_def throw_run_def R_refl intro!: R_vars)

lemma keeps_setVar: "keeps N R (setVar vm k v)"
  unfolding setVar_def by (intro keeps_rules keeps_put_var keeps_recalc_var)

lemma keeps_unwrap: "keeps N R (upd_run (\<lambda>s. s\<lparr>rt_unwrap := b\<rparr>))"
  by (intro keeps_upd R_unwrap)

lemmas mach_prims = keeps_rules keeps_heap keeps_stack_ops keeps_recalc_ext keeps_addVar keeps_recalc_var
  keeps_put_var keeps_setVar keeps_unwrap

lemma keeps_var_value: "keeps N R (var_value iv)"
  unfolding var_value_def by (intro mach_prims)

lemma keeps_new_value: "keeps N R (new_value t)"
  unfolding new_value_def by (auto intro!: mach_prims split: option.split ltype.split)

lemma keeps_results:
  "keeps N R (getResultValue vm x)" "keeps N R (getResultItems vm xs sl)" "keeps N R (getResultPairs vm ps m)"
  by (induction x and xs sl and ps m rule: getResultValue_getResultItems_getResultPairs.induct)
     (auto intro!: mach_prims keeps_var_value)

lemma keeps_assign_owned: "keeps N R (assign_owned vm item v)"
  unfolding assign_owned_def by (intro mach_prims)

lemma keeps_store_tail: "keeps N R (store_tail vm off ps i vs)"
  by (induction vs arbitrary: i) (auto intro!: mach_prims)

lemma keeps_tail_params: "keeps N R (tail_params k off i)"
  by (induction k arbitrary: i) (auto intro!: mach_prims)

lemma keeps_FuncName: "keeps N R (exec_FuncName name c)"
  unfolding exec_FuncName_def Let_def by (intro mach_prims keeps_tail_params)

lemma keeps_done: "keeps N R done_run" "keeps N R (fail_with e)"
  unfolding done_run_def fail_with_def by (intro mach_prims)+

lemma keeps_Index: "keeps N R (exec_Index sz)"
  unfolding exec_Index_def by (auto intro!: mach_prims keeps_done)

lemma keeps_arr_store: "keeps N R (arr_store r n i v)"
  unfolding arr_store_def by (intro mach_prims)

lemma keeps_set_map: "keeps N R (set_map sz r)"
  unfolding set_map_def by (auto intro!: mach_prims keeps_upd R_heap)

lemma keeps_error: "keeps N R (exec_error vm x)"
  unfolding exec_error_def by (auto intro!: mach_prims keeps_done)

lemma keeps_exec_var: "keeps N R (exec_var iv)"
  unfolding exec_var_def by (intro mach_prims keeps_done keeps_var_value)

lemma keeps_exec_unwrap: "keeps N R (exec_unwrap sz)"
  unfolding exec_unwrap_def by (intro mach_prims keeps_done)

lemma keeps_move: "keeps N R (move_results k st)"
  by (induction k arbitrary: st) (auto intro!: mach_prims)

lemma keeps_leave_block: "keeps N R (leave_block vm st stat err)"
  unfolding leave_block_def by (intro mach_prims keeps_upd R_blocks keeps_move)

lemma keeps_pop_names: "keeps N R (pop_names blk)"
  unfolding pop_names_def by (auto intro!: mach_prims)

lemma keeps_push_results: "keeps N R (push_results ts vs)"
  by (induction ts vs rule: push_results.induct) (auto intro!: mach_prims split: val.split)

lemma keeps_collect: "keeps N R (collect_pars f sz c l a i)"
proof (induction f sz c l a i rule: collect_pars.induct)
  case (1 f sz c l a i)
  then show ?case by (subst collect_pars.simps) (auto intro!: mach_prims)
qed

lemma keeps_check_params: "keeps N R (check_params b i ts)"
  by (induction ts arbitrary: i) (auto intro!: mach_prims split: option.split)

lemma keeps_pack: "keeps N R (pack_variadic c sz i)"
  unfolding pack_variadic_def Let_def by (intro mach_prims)

lemma keeps_unwrap_args: "keeps N R (unwrap_args b)"
  unfolding unwrap_args_def by (auto intro!: mach_prims keeps_upd R_stack R_unwrap)

lemma keeps_depth: "keeps N R m \<Longrightarrow> keeps N R (with_depth m)"
proof (rule keepsI)
  assume m: "keeps N R m"
  show N if "with_depth m s = None" for s
    using that keeps_None [OF m] by (auto simp: with_depth_def split: option.splits)
  show "R s s'" if "with_depth m s = Some (r, s')" for s r s'
    using that keepsD [OF m] R_trans [OF R_depth] R_trans [OF _ R_depth]
    by (auto simp: with_depth_def split: option.splits) (metis R_depth R_trans)
qed

end

text \<open>\<open>pay\<close> and the operations that use it; runs may fail to end.\<close>

locale mach_cost_rel = mach_rel N R for N and R :: "'w RunTime \<Rightarrow> 'w RunTime \<Rightarrow> bool" +
  assumes R_cost: "R s (s\<lparr>rt_cost := c\<rparr>)"
    and partial: N
begin

lemma keeps_pay: "keeps N R (pay c)"
  unfolding pay_def by (intro keeps_upd R_cost)

lemma keeps_create_vars: "keeps N R (create_vars vm np st k ts)"
  by (induction ts arbitrary: k) (auto intro!: mach_prims keeps_pay keeps_new_value)

lemma keeps_enter: "keeps N R (enter_block vm b)"
  unfolding enter_block_def
  by (auto intro!: mach_prims keeps_upd R_blocks keeps_pop_names keeps_create_vars keeps_store_tail)

lemma keeps_db_results: "keeps N R (push_db_results vm f vs)"
  unfolding push_db_results_def
  by (auto intro!: mach_prims keeps_upd R_cost keeps_pay keeps_push_results)

lemma keeps_call_block:
  "(\<And>b. keeps N R (rc b)) \<Longrightarrow> keeps N R (call_block vm rc v ob c sz i)"
  unfolding call_block_def by (auto intro!: mach_prims keeps_pack keeps_check_params)

lemma keeps_callFunc:
  "(\<And>b. keeps N R (rc b)) \<Longrightarrow> (\<And>f c sz. oi_Value ob = OVExt f \<Longrightarrow> keeps N R (call_host vm af f c sz)) \<Longrightarrow>
    keeps N R (callFunc vm rc af v ob)"
  unfolding callFunc_def Let_def
  by (intro mach_prims keeps_depth keeps_unwrap_args keeps_call_block keeps_bind_lift)
     (auto simp: obj_ext_def intro!: keeps_bind_lift split: objval.splits)

lemma keeps_branch: "(\<And>b. keeps N R (rc b)) \<Longrightarrow> keeps N R (exec_branch vm rc w x)"
  unfolding exec_branch_def by (auto intro!: mach_prims keeps_done)

lemma keeps_while: "(\<And>b. keeps N R (rc b)) \<Longrightarrow> keeps N R (exec_while vm rc x fr)"
  unfolding exec_while_def Let_def by (auto intro!: mach_prims)

lemma keeps_exec_call:
  "(\<And>b. keeps N R (rc b)) \<Longrightarrow> (\<And>f c sz. oi_Value ob = OVExt f \<Longrightarrow> keeps N R (call_host vm (apply_func vm rc) f c sz)) \<Longrightarrow>
    keeps N R (exec_call vm rc v ob)"
  unfolding exec_call_def pay_call_def
  by (intro mach_prims keeps_pay keeps_upd R_cost keeps_callFunc)

lemma keeps_exec_extend: "keeps N R (extendFunc vm name) \<Longrightarrow> keeps N R (exec_extend vm c name)"
  unfolding exec_extend_def by (intro mach_prims keeps_pay keeps_done)

lemma keeps_exec_cmd:
  assumes "\<And>b. keeps N R (rc b)" "keeps N R (exec_plain vm cmd sz fr)" "\<And>name. keeps N R (extendFunc vm name)"
    and "\<And>ob f c sz. bc_Value cmd = OpObj ob \<Longrightarrow> oi_Value ob = OVExt f \<Longrightarrow> keeps N R (call_host vm (apply_func vm rc) f c sz)"
  shows "keeps N R (exec_cmd vm rc cmd sz fr)"
proof -
  have call: "keeps N R (exec_call vm rc v ob)" if "bc_Value cmd = OpObj ob" for v ob
    using assms(1,4) that by (intro keeps_exec_call)
  show ?thesis
    unfolding exec_cmd_def Let_def
    by (intro keeps_if; (cases "bc_Value cmd")?)
       (auto intro!: mach_prims keeps_branch keeps_while keeps_exec_extend assms call)
qed

lemma keeps_loop_body:
  assumes lp: "\<And>fr'. fr_code fr' = fr_code fr \<Longrightarrow> keeps N R (lp fr')"
    and cmd: "\<And>cmd sz. cmd \<in> set (fr_code fr) \<Longrightarrow> keeps N R (exec_cmd vm rc cmd sz fr)"
  shows "keeps N R (loop_body vm rc lp fr)"
  unfolding loop_body_def Let_def
  by (auto intro!: mach_prims keeps_bind_res [where m = "exec_cmd _ _ _ _ _"] keeps_leave_block keeps_pay keeps_upd R_err
      lp cmd simp: exec_cmd_code split: after.split)

text \<open>Programs: a property of all commands of a machine.\<close>

lemma keeps_program:
  assumes code: "\<And>b blk. vm_blocks vm b = Some blk \<Longrightarrow> list_all good (b_Code blk)"
    and cmd: "\<And>rc cmd sz fr. good cmd \<Longrightarrow> (\<And>b. keeps N R (rc b)) \<Longrightarrow> keeps N R (exec_cmd vm rc cmd sz fr)"
  shows keeps_RunCode: "keeps N R (RunCode vm n b)"
    and keeps_code_loop: "list_all good (fr_code fr) \<Longrightarrow> keeps N R (code_loop vm n fr)"
proof (induction n arbitrary: b fr)
  case 0
  { case 1 show ?case by (simp add: keeps_def partial) }
  { case 2 show ?case by (simp add: keeps_def partial) }
next
  case (Suc n)
  { case 1
    have "keeps N R (code_loop vm n fr)" if "enter_block vm b s = Some (Inr fr, s')" for fr s s'
      using enter_block_code [OF that] code by (auto intro: Suc(2))
    then show ?case by (simp add: keeps_bind_res keeps_enter) }
  { case 2
    then show ?case
      unfolding code_loop.simps by (intro keeps_loop_body cmd Suc) (auto simp: list_all_iff) }
qed

lemma keeps_run_block:
  assumes "\<And>b. keeps N R (RunCode vm n b)"
  shows "keeps N R (run_block vm n b)"
  unfolding run_block_def Run_def by (auto intro!: keeps_recover mach_prims assms)

end

text \<open>A relation for which what the host shares does not matter either: the commands that run no other code keep it.\<close>

locale vm_rel = mach_rel N R for N and R :: "'w RunTime \<Rightarrow> 'w RunTime \<Rightarrow> bool" +
  assumes R_extend: "R s (s\<lparr>rt_extend := e\<rparr>)"
    and R_world: "R s (s\<lparr>rt_world := w\<rparr>)"
begin

lemma keeps_host: "keeps N R (host_run f)"
proof -
  have "R s (s\<lparr>rt_extend := e, rt_heap := h, rt_world := w\<rparr>)" for s e h w
    by (rule R_trans [OF R_trans [OF R_extend R_heap] R_world])
  then show ?thesis by (auto simp: keeps_def host_run_def split: prod.split)
qed

lemma keeps_ext_put: "keeps N R (ext_put k v)"
  unfolding ext_put_def by (intro keeps_upd R_extend)

lemma keeps_setExtendVar: "keeps N R (setExtendVar vm k v)"
  unfolding setExtendVar_def by (intro keeps_rules keeps_ext_put keeps_recalc_ext)

lemmas keeps_prims = mach_prims keeps_host keeps_ext_put keeps_setExtendVar

lemma keeps_assign_loop: "keeps N R (assign_loop vm c i items)"
  by (induction items arbitrary: i) (auto intro!: keeps_prims keeps_assign_owned)

lemma keeps_set_array: "keeps N R (set_array vm info ik sz r n i)"
  unfolding set_array_def by (intro keeps_prims keeps_arr_store)

lemma keeps_set_slice: "keeps N R (set_slice vm info ik sz c ty)"
  unfolding set_slice_def set_row_def by (auto intro!: keeps_prims keeps_set_array)

lemma keeps_SetIndex: "keeps N R (exec_SetIndex vm info sz)"
  unfolding exec_SetIndex_def by (auto intro!: keeps_prims keeps_set_map keeps_set_slice)

lemma keeps_plain: "keeps N R (exec_plain vm cmd sz fr)"
  unfolding exec_plain_def Let_def getResultArray_def getResultMap_def
  by (intro keeps_prims keeps_done keeps_assign_loop keeps_error keeps_FuncName keeps_exec_var keeps_Index
      keeps_SetIndex keeps_exec_unwrap keeps_results)

lemma keeps_extendFunc: "keeps N R (extendFunc vm name)"
  unfolding extendFunc_def by (intro keeps_prims keeps_push_results)

lemma keeps_default_params: "keeps N R (default_params pars txs)"
  by (induction txs) (auto intro!: keeps_prims)

lemma keeps_signature: "keeps N R (check_signature vm name b)"
  unfolding check_signature_def by (intro keeps_prims)

lemma keeps_defer: "keeps N R m \<Longrightarrow> keeps N R (defer_delete k m)"
proof (rule keepsI)
  assume m: "keeps N R m"
  show N if "defer_delete k m s = None" for s
    using that keeps_None [OF m] by (auto simp: defer_delete_def split: option.splits)
  show "R s s'" if "defer_delete k m s = Some (r, s')" for s r s'
    using that keepsD [OF m] R_trans [OF _ R_extend] by (auto simp: defer_delete_def split: option.splits)
qed

end

text \<open>A relation for which costs do not matter either is kept by whole programs.\<close>

locale vm_cost_rel = vm_rel N R + mach_cost_rel N R for N and R :: "'w RunTime \<Rightarrow> 'w RunTime \<Rightarrow> bool"
begin

lemma keeps_nested: "keeps N R (nested_run m)"
proof -
  have "R s (s\<lparr>rt_cost := c, rt_extend := e, rt_heap := h, rt_world := w\<rparr>)" for s c e h w
    by (rule R_trans [OF R_trans [OF R_trans [OF R_cost R_extend] R_heap] R_world])
  then show ?thesis by (auto simp: keeps_def nested_run_def partial split: option.split)
qed

lemma keeps_call_host:
  "(\<And>f vs. keeps N R (af f vs)) \<Longrightarrow> keeps N R (call_host vm af f c sz)"
  unfolding call_host_def Let_def by (auto intro!: keeps_prims keeps_collect keeps_db_results)

lemma keeps_run_methods: "keeps N R (run_methods vm rc cb p ms)"
  by (induction ms) (auto intro!: keeps_prims keeps_nested split: option.split)

lemma keeps_ExecContract: "keeps N R (ExecContract vm rc name txs ps)"
  unfolding ExecContract_def exec_contract_body_def Let_def
  by (auto intro!: keeps_prims keeps_defer keeps_upd R_extend keeps_default_params keeps_signature keeps_run_methods
      keeps_pay)

lemma keeps_ExContract: "keeps N R (ExContract vm rc st name ps)"
  unfolding ExContract_def Let_def
  by (auto intro!: keeps_prims keeps_ExecContract split: sum.split go_exc.split)

lemma keeps_two: "keeps N R m \<Longrightarrow> keeps N R (two_results m)"
  unfolding two_results_def by (intro keeps_prims)

lemma keeps_apply: "keeps N R (apply_func vm rc f vs)"
  unfolding apply_func_def
  by (cases f; simp only: extfunc.case; intro keeps_prims keeps_two keeps_ExecContract keeps_ExContract)

lemma keeps_every_cmd: "(\<And>b. keeps N R (rc b)) \<Longrightarrow> keeps N R (exec_cmd vm rc cmd sz fr)"
  by (intro keeps_exec_cmd keeps_plain keeps_extendFunc keeps_call_host keeps_apply)

lemma keeps_every_program: "keeps N R (run_block vm n b)"
  by (intro keeps_run_block keeps_RunCode [where good = "\<lambda>_. True"] keeps_every_cmd) (simp add: list_all_iff)

end

end
