(* ===== verification/Script_Gas.thy ===== *)
theory Script_Gas
  imports Script_Logic
begin

text \<open>
  Gas. Every command of the virtual machine lowers \<open>rt.cost\<close> and stops the program when nothing is left.
  \<open>meter hi lo m lo' A\<close> bounds the costs of a computation and says that it returns; its rules follow
  the definitions of the machine down to \<open>RunCode\<close>. The commands that run no other code come from the
  interpretation of \<open>vm_rel\<close>: they end and cost nothing.
\<close>

section \<open>Commands that cost nothing\<close>

interpretation free_of_charge: vm_rel False "\<lambda>s s'. rt_cost s' = rt_cost s"
  by unfold_locales (simp_all add: set_mem_def)

section \<open>Bounds on costs\<close>

text \<open>
  From a cost between \<open>lo\<close> and \<open>hi\<close> the computation ends, with a cost between \<open>lo'\<close> and \<open>hi\<close>, and a value it
  returns satisfies \<open>A\<close>.
\<close>

definition meter :: "int \<Rightarrow> int \<Rightarrow> ('w, 'a) run \<Rightarrow> int \<Rightarrow> ('a \<Rightarrow> bool) \<Rightarrow> bool" where
  "meter hi lo m lo' A \<longleftrightarrow>
     (\<forall>s. lo \<le> rt_cost s \<and> rt_cost s \<le> hi \<longrightarrow>
       (\<exists>r s'. m s = Some (r, s') \<and> lo' \<le> rt_cost s' \<and> rt_cost s' \<le> hi \<and> (\<forall>x. r = Inr x \<longrightarrow> A x)))"

lemma meterD:
  "meter hi lo m lo' A \<Longrightarrow> lo \<le> rt_cost s \<Longrightarrow> rt_cost s \<le> hi \<Longrightarrow>
    \<exists>r s'. m s = Some (r, s') \<and> lo' \<le> rt_cost s' \<and> rt_cost s' \<le> hi \<and> (\<forall>x. r = Inr x \<longrightarrow> A x)"
  by (simp add: meter_def)

lemma meterI:
  "(\<And>s. lo \<le> rt_cost s \<Longrightarrow> rt_cost s \<le> hi \<Longrightarrow>
    \<exists>r s'. m s = Some (r, s') \<and> lo' \<le> rt_cost s' \<and> rt_cost s' \<le> hi \<and> (\<forall>x. r = Inr x \<longrightarrow> A x)) \<Longrightarrow> meter hi lo m lo' A"
  by (simp add: meter_def)

lemma meter_free:
  "keeps False (\<lambda>s s'. rt_cost s' = rt_cost s) m \<Longrightarrow> lo' \<le> lo \<Longrightarrow> meter hi lo m lo' (\<lambda>_. True)"
  by (rule meterI) (force dest: keeps_returns)

lemma meter_ret: "A x \<Longrightarrow> lo' \<le> lo \<Longrightarrow> meter hi lo (ret_run x) lo' A"
  by (auto simp: meter_def ret_run_def)

lemma meter_throw: "lo' \<le> lo \<Longrightarrow> meter hi lo (throw_run e) lo' A"
  by (auto simp: meter_def throw_run_def)

lemma meter_bind:
  assumes "meter hi lo m lo1 A" and "\<And>x. A x \<Longrightarrow> meter hi lo1 (f x) lo2 B" and "lo2 \<le> lo1"
  shows "meter hi lo (bind_run m f) lo2 B"
proof (rule meterI)
  fix s :: "'a RunTime" assume "lo \<le> rt_cost s" "rt_cost s \<le> hi"
  then obtain r t where t: "m s = Some (r, t)" "lo1 \<le> rt_cost t" "rt_cost t \<le> hi" "\<forall>x. r = Inr x \<longrightarrow> A x"
    using meterD [OF assms(1)] by blast
  show "\<exists>r s'. bind_run m f s = Some (r, s') \<and> lo2 \<le> rt_cost s' \<and> rt_cost s' \<le> hi \<and> (\<forall>x. r = Inr x \<longrightarrow> B x)"
  proof (cases r)
    case (Inr x)
    then show ?thesis using t meterD [OF assms(2), of x t] by (auto simp: bind_run_def)
  qed (use t assms(3) in \<open>simp add: bind_run_def\<close>)
qed

lemma meter_seq:
  "meter hi lo m lo1 A \<Longrightarrow> meter hi lo1 n lo2 B \<Longrightarrow> lo2 \<le> lo1 \<Longrightarrow> meter hi lo (seq_run m n) lo2 B"
  unfolding seq_run_def by (rule meter_bind)

text \<open>Computations that cost nothing, before or behind others.\<close>

lemma meter_free_bind:
  "keeps False (\<lambda>s s'. rt_cost s' = rt_cost s) m \<Longrightarrow> (\<And>x. meter hi lo (f x) lo2 B) \<Longrightarrow> lo2 \<le> lo \<Longrightarrow>
    meter hi lo (bind_run m f) lo2 B"
  by (rule meter_bind [OF meter_free [of _ lo lo]]) simp_all

lemma meter_free_seq:
  "keeps False (\<lambda>s s'. rt_cost s' = rt_cost s) m \<Longrightarrow> meter hi lo n lo2 B \<Longrightarrow> lo2 \<le> lo \<Longrightarrow>
    meter hi lo (seq_run m n) lo2 B"
  unfolding seq_run_def by (rule meter_free_bind)

lemma meter_weaken:
  "meter hi lo m lo' A \<Longrightarrow> lo2 \<le> lo' \<Longrightarrow> lo \<le> lo3 \<Longrightarrow> (\<And>x. A x \<Longrightarrow> B x) \<Longrightarrow> meter hi lo3 m lo2 B"
  by (rule meterI) (force dest: meterD)

lemma meter_if: "(b \<Longrightarrow> meter hi lo m lo' A) \<Longrightarrow> (\<not> b \<Longrightarrow> meter hi lo n lo' A) \<Longrightarrow> meter hi lo (if b then m else n) lo' A"
  by simp

lemma meter_split:
  assumes "hi' = min hi 0" "meter hi' lo m lo' A" "meter hi 1 m lo' A"
  shows "meter hi lo m lo' A"
proof (rule meterI)
  fix s :: "'a RunTime" assume s: "lo \<le> rt_cost s" "rt_cost s \<le> hi"
  show "\<exists>r s'. m s = Some (r, s') \<and> lo' \<le> rt_cost s' \<and> rt_cost s' \<le> hi \<and> (\<forall>x. r = Inr x \<longrightarrow> A x)"
  proof (cases "rt_cost s \<le> 0")
    case True
    then show ?thesis using s meterD [OF assms(2), of s] assms(1) by force
  next
    case False
    then show ?thesis using s meterD [OF assms(3), of s] by auto
  qed
qed

abbreviation cost_bound :: int where "cost_bound \<equiv> 2 ^ 62"

lemma wrap64_cost: "- cost_bound \<le> x \<Longrightarrow> x \<le> cost_bound \<Longrightarrow> wrap64 x = x"
  by (rule wrap64_small) simp_all

lemma meter_pay:
  "0 \<le> c \<Longrightarrow> - cost_bound \<le> lo - c \<Longrightarrow> hi \<le> cost_bound \<Longrightarrow> meter hi lo (pay c) (lo - c) (\<lambda>_. True)"
  by (auto simp: meter_def pay_def upd_run_def wrap64_cost)

lemma meter_create_vars:
  assumes "hi \<le> cost_bound"
  shows "- cost_bound \<le> lo - int (length ts) \<Longrightarrow>
    meter hi lo (create_vars vm np st k ts) (lo - int (length ts)) (\<lambda>_. True)"
proof (induction ts arbitrary: k lo)
  case Nil
  then show ?case by (simp add: meter_ret)
next
  case (Cons t ts)
  have "meter hi (lo - 1) (create_vars vm np st (Suc k) ts) (lo - 1 - int (length ts)) (\<lambda>_. True)"
    using Cons by simp
  then have "meter hi (lo - 1)
      (bind_run (if k < np then stack_at (st - int np + int k) else new_value t)
        (\<lambda>v. seq_run (addVar vm v) (create_vars vm np st (Suc k) ts))) (lo - 1 - int (length ts)) (\<lambda>_. True)"
    by (intro meter_free_bind meter_free_seq)
       (simp_all add: free_of_charge.keeps_if free_of_charge.keeps_stack_ops free_of_charge.keeps_new_value
          free_of_charge.keeps_addVar)
  moreover have "meter hi lo (pay 1) (lo - 1) (\<lambda>_. True)"
    using Cons.prems assms by (intro meter_pay) simp_all
  ultimately show ?case
    using meter_seq [of hi lo "pay 1" "lo - 1"] by (fastforce simp: algebra_simps)
qed

section \<open>Hypotheses on the machine\<close>

text \<open>Only host functions are registered as queries of the database.\<close>

definition ok_cmd :: "'w VM \<Rightarrow> ByteCode \<Rightarrow> bool" where
  "ok_cmd vm cmd \<longleftrightarrow>
     (case bc_Value cmd of
        OpObj ob \<Rightarrow>
          (case oi_Value ob of
             OVExt f \<Rightarrow> is_db_func vm (ef_Name f) \<longrightarrow> ef_Func f = FHost (ef_Name f)
           | _ \<Rightarrow> True)
      | _ \<Rightarrow> True)"

definition metered_vm :: "'w VM \<Rightarrow> nat \<Rightarrow> bool" where
  "metered_vm vm V \<longleftrightarrow>
     (\<forall>b blk. vm_blocks vm b = Some blk \<longrightarrow> length (b_Vars blk) \<le> V \<and> list_all (ok_cmd vm) (b_Code blk)) \<and>
     (\<forall>ec name. vm_ExtCost vm = Some ec \<longrightarrow> - 1 \<le> ec name) \<and>
     (\<forall>name args t c vs t'. is_db_func vm name \<and> vm_host vm name args t = (Inr (VInt64 c # vs), t') \<longrightarrow> 0 \<le> sint c)"

lemma meter_lift: "(\<And>x. r = Inr x \<Longrightarrow> A x) \<Longrightarrow> lo' \<le> lo \<Longrightarrow> meter hi lo (lift_run r) lo' A"
  by (auto simp: meter_def lift_run_def)

lemma meter_get:
  assumes "\<And>s. lo \<le> rt_cost s \<Longrightarrow> rt_cost s \<le> hi \<Longrightarrow> meter hi (rt_cost s) (f (g s)) lo' A"
  shows "meter hi lo (bind_run (get_run g) f) lo' A"
  by (rule meterI) (use assms meterD in \<open>fastforce simp: bind_run_def get_run_def\<close>)

lemma meter_set_cost: "0 \<le> hi \<Longrightarrow> lo' \<le> 0 \<Longrightarrow> meter hi lo (upd_run (\<lambda>s. s\<lparr>rt_cost := 0\<rparr>)) lo' (\<lambda>_. True)"
  by (auto simp: meter_def upd_run_def)

lemma meter_option:
  "(r = None \<Longrightarrow> meter hi lo m lo' A) \<Longrightarrow> (\<And>x. r = Some x \<Longrightarrow> meter hi lo (f x) lo' A) \<Longrightarrow>
    meter hi lo (case_option m f r) lo' A"
  by (cases r) simp_all

lemma meter_prod: "(\<And>x y. r = (x, y) \<Longrightarrow> meter hi lo (f x y) lo' A) \<Longrightarrow> meter hi lo (case_prod f r) lo' A"
  by (cases r) simp

lemma meter_nested: "meter hi lo m lo' A \<Longrightarrow> meter hi lo (nested_run m) lo' A"
proof (rule meterI)
  fix s :: "'a RunTime" assume m: "meter hi lo m lo' A" and s: "lo \<le> rt_cost s" "rt_cost s \<le> hi"
  show "\<exists>r s'. nested_run m s = Some (r, s') \<and> lo' \<le> rt_cost s' \<and> rt_cost s' \<le> hi \<and> (\<forall>x. r = Inr x \<longrightarrow> A x)"
    using s meterD [OF m, of "RunInit (rt_cost s) (rt_extend s) (rt_heap s) (rt_world s)"]
    by (fastforce simp: nested_run_def RunInit_def)
qed

lemma meter_depth: "meter hi lo m lo' A \<Longrightarrow> meter hi lo (with_depth m) lo' A"
proof (rule meterI)
  fix s :: "'a RunTime" assume m: "meter hi lo m lo' A" and s: "lo \<le> rt_cost s" "rt_cost s \<le> hi"
  show "\<exists>r s'. with_depth m s = Some (r, s') \<and> lo' \<le> rt_cost s' \<and> rt_cost s' \<le> hi \<and> (\<forall>x. r = Inr x \<longrightarrow> A x)"
    using s meterD [OF m, of "s\<lparr>rt_callDepth := Suc (rt_callDepth s)\<rparr>"] by (fastforce simp: with_depth_def)
qed

lemma meter_defer: "meter hi lo m lo' A \<Longrightarrow> meter hi lo (defer_delete k m) lo' A"
  by (rule meterI) (fastforce simp: defer_delete_def dest: meterD)

lemma meter_recover: "meter hi lo m lo' (\<lambda>_. True) \<Longrightarrow> meter hi lo (recover_run m) lo' (\<lambda>_. True)"
proof (rule meterI)
  fix s :: "'a RunTime" assume m: "meter hi lo m lo' (\<lambda>_. True)" and s: "lo \<le> rt_cost s" "rt_cost s \<le> hi"
  obtain r t where "m s = Some (r, t)" "lo' \<le> rt_cost t" "rt_cost t \<le> hi" using meterD [OF m s] by blast
  then show "\<exists>r s'. recover_run m s = Some (r, s') \<and> lo' \<le> rt_cost s' \<and> rt_cost s' \<le> hi \<and> (\<forall>x. r = Inr x \<longrightarrow> True)"
    by (auto simp: recover_run_def split: sum.split go_exc.split)
qed

lemmas free_prims = free_of_charge.keeps_prims

lemma meter_enter:
  assumes vm: "metered_vm vm V" and hi: "hi \<le> cost_bound" and lo: "- cost_bound \<le> lo - int V"
  shows "meter hi lo (enter_block vm b) (lo - int V) (\<lambda>fr. list_all (ok_cmd vm) (fr_code fr))"
  unfolding enter_block_def
proof (rule meter_bind [where A = "\<lambda>blk. length (b_Vars blk) \<le> V \<and> list_all (ok_cmd vm) (b_Code blk)" and ?lo1.0 = lo])
  show "meter hi lo (lift_run (get_block vm b)) lo (\<lambda>blk. length (b_Vars blk) \<le> V \<and> list_all (ok_cmd vm) (b_Code blk))"
    using vm by (intro meter_lift) (auto simp: get_block_def metered_vm_def split: option.splits)
next
  fix blk :: Block assume blk: "length (b_Vars blk) \<le> V \<and> list_all (ok_cmd vm) (b_Code blk)"
  have vars: "meter hi lo (create_vars vm np st 0 (b_Vars blk)) (lo - int V) (\<lambda>_. True)" for np st
    using blk lo meter_create_vars [OF hi, of lo "b_Vars blk" vm np st 0] by (auto intro: meter_weaken)
  show "meter hi lo
      (seq_run (upd_run (\<lambda>s. s\<lparr>rt_blocks := rt_blocks s @ [\<lparr>bs_Block = b, bs_Offset = length (rt_vars s)\<rparr>]\<rparr>))
       (bind_run (pop_names blk) (\<lambda>namemap. bind_run stack_size (\<lambda>start. bind_run (get_run (\<lambda>s. length (rt_vars s))) (\<lambda>varoff.
        bind_run (lift_run (block_params blk)) (\<lambda>ps. seq_run (create_vars vm (length ps) start 0 (b_Vars blk))
          (seq_run (for_run (\<lambda>(key, item). store_tail vm varoff (lookup_name (block_names blk) key) 0 item) (vm_range vm namemap))
            (ret_run \<lparr>fr_block = b, fr_code = b_Code blk, fr_start = start - int (length ps), fr_ci = 0,
                 fr_labels = [], fr_assign = []\<rparr>))))))))
      (lo - int V) (\<lambda>fr. list_all (ok_cmd vm) (fr_code fr))"
    by (intro meter_free_seq meter_free_bind meter_seq [OF vars] meter_ret free_prims free_of_charge.keeps_upd
          free_of_charge.keeps_pop_names free_of_charge.keeps_store_tail) (simp_all add: blk)
qed simp

section \<open>Without gas nothing runs\<close>

lemma dead_loop:
  assumes "hi \<le> 0" "- cost_bound \<le> lo - 1"
  shows "meter hi lo (code_loop vm (Suc n) fr) (lo - 1) (\<lambda>_. True)"
proof (cases "fr_ci fr \<ge> length (fr_code fr)")
  case True
  then show ?thesis
    by (simp add: loop_body_def meter_free free_of_charge.keeps_leave_block)
next
  case False
  then have "code_loop vm (Suc n) fr = loop_body vm (RunCode vm n) (code_loop vm n) fr"
    "\<not> length (fr_code fr) \<le> fr_ci fr" by simp_all
  then show ?thesis
    using assms unfolding loop_body_def Let_def
    by (simp only: if_False, intro meter_seq [OF meter_pay] meter_get) (auto simp: meter_ret)
qed

lemma dead_run:
  assumes vm: "metered_vm vm V" and "hi \<le> 0" "- cost_bound \<le> lo - int V - 1"
  shows "meter hi lo (RunCode vm (Suc (Suc n)) b) (lo - int V - 1) (\<lambda>_. True)"
proof -
  have "meter hi (lo - int V) (code_loop vm (Suc n) fr) (lo - int V - 1) (\<lambda>_. True)" for fr
    using assms by (intro dead_loop) simp_all
  then show ?thesis
    using assms meter_enter [OF vm, of hi lo b] unfolding RunCode.simps(2)
    by (intro meter_bind [where ?lo1.0 = "lo - int V"]) auto
qed

section \<open>Calls\<close>

text \<open>What the recursive call promises, with \<open>F\<close> the depth to which costs may fall below zero.\<close>

definition rc_meter :: "int \<Rightarrow> int \<Rightarrow> nat \<Rightarrow> (blockid \<Rightarrow> ('w, status \<times> string option) run) \<Rightarrow> bool" where
  "rc_meter hi F V rc \<longleftrightarrow>
     0 \<le> hi \<and> hi \<le> cost_bound \<and> 0 \<le> F \<and> F + 4 * int V + 1000 \<le> 2 ^ 61 \<and>
     (\<forall>b lo. - (2 ^ 61) \<le> lo \<longrightarrow> meter hi lo (rc b) (min (- F) (lo - int V - 1)) (\<lambda>_. True))"

lemma rc_meterD:
  "rc_meter hi F V rc \<Longrightarrow> - (2 ^ 61) \<le> lo \<Longrightarrow> lo' \<le> min (- F) (lo - int V - 1) \<Longrightarrow> meter hi lo (rc b) lo' (\<lambda>_. True)"
  unfolding rc_meter_def by (blast intro: meter_weaken)

lemma meter_Run:
  assumes "meter hi lo (rc b) lo' (\<lambda>_. True)" "lo' \<le> lo"
  shows "meter hi lo (Run vm rc b) lo' (\<lambda>_. True)"
  unfolding Run_def
  by (intro meter_recover meter_free_bind meter_bind [OF assms(1)] meter_prod meter_if meter_ret free_prims)
     (use assms(2) in simp_all)

lemma meter_run_methods:
  assumes rc: "rc_meter hi F V rc"
  shows "- (2 ^ 61) \<le> min (- F) lo - int (length ms) * (int V + 1) \<Longrightarrow>
    meter hi lo (run_methods vm rc cb p ms) (min (- F) lo - int (length ms) * (int V + 1)) (\<lambda>_. True)"
proof (induction ms arbitrary: lo)
  case Nil
  then show ?case by (simp add: meter_ret)
next
  case (Cons m ms)
  let ?lo = "min (- F) lo - (int V + 1)"
  let ?fin = "min (- F) lo - int (length (m # ms)) * (int V + 1)"
  have F: "0 \<le> F" using rc by (simp add: rc_meter_def)
  have pos: "0 \<le> int (length ms) * (int V + 1)" by simp
  have last_eq: "min (- F) ?lo - int (length ms) * (int V + 1) = ?fin" by (auto simp: algebra_simps)
  have split: "int (length (m # ms)) * (int V + 1) = int (length ms) * (int V + 1) + (int V + 1)"
    by (simp add: algebra_simps)
  have bound: "- (2 ^ 61) \<le> ?lo" "- (2 ^ 61) \<le> lo" "?fin \<le> ?lo" "?fin \<le> lo"
    using Cons.prems pos unfolding split by linarith+
  have rest: "meter hi ?lo (run_methods vm rc cb p ms) ?fin (\<lambda>_. True)"
    using Cons.IH [of ?lo] Cons.prems unfolding last_eq by blast
  have run: "meter hi lo (nested_run (Run vm rc b)) ?lo (\<lambda>_. True)" for b
    by (intro meter_nested meter_Run rc_meterD [OF rc]) (use bound in auto)
  have skip: "meter hi lo (run_methods vm rc cb p ms) ?fin (\<lambda>_. True)"
    using rest bound by (auto intro: meter_weaken)
  show ?case
    unfolding run_methods.simps
    by (intro meter_option meter_if meter_free_seq meter_free_bind meter_bind [OF run] meter_prod meter_ret free_prims skip rest)
       (use bound in auto)
qed

lemma meter_ExecContract:
  assumes rc: "rc_meter hi F V rc" and lo: "- (2 ^ 60) \<le> lo"
    and lo': "lo' \<le> min (- F) (lo - 100) - 2 * (int V + 1)" and range: "F + 4 * int V + 1000 \<le> 2 ^ 60"
  shows "meter hi lo (ExecContract vm rc name txs ps) lo' (\<lambda>_. True)"
proof -
  have hi: "hi \<le> cost_bound" and F: "0 \<le> F" using rc by (simp_all add: rc_meter_def)
  let ?fin = "min (- F) (lo - 100) - 2 * (int V + 1)"
  have methods: "meter hi (lo - 100) (run_methods vm rc cb p [''conditions'', ''action'']) ?fin (\<lambda>_. True)" for cb p
    using meter_run_methods [OF rc, of "lo - 100" "[''conditions'', ''action'']" vm cb p] lo range F
    by (simp add: algebra_simps)
  have pay: "meter hi lo (pay CostContract) (lo - 100) (\<lambda>_. True)"
    using meter_pay [of 100 lo hi] lo hi by (simp add: CostContract_def)
  have "meter hi lo (ExecContract vm rc name txs ps) ?fin (\<lambda>_. True)"
    unfolding ExecContract_def exec_contract_body_def Let_def
    by (intro meter_free_bind meter_free_seq meter_option meter_if meter_ret meter_defer meter_seq [OF pay]
          meter_bind [OF methods] free_prims free_of_charge.keeps_upd free_of_charge.keeps_default_params
          free_of_charge.keeps_signature)
       auto
  then show ?thesis using lo' by (rule meter_weaken) simp_all
qed

lemma meter_list: "meter hi lo m lo' A \<Longrightarrow> (\<And>x xs. meter hi lo (f x xs) lo' A) \<Longrightarrow> meter hi lo (case_list m f r) lo' A"
  by (simp split: list.split)

lemma meter_val:
  assumes "meter hi lo a1 lo' A" "\<And>x. meter hi lo (a2 x) lo' A" "\<And>x. meter hi lo (a3 x) lo' A"
    "\<And>x. meter hi lo (a4 x) lo' A" "\<And>x. meter hi lo (a5 x) lo' A" "\<And>x. meter hi lo (a6 x) lo' A"
    "\<And>x. meter hi lo (a7 x) lo' A" "\<And>x. meter hi lo (a8 x) lo' A" "\<And>x. meter hi lo (a9 x) lo' A"
    "\<And>x y. meter hi lo (a10 x y) lo' A" "\<And>x. meter hi lo (a11 x) lo' A" "\<And>x. meter hi lo (a12 x) lo' A"
    "\<And>x. meter hi lo (a13 x) lo' A" "\<And>x y. meter hi lo (a14 x y) lo' A" "\<And>x. meter hi lo (a15 x) lo' A"
    "\<And>x y. meter hi lo (a16 x y) lo' A" "\<And>x y. meter hi lo (a17 x y) lo' A"
  shows "meter hi lo (case_val a1 a2 a3 a4 a5 a6 a7 a8 a9 a10 a11 a12 a13 a14 a15 a16 a17 v) lo' A"
  using assms by (cases v) auto

definition db_ok :: "'w VM \<Rightarrow> ExtFuncInfo \<Rightarrow> val list \<Rightarrow> bool" where
  "db_ok vm f vs \<longleftrightarrow> is_db_func vm (ef_Name f) \<longrightarrow> (\<forall>c rest. vs = VInt64 c # rest \<longrightarrow> 0 \<le> sint c)"

lemma meter_two: "meter hi lo m lo' (\<lambda>_. True) \<Longrightarrow> meter hi lo (two_results m) lo' (\<lambda>_. True)"
  unfolding two_results_def by (erule meter_bind) (auto intro: meter_ret)

lemma meter_ExContract:
  assumes "\<And>name txs ps. meter hi lo (ExecContract vm rc name txs ps) lo' (\<lambda>_. True)" "lo' \<le> lo"
  shows "meter hi lo (ExContract vm rc st name r) lo' (\<lambda>_. True)"
  unfolding ExContract_def Let_def
  by (intro meter_free_bind meter_option free_prims)
     (use assms in \<open>auto intro: meter_ret meter_throw split: sum.split go_exc.split\<close>)

lemma meter_apply:
  assumes vm: "metered_vm vm V" and rc: "rc_meter hi F V rc" and lo: "- (2 ^ 60) \<le> lo"
    and lo': "lo' \<le> min (- F) (lo - 100) - 2 * (int V + 1)" and range: "F + 4 * int V + 1000 \<le> 2 ^ 60"
    and f: "is_db_func vm (ef_Name f) \<longrightarrow> ef_Func f = FHost (ef_Name f)"
  shows "meter hi lo (apply_func vm rc (ef_Func f) pars) lo' (db_ok vm f)"
proof (cases "\<exists>name. ef_Func f = FHost name")
  case True
  then obtain name where name: "ef_Func f = FHost name" by blast
  have "lo' \<le> lo" using lo' by simp
  have "db_ok vm f vs" if "vm_host vm name pars t = (Inr vs, t')" for t t' vs
  proof -
    have "0 \<le> sint c" if "is_db_func vm (ef_Name f)" "vs = VInt64 c # rest" for c rest
      using that \<open>vm_host vm name pars t = (Inr vs, t')\<close> vm f name unfolding metered_vm_def by auto blast
    then show ?thesis by (auto simp: db_ok_def)
  qed
  then show ?thesis
    using \<open>lo' \<le> lo\<close> by (auto simp: name apply_func_def meter_def host_run_def split: prod.split)
next
  case False
  then have nodb: "db_ok vm f vs" for vs using f by (auto simp: db_ok_def)
  have exec: "meter hi lo (ExecContract vm rc name txs ps) lo' (\<lambda>_. True)" for name txs ps
    by (rule meter_ExecContract [OF rc lo lo' range])
  have "lo' \<le> lo" using lo' by simp
  note rules = meter_list meter_val meter_throw meter_if meter_two
  have "meter hi lo (apply_func vm rc FExecContract pars) lo' (\<lambda>_. True)"
    unfolding apply_func_def extfunc.case by (intro rules exec \<open>lo' \<le> lo\<close>)
  moreover have "meter hi lo (apply_func vm rc FCallContract pars) lo' (\<lambda>_. True)"
    unfolding apply_func_def extfunc.case by (intro rules meter_ExContract exec \<open>lo' \<le> lo\<close>)
  moreover have "meter hi lo (apply_func vm rc FSettings pars) lo' (\<lambda>_. True)"
    unfolding apply_func_def extfunc.case by (intro rules meter_lift \<open>lo' \<le> lo\<close> TrueI)
  moreover have "meter hi lo (apply_func vm rc FMemoryUsage pars) lo' (\<lambda>_. True)"
    unfolding apply_func_def extfunc.case by (intro meter_free free_prims \<open>lo' \<le> lo\<close>)
  ultimately have "meter hi lo (apply_func vm rc (ef_Func f) pars) lo' (\<lambda>_. True)"
    using False by (cases "ef_Func f") auto
  then show ?thesis by (rule meter_weaken) (simp_all add: nodb)
qed

lemma meter_db_results:
  assumes "db_ok vm f vs" "0 \<le> hi" "hi \<le> cost_bound" "lo' \<le> lo" "lo' \<le> 0"
  shows "meter hi lo (push_db_results vm f vs) lo' (\<lambda>_. True)"
proof (cases "\<exists>c rest. vs = VInt64 c # rest \<and> is_db_func vm (ef_Name f)")
  case True
  then obtain c rest where vs: "vs = VInt64 c # rest" and db: "is_db_func vm (ef_Name f)" by blast
  then have c: "0 \<le> sint c" using assms(1) by (simp add: db_ok_def)
  have "meter hi lo (bind_run (get_run rt_cost) (\<lambda>left.
      if sint c > left then seq_run (upd_run (\<lambda>s. s\<lparr>rt_cost := 0\<rparr>)) (ret_run (Some errCpuOver))
      else seq_run (pay (sint c)) (push_results (tl (ef_Results f)) rest))) lo' (\<lambda>_. True)"
  proof (rule meter_get)
    fix s assume s: "lo \<le> rt_cost s" "rt_cost s \<le> hi"
    show "meter hi (rt_cost s) (if sint c > rt_cost s then seq_run (upd_run (\<lambda>s. s\<lparr>rt_cost := 0\<rparr>)) (ret_run (Some errCpuOver))
      else seq_run (pay (sint c)) (push_results (tl (ef_Results f)) rest)) lo' (\<lambda>_. True)"
    proof (rule meter_if)
      show "meter hi (rt_cost s) (seq_run (upd_run (\<lambda>s. s\<lparr>rt_cost := 0\<rparr>)) (ret_run (Some errCpuOver))) lo' (\<lambda>_. True)"
        using assms by (intro meter_seq [OF meter_set_cost [where lo' = 0]] meter_ret) simp_all
      assume le: "\<not> sint c > rt_cost s"
      then show "meter hi (rt_cost s) (seq_run (pay (sint c)) (push_results (tl (ef_Results f)) rest)) lo' (\<lambda>_. True)"
        using assms c by (intro meter_seq [OF meter_pay [of "sint c"]] meter_free free_of_charge.keeps_push_results) simp_all
    qed
  qed
  then show ?thesis by (simp add: push_db_results_def vs db)
next
  case False
  then show ?thesis
    using assms(4) unfolding push_db_results_def
    by (auto intro!: meter_free free_prims free_of_charge.keeps_push_results meter_throw split: list.split val.split)
qed

lemma meter_call_host:
  assumes vm: "metered_vm vm V" and rc: "rc_meter hi F V rc" and lo: "- (2 ^ 60) \<le> lo"
    and lo': "lo' \<le> min (- F) (lo - 100) - 2 * (int V + 1)" and range: "F + 4 * int V + 1000 \<le> 2 ^ 60"
    and f: "is_db_func vm (ef_Name f) \<longrightarrow> ef_Func f = FHost (ef_Name f)"
  shows "meter hi lo (call_host vm (apply_func vm rc) f c sz) lo' (\<lambda>_. True)"
proof -
  have hi: "hi \<le> cost_bound" "0 \<le> hi" and F: "0 \<le> F" using rc by (simp_all add: rc_meter_def)
  then have "lo' \<le> lo" "lo' \<le> 0" using lo' by simp_all
  show ?thesis
    unfolding call_host_def Let_def
    by (intro meter_free_bind meter_free_seq meter_if meter_prod meter_ret meter_throw meter_bind [OF meter_apply [OF vm rc lo lo' range f]]
          free_prims free_of_charge.keeps_collect meter_db_results)
       (use hi \<open>lo' \<le> lo\<close> \<open>lo' \<le> 0\<close> in auto)
qed

lemma meter_call_block:
  assumes rc: "rc_meter hi F V rc" and lo: "- (2 ^ 60) \<le> lo" and lo': "lo' \<le> min (- F) (lo - int V - 1)"
  shows "meter hi lo (call_block vm rc vari ob c sz i) lo' (\<lambda>_. True)"
proof -
  have "lo' \<le> lo" using lo' by simp
  have run: "meter hi lo (rc b) lo' (\<lambda>_. True)" for b
    using lo by (intro rc_meterD [OF rc _ lo']) simp
  show ?thesis
    unfolding call_block_def
    by (intro meter_free_bind meter_free_seq meter_if meter_ret meter_bind [OF run] meter_prod free_prims
          free_of_charge.keeps_pack free_of_charge.keeps_check_params)
       (use \<open>lo' \<le> lo\<close> in auto)
qed

lemma meter_operand:
  assumes "meter hi lo a1 lo' A" "\<And>x. v = OpVal x \<Longrightarrow> meter hi lo (a2 x) lo' A" "\<And>x. v = OpPrior x \<Longrightarrow> meter hi lo (a3 x) lo' A"
    "\<And>x. v = OpBlock x \<Longrightarrow> meter hi lo (a4 x) lo' A" "\<And>x. v = OpVars x \<Longrightarrow> meter hi lo (a5 x) lo' A"
    "\<And>x. v = OpVar x \<Longrightarrow> meter hi lo (a6 x) lo' A" "\<And>x. v = OpKey x \<Longrightarrow> meter hi lo (a7 x) lo' A"
    "\<And>x y. v = OpFuncName x y \<Longrightarrow> meter hi lo (a8 x y) lo' A" "\<And>x. v = OpObj x \<Longrightarrow> meter hi lo (a9 x) lo' A"
    "\<And>x. v = OpIndex x \<Longrightarrow> meter hi lo (a10 x) lo' A" "\<And>x. v = OpArray x \<Longrightarrow> meter hi lo (a11 x) lo' A"
    "\<And>x. v = OpMap x \<Longrightarrow> meter hi lo (a12 x) lo' A"
  shows "meter hi lo (case_operand a1 a2 a3 a4 a5 a6 a7 a8 a9 a10 a11 a12 v) lo' A"
  using assms by (cases v) auto

lemma meter_after:
  assumes "\<And>st err v. a = Tail st err v \<Longrightarrow> meter hi lo (f st err v) lo' A" "\<And>ci. a = Jump ci \<Longrightarrow> meter hi lo (g ci) lo' A"
    "\<And>e. a = Leave e \<Longrightarrow> meter hi lo (h e) lo' A"
  shows "meter hi lo (case_after f g h a) lo' A"
  using assms by (cases a) auto

lemma meter_callFunc:
  assumes vm: "metered_vm vm V" and rc: "rc_meter hi F V rc" and lo: "- (2 ^ 60) \<le> lo"
    and lo': "lo' \<le> min (- F) (lo - 100) - 2 * (int V + 1)" and range: "F + 4 * int V + 1000 \<le> 2 ^ 60"
    and ob: "\<And>f. oi_Value ob = OVExt f \<Longrightarrow> is_db_func vm (ef_Name f) \<longrightarrow> ef_Func f = FHost (ef_Name f)"
  shows "meter hi lo (callFunc vm rc (apply_func vm rc) vari ob) lo' (\<lambda>_. True)"
proof -
  have "0 \<le> int V" by simp
  note lo'' = this lo'
  have le: "lo' \<le> lo" using lo'' by (auto simp: min_def split: if_splits)
  have le': "lo' \<le> min (- F) (lo - int V - 1)" using lo'' by (auto simp: min_def split: if_splits)
  have host: "meter hi lo (bind_run (lift_run (obj_ext ob)) (\<lambda>f. call_host vm (apply_func vm rc) f c sz)) lo' (\<lambda>_. True)" for c sz
  proof (rule meter_bind [where ?lo1.0 = lo and A = "\<lambda>f. oi_Value ob = OVExt f"])
    show "meter hi lo (lift_run (obj_ext ob)) lo (\<lambda>f. oi_Value ob = OVExt f)"
      by (intro meter_lift) (auto simp: obj_ext_def split: objval.splits)
  qed (use le meter_call_host [OF vm rc lo lo' range ob] in auto)
  show ?thesis
    unfolding callFunc_def Let_def
    by (intro meter_free_bind meter_free_seq meter_if meter_ret meter_depth free_prims free_of_charge.keeps_unwrap_args
          meter_call_block [OF rc lo le'] host)
       (use le in auto)
qed

lemma meter_pay_call:
  assumes vm: "metered_vm vm V" and "1 \<le> hi" "hi \<le> cost_bound"
  shows "meter hi 1 (pay_call vm ob) (- 49) (\<lambda>_. True)"
proof -
  have call: "meter hi lo (pay CostCall) (- 49) (\<lambda>_. True)" if "1 \<le> lo" "lo \<le> hi" for lo
  proof -
    have "meter hi lo (pay 50) (lo - 50) (\<lambda>_. True)" using that assms by (intro meter_pay) auto
    then show ?thesis unfolding CostCall_def by (rule meter_weaken) (use that in auto)
  qed
  have ext: "meter hi 1 (bind_run (get_run rt_cost) (\<lambda>left.
        if ec name > left then seq_run (upd_run (\<lambda>s. s\<lparr>rt_cost := 0\<rparr>)) (ret_run False)
        else if ec name = - 1 then seq_run (pay CostCall) (ret_run True)
        else seq_run (pay (ec name)) (ret_run True))) (- 49) (\<lambda>_. True)"
    if "vm_ExtCost vm = Some ec" for ec name
  proof (rule meter_get)
    fix s assume s: "1 \<le> rt_cost s" "rt_cost s \<le> hi"
    have "- 1 \<le> ec name" using that vm by (auto simp: metered_vm_def)
    then show "meter hi (rt_cost s) (if ec name > rt_cost s then seq_run (upd_run (\<lambda>s. s\<lparr>rt_cost := 0\<rparr>)) (ret_run False)
        else if ec name = - 1 then seq_run (pay CostCall) (ret_run True)
        else seq_run (pay (ec name)) (ret_run True)) (- 49) (\<lambda>_. True)"
      using s assms
      by (intro meter_if meter_seq [OF meter_set_cost] meter_seq [OF call] meter_seq [OF meter_pay] meter_ret) auto
  qed
  show ?thesis
    unfolding pay_call_def
    by (intro meter_if meter_free_bind meter_option meter_ret meter_seq [OF call] free_prims ext) (use assms in auto)
qed

lemma meter_exec_call:
  assumes vm: "metered_vm vm V" and rc: "rc_meter hi F V rc" and hi: "1 \<le> hi" and range: "F + 4 * int V + 1000 \<le> 2 ^ 60"
    and lo': "lo' \<le> - F - 2 * int V - 300"
    and ob: "\<And>f. oi_Value ob = OVExt f \<Longrightarrow> is_db_func vm (ef_Name f) \<longrightarrow> ef_Func f = FHost (ef_Name f)"
  shows "meter hi 1 (exec_call vm rc vari ob) lo' (\<lambda>_. True)"
proof -
  have hi': "hi \<le> cost_bound" and F: "0 \<le> F" using rc by (simp_all add: rc_meter_def)
  have call: "meter hi (- 49) (callFunc vm rc (apply_func vm rc) vari ob) lo' (\<lambda>_. True)"
    using lo' range F by (intro meter_callFunc [OF vm rc _ _ range ob]) auto
  show ?thesis
    unfolding exec_call_def
    by (intro meter_bind [OF meter_pay_call [OF vm hi hi']] meter_bind [OF call] meter_if meter_ret) (use lo' F in auto)
qed

lemma meter_exec_extend:
  assumes "hi \<le> cost_bound" "lo' \<le> - 9"
  shows "meter hi 1 (exec_extend vm call name) lo' (\<lambda>_. True)"
proof -
  have pay: "meter hi 1 (pay CostExtend) (- 9) (\<lambda>_. True)"
    using meter_pay [of 10 1 hi] assms by (simp add: CostExtend_def)
  show ?thesis
    unfolding exec_extend_def
    by (intro meter_free_bind meter_option meter_seq [OF pay] meter_free free_prims free_of_charge.keeps_done
          free_of_charge.keeps_extendFunc) (use assms in auto)
qed

lemma meter_exec_cmd:
  assumes vm: "metered_vm vm V" and rc: "rc_meter hi F V rc" and hi: "1 \<le> hi" and range: "F + 4 * int V + 1000 \<le> 2 ^ 60"
    and lo': "lo' \<le> - F - 2 * int V - 300" and cmd: "ok_cmd vm cmd"
  shows "meter hi 1 (exec_cmd vm rc cmd sz fr) lo' (\<lambda>(fr', a). fr_code fr' = fr_code fr)"
proof -
  have hi': "hi \<le> cost_bound" and F: "0 \<le> F" using rc by (simp_all add: rc_meter_def)
  have le: "lo' \<le> 1" "lo' \<le> - 9" using lo' F by simp_all
  have run: "meter hi 1 (rc b) lo' (\<lambda>_. True)" for b
    using lo' F by (intro rc_meterD [OF rc]) auto
  have ob: "is_db_func vm (ef_Name f) \<longrightarrow> ef_Func f = FHost (ef_Name f)"
    if "bc_Value cmd = OpObj ob" "oi_Value ob = OVExt f" for ob f
    using cmd that by (simp add: ok_cmd_def)
  have keep: "meter hi 1 (bind_run m (\<lambda>a. ret_run (g a, a))) lo' (\<lambda>(fr', a). fr_code fr' = fr_code fr)"
    if "meter hi 1 m lo' (\<lambda>_. True)" "\<And>a. fr_code (g a) = fr_code fr" for m g
    by (rule meter_bind [OF that(1)]) (auto intro: meter_ret simp: that(2))
  have branch: "meter hi 1 (exec_branch vm rc w x) lo' (\<lambda>_. True)" for w x
    unfolding exec_branch_def
    by (intro meter_free_bind meter_if meter_operand meter_bind [OF run] meter_prod meter_ret meter_throw meter_free
          free_prims free_of_charge.keeps_done) (use le in auto)
  have while: "meter hi 1 (exec_while vm rc x fr) lo' (\<lambda>(fr', a). fr_code fr' = fr_code fr)" for x
    unfolding exec_while_def Let_def
    by (intro meter_free_bind meter_free_seq meter_if meter_operand meter_bind [OF run] meter_prod meter_ret meter_throw
          free_prims) (use le in auto)
  show ?thesis
    unfolding exec_cmd_def Let_def
    by (intro meter_if keep branch while meter_operand meter_throw meter_free_bind
          meter_exec_call [OF vm rc hi range lo' ob] meter_exec_extend meter_free free_prims free_of_charge.keeps_plain)
       (use le hi' in auto)
qed


lemma meter_pay_one:
  assumes "meter (hi - 1) (lo - 1) m lo' A" "- cost_bound \<le> lo - 1" "hi \<le> cost_bound"
  shows "meter hi lo (seq_run (pay 1) m) lo' A"
proof (rule meterI)
  fix s :: "'a RunTime" assume s: "lo \<le> rt_cost s" "rt_cost s \<le> hi"
  let ?t = "s\<lparr>rt_cost := rt_cost s - 1\<rparr>"
  have "seq_run (pay 1) m s = m ?t"
    using s assms by (simp add: seq_run_def bind_run_def pay_def upd_run_def wrap64_cost)
  then show "\<exists>r s'. seq_run (pay 1) m s = Some (r, s') \<and> lo' \<le> rt_cost s' \<and> rt_cost s' \<le> hi \<and> (\<forall>x. r = Inr x \<longrightarrow> A x)"
    using meterD [OF assms(1), of ?t] s by force
qed

section \<open>The loop\<close>

lemma meter_loop:
  assumes vm: "metered_vm vm V" and rc: "rc_meter (hi - 1) F V rc" and hi: "1 \<le> hi" "hi \<le> cost_bound"
    and range: "F + 4 * int V + 1000 \<le> 2 ^ 60" and code: "list_all (ok_cmd vm) (fr_code fr)"
    and lp: "\<And>fr. list_all (ok_cmd vm) (fr_code fr) \<Longrightarrow> meter (hi - 1) (- F - 2 * int V - 300) (lp fr) lo' (\<lambda>_. True)"
    and lo': "lo' \<le> - F - 2 * int V - 300"
  shows "meter hi 1 (loop_body vm rc lp fr) lo' (\<lambda>_. True)"
proof (cases "fr_ci fr \<ge> length (fr_code fr)")
  case True
  have "0 \<le> F" using rc by (simp add: rc_meter_def)
  then show ?thesis
    using True lo' by (simp add: loop_body_def meter_free free_of_charge.keeps_leave_block)
next
  case False
  let ?lo = "- F - 2 * int V - 300"
  have F: "0 \<le> F" using rc by (simp add: rc_meter_def)
  define cmd where "cmd = fr_code fr ! fr_ci fr"
  have ok: "ok_cmd vm cmd" using code False by (auto simp: cmd_def list_all_length)
  have exec: "meter (hi - 1) 1 (exec_cmd vm rc cmd sz fr) ?lo (\<lambda>(fr', a). fr_code fr' = fr_code fr)"
    if "2 \<le> hi" for sz
    using that by (intro meter_exec_cmd [OF vm rc _ range _ ok]) simp_all
  let ?rest = "\<lambda>sz. bind_run (exec_cmd vm rc cmd sz fr) (\<lambda>(fr, a).
         case a of
           Leave e \<Rightarrow> ret_run (statusNormal, Some e)
         | Jump ci \<Rightarrow> lp (fr\<lparr>fr_ci := ci\<rparr>)
         | Tail st err bin \<Rightarrow>
             if err \<noteq> None then
               seq_run (upd_run (\<lambda>s. s\<lparr>rt_err := err\<rparr>)) (leave_block vm (fr_start fr) st err)
             else if st \<noteq> statusNormal then leave_block vm (fr_start fr) st None
             else
               seq_run (if arity (bc_Cmd cmd) = 2 then seq_run (stack_put (sz - 2) bin) (stack_cut (sz - 1)) else ret_run ())
                 (lp (fr\<lparr>fr_ci := Suc (fr_ci fr)\<rparr>)))"
  have tail: "meter (hi - 1) 1 (?rest sz) lo' (\<lambda>_. True)" if "2 \<le> hi" for sz
    by (intro meter_bind [OF exec [OF that]] meter_prod meter_after meter_ret meter_if meter_free_seq lp meter_free
          free_prims free_of_charge.keeps_upd free_of_charge.keeps_leave_block) (use code lo' in auto)
  have eq: "loop_body vm rc lp fr = seq_run (pay 1)
    (bind_run (get_run (\<lambda>s. (rt_cost s, rt_mem s, int (length (rt_stack s))))) (\<lambda>(cost, mem, sz).
          if cost \<le> 0 then ret_run (statusNormal, Some errCpuOver)
          else if mem > memoryLimit then ret_run (statusNormal, Some ErrMemoryLimit)
          else if sz < arity (bc_Cmd cmd) then ret_run (statusNormal, Some errStackEmpty)
          else if \<not> fits_top (bc_Cmd cmd) then throw_run out_of_range
          else ?rest sz))"
    using False by (simp only: loop_body_def Let_def cmd_def if_False)
  show ?thesis unfolding eq
  proof (intro meter_pay_one meter_get)
    fix s :: "'a RunTime" assume s: "1 - 1 \<le> rt_cost s" "rt_cost s \<le> hi - 1"
    show "meter (hi - 1) (rt_cost s) (case (rt_cost s, rt_mem s, int (length (rt_stack s))) of (cost, mem, sz) \<Rightarrow>
        if cost \<le> 0 then ret_run (statusNormal, Some errCpuOver)
        else if mem > memoryLimit then ret_run (statusNormal, Some ErrMemoryLimit)
        else if sz < arity (bc_Cmd cmd) then ret_run (statusNormal, Some errStackEmpty)
        else if \<not> fits_top (bc_Cmd cmd) then throw_run out_of_range
        else ?rest sz) lo' (\<lambda>_. True)"
      unfolding prod.case
      by (intro meter_if meter_ret meter_throw meter_weaken [OF tail]) (use s lo' F in auto)
  qed (use hi in auto)
qed

lemma meter_vacuous: "hi < lo \<Longrightarrow> meter hi lo m lo' A"
  by (auto simp: meter_def)

text \<open>The most that one level of nesting can lower a cost that is no longer positive.\<close>

definition level_cost :: "nat \<Rightarrow> int" where
  "level_cost V = 4 * int V + 1000"

lemma level_cost_Suc: "int (Suc n) * level_cost V = int n * level_cost V + 4 * int V + 1000"
  by (simp add: level_cost_def algebra_simps)

lemma level_cost_pos: "0 \<le> int n * level_cost V"
  by (simp add: level_cost_def)

lemma fuel_bound: "2 * hi + 1 \<le> int n \<Longrightarrow> int n * level_cost V \<le> 2 ^ 60 \<Longrightarrow> hi \<le> cost_bound"
proof -
  assume "2 * hi + 1 \<le> int n" "int n * level_cost V \<le> 2 ^ 60"
  moreover have "int n * 1 \<le> int n * level_cost V"
    by (intro mult_left_mono) (simp_all add: level_cost_def)
  moreover have "(2 :: int) ^ 60 \<le> cost_bound" by simp
  ultimately show ?thesis by linarith
qed

lemma any_loop:
  assumes "1 \<le> hi \<Longrightarrow> meter hi 1 (code_loop vm n fr) lo' (\<lambda>_. True)" "1 \<le> n" "lo' \<le> lo - 1" "- cost_bound \<le> lo - 1"
  shows "meter hi lo (code_loop vm n fr) lo' (\<lambda>_. True)"
proof (rule meter_split [OF refl])
  obtain m where m: "n = Suc m" using assms(2) by (cases n) auto
  show "meter (min hi 0) lo (code_loop vm n fr) lo' (\<lambda>_. True)"
    unfolding m by (rule meter_weaken [OF dead_loop [of "min hi 0" lo]]) (use assms in simp_all)
  show "meter hi 1 (code_loop vm n fr) lo' (\<lambda>_. True)"
    using assms(1) by (cases "1 \<le> hi") (simp_all add: meter_vacuous)
qed

lemma any_run:
  assumes "metered_vm vm V" "1 \<le> hi \<Longrightarrow> meter hi 1 (RunCode vm n b) lo' (\<lambda>_. True)" "2 \<le> n" "lo' \<le> lo - int V - 1"
    "- cost_bound \<le> lo - int V - 1"
  shows "meter hi lo (RunCode vm n b) lo' (\<lambda>_. True)"
proof (rule meter_split [OF refl])
  obtain m where m: "n = Suc (Suc m)" using assms(3) by (metis One_nat_def Suc_1 Suc_le_D Suc_le_mono)
  show "meter (min hi 0) lo (RunCode vm n b) lo' (\<lambda>_. True)"
    unfolding m by (rule meter_weaken [OF dead_run [OF assms(1), of "min hi 0" lo]]) (use assms in simp_all)
  show "meter hi 1 (RunCode vm n b) lo' (\<lambda>_. True)"
    using assms(2) by (cases "1 \<le> hi") (simp_all add: meter_vacuous)
qed

lemma run_step:
  assumes vm: "metered_vm vm V" and hi: "2 * hi + 2 \<le> int (Suc n)" "1 \<le> hi" and range: "int (Suc n) * level_cost V \<le> 2 ^ 60"
    and loop: "\<And>fr. list_all (ok_cmd vm) (fr_code fr) \<Longrightarrow> meter hi 1 (code_loop vm n fr) (- (int n * level_cost V)) (\<lambda>_. True)"
  shows "meter hi 1 (RunCode vm (Suc n) b) (- (int (Suc n) * level_cost V)) (\<lambda>_. True)"
proof -
  note K = level_cost_Suc [of n V] level_cost_pos [of n V]
  have pw: "(2 :: int) ^ 60 \<le> cost_bound" by simp
  have cb: "hi \<le> cost_bound" using hi range by (intro fuel_bound [of _ "Suc n" V]) simp_all
  have n1: "1 \<le> n" using hi by simp
  have V: "0 \<le> int V" "int V + 1000 \<le> 2 ^ 60" using K range by simp_all
  have enter: "meter hi 1 (enter_block vm b) (1 - int V) (\<lambda>fr. list_all (ok_cmd vm) (fr_code fr))"
    using V pw cb by (intro meter_enter [OF vm]) simp_all
  show ?thesis
    unfolding RunCode.simps(2)
  proof (rule meter_bind [OF enter])
    fix fr :: frame assume "list_all (ok_cmd vm) (fr_code fr)"
    from loop [OF this] have "meter hi 1 (code_loop vm n fr) (- (int (Suc n) * level_cost V)) (\<lambda>_. True)"
      by (rule meter_weaken) (use K in simp_all)
    then show "meter hi (1 - int V) (code_loop vm n fr) (- (int (Suc n) * level_cost V)) (\<lambda>_. True)"
      by (rule any_loop [OF _ n1]) (use K V pw in linarith)+
  qed (use K in simp)
qed

lemma loop_step:
  assumes vm: "metered_vm vm V" and hi: "2 * hi + 1 \<le> int (Suc n)" "1 \<le> hi" and range: "int (Suc n) * level_cost V \<le> 2 ^ 60"
    and run: "\<And>b. 2 \<le> hi \<Longrightarrow> meter (hi - 1) 1 (RunCode vm n b) (- (int n * level_cost V)) (\<lambda>_. True)"
    and loop: "\<And>fr. 2 \<le> hi \<Longrightarrow> list_all (ok_cmd vm) (fr_code fr) \<Longrightarrow>
      meter (hi - 1) 1 (code_loop vm n fr) (- (int n * level_cost V)) (\<lambda>_. True)"
    and code: "list_all (ok_cmd vm) (fr_code fr)"
  shows "meter hi 1 (code_loop vm (Suc n) fr) (- (int (Suc n) * level_cost V)) (\<lambda>_. True)"
proof -
  let ?F = "int n * level_cost V"
  note K = level_cost_Suc [of n V] level_cost_pos [of n V]
  have pw: "(2 :: int) ^ 61 \<le> cost_bound" "(2 :: int) ^ 60 \<le> 2 ^ 61" by simp_all
  have cb: "hi \<le> cost_bound" using hi range by (intro fuel_bound [of _ "Suc n" V]) simp_all
  have V: "0 \<le> int V" "?F + 4 * int V + 1000 \<le> 2 ^ 60" using K range by simp_all
  have n: "2 \<le> n" using hi by simp
  have any: "meter (hi - 1) lo (RunCode vm n b) (min (- ?F) (lo - int V - 1)) (\<lambda>_. True)" if "- (2 ^ 61) \<le> lo" for b lo
  proof (rule any_run [OF vm _ n])
    assume "1 \<le> hi - 1"
    then show "meter (hi - 1) 1 (RunCode vm n b) (min (- ?F) (lo - int V - 1)) (\<lambda>_. True)"
      by (intro meter_weaken [OF run]) simp_all
  qed (use that V K in simp_all)
  have rc: "rc_meter (hi - 1) ?F V (RunCode vm n)"
    unfolding rc_meter_def using any hi cb V K by auto
  have lp: "meter (hi - 1) (- ?F - 2 * int V - 300) (code_loop vm n fr) (- (int (Suc n) * level_cost V)) (\<lambda>_. True)"
    if "list_all (ok_cmd vm) (fr_code fr)" for fr
  proof (rule any_loop)
    assume "1 \<le> hi - 1"
    then show "meter (hi - 1) 1 (code_loop vm n fr) (- (int (Suc n) * level_cost V)) (\<lambda>_. True)"
      using that K by (intro meter_weaken [OF loop]) simp_all
  qed (use n V K in simp_all)
  show ?thesis
    unfolding code_loop.simps(2)
    by (rule meter_loop [OF vm rc hi(2) cb V(2) code lp]) (use K V in simp_all)
qed

lemma meter_code:
  assumes vm: "metered_vm vm V"
  shows meter_RunCode: "2 * hi + 2 \<le> int n \<Longrightarrow> 1 \<le> hi \<Longrightarrow> int n * level_cost V \<le> 2 ^ 60 \<Longrightarrow>
      meter hi 1 (RunCode vm n b) (- (int n * level_cost V)) (\<lambda>_. True)"
    and meter_code_loop: "2 * hi + 1 \<le> int n \<Longrightarrow> 1 \<le> hi \<Longrightarrow> int n * level_cost V \<le> 2 ^ 60 \<Longrightarrow> list_all (ok_cmd vm) (fr_code fr) \<Longrightarrow>
      meter hi 1 (code_loop vm n fr) (- (int n * level_cost V)) (\<lambda>_. True)"
proof (induction n arbitrary: b fr hi)
  case 0
  { case 1 then show ?case by simp }
  { case 2 then show ?case by simp }
next
  case (Suc n)
  have n: "int (Suc n) * level_cost V \<le> 2 ^ 60 \<Longrightarrow> int n * level_cost V \<le> 2 ^ 60"
    using level_cost_Suc [of n V] by simp
  { case 1 then show ?case using Suc(2) n by (intro run_step [OF vm]) auto }
  { case 2 then show ?case using Suc(1,2) n by (intro loop_step [OF vm]) auto }
qed

section \<open>Gas bounds execution\<close>

lemma run_block_returns:
  assumes "metered_vm vm V" and "0 \<le> rt_cost s" and "2 * rt_cost s + 2 \<le> int n" and "int n * (4 * int V + 1000) \<le> 2 ^ 60"
  shows "\<exists>r s'. run_block vm n b s = Some (r, s') \<and> rt_cost s' \<le> rt_cost s \<and> - (int n * (4 * int V + 1000)) \<le> rt_cost s'"
proof -
  let ?c = "rt_cost s" and ?lo = "- (int n * level_cost V)"
  have n: "2 \<le> n" and range: "int n * level_cost V \<le> 2 ^ 60" using assms by (simp_all add: level_cost_def)
  obtain m where m: "n = Suc m" using n by (cases n) auto
  note K = level_cost_Suc [of m V, folded m] level_cost_pos [of m V]
  have alive: "1 \<le> ?c \<Longrightarrow> meter ?c 1 (RunCode vm n b) ?lo (\<lambda>_. True)"
    using assms(3) by (intro meter_RunCode [OF assms(1) _ _ range])
  have pw: "(2 :: int) ^ 60 \<le> cost_bound" by simp
  have "meter ?c ?c (RunCode vm n b) ?lo (\<lambda>_. True)"
    by (rule any_run [OF assms(1) alive n]) (use K range pw assms(2) in linarith)+
  then have "meter ?c ?c (run_block vm n b) ?lo (\<lambda>_. True)"
    unfolding run_block_def by (rule meter_Run) (use K assms(2) in linarith)
  then show ?thesis using meterD [of ?c ?c "run_block vm n b" ?lo _ s] by (fastforce simp: level_cost_def)
qed

text \<open>
  C1: Every command costs gas, so every call of a function ends: with \<open>c\<close> units of gas, fuel for \<open>2 c + 2\<close>
  nested blocks and turns of loops is enough for \<open>Run\<close> to return, whatever the code, also through calls
  of other functions, nested contracts and loops. The gas left is never more than what was
  given, and it never falls so low that the subtraction in \<open>int64\<close> wraps around. The hypotheses: host
  functions that report a cost report one that is not negative, the prices of calls are not below
  -1, no block has more than \<open>V\<close> variables, and \<open>n (4 V + 1000)\<close> is at most \<open>2^60\<close>.
\<close>

theorem gas_bounds_execution:
  assumes "metered_vm vm V" and "0 \<le> rt_cost s" and "2 * rt_cost s + 2 \<le> int n" and "int n * (4 * int V + 1000) \<le> 2 ^ 60"
  shows "\<exists>r s'. run_block vm n b s = Some (r, s') \<and> rt_cost s' \<le> rt_cost s \<and> - (int n * (4 * int V + 1000)) \<le> rt_cost s'"
  using assms by (rule run_block_returns)

text \<open>A machine with the function \<open>func f int \<dots>\<close> whose body is \<open>var a int; a = 2 + 3 * 4; return a\<close>.\<close>

definition code_of :: "16 word \<Rightarrow> operand \<Rightarrow> ByteCode" where
  "code_of c x = \<lparr>bc_Cmd = c, bc_Value = x\<rparr>"

definition func_block :: "ltype option list \<Rightarrow> ltype option list \<Rightarrow> ltype option list \<Rightarrow> ByteCode list \<Rightarrow> Block" where
  "func_block ps rs vs cs =
     \<lparr>b_Objects = [], b_Type = ObjFunc, b_Owner = None,
      b_Info = InfoFunc \<lparr>fi_Params = ps, fi_Results = rs, fi_Names = None, fi_Variadic = False, fi_ID = 0, fi_CanWrite = False\<rparr>,
      b_Parent = None, b_Vars = vs, b_Code = cs, b_Children = []\<rparr>"

definition plain_vm :: "(blockid \<Rightarrow> Block option) \<Rightarrow> (string \<Rightarrow> ObjInfo option) \<Rightarrow> 'w VM" where
  "plain_vm bs objs =
     \<lparr>vm_blocks = bs, vm_Objects = objs, vm_ExtCost = None, vm_FuncCallsDB = None,
      vm_host = (\<lambda>n a s. (Inr [], s)), vm_extfunc = (\<lambda>n a s. (Inr [], s)), vm_func_arity = (\<lambda>_. None),
      vm_AppendStack = (\<lambda>n s. (Inr None, s)), vm_PopStack = (\<lambda>n s. (Inr (), s)),
      vm_check_signature = (\<lambda>n s. (Inr None, s)), vm_sprint = (\<lambda>h v. []), vm_json = (\<lambda>a b. a @ b),
      vm_grow = (\<lambda>c n. n), vm_range = (\<lambda>x. x), vm_go_stack = 10\<rparr>"

definition local_var :: "nat \<Rightarrow> blockid \<Rightarrow> VarInfo" where
  "local_var i b = \<lparr>vi_Obj = \<lparr>oi_Type = ObjVar, oi_Value = OVInt i\<rparr>, vi_Owner = Some b\<rparr>"

definition sum_block :: Block where
  "sum_block = func_block [] [Some TInt] [Some TInt]
     [code_of cmdAssignVar (OpVars [local_var 0 0]), code_of cmdPush (OpVal (VInt64 2)),
      code_of cmdPush (OpVal (VInt64 3)), code_of cmdPush (OpVal (VInt64 4)), code_of cmdMul (OpPrior 30),
      code_of cmdAdd (OpPrior 25), code_of cmdAssign OpInt, code_of cmdVar (OpVar (local_var 0 0)), code_of cmdReturn OpInt]"

lemma metered_plain_vm:
  assumes "\<And>b blk. bs b = Some blk \<Longrightarrow> length (b_Vars blk) \<le> V"
  shows "metered_vm (plain_vm bs objs) V"
  using assms
  by (auto simp: metered_vm_def plain_vm_def ok_cmd_def is_db_func_def list_all_iff split: operand.splits objval.splits)

theorem gas_bounds_execution_witness:
  "\<exists>r s'. run_block (plain_vm [0 \<mapsto> sum_block] (\<lambda>_. None)) 202 0 (RunInit 100 (\<lambda>_. None) heap_empty ()) = Some (r, s') \<and>
     rt_cost s' \<le> 100 \<and> - 202808 \<le> rt_cost s'"
proof -
  have vm: "metered_vm (plain_vm [0 \<mapsto> sum_block] (\<lambda>_. None) :: unit VM) 1"
    by (rule metered_plain_vm) (auto simp: sum_block_def func_block_def split: if_splits)
  have "rt_cost (RunInit 100 (\<lambda>_. None) heap_empty ()) = 100" by (simp add: RunInit_def)
  with gas_bounds_execution [OF vm, of "RunInit 100 (\<lambda>_. None) heap_empty ()" 202 0] show ?thesis by simp
qed

end
