(* ===== verification/Script_Eval.thy ===== *)
theory Script_Eval
  imports Script_Gas
begin

text \<open>
  Evaluation of the machine by rewriting: the sequencing operations keep their continuations
  unevaluated until the state and the value they wait for are known, so that \<open>simp\<close> runs a program one
  command at a time. \<open>run_eval\<close> collects the equations, \<open>run_congs\<close> the congruences.
\<close>

named_theorems run_eval "equations that execute programs of the virtual machine"

lemma bind_run_cong: "s = t \<Longrightarrow> bind_run m f s = bind_run m f t"
  by simp

lemma seq_run_cong: "s = t \<Longrightarrow> seq_run m k s = seq_run m k t"
  by simp

lemma leave_on_error_cong: "s = t \<Longrightarrow> leave_on_error m s = leave_on_error m t"
  by simp

lemma recover_run_cong: "s = t \<Longrightarrow> recover_run m s = recover_run m t"
  by simp

lemma with_depth_cong: "s = t \<Longrightarrow> with_depth m s = with_depth m t"
  by simp

lemma nested_run_cong: "s = t \<Longrightarrow> nested_run m s = nested_run m t"
  by simp

lemma defer_delete_cong: "s = t \<Longrightarrow> defer_delete k m s = defer_delete k m t"
  by simp

lemmas run_congs = bind_run_cong seq_run_cong leave_on_error_cong recover_run_cong with_depth_cong nested_run_cong
  defer_delete_cong

lemma RunCode_eval: "0 < n \<Longrightarrow> RunCode vm n b s = bind_run (enter_block vm b) (code_loop vm (n - 1)) s"
  by (cases n) simp_all

lemma code_loop_eval: "0 < n \<Longrightarrow> code_loop vm n fr s = loop_body vm (RunCode vm (n - 1)) (code_loop vm (n - 1)) fr s"
  by (cases n) simp_all

lemma calcMem_eval:
  "0 < n \<Longrightarrow> calcMem n h (VInt64 i) = Inr 8" "0 < n \<Longrightarrow> calcMem n h (VBool b) = Inr 1"
  "0 < n \<Longrightarrow> calcMem n h (VString t) = Inr (int (length t))" "0 < n \<Longrightarrow> calcMem n h VNil = Inr 16"
  "0 < n \<Longrightarrow> calcMem n h (VArr r k) = bind_res (arr_elems h r k) (\<lambda>xs. sum_res 12 (map (calcMem (n - 1) h) xs))"
  "0 < n \<Longrightarrow> calcMem n h (VMap m) = Inr 16" "0 < n \<Longrightarrow> calcMem n h (VFloat f) = Inr 8" "0 < n \<Longrightarrow> calcMem n h (VDec d) = Inr 16"
  by (auto simp: gr0_conv_Suc)

lemma seq_run_eval: "seq_run m k s = bind_run m (\<lambda>_. k) s"
  by (simp add: seq_run_def)

lemma wrap64_eval:
  "wrap64 (numeral k) = (if numeral k < (2 :: int) ^ 63 then numeral k else wrap64 (numeral k))"
  "wrap64 0 = 0" "wrap64 1 = 1"
  by (simp_all add: wrap64_small)

lemmas [run_eval] =
  RunCode_eval code_loop_eval calcMem_eval seq_run_eval wrap64_eval
  bind_run_def ret_run_def throw_run_def lift_run_def get_run_def upd_run_def heap_run_def host_run_def
  push_def stack_size_def stack_at_def stack_put_def stack_cut_def stack_slice_def pay_def go_nth_def Let_def
  run_block_def Run_def recover_run_def get_block_def func_info_def enter_block_def pop_names_def block_params_def
  new_value_def zero_val_def addVar_def calcMem_run_def loop_body_def leave_block_def exec_cmd_def exec_plain_def
  cmd_consts arity_def fits_top_def done_run_def fail_with_def operand_val_def binary_op_def heap_read_def leave_on_error_def
  op_Mul_def op_Add_def op_Sub_def op_Div_def arith_op_def with_int_def ValueToInt_def
  assign_owned_def find_owner_def obj_int_def obj_str_def obj_block_def obj_ext_def
  setVar_def put_var_def recalcMemVar_def set_mem_def mem_of_def exec_var_def var_value_def memoryLimit_def
  ext_put_def ext_get_def recalcMemExtendVar_def setExtendVar_def
  exec_SetIndex_def set_slice_def set_array_def arr_store_def arr_append_def heap_arr_def heap_alloc_def heap_set_def
  arr_elems_def has_prefix_def str_contains_def stack_overflow_def go_type_def type_name_def index_key_def alloc_run_def heap_empty_def maxArrayIndex_def

lemmas [run_eval] =
  exec_call_def pay_call_def CostCall_def CostContract_def callFunc_def maxCallDepth_def with_depth_def getInParams_def
  unwrap_args_def val_int_def is_array_def call_host_def count_auto_def is_stacker_def collect_pars.simps
  exec_contract_args_def is_string_def apply_func_def two_results_def ExecContract_def get_contract_def
  exec_contract_body_def contract_info_def defer_delete_def check_signature_def nested_run_def opt_str_def
  push_db_results_def is_db_func_def exec_extend_def CostExtend_def operand_str_def isSysVar_def sysVars_def
  keep_sys_def drop_sys_def

lemmas run_machine = RunInit_def plain_vm_def func_block_def code_of_def local_var_def

end
