(* ===== verification/Contract_Stack.thy ===== *)
theory Contract_Stack
  imports Script_VM
begin

text \<open>
  The stack of called contracts behind \<open>$stack\<close>: \<open>AppendStack\<close> and \<open>PopStack\<close> of \<open>packages/smart/funcs.go\<close>, the methods of
  the \<open>Stacker\<close> that the virtual machine calls around functions of the host and contracts. They are the only functions of the package
  that bind a variable of the machine that runs the contract of the transaction, and the only variable they bind is \<open>$stack\<close>.
\<close>

section \<open>AppendStack and PopStack\<close>

text \<open>The name and the block of a contract; anything else under that name is not one.\<close>

definition VMGetContract :: "'w VM \<Rightarrow> string \<Rightarrow> 32 word \<Rightarrow> (string \<times> blockid) option res" where
  "VMGetContract vm name state =
     (if name = [] then Inr None
      else
        let name = StateName state name in
        case vm_Objects vm name of
          None \<Rightarrow> Inr None
        | Some ob \<Rightarrow> if oi_Type ob = ObjContract then bind_res (obj_block ob) (\<lambda>b. Inr (Some (name, b))) else Inr None)"

text \<open>Stack contains only contracts.\<close>

definition isAllowStack :: "'w VM \<Rightarrow> int64 \<Rightarrow> string \<Rightarrow> bool res" where
  "isAllowStack vm eco fn = bind_res (VMGetContract vm fn (ucast eco)) (\<lambda>c. Inr (c \<noteq> None))"

text \<open>
  The slice \<open>StackCont\<close> is part of the world of the host: \<open>cont_of\<close> reads it and \<open>set_cont\<close> writes it. Its array is the one \<open>$stack\<close>
  holds, so programs can reach it. \<open>eco\<close> is the ecosystem of the transaction.
\<close>

definition AppendStack :: "('w \<Rightarrow> ref \<times> nat) \<Rightarrow> (ref \<times> nat \<Rightarrow> 'w \<Rightarrow> 'w) \<Rightarrow> int64 \<Rightarrow> 'w VM \<Rightarrow> string \<Rightarrow> ('w, string option) host" where
  "AppendStack cont_of set_cont eco vm fn sh =
     (case isAllowStack vm eco fn of
        Inl e \<Rightarrow> (Inl e, sh)
      | Inr False \<Rightarrow> (Inr None, sh)
      | Inr True \<Rightarrow>
          (let (r, n) = cont_of (sh_world sh) in
           case arr_elems (sh_heap sh) r n of
             Inl e \<Rightarrow> (Inl e, sh)
           | Inr xs \<Rightarrow>
               if VString fn \<in> set xs then (Inr (Some (''There is loop in '' @ fn @ '' contract'')), sh)
               else
                 (case arr_append (vm_grow vm) (sh_heap sh) r n [VString fn] of
                    Inl e \<Rightarrow> (Inl e, sh)
                  | Inr ((r, n), h) \<Rightarrow>
                      (Inr None, sh\<lparr>sh_extend := (sh_extend sh)(''stack'' \<mapsto> VArr r n), sh_heap := h,
                         sh_world := set_cont (r, n) (sh_world sh)\<rparr>))))"

definition PopStack :: "('w \<Rightarrow> ref \<times> nat) \<Rightarrow> (ref \<times> nat \<Rightarrow> 'w \<Rightarrow> 'w) \<Rightarrow> int64 \<Rightarrow> 'w VM \<Rightarrow> string \<Rightarrow> ('w, unit) host" where
  "PopStack cont_of set_cont eco vm fn sh =
     (case isAllowStack vm eco fn of
        Inl e \<Rightarrow> (Inl e, sh)
      | Inr False \<Rightarrow> (Inr (), sh)
      | Inr True \<Rightarrow>
          (let (r, n) = cont_of (sh_world sh) in
           if n > 0 then
             (Inr (), sh\<lparr>sh_extend := (sh_extend sh)(''stack'' \<mapsto> VArr r (n - 1)), sh_world := set_cont (r, n - 1) (sh_world sh)\<rparr>)
           else (Inr (), sh)))"

text \<open>A virtual machine whose \<open>Stacker\<close> is \<open>SmartContract\<close>.\<close>

definition uses_stack :: "('w \<Rightarrow> ref \<times> nat) \<Rightarrow> (ref \<times> nat \<Rightarrow> 'w \<Rightarrow> 'w) \<Rightarrow> int64 \<Rightarrow> 'w VM \<Rightarrow> bool" where
  "uses_stack cont_of set_cont eco vm \<longleftrightarrow>
     vm_AppendStack vm = AppendStack cont_of set_cont eco vm \<and> vm_PopStack vm = PopStack cont_of set_cont eco vm"

text \<open>They depend on the objects of the machine and the growth of slices alone.\<close>

lemma stack_functions_cong:
  assumes "vm_Objects vm' = vm_Objects vm" "vm_grow vm' = vm_grow vm"
  shows "AppendStack cont_of set_cont eco vm' = AppendStack cont_of set_cont eco vm" "PopStack cont_of set_cont eco vm' = PopStack cont_of set_cont eco vm"
  unfolding AppendStack_def PopStack_def isAllowStack_def VMGetContract_def assms by (rule refl)+

section \<open>What they bind\<close>

lemma AppendStack_extend: "k \<noteq> ''stack'' \<Longrightarrow> sh_extend (snd (AppendStack cont_of set_cont eco vm fn sh)) k = sh_extend sh k"
  by (simp add: AppendStack_def Let_def split: sum.split bool.split prod.split)

lemma PopStack_extend: "k \<noteq> ''stack'' \<Longrightarrow> sh_extend (snd (PopStack cont_of set_cont eco vm fn sh)) k = sh_extend sh k"
  by (simp add: PopStack_def Let_def split: sum.split bool.split prod.split)

lemma arr_elems_append:
  assumes "arr_append grow h r n vs = Inr ((r', n'), h')" "arr_elems h r n = Inr xs" "r \<noteq> 0 \<longrightarrow> r < h_next h" "0 < h_next h" "vs \<noteq> []"
  shows "n' = n + length vs \<and> arr_elems h' r' n' = Inr (xs @ vs) \<and> arr_elems h' r' n = Inr xs \<and> r' \<noteq> 0 \<and> r' < h_next h'"
proof -
  obtain ys where ys: "heap_arr h r = Inr ys" "n \<le> length ys" "xs = take n ys"
    using assms(2) by (cases "heap_arr h r") (auto simp: arr_elems_def split: if_splits)
  show ?thesis
  proof (cases "n + length vs \<le> length ys")
    case True
    then have "r \<noteq> 0" using ys(1) assms(5) by (cases "r = 0") (auto simp: heap_arr_def)
    with True show ?thesis using assms(1,3) ys by (auto simp: arr_append_def Let_def heap_set_def arr_elems_def heap_arr_def)
  next
    case False
    then show ?thesis using assms(1,4) ys by (auto simp: arr_append_def Let_def heap_alloc_def arr_elems_def heap_arr_def)
  qed
qed

text \<open>
  A contract that is entered and left: the stack holds its name on top while it runs, and afterwards the names it held before;
  \<open>$stack\<close> is the stack in both states. The hypotheses say that the world stores the slice and that its array exists.
\<close>

lemma AppendStack_PopStack:
  assumes "isAllowStack vm eco fn = Inr True" "cont_of (sh_world sh) = (r, n)" "arr_elems (sh_heap sh) r n = Inr xs" "VString fn \<notin> set xs"
    and "\<And>c w. cont_of (set_cont c w) = c" "r \<noteq> 0 \<longrightarrow> r < h_next (sh_heap sh)" "0 < h_next (sh_heap sh)"
  shows "\<exists>sh1 sh2 r'. AppendStack cont_of set_cont eco vm fn sh = (Inr None, sh1) \<and> PopStack cont_of set_cont eco vm fn sh1 = (Inr (), sh2) \<and>
    sh_extend sh1 ''stack'' = Some (VArr r' (n + 1)) \<and> arr_elems (sh_heap sh1) r' (n + 1) = Inr (xs @ [VString fn]) \<and>
    cont_of (sh_world sh2) = (r', n) \<and> sh_extend sh2 ''stack'' = Some (VArr r' n) \<and> arr_elems (sh_heap sh2) r' n = Inr xs"
proof -
  obtain ys where "heap_arr (sh_heap sh) r = Inr ys"
    using assms(3) by (cases "heap_arr (sh_heap sh) r") (auto simp: arr_elems_def)
  then obtain p where p: "arr_append (vm_grow vm) (sh_heap sh) r n [VString fn] = Inr p"
    by (cases "Suc n \<le> length ys") (simp_all add: arr_append_def Let_def heap_alloc_def)
  obtain r' n' h' where "p = ((r', n'), h')" by (metis surj_pair)
  with p have a: "arr_append (vm_grow vm) (sh_heap sh) r n [VString fn] = Inr ((r', n'), h')" by simp
  with arr_elems_append [OF a assms(3,6,7)] show ?thesis
    using assms(1-5) by (auto simp: AppendStack_def PopStack_def)
qed

text \<open>A contract that is on the stack is not entered again.\<close>

lemma AppendStack_loop:
  assumes "isAllowStack vm eco fn = Inr True" "cont_of (sh_world sh) = (r, n)" "arr_elems (sh_heap sh) r n = Inr xs" "VString fn \<in> set xs"
  shows "AppendStack cont_of set_cont eco vm fn sh = (Inr (Some (''There is loop in '' @ fn @ '' contract'')), sh)"
  using assms by (simp add: AppendStack_def)

end
