(* ===== verification/Script_Access.thy ===== *)
theory Script_Access
  imports Script_Eval Contract_Stack
begin

text \<open>
  Access to the system variables (\<open>$key_id\<close>, \<open>$ecosystem_id\<close>, \<open>$block\<close>, \dots): which programs of the virtual
  machine can change what they are bound to, and the two ways around the check of assignments
  (\<open>isSysVar\<close> in \<open>packages/script/vm.go\<close>).
\<close>

section \<open>Programs that leave the system variables alone\<close>

definition same_sys :: "'w RunTime \<Rightarrow> 'w RunTime \<Rightarrow> bool" where
  "same_sys s s' \<longleftrightarrow> (\<forall>k. isSysVar k \<and> k \<noteq> ''stack'' \<longrightarrow> rt_extend s' k = rt_extend s k)"

text \<open>
  A function of another package that binds no system variable but \<open>$stack\<close>. The functions of the repository are such: only
  \<open>AppendStack\<close> and \<open>PopStack\<close> write to the variables of the machine they are called from.
\<close>

definition spares :: "('w, 'a) host \<Rightarrow> bool" where
  "spares f \<longleftrightarrow> (\<forall>sh k. isSysVar k \<and> k \<noteq> ''stack'' \<longrightarrow> sh_extend (snd (f sh)) k = sh_extend sh k)"

lemma spares_AppendStack: "spares (AppendStack cont_of set_cont eco vm fn)"
  by (simp add: spares_def AppendStack_extend)

lemma spares_PopStack: "spares (PopStack cont_of set_cont eco vm fn)"
  by (simp add: spares_def PopStack_extend)

text \<open>Commands that neither store into an element of a system variable nor call a contract.\<close>

definition guarded_cmd :: "ByteCode \<Rightarrow> bool" where
  "guarded_cmd cmd =
     (case bc_Value cmd of
        OpIndex info \<Rightarrow> ii_Owner info \<noteq> None \<or> \<not> isSysVar (ii_Extend info)
      | OpObj ob \<Rightarrow> (case oi_Value ob of OVExt f \<Rightarrow> ef_Func f \<noteq> FExecContract \<and> ef_Func f \<noteq> FCallContract | _ \<Rightarrow> True)
      | _ \<Rightarrow> True)"

definition guarded_vm :: "'w VM \<Rightarrow> bool" where
  "guarded_vm vm \<longleftrightarrow>
     (\<forall>n a. spares (vm_host vm n a)) \<and> (\<forall>v a. spares (vm_extfunc vm v a)) \<and>
     (\<exists>cont_of set_cont eco. uses_stack cont_of set_cont eco vm) \<and>
     (\<forall>b blk. vm_blocks vm b = Some blk \<longrightarrow> list_all guarded_cmd (b_Code blk))"

interpretation sys: mach_cost_rel True same_sys
  by unfold_locales (auto simp: same_sys_def set_mem_def)

lemma sys_host: "spares f \<Longrightarrow> keeps True same_sys (host_run f)"
  by (auto simp: keeps_def host_run_def same_sys_def spares_def split: prod.split) (metis snd_conv RunTime.select_convs shared.select_convs)

lemma sys_ext_put: "\<not> isSysVar k \<Longrightarrow> keeps True same_sys (ext_put k v)"
  unfolding ext_put_def by (intro sys.keeps_upd) (auto simp: same_sys_def)

lemma sys_setExtendVar: "\<not> isSysVar k \<Longrightarrow> keeps True same_sys (setExtendVar vm k v)"
  unfolding setExtendVar_def by (intro sys.keeps_seq sys_ext_put sys.keeps_recalc_ext)

lemma sys_assign_loop: "keeps True same_sys (assign_loop vm c i items)"
  by (induction items arbitrary: i) (auto intro!: sys.mach_prims sys.keeps_assign_owned sys_setExtendVar)

lemma sys_set_array: "ii_Owner info \<noteq> None \<or> \<not> isSysVar (ii_Extend info) \<Longrightarrow> keeps True same_sys (set_array vm info ik sz r n i)"
  unfolding set_array_def by (intro sys.mach_prims sys.keeps_arr_store sys_ext_put) auto

lemma sys_SetIndex: "ii_Owner info \<noteq> None \<or> \<not> isSysVar (ii_Extend info) \<Longrightarrow> keeps True same_sys (exec_SetIndex vm info sz)"
  unfolding exec_SetIndex_def set_slice_def set_row_def
  by (auto intro!: sys.mach_prims sys.keeps_set_map sys_set_array)

lemma sys_plain:
  assumes "guarded_cmd cmd"
  shows "keeps True same_sys (exec_plain vm cmd sz fr)"
proof -
  have "keeps True same_sys (exec_SetIndex vm info sz)" if "bc_Value cmd = OpIndex info" for info
    using assms that by (intro sys_SetIndex) (simp add: guarded_cmd_def)
  then show ?thesis
    unfolding exec_plain_def Let_def getResultArray_def getResultMap_def
    by (cases "bc_Value cmd"; simp only: operand.case;
        intro sys.mach_prims sys.keeps_done sys_assign_loop sys.keeps_error sys.keeps_FuncName
          sys.keeps_exec_var sys.keeps_Index sys.keeps_exec_unwrap sys.keeps_results; blast?)
qed

lemma sys_extendFunc: "guarded_vm vm \<Longrightarrow> keeps True same_sys (extendFunc vm name)"
  unfolding extendFunc_def by (intro sys.mach_prims sys.keeps_push_results sys_host) (simp add: guarded_vm_def)

lemma rt_not_sys: "\<not> isSysVar ''rt''"
  by (simp add: isSysVar_def sysVars_def has_prefix_def)

lemma sys_call_host:
  assumes vm: "guarded_vm vm" and f: "ef_Func f \<noteq> FExecContract" "ef_Func f \<noteq> FCallContract"
  shows "keeps True same_sys (call_host vm (apply_func vm rc) f c sz)"
proof -
  have "keeps True same_sys (apply_func vm rc (ef_Func f) vs)" for vs
    unfolding apply_func_def using vm f
    by (cases "ef_Func f") (auto intro!: sys.mach_prims sys_host simp: guarded_vm_def two_results_def)
  moreover have "keeps True same_sys (host_run (vm_AppendStack vm n))" "keeps True same_sys (host_run (vm_PopStack vm n))" for n
    using vm by (auto intro!: sys_host spares_AppendStack spares_PopStack simp: guarded_vm_def uses_stack_def)
  ultimately show ?thesis
    unfolding call_host_def Let_def
    by (auto intro!: sys.mach_prims sys.keeps_collect sys.keeps_db_results sys_ext_put rt_not_sys)
qed

lemma sys_cmd:
  assumes "guarded_vm vm" "guarded_cmd cmd" "\<And>b. keeps True same_sys (rc b)"
  shows "keeps True same_sys (exec_cmd vm rc cmd sz fr)"
  using assms
  by (intro sys.keeps_exec_cmd sys_plain sys_extendFunc sys_call_host) (auto simp: guarded_cmd_def)

text \<open>
  C3: A program that calls no other contract and assigns to no element of a system variable leaves every system variable other
  than \<open>$stack\<close> bound to what it was bound to, whatever else it does and however it ends: plain assignments to \<open>$key_id\<close> and the
  like are refused at run time too, the variables of the language, loops, calls of functions, the accounting and the stack of callers
  never reach them. The machine is one whose \<open>Stacker\<close> is \<open>SmartContract\<close>, with \<open>AppendStack\<close> and \<open>PopStack\<close> as modelled; the other
  functions of the host are assumed to bind no system variable but \<open>$stack\<close>, which holds of those of the repository.
\<close>

theorem system_variables_kept:
  assumes "guarded_vm vm" "run_block vm n b s = Some (r, s')" "isSysVar k" "k \<noteq> ''stack''"
  shows "rt_extend s' k = rt_extend s k"
proof -
  have "keeps True same_sys (run_block vm n b)"
    using assms(1)
    by (intro sys.keeps_run_block sys.keeps_RunCode [where good = guarded_cmd] sys_cmd) (auto simp: guarded_vm_def)
  then show ?thesis using keepsD [of True same_sys "run_block vm n b" s r s'] assms(2-4) by (simp add: same_sys_def)
qed

text \<open>A machine whose world is the stack of callers of a contract of ecosystem 1.\<close>

definition stacked_vm :: "(blockid \<Rightarrow> Block option) \<Rightarrow> (string \<Rightarrow> ObjInfo option) \<Rightarrow> (ref \<times> nat) VM" where
  "stacked_vm bs objs =
     (let vm = plain_vm bs objs in
      vm\<lparr>vm_AppendStack := AppendStack id (\<lambda>c _. c) 1 vm, vm_PopStack := PopStack id (\<lambda>c _. c) 1 vm\<rparr>)"

lemma uses_stacked_vm: "uses_stack id (\<lambda>c _. c) 1 (stacked_vm bs objs)"
proof -
  let ?vm = "plain_vm bs objs :: (ref \<times> nat) VM" and ?vm' = "stacked_vm bs objs"
  have "vm_Objects ?vm' = vm_Objects ?vm" "vm_grow ?vm' = vm_grow ?vm"
    by (simp_all add: stacked_vm_def Let_def)
  note stack_functions_cong [OF this, of id "\<lambda>c _. c" 1]
  then show ?thesis by (simp add: uses_stack_def) (simp add: stacked_vm_def Let_def)
qed

definition extend_var :: "string \<Rightarrow> VarInfo" where
  "extend_var n = \<lparr>vi_Obj = \<lparr>oi_Type = ObjExtend, oi_Value = OVStr n\<rparr>, vi_Owner = None\<rparr>"

text \<open>
  The function \<open>func f \<dots> { Flush(); $amount = $key_id }\<close> in an ecosystem that has a contract with the name of the function
  \<open>Flush\<close> of the host, which is thus put on the stack of callers.
\<close>

definition flush_obj :: ObjInfo where
  "flush_obj = \<lparr>oi_Type = ObjExtFunc, oi_Value = OVExt
     \<lparr>ef_Name = ''Flush'', ef_Params = [], ef_Results = [], ef_Auto = [], ef_Variadic = False, ef_Func = FHost ''Flush'', ef_CanWrite = False\<rparr>\<rparr>"

definition polite_vm :: "(ref \<times> nat) VM" where
  "polite_vm = stacked_vm
     [0 \<mapsto> func_block [] [] []
        [code_of cmdCall (OpObj flush_obj),
         code_of cmdAssignVar (OpVars [extend_var ''amount'']), code_of cmdExtend (OpVal (VString ''key_id'')), code_of cmdAssign OpInt]]
     [''@1Flush'' \<mapsto> \<lparr>oi_Type = ObjContract, oi_Value = OVBlock 1\<rparr>]"

definition start_with :: "string \<Rightarrow> val \<Rightarrow> unit RunTime" where
  "start_with k v = RunInit 1000 [k \<mapsto> v] heap_empty ()"

definition start_stacked :: "val \<Rightarrow> (ref \<times> nat) RunTime" where
  "start_stacked v = RunInit 1000 [''key_id'' \<mapsto> v, ''sc'' \<mapsto> VHost ''*smart.SmartContract'' 0] heap_empty (0, 0)"

lemma guarded_polite_vm: "guarded_vm polite_vm"
proof -
  have "\<exists>cont_of set_cont eco. uses_stack cont_of set_cont eco polite_vm"
    unfolding polite_vm_def using uses_stacked_vm by blast
  then show ?thesis
    by (auto simp: guarded_vm_def polite_vm_def stacked_vm_def Let_def plain_vm_def spares_def func_block_def code_of_def guarded_cmd_def
      flush_obj_def split: if_splits)
qed

text \<open>The run binds \<open>$stack\<close> and leaves \<open>$key_id\<close> alone.\<close>

theorem system_variables_kept_witness:
  "\<exists>s. run_block polite_vm 40 0 (start_stacked (VInt64 7)) = Some (Inr ([], None), s) \<and>
     rt_extend s ''stack'' = Some (VArr 1 0) \<and> rt_extend s ''key_id'' = Some (VInt64 7)"
proof -
  have one: "show_nat (Suc 0) = ''1''" by (simp add: show_nat.simps digit_char_def char_of_def bit_Suc_0_iff)
  obtain s where run: "run_block polite_vm 40 0 (start_stacked (VInt64 7)) = Some (Inr ([], None), s)" "rt_extend s ''stack'' = Some (VArr 1 0)"
    unfolding polite_vm_def start_stacked_def stacked_vm_def
    by (simp add: run_eval run_machine extend_var_def flush_obj_def AppendStack_def PopStack_def isAllowStack_def VMGetContract_def StateName_def
      one cong: run_congs del: RunCode.simps code_loop.simps)
  have "rt_extend s ''key_id'' = rt_extend (start_stacked (VInt64 7)) ''key_id''"
    by (rule system_variables_kept [OF guarded_polite_vm run(1)]) (simp_all add: isSysVar_def sysVars_def)
  then show ?thesis using run by (simp add: start_stacked_def RunInit_def)
qed

section \<open>Ways around the check\<close>

text \<open>
  \<open>ExecContract\<close> is an ordinary function of the language. Its second argument lists the names of the
  parameters, which nothing compares with the fields of the called contract or with the system
  variables. Here the function \<open>return ExecContract("@1Victim", "key_id", v)\<close> calls the contract
  \<open>contract Victim \<dots> action \<dots> $result = $key_id\<close>.
\<close>

definition exec_obj :: ObjInfo where
  "exec_obj = \<lparr>oi_Type = ObjExtFunc, oi_Value = OVExt
     \<lparr>ef_Name = ''ExecContract'', ef_Params = [''*script.RunTime'', ''string'', ''string'', ''[]interface {}''],
      ef_Results = [''interface {}'', ''error''], ef_Auto = [''rt'', [], [], []], ef_Variadic = True,
      ef_Func = FExecContract, ef_CanWrite = False\<rparr>\<rparr>"

definition victim_block :: Block where
  "victim_block = \<lparr>b_Objects = [(''action'', \<lparr>oi_Type = ObjFunc, oi_Value = OVBlock 2\<rparr>)], b_Type = ObjContract, b_Owner = None,
     b_Info = InfoContract \<lparr>ci_ID = 1, ci_Name = ''@1Victim'', ci_Owner = None, ci_Used = [], ci_Tx = None,
       ci_Settings = None, ci_CanWrite = True\<rparr>,
     b_Parent = None, b_Vars = [], b_Code = [], b_Children = []\<rparr>"

definition forger_vm :: "int64 \<Rightarrow> unit VM" where
  "forger_vm v = plain_vm
     [0 \<mapsto> func_block [] [Some TInt] []
        [code_of cmdPush (OpVal (VString ''@1Victim'')), code_of cmdPush (OpVal (VString ''key_id'')),
         code_of cmdPush (OpVal (VInt64 v)), code_of cmdPush (OpVal (VInt 3)), code_of cmdCallVari (OpObj exec_obj),
         code_of cmdReturn OpInt],
      1 \<mapsto> victim_block,
      2 \<mapsto> func_block [] [] []
        [code_of cmdAssignVar (OpVars [extend_var ''result'']), code_of cmdExtend (OpVal (VString ''key_id'')), code_of cmdAssign OpInt]]
     [''@1Victim'' \<mapsto> \<lparr>oi_Type = ObjContract, oi_Value = OVBlock 1\<rparr>]"

text \<open>
  C4: A contract can choose the account in whose name it calls another one: in a transaction of the
  account \<open>k\<close>, the called contract sees the value \<open>v\<close> of the caller's choice in \<open>$key_id\<close>, and after the call
  \<open>$key_id\<close> stays \<open>v\<close> for the rest of the transaction.
\<close>

theorem ExecContract_forges_key_id:
  "\<exists>s. run_block (forger_vm v) 40 0 (start_with ''key_id'' (VInt64 k)) = Some (Inr ([VInt64 v], None), s) \<and>
     rt_extend s ''key_id'' = Some (VInt64 v)"
  unfolding forger_vm_def start_with_def victim_block_def
  by (simp add: run_eval run_machine exec_obj_def extend_var_def map_add_def cong: run_congs del: RunCode.simps code_loop.simps)

text \<open>
  An assignment to an element, \<open>$stack[0] = v\<close>, is not compared with the system variables either: neither
  the compiler nor the machine looks at the name.
\<close>

definition stack_vm :: "val \<Rightarrow> unit VM" where
  "stack_vm v = plain_vm
     [0 \<mapsto> func_block [] [] []
        [code_of cmdExtend (OpVal (VString ''stack'')), code_of cmdPush (OpVal (VInt64 0)), code_of cmdPush (OpVal v),
         code_of cmdSetIndex (OpIndex \<lparr>ii_VarOffset = 0, ii_Owner = None, ii_Extend = ''stack''\<rparr>)]]
     (\<lambda>_. None)"

text \<open>
  A contract can rewrite the stack of callers that \<open>ContractAccess\<close> consults: after \<open>$stack[0] = "\<dots>"\<close> the
  array that the host reads holds the new name, while the plain assignment \<open>$stack = \<dots>\<close> is refused.
\<close>

theorem stack_of_callers_rewritten:
  "(\<exists>s. run_block (stack_vm (VString name)) 40 0
      (RunInit 1000 [''stack'' \<mapsto> VArr 1 1] (heap_set 1 (HArr [VString caller]) (heap_empty\<lparr>h_next := 2\<rparr>)) ()) = Some (Inr ([], None), s) \<and>
      rt_extend s ''stack'' = Some (VArr 1 1) \<and> h_obj (rt_heap s) 1 = Some (HArr [VString name])) \<and>
    assign_loop vm 1 0 [extend_var ''stack''] t = Some (Inl (Error (sys_var_err ''stack'')), t)"
proof (rule conjI)
  show "assign_loop vm 1 0 [extend_var ''stack''] t = Some (Inl (Error (sys_var_err ''stack'')), t)"
    by (simp add: run_eval extend_var_def cong: run_congs)
qed (simp add: stack_vm_def run_eval run_machine cong: run_congs del: RunCode.simps code_loop.simps)

end
