(* ===== verification/Script_Memory.thy ===== *)
theory Script_Memory
  imports Script_Eval
begin

text \<open>
  The memory accounting of the virtual machine (\<open>calcMem\<close>, \<open>rt.mem\<close> and \<open>rt.memVars\<close> of
  \<open>packages/script/vminit.go\<close>): an invariant of every program, by an interpretation of \<open>vm_cost_rel\<close>, and the
  one kind of value on which it fails to come to an end.
\<close>

section \<open>The invariant\<close>

definition mem_total :: "(memkey \<Rightarrow> int option) \<Rightarrow> int" where
  "mem_total m = (\<Sum>k\<in>dom m. the (m k))"

definition mem_ok :: "'w RunTime \<Rightarrow> bool" where
  "mem_ok s \<longleftrightarrow>
     finite (dom (rt_memVars s)) \<and> (\<forall>i. KVar i \<in> dom (rt_memVars s) \<longrightarrow> i < length (rt_vars s)) \<and>
     rt_mem s = wrap64 (mem_total (rt_memVars s))"

lemma wrap64_add: "wrap64 (wrap64 a + b) = wrap64 (a + b)"
proof -
  have "i64 (wrap64 a + b) = i64 (wrap64 a) + i64 b" by (rule wi_hom_add [symmetric])
  also have "i64 (wrap64 a) = i64 a" by (simp add: wrap64_def)
  also have "i64 a + i64 b = i64 (a + b)" by (rule wi_hom_add)
  finally show ?thesis unfolding wrap64_def [of "wrap64 a + b"] wrap64_def [of "a + b"] by simp
qed

lemma wrap64_add_right: "wrap64 (a + wrap64 b) = wrap64 (a + b)"
  using wrap64_add [of b a] by (simp add: add.commute)

lemma mem_total_upd:
  assumes "finite (dom m)"
  shows "mem_total (m(k \<mapsto> x)) = mem_total m + (x - (case m k of None \<Rightarrow> 0 | Some y \<Rightarrow> y))"
proof -
  have "mem_total (m(k \<mapsto> x)) = x + (\<Sum>j\<in>dom m - {k}. the (m j))"
    using assms by (simp add: mem_total_def sum.insert_remove cong: sum.cong_simp)
  moreover have "mem_total m = (case m k of None \<Rightarrow> 0 | Some y \<Rightarrow> y) + (\<Sum>j\<in>dom m - {k}. the (m j))"
    using assms sum.remove [OF assms, of k "\<lambda>j. the (m j)"]
    by (cases "m k") (auto simp: mem_total_def dom_def)
  ultimately show ?thesis by simp
qed

lemma mem_ok_set_mem:
  assumes "mem_ok s" "\<And>i. k = KVar i \<Longrightarrow> i < length (rt_vars s)"
  shows "mem_ok (set_mem k x s)"
  using assms by (auto simp: mem_ok_def set_mem_def mem_of_def mem_total_upd wrap64_add wrap64_add_right)

interpretation accounting: vm_cost_rel True "\<lambda>s s'. mem_ok s \<longrightarrow> mem_ok s'"
proof unfold_locales
  fix s :: "'a RunTime" and v m
  show "mem_ok s \<longrightarrow> mem_ok (set_mem (KExt k) m s)" for k
    by (blast intro: mem_ok_set_mem)
  show "mem_ok s \<longrightarrow> mem_ok (set_mem (KVar i) m s)" if "i < length (rt_vars s)" for i
    using that by (blast intro: mem_ok_set_mem)
  show "mem_ok s \<longrightarrow> mem_ok (s\<lparr>rt_vars := rt_vars s @ [v], rt_memVars := (rt_memVars s)(KVar (length (rt_vars s)) \<mapsto> m),
      rt_mem := wrap64 (rt_mem s + m)\<rparr>)"
  proof
    assume s: "mem_ok s"
    then have "rt_memVars s (KVar (length (rt_vars s))) = None"
      by (auto simp: mem_ok_def dest: domI)
    then show "mem_ok (s\<lparr>rt_vars := rt_vars s @ [v], rt_memVars := (rt_memVars s)(KVar (length (rt_vars s)) \<mapsto> m),
      rt_mem := wrap64 (rt_mem s + m)\<rparr>)"
      using s by (auto simp: mem_ok_def mem_total_upd wrap64_add less_SucI)
  qed
qed (auto simp: mem_ok_def)

text \<open>
  C2: The memory the machine believes to use is the sum of the sizes recorded for the variables of
  all blocks and for the extended variables, at every end of every program, also after errors and
  panics: no assignment, call, nested contract or early return makes \<open>rt.mem\<close> and \<open>rt.memVars\<close> disagree.
\<close>

theorem memory_accounting:
  assumes "run_block vm n b (RunInit c e h w) = Some (r, s)"
  shows "finite (dom (rt_memVars s)) \<and> rt_mem s = wrap64 (\<Sum>k\<in>dom (rt_memVars s). the (rt_memVars s k)) \<and>
    (\<forall>i. rt_memVars s (KVar i) \<noteq> None \<longrightarrow> i < length (rt_vars s))"
proof -
  have "mem_ok (RunInit c e h w)" by (simp add: mem_ok_def mem_total_def RunInit_def wrap64_def)
  then have "mem_ok s" using keepsD [OF accounting.keeps_every_program assms] by blast
  then show ?thesis by (auto simp: mem_ok_def mem_total_def)
qed


definition sum_vm :: "unit VM" where
  "sum_vm = plain_vm [0 \<mapsto> sum_block] (\<lambda>_. None)"

lemma metered_sum_vm: "metered_vm sum_vm 1"
  unfolding sum_vm_def by (rule metered_plain_vm) (auto simp: sum_block_def func_block_def split: if_splits)

theorem memory_accounting_witness:
  "\<exists>r s. run_block sum_vm 202 0 (RunInit 100 (\<lambda>_. None) heap_empty ()) = Some (r, s) \<and>
     finite (dom (rt_memVars s)) \<and> rt_mem s = wrap64 (\<Sum>k\<in>dom (rt_memVars s). the (rt_memVars s k))"
proof -
  have "rt_cost (RunInit 100 (\<lambda>_. None) heap_empty ()) = 100" by (simp add: RunInit_def)
  then obtain r s where "run_block sum_vm 202 0 (RunInit 100 (\<lambda>_. None) heap_empty ()) = Some (r, s)"
    using run_block_returns [OF metered_sum_vm, of "RunInit 100 (\<lambda>_. None) heap_empty ()" 202 0] by auto
  with memory_accounting [OF this] show ?thesis by blast
qed

section \<open>An array that contains itself\<close>

text \<open>The size of a slice whose first element is the slice itself is computed by a recursion without end.\<close>

lemma calcMem_cyclic:
  assumes "h_obj h r = Some (HArr (VArr r (Suc n) # xs))" "n \<le> length xs" "r \<noteq> 0"
  shows "calcMem k h (VArr r (Suc n)) = Inl stack_overflow"
  using assms by (induction k) (simp_all add: arr_elems_def heap_arr_def)

text \<open>The function \<open>func f \<dots> var a array; a[0] = 7; a[0] = a\<close>.\<close>

definition self_block :: Block where
  "self_block = func_block [] [] [Some TArray]
     [code_of cmdVar (OpVar (local_var 0 0)), code_of cmdPush (OpVal (VInt64 0)), code_of cmdPush (OpVal (VInt64 7)),
      code_of cmdSetIndex (OpIndex \<lparr>ii_VarOffset = 0, ii_Owner = Some 0, ii_Extend = []\<rparr>),
      code_of cmdVar (OpVar (local_var 0 0)), code_of cmdPush (OpVal (VInt64 0)), code_of cmdVar (OpVar (local_var 0 0)),
      code_of cmdSetIndex (OpIndex \<lparr>ii_VarOffset = 0, ii_Owner = Some 0, ii_Extend = []\<rparr>)]"

definition self_vm :: "nat \<Rightarrow> unit VM" where
  "self_vm k = (plain_vm [0 \<mapsto> self_block] (\<lambda>_. None))\<lparr>vm_go_stack := k\<rparr>"

text \<open>
  C34: A contract that stores an array into itself ends the node's process: however large the stack of
  the goroutine may grow (\<open>k\<close> nested calls, at least two), the computation of the size overflows it, which no
  \<open>recover\<close> of \<open>Run\<close> catches.
\<close>

theorem self_containing_array_kills_process:
  "\<exists>s. run_block (self_vm (Suc (Suc k))) 30 0 (RunInit 100 (\<lambda>_. None) heap_empty ()) = Some (Inl stack_overflow, s)"
proof -
  have "calcMem (Suc k) h (VArr (Suc 0) (Suc 0)) = Inl stack_overflow" if "h_obj h (Suc 0) = Some (HArr [VArr (Suc 0) (Suc 0)])" for h
    using that by (intro calcMem_cyclic) simp_all
  then show ?thesis
    by (simp add: self_vm_def self_block_def run_eval run_machine cong: run_congs del: RunCode.simps code_loop.simps calcMem.simps)
qed

end
