(* ===== verification/Script_Operators.thy ===== *)
theory Script_Operators
  imports Script_Memory
begin

text \<open>
  Properties of the operators of expressions: money is exact under addition, subtraction,
  multiplication and comparison, and where its division stops being exact; the comparison of a
  text that is no number.
\<close>

section \<open>Money\<close>

fun dec_exp :: "decimal \<Rightarrow> int" where
  "dec_exp (Dec v e) = e"

lemma wrap32_small: "- (2 ^ 31) \<le> x \<Longrightarrow> x < 2 ^ 31 \<Longrightarrow> wrap32 x = x"
  unfolding wrap32_def by (subst int_word_sint) simp

lemma trunc_nonneg: "0 \<le> a \<Longrightarrow> 0 < b \<Longrightarrow> trunc_div a b = a div b" "0 \<le> a \<Longrightarrow> 0 < b \<Longrightarrow> trunc_mod a b = a mod b"
  by (simp_all add: trunc_div_nonneg trunc_mod_nonneg)

text \<open>The quotient of two integral amounts, in units of \<open>10^-16\<close>, rounded half up.\<close>

lemma dec_Div_ints:
  assumes "0 \<le> a" "0 < b"
  shows "dec_Div (Dec a 0) (Dec b 0) =
    Inr (Dec (a * 10 ^ 16 div b + (if b \<le> 2 * (a * 10 ^ 16 mod b) then 1 else 0)) (- 16))"
proof -
  have r: "0 \<le> a * 10 ^ 16 mod b" "0 \<le> a * 10 ^ 16" using assms by simp_all
  show ?thesis
    using assms r by (auto simp: dec_Div_def wrap32_small trunc_nonneg Let_def sgn_if)
qed

lemma op_Div_ints:
  assumes "0 \<le> a" "0 < b"
  shows "op_Div vm h (VDec (Dec a 0)) (VDec (Dec b 0)) =
    Inr (VDec (Dec ((a * 10 ^ 16 div b + (if b \<le> 2 * (a * 10 ^ 16 mod b) then 1 else 0)) div 10 ^ 16) 0), None)"
proof -
  have "dec_Cmp (Dec b 0) dec_zero \<noteq> 0" using assms by (simp add: dec_Cmp_zero del: dec_Cmp.simps)
  then show ?thesis using dec_Div_ints [OF assms] by (simp add: op_Div_def both_dec_def del: dec_Cmp.simps)
qed

lemma scaled_div: "0 < n \<Longrightarrow> 0 < b \<Longrightarrow> (a * n div b) div n = a div (b :: int)"
  by (simp add: zdiv_zmult2_eq [symmetric])

lemma div_Suc_split: "0 < n \<Longrightarrow> (x + 1) div n = x div n + (x mod n + 1) div (n :: int)"
proof -
  assume "0 < n"
  have "(x + 1) div n = ((x mod n + 1) + n * (x div n)) div n" by (simp add: algebra_simps)
  also have "\<dots> = x div n + (x mod n + 1) div n" using \<open>0 < n\<close> by (intro div_mult_self2) simp
  finally show ?thesis .
qed

lemma carry_algebra: "q = n * k + n - 1 \<Longrightarrow> b * q + r = (b * k + m) * n \<Longrightarrow> (b - m) * n = b - (r :: int)"
  by hypsubst (simp add: algebra_simps)

text \<open>Rounding up carries over to the next integer only when the divisor is at least twice the scale.\<close>

lemma carry_bound:
  fixes a b n :: int
  assumes n: "0 < n" and b: "0 < b" and up: "b \<le> 2 * (a * n mod b)" and carry: "(a * n div b + 1) div n \<noteq> a div b"
  shows "2 * n \<le> b"
proof -
  let ?q = "a * n div b" and ?r = "a * n mod b" and ?m = "a mod b"
  have q: "?q div n = a div b" using n b by (rule scaled_div)
  have "?q mod n + 1 = n"
  proof (rule ccontr)
    assume "?q mod n + 1 \<noteq> n"
    then have "(?q mod n + 1) div n = 0" using n pos_mod_bound [OF n, of ?q] pos_mod_sign [OF n, of ?q]
      by (intro div_pos_pos_trivial) linarith+
    then show False using carry q div_Suc_split [OF n, of ?q] by simp
  qed
  moreover have "?q = n * (a div b) + ?q mod n" using q mult_div_mod_eq [of n ?q] by simp
  ultimately have q': "?q = n * (a div b) + n - 1" by linarith
  have "b * ?q + ?r = (b * (a div b) + ?m) * n" by (simp only: mult_div_mod_eq)
  then have "(b - ?m) * n = b - ?r" by (rule carry_algebra [OF q'])
  moreover have "1 * n \<le> (b - ?m) * n" using n pos_mod_bound [OF b, of a] by (intro mult_right_mono) simp_all
  ultimately show ?thesis using up by linarith
qed

text \<open>
  C32: Division of amounts of money. For divisors below \<open>2 * 10^16\<close> the result is the integral quotient, rounded
  down as the code intends by \<open>Floor\<close>. For every divisor from \<open>2 * 10^16\<close> on it is not: \<open>(b - 1) / b\<close> is 1, because the
  quotient is first rounded to sixteen digits.
\<close>

theorem money_division:
  "(\<forall>a b. 0 \<le> a \<and> 0 < b \<and> b < 2 * 10 ^ 16 \<longrightarrow>
      op_Div vm h (VDec (Dec a 0)) (VDec (Dec b 0)) = Inr (VDec (Dec (a div b) 0), None)) \<and>
   (\<forall>b. 2 * 10 ^ 16 \<le> b \<longrightarrow> op_Div vm h (VDec (Dec (b - 1) 0)) (VDec (Dec b 0)) = Inr (VDec (Dec 1 0), None))"
proof (intro conjI allI impI)
  fix a b :: int assume *: "0 \<le> a \<and> 0 < b \<and> b < 2 * 10 ^ 16"
  then have "(a * 10 ^ 16 div b + (if b \<le> 2 * (a * 10 ^ 16 mod b) then 1 else 0)) div 10 ^ 16 = a div b"
    using carry_bound [of "10 ^ 16" b a] scaled_div [of "10 ^ 16" b a] by auto
  then show "op_Div vm h (VDec (Dec a 0)) (VDec (Dec b 0)) = Inr (VDec (Dec (a div b) 0), None)"
    using * by (simp add: op_Div_ints)
next
  fix b :: int assume b: "2 * 10 ^ 16 \<le> b"
  have split: "(b - 1) * 10 ^ 16 = b * (10 ^ 16 - 1) + (b - 10 ^ 16)" by simp
  have "(b - 1) * 10 ^ 16 div b = 10 ^ 16 - 1" "(b - 1) * 10 ^ 16 mod b = b - 10 ^ 16"
    using b by (intro int_div_pos_eq [OF split] int_mod_pos_eq [OF split]; simp)+
  then show "op_Div vm h (VDec (Dec (b - 1) 0)) (VDec (Dec b 0)) = Inr (VDec (Dec 1 0), None)"
    using b by (simp add: op_Div_ints)
qed

theorem money_division_witness:
  "op_Div sum_vm heap_empty (VDec (Dec 7 0)) (VDec (Dec 2 0)) = Inr (VDec (Dec 3 0), None) \<and>
   op_Div sum_vm heap_empty (VDec (Dec (3 * 10 ^ 16 - 1) 0)) (VDec (Dec (3 * 10 ^ 16) 0)) = Inr (VDec (Dec 1 0), None)"
  using conjunct1 [OF money_division, rule_format, of 7 2 sum_vm heap_empty]
    conjunct2 [OF money_division, rule_format, of "3 * 10 ^ 16" sum_vm heap_empty] by simp

lemma op_Mul_dec:
  "op_Mul vm h (VDec x) (VDec y) = (case dec_Mul x y of Inl e \<Rightarrow> Inl e | Inr z \<Rightarrow> Inr (VDec z, None))"
  by (simp add: op_Mul_def arith_op_def both_dec_def split: sum.split)

text \<open>
  C31: Money is exact under the other operators: the result of an addition or a subtraction denotes the sum or difference of the
  rational numbers the operands denote, whatever their exponents, and the comparisons are those of the numbers. A
  multiplication returns exactly the product whenever the sum of the exponents fits into 32 bits, and panics
  exactly when it does not.
\<close>

theorem money_exact:
  "(\<exists>z. op_Add vm h (VDec x) (VDec y) = Inr (VDec z, None) \<and> dec_rat z = dec_rat x + dec_rat y) \<and>
   (\<exists>z. op_Sub vm h (VDec x) (VDec y) = Inr (VDec z, None) \<and> dec_rat z = dec_rat x - dec_rat y) \<and>
   (if - (2 ^ 31) \<le> dec_exp x + dec_exp y \<and> dec_exp x + dec_exp y < 2 ^ 31
    then \<exists>z. op_Mul vm h (VDec x) (VDec y) = Inr (VDec z, None) \<and> dec_rat z = dec_rat x * dec_rat y
    else op_Mul vm h (VDec x) (VDec y) = Inl (Panic ''exponent overflows an int32!'')) \<and>
   op_Equal vm h (VDec x) (VDec y) = Inr (VBool (dec_rat x = dec_rat y), None) \<and>
   op_Less vm h (VDec x) (VDec y) = Inr (VBool (dec_rat x < dec_rat y), None) \<and>
   op_Great vm h (VDec x) (VDec y) = Inr (VBool (dec_rat x > dec_rat y), None)"
proof (intro conjI)
  show "if - (2 ^ 31) \<le> dec_exp x + dec_exp y \<and> dec_exp x + dec_exp y < 2 ^ 31
    then \<exists>z. op_Mul vm h (VDec x) (VDec y) = Inr (VDec z, None) \<and> dec_rat z = dec_rat x * dec_rat y
    else op_Mul vm h (VDec x) (VDec y) = Inl (Panic ''exponent overflows an int32!'')"
  proof (cases "- (2 ^ 31) \<le> dec_exp x + dec_exp y \<and> dec_exp x + dec_exp y < 2 ^ 31")
    case True
    then obtain z where z: "dec_Mul x y = Inr z" by (cases x; cases y) (auto simp: max_int32_def min_int32_def)
    show ?thesis using True z dec_Mul_rat [OF z] by (simp add: op_Mul_dec)
  next
    case False
    then have "dec_Mul x y = Inl (Panic ''exponent overflows an int32!'')"
      by (cases x; cases y) (auto simp: max_int32_def min_int32_def)
    with False show ?thesis by (simp only: op_Mul_dec sum.case if_False)
  qed
qed (auto simp: op_Add_def op_Sub_def op_Equal_def op_Less_def op_Great_def arith_op_def both_dec_def cmp_op_def cmp_dec_def
    cmp_bool_def ValueToDecimal_def dec_Add_rat dec_Sub_rat dec_Cmp_rat)

section \<open>Comparison of a text that is no number\<close>

text \<open>
  The comparison of a text that is no number with an integer is an error for \<open>==\<close>, \<open><\<close> and \<open>>\<close>, but their
  negations \<open>!=\<close>, \<open>>=\<close> and \<open><=\<close> panic: the conversion error leaves the result nil and \<open>!bin.(bool)\<close> does not check it.
\<close>

theorem negated_comparison_panics:
  assumes "t \<noteq> []" "ParseInt t = (i, Some e)"
    and "(c, n) \<in> {(cmdEqual, cmdNotEq), (cmdLess, cmdNotLess), (cmdGreat, cmdNotGreat)}"
  shows "\<exists>f g msg. binary_op c = Some f \<and> binary_op n = Some g \<and>
    f vm h (VString t) (VInt64 k) = Inr (VNil, Some msg) \<and> g vm h (VString t) (VInt64 k) = Inl bad_assert"
  using assms
  by (auto simp: binary_op_def cmd_consts op_Equal_def op_Less_def op_Great_def cmp_op_def with_int_def ValueToInt_def negate_bin_def)

theorem negated_comparison_panics_witness:
  "\<exists>f g msg. binary_op cmdEqual = Some f \<and> binary_op cmdNotEq = Some g \<and>
    f sum_vm heap_empty (VString ''abc'') (VInt64 5) = Inr (VNil, Some msg) \<and>
    g sum_vm heap_empty (VString ''abc'') (VInt64 5) = Inl bad_assert"
proof -
  have "ParseInt ''abc'' = (0, Some ErrSyntax)" 
    by (simp add: ParseInt_def ParseUint_def is_digit_def)
  then show ?thesis using negated_comparison_panics [of "''abc''" 0 ErrSyntax cmdEqual cmdNotEq] by simp
qed

end
