(* ===== verification/Script_Expr.thy ===== *)
theory Script_Expr
  imports Script_VM
begin

text \<open>
  The compilation of expressions, \<open>compileEval\<close> of \<open>packages/script/compile.go\<close>, with the initializers of maps
  and arrays and the lookup of names. Blocks under construction live in a store and are referred
  to by their numbers, as compiled blocks are; the stack of open blocks has its top at the head of
  a list.
\<close>

section \<open>Lexemes, operators, blocks under construction\<close>

definition isLPar :: "32 word" where "isLPar = 0x2801"
definition isRPar :: "32 word" where "isRPar = 0x2901"
definition isComma :: "32 word" where "isComma = 0x2c01"
definition isDot :: "32 word" where "isDot = 0x2e01"
definition isColon :: "32 word" where "isColon = 0x3a01"
definition isEq :: "32 word" where "isEq = 0x3d01"
definition isLCurly :: "32 word" where "isLCurly = 0x7b01"
definition isRCurly :: "32 word" where "isRCurly = 0x7d01"
definition isLBrack :: "32 word" where "isLBrack = 0x5b01"
definition isRBrack :: "32 word" where "isRBrack = 0x5d01"

lemmas sys_consts = isLPar_def isRPar_def isComma_def isDot_def isColon_def isEq_def isLCurly_def isRCurly_def
  isLBrack_def isRBrack_def

definition isNot :: "32 word" where "isNot = 0x0021"
definition isAsterisk :: "32 word" where "isAsterisk = 0x002a"
definition isPlus :: "32 word" where "isPlus = 0x002b"
definition isMinus :: "32 word" where "isMinus = 0x002d"
definition isSign :: "32 word" where "isSign = 0x012d"
definition isSolidus :: "32 word" where "isSolidus = 0x002f"
definition isLess :: "32 word" where "isLess = 0x003c"
definition isGreat :: "32 word" where "isGreat = 0x003e"
definition isNotEq :: "32 word" where "isNotEq = 0x213d"
definition isAnd :: "32 word" where "isAnd = 0x2626"
definition isLessEq :: "32 word" where "isLessEq = 0x3c3d"
definition isEqEq :: "32 word" where "isEqEq = 0x3d3d"
definition isGrEq :: "32 word" where "isGrEq = 0x3e3d"
definition isOr :: "32 word" where "isOr = 0x7c7c"

lemmas oper_consts = isNot_def isAsterisk_def isPlus_def isMinus_def isSign_def isSolidus_def isLess_def isGreat_def
  isNotEq_def isAnd_def isLessEq_def isEqEq_def isGrEq_def isOr_def

definition cmdSys :: "16 word" where "cmdSys = 0xff"
definition cmdUnary :: "16 word" where "cmdUnary = 50"

text \<open>The operators with their commands and priorities.\<close>

definition opers :: "(32 word \<times> 16 word \<times> 16 word) list" where
  "opers =
     [(isOr, cmdOr, 10), (isAnd, cmdAnd, 15), (isEqEq, cmdEqual, 20), (isNotEq, cmdNotEq, 20),
      (isLess, cmdLess, 22), (isGrEq, cmdNotLess, 22), (isGreat, cmdGreat, 22), (isLessEq, cmdNotGreat, 22),
      (isPlus, cmdAdd, 25), (isMinus, cmdSub, 25), (isAsterisk, cmdMul, 30), (isSolidus, cmdDiv, 30),
      (isSign, cmdSign, cmdUnary), (isNot, cmdNot, cmdUnary), (isLPar, cmdSys, 0xff), (isRPar, cmdSys, 0)]"

text \<open>The store of blocks; the next number is free.\<close>

record cstore =
  cs_blocks :: "blockid \<Rightarrow> Block option"
  cs_next :: blockid

text \<open>
  What the compiler uses besides the source: the virtual machine with its objects, the flag \<open>vm.Extern\<close>, the
  text of a value under \<open>%v\<close>, and the order in which Go visits the keys of a map.
\<close>

record 'w cenv =
  ce_vm :: "'w VM"
  ce_Extern :: bool
  ce_fmt :: "lexval \<Rightarrow> string"
  ce_keys :: "string list \<Rightarrow> string list"

definition cs_get :: "cstore \<Rightarrow> blockid \<Rightarrow> Block res" where
  "cs_get st b = (case cs_blocks st b of None \<Rightarrow> Inl nil_deref | Some blk \<Rightarrow> Inr blk)"

definition cs_put :: "blockid \<Rightarrow> Block \<Rightarrow> cstore \<Rightarrow> cstore" where
  "cs_put b blk st = st\<lparr>cs_blocks := (cs_blocks st)(b \<mapsto> blk)\<rparr>"

definition cs_upd :: "blockid \<Rightarrow> (Block \<Rightarrow> Block) \<Rightarrow> cstore \<Rightarrow> cstore res" where
  "cs_upd b f st = bind_res (cs_get st b) (\<lambda>blk. Inr (cs_put b (f blk) st))"

text \<open>\<open>(*buf)[len(*buf)-1]\<close> and the like.\<close>

definition buf_nth :: "blockid list \<Rightarrow> nat \<Rightarrow> blockid res" where
  "buf_nth buf k = (if k < length buf then Inr (buf ! k) else Inl out_of_range)"

definition buf_root :: "blockid list \<Rightarrow> blockid res" where
  "buf_root buf = (if buf = [] then Inl out_of_range else Inr (last buf))"

definition lex_str :: "Lexem \<Rightarrow> string res" where
  "lex_str l = (case lx_Value l of LStr s \<Rightarrow> Inr s | _ \<Rightarrow> Inl bad_assert)"

definition lex_uint :: "Lexem \<Rightarrow> 32 word res" where
  "lex_uint l = (case lx_Value l of LUint u \<Rightarrow> Inr u | _ \<Rightarrow> Inl bad_assert)"

text \<open>The float with the given bits.\<close>

definition f64_of_bits :: "64 word \<Rightarrow> float64" where
  "f64_of_bits w =
     (let s = bit w 63; e = int (unat (take_bit 11 (drop_bit 52 w))); f = int (unat (take_bit 52 w)) in
      if e = 2047 then (if f = 0 then FInf s else FNaN)
      else if e = 0 then FFin s (of_int f * pow2 (- 1074))
      else FFin s (of_int (2 ^ 52 + f) * pow2 (e - 1075)))"

text \<open>The value of a lexeme as a value of the machine.\<close>

definition val_of_lex :: "lexval \<Rightarrow> val" where
  "val_of_lex v =
     (case v of
        LNil \<Rightarrow> VNil
      | LUint u \<Rightarrow> VHost ''uint32'' (unat u)
      | LConst i \<Rightarrow> VInt (i64 i)
      | LInt i \<Rightarrow> VInt64 i
      | LFloat w \<Rightarrow> VFloat (f64_of_bits w)
      | LStr s \<Rightarrow> VString s
      | LBool b \<Rightarrow> VBool b
      | LType t \<Rightarrow> VHost ''reflect.Type'' 0)"

section \<open>Names\<close>

fun findVar :: "cstore \<Rightarrow> string \<Rightarrow> blockid list \<Rightarrow> (ObjInfo \<times> blockid) option res" where
  "findVar st name [] = Inr None"
| "findVar st name (b # bs) =
     bind_res (cs_get st b) (\<lambda>blk.
       case map_of (b_Objects blk) name of
         Some ob \<Rightarrow> Inr (Some (ob, b))
       | None \<Rightarrow> findVar st name bs)"

definition root_state :: "cstore \<Rightarrow> blockid list \<Rightarrow> 32 word res" where
  "root_state st buf =
     bind_res (buf_root buf) (\<lambda>r.
     bind_res (cs_get st r) (\<lambda>blk.
       case b_Info blk of InfoState s \<Rightarrow> Inr s | _ \<Rightarrow> Inl bad_assert))"

definition findObj :: "'w cenv \<Rightarrow> cstore \<Rightarrow> string \<Rightarrow> blockid list \<Rightarrow> (ObjInfo \<times> blockid option) option res" where
  "findObj env st name buf =
     bind_res (root_state st buf) (\<lambda>state.
     let sname = StateName state name in
     bind_res (findVar st name buf) (\<lambda>r.
       case r of
         Some (ob, b) \<Rightarrow> Inr (Some (ob, Some b))
       | None \<Rightarrow>
           bind_res (findVar st sname buf) (\<lambda>r.
             case r of
               Some (ob, b) \<Rightarrow> Inr (Some (ob, Some b))
             | None \<Rightarrow>
                 bind_res (getObjByName (ce_vm env) name) (\<lambda>r.
                   case r of
                     Some ob \<Rightarrow> Inr (Some (ob, None))
                   | None \<Rightarrow>
                       bind_res (getObjByName (ce_vm env) sname) (\<lambda>r.
                         Inr (map_option (\<lambda>ob. (ob, None)) r))))))"

section \<open>Initializers of maps and arrays\<close>

definition errUnclosedArray :: string where "errUnclosedArray = ''unclosed array initialization''"
definition errUnclosedMap :: string where "errUnclosedMap = ''unclosed map initialization''"
definition errUnexpKey :: string where "errUnexpKey = ''unexpected lexem; expecting string key''"
definition errUnexpColon :: string where "errUnexpColon = ''unexpected lexem; expecting colon''"
definition errUnexpComma :: string where "errUnexpComma = ''unexpected lexem; expecting comma''"
definition errUnexpValue :: string where
  "errUnexpValue = ''unexpected lexem; expecting string, int value or variable''"
definition errRecursion :: string where "errRecursion = ''The contract can't call itself recursively''"
definition errCondWrite :: string where
  "errCondWrite = char_of (39 :: nat) # ''conditions' cannot call contracts or functions which can modify the blockchain database.''"

datatype must = mustKey | mustColon | mustComma | mustValue

definition lexem_kind :: "Lexem \<Rightarrow> 32 word" where
  "lexem_kind l = lx_Type l AND 0xff"

text \<open>The name of a keyword with the given number, which the lexeme holds as an \<open>uint32\<close> or as an \<open>int\<close>.\<close>

definition keyword_name :: "lexval \<Rightarrow> (string \<times> keyword) option" where
  "keyword_name v =
     List.find (\<lambda>(n, k). case v of LUint u \<Rightarrow> u = key_id k | LConst i \<Rightarrow> i = uint (key_id k) | _ \<Rightarrow> False) keyword_map"


text \<open>Every pass of the loops below moves forward in the lexemes; running out of fuel is excluded later.\<close>

definition no_fuel :: go_exc where
  "no_fuel = Exit ''out of fuel''"

definition next_is :: "Lexem list \<Rightarrow> nat \<Rightarrow> 32 word \<Rightarrow> bool" where
  "next_is lx i t \<longleftrightarrow> i < length lx \<and> lx_Type (lx ! i) = t"

type_synonym init_value = "nat \<Rightarrow> (mapItem \<times> nat) res"
type_synonym init_map = "nat \<Rightarrow> must \<Rightarrow> string \<Rightarrow> (string \<times> mapItem) list \<Rightarrow> ((string \<times> mapItem) list \<times> nat) res"
type_synonym init_array = "nat \<Rightarrow> must \<Rightarrow> mapItem list \<Rightarrow> (mapItem list \<times> nat) res"

definition init_value ::
  "'w cenv \<Rightarrow> cstore \<Rightarrow> blockid list \<Rightarrow> Lexem list \<Rightarrow> init_map \<Rightarrow> init_array \<Rightarrow> init_value" where
  "init_value env st buf lx mp arr i =
     bind_res (go_nth lx (int i)) (\<lambda>l.
       let t = lx_Type l in
       if t = isLBrack then bind_res (arr (Suc i) mustValue []) (\<lambda>(xs, j). Inr (MapArray xs, j))
       else if t = isLCurly then bind_res (mp (Suc i) mustKey [] []) (\<lambda>(ps, j). Inr (MapMap ps, j))
       else if t = lexExtend then bind_res (lex_str l) (\<lambda>s. Inr (MapExtend s, i))
       else if t = lexIdent then
         bind_res (lex_str l) (\<lambda>s.
         bind_res (findObj env st s buf) (\<lambda>r.
           case r of
             None \<Rightarrow> Inl (Error (''unknown identifier '' @ s))
           | Some (ob, b) \<Rightarrow> Inr (MapVar \<lparr>vi_Obj = ob, vi_Owner = b\<rparr>, i)))
       else if t = lexNumber \<or> t = lexString then Inr (MapConst (val_of_lex (lx_Value l)), i)
       else Inl (Error errUnexpValue))"

text \<open>A key of a map: a name, a text or a keyword; \<open>func\<close> in front of \<open>action\<close> and \<open>conditions\<close> is skipped.\<close>

definition init_key :: "Lexem list \<Rightarrow> nat \<Rightarrow> string \<Rightarrow> (must \<times> string) res" where
  "init_key lx i key =
     (let l = lx ! i in
      if lexem_kind l = lexIdent \<or> lexem_kind l = lexString then bind_res (lex_str l) (\<lambda>s. Inr (mustColon, s))
      else if lexem_kind l = lexKeyword then
        (case keyword_name (lx_Value l) of
           None \<Rightarrow> Inr (mustColon, key)
         | Some (name, k) \<Rightarrow>
             Inr (if k = keyFunc \<and> Suc i < length lx \<and> lexem_kind (lx ! Suc i) = lexIdent then mustKey else mustColon, name))
      else Inl (Error errUnexpKey))"

definition init_map :: "Lexem list \<Rightarrow> init_value \<Rightarrow> init_map \<Rightarrow> init_map" where
  "init_map lx val mp i state key acc =
     (if i \<ge> length lx then Inl (Error errUnclosedMap)
      else
        let t = lx_Type (lx ! i) in
        if t = lexNewLine then mp (Suc i) state key acc
        else if t = isRCurly then Inr (acc, i)
        else
          (case state of
             mustComma \<Rightarrow> if t \<noteq> isComma then Inl (Error errUnexpComma) else mp (Suc i) mustKey key acc
           | mustColon \<Rightarrow> if t \<noteq> isColon then Inl (Error errUnexpColon) else mp (Suc i) mustValue key acc
           | mustKey \<Rightarrow> bind_res (init_key lx i key) (\<lambda>(state, key). mp (Suc i) state key acc)
           | mustValue \<Rightarrow> bind_res (val i) (\<lambda>(v, j). mp (Suc j) mustComma key (pairs_set key v acc))))"

definition init_array :: "Lexem list \<Rightarrow> init_value \<Rightarrow> init_array \<Rightarrow> init_array" where
  "init_array lx val arr i state acc =
     (if i \<ge> length lx then Inl (Error errUnclosedArray)
      else
        let t = lx_Type (lx ! i) in
        if t = lexNewLine then arr (Suc i) state acc
        else if t = isRBrack then Inr (acc, i)
        else if state = mustComma then
          (if t \<noteq> isComma then Inl (Error errUnexpComma) else arr (Suc i) mustValue acc)
        else bind_res (val i) (\<lambda>(v, j). arr (Suc j) mustComma (acc @ [v])))"

fun getInitValue :: "'w cenv \<Rightarrow> cstore \<Rightarrow> blockid list \<Rightarrow> Lexem list \<Rightarrow> nat \<Rightarrow> init_value"
  and getInitMap :: "'w cenv \<Rightarrow> cstore \<Rightarrow> blockid list \<Rightarrow> Lexem list \<Rightarrow> nat \<Rightarrow> init_map"
  and getInitArray :: "'w cenv \<Rightarrow> cstore \<Rightarrow> blockid list \<Rightarrow> Lexem list \<Rightarrow> nat \<Rightarrow> init_array" where
  "getInitValue env st buf lx 0 = (\<lambda>i. Inl no_fuel)"
| "getInitValue env st buf lx (Suc n) =
     init_value env st buf lx (getInitMap env st buf lx n) (getInitArray env st buf lx n)"
| "getInitMap env st buf lx 0 = (\<lambda>i state key acc. Inl no_fuel)"
| "getInitMap env st buf lx (Suc n) = init_map lx (getInitValue env st buf lx n) (getInitMap env st buf lx n)"
| "getInitArray env st buf lx 0 = (\<lambda>i state acc. Inl no_fuel)"
| "getInitArray env st buf lx (Suc n) = init_array lx (getInitValue env st buf lx n) (getInitArray env st buf lx n)"

section \<open>The loop of compileEval\<close>

text \<open>
  \<open>ev_buffer\<close> and \<open>ev_parcount\<close> have their top at the head; \<open>ev_code\<close> is \<open>bytecode\<close>. A pass of the loop ends with \<open>Next\<close>, where \<open>i\<close> is
  counted up, or with \<open>Stop\<close>.
\<close>

record evst =
  ev_i :: nat
  ev_buffer :: "ByteCode list"
  ev_code :: "ByteCode list"
  ev_parcount :: "int list"
  ev_index :: "IndexInfo option"
  ev_noMap :: bool
  ev_store :: cstore

datatype estep = Next evst | Stop int evst

definition bcode :: "16 word \<Rightarrow> operand \<Rightarrow> ByteCode" where
  "bcode c x = \<lparr>bc_Cmd = c, bc_Value = x\<rparr>"

definition sys_mark :: ByteCode where
  "sys_mark = bcode cmdSys (OpPrior 0xff)"

definition emit :: "ByteCode \<Rightarrow> evst \<Rightarrow> evst" where
  "emit c e = e\<lparr>ev_code := ev_code e @ [c]\<rparr>"

definition buffer_push :: "ByteCode \<Rightarrow> evst \<Rightarrow> evst" where
  "buffer_push c e = e\<lparr>ev_buffer := c # ev_buffer e\<rparr>"

text \<open>\<open>prev.Value.(uint16)\<close>\<close>

definition prior_of :: "ByteCode \<Rightarrow> 16 word res" where
  "prior_of c = (case bc_Value c of OpPrior p \<Rightarrow> Inr p | _ \<Rightarrow> Inl bad_assert)"

text \<open>A comma moves the operators up to the last open bracket to the code.\<close>

fun comma_pop :: "ByteCode list \<Rightarrow> ByteCode list \<Rightarrow> (ByteCode list \<times> ByteCode list) res" where
  "comma_pop [] out = Inr ([], out)"
| "comma_pop (prev # buf) out =
     (if bc_Cmd prev = cmdSys then
        bind_res (prior_of prev) (\<lambda>p.
          if p = 0xff then Inr (prev # buf, out) else comma_pop buf (out @ [prev]))
      else comma_pop buf (out @ [prev]))"

text \<open>
  A closing bracket moves the operators behind the last open bracket to the code and drops the
  bracket; \<open>None\<close> when there is no open bracket.
\<close>

fun close_pop :: "ByteCode list \<Rightarrow> ByteCode list \<Rightarrow> (ByteCode list \<times> ByteCode list) option res" where
  "close_pop [] out = Inr None"
| "close_pop (prev # buf) out =
     bind_res (prior_of prev) (\<lambda>p. if p = 0xff then Inr (Some (buf, out)) else close_pop buf (out @ [prev]))"

text \<open>The unary operators on top of the buffer, in the order in which they were read, and the rest.\<close>

fun take_unary :: "ByteCode list \<Rightarrow> ByteCode list \<Rightarrow> (ByteCode list \<times> ByteCode list) res" where
  "take_unary us [] = Inr (us, [])"
| "take_unary us (c # buf) =
     bind_res (prior_of c) (\<lambda>p. if p = cmdUnary then take_unary (c # us) buf else Inr (us, c # buf))"

fun push_oper :: "nat \<Rightarrow> ByteCode \<Rightarrow> 16 word \<Rightarrow> ByteCode list \<Rightarrow> ByteCode list \<Rightarrow> (ByteCode list \<times> ByteCode list) res" where
  "push_oper 0 op prio buf out = Inl no_fuel"
| "push_oper (Suc n) op prio buf out =
     (case buf of
        [] \<Rightarrow> Inr ([op], out)
      | prev # rest \<Rightarrow>
          bind_res (prior_of prev) (\<lambda>p.
            if p \<ge> prio \<and> prio \<noteq> cmdUnary \<and> bc_Cmd prev \<noteq> cmdSys then
              if p = cmdUnary then
                bind_res (take_unary [prev] rest) (\<lambda>(us, rest). push_oper n op prio rest (out @ us))
              else push_oper n op prio rest (out @ [prev])
            else Inr (op # buf, out)))"

definition operand_types :: "32 word list" where
  "operand_types = [lexNumber, lexIdent, lexExtend, lexString, isRCurly, isRBrack, isRPar]"

definition eval_oper :: "Lexem list \<Rightarrow> Lexem \<Rightarrow> evst \<Rightarrow> evst res" where
  "eval_oper lx l e =
     bind_res (lex_uint l) (\<lambda>u.
       case map_of opers u of
         None \<Rightarrow> Inl (Error (''unknown operator '' @ show_nat (unat u)))
       | Some (c, prio) \<Rightarrow>
           let i = ev_i e;
               unary = (c = cmdSub \<and> (i = 0 \<or> lx_Type (lx ! (i - 1)) \<notin> set operand_types));
               (c, prio) = (if unary then (cmdSign, cmdUnary) else (c, prio))
           in
           bind_res (push_oper (Suc (length (ev_buffer e))) (bcode c (OpPrior prio)) prio (ev_buffer e) (ev_code e)) (\<lambda>(buf, out).
             Inr (e\<lparr>ev_buffer := buf, ev_code := out\<rparr>)))"


text \<open>The commands that a call writes and whether the called function may change the database.\<close>

definition func_of :: "cstore \<Rightarrow> ObjInfo \<Rightarrow> FuncInfo res" where
  "func_of st ob = bind_res (obj_block ob) (\<lambda>b. bind_res (cs_get st b) func_info)"

definition can_write :: "cstore \<Rightarrow> ObjInfo \<Rightarrow> bool res" where
  "can_write st ob =
     (if oi_Type ob = ObjFunc then bind_res (func_of st ob) (\<lambda>f. Inr (fi_CanWrite f))
      else if oi_Type ob = ObjExtFunc then bind_res (obj_ext ob) (\<lambda>f. Inr (ef_CanWrite f))
      else Inr False)"

definition block_writable :: "Block \<Rightarrow> Block res" where
  "block_writable blk =
     (if b_Type blk = ObjFunc then
        bind_res (func_info blk) (\<lambda>f. Inr (blk\<lparr>b_Info := InfoFunc (f\<lparr>fi_CanWrite := True\<rparr>)\<rparr>))
      else if b_Type blk = ObjContract then
        bind_res (contract_info blk) (\<lambda>c. Inr (blk\<lparr>b_Info := InfoContract (c\<lparr>ci_CanWrite := True\<rparr>)\<rparr>))
      else Inr blk)"

fun setWritable :: "blockid list \<Rightarrow> cstore \<Rightarrow> cstore res" where
  "setWritable [] st = Inr st"
| "setWritable (b # bs) st =
     bind_res (cs_get st b) (\<lambda>blk. bind_res (block_writable blk) (\<lambda>blk. setWritable bs (cs_put b blk st)))"

definition no_pair :: "Lexem \<Rightarrow> 'a res" where
  "no_pair l = bind_res (lex_str l) (\<lambda>_. Inl (Error ''there is not pair''))"

definition pop_count :: "evst \<Rightarrow> (int \<times> evst) res" where
  "pop_count e = (case ev_parcount e of [] \<Rightarrow> Inl out_of_range | c # cs \<Rightarrow> Inr (c, e\<lparr>ev_parcount := cs\<rparr>))"

definition buffer_top :: "evst \<Rightarrow> ByteCode res" where
  "buffer_top e = (case ev_buffer e of [] \<Rightarrow> Inl out_of_range | c # _ \<Rightarrow> Inr c)"

text \<open>\<open>f(\<dots>).name(\<dots>)\<close>: the end of the parameters of a tail.\<close>

definition close_tail :: "evst \<Rightarrow> evst res" where
  "close_tail e =
     bind_res (buffer_top e) (\<lambda>prev.
       if bc_Cmd prev = cmdFuncName then
         (case bc_Value prev of
            OpFuncName name _ \<Rightarrow>
              bind_res (pop_count e) (\<lambda>(c, e).
                Inr (emit (bcode cmdFuncName (OpFuncName name (nat c))) (e\<lparr>ev_buffer := tl (ev_buffer e)\<rparr>)))
          | _ \<Rightarrow> Inl bad_assert)
       else Inr e)"

definition wrong_params :: "ExtFuncInfo \<Rightarrow> int \<Rightarrow> string option" where
  "wrong_params f cnt =
     (let want = int (length (ef_Params f)) - int (count_auto f) in
      if cnt \<noteq> want \<and> (\<not> ef_Variadic f \<or> cnt < want)
      then Some (''function '' @ ef_Name f @ '' must have '' @ show_int want @ '' parameters'') else None)"

text \<open>The command of a call is written, and a call chained to it by a dot is begun.\<close>

definition finish_call :: "Lexem list \<Rightarrow> ByteCode \<Rightarrow> ObjInfo \<Rightarrow> ByteCode option \<Rightarrow> evst \<Rightarrow> evst res" where
  "finish_call lx prev ob tail e =
     bind_res (pop_count e) (\<lambda>(cnt, e).
     bind_res (if oi_Type ob = ObjExtFunc then bind_res (obj_ext ob) (\<lambda>f. Inr (wrong_params f cnt)) else Inr None) (\<lambda>err.
       case err of
         Some m \<Rightarrow> Inl (Error m)
       | None \<Rightarrow>
           let e = (if bc_Cmd prev = cmdCallVari then emit (bcode cmdPush (OpVal (VInt (i64 cnt)))) e else e);
               e = emit prev (e\<lparr>ev_buffer := tl (ev_buffer e)\<rparr>)
           in Inr (case tail of
                     None \<Rightarrow> e
                   | Some t \<Rightarrow> (buffer_push t e)\<lparr>ev_parcount := 1 # ev_parcount e, ev_i := ev_i e + 2\<rparr>)))"

text \<open>The name behind the dot: a tail of the function, or another function that is called with the result.\<close>

definition dot_name :: "'w cenv \<Rightarrow> blockid list \<Rightarrow> Lexem list \<Rightarrow> FuncInfo \<Rightarrow> evst \<Rightarrow> (string \<times> ByteCode option) res" where
  "dot_name env buf lx f e =
     (let i = ev_i e in
      if lx_Type (lx ! (i + 2)) \<noteq> lexIdent then Inl (Error ''must be the name of the tail'')
      else
        bind_res (lex_str (lx ! (i + 2))) (\<lambda>name.
          if map_of (case fi_Names f of None \<Rightarrow> [] | Some ns \<Rightarrow> ns) name \<noteq> None then Inr (name, None)
          else
            bind_res
              (if i + 5 < length lx \<and> lx_Type (lx ! (i + 3)) = isLPar then
                 bind_res (findObj env (ev_store e) name buf) (\<lambda>r.
                   case r of
                     None \<Rightarrow> Inl nil_deref
                   | Some (ob, _) \<Rightarrow>
                       Inr (if oi_Type ob = ObjFunc \<or> oi_Type ob = ObjExtFunc then Some (bcode cmdCall (OpObj ob)) else None))
               else Inr None) (\<lambda>tail.
              if tail = None then Inl (Error (''unknown function tail '' @ name)) else Inr (name, tail))))"

definition begin_tail :: "Lexem list \<Rightarrow> string \<Rightarrow> evst \<Rightarrow> evst" where
  "begin_tail lx name e =
     (buffer_push (bcode cmdFuncName (OpFuncName name 0)) e)
       \<lparr>ev_parcount := (if lx_Type (lx ! (ev_i e + 3)) \<noteq> isRPar then 1 else 0) # ev_parcount e, ev_i := ev_i e + 2\<rparr>"

definition close_call :: "'w cenv \<Rightarrow> blockid list \<Rightarrow> Lexem list \<Rightarrow> evst \<Rightarrow> evst res" where
  "close_call env buf lx e =
     bind_res (buffer_top e) (\<lambda>prev.
       if bc_Cmd prev = cmdCall \<or> bc_Cmd prev = cmdCallVari then
         (case bc_Value prev of
            OpObj ob \<Rightarrow>
              bind_res (can_write (ev_store e) ob) (\<lambda>w.
              bind_res (if w then setWritable buf (ev_store e) else Inr (ev_store e)) (\<lambda>st.
              let e = e\<lparr>ev_store := st\<rparr> in
              if oi_Type ob = ObjFunc then
                bind_res (func_of st ob) (\<lambda>f.
                  if fi_Names f = None then finish_call lx prev ob None e
                  else
                    let e = (if ev_code e = [] \<or> bc_Cmd (last (ev_code e)) \<noteq> cmdFuncName
                             then emit (bcode cmdPush (OpVal VNil)) e else e);
                        i = ev_i e
                    in
                    if i + 4 < length lx \<and> lx_Type (lx ! (i + 1)) = isDot then
                      bind_res (dot_name env buf lx f e) (\<lambda>(name, tail).
                        if tail = None then Inr (begin_tail lx name e) else finish_call lx prev ob tail e)
                    else finish_call lx prev ob None e)
              else finish_call lx prev ob None e))
          | _ \<Rightarrow> Inl bad_assert)
       else Inr e)"

definition eval_RPar :: "'w cenv \<Rightarrow> blockid list \<Rightarrow> Lexem list \<Rightarrow> Lexem \<Rightarrow> evst \<Rightarrow> evst res" where
  "eval_RPar env buf lx l e =
     bind_res (close_pop (ev_buffer e) (ev_code e)) (\<lambda>r.
       case r of
         None \<Rightarrow> no_pair l
       | Some (b, out) \<Rightarrow>
           let e = e\<lparr>ev_buffer := b, ev_code := out, ev_noMap := True\<rparr> in
           if b = [] then Inr e else bind_res (close_tail e) (close_call env buf lx))"

definition eval_RBrack :: "Lexem list \<Rightarrow> Lexem \<Rightarrow> evst \<Rightarrow> evst res" where
  "eval_RBrack lx l e =
     bind_res (close_pop (ev_buffer e) (ev_code e)) (\<lambda>r.
       case r of
         None \<Rightarrow> no_pair l
       | Some (b, out) \<Rightarrow>
           let e = e\<lparr>ev_buffer := b, ev_code := out, ev_noMap := True\<rparr> in
           (case b of
              prev # b' \<Rightarrow>
                if bc_Cmd prev = cmdIndex then
                  let e = e\<lparr>ev_buffer := b'\<rparr> in
                  if next_is lx (Suc (ev_i e)) isEq then
                    (case bc_Value prev of
                       OpIndex info \<Rightarrow> Inr (e\<lparr>ev_i := Suc (ev_i e), ev_index := Some info, ev_noMap := False\<rparr>)
                     | _ \<Rightarrow> Inl bad_assert)
                  else Inr (emit prev e)
                else Inr e
            | [] \<Rightarrow> Inr e))"

definition eval_extend :: "Lexem list \<Rightarrow> Lexem \<Rightarrow> evst \<Rightarrow> evst res" where
  "eval_extend lx l e =
     bind_res (lex_str l) (\<lambda>name.
       let i = ev_i e; e = e\<lparr>ev_noMap := True\<rparr> in
       if i + 2 < length lx \<and> lx_Type (lx ! (i + 1)) = isLPar then
         Inr (buffer_push (bcode cmdCallExtend (OpVal (VString name)))
           (e\<lparr>ev_parcount := (if lx_Type (lx ! (i + 2)) \<noteq> isRPar then 1 else 0) # ev_parcount e\<rparr>))
       else
         let e = (if next_is lx (i + 1) isLBrack
                  then buffer_push (bcode cmdIndex (OpIndex \<lparr>ii_VarOffset = 0, ii_Owner = None, ii_Extend = name\<rparr>)) e else e)
         in Inr (emit (bcode cmdExtend (OpVal (VString name))) e))"

text \<open>The contracts among the open blocks record the contract they call, which must not be one of them.\<close>

fun mark_used :: "string \<Rightarrow> blockid list \<Rightarrow> cstore \<Rightarrow> cstore res" where
  "mark_used name [] st = Inr st"
| "mark_used name (b # bs) st =
     bind_res (cs_get st b) (\<lambda>blk.
       if b_Type blk = ObjContract then
         bind_res (contract_info blk) (\<lambda>c.
           if name = ci_Name c then Inl (Error errRecursion)
           else mark_used name bs (cs_put b (blk\<lparr>b_Info := InfoContract (c\<lparr>ci_Used := List.insert name (ci_Used c)\<rparr>)\<rparr>) st))
       else mark_used name bs st)"

definition contract_can_write :: "cstore \<Rightarrow> ObjInfo \<Rightarrow> bool res" where
  "contract_can_write st ob =
     (if oi_Value ob = OVNil then Inr False
      else bind_res (obj_block ob) (\<lambda>b. bind_res (cs_get st b) (\<lambda>blk. bind_res (contract_info blk) (\<lambda>c. Inr (ci_CanWrite c)))))"

definition is_variadic :: "cstore \<Rightarrow> ObjInfo \<Rightarrow> bool res" where
  "is_variadic st ob =
     (if oi_Type ob = ObjExtFunc then bind_res (obj_ext ob) (\<lambda>f. Inr (ef_Variadic f))
      else if oi_Type ob = ObjFunc then bind_res (func_of st ob) (\<lambda>f. Inr (fi_Variadic f))
      else Inr False)"

text \<open>A call of a contract becomes a call of \<open>ExecContract\<close> with the name of the contract in front.\<close>

definition begin_contract_call :: "blockid list \<Rightarrow> string \<Rightarrow> ObjInfo \<Rightarrow> int \<Rightarrow> evst \<Rightarrow> (int \<times> evst) res" where
  "begin_contract_call buf ident cob cnt e =
     bind_res (root_state (ev_store e) buf) (\<lambda>state.
     let name = StateName state ident in
     bind_res (mark_used name buf (ev_store e)) (\<lambda>st.
     bind_res (contract_can_write st cob) (\<lambda>w.
     bind_res (if w then setWritable buf st else Inr st) (\<lambda>st.
     let e = emit (bcode cmdPush (OpVal (VString name))) (e\<lparr>ev_store := st\<rparr>) in
     if cnt = 0 then
       Inr (3, emit (bcode cmdPush (OpVal (VString []))) (emit (bcode cmdPush (OpVal (VString []))) e))
     else Inr (cnt + 1, e)))))"

definition begin_call :: "'w cenv \<Rightarrow> blockid list \<Rightarrow> Lexem list \<Rightarrow> string \<Rightarrow> ObjInfo option \<Rightarrow> evst \<Rightarrow> evst res" where
  "begin_call env buf lx ident r e =
     bind_res
       (case r of
          Some ob \<Rightarrow> Inr ob
        | None \<Rightarrow>
            if ce_Extern env then Inr \<lparr>oi_Type = ObjContract, oi_Value = OVNil\<rparr>
            else Inl (Error (''unknown function '' @ ident))) (\<lambda>ob.
     if oi_Type ob \<notin> {ObjExtFunc, ObjFunc, ObjContract} then Inl (Error (''unknown function '' @ ident))
     else
       let contract = (oi_Type ob = ObjContract);
           cnt = (if lx_Type (lx ! (ev_i e + 2)) \<noteq> isRPar then 1 else 0 :: int)
       in
       bind_res
         (if contract then
            bind_res (findObj env (ev_store e) ''ExecContract'' buf) (\<lambda>r.
              case r of None \<Rightarrow> Inl nil_deref | Some (f, _) \<Rightarrow> Inr f)
          else Inr ob) (\<lambda>f.
       bind_res (is_variadic (ev_store e) f) (\<lambda>vari.
       let e = buffer_push (bcode (if vari then cmdCallVari else cmdCall) (OpObj f)) e in
       bind_res (if contract then begin_contract_call buf ident ob cnt e else Inr (cnt, e)) (\<lambda>(cnt, e).
       bind_res
         (if ident = ''CallContract'' then
            bind_res (root_state (ev_store e) buf) (\<lambda>state.
              Inr (cnt + 1, emit (bcode cmdPush (OpVal (VHost ''uint32'' (unat state)))) e))
          else Inr (cnt, e)) (\<lambda>(cnt, e).
       Inr (e\<lparr>ev_parcount := cnt # ev_parcount e\<rparr>))))))"

definition eval_ident :: "'w cenv \<Rightarrow> blockid list \<Rightarrow> Lexem list \<Rightarrow> nat \<Rightarrow> Lexem \<Rightarrow> evst \<Rightarrow> evst res" where
  "eval_ident env buf lx ind l e =
     bind_res (lex_str l) (\<lambda>ident.
     let i = ev_i e; e = e\<lparr>ev_noMap := True\<rparr> in
     bind_res (findObj env (ev_store e) ident buf) (\<lambda>r.
       if r = None \<and> (\<not> ce_Extern env \<or> i > ind \<or> i + 2 \<ge> length lx \<or> lx_Type (lx ! (i + 1)) \<noteq> isLPar)
       then Inl (Error (''unknown identifier '' @ ident))
       else if i + 2 < length lx \<and> lx_Type (lx ! (i + 1)) = isLPar then begin_call env buf lx ident (map_option fst r) e
       else
         (case r of
            None \<Rightarrow> Inl nil_deref
          | Some (ob, owner) \<Rightarrow>
              if oi_Type ob \<noteq> ObjVar then Inl (Error (''unknown variable '' @ ident))
              else
                bind_res
                  (if i + 2 < length lx \<and> lx_Type (lx ! (i + 1)) = isLBrack then
                     bind_res (obj_int ob) (\<lambda>k.
                       Inr (buffer_push (bcode cmdIndex (OpIndex \<lparr>ii_VarOffset = k, ii_Owner = owner, ii_Extend = []\<rparr>)) e))
                   else Inr e) (\<lambda>e.
                Inr (emit (bcode cmdVar (OpVar \<lparr>vi_Obj = ob, vi_Owner = owner\<rparr>)) e)))))"

text \<open>One pass of the loop.\<close>

definition eval_step :: "'w cenv \<Rightarrow> blockid list \<Rightarrow> Lexem list \<Rightarrow> nat \<Rightarrow> evst \<Rightarrow> estep res" where
  "eval_step env buf lx ind e =
     (let i = ev_i e; l = lx ! i; t = lx_Type l; n = 2 * length lx + 2 in
      if \<not> ev_noMap e \<and> t = isLCurly then
        bind_res (getInitMap env (ev_store e) buf lx n (Suc i) mustKey [] []) (\<lambda>(ps, j).
          Inr (Next (emit (bcode cmdMapInit (OpMap ps)) (e\<lparr>ev_i := j\<rparr>))))
      else if \<not> ev_noMap e \<and> t = isLBrack then
        bind_res (getInitArray env (ev_store e) buf lx n (Suc i) mustValue []) (\<lambda>(xs, j).
          Inr (Next (emit (bcode cmdArrayInit (OpArray xs)) (e\<lparr>ev_i := j\<rparr>))))
      else
        let e = e\<lparr>ev_noMap := False\<rparr> in
        if t = isRCurly \<or> t = isLCurly then Inr (Stop (int i - 1) e)
        else if t = lexNewLine then
          if i > 0 \<and> (lx_Type (lx ! (i - 1)) = isComma \<or> lx_Type (lx ! (i - 1)) = lexOper) then Inr (Next e)
          else if list_ex (\<lambda>c. bc_Cmd c = cmdSys) (ev_buffer e) then Inr (Next e)
          else Inr (Stop (int i) e)
        else if t = isLPar \<or> t = isLBrack then Inr (Next (buffer_push sys_mark e))
        else if t = isComma then
          let e = e\<lparr>ev_parcount := (case ev_parcount e of [] \<Rightarrow> [] | c # cs \<Rightarrow> (c + 1) # cs)\<rparr> in
          bind_res (comma_pop (ev_buffer e) (ev_code e)) (\<lambda>(b, out). Inr (Next (e\<lparr>ev_buffer := b, ev_code := out\<rparr>)))
        else if t = isRPar then bind_res (eval_RPar env buf lx l e) (\<lambda>e. Inr (Next e))
        else if t = isRBrack then bind_res (eval_RBrack lx l e) (\<lambda>e. Inr (Next e))
        else if t = lexOper then bind_res (eval_oper lx l e) (\<lambda>e. Inr (Next e))
        else if t = lexNumber \<or> t = lexString then
          Inr (Next (emit (bcode cmdPush (OpVal (val_of_lex (lx_Value l)))) (e\<lparr>ev_noMap := True\<rparr>)))
        else if t = lexExtend then bind_res (eval_extend lx l e) (\<lambda>e. Inr (Next e))
        else if t = lexIdent then bind_res (eval_ident env buf lx ind l e) (\<lambda>e. Inr (Next e))
        else if lexem_kind l = lexKeyword then
          bind_res (lex_uint l) (\<lambda>u. Inr (Next (if u = key_id keyTail then emit (bcode cmdUnwrapArr OpInt) e else e)))
        else Inr (Next e))"

fun eval_loop :: "'w cenv \<Rightarrow> blockid list \<Rightarrow> Lexem list \<Rightarrow> nat \<Rightarrow> nat \<Rightarrow> evst \<Rightarrow> (int \<times> evst) res" where
  "eval_loop env buf lx ind 0 e = Inl no_fuel"
| "eval_loop env buf lx ind (Suc n) e =
     (if ev_i e \<ge> length lx then Inr (int (ev_i e), e)
      else
        bind_res (eval_step env buf lx ind e) (\<lambda>r.
          case r of
            Next e \<Rightarrow> eval_loop env buf lx ind n (e\<lparr>ev_i := Suc (ev_i e)\<rparr>)
          | Stop j e \<Rightarrow> Inr (j, e)))"

text \<open>The operators that are left are written; an open bracket is an error.\<close>

definition drain :: "ByteCode list \<Rightarrow> ByteCode list \<Rightarrow> ByteCode list res" where
  "drain b out =
     (if list_ex (\<lambda>c. bc_Cmd c = cmdSys) b then Inl (Error ''there is not pair'') else Inr (out @ b))"

definition compileEval :: "'w cenv \<Rightarrow> Lexem list \<Rightarrow> nat \<Rightarrow> blockid list \<Rightarrow> cstore \<Rightarrow> (int \<times> cstore) res" where
  "compileEval env lx ind buf st =
     bind_res (buf_nth buf 0) (\<lambda>cur.
     bind_res (eval_loop env buf lx ind (length lx + 2)
       \<lparr>ev_i = ind, ev_buffer = [], ev_code = [], ev_parcount = [], ev_index = None, ev_noMap = False, ev_store = st\<rparr>) (\<lambda>(j, e).
     bind_res (drain (ev_buffer e) (ev_code e)) (\<lambda>out.
     let out = (case ev_index e of None \<Rightarrow> out | Some info \<Rightarrow> out @ [bcode cmdSetIndex (OpIndex info)]) in
     bind_res (cs_upd cur (\<lambda>blk. blk\<lparr>b_Code := b_Code blk @ out\<rparr>) (ev_store e)) (\<lambda>st. Inr (j, st)))))"

end
