(* ===== verification/Script_Compile.thy ===== *)
theory Script_Compile
  imports Script_Expr
begin

text \<open>
  The compiler, \<open>packages/script/compile.go\<close>: the finite machine over lexemes that builds the tree of blocks,
  the functions it calls on its transitions, and \<open>eval.go\<close>, the cache of compiled conditions.
\<close>

section \<open>States\<close>

definition stateRoot :: "32 word" where "stateRoot = 0"
definition stateBody :: "32 word" where "stateBody = 1"
definition stateBlock :: "32 word" where "stateBlock = 2"
definition stateContract :: "32 word" where "stateContract = 3"
definition stateFunc :: "32 word" where "stateFunc = 4"
definition stateFParams :: "32 word" where "stateFParams = 5"
definition stateFParam :: "32 word" where "stateFParam = 6"
definition stateFParamTYPE :: "32 word" where "stateFParamTYPE = 7"
definition stateFTail :: "32 word" where "stateFTail = 8"
definition stateFResult :: "32 word" where "stateFResult = 9"
definition stateFDot :: "32 word" where "stateFDot = 10"
definition stateVar :: "32 word" where "stateVar = 11"
definition stateVarType :: "32 word" where "stateVarType = 12"
definition stateAssignEval :: "32 word" where "stateAssignEval = 13"
definition stateAssign :: "32 word" where "stateAssign = 14"
definition stateTX :: "32 word" where "stateTX = 15"
definition stateSettings :: "32 word" where "stateSettings = 16"
definition stateConsts :: "32 word" where "stateConsts = 17"
definition stateConstsAssign :: "32 word" where "stateConstsAssign = 18"
definition stateConstsValue :: "32 word" where "stateConstsValue = 19"
definition stateFields :: "32 word" where "stateFields = 20"
definition stateEval :: "32 word" where "stateEval = 21"

definition statePush :: "32 word" where "statePush = 0x0100"
definition statePop :: "32 word" where "statePop = 0x0200"
definition stateStay :: "32 word" where "stateStay = 0x0400"
definition stateToBlock :: "32 word" where "stateToBlock = 0x0800"
definition stateToBody :: "32 word" where "stateToBody = 0x1000"
definition stateFork :: "32 word" where "stateFork = 0x2000"
definition stateToFork :: "32 word" where "stateToFork = 0x4000"
definition stateLabel :: "32 word" where "stateLabel = 0x8000"
definition stateMustEval :: "32 word" where "stateMustEval = 0x010000"

lemmas state_consts = stateRoot_def stateBody_def stateBlock_def stateContract_def stateFunc_def stateFParams_def
  stateFParam_def stateFParamTYPE_def stateFTail_def stateFResult_def stateFDot_def stateVar_def stateVarType_def
  stateAssignEval_def stateAssign_def stateTX_def stateSettings_def stateConsts_def stateConstsAssign_def
  stateConstsValue_def stateFields_def stateEval_def statePush_def statePop_def stateStay_def stateToBlock_def
  stateToBody_def stateFork_def stateToFork_def stateLabel_def stateMustEval_def

datatype comp_err =
    errUnknownCmd | errMustName | errMustLCurly | errMustRCurly | errParams | errVars | errVarType | errAssign | errStrNum

fun err_no :: "comp_err \<Rightarrow> 32 word" where
  "err_no errUnknownCmd = 1" | "err_no errMustName = 2" | "err_no errMustLCurly = 3" | "err_no errMustRCurly = 4"
| "err_no errParams = 5" | "err_no errVars = 6" | "err_no errVarType = 7" | "err_no errAssign = 8" | "err_no errStrNum = 9"

datatype cfunc =
    cfNothing | cfError | cfNameBlock | cfFResult | cfReturn | cfIf | cfElse | cfFParam | cfFType | cfFTail | cfFNameParam
  | cfAssignVar | cfAssign | cfTX | cfSettings | cfConstName | cfConstValue | cfField | cfFieldType | cfFieldTag
  | cfFields | cfFieldComma | cfFieldLine | cfWhile | cfContinue | cfBreak | cfCmdError

type_synonym stateLine = "(32 word \<times> 32 word \<times> cfunc) list"

text \<open>The machine; the entry for the lexeme 0 is the default.\<close>

definition states :: "stateLine list" where
  "states =
     [[(lexNewLine, stateRoot, cfNothing),
       (key_lexem keyContract, stateContract OR statePush, cfNothing),
       (key_lexem keyFunc, stateFunc OR statePush, cfNothing),
       (0, err_no errUnknownCmd, cfError)],
      [(lexNewLine, stateBody, cfNothing),
       (key_lexem keyFunc, stateFunc OR statePush, cfNothing),
       (key_lexem keyReturn, stateEval, cfReturn),
       (key_lexem keyContinue, stateBody, cfContinue),
       (key_lexem keyBreak, stateBody, cfBreak),
       (key_lexem keyIf, stateEval OR statePush OR stateToBlock OR stateMustEval, cfIf),
       (key_lexem keyWhile, stateEval OR statePush OR stateToBlock OR stateLabel OR stateMustEval, cfWhile),
       (key_lexem keyElse, stateBlock OR statePush, cfElse),
       (key_lexem keyVar, stateVar, cfNothing),
       (key_lexem keyTX, stateTX, cfTX),
       (key_lexem keySettings, stateSettings, cfSettings),
       (key_lexem keyError, stateEval, cfCmdError),
       (key_lexem keyWarning, stateEval, cfCmdError),
       (key_lexem keyInfo, stateEval, cfCmdError),
       (lexIdent, stateAssignEval OR stateFork, cfNothing),
       (lexExtend, stateAssignEval OR stateFork, cfNothing),
       (isRCurly, statePop, cfNothing),
       (0, err_no errMustRCurly, cfError)],
      [(lexNewLine, stateBlock, cfNothing), (isLCurly, stateBody, cfNothing), (0, err_no errMustLCurly, cfError)],
      [(lexNewLine, stateContract, cfNothing), (lexIdent, stateBlock, cfNameBlock), (0, err_no errMustName, cfError)],
      [(lexNewLine, stateFunc, cfNothing), (lexIdent, stateFParams, cfNameBlock), (0, err_no errMustName, cfError)],
      [(lexNewLine, stateFParams, cfNothing), (isLPar, stateFParam, cfNothing), (0, stateFResult OR stateStay, cfNothing)],
      [(lexNewLine, stateFParam, cfNothing), (lexIdent, stateFParamTYPE, cfFParam), (isComma, stateFParam, cfNothing),
       (isRPar, stateFResult, cfNothing), (0, err_no errParams, cfError)],
      [(lexIdent, stateFParamTYPE, cfFParam), (lexType, stateFParam, cfFType), (key_lexem keyTail, stateFTail, cfFTail),
       (isComma, stateFParamTYPE, cfNothing), (0, err_no errVarType, cfError)],
      [(lexNewLine, stateFTail, cfNothing), (isRPar, stateFResult, cfNothing), (0, err_no errParams, cfError)],
      [(lexNewLine, stateFResult, cfNothing), (isDot, stateFDot, cfNothing), (lexType, stateFResult, cfFResult),
       (isComma, stateFResult, cfNothing), (0, stateBlock OR stateStay, cfNothing)],
      [(lexNewLine, stateFDot, cfNothing), (lexIdent, stateFParams, cfFNameParam), (0, err_no errMustName, cfError)],
      [(lexNewLine, stateBody, cfNothing), (lexIdent, stateVarType, cfFParam), (isRCurly, stateBody OR stateStay, cfNothing),
       (isComma, stateVar, cfNothing), (0, err_no errVars, cfError)],
      [(lexIdent, stateVarType, cfFParam), (lexType, stateVar, cfFType), (isComma, stateVarType, cfNothing),
       (0, err_no errVarType, cfError)],
      [(isLPar, stateEval OR stateToFork OR stateToBody, cfNothing),
       (isLBrack, stateEval OR stateToFork OR stateToBody, cfNothing),
       (0, stateAssign OR stateToFork OR stateStay, cfNothing)],
      [(isComma, stateAssign, cfNothing), (lexIdent, stateAssign, cfAssignVar), (lexExtend, stateAssign, cfAssignVar),
       (isEq, stateEval OR stateToBody, cfAssign), (0, err_no errAssign, cfError)],
      [(lexNewLine, stateTX, cfNothing), (isLCurly, stateFields, cfNothing), (0, err_no errMustLCurly, cfError)],
      [(lexNewLine, stateSettings, cfNothing), (isLCurly, stateConsts, cfNothing), (0, err_no errMustLCurly, cfError)],
      [(lexNewLine, stateConsts, cfNothing), (isComma, stateConsts, cfNothing), (lexIdent, stateConstsAssign, cfConstName),
       (isRCurly, stateToBody, cfNothing), (0, err_no errMustRCurly, cfError)],
      [(isEq, stateConstsValue, cfNothing), (0, err_no errAssign, cfError)],
      [(lexString, stateConsts, cfConstValue), (lexNumber, stateConsts, cfConstValue), (0, err_no errStrNum, cfError)],
      [(lexNewLine, stateFields, cfFieldLine), (isComma, stateFields, cfFieldComma), (lexIdent, stateFields, cfField),
       (lexType, stateFields, cfFieldType), (lexString, stateFields, cfFieldTag), (isRCurly, stateToBody, cfFields),
       (0, err_no errMustRCurly, cfError)]]"

section \<open>The functions of the transitions\<close>

type_synonym handler = "blockid list \<Rightarrow> 32 word \<Rightarrow> Lexem \<Rightarrow> cstore \<Rightarrow> cstore res"

definition err_texts :: "string list" where
  "err_texts =
     [''no error'', ''unknown command'', ''must be the name'', ''must be '' @ [char_of (39 :: nat), CHR ''{'', char_of (39 :: nat)],
      ''must be '' @ [char_of (39 :: nat), CHR ''}'', char_of (39 :: nat)], ''wrong parameters'', ''wrong variables'', ''must be type'',
      ''must be '' @ [char_of (39 :: nat), CHR ''='', char_of (39 :: nat)], ''must be number or string'']"

definition show_u32 :: "32 word \<Rightarrow> string" where
  "show_u32 w = show_nat (unat w)"

definition lex_pos :: "Lexem \<Rightarrow> string" where
  "lex_pos l = ''[Ln:'' @ show_u32 (lx_Line l) @ '' Col:'' @ show_u32 (lx_Column l) @ '']''"

definition fError :: "'w cenv \<Rightarrow> 32 word \<Rightarrow> Lexem \<Rightarrow> 'a res" where
  "fError env state l =
     bind_res (go_nth err_texts (uint state)) (\<lambda>m.
       if lx_Type l = lexNewLine
       then Inl (Error (m @ '' (unexpected new line) [Ln:'' @ show_u32 (lx_Line l - 1) @ '']''))
       else Inl (Error (m @ '' '' @ show_hex (unat (lx_Type l)) @ '' '' @ ce_fmt env (lx_Value l) @ '' '' @ lex_pos l)))"

definition lex_type :: "Lexem \<Rightarrow> ltype res" where
  "lex_type l = (case lx_Value l of LType t \<Rightarrow> Inr t | _ \<Rightarrow> Inl bad_assert)"

definition append_code :: "blockid \<Rightarrow> ByteCode list \<Rightarrow> cstore \<Rightarrow> cstore res" where
  "append_code b cs = cs_upd b (\<lambda>blk. blk\<lparr>b_Code := b_Code blk @ cs\<rparr>)"

text \<open>A change of the function or contract that a block describes.\<close>

definition upd_func :: "blockid \<Rightarrow> (FuncInfo \<Rightarrow> FuncInfo res) \<Rightarrow> cstore \<Rightarrow> cstore res" where
  "upd_func b g st =
     bind_res (cs_get st b) (\<lambda>blk.
     bind_res (func_info blk) (\<lambda>f.
     bind_res (g f) (\<lambda>f. Inr (cs_put b (blk\<lparr>b_Info := InfoFunc f\<rparr>) st))))"

definition upd_contract :: "blockid \<Rightarrow> (ContractInfo \<Rightarrow> ContractInfo res) \<Rightarrow> cstore \<Rightarrow> cstore res" where
  "upd_contract b g st =
     bind_res (cs_get st b) (\<lambda>blk.
     bind_res (contract_info blk) (\<lambda>c.
     bind_res (g c) (\<lambda>c. Inr (cs_put b (blk\<lparr>b_Info := InfoContract c\<rparr>) st))))"

definition fFuncResult :: handler where
  "fFuncResult buf state l st =
     bind_res (buf_nth buf 0) (\<lambda>b.
     upd_func b (\<lambda>f. bind_res (lex_type l) (\<lambda>t. Inr (f\<lparr>fi_Results := fi_Results f @ [Some t]\<rparr>))) st)"

definition fReturn :: handler where
  "fReturn buf state l st = bind_res (buf_nth buf 0) (\<lambda>b. append_code b [bcode cmdReturn OpInt] st)"

text \<open>The operand is the value of the lexeme, the number of the keyword.\<close>

definition key_operand :: "lexval \<Rightarrow> operand" where
  "key_operand v = (case v of LUint k \<Rightarrow> OpKey k | _ \<Rightarrow> OpVal (val_of_lex v))"

definition fCmdError :: handler where
  "fCmdError buf state l st =
     bind_res (buf_nth buf 0) (\<lambda>b. append_code b [bcode cmdError (key_operand (lx_Value l))] st)"

text \<open>The tail whose parameters are being read: the first key with an underscore in front that Go comes across.\<close>

definition open_tail :: "'w cenv \<Rightarrow> (string \<times> FuncName) list \<Rightarrow> string option" where
  "open_tail env ns = map_option tl (List.find (\<lambda>k. k \<noteq> [] \<and> hd k = CHR ''_'') (ce_keys env (map fst ns)))"

definition tail_of :: "(string \<times> FuncName) list \<Rightarrow> string \<Rightarrow> FuncName" where
  "tail_of ns name = (case map_of ns name of None \<Rightarrow> no_FuncName | Some n \<Rightarrow> n)"

definition add_param :: "'w cenv \<Rightarrow> nat \<Rightarrow> FuncInfo \<Rightarrow> FuncInfo" where
  "add_param env off f =
     (case fi_Names f of
        None \<Rightarrow> f\<lparr>fi_Params := fi_Params f @ [None]\<rparr>
      | Some ns \<Rightarrow>
          (case open_tail env ns of
             None \<Rightarrow> f
           | Some name \<Rightarrow>
               let t = tail_of ns name in
               f\<lparr>fi_Names := Some (AList.update name
                   \<lparr>fn_Params = fn_Params t @ [None], fn_Offset = fn_Offset t @ [off], fn_Variadic = False\<rparr> ns)\<rparr>))"

definition fFparam :: "'w cenv \<Rightarrow> handler" where
  "fFparam env buf state l st =
     bind_res (buf_nth buf 0) (\<lambda>b.
     bind_res (cs_get st b) (\<lambda>blk.
     bind_res
       (if b_Type blk = ObjFunc \<and> (state = stateFParam \<or> state = stateFParamTYPE)
        then upd_func b (\<lambda>f. Inr (add_param env (length (b_Vars blk)) f)) st else Inr st) (\<lambda>st.
     bind_res (lex_str l) (\<lambda>name.
       cs_upd b (\<lambda>blk.
         blk\<lparr>b_Objects := AList.update name \<lparr>oi_Type = ObjVar, oi_Value = OVInt (length (b_Vars blk))\<rparr> (b_Objects blk),
             b_Vars := b_Vars blk @ [None]\<rparr>) st))))"

definition fill_types :: "ltype \<Rightarrow> ltype option list \<Rightarrow> ltype option list" where
  "fill_types t = map (\<lambda>x. case x of None \<Rightarrow> Some t | Some y \<Rightarrow> Some y)"

definition set_param_types :: "'w cenv \<Rightarrow> ltype \<Rightarrow> FuncInfo \<Rightarrow> FuncInfo" where
  "set_param_types env t f =
     (case fi_Names f of
        None \<Rightarrow> f\<lparr>fi_Params := fill_types t (fi_Params f)\<rparr>
      | Some ns \<Rightarrow>
          (case open_tail env ns of
             None \<Rightarrow> f
           | Some name \<Rightarrow>
               if map_of ns name = None then f
               else
                 let n = tail_of ns name in
                 f\<lparr>fi_Names := Some (AList.update name (n\<lparr>fn_Params := fill_types t (fn_Params n)\<rparr>) ns)\<rparr>))"

definition fFtype :: "'w cenv \<Rightarrow> handler" where
  "fFtype env buf state l st =
     bind_res (buf_nth buf 0) (\<lambda>b.
     bind_res (cs_get st b) (\<lambda>blk.
     bind_res (lex_type l) (\<lambda>t.
     bind_res
       (if b_Type blk = ObjFunc \<and> state = stateFParam then upd_func b (\<lambda>f. Inr (set_param_types env t f)) st else Inr st)
       (cs_upd b (\<lambda>blk. blk\<lparr>b_Vars := fill_types t (b_Vars blk)\<rparr>)))))"

definition count_untyped :: "ltype option list \<Rightarrow> nat" where
  "count_untyped ts = length (filter (\<lambda>t. t = None) ts)"

definition make_tail :: "'w cenv \<Rightarrow> nat \<Rightarrow> FuncInfo \<Rightarrow> FuncInfo res" where
  "make_tail env off f =
     (case fi_Names f of
        None \<Rightarrow>
          if count_untyped (fi_Params f) > 1 then Inl (Error ''... parameter must be one'')
          else Inr (f\<lparr>fi_Params := fill_types TArray (fi_Params f), fi_Variadic := True\<rparr>)
      | Some ns \<Rightarrow>
          (case open_tail env ns of
             None \<Rightarrow> Inr f
           | Some name \<Rightarrow>
               let n = tail_of ns name in
               if count_untyped (fn_Params n) > 1 then Inl (Error ''... parameter must be one'')
               else
                 Inr (f\<lparr>fi_Names := Some (AList.update name
                   \<lparr>fn_Params = fill_types TArray (fn_Params n), fn_Offset = fn_Offset n @ [off], fn_Variadic = True\<rparr> ns)\<rparr>)))"

definition fFtail :: "'w cenv \<Rightarrow> handler" where
  "fFtail env buf state l st =
     bind_res (buf_nth buf 0) (\<lambda>b.
     bind_res (cs_get st b) (\<lambda>blk.
     bind_res (upd_func b (make_tail env (length (b_Vars blk))) st)
       (cs_upd b (\<lambda>blk. blk\<lparr>b_Vars := fill_types TArray (b_Vars blk)\<rparr>))))"

definition fFNameParam :: handler where
  "fFNameParam buf state l st =
     bind_res (buf_nth buf 0) (\<lambda>b.
     bind_res (lex_str l) (\<lambda>name.
     upd_func b (\<lambda>f.
       let ns = (case fi_Names f of None \<Rightarrow> [] | Some ns \<Rightarrow> filter (\<lambda>(k, _). k = [] \<or> hd k \<noteq> CHR ''_'') ns)
       in Inr (f\<lparr>fi_Names := Some (AList.update (CHR ''_'' # name) no_FuncName ns)\<rparr>)) st))"

definition fIf :: handler where
  "fIf buf state l st =
     bind_res (buf_nth buf 1) (\<lambda>p. bind_res (buf_nth buf 0) (\<lambda>b. append_code p [bcode cmdIf (OpBlock b)] st))"

definition fWhile :: handler where
  "fWhile buf state l st =
     bind_res (buf_nth buf 1) (\<lambda>p.
     bind_res (buf_nth buf 0) (\<lambda>b. append_code p [bcode cmdWhile (OpBlock b), bcode cmdContinue OpInt] st))"

definition fContinue :: handler where
  "fContinue buf state l st = bind_res (buf_nth buf 0) (\<lambda>b. append_code b [bcode cmdContinue OpInt] st)"

definition fBreak :: handler where
  "fBreak buf state l st = bind_res (buf_nth buf 0) (\<lambda>b. append_code b [bcode cmdBreak OpInt] st)"

definition assigned_var :: "blockid list \<Rightarrow> Lexem \<Rightarrow> cstore \<Rightarrow> VarInfo res" where
  "assigned_var buf l st =
     bind_res (lex_str l) (\<lambda>name.
       if lx_Type l = lexExtend then
         if isSysVar name then Inl (Error (sys_var_err name))
         else Inr \<lparr>vi_Obj = \<lparr>oi_Type = ObjExtend, oi_Value = OVStr name\<rparr>, vi_Owner = None\<rparr>
       else
         bind_res (findVar st name buf) (\<lambda>r.
           case r of
             Some (ob, b) \<Rightarrow>
               if oi_Type ob = ObjVar then Inr \<lparr>vi_Obj = ob, vi_Owner = Some b\<rparr>
               else Inl (Error (''unknown variable '' @ name))
           | None \<Rightarrow> Inl (Error (''unknown variable '' @ name))))"

definition fAssignVar :: handler where
  "fAssignVar buf state l st =
     bind_res (buf_nth buf 0) (\<lambda>b.
     bind_res (assigned_var buf l st) (\<lambda>ivar.
     bind_res (cs_get st b) (\<lambda>blk.
       if b_Code blk \<noteq> [] \<and> bc_Cmd (last (b_Code blk)) = cmdAssignVar then
         (case bc_Value (last (b_Code blk)) of
            OpVars prev \<Rightarrow>
              Inr (cs_put b (blk\<lparr>b_Code := butlast (b_Code blk) @ [bcode cmdAssignVar (OpVars (prev @ [ivar]))]\<rparr>) st)
          | _ \<Rightarrow> Inl bad_assert)
       else append_code b [bcode cmdAssignVar (OpVars [ivar])] st)))"

definition fAssign :: handler where
  "fAssign buf state l st = bind_res (buf_nth buf 0) (\<lambda>b. append_code b [bcode cmdAssign OpInt] st)"

definition only_contract :: "(ContractInfo \<Rightarrow> ContractInfo) \<Rightarrow> handler" where
  "only_contract g buf state l st =
     bind_res (buf_nth buf 0) (\<lambda>b.
     bind_res (cs_get st b) (\<lambda>blk.
       if b_Type blk \<noteq> ObjContract then Inl (Error ''data can only be in contract'')
       else upd_contract b (\<lambda>c. Inr (g c)) st))"

definition fTx :: handler where
  "fTx = only_contract (\<lambda>c. c\<lparr>ci_Tx := Some []\<rparr>)"

definition fSettings :: handler where
  "fSettings = only_contract (\<lambda>c. c\<lparr>ci_Settings := Some []\<rparr>)"

definition fConstName :: handler where
  "fConstName buf state l st =
     bind_res (buf_nth buf 0) (\<lambda>b.
     upd_contract b (\<lambda>c.
       bind_res (lex_str l) (\<lambda>name.
         case ci_Settings c of
           None \<Rightarrow> Inl (Panic ''assignment to entry in nil map'')
         | Some sets \<Rightarrow> Inr (c\<lparr>ci_Settings := Some (AList.update name VNil sets)\<rparr>))) st)"

definition fConstValue :: "'w cenv \<Rightarrow> handler" where
  "fConstValue env buf state l st =
     bind_res (buf_nth buf 0) (\<lambda>b.
     upd_contract b (\<lambda>c.
       let sets = (case ci_Settings c of None \<Rightarrow> [] | Some sets \<Rightarrow> sets) in
       Inr (case List.find (\<lambda>k. map_of sets k = Some VNil) (ce_keys env (map fst sets)) of
              None \<Rightarrow> c
            | Some k \<Rightarrow> c\<lparr>ci_Settings := Some (AList.update k (val_of_lex (lx_Value l)) sets)\<rparr>)) st)"

section \<open>Fields of contracts\<close>

definition upd_tx :: "(FieldInfo list \<Rightarrow> FieldInfo list res) \<Rightarrow> blockid list \<Rightarrow> cstore \<Rightarrow> cstore res" where
  "upd_tx g buf st =
     bind_res (buf_nth buf 0) (\<lambda>b.
     upd_contract b (\<lambda>c.
       case ci_Tx c of
         None \<Rightarrow> Inl nil_deref
       | Some tx \<Rightarrow> bind_res (g tx) (\<lambda>tx. Inr (c\<lparr>ci_Tx := Some tx\<rparr>))) st)"

definition data_type_err :: "Lexem \<Rightarrow> go_exc" where
  "data_type_err l = Error (''expecting type of the data field '' @ lex_pos l)"

definition data_name_err :: "Lexem \<Rightarrow> go_exc" where
  "data_name_err l = Error (''expecting name of the data field '' @ lex_pos l)"

definition data_tag_err :: "Lexem \<Rightarrow> go_exc" where
  "data_tag_err l = Error (''unexpected tag '' @ lex_pos l)"

definition fField :: handler where
  "fField buf state l st =
     upd_tx (\<lambda>tx.
       if tx \<noteq> [] \<and> fd_Type (last tx) = None \<and> fd_Tags (last tx) \<noteq> ''_'' then Inl (data_type_err l)
       else bind_res (lex_str l) (\<lambda>name. Inr (tx @ [\<lparr>fd_Name = name, fd_Type = None, fd_Tags = []\<rparr>]))) buf st"

definition fFields :: handler where
  "fFields buf state l st =
     upd_tx (\<lambda>tx. if tx \<noteq> [] \<and> fd_Type (last tx) = None then Inl (data_type_err l) else Inr tx) buf st"

definition fFieldComma :: handler where
  "fFieldComma buf state l st =
     upd_tx (\<lambda>tx.
       if tx = [] \<or> fd_Type (last tx) \<noteq> None then Inl (data_name_err l)
       else Inr (butlast tx @ [(last tx)\<lparr>fd_Tags := ''_''\<rparr>])) buf st"

definition fFieldLine :: handler where
  "fFieldLine = fFields"

definition fFieldType :: handler where
  "fFieldType buf state l st =
     upd_tx (\<lambda>tx.
       if tx = [] \<or> fd_Type (last tx) \<noteq> None then Inl (data_name_err l)
       else
         bind_res (lex_type l) (\<lambda>t.
           Inr (map (\<lambda>f. if fd_Type f = None then f\<lparr>fd_Type := Some t, fd_Tags := []\<rparr> else f) tx))) buf st"

text \<open>The last field without a tag gets the text; the tag of the last field is read before the length is checked.\<close>

fun tag_last :: "string \<Rightarrow> FieldInfo list \<Rightarrow> FieldInfo list" where
  "tag_last s [] = []"
| "tag_last s (f # fs) = (if fd_Tags f = [] then f\<lparr>fd_Tags := s\<rparr> # fs else f # tag_last s fs)"

definition fFieldTag :: handler where
  "fFieldTag buf state l st =
     upd_tx (\<lambda>tx.
       if tx = [] then Inl out_of_range
       else
         let tx = (if fd_Tags (last tx) = ''_'' then butlast tx @ [(last tx)\<lparr>fd_Tags := []\<rparr>] else tx) in
         if fd_Type (last tx) = None \<or> fd_Tags (last tx) \<noteq> [] then Inl (data_tag_err l)
         else bind_res (lex_str l) (\<lambda>s. Inr (rev (tag_last s (rev tx))))) buf st"

definition fElse :: handler where
  "fElse buf state l st =
     bind_res (buf_nth buf 1) (\<lambda>p.
     bind_res (buf_nth buf 0) (\<lambda>b.
     bind_res (cs_get st p) (\<lambda>blk.
       if b_Code blk = [] then Inl out_of_range
       else if bc_Cmd (last (b_Code blk)) \<noteq> cmdIf then
         Inl (Error (''there is not if before '' @ show_u32 (lx_Type l) @ '' '' @ lex_pos l))
       else append_code p [bcode cmdElse (OpBlock b)] st)))"

definition no_func :: FuncInfo where
  "no_func = \<lparr>fi_Params = [], fi_Results = [], fi_Names = None, fi_Variadic = False, fi_ID = 0, fi_CanWrite = False\<rparr>"

definition fNameBlock :: handler where
  "fNameBlock buf state l st =
     bind_res (buf_nth buf 1) (\<lambda>p.
     bind_res (buf_nth buf 0) (\<lambda>b.
     bind_res (lex_str l) (\<lambda>name.
     bind_res (cs_get st p) (\<lambda>prev.
     bind_res (buf_root buf) (\<lambda>r.
     bind_res (cs_get st r) (\<lambda>root.
     bind_res
       (if state = stateBlock then
          bind_res (root_state st buf) (\<lambda>s.
            let name = StateName s name in
            Inr (ObjContract, name,
              InfoContract \<lparr>ci_ID = of_int (int (length (b_Children prev)) - 1), ci_Name = name, ci_Owner = b_Owner root,
                ci_Used = [], ci_Tx = None, ci_Settings = None, ci_CanWrite = False\<rparr>))
        else Inr (ObjFunc, name, InfoFunc no_func)) (\<lambda>(ty, name, info).
     bind_res (cs_upd b (\<lambda>blk. blk\<lparr>b_Info := info, b_Type := ty\<rparr>) st)
       (cs_upd p (\<lambda>prev. prev\<lparr>b_Objects := AList.update name \<lparr>oi_Type = ty, oi_Value = OVBlock b\<rparr> (b_Objects prev)\<rparr>)))))))))"

definition handle :: "'w cenv \<Rightarrow> cfunc \<Rightarrow> handler" where
  "handle env f =
     (case f of
        cfNothing \<Rightarrow> (\<lambda>buf state l st. Inr st)
      | cfError \<Rightarrow> (\<lambda>buf state l st. fError env state l)
      | cfNameBlock \<Rightarrow> fNameBlock
      | cfFResult \<Rightarrow> fFuncResult
      | cfReturn \<Rightarrow> fReturn
      | cfIf \<Rightarrow> fIf
      | cfElse \<Rightarrow> fElse
      | cfFParam \<Rightarrow> fFparam env
      | cfFType \<Rightarrow> fFtype env
      | cfFTail \<Rightarrow> fFtail env
      | cfFNameParam \<Rightarrow> fFNameParam
      | cfAssignVar \<Rightarrow> fAssignVar
      | cfAssign \<Rightarrow> fAssign
      | cfTX \<Rightarrow> fTx
      | cfSettings \<Rightarrow> fSettings
      | cfConstName \<Rightarrow> fConstName
      | cfConstValue \<Rightarrow> fConstValue env
      | cfField \<Rightarrow> fField
      | cfFieldType \<Rightarrow> fFieldType
      | cfFieldTag \<Rightarrow> fFieldTag
      | cfFields \<Rightarrow> fFields
      | cfFieldComma \<Rightarrow> fFieldComma
      | cfFieldLine \<Rightarrow> fFieldLine
      | cfWhile \<Rightarrow> fWhile
      | cfContinue \<Rightarrow> fContinue
      | cfBreak \<Rightarrow> fBreak
      | cfCmdError \<Rightarrow> fCmdError)"

section \<open>The machine\<close>

text \<open>\<open>curState\<close>, the stack of states and of open blocks (top at the head), \<open>fork\<close>, and the store.\<close>

record cmach =
  cm_state :: "32 word"
  cm_stack :: "32 word list"
  cm_blocks :: "blockid list"
  cm_fork :: nat
  cm_store :: cstore

definition transition :: "32 word \<Rightarrow> Lexem \<Rightarrow> (32 word \<times> cfunc) res" where
  "transition cur l =
     bind_res (go_nth states (uint cur)) (\<lambda>line.
       Inr (case map_of line (lx_Type l) of
              Some t \<Rightarrow> t
            | None \<Rightarrow> (case map_of line 0 of Some t \<Rightarrow> t | None \<Rightarrow> (0, cfNothing))))"

definition has_flag :: "32 word \<Rightarrow> 32 word \<Rightarrow> bool" where
  "has_flag ns f \<longleftrightarrow> ns AND f \<noteq> 0"

text \<open>The expression of a transition to \<open>stateEval\<close>.\<close>

definition comp_eval :: "'w cenv \<Rightarrow> Lexem list \<Rightarrow> 32 word \<Rightarrow> nat \<Rightarrow> cmach \<Rightarrow> (int \<times> cmach) res" where
  "comp_eval env lx ns i m =
     bind_res (buf_nth (cm_blocks m) 0) (\<lambda>b.
     bind_res (if has_flag ns stateLabel then append_code b [bcode cmdLabel OpInt] (cm_store m) else Inr (cm_store m)) (\<lambda>st.
     bind_res (cs_get st b) (\<lambda>blk.
     bind_res (compileEval env lx i (cm_blocks m) st) (\<lambda>(j, st).
     bind_res (cs_get st b) (\<lambda>blk'.
       if has_flag ns stateMustEval \<and> length (b_Code blk) = length (b_Code blk')
       then Inl (Error ''there is not eval expression'')
       else Inr (j, m\<lparr>cm_store := st\<rparr>))))))"

definition new_block :: "blockid option \<Rightarrow> Block" where
  "new_block p =
     \<lparr>b_Objects = [], b_Type = ObjUnknown, b_Owner = None, b_Info = NoInfo, b_Parent = p, b_Vars = [], b_Code = [], b_Children = []\<rparr>"

definition cs_alloc :: "Block \<Rightarrow> cstore \<Rightarrow> blockid \<times> cstore" where
  "cs_alloc blk st = (cs_next st, st\<lparr>cs_blocks := (cs_blocks st)(cs_next st \<mapsto> blk), cs_next := Suc (cs_next st)\<rparr>)"

definition push_block :: "cmach \<Rightarrow> cmach res" where
  "push_block m =
     bind_res (buf_nth (cm_blocks m) 0) (\<lambda>top.
     case cs_alloc (new_block (Some top)) (cm_store m) of
       (b, st) \<Rightarrow>
         bind_res (cs_upd top (\<lambda>blk. blk\<lparr>b_Children := b_Children blk @ [b]\<rparr>) st) (\<lambda>st.
           Inr (m\<lparr>cm_stack := cm_state m # cm_stack m, cm_blocks := b # cm_blocks m, cm_store := st\<rparr>)))"

text \<open>The command \<open>continue\<close> behind a loop moves to the end of its body.\<close>

definition move_continue :: "blockid list \<Rightarrow> cstore \<Rightarrow> cstore res" where
  "move_continue buf st =
     (case buf of
        b # p # _ \<Rightarrow>
          bind_res (cs_get st p) (\<lambda>prev.
            if b_Code prev \<noteq> [] \<and> bc_Cmd (last (b_Code prev)) = cmdContinue
            then append_code b [bcode cmdContinue OpInt] (cs_put p (prev\<lparr>b_Code := butlast (b_Code prev)\<rparr>) st)
            else Inr st)
      | _ \<Rightarrow> Inr st)"

definition pop_block :: "'w cenv \<Rightarrow> Lexem \<Rightarrow> cmach \<Rightarrow> (32 word \<times> cmach) res" where
  "pop_block env l m =
     (case cm_stack m of
        [] \<Rightarrow> fError env (err_no errMustLCurly) l
      | s # ss \<Rightarrow>
          bind_res (move_continue (cm_blocks m) (cm_store m)) (\<lambda>st.
            if cm_blocks m = [] then Inl bad_slice
            else Inr (s, m\<lparr>cm_stack := ss, cm_blocks := tl (cm_blocks m), cm_store := st\<rparr>)))"

text \<open>One pass of the loop of \<open>CompileBlock\<close>; the number in the result is the next lexeme.\<close>

definition comp_step :: "'w cenv \<Rightarrow> Lexem list \<Rightarrow> nat \<Rightarrow> cmach \<Rightarrow> (nat \<times> cmach) res" where
  "comp_step env lx i m =
     bind_res (transition (cm_state m) (lx ! i)) (\<lambda>(ns, f).
     let next = ns AND 0xff;
         fork = (if has_flag ns stateFork then i else cm_fork m);
         (i, fork) = (if has_flag ns stateToFork then (fork, 0) else (i, fork));
         l = lx ! i;
         m = m\<lparr>cm_fork := fork\<rparr>
     in
     if has_flag ns stateStay then Inr (i, m\<lparr>cm_state := next\<rparr>)
     else
       bind_res (if next = stateEval then comp_eval env lx ns i m else Inr (int i, m)) (\<lambda>(j, m).
       let next = (if next = stateEval then cm_state m else next) in
       bind_res (if has_flag ns statePush then push_block m else Inr m) (\<lambda>m.
       bind_res (if has_flag ns statePop then pop_block env l m else Inr (next, m)) (\<lambda>(next, m).
       let next = (if has_flag ns stateToBlock then stateBlock else next);
           next = (if has_flag ns stateToBody then stateBody else next)
       in
       bind_res (handle env f (cm_blocks m) next l (cm_store m)) (\<lambda>st.
         Inr (nat (j + 1), m\<lparr>cm_state := next, cm_store := st\<rparr>))))))"

fun comp_loop :: "'w cenv \<Rightarrow> Lexem list \<Rightarrow> nat \<Rightarrow> nat \<Rightarrow> cmach \<Rightarrow> cmach res" where
  "comp_loop env lx 0 i m = Inl no_fuel"
| "comp_loop env lx (Suc n) i m =
     (if i \<ge> length lx then Inr m
      else bind_res (comp_step env lx i m) (\<lambda>(i, m). comp_loop env lx n i m))"

text \<open>The check on \<open>conditions\<close>, which must not write to the database.\<close>

definition cond_writes :: "cstore \<Rightarrow> string \<times> ObjInfo \<Rightarrow> bool res" where
  "cond_writes st p =
     (if oi_Type (snd p) \<noteq> ObjContract then Inr False
      else
        bind_res (obj_block (snd p)) (\<lambda>b.
        bind_res (cs_get st b) (\<lambda>blk.
          case map_of (b_Objects blk) ''conditions'' of
            None \<Rightarrow> Inr False
          | Some c \<Rightarrow> if oi_Type c = ObjFunc then bind_res (func_of st c) (\<lambda>f. Inr (fi_CanWrite f)) else Inr False)))"

fun check_conditions :: "cstore \<Rightarrow> (string \<times> ObjInfo) list \<Rightarrow> unit res" where
  "check_conditions st [] = Inr ()"
| "check_conditions st (p # ps) =
     bind_res (cond_writes st p) (\<lambda>w. if w then Inl (Error errCondWrite) else check_conditions st ps)"

text \<open>\<open>CompileBlock\<close> from the lexemes on; the result is the number of the root block and the store.\<close>

definition compile_lexems :: "'w cenv \<Rightarrow> Lexem list \<Rightarrow> OwnerInfo \<Rightarrow> cstore \<Rightarrow> (blockid \<times> cstore) res" where
  "compile_lexems env lx owner st =
     (case cs_alloc ((new_block None)\<lparr>b_Info := InfoState (ow_StateID owner), b_Owner := Some owner\<rparr>) st of
        (r0, st) \<Rightarrow>
          if lx = [] then Inr (r0, st)
          else
            bind_res (comp_loop env lx (4 * length lx + 4) 0
              \<lparr>cm_state = stateRoot, cm_stack = [], cm_blocks = [r0], cm_fork = 0, cm_store = st\<rparr>) (\<lambda>m.
              if cm_stack m \<noteq> [] then fError env (err_no errMustRCurly) (last lx)
              else
                bind_res (cs_get (cm_store m) r0) (\<lambda>blk.
                bind_res (check_conditions (cm_store m) (b_Objects blk)) (\<lambda>_. Inr (r0, cm_store m)))))"

definition CompileBlock ::
  "'w cenv \<Rightarrow> (string \<Rightarrow> string + 64 word) \<Rightarrow> nat \<Rightarrow> rune \<Rightarrow> rune list \<Rightarrow> OwnerInfo \<Rightarrow> cstore \<Rightarrow> (blockid \<times> cstore) res" where
  "CompileBlock env pf cap behind input owner st =
     bind_res (lexParser pf cap behind input) (\<lambda>lx. compile_lexems env lx owner st)"

text \<open>\<open>ContractsList\<close>: the names of the contracts and functions on the top level of a source.\<close>

fun list_names :: "Lexem list \<Rightarrow> int \<Rightarrow> string list \<Rightarrow> string list res" where
  "list_names [] level names = Inr names"
| "list_names (l # ls) level names =
     (let t = lx_Type l in
      if t = isLCurly then list_names ls (level + 1) names
      else if t = isRCurly then list_names ls (level - 1) names
      else if (t = key_lexem keyContract \<or> t = key_lexem keyFunc) \<and> level = 0 \<and> ls \<noteq> [] \<and> lx_Type (hd ls) = lexIdent
      then bind_res (lex_str (hd ls)) (\<lambda>s. list_names ls level (names @ [s]))
      else list_names ls level names)"

definition ContractsList :: "(string \<Rightarrow> string + 64 word) \<Rightarrow> nat \<Rightarrow> rune \<Rightarrow> rune list \<Rightarrow> string list res" where
  "ContractsList pf cap behind input = bind_res (lexParser pf cap behind input) (\<lambda>lx. list_names lx 0 [])"

end
