(* ===== verification/Expr_Correct.thy ===== *)
theory Expr_Correct
  imports Script_Compile Script_Eval
begin

text \<open>
  The compiler of expressions is correct: an expression, written with as few brackets as the
  priorities of the operators demand (or more), is compiled to its postfix code.
\<close>

section \<open>Expressions\<close>

datatype unop = UMinus | UNot

datatype binop = BOr | BAnd | BEq | BNeq | BLess | BGeq | BGreat | BLeq | BAdd | BSub | BMul | BDiv

datatype expr = Lit lexval | Name string | Ext string | Par expr | Pre unop expr | Bin binop expr expr

fun bin_lex :: "binop \<Rightarrow> 32 word" where
  "bin_lex BOr = isOr" | "bin_lex BAnd = isAnd" | "bin_lex BEq = isEqEq" | "bin_lex BNeq = isNotEq"
| "bin_lex BLess = isLess" | "bin_lex BGeq = isGrEq" | "bin_lex BGreat = isGreat" | "bin_lex BLeq = isLessEq"
| "bin_lex BAdd = isPlus" | "bin_lex BSub = isMinus" | "bin_lex BMul = isAsterisk" | "bin_lex BDiv = isSolidus"

fun bin_cmd :: "binop \<Rightarrow> 16 word" where
  "bin_cmd BOr = cmdOr" | "bin_cmd BAnd = cmdAnd" | "bin_cmd BEq = cmdEqual" | "bin_cmd BNeq = cmdNotEq"
| "bin_cmd BLess = cmdLess" | "bin_cmd BGeq = cmdNotLess" | "bin_cmd BGreat = cmdGreat" | "bin_cmd BLeq = cmdNotGreat"
| "bin_cmd BAdd = cmdAdd" | "bin_cmd BSub = cmdSub" | "bin_cmd BMul = cmdMul" | "bin_cmd BDiv = cmdDiv"

text \<open>The priorities as the language defines them.\<close>

fun bin_prio :: "binop \<Rightarrow> 16 word" where
  "bin_prio BOr = 10" | "bin_prio BAnd = 15" | "bin_prio BEq = 20" | "bin_prio BNeq = 20"
| "bin_prio BLess = 22" | "bin_prio BGeq = 22" | "bin_prio BGreat = 22" | "bin_prio BLeq = 22"
| "bin_prio BAdd = 25" | "bin_prio BSub = 25" | "bin_prio BMul = 30" | "bin_prio BDiv = 30"

fun un_lex :: "unop \<Rightarrow> 32 word" where
  "un_lex UMinus = isMinus" | "un_lex UNot = isNot"

fun un_cmd :: "unop \<Rightarrow> 16 word" where
  "un_cmd UMinus = cmdSign" | "un_cmd UNot = cmdNot"

fun prec :: "expr \<Rightarrow> 16 word" where
  "prec (Bin b l r) = bin_prio b"
| "prec (Pre u x) = cmdUnary"
| "prec _ = 100"

text \<open>
  Operators of the same priority group to the left; an operand of lower priority is in brackets; a
  unary operator stands before a literal, a variable or a bracket.
\<close>

fun well_formed :: "expr \<Rightarrow> bool" where
  "well_formed (Lit v) \<longleftrightarrow> (case v of LInt _ \<Rightarrow> True | LFloat _ \<Rightarrow> True | LBool _ \<Rightarrow> True | LNil \<Rightarrow> True | LStr _ \<Rightarrow> True | _ \<Rightarrow> False)"
| "well_formed (Name s) \<longleftrightarrow> True"
| "well_formed (Ext s) \<longleftrightarrow> True"
| "well_formed (Par x) \<longleftrightarrow> well_formed x"
| "well_formed (Pre u x) \<longleftrightarrow> well_formed x \<and> prec x = 100"
| "well_formed (Bin b l r) \<longleftrightarrow> well_formed l \<and> well_formed r \<and> bin_prio b \<le> prec l \<and> bin_prio b < prec r"

text \<open>The lexemes of an expression.\<close>

type_synonym ltok = "32 word \<times> lexval"

definition lit_type :: "lexval \<Rightarrow> 32 word" where
  "lit_type v = (case v of LStr _ \<Rightarrow> lexString | _ \<Rightarrow> lexNumber)"

fun toks :: "expr \<Rightarrow> ltok list" where
  "toks (Lit v) = [(lit_type v, v)]"
| "toks (Name s) = [(lexIdent, LStr s)]"
| "toks (Ext s) = [(lexExtend, LStr s)]"
| "toks (Par x) = (isLPar, LUint 40) # toks x @ [(isRPar, LUint 41)]"
| "toks (Pre u x) = (lexOper, LUint (un_lex u)) # toks x"
| "toks (Bin b l r) = toks l @ (lexOper, LUint (bin_lex b)) # toks r"

text \<open>
  The code of an expression: \<open>sent\<close> is written while the lexemes are read, \<open>kept\<close> are the operators that
  wait in the buffer.
\<close>

definition bin_code :: "binop \<Rightarrow> ByteCode" where
  "bin_code b = bcode (bin_cmd b) (OpPrior (bin_prio b))"

definition un_code :: "unop \<Rightarrow> ByteCode" where
  "un_code u = bcode (un_cmd u) (OpPrior cmdUnary)"

fun postfix :: "(string \<Rightarrow> VarInfo) \<Rightarrow> expr \<Rightarrow> ByteCode list" where
  "postfix vi (Lit v) = [bcode cmdPush (OpVal (val_of_lex v))]"
| "postfix vi (Name s) = [bcode cmdVar (OpVar (vi s))]"
| "postfix vi (Ext s) = [bcode cmdExtend (OpVal (VString s))]"
| "postfix vi (Par x) = postfix vi x"
| "postfix vi (Pre u x) = postfix vi x @ [un_code u]"
| "postfix vi (Bin b l r) = postfix vi l @ postfix vi r @ [bin_code b]"

fun kept :: "expr \<Rightarrow> ByteCode list" where
  "kept (Pre u x) = [un_code u]"
| "kept (Bin b l r) = kept r @ [bin_code b]"
| "kept _ = []"

fun sent :: "(string \<Rightarrow> VarInfo) \<Rightarrow> expr \<Rightarrow> ByteCode list" where
  "sent vi (Pre u x) = postfix vi x"
| "sent vi (Bin b l r) = postfix vi l @ sent vi r"
| "sent vi x = postfix vi x"

lemma sent_kept: "sent vi x @ kept x = postfix vi x"
  by (induction x) auto

lemma prior_codes [simp]:
  "prior_of (bin_code b) = Inr (bin_prio b)" "prior_of (un_code u) = Inr cmdUnary" "prior_of sys_mark = Inr 0xff"
  by (simp_all add: prior_of_def bin_code_def un_code_def sys_mark_def bcode_def)

lemma cmds_not_sys:
  "bc_Cmd (bin_code b) \<noteq> cmdSys" "bc_Cmd (un_code u) \<noteq> cmdSys"
  by (cases b; simp add: bin_code_def bcode_def cmd_consts cmdSys_def) (cases u; simp add: un_code_def bcode_def cmd_consts cmdSys_def)

lemma bin_prio_range: "10 \<le> bin_prio b" "bin_prio b \<le> 30" "bin_prio b < cmdUnary" "bin_prio b \<noteq> 0xff"
  by (cases b; simp add: cmdUnary_def)+

section \<open>The buffer\<close>

text \<open>The buffer before an operand, and before an operand whose weakest operator has the priority \<open>p\<close>.\<close>

definition safe_top :: "ByteCode list \<Rightarrow> bool" where
  "safe_top buf \<longleftrightarrow> buf = [] \<or> hd buf = sys_mark \<or> (\<exists>b. hd buf = bin_code b) \<or> (\<exists>u. hd buf = un_code u)"

definition open_for :: "16 word \<Rightarrow> ByteCode list \<Rightarrow> bool" where
  "open_for p buf \<longleftrightarrow> buf = [] \<or> hd buf = sys_mark \<or> (\<exists>b. hd buf = bin_code b \<and> bin_prio b < p)"

lemma open_safe: "open_for p buf \<Longrightarrow> safe_top buf"
  by (auto simp: open_for_def safe_top_def)

lemma open_mono: "open_for p buf \<Longrightarrow> p \<le> q \<Longrightarrow> open_for q buf"
  by (auto simp: open_for_def)

lemma safe_Cons [simp]: "safe_top (bin_code b # buf)" "safe_top (un_code u # buf)" "safe_top (sys_mark # buf)"
  by (auto simp: safe_top_def)

lemma open_Cons: "open_for p (sys_mark # buf)" "bin_prio b < p \<Longrightarrow> open_for p (bin_code b # buf)"
  by (auto simp: open_for_def)

text \<open>An operator of priority \<open>p\<close> sends the stronger ones before it to the code.\<close>

lemma push_oper_binary:
  assumes "\<forall>b\<in>set bs. p \<le> bin_prio b" "p \<noteq> cmdUnary" "open_for p buf" "length bs < n"
  shows "push_oper n op p (map bin_code bs @ buf) out = Inr (op # buf, out @ map bin_code bs)"
  using assms
proof (induction bs arbitrary: n out)
  case Nil
  then obtain m where "n = Suc m" by (cases n) auto
  with Nil show ?case by (cases buf) (auto simp: open_for_def sys_mark_def bcode_def prior_of_def bin_code_def not_le)
next
  case (Cons b bs)
  then obtain m where "n = Suc m" "length bs < m" by (cases n) auto
  with Cons show ?case using bin_prio_range(3) [of b] cmds_not_sys(1) [of b] by auto
qed

lemma take_unary_stop:
  "open_for p buf \<Longrightarrow> p \<le> cmdUnary \<Longrightarrow> take_unary us (map bin_code bs @ buf) = Inr (us, map bin_code bs @ buf)"
proof (cases bs)
  case (Cons b bs')
  then show ?thesis using bin_prio_range(3) [of b] by auto
next
  case Nil
  assume "open_for p buf" "p \<le> cmdUnary"
  then show ?thesis using Nil by (cases buf) (auto simp: open_for_def cmdUnary_def)
qed

lemma push_oper_unary:
  assumes "\<forall>b\<in>set bs. p \<le> bin_prio b" "p < cmdUnary" "open_for p buf" "Suc (length bs) < n"
  shows "push_oper n op p (un_code u # map bin_code bs @ buf) out = Inr (op # buf, out @ un_code u # map bin_code bs)"
proof -
  obtain m where "n = Suc m" "length bs < m" using assms(4) by (cases n) auto
  then show ?thesis
    using assms push_oper_binary [of bs p buf m op "out @ [un_code u]"] cmds_not_sys(2) [of u]
    by (auto simp: take_unary_stop less_imp_le)
qed

text \<open>The operators that wait for an expression to end: binary ones at least as strong as it, and at most one unary on top.\<close>

definition pending :: "16 word \<Rightarrow> ByteCode list \<Rightarrow> bool" where
  "pending p ks \<longleftrightarrow> (\<exists>us bs. ks = map un_code us @ map bin_code bs \<and> length us \<le> 1 \<and> (\<forall>b\<in>set bs. p \<le> bin_prio b))"

lemma pending_kept: "well_formed x \<Longrightarrow> pending (prec x) (kept x)"
proof (induction x)
  case (Bin b l r)
  then obtain us bs where "kept r = map un_code us @ map bin_code bs" "length us \<le> 1" "\<forall>b\<in>set bs. prec r \<le> bin_prio b"
    by (auto simp: pending_def)
  moreover have "bin_prio b < prec r" using Bin by simp
  ultimately show ?case unfolding pending_def by (intro exI [of _ us] exI [of _ "bs @ [b]"]) auto
next
  case (Pre u x)
  then show ?case unfolding pending_def by (intro exI [of _ "[u]"] exI [of _ "[]"]) simp
qed (auto simp: pending_def)

lemma push_oper_pending:
  assumes "pending q ks" "p \<le> q" "p < cmdUnary" "open_for p buf" "length ks < n"
  shows "push_oper n op p (ks @ buf) out = Inr (op # buf, out @ ks)"
proof -
  obtain us bs where ks: "ks = map un_code us @ map bin_code bs" "length us \<le> 1" "\<forall>b\<in>set bs. q \<le> bin_prio b"
    using assms(1) by (auto simp: pending_def)
  have bs: "\<forall>b\<in>set bs. p \<le> bin_prio b" using ks(3) assms(2) by auto
  consider "us = []" | u where "us = [u]" using ks(2) by (cases us) auto
  then show ?thesis
  proof cases
    case 1
    then show ?thesis using assms ks push_oper_binary [OF bs _ assms(4), of n op out] by auto
  next
    case 2
    then show ?thesis using assms ks push_oper_unary [OF bs assms(3,4), of n op u out] by auto
  qed
qed

lemma close_pop_pending:
  assumes "pending q ks"
  shows "close_pop (ks @ sys_mark # buf) out = Inr (Some (buf, out @ ks))"
proof -
  have "close_pop (map bin_code bs @ sys_mark # buf) out = Inr (Some (buf, out @ map bin_code bs))" for bs out
    using bin_prio_range(4) by (induction bs arbitrary: out) auto
  moreover obtain us bs where "ks = map un_code us @ map bin_code bs" "length us \<le> 1"
    using assms by (auto simp: pending_def)
  ultimately show ?thesis by (cases us) (auto simp: cmdUnary_def)
qed


section \<open>The loop over the lexemes of an expression\<close>

definition lt :: "Lexem \<Rightarrow> ltok" where
  "lt l = (lx_Type l, lx_Value l)"

definition matches :: "Lexem list \<Rightarrow> nat \<Rightarrow> ltok list \<Rightarrow> bool" where
  "matches lx i ts \<longleftrightarrow> i + length ts \<le> length lx \<and> map lt (take (length ts) (drop i lx)) = ts"

lemma matches_Nil: "matches lx i [] \<longleftrightarrow> i \<le> length lx"
  by (simp add: matches_def)

lemma matches_Cons: "matches lx i (t # ts) \<longleftrightarrow> i < length lx \<and> lt (lx ! i) = t \<and> matches lx (Suc i) ts"
proof (cases "i < length lx")
  case True
  then have "drop i lx = lx ! i # drop (Suc i) lx" by (rule Cons_nth_drop_Suc [symmetric])
  then show ?thesis using True by (auto simp: matches_def)
qed (auto simp: matches_def)

lemma matches_append: "matches lx i (ts @ us) \<longleftrightarrow> matches lx i ts \<and> matches lx (i + length ts) us"
proof (induction ts arbitrary: i)
  case Nil
  then show ?case by (auto simp: matches_Nil matches_def)
qed (auto simp: matches_Cons)

text \<open>The lexeme before an operand, and the one behind it.\<close>

definition fresh :: "Lexem list \<Rightarrow> nat \<Rightarrow> bool" where
  "fresh lx i \<longleftrightarrow> i = 0 \<or> lx_Type (lx ! (i - 1)) \<notin> set operand_types"

definition follow :: "Lexem list \<Rightarrow> nat \<Rightarrow> bool" where
  "follow lx i \<longleftrightarrow> (i < length lx \<longrightarrow> lx_Type (lx ! i) \<noteq> isLPar \<and> lx_Type (lx ! i) \<noteq> isLBrack)"

fun names_of :: "expr \<Rightarrow> string set" where
  "names_of (Name s) = {s}"
| "names_of (Par x) = names_of x"
| "names_of (Pre u x) = names_of x"
| "names_of (Bin b l r) = names_of l \<union> names_of r"
| "names_of _ = {}"

definition resolves :: "'w cenv \<Rightarrow> cstore \<Rightarrow> blockid list \<Rightarrow> (string \<Rightarrow> VarInfo) \<Rightarrow> expr \<Rightarrow> bool" where
  "resolves env st buf vi x \<longleftrightarrow>
     (\<forall>s\<in>names_of x. findObj env st s buf = Inr (Some (vi_Obj (vi s), vi_Owner (vi s))) \<and> oi_Type (vi_Obj (vi s)) = ObjVar)"

definition after :: "(string \<Rightarrow> VarInfo) \<Rightarrow> expr \<Rightarrow> evst \<Rightarrow> evst" where
  "after vi x e =
     e\<lparr>ev_i := ev_i e + length (toks x), ev_buffer := kept x @ ev_buffer e, ev_code := ev_code e @ sent vi x, ev_noMap := True\<rparr>"

lemmas lex_kinds = lex_consts sys_consts

lemma step_loop:
  assumes "ev_i e < length lx" "eval_step env buf lx ind e = Inr (Next e')"
  shows "eval_loop env buf lx ind (Suc n) e = eval_loop env buf lx ind n (e'\<lparr>ev_i := Suc (ev_i e')\<rparr>)"
  using assms by simp

lemma step_literal:
  assumes "ev_i e < length lx" "lt (lx ! ev_i e) = (lit_type v, v)" "well_formed (Lit v)"
  shows "eval_loop env buf lx ind (Suc n) e = eval_loop env buf lx ind n (after vi (Lit v) e)"
proof -
  have "lit_type v = lexNumber \<or> lit_type v = lexString" by (simp add: lit_type_def split: lexval.split)
  then have "lx_Type (lx ! ev_i e) = lexNumber \<or> lx_Type (lx ! ev_i e) = lexString" and "lx_Value (lx ! ev_i e) = v"
    using assms(2) by (auto simp: lt_def)
  then have "eval_step env buf lx ind e = Inr (Next (emit (bcode cmdPush (OpVal (val_of_lex v))) (e\<lparr>ev_noMap := True\<rparr>)))"
    by (elim disjE) (simp_all add: eval_step_def lex_kinds)
  then show ?thesis using assms(1) by (cases e) (simp add: emit_def after_def)
qed

lemma step_extend:
  assumes "ev_i e < length lx" "lt (lx ! ev_i e) = (lexExtend, LStr s)" "follow lx (Suc (ev_i e))"
  shows "eval_loop env buf lx ind (Suc n) e = eval_loop env buf lx ind n (after vi (Ext s) e)"
proof -
  have "eval_step env buf lx ind e = Inr (Next (emit (bcode cmdExtend (OpVal (VString s))) (e\<lparr>ev_noMap := True\<rparr>)))"
    using assms by (auto simp: eval_step_def lt_def lex_kinds Let_def eval_extend_def lex_str_def next_is_def follow_def)
  then show ?thesis using assms(1) by (cases e) (simp add: emit_def after_def)
qed

lemma step_name:
  assumes "ev_i e < length lx" "lt (lx ! ev_i e) = (lexIdent, LStr s)" "follow lx (Suc (ev_i e))"
    and "findObj env (ev_store e) s buf = Inr (Some (vi_Obj (vi s), vi_Owner (vi s)))" "oi_Type (vi_Obj (vi s)) = ObjVar"
  shows "eval_loop env buf lx ind (Suc n) e = eval_loop env buf lx ind n (after vi (Name s) e)"
proof -
  have "eval_step env buf lx ind e = Inr (Next (emit (bcode cmdVar (OpVar (vi s))) (e\<lparr>ev_noMap := True\<rparr>)))"
    using assms by (cases "vi s") (auto simp: eval_step_def lt_def lex_kinds Let_def eval_ident_def lex_str_def follow_def)
  then show ?thesis using assms(1) by (cases e) (simp add: emit_def after_def)
qed

lemma step_LPar:
  assumes "ev_i e < length lx" "lt (lx ! ev_i e) = (isLPar, v)"
  shows "eval_loop env buf lx ind (Suc n) e =
    eval_loop env buf lx ind n (e\<lparr>ev_i := Suc (ev_i e), ev_buffer := sys_mark # ev_buffer e, ev_noMap := False\<rparr>)"
proof -
  have "eval_step env buf lx ind e = Inr (Next (buffer_push sys_mark (e\<lparr>ev_noMap := False\<rparr>)))"
    using assms by (auto simp: eval_step_def lt_def lex_kinds Let_def)
  then show ?thesis using assms(1) by (cases e) (simp add: buffer_push_def)
qed

lemma top_no_call:
  assumes "safe_top buf" "buf \<noteq> []"
  shows "bc_Cmd (hd buf) \<notin> {cmdFuncName, cmdCall, cmdCallVari}"
proof -
  have "bin_cmd b \<notin> {cmdFuncName, cmdCall, cmdCallVari}" for b by (cases b) (simp_all add: cmd_consts)
  moreover have "un_cmd u \<notin> {cmdFuncName, cmdCall, cmdCallVari}" for u by (cases u) (simp_all add: cmd_consts)
  moreover have "cmdSys \<notin> {cmdFuncName, cmdCall, cmdCallVari}" by (simp add: cmd_consts cmdSys_def)
  ultimately show ?thesis using assms by (auto simp: safe_top_def sys_mark_def bin_code_def un_code_def bcode_def)
qed

lemma step_RPar:
  assumes "ev_i e < length lx" "lt (lx ! ev_i e) = (isRPar, v)" "ev_buffer e = ks @ sys_mark # b" "pending q ks" "safe_top b"
  shows "eval_loop env buf lx ind (Suc n) e =
    eval_loop env buf lx ind n (e\<lparr>ev_i := Suc (ev_i e), ev_buffer := b, ev_code := ev_code e @ ks, ev_noMap := True\<rparr>)"
proof -
  have "eval_RPar env buf lx (lx ! ev_i e) (e\<lparr>ev_noMap := False\<rparr>) =
      Inr (e\<lparr>ev_buffer := b, ev_code := ev_code e @ ks, ev_noMap := True\<rparr>)"
    using assms(3) close_pop_pending [OF assms(4), of b "ev_code e"] top_no_call [OF assms(5)]
    by (cases b) (auto simp: eval_RPar_def Let_def close_tail_def close_call_def buffer_top_def)
  then have "eval_step env buf lx ind e = Inr (Next (e\<lparr>ev_buffer := b, ev_code := ev_code e @ ks, ev_noMap := True\<rparr>))"
    using assms(1,2) by (auto simp: eval_step_def lt_def lex_kinds Let_def)
  then show ?thesis using assms(1) by (cases e) simp
qed

lemma opers_bin: "map_of opers (bin_lex b) = Some (bin_cmd b, bin_prio b)"
  by (cases b) (simp_all add: opers_def oper_consts sys_consts)

lemma bin_lex_minus: "bin_cmd b = cmdSub \<longleftrightarrow> b = BSub"
  by (cases b) (simp_all add: cmd_consts)

lemma step_binary:
  assumes "ev_i e < length lx" "lt (lx ! ev_i e) = (lexOper, LUint (bin_lex b))"
    and "ev_buffer e = ks @ buf'" "pending q ks" "bin_prio b \<le> q" "open_for (bin_prio b) buf'"
    and "0 < ev_i e" "lx_Type (lx ! (ev_i e - 1)) \<in> set operand_types"
  shows "eval_loop env buf lx ind (Suc n) e =
    eval_loop env buf lx ind n (e\<lparr>ev_i := Suc (ev_i e), ev_buffer := bin_code b # buf', ev_code := ev_code e @ ks, ev_noMap := False\<rparr>)"
proof -
  have "push_oper (Suc (length (ev_buffer e))) (bin_code b) (bin_prio b) (ev_buffer e) (ev_code e) = Inr (bin_code b # buf', ev_code e @ ks)"
    unfolding assms(3) by (rule push_oper_pending [OF assms(4,5) bin_prio_range(3) assms(6)]) simp
  then have "eval_oper lx (lx ! ev_i e) (e\<lparr>ev_noMap := False\<rparr>) =
      Inr (e\<lparr>ev_buffer := bin_code b # buf', ev_code := ev_code e @ ks, ev_noMap := False\<rparr>)"
    using assms(2,7,8) by (simp add: eval_oper_def lex_uint_def lt_def opers_bin bin_code_def del: push_oper.simps)
  then have "eval_step env buf lx ind e = Inr (Next (e\<lparr>ev_buffer := bin_code b # buf', ev_code := ev_code e @ ks, ev_noMap := False\<rparr>))"
    using assms(1,2) by (auto simp: eval_step_def lt_def lex_kinds Let_def)
  then show ?thesis using assms(1) by (cases e) simp
qed

lemma step_unary:
  assumes "ev_i e < length lx" "lt (lx ! ev_i e) = (lexOper, LUint (un_lex u))" "safe_top (ev_buffer e)" "fresh lx (ev_i e)"
  shows "eval_loop env buf lx ind (Suc n) e =
    eval_loop env buf lx ind n (e\<lparr>ev_i := Suc (ev_i e), ev_buffer := un_code u # ev_buffer e, ev_noMap := False\<rparr>)"
proof -
  have "push_oper (Suc (length (ev_buffer e))) (un_code u) cmdUnary (ev_buffer e) (ev_code e) = Inr (un_code u # ev_buffer e, ev_code e)"
    using assms(3) by (cases "ev_buffer e") (auto simp: safe_top_def)
  moreover have "map_of opers (un_lex u) = Some (if u = UMinus then (cmdSub, 25) else (cmdNot, cmdUnary))"
    by (cases u) (simp_all add: opers_def oper_consts sys_consts)
  ultimately have "eval_oper lx (lx ! ev_i e) (e\<lparr>ev_noMap := False\<rparr>) =
      Inr (e\<lparr>ev_buffer := un_code u # ev_buffer e, ev_noMap := False\<rparr>)"
    using assms(2,4)
    by (cases u) (simp_all add: eval_oper_def lex_uint_def lt_def un_code_def fresh_def cmd_consts del: push_oper.simps)
  then have "eval_step env buf lx ind e = Inr (Next (e\<lparr>ev_buffer := un_code u # ev_buffer e, ev_noMap := False\<rparr>))"
    using assms(1,2) by (auto simp: eval_step_def lt_def lex_kinds Let_def)
  then show ?thesis using assms(1) by (cases e) simp
qed


lemma last_tok: "toks x \<noteq> []" "fst (last (toks x)) \<in> set operand_types"
  by (induction x) (auto simp: operand_types_def lit_type_def split: lexval.split)

lemma matches_nth: "matches lx i ts \<Longrightarrow> k < length ts \<Longrightarrow> lt (lx ! (i + k)) = ts ! k"
proof -
  assume "matches lx i ts" "k < length ts"
  then have "map lt (take (length ts) (drop i lx)) ! k = ts ! k" "i + k < length lx" by (auto simp: matches_def)
  then show ?thesis using \<open>k < length ts\<close> by simp
qed

lemma prec_atom:
  assumes "prec x = 100"
  shows "kept x = []" "sent vi x = postfix vi x" "x \<noteq> Bin b l r"
proof -
  have "x \<noteq> Bin b l r" for b l r using assms bin_prio_range(2) [of b] by auto
  then show "kept x = []" "sent vi x = postfix vi x" "x \<noteq> Bin b l r" using assms by (cases x; simp add: cmdUnary_def)+
qed

lemma last_lexem:
  assumes "matches lx i (toks x)"
  shows "0 < i + length (toks x)" "lx_Type (lx ! (i + length (toks x) - 1)) \<in> set operand_types"
proof -
  have n: "0 < length (toks x)" using last_tok(1) [of x] by simp
  then show "0 < i + length (toks x)" by simp
  have "i + (length (toks x) - 1) = i + length (toks x) - 1" using n by linarith
  then have "lt (lx ! (i + length (toks x) - 1)) = last (toks x)"
    using matches_nth [OF assms, of "length (toks x) - 1"] n by (simp add: last_conv_nth)
  then have "lx_Type (lx ! (i + length (toks x) - 1)) = fst (last (toks x))" by (metis fst_conv lt_def)
  then show "lx_Type (lx ! (i + length (toks x) - 1)) \<in> set operand_types" using last_tok(2) [of x] by simp
qed

lemma fresh_after: "lt (lx ! i) = (t, v) \<Longrightarrow> t \<in> {isLPar, lexOper} \<Longrightarrow> fresh lx (Suc i)"
  by (auto simp: fresh_def lt_def operand_types_def lex_kinds)

lemma follow_at: "lt (lx ! i) = (t, v) \<Longrightarrow> t \<in> {isRPar, lexOper, isRCurly, lexNewLine} \<Longrightarrow> follow lx i"
  by (auto simp: follow_def lt_def lex_kinds)

lemma loop_expr:
  assumes "well_formed x" "matches lx (ev_i e) (toks x)" "fresh lx (ev_i e)" "follow lx (ev_i e + length (toks x))"
    and "resolves env (ev_store e) buf vi x" "safe_top (ev_buffer e)"
    and "\<And>b l r. x = Bin b l r \<Longrightarrow> open_for (bin_prio b) (ev_buffer e)"
  shows "eval_loop env buf lx ind (length (toks x) + n) e = eval_loop env buf lx ind n (after vi x e)"
  using assms
proof (induction x arbitrary: e n)
  case (Lit v)
  then show ?case using step_literal [of e lx v env buf ind n vi] by (simp add: matches_Cons)
next
  case (Name s)
  then show ?case using step_name [of e lx s env buf vi ind n] by (simp add: matches_Cons resolves_def)
next
  case (Ext s)
  then show ?case using step_extend [of e lx s env buf ind n vi] by (simp add: matches_Cons)
next
  case (Par x)
  let ?e1 = "e\<lparr>ev_i := Suc (ev_i e), ev_buffer := sys_mark # ev_buffer e, ev_noMap := False\<rparr>"
  have m: "ev_i e < length lx" "lt (lx ! ev_i e) = (isLPar, LUint 40)" "matches lx (Suc (ev_i e)) (toks x)"
    "Suc (ev_i e) + length (toks x) < length lx" "lt (lx ! (Suc (ev_i e) + length (toks x))) = (isRPar, LUint 41)"
    using Par.prems(2) by (auto simp: matches_Cons matches_append)
  have x: "well_formed x" "resolves env (ev_store e) buf vi x" using Par.prems by (simp_all add: resolves_def)
  have "eval_loop env buf lx ind (length (toks (Par x)) + n) e = eval_loop env buf lx ind (length (toks x) + Suc n) ?e1"
    using step_LPar [OF m(1,2), of env buf ind "length (toks x) + Suc n"] by simp
  also have "\<dots> = eval_loop env buf lx ind (Suc n) (after vi x ?e1)"
    using x m fresh_after [OF m(2)] follow_at [OF m(5)] by (intro Par.IH) (simp_all add: open_Cons)
  also have "\<dots> = eval_loop env buf lx ind n (after vi (Par x) e)"
    using m(4,5) Par.prems(6) sent_kept [of vi x]
    by (subst step_RPar [where ks = "kept x" and b = "ev_buffer e", OF _ _ _ pending_kept [OF x(1)]])
       (auto simp: after_def)
  finally show ?case .
next
  case (Pre u x)
  let ?e1 = "e\<lparr>ev_i := Suc (ev_i e), ev_buffer := un_code u # ev_buffer e, ev_noMap := False\<rparr>"
  have m: "ev_i e < length lx" "lt (lx ! ev_i e) = (lexOper, LUint (un_lex u))" "matches lx (Suc (ev_i e)) (toks x)"
    using Pre.prems(2) by (auto simp: matches_Cons)
  have x: "well_formed x" "prec x = 100" "resolves env (ev_store e) buf vi x" using Pre.prems by (simp_all add: resolves_def)
  note atom = prec_atom [OF x(2)]
  have "eval_loop env buf lx ind (length (toks (Pre u x)) + n) e = eval_loop env buf lx ind (length (toks x) + n) ?e1"
    using step_unary [OF m(1,2) Pre.prems(6,3), of env buf ind "length (toks x) + n"] by simp
  also have "\<dots> = eval_loop env buf lx ind n (after vi x ?e1)"
    using x m Pre.prems(4) fresh_after [OF m(2)] by (intro Pre.IH) (simp_all add: atom)
  also have "after vi x ?e1 = after vi (Pre u x) e" by (cases e) (simp add: after_def atom)
  finally show ?case .
next
  case (Bin b l r)
  let ?i = "ev_i e + length (toks l)"
  let ?e1 = "after vi l e"
  let ?e2 = "?e1\<lparr>ev_i := Suc ?i, ev_buffer := bin_code b # ev_buffer e, ev_code := ev_code ?e1 @ kept l, ev_noMap := False\<rparr>"
  have m: "matches lx (ev_i e) (toks l)" "?i < length lx" "lt (lx ! ?i) = (lexOper, LUint (bin_lex b))" "matches lx (Suc ?i) (toks r)"
    using Bin.prems(2) by (auto simp: matches_Cons matches_append)
  have x: "well_formed l" "well_formed r" "bin_prio b \<le> prec l" "bin_prio b < prec r"
    "resolves env (ev_store e) buf vi l" "resolves env (ev_store e) buf vi r"
    using Bin.prems by (auto simp: resolves_def)
  have ob: "open_for (bin_prio b) (ev_buffer e)" using Bin.prems(7) by simp
  have "eval_loop env buf lx ind (length (toks (Bin b l r)) + n) e = eval_loop env buf lx ind (length (toks l) + Suc (length (toks r) + n)) e"
    by (simp add: ac_simps)
  also have "\<dots> = eval_loop env buf lx ind (Suc (length (toks r) + n)) ?e1"
    using x m ob Bin.prems(3,6) follow_at [OF m(3)] by (intro Bin.IH(1)) (auto intro: open_mono)
  also have "\<dots> = eval_loop env buf lx ind (length (toks r) + n) ?e2"
    using m ob x(3) last_lexem [OF m(1)] pending_kept [OF x(1)]
    by (subst step_binary [where ks = "kept l" and buf' = "ev_buffer e" and b = b]) (auto simp: after_def)
  also have "\<dots> = eval_loop env buf lx ind n (after vi r ?e2)"
    using x m Bin.prems(4) fresh_after [OF m(3)]
    by (intro Bin.IH(2)) (auto simp: after_def add.assoc intro: open_Cons)
  also have "after vi r ?e2 = after vi (Bin b l r) e"
    using sent_kept [of vi l] by (cases e) (simp add: after_def)
  finally show ?case .
qed


section \<open>Expressions of statements\<close>

text \<open>The place of an expression: after \<open>return\<close>, \<open>if\<close>, \<open>while\<close> or \<open>=\<close>, up to a curly bracket or the end of the line.\<close>

definition eval_start :: "32 word list" where
  "eval_start = [key_lexem keyReturn, key_lexem keyIf, key_lexem keyWhile, key_lexem keyError, key_lexem keyWarning,
     key_lexem keyInfo, isEq]"

definition eval_end :: "32 word list" where
  "eval_end = [isRCurly, isLCurly, lexNewLine]"

text \<open>Where \<open>compileEval\<close> leaves the index: before a curly bracket, at a line break.\<close>

definition end_index :: "32 word \<Rightarrow> nat \<Rightarrow> int" where
  "end_index t i = (if t = lexNewLine then int i else int i - 1)"

lemma step_start:
  assumes "ev_i e < length lx" "lt (lx ! ev_i e) = (t, v)" "t \<in> set eval_start" "t = isEq \<or> (\<exists>u. v = LUint u \<and> u \<noteq> key_id keyTail)"
  shows "eval_loop env buf lx ind (Suc n) e = eval_loop env buf lx ind n (e\<lparr>ev_i := Suc (ev_i e), ev_noMap := False\<rparr>)"
proof -
  have "eval_step env buf lx ind e = Inr (Next (e\<lparr>ev_noMap := False\<rparr>))"
    using assms(2-4)
    by (auto simp: eval_start_def eval_step_def lt_def lex_kinds key_lexem_def lexem_kind_def lex_uint_def)
  then show ?thesis using assms(1) by (cases e) simp
qed

lemma pending_not_sys: "pending q ks \<Longrightarrow> \<not> list_ex (\<lambda>c. bc_Cmd c = cmdSys) ks"
  by (auto simp: pending_def list_ex_iff cmds_not_sys)

lemma step_end:
  assumes "ev_i e < length lx" "lt (lx ! ev_i e) = (t, v)" "t \<in> set eval_end" "ev_noMap e" "pending q (ev_buffer e)"
    and "0 < ev_i e" "lx_Type (lx ! (ev_i e - 1)) \<in> set operand_types"
  shows "eval_loop env buf lx ind (Suc n) e = Inr (end_index t (ev_i e), e\<lparr>ev_noMap := False\<rparr>)"
proof -
  have "lx_Type (lx ! (ev_i e - 1)) \<noteq> isComma" "lx_Type (lx ! (ev_i e - 1)) \<noteq> lexOper"
    using assms(7) by (auto simp: operand_types_def lex_kinds)
  then have "eval_step env buf lx ind e = Inr (Stop (end_index t (ev_i e)) (e\<lparr>ev_noMap := False\<rparr>))"
    using assms(2-4) pending_not_sys [OF assms(5)]
    by (auto simp: eval_end_def eval_step_def lt_def lex_kinds end_index_def Let_def)
  then show ?thesis using assms(1) by simp
qed

text \<open>
  The compiler of expressions respects the priorities of the operators. Take any expression of
  literals, variables, extended variables, brackets, unary and binary operators, written with the
  brackets that its priorities demand, behind \<open>return\<close>, \<open>if\<close>, \<open>while\<close>, \<open>=\<close> and the like, and followed by a curly
  bracket or a line break. Then \<open>compileEval\<close> succeeds, leaves the index at the end of the
  expression, and appends to the code of the current block exactly the postfix code of the
  expression.
\<close>

lemma compile_expr:
  assumes "well_formed x" and "matches lx i ((t, v) # toks x @ [(t', v')])"
    and "t \<in> set eval_start" "t = isEq \<or> (\<exists>u. v = LUint u \<and> u \<noteq> key_id keyTail)" "t' \<in> set eval_end"
    and "resolves env st (b # bs) vi x" and "cs_blocks st b = Some blk"
  shows "compileEval env lx i (b # bs) st =
    Inr (end_index t' (i + 1 + length (toks x)), cs_put b (blk\<lparr>b_Code := b_Code blk @ postfix vi x\<rparr>) st)"
proof -
  let ?e0 = "\<lparr>ev_i = i, ev_buffer = [], ev_code = [], ev_parcount = [], ev_index = None, ev_noMap = False, ev_store = st\<rparr>"
  let ?e1 = "?e0\<lparr>ev_i := Suc i\<rparr>"
  let ?j = "i + 1 + length (toks x)"
  have m: "i < length lx" "lt (lx ! i) = (t, v)" "matches lx (Suc i) (toks x)" "?j < length lx" "lt (lx ! ?j) = (t', v')"
    using assms(2) by (auto simp: matches_Cons matches_append)
  have fr: "fresh lx (Suc i)"
    using m(2) assms(3) by (auto simp: fresh_def lt_def operand_types_def eval_start_def lex_kinds key_lexem_def)
  have fo: "follow lx (Suc i + length (toks x))"
    using m(5) assms(5) by (auto simp: follow_def lt_def eval_end_def lex_kinds)
  let ?n = "length lx - length (toks x)"
  have n: "length lx + 2 = Suc (length (toks x) + Suc ?n)" using m(4) by simp
  have "eval_loop env (b # bs) lx i (length lx + 2) ?e0 = eval_loop env (b # bs) lx i (length (toks x) + Suc ?n) ?e1"
    unfolding n by (subst step_start [OF _ _ assms(3,4)]) (use m in simp_all)
  also have "\<dots> = eval_loop env (b # bs) lx i (Suc ?n) (after vi x ?e1)"
    using m fr fo assms(1,6) by (intro loop_expr) (simp_all add: safe_top_def open_for_def)
  also have "\<dots> = Inr (end_index t' ?j, (after vi x ?e1)\<lparr>ev_noMap := False\<rparr>)"
    using m(4,5) assms(5) last_lexem [OF m(3)] pending_kept [OF assms(1)]
    by (subst step_end [where t = t' and v = v']) (auto simp: after_def)
  finally show ?thesis
    using assms(7) pending_not_sys [OF pending_kept [OF assms(1)]] sent_kept [of vi x]
    by (simp add: compileEval_def buf_nth_def drain_def after_def cs_upd_def cs_get_def)
qed

end
