(* ===== verification/Expr_Run.thy ===== *)
theory Expr_Run
  imports Expr_Correct
begin

text \<open>
  The machine executes compiled expressions correctly: the postfix code of an expression leaves the
  value of the expression on the stack and costs what its commands cost. Together with the compiler
  this gives the meaning of the expressions of the language.
\<close>

section \<open>The value of an expression\<close>

text \<open>The meaning of an expression by recursion on its structure; \<open>None\<close> where an operator fails.\<close>

fun bin_fun :: "binop \<Rightarrow> 'w VM \<Rightarrow> heap \<Rightarrow> val \<Rightarrow> val \<Rightarrow> opres" where
  "bin_fun BOr = op_Or" | "bin_fun BAnd = op_And" | "bin_fun BEq = op_Equal" | "bin_fun BLess = op_Less" | "bin_fun BGreat = op_Great"
| "bin_fun BNeq = (\<lambda>vm h a b. negate_bin (op_Equal vm h a b))"
| "bin_fun BGeq = (\<lambda>vm h a b. negate_bin (op_Less vm h a b))"
| "bin_fun BLeq = (\<lambda>vm h a b. negate_bin (op_Great vm h a b))"
| "bin_fun BAdd = op_Add" | "bin_fun BSub = op_Sub" | "bin_fun BMul = op_Mul" | "bin_fun BDiv = op_Div"

fun un_fun :: "unop \<Rightarrow> 'w VM \<Rightarrow> heap \<Rightarrow> val \<Rightarrow> val res" where
  "un_fun UMinus vm h v = op_Sign v"
| "un_fun UNot vm h v = bind_res (valueToBool vm h v) (\<lambda>b. Inr (VBool (\<not> b)))"

definition widen :: "val \<Rightarrow> val" where
  "widen v = (case v of VInt i \<Rightarrow> VInt64 i | _ \<Rightarrow> v)"

definition lookup_var :: "VarInfo \<Rightarrow> 'w RunTime \<Rightarrow> val option" where
  "lookup_var ivar s = (case var_value ivar s of Some (Inr r, _) \<Rightarrow> r | _ \<Rightarrow> None)"

fun value_of :: "'w VM \<Rightarrow> (string \<Rightarrow> VarInfo) \<Rightarrow> 'w RunTime \<Rightarrow> expr \<Rightarrow> val option" where
  "value_of vm vi s (Lit v) = Some (val_of_lex v)"
| "value_of vm vi s (Name n) = lookup_var (vi n) s"
| "value_of vm vi s (Ext n) = map_option widen (rt_extend s n)"
| "value_of vm vi s (Par x) = value_of vm vi s x"
| "value_of vm vi s (Pre u x) =
     (case value_of vm vi s x of
        None \<Rightarrow> None
      | Some v \<Rightarrow> (case un_fun u vm (rt_heap s) v of Inr r \<Rightarrow> Some r | Inl _ \<Rightarrow> None))"
| "value_of vm vi s (Bin b l r) =
     (case value_of vm vi s l of
        None \<Rightarrow> None
      | Some x \<Rightarrow>
          (case value_of vm vi s r of
             None \<Rightarrow> None
           | Some y \<Rightarrow> (case bin_fun b vm (rt_heap s) x y of Inr (v, None) \<Rightarrow> Some v | _ \<Rightarrow> None)))"

text \<open>The price of an expression: one unit per command and ten more for an extended variable.\<close>

fun price :: "expr \<Rightarrow> int" where
  "price (Lit v) = 1"
| "price (Name s) = 1"
| "price (Ext s) = 11"
| "price (Par x) = price x"
| "price (Pre u x) = price x + 1"
| "price (Bin b l r) = price l + price r + 1"

lemma price_pos: "0 < price x"
  by (induction x) auto

section \<open>One command\<close>

definition paid :: "int \<Rightarrow> 'w RunTime \<Rightarrow> 'w RunTime" where
  "paid c s = s\<lparr>rt_cost := rt_cost s - c\<rparr>"

definition pushed :: "val list \<Rightarrow> int \<Rightarrow> 'w RunTime \<Rightarrow> 'w RunTime" where
  "pushed vs c s = s\<lparr>rt_stack := rt_stack s @ vs, rt_cost := rt_cost s - c\<rparr>"

lemma pushed_simps [simp]:
  "rt_stack (pushed vs c s) = rt_stack s @ vs" "rt_cost (pushed vs c s) = rt_cost s - c" "rt_mem (pushed vs c s) = rt_mem s"
  "rt_blocks (pushed vs c s) = rt_blocks s" "rt_vars (pushed vs c s) = rt_vars s" "rt_extend (pushed vs c s) = rt_extend s"
  "rt_heap (pushed vs c s) = rt_heap s" "pushed ws d (pushed vs c s) = pushed (vs @ ws) (c + d) s"
  by (simp_all add: pushed_def)

text \<open>A machine that can pay for \<open>c\<close> units.\<close>

definition solvent :: "int \<Rightarrow> 'w RunTime \<Rightarrow> bool" where
  "solvent c s \<longleftrightarrow> c < rt_cost s \<and> rt_cost s < 2 ^ 62 \<and> rt_mem s \<le> memoryLimit"

definition next_cmd :: "frame \<Rightarrow> ByteCode \<Rightarrow> bool" where
  "next_cmd fr c \<longleftrightarrow> fr_ci fr < length (fr_code fr) \<and> fr_code fr ! fr_ci fr = c"

definition step_over :: "nat \<Rightarrow> frame \<Rightarrow> frame" where
  "step_over n fr = fr\<lparr>fr_ci := fr_ci fr + n\<rparr>"

lemma pay_solvent: "solvent c s \<Longrightarrow> 0 \<le> d \<Longrightarrow> d \<le> c \<Longrightarrow> pay d s = Some (Inr (), paid d s)"
  by (auto simp: solvent_def pay_def upd_run_def paid_def wrap64_small)

lemma loop_cmd:
  assumes "next_cmd fr cmd" "solvent c s" "1 \<le> c" "arity (bc_Cmd cmd) < 2" "arity (bc_Cmd cmd) \<le> int (length (rt_stack s))"
    and "exec_cmd vm (RunCode vm n) cmd (int (length (rt_stack s))) fr (paid 1 s) = Some (Inr (fr, Tail statusNormal None v), s')"
  shows "code_loop vm (Suc n) fr s = code_loop vm n (step_over 1 fr) s'"
proof -
  have a: "fits_top (bc_Cmd cmd)"
    using assms(4) by (auto simp: arity_def fits_top_def word_le_def)
  show ?thesis
    using assms a pay_solvent [OF assms(2), of 1]
    by (simp add: loop_body_def Let_def next_cmd_def seq_run_def bind_run_def get_run_def paid_def solvent_def step_over_def ret_run_def)
qed

lemma loop_binary:
  assumes "next_cmd fr cmd" "solvent c s" "1 \<le> c" "arity (bc_Cmd cmd) = 2" "rt_stack s = st @ [x, y]"
    and "exec_cmd vm (RunCode vm n) cmd (int (length (rt_stack s))) fr (paid 1 s) = Some (Inr (fr, Tail statusNormal None v), paid 1 s)"
  shows "code_loop vm (Suc n) fr s = code_loop vm n (step_over 1 fr) (s\<lparr>rt_stack := st @ [v], rt_cost := rt_cost s - 1\<rparr>)"
proof -
  have a: "fits_top (bc_Cmd cmd)"
    using assms(4) by (auto simp: arity_def fits_top_def word_le_def)
  show ?thesis
    using assms a pay_solvent [OF assms(2), of 1]
    by (simp add: loop_body_def Let_def next_cmd_def seq_run_def bind_run_def get_run_def paid_def solvent_def step_over_def
        stack_put_def stack_cut_def upd_run_def list_update_append nat_add_distrib)
       (cases s, simp)
qed


section \<open>The commands of an expression\<close>

lemma exec_push:
  "exec_cmd vm rc (bcode cmdPush (OpVal v)) sz fr s = Some (Inr (fr, Tail statusNormal None VNil), s\<lparr>rt_stack := rt_stack s @ [v]\<rparr>)"
  by (simp add: exec_cmd_def exec_plain_def bcode_def cmd_consts operand_val_def push_def seq_run_def bind_run_def upd_run_def
      done_run_def ret_run_def)

lemma exec_local:
  assumes "var_value ivar s = Some (Inr (Some v), s)"
  shows "exec_cmd vm rc (bcode cmdVar (OpVar ivar)) sz fr s =
    Some (Inr (fr, Tail statusNormal None VNil), s\<lparr>rt_stack := rt_stack s @ [v]\<rparr>)"
  using assms
  by (simp add: exec_cmd_def exec_plain_def bcode_def cmd_consts exec_var_def push_def seq_run_def bind_run_def upd_run_def
      done_run_def ret_run_def)

lemma exec_ext:
  assumes "rt_extend s k = Some v" "solvent c s" "10 \<le> c"
  shows "exec_cmd vm rc (bcode cmdExtend (OpVal (VString k))) sz fr s =
    Some (Inr (fr, Tail statusNormal None VNil), s\<lparr>rt_stack := rt_stack s @ [widen v], rt_cost := rt_cost s - 10\<rparr>)"
  using assms pay_solvent [of c s 10]
  by (cases s) (simp add: exec_cmd_def bcode_def cmd_consts operand_str_def exec_extend_def CostExtend_def push_def seq_run_def bind_run_def
      upd_run_def get_run_def lift_run_def done_run_def ret_run_def paid_def widen_def)

lemma exec_unary:
  assumes "rt_stack s = st @ [v]" "un_fun u vm (rt_heap s) v = Inr r"
  shows "exec_cmd vm rc (un_code u) (int (length (rt_stack s))) fr s =
    Some (Inr (fr, Tail statusNormal None VNil), s\<lparr>rt_stack := st @ [r]\<rparr>)"
  using assms
  by (cases u; cases "valueToBool vm (rt_heap s) v")
     (auto simp: exec_cmd_def exec_plain_def un_code_def bcode_def cmd_consts stack_at_def stack_put_def go_nth_def seq_run_def
      bind_run_def upd_run_def get_run_def lift_run_def done_run_def ret_run_def valueToBool_run_def nat_add_distrib)

lemma binary_op_bin: "binary_op (bin_cmd b) = Some (bin_fun b)"
  by (cases b) (simp_all add: binary_op_def cmd_consts)

lemma bin_cmd_plain:
  "bin_cmd b \<notin> {cmdIf, cmdElse, cmdWhile, cmdCall, cmdCallVari, cmdExtend, cmdCallExtend, cmdLabel, cmdAssignVar,
     cmdPush, cmdPushStr, cmdContinue, cmdBreak, cmdReturn, cmdAssign, cmdError, cmdFuncName, cmdVar, cmdIndex, cmdSetIndex,
     cmdUnwrapArr, cmdArrayInit, cmdMapInit, cmdSign, cmdNot}"
  by (cases b) (simp_all add: cmd_consts)

lemma exec_binary:
  assumes "rt_stack s = st @ [x, y]" "bin_fun b vm (rt_heap s) x y = Inr (v, None)"
  shows "exec_cmd vm rc (bin_code b) (int (length (rt_stack s))) fr s = Some (Inr (fr, Tail statusNormal None v), s)"
  using assms bin_cmd_plain [of b]
  by (simp add: exec_cmd_def exec_plain_def bin_code_def bcode_def binary_op_bin stack_at_def go_nth_def bind_run_def get_run_def
      lift_run_def ret_run_def heap_read_def heap_run_def leave_on_error_def nat_add_distrib nth_append)

lemma arities:
  "arity cmdPush = 0" "arity cmdVar = 0" "arity cmdExtend = 0" "arity (un_cmd u) = 1" "arity (bin_cmd b) = 2"
proof -
  show "arity (un_cmd u) = 1" by (cases u) (simp_all add: arity_def cmd_consts)
  show "arity (bin_cmd b) = 2" by (cases b) (simp_all add: arity_def cmd_consts)
qed (simp_all add: arity_def cmd_consts)

lemma code_cmds: "bc_Cmd (bcode c v) = c" "bc_Cmd (un_code u) = un_cmd u" "bc_Cmd (bin_code b) = bin_cmd b"
  by (simp_all add: bcode_def un_code_def bin_code_def)

section \<open>The whole code of an expression\<close>

definition next_cmds :: "frame \<Rightarrow> ByteCode list \<Rightarrow> bool" where
  "next_cmds fr cs \<longleftrightarrow> (\<exists>pre post. fr_code fr = pre @ cs @ post \<and> length pre = fr_ci fr)"

lemma next_cmds_append:
  assumes "next_cmds fr (as @ bs)"
  shows "next_cmds fr as" "next_cmds (step_over (length as) fr) bs"
proof -
  obtain pre post where p: "fr_code fr = pre @ (as @ bs) @ post" "length pre = fr_ci fr" using assms by (auto simp: next_cmds_def)
  show "next_cmds fr as" unfolding next_cmds_def using p by (intro exI [of _ pre] exI [of _ "bs @ post"]) simp
  show "next_cmds (step_over (length as) fr) bs"
    unfolding next_cmds_def using p by (intro exI [of _ "pre @ as"] exI [of _ post]) (simp add: step_over_def)
qed

lemma next_cmds_single: "next_cmds fr [c] \<Longrightarrow> next_cmd fr c"
  by (auto simp: next_cmds_def next_cmd_def nth_append)

lemma step_over_add [simp]: "step_over m (step_over n fr) = step_over (n + m) fr"
  by (simp add: step_over_def add.assoc)

lemma var_pushed: "lookup_var iv (pushed vs c s) = lookup_var iv s"
  by (simp add: lookup_var_def var_value_def bind_run_def get_run_def lift_run_def ret_run_def throw_run_def
      split: option.splits sum.splits)

lemma var_reads: "lookup_var iv s = Some v \<Longrightarrow> var_value iv s = Some (Inr (Some v), s)"
  by (auto simp: lookup_var_def var_value_def bind_run_def get_run_def lift_run_def ret_run_def throw_run_def
      split: option.splits sum.splits)

lemma var_paid: "lookup_var iv s = Some v \<Longrightarrow> lookup_var iv (paid c s) = Some v"
  using var_pushed [of iv "[]" c s] by (simp add: paid_def pushed_def)

lemma pushed_paid: "(paid c s)\<lparr>rt_stack := rt_stack (paid c s) @ vs\<rparr> = pushed vs c s"
  by (simp add: paid_def pushed_def)

lemma value_pushed [simp]: "value_of vm vi (pushed vs c s) x = value_of vm vi s x"
  by (induction x) (simp_all add: var_pushed del: split_paired_All split: option.split)

lemma solvent_pushed: "solvent (c + d) s \<Longrightarrow> 0 \<le> c \<Longrightarrow> solvent d (pushed vs c s)"
  by (auto simp: solvent_def)

lemma solvent_less: "solvent c s \<Longrightarrow> d \<le> c \<Longrightarrow> solvent d s"
  by (auto simp: solvent_def)

lemma run_expr:
  assumes "value_of vm vi s x = Some v" "next_cmds fr (postfix vi x)" "solvent (price x) s"
  shows "code_loop vm (length (postfix vi x) + n) fr s = code_loop vm n (step_over (length (postfix vi x)) fr) (pushed [v] (price x) s)"
  using assms
proof (induction x arbitrary: v fr s n)
  case (Lit l)
  then have "code_loop vm (Suc n) fr s = code_loop vm n (step_over 1 fr) (pushed [v] 1 s)"
    by (intro loop_cmd [where c = 1 and cmd = "bcode cmdPush (OpVal v)"])
       (auto simp: next_cmds_single arities code_cmds exec_push paid_def pushed_def)
  then show ?case by simp
next
  case (Name k)
  then have "code_loop vm (Suc n) fr s = code_loop vm n (step_over 1 fr) (pushed [v] 1 s)"
    by (intro loop_cmd [where c = 1 and cmd = "bcode cmdVar (OpVar (vi k))"])
       (auto simp: next_cmds_single arities code_cmds exec_local var_reads var_paid pushed_paid)
  then show ?case by simp
next
  case (Ext k)
  then have "code_loop vm (Suc n) fr s = code_loop vm n (step_over 1 fr) (pushed [v] 11 s)"
    by (intro loop_cmd [where c = 11 and cmd = "bcode cmdExtend (OpVal (VString k))"])
       (auto simp: next_cmds_single arities code_cmds exec_ext [where c = 10] paid_def pushed_def solvent_def)
  then show ?case by simp
next
  case (Par x)
  then show ?case by simp
next
  case (Pre u x)
  let ?k = "length (postfix vi x)"
  obtain w where w: "value_of vm vi s x = Some w" "un_fun u vm (rt_heap s) w = Inr v"
    using Pre.prems(1) by (auto split: option.splits sum.splits)
  have c: "next_cmds fr (postfix vi x)" "next_cmd (step_over ?k fr) (un_code u)"
    using next_cmds_append Pre.prems(2) by (auto intro: next_cmds_single)
  have "code_loop vm (length (postfix vi (Pre u x)) + n) fr s = code_loop vm (Suc n) (step_over ?k fr) (pushed [w] (price x) s)"
    using Pre.IH [OF w(1) c(1), of "Suc n"] Pre.prems(3) by (simp add: solvent_def)
  also have "\<dots> = code_loop vm n (step_over (Suc ?k) fr) (pushed [v] (price x + 1) s)"
  proof (rule loop_cmd [where c = 1 and cmd = "un_code u", THEN trans, OF c(2)])
    show "solvent 1 (pushed [w] (price x) s)"
      using Pre.prems(3) price_pos [of x] by (simp add: solvent_def)
    show "exec_cmd vm (RunCode vm n) (un_code u) (int (length (rt_stack (pushed [w] (price x) s)))) (step_over ?k fr)
        (paid 1 (pushed [w] (price x) s)) =
      Some (Inr (step_over ?k fr, Tail statusNormal None VNil), pushed [v] (price x + 1) s)"
      using exec_unary [of "paid 1 (pushed [w] (price x) s)" "rt_stack s" w u vm v "RunCode vm n" "step_over ?k fr"] w(2)
      by (cases s) (simp add: paid_def pushed_def)
  qed (simp_all add: arities code_cmds)
  finally show ?case by simp
next
  case (Bin b l r)
  let ?k = "length (postfix vi l)"
  let ?m = "length (postfix vi r)"
  obtain x y where w: "value_of vm vi s l = Some x" "value_of vm vi s r = Some y" "bin_fun b vm (rt_heap s) x y = Inr (v, None)"
    using Bin.prems(1) by (auto split: option.splits sum.splits)
  let ?s1 = "pushed [x] (price l) s"
  let ?s2 = "pushed [x, y] (price l + price r) s"
  note app = next_cmds_append [of fr "postfix vi l" "postfix vi r @ [bin_code b]"] next_cmds_append [of "step_over ?k fr" "postfix vi r" "[bin_code b]"]
  have c: "next_cmds fr (postfix vi l)" "next_cmds (step_over ?k fr) (postfix vi r)" "next_cmd (step_over (?k + ?m) fr) (bin_code b)"
    using app Bin.prems(2) by (auto intro: next_cmds_single)
  have p: "0 < price l" "0 < price r" by (rule price_pos)+
  have s: "solvent (price l) s" "solvent (price r) ?s1" using Bin.prems(3) p by (auto simp: solvent_def)
  have "code_loop vm (length (postfix vi (Bin b l r)) + n) fr s = code_loop vm (?k + (?m + Suc n)) fr s" by (simp add: add.assoc)
  also have "\<dots> = code_loop vm (?m + Suc n) (step_over ?k fr) ?s1"
    by (rule Bin.IH(1) [OF w(1) c(1) s(1)])
  also have "\<dots> = code_loop vm (Suc n) (step_over (?k + ?m) fr) ?s2"
    using Bin.IH(2) [OF _ c(2) s(2), of y "Suc n"] w(2) by (simp del: code_loop.simps)
  also have "\<dots> = code_loop vm n (step_over (?k + ?m + 1) fr) (pushed [v] (price l + price r + 1) s)"
  proof (rule loop_binary [where c = 1 and cmd = "bin_code b" and st = "rt_stack s" and x = x and y = y, THEN trans, OF c(3)])
    show "solvent 1 ?s2" using Bin.prems(3) p by (simp add: solvent_def)
    show "exec_cmd vm (RunCode vm n) (bin_code b) (int (length (rt_stack ?s2))) (step_over (?k + ?m) fr) (paid 1 ?s2) =
        Some (Inr (step_over (?k + ?m) fr, Tail statusNormal None v), paid 1 ?s2)"
      using exec_binary [of "paid 1 ?s2" "rt_stack s" x y b vm v "RunCode vm n" "step_over (?k + ?m) fr"] w(3)
      by (simp add: paid_def)
  qed (simp_all add: arities code_cmds, simp add: pushed_def algebra_simps)
  finally show ?case by simp
qed



text \<open>\<open>return 2 + $a * (7 - -4)\<close> with \<open>$a = 5\<close>.\<close>

definition sample_expr :: expr where
  "sample_expr = Bin BAdd (Lit (LInt 2)) (Bin BMul (Ext ''a'') (Par (Bin BSub (Lit (LInt 7)) (Pre UMinus (Lit (LInt 4))))))"

definition lexems_of :: "ltok list \<Rightarrow> Lexem list" where
  "lexems_of ts = map (\<lambda>(t, v). \<lparr>lx_Type = t, lx_Value = v, lx_Line = 1, lx_Column = 1\<rparr>) ts"

lemma matches_lexems [simp]: "matches (lexems_of ts) 0 ts"
  by (induction ts) (auto simp: matches_def lexems_of_def lt_def split: prod.splits)


end
