(* ===== verification/Compile_Safe.thy ===== *)
theory Compile_Safe
  imports Expr_Run
begin

text \<open>
  What the compiler keeps. A command is \<open>typed\<close> when the machine knows it and its operand has the Go type that
  \<open>RunCode\<close> asserts for it; every step of the compiler keeps the code of all blocks typed and lowers a potential,
  so that the fuel of its loops is never used up. A result is \<open>safe\<close> when it is a panic or an error of the program, or a value
  with the stated property; the lemmas follow the compiler from the helpers up to \<open>compile_lexems\<close>.
\<close>

section \<open>Commands with their operands\<close>

text \<open>The commands \<open>RunCode\<close> knows, each with an operand of the type it asserts.\<close>

definition plain_cmds :: "16 word list" where
  "plain_cmds = [cmdReturn, cmdLabel, cmdContinue, cmdBreak, cmdAssign, cmdUnwrapArr]"

definition oper_cmds :: "16 word list" where
  "oper_cmds = [cmdSign, cmdNot, cmdAdd, cmdSub, cmdMul, cmdDiv, cmdAnd, cmdOr, cmdEqual, cmdNotEq, cmdLess, cmdNotLess,
     cmdGreat, cmdNotGreat]"

fun typed :: "16 word \<Rightarrow> operand \<Rightarrow> bool" where
  "typed c OpInt \<longleftrightarrow> c \<in> set plain_cmds"
| "typed c (OpVal v) \<longleftrightarrow> c = cmdPush \<or> c \<in> {cmdExtend, cmdCallExtend} \<and> (\<exists>s. v = VString s)"
| "typed c (OpPrior p) \<longleftrightarrow> c \<in> set oper_cmds"
| "typed c (OpBlock b) \<longleftrightarrow> c \<in> {cmdIf, cmdElse, cmdWhile}"
| "typed c (OpVars vs) \<longleftrightarrow> c = cmdAssignVar"
| "typed c (OpVar v) \<longleftrightarrow> c = cmdVar"
| "typed c (OpKey k) \<longleftrightarrow> c = cmdError"
| "typed c (OpFuncName n k) \<longleftrightarrow> c = cmdFuncName"
| "typed c (OpIndex i) \<longleftrightarrow> c \<in> {cmdIndex, cmdSetIndex}"
| "typed c (OpObj ob) \<longleftrightarrow> c \<in> {cmdCall, cmdCallVari}"
| "typed c (OpMap ps) \<longleftrightarrow> c = cmdMapInit"
| "typed c (OpArray xs) \<longleftrightarrow> c = cmdArrayInit"

definition typed_code :: "ByteCode list \<Rightarrow> bool" where
  "typed_code cs \<longleftrightarrow> list_all (\<lambda>c. typed (bc_Cmd c) (bc_Value c)) cs"

text \<open>The buffer of \<open>compileEval\<close> also holds the marks of open brackets.\<close>

definition typed_buffer :: "ByteCode list \<Rightarrow> bool" where
  "typed_buffer cs \<longleftrightarrow> list_all (\<lambda>c. c = sys_mark \<or> typed (bc_Cmd c) (bc_Value c)) cs"

definition typed_store :: "cstore \<Rightarrow> bool" where
  "typed_store st \<longleftrightarrow> (\<forall>b blk. cs_blocks st b = Some blk \<longrightarrow> typed_code (b_Code blk))"

lemma typed_code_simps [simp]:
  "typed_code []" "typed_code (c # cs) \<longleftrightarrow> typed (bc_Cmd c) (bc_Value c) \<and> typed_code cs"
  "typed_code (cs @ ds) \<longleftrightarrow> typed_code cs \<and> typed_code ds"
  by (simp_all add: typed_code_def)

lemma typed_buffer_simps [simp]:
  "typed_buffer []" "typed_buffer (c # cs) \<longleftrightarrow> (c = sys_mark \<or> typed (bc_Cmd c) (bc_Value c)) \<and> typed_buffer cs"
  by (simp_all add: typed_buffer_def)

lemma typed_bcode [simp]: "bc_Cmd (bcode c x) = c" "bc_Value (bcode c x) = x"
  by (simp_all add: bcode_def)

lemma sys_mark_cmd [simp]: "bc_Cmd sys_mark = cmdSys"
  by (simp add: sys_mark_def)

lemma typed_put: "typed_store st \<Longrightarrow> typed_code (b_Code blk) \<Longrightarrow> typed_store (cs_put b blk st)"
  by (auto simp: typed_store_def cs_put_def)

lemma typed_get: "typed_store st \<Longrightarrow> cs_get st b = Inr blk \<Longrightarrow> typed_code (b_Code blk)"
  by (auto simp: typed_store_def cs_get_def split: option.splits)

lemma typed_not_sys: "\<not> typed cmdSys x"
  by (cases x) (auto simp: cmdSys_def plain_cmds_def oper_cmds_def cmd_consts)

lemma prior_oper: "typed (bc_Cmd c) (bc_Value c) \<Longrightarrow> prior_of c = Inr p \<Longrightarrow> bc_Cmd c \<in> set oper_cmds"
  by (cases "bc_Value c") (auto simp: prior_of_def)

section \<open>What a part of the compiler ensures\<close>

text \<open>
  A result is safe when it is not the end of the fuel and, if it is a value, satisfies \<open>Q\<close>.
\<close>

definition safe :: "('a \<Rightarrow> bool) \<Rightarrow> 'a res \<Rightarrow> bool" where
  "safe Q r \<longleftrightarrow> (case r of Inl e \<Rightarrow> e \<noteq> no_fuel | Inr x \<Rightarrow> Q x)"

abbreviation calm :: "'a res \<Rightarrow> bool" where
  "calm \<equiv> safe (\<lambda>_. True)"

lemma safe_Inr [simp]: "safe Q (Inr x) \<longleftrightarrow> Q x"
  by (simp add: safe_def)

lemma safe_Inl [simp]: "safe Q (Inl (Error m))" "safe Q (Inl (Panic m))"
  by (simp_all add: safe_def no_fuel_def)

lemma safe_bind: "safe P m \<Longrightarrow> (\<And>x. m = Inr x \<Longrightarrow> P x \<Longrightarrow> safe Q (f x)) \<Longrightarrow> safe Q (bind_res m f)"
  by (cases m) (auto simp: safe_def)

lemma safe_calm: "calm m \<Longrightarrow> (\<And>x. m = Inr x \<Longrightarrow> safe Q (f x)) \<Longrightarrow> safe Q (bind_res m f)"
  by (rule safe_bind)

lemma safe_mono: "safe P m \<Longrightarrow> (\<And>x. P x \<Longrightarrow> Q x) \<Longrightarrow> safe Q m"
  by (cases m) (auto simp: safe_def)

lemma safe_if: "(b \<Longrightarrow> safe Q m) \<Longrightarrow> (\<not> b \<Longrightarrow> safe Q n) \<Longrightarrow> safe Q (if b then m else n)"
  by simp

lemma safe_panics [simp]: "safe Q (Inl out_of_range)" "safe Q (Inl bad_assert)" "safe Q (Inl nil_deref)" "safe Q (Inl bad_slice)"
  by (simp_all add: safe_def no_fuel_def out_of_range_def bad_assert_def nil_deref_def bad_slice_def)

section \<open>Readers\<close>

named_theorems calm_rules

lemma calm_basic [calm_rules]:
  "calm (cs_get st b)" "calm (buf_nth buf k)" "calm (buf_root buf)" "calm (lex_str l)" "calm (lex_uint l)" "calm (go_nth xs i)"
  "calm (obj_block ob)" "calm (obj_int ob)" "calm (obj_ext ob)" "calm (func_info blk)" "calm (contract_info blk)" "calm (prior_of c)"
  "calm (lex_type l)" "calm (get_block vm b)"
  by (simp_all add: cs_get_def buf_nth_def buf_root_def lex_str_def lex_uint_def go_nth_def obj_block_def obj_int_def obj_ext_def
      func_info_def contract_info_def prior_of_def lex_type_def get_block_def
      split: option.splits lexval.splits objval.splits blockinfo.splits operand.splits)

lemma calm_bind: "calm m \<Longrightarrow> (\<And>x. calm (f x)) \<Longrightarrow> calm (bind_res m f)"
  by (rule safe_bind)

lemma calm_findVar [calm_rules]: "calm (findVar st name bs)"
  by (induction bs) (auto intro!: calm_bind calm_rules split: option.splits)

lemma calm_root_state [calm_rules]: "calm (root_state st buf)"
  by (auto simp: root_state_def intro!: calm_bind calm_rules split: blockinfo.splits)

lemma calm_path: "calm (lookup_path vm objs ns)"
  by (induction ns arbitrary: objs) (auto intro!: calm_bind calm_rules split: option.splits)

lemma calm_getObjByName [calm_rules]: "calm (getObjByName vm name)"
  by (simp add: getObjByName_def calm_path)

lemma calm_findObj [calm_rules]: "calm (findObj env st name buf)"
  by (auto simp: findObj_def Let_def intro!: calm_bind calm_rules split: option.splits)

lemma calm_func_of [calm_rules]: "calm (func_of st ob)"
  by (auto simp: func_of_def intro!: calm_bind calm_rules)

lemma calm_flags [calm_rules]: "calm (can_write st ob)" "calm (is_variadic st ob)" "calm (contract_can_write st ob)"
  by (auto simp: can_write_def is_variadic_def contract_can_write_def intro!: calm_bind calm_rules)

section \<open>The buffer\<close>

lemma comma_pop_typed:
  "typed_buffer buf \<Longrightarrow> typed_code out \<Longrightarrow> safe (\<lambda>(b, o'). typed_buffer b \<and> typed_code o') (comma_pop buf out)"
  by (induction buf out rule: comma_pop.induct) (auto intro!: safe_calm calm_rules simp: typed_not_sys)

lemma close_pop_typed:
  "typed_buffer buf \<Longrightarrow> typed_code out \<Longrightarrow>
    safe (\<lambda>r. case r of None \<Rightarrow> True | Some (b, o') \<Rightarrow> typed_buffer b \<and> typed_code o') (close_pop buf out)"
  by (induction buf out rule: close_pop.induct) (auto intro!: safe_calm calm_rules)

lemma take_unary_typed:
  "typed_buffer buf \<Longrightarrow> typed_code us \<Longrightarrow>
    safe (\<lambda>(us', b). typed_buffer b \<and> typed_code us' \<and> length b \<le> length buf) (take_unary us buf)"
proof (induction us buf rule: take_unary.induct)
  case (2 us c buf)
  then show ?case by (auto simp: cmdUnary_def intro!: safe_calm calm_rules elim!: safe_mono)
qed simp

lemma push_oper_typed:
  assumes "length buf < n" "typed_buffer buf" "typed_code out" "typed (bc_Cmd op) (bc_Value op)"
  shows "safe (\<lambda>(b, o'). typed_buffer b \<and> typed_code o') (push_oper n op prio buf out)"
  using assms
proof (induction n arbitrary: buf out)
  case (Suc n)
  show ?case
  proof (cases buf)
    case (Cons prev rest)
    then have "prior_of prev = Inr cmdUnary \<Longrightarrow> typed (bc_Cmd prev) (bc_Value prev)"
      using Suc.prems(2) by (auto simp: cmdUnary_def)
    then show ?thesis using Suc Cons
      by (auto intro!: safe_calm [of "prior_of prev"] calm_rules safe_bind [OF take_unary_typed] Suc.IH)
  qed (use Suc.prems in auto)
qed simp

definition typed_ev :: "evst \<Rightarrow> bool" where
  "typed_ev e \<longleftrightarrow> typed_buffer (ev_buffer e) \<and> typed_code (ev_code e) \<and> typed_store (ev_store e)"

lemma typed_evI: "typed_buffer (ev_buffer e) \<Longrightarrow> typed_code (ev_code e) \<Longrightarrow> typed_store (ev_store e) \<Longrightarrow> typed_ev e"
  by (simp add: typed_ev_def)

lemma typed_emit [simp]: "typed_ev (emit c e) \<longleftrightarrow> typed (bc_Cmd c) (bc_Value c) \<and> typed_ev e"
  by (auto simp: typed_ev_def emit_def)

lemma typed_push [simp]: "typed_ev (buffer_push c e) \<longleftrightarrow> (c = sys_mark \<or> typed (bc_Cmd c) (bc_Value c)) \<and> typed_ev e"
  by (auto simp: typed_ev_def buffer_push_def)

lemma typed_fields [simp]:
  "typed_ev (e\<lparr>ev_i := i\<rparr>) \<longleftrightarrow> typed_ev e" "typed_ev (e\<lparr>ev_parcount := ps\<rparr>) \<longleftrightarrow> typed_ev e"
  "typed_ev (e\<lparr>ev_index := ix\<rparr>) \<longleftrightarrow> typed_ev e" "typed_ev (e\<lparr>ev_noMap := nm\<rparr>) \<longleftrightarrow> typed_ev e"
  by (simp_all add: typed_ev_def)

lemma typed_tl: "typed_ev e \<Longrightarrow> typed_ev (e\<lparr>ev_buffer := tl (ev_buffer e)\<rparr>)"
  by (cases "ev_buffer e") (auto simp: typed_ev_def)

lemma typed_bufs: "typed_ev e \<Longrightarrow> typed_buffer b \<Longrightarrow> typed_code c \<Longrightarrow> typed_ev (e\<lparr>ev_buffer := b, ev_code := c\<rparr>)"
  by (auto simp: typed_ev_def)

lemma typed_top: "typed_ev e \<Longrightarrow> buffer_top e = Inr c \<Longrightarrow> c = sys_mark \<or> typed (bc_Cmd c) (bc_Value c)"
  by (cases "ev_buffer e") (auto simp: typed_ev_def buffer_top_def)

lemma typed_with_store: "typed_ev e \<Longrightarrow> typed_store st \<Longrightarrow> typed_ev (e\<lparr>ev_store := st\<rparr>)"
  by (simp add: typed_ev_def)

lemma typed_opers: "map_of opers u = Some (c, p) \<Longrightarrow> u \<noteq> isLPar \<Longrightarrow> u \<noteq> isRPar \<Longrightarrow> c \<in> set oper_cmds"
  by (auto simp: opers_def oper_cmds_def oper_consts sys_consts split: if_splits)

lemma eval_oper_typed:
  assumes "typed_ev e" "lx_Value l \<notin> {LUint isLPar, LUint isRPar}"
  shows "safe (\<lambda>e'. typed_ev e' \<and> ev_i e' = ev_i e) (eval_oper lx l e)"
proof -
  have "c \<in> set oper_cmds" if "lex_uint l = Inr u" "map_of opers u = Some (c, p)" for u c p
    using that assms(2) typed_opers [OF that(2)] by (auto simp: lex_uint_def split: lexval.splits)
  moreover have "cmdSign \<in> set oper_cmds" by (simp add: oper_cmds_def)
  ultimately show ?thesis
    using assms(1) unfolding eval_oper_def Let_def typed_ev_def
    by (auto intro!: safe_calm [of "lex_uint l"] calm_rules safe_bind [OF push_oper_typed] simp del: push_oper.simps
        split: option.splits prod.splits if_splits)
qed

section \<open>Calls\<close>

text \<open>The state stays typed and the index does not go back.\<close>

definition forward :: "nat \<Rightarrow> evst \<Rightarrow> bool" where
  "forward i e \<longleftrightarrow> typed_ev e \<and> i \<le> ev_i e"

lemma forward_simps [simp]:
  "forward i (emit c e) \<longleftrightarrow> typed (bc_Cmd c) (bc_Value c) \<and> forward i e"
  "forward i (buffer_push c e) \<longleftrightarrow> (c = sys_mark \<or> typed (bc_Cmd c) (bc_Value c)) \<and> forward i e"
  "forward i (e\<lparr>ev_parcount := ps\<rparr>) \<longleftrightarrow> forward i e" "forward i (e\<lparr>ev_noMap := nm\<rparr>) \<longleftrightarrow> forward i e"
  "forward i (e\<lparr>ev_index := ix\<rparr>) \<longleftrightarrow> forward i e" "forward i (e\<lparr>ev_i := j\<rparr>) \<longleftrightarrow> typed_ev e \<and> i \<le> j"
  by (auto simp: forward_def emit_def buffer_push_def typed_ev_def)

lemma index_kept [simp]: "ev_i (emit c e) = ev_i e" "ev_i (buffer_push c e) = ev_i e"
  by (simp_all add: emit_def buffer_push_def)

lemma forward_store: "forward i e \<Longrightarrow> typed_store st \<Longrightarrow> forward i (e\<lparr>ev_store := st\<rparr>)"
  by (simp add: forward_def typed_ev_def)

lemma forward_tl: "forward i e \<Longrightarrow> forward i (e\<lparr>ev_buffer := tl (ev_buffer e)\<rparr>)"
  by (simp add: forward_def typed_tl)

lemma pop_count_safe: "forward i e \<Longrightarrow> safe (\<lambda>(n, e'). forward i e') (pop_count e)"
  by (auto simp: pop_count_def split: list.splits)

lemma buffer_top_safe: "forward i e \<Longrightarrow> safe (\<lambda>c. c = sys_mark \<or> typed (bc_Cmd c) (bc_Value c)) (buffer_top e)"
  by (auto simp: buffer_top_def forward_def typed_ev_def split: list.splits)

lemma close_tail_safe: "forward i e \<Longrightarrow> safe (forward i) (close_tail e)"
  unfolding close_tail_def
  by (auto intro!: safe_bind [OF buffer_top_safe] safe_bind [OF pop_count_safe] forward_tl split: operand.splits)

lemma setWritable_safe: "typed_store st \<Longrightarrow> safe typed_store (setWritable bs st)"
proof (induction bs arbitrary: st)
  case (Cons b bs)
  have "safe (\<lambda>blk'. b_Code blk' = b_Code blk) (block_writable blk)" for blk
    by (auto simp: block_writable_def intro!: safe_calm calm_rules)
  with Cons show ?case
    by (auto intro!: safe_calm [of "cs_get _ _"] calm_rules safe_bind [of _ "block_writable _"] Cons.IH typed_put intro: typed_get)
qed simp

lemma finish_call_safe:
  assumes "forward i e" "typed (bc_Cmd prev) (bc_Value prev)" "\<And>t. tail = Some t \<Longrightarrow> typed (bc_Cmd t) (bc_Value t)"
  shows "safe (forward i) (finish_call lx prev ob tail e)"
  unfolding finish_call_def
proof (rule safe_bind [OF pop_count_safe [OF assms(1)]], clarsimp split del: if_split, rule safe_calm)
  fix n e1 and err :: "string option"
  assume "forward i e1"
  let ?e = "if bc_Cmd prev = cmdCallVari then emit (bcode cmdPush (OpVal (VInt (i64 n)))) e1 else e1"
  have "forward i (?e\<lparr>ev_buffer := tl (ev_buffer ?e)\<rparr>)" using \<open>forward i e1\<close> by (intro forward_tl) simp
  then have "forward i (emit prev (?e\<lparr>ev_buffer := tl (ev_buffer ?e)\<rparr>))" using assms(2) by simp
  then show "safe (forward i)
      (case err of
         None \<Rightarrow>
           let e = ?e; e = emit prev (e\<lparr>ev_buffer := tl (ev_buffer e)\<rparr>)
           in Inr (case tail of None \<Rightarrow> e | Some t \<Rightarrow> (buffer_push t e)\<lparr>ev_parcount := 1 # ev_parcount e, ev_i := ev_i e + 2\<rparr>)
       | Some m \<Rightarrow> Inl (Error m))"
    using assms(3) by (auto simp: Let_def forward_def simp del: typed_emit split: option.splits)
qed (auto intro!: safe_calm calm_rules)

lemma dot_name_safe: "safe (\<lambda>(name, tail). \<forall>t. tail = Some t \<longrightarrow> typed (bc_Cmd t) (bc_Value t)) (dot_name env buf lx f e)"
  unfolding dot_name_def Let_def
  by (auto intro!: safe_calm [of "lex_str _"] calm_rules safe_calm [of "findObj _ _ _ _"]
      safe_bind [of "\<lambda>tail. \<forall>t. tail = Some t \<longrightarrow> typed (bc_Cmd t) (bc_Value t)"] split: option.splits)

lemma writable_safe: "typed_store st \<Longrightarrow> safe typed_store (if w then setWritable bs st else Inr st)"
  by (simp add: setWritable_safe)

lemma forward_typed_store: "forward i e \<Longrightarrow> typed_store (ev_store e)"
  by (simp add: forward_def typed_ev_def)

lemma begin_tail_forward: "forward i e \<Longrightarrow> forward i (begin_tail lx name e)"
  by (auto simp: begin_tail_def forward_def)

lemmas calm_reads = safe_calm [OF calm_basic(1)] safe_calm [OF calm_basic(2)] safe_calm [OF calm_basic(4)] safe_calm [OF calm_basic(5)]
  safe_calm [OF calm_flags(1)] safe_calm [OF calm_flags(2)] safe_calm [OF calm_flags(3)] safe_calm [OF calm_func_of]
  safe_calm [OF calm_findObj] safe_calm [OF calm_root_state] safe_calm [OF calm_basic(8)] safe_calm [OF calm_basic(6)]

lemma close_call_safe: "forward i e \<Longrightarrow> safe (forward i) (close_call env buf lx e)"
  unfolding close_call_def Let_def
  by (rule safe_bind [OF buffer_top_safe], assumption)
     (auto simp: cmdSys_def cmd_consts intro!: calm_reads safe_bind [OF writable_safe [OF forward_typed_store]]
      safe_bind [OF dot_name_safe] finish_call_safe forward_store begin_tail_forward split: operand.split)

lemma eval_RPar_safe:
  assumes "forward i e"
  shows "safe (forward i) (eval_RPar env buf lx l e)"
  unfolding eval_RPar_def
proof (rule safe_bind [OF close_pop_typed])
  fix r
  assume r: "case r of None \<Rightarrow> True | Some (b, o') \<Rightarrow> typed_buffer b \<and> typed_code o'"
  show "safe (forward i)
      (case r of None \<Rightarrow> no_pair l
       | Some (b, out) \<Rightarrow>
           let e = e\<lparr>ev_buffer := b, ev_code := out, ev_noMap := True\<rparr> in
           if b = [] then Inr e else bind_res (close_tail e) (close_call env buf lx))"
  proof (cases r)
    case (Some p)
    then have "forward i (e\<lparr>ev_buffer := fst p, ev_code := snd p, ev_noMap := True\<rparr>)"
      using assms r by (auto simp: forward_def typed_ev_def)
    then show ?thesis using Some by (auto simp: Let_def intro!: safe_bind [OF close_tail_safe] close_call_safe split: prod.splits)
  qed (auto simp: no_pair_def intro!: calm_reads)
qed (use assms in \<open>simp_all add: forward_def typed_ev_def\<close>)

lemma eval_RBrack_safe:
  assumes "forward i e"
  shows "safe (forward i) (eval_RBrack lx l e)"
  unfolding eval_RBrack_def
proof (rule safe_bind [OF close_pop_typed])
  fix r
  assume r: "case r of None \<Rightarrow> True | Some (b, o') \<Rightarrow> typed_buffer b \<and> typed_code o'"
  show "safe (forward i)
      (case r of None \<Rightarrow> no_pair l
       | Some (b, out) \<Rightarrow>
           let e = e\<lparr>ev_buffer := b, ev_code := out, ev_noMap := True\<rparr> in
           (case b of
              prev # b' \<Rightarrow>
                if bc_Cmd prev = cmdIndex then
                  let e = e\<lparr>ev_buffer := b'\<rparr> in
                  if next_is lx (Suc (ev_i e)) isEq then
                    (case bc_Value prev of
                       OpIndex info \<Rightarrow> Inr (e\<lparr>ev_i := Suc (ev_i e), ev_index := Some info, ev_noMap := False\<rparr>)
                     | _ \<Rightarrow> Inl bad_assert)
                  else Inr (emit prev e)
                else Inr e
            | [] \<Rightarrow> Inr e))"
    using assms r
    by (auto simp: Let_def no_pair_def forward_def typed_ev_def emit_def cmdSys_def cmd_consts intro!: calm_reads
        split: option.splits list.splits operand.splits)
qed (use assms in \<open>simp_all add: forward_def typed_ev_def\<close>)

lemma eval_extend_safe: "forward i e \<Longrightarrow> safe (forward i) (eval_extend lx l e)"
  unfolding eval_extend_def Let_def by (auto intro!: calm_reads)

lemma mark_used_safe: "typed_store st \<Longrightarrow> safe typed_store (mark_used name bs st)"
proof (induction bs arbitrary: st)
  case (Cons b bs)
  then show ?case by (auto simp: typed_get [OF Cons.prems] intro!: calm_reads safe_calm [OF calm_basic(11)] Cons.IH typed_put)
qed simp

lemma begin_contract_call_safe: "forward i e \<Longrightarrow> safe (\<lambda>(n, e'). forward i e') (begin_contract_call buf ident cob n e)"
  unfolding begin_contract_call_def Let_def
  by (auto intro!: calm_reads safe_bind [OF mark_used_safe [OF forward_typed_store]] safe_bind [OF writable_safe] forward_store)

lemma begin_call_safe: "forward i e \<Longrightarrow> safe (forward i) (begin_call env buf lx ident r e)"
  unfolding begin_call_def Let_def
  by (auto simp: bind_res_assoc intro!: calm_reads safe_bind [OF begin_contract_call_safe] split: option.splits)

lemma eval_ident_safe: "forward i e \<Longrightarrow> safe (forward i) (eval_ident env buf lx ind l e)"
  unfolding eval_ident_def Let_def
  by (auto simp: bind_res_assoc intro!: calm_reads begin_call_safe split: option.splits)

section \<open>Initializers\<close>

lemma init_key_calm: "calm (init_key lx i key)"
  unfolding init_key_def Let_def by (auto intro!: calm_reads split: option.splits)

lemma init_safe_all:
  "(\<forall>i. i < length lx \<and> 2 * (length lx - i) \<le> n \<longrightarrow> safe (\<lambda>(v, j). i \<le> j) (getInitValue env st buf lx n i)) \<and>
   (\<forall>i state key acc. 2 * (length lx - i) < n \<longrightarrow> safe (\<lambda>(ps, j). i \<le> j) (getInitMap env st buf lx n i state key acc)) \<and>
   (\<forall>i state vs. 2 * (length lx - i) < n \<longrightarrow> safe (\<lambda>(xs, j). i \<le> j) (getInitArray env st buf lx n i state vs))"
proof (induction n)
  case (Suc n)
  have val: "\<And>i. i < length lx \<Longrightarrow> 2 * (length lx - i) \<le> n \<Longrightarrow> safe (\<lambda>(v, j). i \<le> j) (getInitValue env st buf lx n i)"
    and map: "\<And>i state key acc. 2 * (length lx - i) < n \<Longrightarrow> safe (\<lambda>(ps, j). i \<le> j) (getInitMap env st buf lx n i state key acc)"
    and arr: "\<And>i state vs. 2 * (length lx - i) < n \<Longrightarrow> safe (\<lambda>(xs, j). i \<le> j) (getInitArray env st buf lx n i state vs)"
    using Suc.IH by blast+
  have "safe (\<lambda>(v, j). i \<le> j) (getInitValue env st buf lx (Suc n) i)" if "i < length lx" "2 * (length lx - i) \<le> Suc n" for i
    using that
    by (auto simp: init_value_def Let_def intro!: calm_reads safe_bind [OF map] safe_bind [OF arr] split: option.splits)
  moreover have "safe (\<lambda>(ps, j). i \<le> j) (getInitMap env st buf lx (Suc n) i state key acc)" if "2 * (length lx - i) < Suc n" for i state key acc
    using that
    by (auto simp: init_map_def Let_def intro!: safe_calm [OF init_key_calm] safe_bind [OF val] safe_mono [OF map] split: must.splits)
  moreover have "safe (\<lambda>(xs, j). i \<le> j) (getInitArray env st buf lx (Suc n) i state vs)" if "2 * (length lx - i) < Suc n" for i state vs
    using that
    by (auto simp: init_array_def Let_def intro!: safe_bind [OF val] safe_mono [OF arr])
  ultimately show ?case by blast
qed auto

lemmas init_safe = init_safe_all [THEN conjunct1, rule_format] init_safe_all [THEN conjunct2, THEN conjunct1, rule_format]
  init_safe_all [THEN conjunct2, THEN conjunct2, rule_format]

section \<open>The loop\<close>

definition oper_lexems :: "Lexem list \<Rightarrow> bool" where
  "oper_lexems lx \<longleftrightarrow> list_all (\<lambda>l. lx_Type l = lexOper \<longrightarrow> lx_Value l \<notin> {LUint isLPar, LUint isRPar}) lx"

definition step_forward :: "nat \<Rightarrow> estep \<Rightarrow> bool" where
  "step_forward i r = (case r of Next e \<Rightarrow> forward i e | Stop j e \<Rightarrow> typed_ev e \<and> int i - 1 \<le> j)"

lemma step_forward_Next: "safe (forward i) m \<Longrightarrow> safe (step_forward i) (bind_res m (\<lambda>e. Inr (Next e)))"
  by (auto elim!: safe_bind simp: step_forward_def)

lemma eval_step_safe:
  assumes "typed_ev e" "ev_i e < length lx" "oper_lexems lx"
  shows "safe (step_forward (ev_i e)) (eval_step env buf lx ind e)"
proof -
  let ?e = "e\<lparr>ev_noMap := False\<rparr>"
  have f: "forward (ev_i e) ?e" "forward (ev_i e) e" using assms(1) by (simp_all add: forward_def)
  have oper: "lx_Type (lx ! ev_i e) = lexOper \<Longrightarrow> lx_Value (lx ! ev_i e) \<notin> {LUint isLPar, LUint isRPar}"
    using assms(2,3) by (auto simp: oper_lexems_def list_all_length)
  have op: "lx_Type (lx ! ev_i e) = lexOper \<Longrightarrow> safe (forward (ev_i e)) (eval_oper lx (lx ! ev_i e) ?e)"
    using eval_oper_typed [of ?e "lx ! ev_i e" lx] oper assms(1) by (auto simp: forward_def elim!: safe_mono)
  have mp: "safe (step_forward (ev_i e)) (bind_res (getInitMap env (ev_store e) buf lx n (Suc (ev_i e)) mustKey [] [])
      (\<lambda>(ps, j). Inr (Next (emit (bcode cmdMapInit (OpMap ps)) (e\<lparr>ev_i := j\<rparr>)))))" if "2 * length lx < n" for n
    using f that by (intro safe_bind [OF init_safe(2)]) (auto simp: step_forward_def forward_def)
  have ar: "safe (step_forward (ev_i e)) (bind_res (getInitArray env (ev_store e) buf lx n (Suc (ev_i e)) mustValue [])
      (\<lambda>(xs, j). Inr (Next (emit (bcode cmdArrayInit (OpArray xs)) (e\<lparr>ev_i := j\<rparr>)))))" if "2 * length lx < n" for n
    using f that by (intro safe_bind [OF init_safe(3)]) (auto simp: step_forward_def forward_def)
  have cm: "safe (step_forward (ev_i e)) (bind_res (comma_pop (ev_buffer e) (ev_code e))
      (\<lambda>(b, out). Inr (Next (e\<lparr>ev_noMap := False, ev_parcount := ps, ev_buffer := b, ev_code := out\<rparr>))))" for ps
    using assms(1) by (intro safe_bind [OF comma_pop_typed]) (auto simp: step_forward_def forward_def typed_ev_def)
  have kw: "safe (step_forward (ev_i e)) (bind_res (lex_uint l) (\<lambda>u. Inr (Next (if u = k then emit (bcode cmdUnwrapArr OpInt) ?e else ?e))))" for l k
    using f by (auto simp: step_forward_def plain_cmds_def intro!: calm_reads)
  have ty: "typed_ev e" by (rule assms(1))
  show ?thesis
    unfolding eval_step_def Let_def
    by (intro safe_if)
       (simp_all add: step_forward_Next eval_RPar_safe eval_RBrack_safe eval_extend_safe eval_ident_safe f op mp ar cm kw [simplified]
          del: getInitMap.simps getInitArray.simps,
        simp_all add: step_forward_def f ty)
qed

lemma eval_loop_safe:
  assumes "typed_ev e" "length lx < n + ev_i e" "0 < n" "oper_lexems lx"
  shows "safe (\<lambda>(j, e'). typed_ev e' \<and> int (ev_i e) - 1 \<le> j) (eval_loop env buf lx ind n e)"
  using assms
proof (induction n arbitrary: e)
  case (Suc n)
  show ?case
  proof (cases "ev_i e < length lx")
    case True
    have "safe (\<lambda>(j, e'). typed_ev e' \<and> int (ev_i e) - 1 \<le> j)
       (case r of Next e' \<Rightarrow> eval_loop env buf lx ind n (e'\<lparr>ev_i := Suc (ev_i e')\<rparr>) | Stop j e' \<Rightarrow> Inr (j, e'))"
      if "step_forward (ev_i e) r" for r
    proof (cases r)
      case (Next e')
      then have e': "typed_ev e'" "ev_i e \<le> ev_i e'" using that by (simp_all add: step_forward_def forward_def)
      then have "safe (\<lambda>(j, e''). typed_ev e'' \<and> int (ev_i e') \<le> j) (eval_loop env buf lx ind n (e'\<lparr>ev_i := Suc (ev_i e')\<rparr>))"
        using Suc.IH [of "e'\<lparr>ev_i := Suc (ev_i e')\<rparr>"] Suc.prems True by simp
      then show ?thesis unfolding Next estep.case by (rule safe_mono) (use e' in auto)
    qed (use that in \<open>simp add: step_forward_def\<close>)
    then show ?thesis using True Suc.prems by (auto intro!: safe_bind [OF eval_step_safe])
  qed (use Suc.prems in simp)
qed simp

text \<open>Where an expression may begin without stopping at once.\<close>

definition starts :: "Lexem list \<Rightarrow> nat \<Rightarrow> bool" where
  "starts lx i \<longleftrightarrow> i < length lx \<and> lx_Type (lx ! i) \<notin> {isRCurly, isLCurly, lexNewLine}"

lemma step_continues:
  assumes "lx_Type (lx ! ev_i e) \<notin> {isRCurly, isLCurly, lexNewLine}" "eval_step env buf lx ind e = Inr r"
  shows "\<exists>e'. r = Next e'"
  using assms
  by (auto simp: eval_step_def Let_def res_simps simp del: getInitMap.simps getInitArray.simps split: if_splits prod.splits)

lemma compile_loop_safe:
  assumes "typed_ev e" "starts lx (ev_i e)" "length lx < n + ev_i e" "1 < n" "oper_lexems lx"
  shows "safe (\<lambda>(j, e'). typed_ev e' \<and> int (ev_i e) \<le> j) (eval_loop env buf lx ind n e)"
proof -
  obtain m where m: "n = Suc m" using assms(4) by (cases n) auto
  have i: "ev_i e < length lx" "lx_Type (lx ! ev_i e) \<notin> {isRCurly, isLCurly, lexNewLine}" using assms(2) by (simp_all add: starts_def)
  have "safe (\<lambda>(j, e'). typed_ev e' \<and> int (ev_i e) \<le> j)
      (case r of Next e' \<Rightarrow> eval_loop env buf lx ind m (e'\<lparr>ev_i := Suc (ev_i e')\<rparr>) | Stop j e' \<Rightarrow> Inr (j, e'))"
    if that: "eval_step env buf lx ind e = Inr r" "step_forward (ev_i e) r" for r
  proof -
    from step_continues [OF i(2) that(1)] obtain e' where "r = Next e'" by blast
    then show ?thesis
      using that(2) eval_loop_safe [of "e'\<lparr>ev_i := Suc (ev_i e')\<rparr>" lx m env buf ind] assms m
      by (auto simp: step_forward_def forward_def elim!: safe_mono)
  qed
  then show ?thesis using i(1) assms(1,5) by (auto simp: m intro!: safe_bind [OF eval_step_safe])
qed

lemma typed_upd: "typed_store st \<Longrightarrow> (\<And>blk. typed_code (b_Code blk) \<Longrightarrow> typed_code (b_Code (f blk))) \<Longrightarrow> safe typed_store (cs_upd b f st)"
  unfolding cs_upd_def by (rule calm_reads(1)) (simp add: typed_put typed_get)

lemma drain_safe: "typed_buffer b \<Longrightarrow> typed_code out \<Longrightarrow> safe typed_code (drain b out)"
  by (auto simp: drain_def typed_buffer_def typed_code_def list_all_iff list_ex_iff dest!: bspec)

lemma compileEval_safe:
  assumes "typed_store st" "starts lx i" "oper_lexems lx"
  shows "safe (\<lambda>(j, st'). typed_store st' \<and> int i \<le> j) (compileEval env lx i buf st)"
proof -
  let ?e = "\<lparr>ev_i = i, ev_buffer = [], ev_code = [], ev_parcount = [], ev_index = None, ev_noMap = False, ev_store = st\<rparr>"
  have "safe (\<lambda>(j, e'). typed_ev e' \<and> int i \<le> j) (eval_loop env buf lx i (length lx + 2) ?e)"
    using compile_loop_safe [of ?e lx "length lx + 2" env buf i] assms by (simp add: typed_ev_def)
  then show ?thesis
    unfolding compileEval_def Let_def
    by (auto intro!: calm_reads safe_bind [OF drain_safe] safe_bind [OF typed_upd] elim!: safe_bind simp: typed_ev_def split: option.splits)
qed

section \<open>The functions of the transitions\<close>

lemma append_code_safe: "typed_store st \<Longrightarrow> typed_code cs \<Longrightarrow> safe typed_store (append_code b cs st)"
  by (auto simp: append_code_def intro!: typed_upd)

lemma upd_func_safe: "typed_store st \<Longrightarrow> (\<And>f. calm (g f)) \<Longrightarrow> safe typed_store (upd_func b g st)"
  unfolding upd_func_def
  by (rule calm_reads(1)) (auto intro!: safe_calm [OF calm_basic(10)] safe_calm [of "g _"] typed_put simp: typed_get)

lemma upd_contract_safe: "typed_store st \<Longrightarrow> (\<And>c. calm (g c)) \<Longrightarrow> safe typed_store (upd_contract b g st)"
  unfolding upd_contract_def
  by (rule calm_reads(1)) (auto intro!: safe_calm [OF calm_basic(11)] safe_calm [of "g _"] typed_put simp: typed_get)

lemma upd_tx_safe: "typed_store st \<Longrightarrow> (\<And>tx. calm (g tx)) \<Longrightarrow> safe typed_store (upd_tx g buf st)"
  unfolding upd_tx_def
  by (auto intro!: calm_reads upd_contract_safe calm_bind split: option.splits)

lemmas upd_safe = append_code_safe upd_func_safe upd_contract_safe upd_tx_safe typed_upd calm_reads
  safe_calm [OF calm_basic(13)] calm_bind calm_rules

lemma calm_errors [simp]: "safe Q (Inl (data_type_err l))" "safe Q (Inl (data_name_err l))" "safe Q (Inl (data_tag_err l))"
  by (simp_all add: data_type_err_def data_name_err_def data_tag_err_def)

lemma fError_safe: "safe Q (fError env s l)"
  by (auto simp: fError_def intro!: safe_calm [OF calm_basic(6)])

lemma field_safe:
  assumes "typed_store st"
  shows "safe typed_store (fField buf state l st)" "safe typed_store (fFields buf state l st)" "safe typed_store (fFieldComma buf state l st)"
    "safe typed_store (fFieldLine buf state l st)" "safe typed_store (fFieldType buf state l st)" "safe typed_store (fFieldTag buf state l st)"
  using assms
  by (auto simp: fField_def fFields_def fFieldComma_def fFieldLine_def fFieldType_def fFieldTag_def Let_def intro!: upd_safe)

lemma code_safe:
  assumes "typed_store st"
  shows "safe typed_store (fReturn buf state l st)" "safe typed_store (fIf buf state l st)" "safe typed_store (fWhile buf state l st)"
    "safe typed_store (fContinue buf state l st)" "safe typed_store (fBreak buf state l st)" "safe typed_store (fAssign buf state l st)"
    "safe typed_store (fElse buf state l st)"
  using assms
  by (auto simp: fReturn_def fIf_def fWhile_def fContinue_def fBreak_def fAssign_def fElse_def plain_cmds_def intro!: upd_safe)

lemma contract_safe:
  assumes "typed_store st"
  shows "safe typed_store (fTx buf state l st)" "safe typed_store (fSettings buf state l st)" "safe typed_store (fConstName buf state l st)"
    "safe typed_store (fConstValue env buf state l st)"
  using assms
  by (auto simp: fTx_def fSettings_def only_contract_def fConstName_def fConstValue_def Let_def intro!: upd_safe split: option.splits)

lemma func_safe:
  assumes "typed_store st"
  shows "safe typed_store (fFuncResult buf state l st)" "safe typed_store (fFNameParam buf state l st)"
  using assms by (auto simp: fFuncResult_def fFNameParam_def Let_def intro!: upd_safe)

lemma make_tail_calm: "calm (make_tail env k f)"
  by (auto simp: make_tail_def Let_def split: option.splits)

lemma param_safe:
  assumes "typed_store st"
  shows "safe typed_store (fFparam env buf state l st)" "safe typed_store (fFtype env buf state l st)" "safe typed_store (fFtail env buf state l st)"
  using assms
  by (auto simp: fFparam_def fFtype_def fFtail_def intro!: calm_reads safe_calm [OF calm_basic(13)] safe_bind [of typed_store] upd_func_safe
      typed_upd make_tail_calm)

lemma assigned_var_calm: "calm (assigned_var buf l st)"
  by (auto simp: assigned_var_def intro!: calm_bind calm_rules split: option.splits)

lemma typed_butlast: "typed_code cs \<Longrightarrow> typed_code (butlast cs)"
  by (auto simp: typed_code_def list_all_iff dest: in_set_butlastD)

lemma fAssignVar_safe: "typed_store st \<Longrightarrow> safe typed_store (fAssignVar buf state l st)"
  unfolding fAssignVar_def
  by (intro calm_reads safe_calm [OF assigned_var_calm])
     (auto intro!: append_code_safe typed_put typed_butlast intro: typed_get split: operand.splits)

lemma fNameBlock_safe: "typed_store st \<Longrightarrow> safe typed_store (fNameBlock buf state l st)"
  unfolding fNameBlock_def Let_def
  by (intro calm_reads safe_calm [OF calm_basic(3)])
     (auto simp: bind_res_assoc intro!: calm_reads safe_bind [of typed_store] typed_upd)

lemma handle_safe:
  assumes "typed_store st" "f = cfCmdError \<Longrightarrow> (\<exists>k. lx_Value l = LUint k)"
  shows "safe typed_store (handle env f buf state l st)"
  using assms
  by (cases f)
     (auto simp: handle_def fError_safe field_safe code_safe contract_safe func_safe param_safe fAssignVar_safe fNameBlock_safe
        fCmdError_def key_operand_def intro!: upd_safe)

section \<open>The table of states\<close>

text \<open>
  Every pass of the machine lowers four times the number of lexemes that are left plus the weight of the state,
  although some transitions stay at their lexeme and the transition out of \<open>stateAssignEval\<close> goes back to the
  beginning of the statement.
\<close>

definition weight :: "32 word \<Rightarrow> nat" where
  "weight s =
     (if s = stateAssignEval then 5 else if s = stateFParams then 4 else if s = stateFResult \<or> s = stateVar then 3
      else if s = stateAssign then 0 else 2)"

definition error_keys :: "32 word list" where
  "error_keys = [key_lexem keyError, key_lexem keyWarning, key_lexem keyInfo]"

definition stay_ok :: "32 word \<Rightarrow> 32 word \<Rightarrow> bool" where
  "stay_ok s ns \<longleftrightarrow>
     (if has_flag ns stateToFork then s = stateAssignEval \<and> weight (ns AND 0xff) = 0 else weight (ns AND 0xff) < weight s)
     \<and> ns AND 0xff \<noteq> stateAssignEval \<and> \<not> has_flag ns stateFork"

definition target :: "32 word \<Rightarrow> 32 word \<Rightarrow> 32 word" where
  "target s ns =
     (if has_flag ns stateToBody \<or> has_flag ns statePop then stateBody
      else if has_flag ns stateToBlock then stateBlock
      else if ns AND 0xff = stateEval then s else ns AND 0xff)"

definition move_ok :: "32 word \<Rightarrow> 32 word \<Rightarrow> 32 word \<Rightarrow> cfunc \<Rightarrow> bool" where
  "move_ok s k ns f \<longleftrightarrow>
     weight (target s ns) < weight s + 4
     \<and> (target s ns = stateAssignEval \<longrightarrow> has_flag ns stateFork \<and> k \<in> {lexIdent, lexExtend} \<and> ns AND 0xff \<noteq> stateEval)
     \<and> (has_flag ns stateToFork \<longrightarrow> s = stateAssignEval \<and> ns AND 0xff = stateEval \<and> weight (target s ns) < 5
          \<and> \<not> has_flag ns stateFork)
     \<and> (ns AND 0xff = stateEval \<longrightarrow> k \<notin> {0, isRCurly, isLCurly, lexNewLine} \<and> \<not> has_flag ns stateFork)
     \<and> (has_flag ns statePush \<longrightarrow> s \<in> {stateRoot, stateBody})
     \<and> (f = cfCmdError \<longrightarrow> k \<in> set error_keys \<and> \<not> has_flag ns stateToFork)"

definition trans_ok :: "32 word \<Rightarrow> 32 word \<times> 32 word \<times> cfunc \<Rightarrow> bool" where
  "trans_ok s = (\<lambda>(k, ns, f).
     if f = cfError then \<not> has_flag ns stateStay \<and> ns AND 0xff \<noteq> stateEval \<and> \<not> has_flag ns statePush \<and> \<not> has_flag ns statePop
     else if has_flag ns stateStay then stay_ok s ns else move_ok s k ns f)"

definition row_ok :: "32 word \<Rightarrow> stateLine \<Rightarrow> bool" where
  "row_ok s row \<longleftrightarrow> list_all (trans_ok s) row \<and> map_of row 0 \<noteq> None"

lemma table_ok: "list_all2 row_ok [0, 1, 2, 3, 4, 5, 6, 7, 8, 9, 10, 11, 12, 13, 14, 15, 16, 17, 18, 19, 20] states"
  by (simp add: states_def row_ok_def trans_ok_def stay_ok_def move_ok_def target_def weight_def has_flag_def error_keys_def
      state_consts lex_kinds key_lexem_def)

lemma state_numbers: "i < 21 \<Longrightarrow> [0, 1, 2, 3, 4, 5, 6, 7, 8, 9, 10, 11, 12, 13, 14, 15, 16, 17, 18, 19, 20] ! i = (of_nat i :: 32 word)"
  by (simp add: less_Suc_eq numeral_eq_Suc) (elim disjE; simp)

lemma transition_ok:
  assumes "transition s l = Inr (ns, f)"
  obtains k where "trans_ok s (k, ns, f)" "k = lx_Type l \<or> k = 0"
proof -
  have "uint s < int (length states)"
    using assms by (auto simp: transition_def res_simps go_nth_def split: if_splits)
  moreover have "uint s = int (unat s)" by simp
  ultimately have s: "unat s < length states" by linarith
  let ?row = "states ! unat s"
  have ok: "list_all (trans_ok s) ?row" "map_of ?row 0 \<noteq> None"
    using list_all2_nthD2 [OF table_ok s] s list_all2_lengthD [OF table_ok] state_numbers [of "unat s"] by (simp_all add: row_ok_def)
  have "case map_of ?row (lx_Type l) of Some t \<Rightarrow> t = (ns, f) | None \<Rightarrow> map_of ?row 0 = Some (ns, f)"
    using assms ok(2) by (auto simp: transition_def res_simps go_nth_def split: option.splits if_splits)
  then show ?thesis
    using that [of "lx_Type l"] that [of 0] ok(1)
    by (auto simp: list_all_iff split: option.splits dest: map_of_SomeD)
qed

section \<open>One pass\<close>

definition lexems_ok :: "Lexem list \<Rightarrow> bool" where
  "lexems_ok lx \<longleftrightarrow> oper_lexems lx \<and> list_all (\<lambda>l. lx_Type l \<in> set error_keys \<longrightarrow> (\<exists>k. lx_Value l = LUint k)) lx"

definition mach_ok :: "Lexem list \<Rightarrow> nat \<Rightarrow> cmach \<Rightarrow> bool" where
  "mach_ok lx i m \<longleftrightarrow> typed_store (cm_store m) \<and> set (cm_stack m) \<subseteq> {stateRoot, stateBody} \<and>
     (cm_state m = stateAssignEval \<longrightarrow> i = Suc (cm_fork m) \<and> cm_fork m < length lx \<and> lx_Type (lx ! cm_fork m) \<in> {lexIdent, lexExtend})"

definition potential :: "Lexem list \<Rightarrow> nat \<Rightarrow> cmach \<Rightarrow> nat" where
  "potential lx i m = 4 * (length lx - i) + weight (cm_state m)"

definition pass_ok :: "Lexem list \<Rightarrow> nat \<Rightarrow> nat \<times> cmach \<Rightarrow> bool" where
  "pass_ok lx p = (\<lambda>(i', m'). mach_ok lx i' m' \<and> potential lx i' m' < p)"

lemma comp_eval_safe:
  assumes "typed_store (cm_store m)" "starts lx i" "lexems_ok lx"
  shows "safe (\<lambda>(j, m'). int i \<le> j \<and> typed_store (cm_store m') \<and> cm_state m' = cm_state m \<and>
      cm_stack m' = cm_stack m \<and> cm_fork m' = cm_fork m) (comp_eval env lx ns i m)"
proof -
  have label: "safe typed_store (if k then append_code b [bcode cmdLabel OpInt] (cm_store m) else Inr (cm_store m))" for k b
    using assms(1) by (auto simp: plain_cmds_def intro!: append_code_safe)
  show ?thesis
    unfolding comp_eval_def
    using assms(2,3)
    by (auto intro!: calm_reads(2) safe_bind [OF label] safe_bind [OF compileEval_safe] safe_calm [OF calm_basic(1)] simp: lexems_ok_def)
qed

lemma push_block_safe:
  assumes "typed_store (cm_store m)"
  shows "safe (\<lambda>m'. typed_store (cm_store m') \<and> cm_state m' = cm_state m \<and> cm_fork m' = cm_fork m \<and> cm_stack m' = cm_state m # cm_stack m)
    (push_block m)"
proof -
  have "typed_store (snd (cs_alloc (new_block p) (cm_store m)))" for p
    using assms by (auto simp: cs_alloc_def new_block_def typed_store_def)
  then show ?thesis
    unfolding push_block_def
    by (auto intro!: calm_reads(2) safe_bind [OF typed_upd] split: prod.splits simp: cs_alloc_def)
qed

lemma pop_block_safe:
  assumes "typed_store (cm_store m)"
  shows "safe (\<lambda>(s, m'). typed_store (cm_store m') \<and> cm_fork m' = cm_fork m \<and> cm_stack m = s # cm_stack m') (pop_block env l m)"
proof -
  have "safe typed_store (move_continue buf st)" if "typed_store st" for buf st
    using that
    by (auto simp: move_continue_def plain_cmds_def typed_get intro!: safe_calm [OF calm_basic(1)] append_code_safe typed_put typed_butlast
        split: list.splits)
  with assms show ?thesis
    by (auto simp: pop_block_def fError_safe intro!: safe_bind [of typed_store] split: list.splits)
qed

text \<open>A pass that does not stay, behind the jump to the fork.\<close>

definition move_pass :: "'w cenv \<Rightarrow> Lexem list \<Rightarrow> 32 word \<Rightarrow> cfunc \<Rightarrow> nat \<Rightarrow> cmach \<Rightarrow> (nat \<times> cmach) res" where
  "move_pass env lx ns f i m =
     bind_res (if ns AND 0xff = stateEval then comp_eval env lx ns i m else Inr (int i, m)) (\<lambda>(j, m).
     let next = if ns AND 0xff = stateEval then cm_state m else ns AND 0xff
     in bind_res (if has_flag ns statePush then push_block m else Inr m) (\<lambda>m.
        bind_res (if has_flag ns statePop then pop_block env (lx ! i) m else Inr (next, m)) (\<lambda>(next, m).
        let next = if has_flag ns stateToBlock then stateBlock else next;
            next = if has_flag ns stateToBody then stateBody else next
        in bind_res (handle env f (cm_blocks m) next (lx ! i) (cm_store m)) (\<lambda>st.
             Inr (nat (j + 1), m\<lparr>cm_state := next, cm_store := st\<rparr>)))))"

definition jump :: "32 word \<Rightarrow> nat \<Rightarrow> cmach \<Rightarrow> nat" where
  "jump ns i m = (if has_flag ns stateToFork then if has_flag ns stateFork then i else cm_fork m else i)"

definition refork :: "32 word \<Rightarrow> nat \<Rightarrow> cmach \<Rightarrow> cmach" where
  "refork ns i m = m\<lparr>cm_fork := if has_flag ns stateToFork then 0 else if has_flag ns stateFork then i else cm_fork m\<rparr>"

lemma comp_step_pass:
  "comp_step env lx i m =
     bind_res (transition (cm_state m) (lx ! i)) (\<lambda>(ns, f).
       if has_flag ns stateStay then Inr (jump ns i m, (refork ns i m)\<lparr>cm_state := ns AND 0xff\<rparr>)
       else move_pass env lx ns f (jump ns i m) (refork ns i m))"
  unfolding comp_step_def
  by (intro arg_cong [where f = "bind_res _"] ext)
     (simp add: move_pass_def jump_def refork_def Let_def split: prod.split)

definition moved :: "32 word \<Rightarrow> 32 word \<Rightarrow> nat \<Rightarrow> nat \<Rightarrow> nat \<times> cmach \<Rightarrow> bool" where
  "moved s ns i fork = (\<lambda>(i', m'). i < i' \<and> (ns AND 0xff \<noteq> stateEval \<longrightarrow> i' = Suc i) \<and> typed_store (cm_store m') \<and>
     set (cm_stack m') \<subseteq> {stateRoot, stateBody} \<and> cm_fork m' = fork \<and> weight (cm_state m') = weight (target s ns) \<and>
     (cm_state m' = stateAssignEval \<longrightarrow> target s ns = stateAssignEval))"

lemma state_weights [simp]:
  "weight stateRoot = 2" "weight stateBody = 2" "weight stateBlock = 2" "weight stateAssignEval = 5" "stateRoot \<noteq> stateAssignEval"
  "stateBody \<noteq> stateAssignEval" "stateBlock \<noteq> stateAssignEval"
  by (simp_all add: weight_def state_consts)

lemma move_pass_safe:
  assumes "typed_store (cm_store m)" "set (cm_stack m) \<subseteq> {stateRoot, stateBody}" "lexems_ok lx"
    and "ns AND 0xff = stateEval \<Longrightarrow> starts lx i" "has_flag ns statePush \<Longrightarrow> cm_state m \<in> {stateRoot, stateBody}"
    and "f = cfCmdError \<Longrightarrow> \<exists>k. lx_Value (lx ! i) = LUint k"
  shows "safe (moved (cm_state m) ns i (cm_fork m)) (move_pass env lx ns f i m)"
proof -
  let ?inv = "\<lambda>m'. typed_store (cm_store m') \<and> set (cm_stack m') \<subseteq> {stateRoot, stateBody} \<and> cm_fork m' = cm_fork m"
  have ev: "safe (\<lambda>(j, m'). int i \<le> j \<and> (ns AND 0xff \<noteq> stateEval \<longrightarrow> j = int i) \<and> ?inv m' \<and> cm_state m' = cm_state m)
      (if ns AND 0xff = stateEval then comp_eval env lx ns i m else Inr (int i, m))"
  proof (cases "ns AND 0xff = stateEval")
    case True
    then show ?thesis
      using comp_eval_safe [OF assms(1) assms(4) [OF True] assms(3), of env ns] assms(2) by (auto elim!: safe_mono)
  qed (use assms(1,2) in simp)
  have pu: "safe ?inv (if has_flag ns statePush then push_block m1 else Inr m1)" if "?inv m1" "cm_state m1 = cm_state m" for m1
    using that push_block_safe [of m1] assms(5) by (auto elim!: safe_mono)
  have po: "safe (\<lambda>(next, m'). ?inv m' \<and> (if has_flag ns statePop then next \<in> {stateRoot, stateBody} else next = s))
      (if has_flag ns statePop then pop_block env (lx ! i) m1 else Inr (s, m1))" if "?inv m1" for m1 s
    using that pop_block_safe [of m1 env "lx ! i"] by (auto elim!: safe_mono)
  have ha: "safe typed_store (handle env f buf state (lx ! i) st)" if "typed_store st" for buf state st
    using handle_safe [OF that assms(6)] .
  show ?thesis
    unfolding move_pass_def
    apply (rule safe_bind [OF ev])
    apply (clarsimp simp: Let_def split del: if_split)
    apply (rule safe_bind [OF pu], simp, simp)
    apply (rule safe_bind [OF po], simp)
    apply (clarsimp split del: if_split)
    apply (rule safe_bind [OF ha], simp)
    apply (auto simp: moved_def target_def nat_add_distrib split: if_splits)
    done
qed

lemma error_pass_safe: "trans_ok s (k, ns, cfError) \<Longrightarrow> safe Q (move_pass env lx ns cfError i m)"
  by (auto simp: trans_ok_def move_pass_def Let_def handle_def intro!: safe_bind [OF fError_safe [of "\<lambda>_. False"]])

lemma stay_pass:
  assumes "mach_ok lx i m" "i < length lx" "stay_ok (cm_state m) ns"
  shows "pass_ok lx (potential lx i m) (jump ns i m, (refork ns i m)\<lparr>cm_state := ns AND 0xff\<rparr>)"
  using assms
  by (cases "has_flag ns stateToFork") (auto simp: stay_ok_def pass_ok_def mach_ok_def potential_def jump_def refork_def)

lemma move_pass_ok:
  assumes "mach_ok lx i m" "i < length lx" "move_ok (cm_state m) k ns f" "k = lx_Type (lx ! i) \<or> k = 0"
    and "moved (cm_state m) ns (jump ns i m) (cm_fork (refork ns i m)) r"
  shows "pass_ok lx (potential lx i m) r"
proof -
  obtain i' m' where r: "r = (i', m')" by (cases r)
  let ?t = "target (cm_state m) ns"
  have nz: "lexIdent \<noteq> 0" "lexExtend \<noteq> 0" by (simp_all add: lex_consts)
  have mv: "jump ns i m < i'" "typed_store (cm_store m')" "set (cm_stack m') \<subseteq> {stateRoot, stateBody}"
    "cm_fork m' = cm_fork (refork ns i m)" "weight (cm_state m') = weight ?t" "cm_state m' = stateAssignEval \<Longrightarrow> ?t = stateAssignEval"
    "ns AND 0xff \<noteq> stateEval \<Longrightarrow> i' = Suc (jump ns i m)"
    using assms(5) by (simp_all add: r moved_def)
  have fork: "has_flag ns stateToFork \<Longrightarrow> cm_state m = stateAssignEval \<and> ns AND 0xff = stateEval \<and> weight ?t < 5 \<and> \<not> has_flag ns stateFork"
    "?t = stateAssignEval \<Longrightarrow> has_flag ns stateFork \<and> k \<in> {lexIdent, lexExtend} \<and> ns AND 0xff \<noteq> stateEval" "weight ?t < weight (cm_state m) + 4"
    using assms(3) unfolding move_ok_def by blast+
  show ?thesis
  proof (cases "has_flag ns stateToFork")
    case True
    then have "i = Suc (cm_fork m)" "jump ns i m = cm_fork m" "weight (cm_state m) = 5"
      using fork(1) assms(1) by (simp_all add: mach_ok_def jump_def)
    then show ?thesis using True fork(1,2) mv by (auto simp: r pass_ok_def mach_ok_def potential_def)
  next
    case False
    then have j: "jump ns i m = i" by (simp add: jump_def)
    have "mach_ok lx i' m'"
      unfolding mach_ok_def using mv(2,3) mv(4,6,7) fork(2) False assms(2,4) nz by (auto simp: j refork_def)
    moreover have "4 * (length lx - i') + 4 \<le> 4 * (length lx - i)" using mv(1) assms(2) j by simp
    ultimately show ?thesis using fork(3) mv(5) by (simp add: r pass_ok_def potential_def)
  qed
qed

lemma comp_step_safe:
  assumes "mach_ok lx i m" "i < length lx" "lexems_ok lx"
  shows "safe (pass_ok lx (potential lx i m)) (comp_step env lx i m)"
  unfolding comp_step_pass
proof (rule safe_calm)
  show "calm (transition (cm_state m) (lx ! i))" by (auto simp: transition_def intro!: safe_calm [OF calm_basic(6)])
  fix r
  assume "transition (cm_state m) (lx ! i) = Inr r"
  moreover obtain ns f where r: "r = (ns, f)" by (cases r)
  ultimately obtain k where k: "trans_ok (cm_state m) (k, ns, f)" "k = lx_Type (lx ! i) \<or> k = 0"
    using transition_ok by blast
  let ?i = "jump ns i m" and ?m = "refork ns i m"
  have mv: "safe (pass_ok lx (potential lx i m)) (move_pass env lx ns f ?i ?m)" if ok: "move_ok (cm_state m) k ns f"
  proof (rule safe_mono)
    have j: "has_flag ns stateToFork \<Longrightarrow> ?i < length lx \<and> lx_Type (lx ! ?i) \<in> {lexIdent, lexExtend}" "\<not> has_flag ns stateToFork \<Longrightarrow> ?i = i"
      using ok assms(1) by (auto simp: move_ok_def mach_ok_def jump_def)
    show "safe (moved (cm_state ?m) ns ?i (cm_fork ?m)) (move_pass env lx ns f ?i ?m)"
    proof (rule move_pass_safe)
      show "ns AND 0xff = stateEval \<Longrightarrow> starts lx ?i"
        using ok k(2) j assms(2) by (cases "has_flag ns stateToFork") (auto simp: move_ok_def starts_def lex_kinds)
      show "f = cfCmdError \<Longrightarrow> \<exists>k. lx_Value (lx ! ?i) = LUint k"
        using ok k(2) j assms(2,3) by (auto simp: move_ok_def lexems_ok_def list_all_length error_keys_def key_lexem_def lex_consts)
    qed (use assms(1,3) ok in \<open>auto simp: mach_ok_def move_ok_def refork_def\<close>)
  qed (use move_pass_ok [OF assms(1,2) ok k(2)] in \<open>simp add: refork_def\<close>)
  show "safe (pass_ok lx (potential lx i m)) (case r of (ns, f) \<Rightarrow>
      if has_flag ns stateStay then Inr (jump ns i m, (refork ns i m)\<lparr>cm_state := ns AND 0xff\<rparr>)
      else move_pass env lx ns f (jump ns i m) (refork ns i m))"
    using k(1) mv stay_pass [OF assms(1,2)] error_pass_safe [of "cm_state m" k ns]
    by (auto simp: r trans_ok_def split: if_splits)
qed

section \<open>The compiler ends, with typed code\<close>

lemma comp_loop_safe:
  assumes "mach_ok lx i m" "potential lx i m < n" "lexems_ok lx"
  shows "safe (\<lambda>m'. typed_store (cm_store m')) (comp_loop env lx n i m)"
  using assms
proof (induction n arbitrary: i m)
  case (Suc n)
  show ?case
  proof (cases "i < length lx")
    case True
    have "safe (\<lambda>m'. typed_store (cm_store m')) (case r of (i, m) \<Rightarrow> comp_loop env lx n i m)" if "pass_ok lx (potential lx i m) r" for r
      using that Suc by (cases r) (auto simp: pass_ok_def)
    then show ?thesis using True Suc.prems by (auto intro!: safe_bind [OF comp_step_safe])
  qed (use Suc.prems in \<open>simp add: mach_ok_def\<close>)
qed simp

lemma cond_writes_calm: "calm (cond_writes st p)"
  by (auto simp: cond_writes_def intro!: calm_bind calm_rules split: option.splits)

lemma check_conditions_calm: "calm (check_conditions st ps)"
  by (induction ps) (auto intro!: calm_bind cond_writes_calm)

lemma compile_lexems_safe:
  assumes "lexems_ok lx" "typed_store st"
  shows "safe (\<lambda>(r, st'). typed_store st') (compile_lexems env lx owner st)"
proof -
  let ?a = "cs_alloc ((new_block None)\<lparr>b_Info := InfoState (ow_StateID owner), b_Owner := Some owner\<rparr>) st"
  have st: "typed_store (snd ?a)" using assms(2) by (auto simp: cs_alloc_def new_block_def typed_store_def)
  have "safe (\<lambda>m'. typed_store (cm_store m')) (comp_loop env lx (4 * length lx + 4) 0
      \<lparr>cm_state = stateRoot, cm_stack = [], cm_blocks = [fst ?a], cm_fork = 0, cm_store = snd ?a\<rparr>)"
    using st assms(1) by (intro comp_loop_safe) (simp_all add: mach_ok_def potential_def)
  then show ?thesis
    unfolding compile_lexems_def
    using st by (auto intro!: safe_calm [OF calm_basic(1)] safe_calm [OF check_conditions_calm] elim!: safe_bind simp: fError_safe split: prod.splits)
qed

end
