(* ===== verification/Eval_If.thy ===== *)
theory Eval_If
  imports Expr_Run
begin

text \<open>
  Conditions, \<open>packages/script/eval.go\<close>: a condition is compiled as the body of a function, the code is
  cached under the checksum of its text, and \<open>EvalIf\<close> runs it.
\<close>

section \<open>The cache and its operations\<close>

record evalCode =
  ec_Source :: string
  ec_Code :: blockid

type_synonym evals = "64 word \<rightharpoonup> evalCode"

text \<open>What \<open>eval.go\<close> calls: the lexer's parameters, \<open>crypto.CalcChecksum\<close> and \<open>syspar.GetMaxCost\<close>.\<close>

record eval_env =
  ee_float :: "string \<Rightarrow> string + 64 word"
  ee_cap :: nat
  ee_behind :: rune
  ee_crc :: "string \<Rightarrow> 64 word"
  ee_maxCost :: int

definition eval_source :: "string \<Rightarrow> string" where
  "eval_source input = ''func eval bool { return '' @ input @ ''}''"

definition state_owner :: "32 word \<Rightarrow> OwnerInfo" where
  "state_owner state = \<lparr>ow_StateID = state, ow_Active = False, ow_TableID = 0, ow_WalletID = 0, ow_TokenID = 0\<rparr>"

definition CompileEval :: "'w cenv \<Rightarrow> eval_env \<Rightarrow> string \<Rightarrow> 32 word \<Rightarrow> evals \<times> cstore \<Rightarrow> (evals \<times> cstore) res" where
  "CompileEval env ee input state = (\<lambda>(evals, st).
     bind_res (CompileBlock env (ee_float ee) (ee_cap ee) (ee_behind ee) (runes (eval_source input)) (state_owner state) st) (\<lambda>(b, st).
       Inr (evals(ee_crc ee input \<mapsto> \<lparr>ec_Source = input, ec_Code = b\<rparr>), st)))"

definition with_store :: "cstore \<Rightarrow> 'w VM \<Rightarrow> 'w VM" where
  "with_store st vm = vm\<lparr>vm_blocks := cs_blocks st\<rparr>"

text \<open>
  The result is the answer with its error; \<open>Inl\<close> an error of the compiler or a panic. A run that needs more
  than the fuel \<open>n\<close> is \<open>None\<close>.
\<close>

definition run_condition ::
  "'w cenv \<Rightarrow> eval_env \<Rightarrow> nat \<Rightarrow> blockid \<Rightarrow> (string \<Rightarrow> val option) \<Rightarrow> heap \<Rightarrow> 'w \<Rightarrow> cstore \<Rightarrow> (bool \<times> string option) res option" where
  "run_condition env ee n b vars h w st =
     (case cs_get st b of
        Inl e \<Rightarrow> Some (Inl e)
      | Inr blk \<Rightarrow>
          if b_Children blk = [] then Some (Inl out_of_range)
          else
            let vm = with_store st (ce_vm env) in
            (case run_block vm n (hd (b_Children blk)) (RunInit (ee_maxCost ee) vars h w) of
               None \<Rightarrow> None
             | Some (Inl e, _) \<Rightarrow> Some (Inl e)
             | Some (Inr (vs, Some e), _) \<Rightarrow> Some (Inr (False, Some e))
             | Some (Inr ([], None), _) \<Rightarrow> Some (Inr (False, None))
             | Some (Inr (v # vs, None), s) \<Rightarrow> Some (bind_res (valueToBool vm (rt_heap s) v) (\<lambda>b. Inr (b, None)))))"

definition EvalIf ::
  "'w cenv \<Rightarrow> eval_env \<Rightarrow> nat \<Rightarrow> string \<Rightarrow> 32 word \<Rightarrow> (string \<Rightarrow> val option) \<Rightarrow> heap \<Rightarrow> 'w \<Rightarrow> evals \<times> cstore \<Rightarrow>
    ((bool \<times> string option) res \<times> evals \<times> cstore) option" where
  "EvalIf env ee n input state vars h w es =
     (if input = [] then Some (Inr (True, None), es)
      else
        let crc = ee_crc ee input;
            cached = (case fst es crc of Some e \<Rightarrow> ec_Source e = input | None \<Rightarrow> False)
        in
        case (if cached then Inr es else CompileEval env ee input state es) of
          Inl e \<Rightarrow> Some (case e of Error m \<Rightarrow> Inr (False, Some m) | _ \<Rightarrow> Inl e, es)
        | Inr es \<Rightarrow>
            (case fst es crc of
               None \<Rightarrow> Some (Inl nil_deref, es)
             | Some e \<Rightarrow> map_option (\<lambda>r. (r, es)) (run_condition env ee n (ec_Code e) vars h w (snd es))))"

section \<open>The code of a condition\<close>

definition condition_toks :: "expr \<Rightarrow> ltok list" where
  "condition_toks x =
     [(key_lexem keyFunc, LUint 2), (lexIdent, LStr ''eval''), (lexType, LType TBool), (isLCurly, LUint 123),
      (key_lexem keyReturn, LUint 3)] @ toks x @ [(isRCurly, LUint 125)]"

definition condition_root :: "32 word \<Rightarrow> blockid \<Rightarrow> Block" where
  "condition_root state b =
     (new_block None)\<lparr>b_Info := InfoState state, b_Owner := Some (state_owner state), b_Children := [Suc b],
       b_Objects := [(''eval'', \<lparr>oi_Type = ObjFunc, oi_Value = OVBlock (Suc b)\<rparr>)]\<rparr>"

definition condition_block :: "blockid \<Rightarrow> expr \<Rightarrow> Block" where
  "condition_block b x =
     (new_block (Some b))\<lparr>b_Type := ObjFunc, b_Info := InfoFunc (no_func\<lparr>fi_Results := [Some TBool]\<rparr>),
       b_Code := postfix (\<lambda>_. undefined) x @ [bcode cmdReturn OpInt]\<rparr>"

definition condition_store :: "32 word \<Rightarrow> expr \<Rightarrow> cstore \<Rightarrow> cstore" where
  "condition_store state x st =
     \<lparr>cs_blocks = (cs_blocks st)(cs_next st \<mapsto> condition_root state (cs_next st), Suc (cs_next st) \<mapsto> condition_block (cs_next st) x),
      cs_next = Suc (Suc (cs_next st))\<rparr>"

lemma loop_comp:
  assumes "i < length lx" "comp_step env lx i m = Inr (j, m')"
  shows "comp_loop env lx (Suc n) i m = comp_loop env lx n j m'"
  using assms by simp

lemma loop_end: "length lx \<le> i \<Longrightarrow> 0 < n \<Longrightarrow> comp_loop env lx n i m = Inr m"
  by (cases n) simp_all

definition machine :: "32 word \<Rightarrow> 32 word list \<Rightarrow> blockid list \<Rightarrow> cstore \<Rightarrow> cmach" where
  "machine s ss bs st = \<lparr>cm_state = s, cm_stack = ss, cm_blocks = bs, cm_fork = 0, cm_store = st\<rparr>"

lemmas step_defs = comp_step_def has_flag_def state_consts machine_def handle_def buf_nth_def buf_root_def cs_get_def cs_put_def cs_upd_def

lemma condition_transitions:
  "lx_Type l = key_lexem keyFunc \<Longrightarrow> transition stateRoot l = Inr (stateFunc OR statePush, cfNothing)"
  "lx_Type l = lexIdent \<Longrightarrow> transition stateFunc l = Inr (stateFParams, cfNameBlock)"
  "lx_Type l = lexType \<Longrightarrow> transition stateFParams l = Inr (stateFResult OR stateStay, cfNothing)"
  "lx_Type l = lexType \<Longrightarrow> transition stateFResult l = Inr (stateFResult, cfFResult)"
  "lx_Type l = isLCurly \<Longrightarrow> transition stateFResult l = Inr (stateBlock OR stateStay, cfNothing)"
  "lx_Type l = isLCurly \<Longrightarrow> transition stateBlock l = Inr (stateBody, cfNothing)"
  "lx_Type l = key_lexem keyReturn \<Longrightarrow> transition stateBody l = Inr (stateEval, cfReturn)"
  "lx_Type l = isRCurly \<Longrightarrow> transition stateBody l = Inr (statePop, cfNothing)"
  by (simp_all add: transition_def states_def go_nth_def state_consts lex_kinds key_lexem_def)

text \<open>The store when the body of the function begins, with the commands of the body so far.\<close>

definition open_store :: "32 word \<Rightarrow> ByteCode list \<Rightarrow> cstore \<Rightarrow> cstore" where
  "open_store state cs st =
     \<lparr>cs_blocks = (cs_blocks st)(cs_next st \<mapsto> condition_root state (cs_next st),
        Suc (cs_next st) \<mapsto> (new_block (Some (cs_next st)))\<lparr>b_Type := ObjFunc,
          b_Info := InfoFunc (no_func\<lparr>fi_Results := [Some TBool]\<rparr>), b_Code := cs\<rparr>),
      cs_next = Suc (Suc (cs_next st))\<rparr>"

lemma open_condition: "open_store state (postfix (\<lambda>_. undefined) x @ [bcode cmdReturn OpInt]) st = condition_store state x st"
  by (simp add: open_store_def condition_store_def condition_block_def)

lemma header_steps:
  assumes "lt (lx ! 0) = (key_lexem keyFunc, LUint 2)" "lt (lx ! 1) = (lexIdent, LStr ''eval'')"
    "lt (lx ! 2) = (lexType, LType TBool)" "lt (lx ! 3) = (isLCurly, LUint 123)" "4 < length lx"
    and "cs_blocks st b = Some ((new_block None)\<lparr>b_Info := InfoState state, b_Owner := Some (state_owner state)\<rparr>)" "cs_next st = Suc b"
  shows "comp_loop env lx (n + 6) 0 (machine stateRoot [] [b] st) =
    comp_loop env lx n 4 (machine stateBody [stateRoot] [Suc b, b] (open_store state [] (st\<lparr>cs_next := b\<rparr>)))"
proof -
  note ty = assms(1-4) [unfolded lt_def prod.inject, THEN conjunct1] assms(1-4) [unfolded lt_def prod.inject, THEN conjunct2]
  let ?r = "(new_block None)\<lparr>b_Info := InfoState state, b_Owner := Some (state_owner state), b_Children := [Suc b]\<rparr>"
  let ?st = "\<lambda>r f. \<lparr>cs_blocks = (cs_blocks st)(b \<mapsto> r, Suc b \<mapsto> f), cs_next = Suc (Suc b)\<rparr>"
  let ?f = "(new_block (Some b))\<lparr>b_Info := InfoFunc no_func, b_Type := ObjFunc\<rparr>"
  have s: "comp_step env lx 0 (machine stateRoot [] [b] st) = Inr (Suc 0, machine stateFunc [stateRoot] [Suc b, b] (?st ?r (new_block (Some b))))"
    using condition_transitions(1) [OF ty(1)] assms(6,7)
    by (cases st) (simp add: step_defs push_block_def cs_alloc_def fun_upd_twist new_block_def)
  have s1: "comp_step env lx (Suc 0) (machine stateFunc [stateRoot] [Suc b, b] (?st ?r (new_block (Some b)))) =
      Inr (2, machine stateFParams [stateRoot] [Suc b, b] (?st (condition_root state b) ?f))"
    using condition_transitions(2) [OF ty(2)] ty(6)
    by (simp add: step_defs fNameBlock_def lex_str_def condition_root_def new_block_def fun_upd_twist)
  have s2: "comp_step env lx 2 (machine stateFParams [stateRoot] [Suc b, b] st') = Inr (2, machine stateFResult [stateRoot] [Suc b, b] st')" for st'
    using condition_transitions(3) [OF ty(3)] by (simp add: step_defs)
  have s3: "comp_step env lx 2 (machine stateFResult [stateRoot] [Suc b, b] (?st (condition_root state b) ?f)) =
      Inr (3, machine stateFResult [stateRoot] [Suc b, b] (open_store state [] (st\<lparr>cs_next := b\<rparr>)))"
    using condition_transitions(4) [OF ty(3)] ty(7)
    by (simp add: step_defs fFuncResult_def upd_func_def func_info_def lex_type_def open_store_def no_func_def new_block_def)
  have s4: "comp_step env lx 3 (machine stateFResult [stateRoot] [Suc b, b] st') = Inr (3, machine stateBlock [stateRoot] [Suc b, b] st')" for st'
    using condition_transitions(5) [OF ty(4)] by (simp add: step_defs)
  have s5: "comp_step env lx 3 (machine stateBlock [stateRoot] [Suc b, b] st') = Inr (4, machine stateBody [stateRoot] [Suc b, b] st')" for st'
    using condition_transitions(6) [OF ty(4)] by (simp add: step_defs)
  have six: "n + 6 = Suc (Suc (Suc (Suc (Suc (Suc n)))))" by simp
  note steps = loop_comp [OF _ s] loop_comp [OF _ s1] loop_comp [OF _ s2] loop_comp [OF _ s3] loop_comp [OF _ s4] loop_comp [OF _ s5]
  have "lx \<noteq> []" "Suc 0 < length lx" "2 < length lx" "3 < length lx" using assms(5) by auto
  then show ?thesis unfolding six by (simp add: steps del: comp_loop.simps)
qed

lemma compile_condition:
  assumes "well_formed x" "names_of x = {}" "map lt lx = condition_toks x"
  shows "compile_lexems env lx (state_owner state) st = Inr (cs_next st, condition_store state x st)"
proof -
  let ?n = "length (toks x)"
  let ?b = "cs_next st"
  have len: "length lx = ?n + 6" using arg_cong [OF assms(3), of length] by (simp add: condition_toks_def)
  have "matches lx 0 (condition_toks x)" using assms(3) len by (simp add: matches_def condition_toks_def)
  then have m: "lt (lx ! 0) = (key_lexem keyFunc, LUint 2)" "lt (lx ! 1) = (lexIdent, LStr ''eval'')"
    "lt (lx ! 2) = (lexType, LType TBool)" "lt (lx ! 3) = (isLCurly, LUint 123)" "lt (lx ! 4) = (key_lexem keyReturn, LUint 3)"
    "matches lx 4 ((key_lexem keyReturn, LUint 3) # toks x @ [(isRCurly, LUint 125)])" "lt (lx ! (?n + 5)) = (isRCurly, LUint 125)"
    by (simp_all add: condition_toks_def matches_Cons matches_append numeral_eq_Suc)
  let ?s0 = "\<lparr>cs_blocks = (cs_blocks st)(?b \<mapsto> (new_block None)\<lparr>b_Info := InfoState state, b_Owner := Some (state_owner state)\<rparr>),
      cs_next = Suc ?b\<rparr>"
  let ?code = "postfix (\<lambda>_. undefined) x"
  note ty = m(5,7) [unfolded lt_def prod.inject, THEN conjunct1]
  have "compileEval env lx 4 [Suc ?b, ?b] (open_store state [] st) = Inr (int ?n + 4, open_store state ?code st)"
    using compile_expr [OF assms(1) m(6), of env "open_store state [] st" "Suc ?b" "[?b]" "\<lambda>_. undefined"] assms(2)
    by (simp add: resolves_def eval_start_def eval_end_def end_index_def lex_kinds open_store_def cs_put_def)
  then have s4: "comp_step env lx 4 (machine stateBody [stateRoot] [Suc ?b, ?b] (open_store state [] st)) =
      Inr (?n + 5, machine stateBody [stateRoot] [Suc ?b, ?b] (condition_store state x st))"
    using condition_transitions(7) [OF ty(1)]
    by (simp add: step_defs comp_eval_def fReturn_def append_code_def flip: open_condition) (simp add: open_store_def nat_add_distrib)
  have s5: "comp_step env lx (?n + 5) (machine stateBody [stateRoot] [Suc ?b, ?b] (condition_store state x st)) =
      Inr (?n + 6, machine stateRoot [] [?b] (condition_store state x st))"
    using condition_transitions(8) [OF ty(2)]
    by (simp add: step_defs pop_block_def move_continue_def condition_store_def condition_root_def new_block_def nat_add_distrib)
  have "comp_loop env lx (4 * length lx + 4) 0 (machine stateRoot [] [?b] ?s0) =
      comp_loop env lx (4 * length lx - 2) 4 (machine stateBody [stateRoot] [Suc ?b, ?b] (open_store state [] st))"
    using header_steps [OF m(1-4), of ?s0 ?b state env "4 * length lx - 2"] len by (simp add: open_store_def)
  also have "\<dots> = comp_loop env lx (4 * length lx - 4) (?n + 6) (machine stateRoot [] [?b] (condition_store state x st))"
    using loop_comp [OF _ s4, of "4 * length lx - 3"] loop_comp [OF _ s5, of "4 * length lx - 4"] len by (simp add: Suc_diff_Suc)
  also have "\<dots> = Inr (machine stateRoot [] [?b] (condition_store state x st))" using len by (intro loop_end) simp_all
  finally have "comp_loop env lx (4 * length lx + 4) 0 (machine stateRoot [] [?b] ?s0) = Inr (machine stateRoot [] [?b] (condition_store state x st))" .
  moreover have "lx \<noteq> []" using len by auto
  moreover have "cs_alloc ((new_block None)\<lparr>b_Info := InfoState (ow_StateID (state_owner state)), b_Owner := Some (state_owner state)\<rparr>) st = (?b, ?s0)"
    by (cases st) (simp add: cs_alloc_def state_owner_def)
  ultimately show ?thesis
    by (simp add: compile_lexems_def machine_def) (simp add: cs_get_def condition_store_def condition_root_def cond_writes_def)
qed

section \<open>Running a condition\<close>

lemma value_no_names: "names_of x = {} \<Longrightarrow> value_of vm vi (s\<lparr>rt_blocks := bs\<rparr>) x = value_of vm vi s x"
  by (induction x) (simp_all split: option.split)

lemma exec_return: "exec_cmd vm rc (bcode cmdReturn OpInt) sz fr s = Some (Inr (fr, Tail statusReturn None VNil), s)"
  by (simp add: exec_cmd_def exec_plain_def bcode_def cmd_consts ret_run_def bind_run_def)

lemma return_plain: "bc_Cmd (bcode cmdReturn OpInt) = cmdReturn" "arity cmdReturn = 0" "fits_top cmdReturn"
  by (simp_all add: arity_def fits_top_def cmd_consts bcode_def)

lemma paid_pushed: "paid d (pushed vs c s) = pushed vs (c + d) s"
  by (simp add: paid_def pushed_def algebra_simps)

lemma run_condition_block:
  assumes "names_of x = {}"
    and "vm_blocks vm b = Some (condition_block p x)"
    and "value_of vm (\<lambda>_. undefined) (RunInit c vars h w) x = Some v" "price x + 1 < c" "c < 2 ^ 62" "vm_range vm [] = []" "length (postfix (\<lambda>_. undefined) x) + 2 \<le> n"
  shows "\<exists>s. run_block vm n b (RunInit c vars h w) = Some (Inr ([v], None), s) \<and> rt_heap s = h \<and> rt_cost s = c - price x - 1"
proof -
  let ?cs = "postfix (\<lambda>_. undefined) x"
  let ?s = "(RunInit c vars h w)\<lparr>rt_blocks := [\<lparr>bs_Block = b, bs_Offset = 0\<rparr>]\<rparr>"
  let ?fr = "\<lparr>fr_block = b, fr_code = ?cs @ [bcode cmdReturn OpInt], fr_start = 0, fr_ci = 0, fr_labels = [], fr_assign = []\<rparr>"
  have "\<exists>k. n = Suc (length ?cs + Suc k)" using assms(7) by presburger
  then obtain k where n: "n = Suc (length ?cs + Suc k)" ..
  have "enter_block vm b (RunInit c vars h w) = Some (Inr ?fr, ?s)"
    using assms(2,6) by (simp add: enter_block_def condition_block_def new_block_def no_func_def bind_run_def seq_run_def lift_run_def get_block_def upd_run_def
        pop_names_def func_info_def ret_run_def stack_size_def get_run_def block_params_def RunInit_def)
  moreover have "code_loop vm (length ?cs + Suc k) ?fr ?s = code_loop vm (Suc k) (step_over (length ?cs) ?fr) (pushed [v] (price x) ?s)"
  proof (rule run_expr)
    show "value_of vm (\<lambda>_. undefined) ?s x = Some v" using assms(1,3) by (simp add: value_no_names)
    show "next_cmds ?fr ?cs" by (auto simp: next_cmds_def)
    show "solvent (price x) ?s" using assms(4,5) by (simp add: solvent_def RunInit_def memoryLimit_def)
  qed
  moreover have "code_loop vm (Suc k) (step_over (length ?cs) ?fr) (pushed [v] (price x) ?s) =
     Some (Inr (statusNormal, None), (RunInit (c - price x - 1) vars h w)\<lparr>rt_stack := [v]\<rparr>)"
  proof -
    have "next_cmd (step_over (length ?cs) ?fr) (bcode cmdReturn OpInt)" by (simp add: next_cmd_def step_over_def)
    moreover have "solvent 1 (pushed [v] (price x) ?s)" using assms(4,5) price_pos [of x] by (simp add: solvent_def RunInit_def memoryLimit_def)
    ultimately have "code_loop vm (Suc k) (step_over (length ?cs) ?fr) (pushed [v] (price x) ?s) =
        leave_block vm 0 statusReturn None (pushed [v] (price x + 1) ?s)"
      using pay_solvent [of 1 "pushed [v] (price x) ?s" 1] return_plain
      by (simp add: loop_body_def Let_def next_cmd_def bind_run_def seq_run_def get_run_def exec_return solvent_def paid_pushed step_over_def)
    also have "\<dots> = Some (Inr (statusNormal, None), (RunInit (c - price x - 1) vars h w)\<lparr>rt_stack := [v]\<rparr>)"
      using assms(2)
      by (simp add: leave_block_def bind_run_def seq_run_def get_run_def upd_run_def lift_run_def get_block_def condition_block_def
          func_info_def no_func_def new_block_def stack_size_def stack_at_def go_nth_def stack_put_def stack_cut_def ret_run_def
          RunInit_def pushed_def)
    finally show ?thesis .
  qed
  ultimately have "RunCode vm n b (RunInit c vars h w) = Some (Inr (statusNormal, None), (RunInit (c - price x - 1) vars h w)\<lparr>rt_stack := [v]\<rparr>)"
    by (simp add: n bind_run_def)
  then show ?thesis
    using assms(2) by (simp add: run_block_def Run_def recover_run_def bind_run_def lift_run_def get_block_def func_info_def
        condition_block_def no_func_def stack_size_def get_run_def ret_run_def stack_slice_def RunInit_def)
qed

definition not_cached :: "eval_env \<Rightarrow> string \<Rightarrow> evals \<Rightarrow> bool" where
  "not_cached ee input evals \<longleftrightarrow> (case evals (ee_crc ee input) of Some e \<Rightarrow> ec_Source e \<noteq> input | None \<Rightarrow> True)"

lemma run_condition_stored:
  assumes "names_of x = {}" "vm_range (ce_vm env) [] = []" "price x + 1 < ee_maxCost ee" "ee_maxCost ee < 2 ^ 62"
    and "length (postfix (\<lambda>_. undefined) x) + 2 \<le> n"
    and "value_of (with_store (condition_store state x st) (ce_vm env)) (\<lambda>_. undefined) (RunInit (ee_maxCost ee) vars h w) x = Some v"
  shows "run_condition env ee n (cs_next st) vars h w (condition_store state x st) =
    Some (bind_res (valueToBool (with_store (condition_store state x st) (ce_vm env)) h v) (\<lambda>b. Inr (b, None)))"
proof -
  let ?st = "condition_store state x st"
  let ?vm = "with_store ?st (ce_vm env)"
  have blk: "vm_blocks ?vm (Suc (cs_next st)) = Some (condition_block (cs_next st) x)"
    by (simp add: with_store_def condition_store_def)
  have "vm_range ?vm [] = []" using assms(2) by (simp add: with_store_def)
  then obtain s where "run_block ?vm n (Suc (cs_next st)) (RunInit (ee_maxCost ee) vars h w) = Some (Inr ([v], None), s)" "rt_heap s = h"
    using run_condition_block [OF assms(1) blk assms(6,3,4) _ assms(5)] by blast
  moreover have "cs_get ?st (cs_next st) = Inr (condition_root state (cs_next st))" by (simp add: cs_get_def condition_store_def)
  ultimately show ?thesis by (simp add: run_condition_def condition_root_def Let_def)
qed

section \<open>An example\<close>

text \<open>The condition \<open>$a>7\<close> with \<open>$a = 9\<close>.\<close>

definition sample_eval :: eval_env where
  "sample_eval = \<lparr>ee_float = (\<lambda>_. Inl []), ee_cap = 64, ee_behind = 0, ee_crc = (\<lambda>s. of_nat (length s)), ee_maxCost = 1000\<rparr>"

definition sample_env :: "unit cenv" where
  "sample_env = \<lparr>ce_vm = plain_vm (\<lambda>_. None) (\<lambda>_. None), ce_Extern = False, ce_fmt = (\<lambda>_. []), ce_keys = (\<lambda>x. x)\<rparr>"

definition sample_condition :: expr where
  "sample_condition = Bin BGreat (Ext ''a'') (Lit (LInt 7))"

definition sample_store :: cstore where
  "sample_store = \<lparr>cs_blocks = (\<lambda>_. None), cs_next = 0\<rparr>"

definition sample_runes :: "rune list" where
  "sample_runes = runes (eval_source ''$a>7'')"

lemma sample_runes: "sample_runes = rune_of (eval_source ''$a>7'')" "rune_of (eval_source ''$a>7'') =
   [102, 117, 110, 99, 32, 101, 118, 97, 108, 32, 98, 111, 111, 108, 32, 123, 32, 114, 101, 116, 117, 114, 110, 32, 36, 97, 62, 55, 125]"
  by code_simp+

lemma sample_todo:
  "list_all (\<lambda>r. todo 0 r = Inr (6, 0, 3)) [102, 101, 98, 114]"
  "list_all (\<lambda>r. todo 6 r = Inr (6, 0, 1)) [117, 110, 99, 118, 97, 108, 111, 101, 116, 114]"
  "list_all (\<lambda>r. todo 6 r = Inr (0, 4, 4)) [32, 62]"
  "list_all (\<lambda>r. todo 0 r = Inr (0, 1, 1)) [123, 125]"
  "todo 0 36 = Inr (9, 0, 3)" "todo 9 97 = Inr (6, 0, 1)" "todo 0 62 = Inr (8, 0, 3)" "todo 8 55 = Inr (0, 2, 4)"
  "todo 0 55 = Inr (3, 0, 3)" "todo 3 125 = Inr (0, 3, 4)" "todo 0 32 = Inr (0, 0, 1)"
  by code_simp+


lemma sample_keys:
  "map_of keyword_map ''func'' = Some keyFunc" "map_of keyword_map ''eval'' = None" "map_of typesMap ''eval'' = None"
  "map_of keyword_map ''bool'' = None" "map_of typesMap ''bool'' = Some TBool" "map_of keyword_map ''return'' = Some keyReturn"
  by code_simp+

lemma sample_int:
  "ParseInt ''7'' = (7, None)"
  using ParseInt_show_int [of 7] by (simp add: show_int_def show_nat.simps digit_char_def char_of_def bit_Suc_0_iff min_int64_def max_int64_def)

lemma sample_runes_text:
  "string_of_runes [102, 117, 110, 99] = ''func''" "string_of_runes [101, 118, 97, 108] = ''eval''" "string_of_runes [98, 111, 111, 108] = ''bool''"
  "string_of_runes [114, 101, 116, 117, 114, 110] = ''return''" "string_of_runes [36, 97] = ''$a''" "string_of_runes [62] = ''>''"
  "string_of_runes [55] = ''7''" 
  by (simp_all add: string_of_runes_def utf8_encode_def valid_rune_def char_of_def bit_Suc_0_iff)

lemma sample_oper: "be_nat (bytes_of_string ''>'') = 62" "length (bytes_of_string ''>'') = 1"
  by code_simp+

lemmas sample_parts = sample_keys sample_int sample_runes_text sample_oper

lemma sample_lex:
  "\<exists>lx. lexParser (ee_float sample_eval) (ee_cap sample_eval) (ee_behind sample_eval) (runes (eval_source ''$a>7'')) = Inr lx \<and>
     map lt lx = condition_toks sample_condition"
  unfolding sample_runes(1) [unfolded sample_runes_def] sample_runes(2)
  by (simp add: sample_eval_def sample_condition_def lexParser_def lex_loop.simps lex_step_def sample_todo [simplified] lex_emit_def Let_def lex_consts close_ifs_def lex_value_def
    lex_ident_def name_ident_def key_ident_def sub_runes_def lex_sys_def lex_oper_def lex_number_def sample_parts add_lexem_def rune_at_def lt_def condition_toks_def key_lexem_def lex_kinds lit_type_def oper_consts
    del: string_of_runes_simps)

lemma sample_value:
  "value_of (with_store st (ce_vm sample_env)) vi (RunInit c [''a'' \<mapsto> VInt64 9] h w) sample_condition = Some (VBool True)"
  by (simp add: sample_condition_def RunInit_def op_Great_def cmp_op_def cmp_bool_def widen_def val_of_lex_def)

text \<open>
  C5: Conditions from their text to their answer. Take a condition whose text the lexer splits into
  the lexemes of an expression over literals, extended variables and operators, and that is not in the
  cache. With enough gas, \<open>EvalIf\<close> compiles it and returns exactly the truth of the value that the
  expression has in the given variables, without error; the code is in the cache under the
  checksum of the text, and the store has grown by the two blocks of the condition.
\<close>

theorem EvalIf_condition:
  assumes "well_formed x" "names_of x = {}"
    and "lexParser (ee_float ee) (ee_cap ee) (ee_behind ee) (runes (eval_source input)) = Inr lx" "map lt lx = condition_toks x"
    and "input \<noteq> []" "not_cached ee input evals"
    and "vm_range (ce_vm env) [] = []" "price x + 1 < ee_maxCost ee" "ee_maxCost ee < 2 ^ 62"
    and "length (postfix (\<lambda>_. undefined) x) + 2 \<le> n"
    and "value_of (with_store (condition_store state x st) (ce_vm env)) (\<lambda>_. undefined) (RunInit (ee_maxCost ee) vars h w) x = Some v"
    and "valueToBool (with_store (condition_store state x st) (ce_vm env)) h v = Inr r"
  shows "EvalIf env ee n input state vars h w (evals, st) =
    Some (Inr (r, None), evals(ee_crc ee input \<mapsto> \<lparr>ec_Source = input, ec_Code = cs_next st\<rparr>), condition_store state x st)"
  using assms compile_condition [OF assms(1,2,4), of env state st] run_condition_stored [OF assms(2,7,8,9,10,11)]
  by (auto simp: EvalIf_def CompileEval_def CompileBlock_def Let_def not_cached_def split: option.splits)

lemma CompileEval_caches:
  assumes "CompileEval env ee input state es = Inr es'"
  shows "\<not> not_cached ee input (fst es')"
  using assms by (cases es) (auto simp: CompileEval_def not_cached_def bind_res_Inr_iff)

lemma EvalIf_cached:
  assumes "input \<noteq> []" "\<not> not_cached ee input (fst es)"
  shows "EvalIf env ee n input state vars h w es =
    map_option (\<lambda>r. (r, es)) (run_condition env ee n (ec_Code (the (fst es (ee_crc ee input)))) vars h w (snd es))"
  using assms by (auto simp: EvalIf_def not_cached_def Let_def split: option.splits)

lemma EvalIf_caches:
  assumes "EvalIf env ee n input state vars h w es = Some (Inr (b, None), es')" "input \<noteq> []"
  shows "\<not> not_cached ee input (fst es')"
proof (cases "not_cached ee input (fst es)")
  case True
  then obtain es2 where "CompileEval env ee input state es = Inr es2" "es' = es2"
    using assms by (auto simp: EvalIf_def Let_def not_cached_def split: option.splits sum.splits go_exc.splits)
  then show ?thesis using CompileEval_caches by blast
next
  case False
  then show ?thesis using assms by (auto simp: EvalIf_cached)
qed

theorem EvalIf_condition_witness:
  "EvalIf sample_env sample_eval 20 ''$a>7'' 1 [''a'' \<mapsto> VInt64 9] heap_empty () (Map.empty, sample_store) =
     Some (Inr (True, None), [4 \<mapsto> \<lparr>ec_Source = ''$a>7'', ec_Code = 0\<rparr>], condition_store 1 sample_condition sample_store)"
proof -
  obtain lx where lx: "lexParser (ee_float sample_eval) (ee_cap sample_eval) (ee_behind sample_eval) (runes (eval_source ''$a>7'')) = Inr lx"
    "map lt lx = condition_toks sample_condition"
    using sample_lex by blast
  have "well_formed sample_condition" "names_of sample_condition = {}" "price sample_condition = 13"
    "length (postfix (\<lambda>_. undefined) sample_condition) = 3"
    by (simp_all add: sample_condition_def)
  then show ?thesis
    using EvalIf_condition [of sample_condition sample_eval "''$a>7''" lx Map.empty sample_env 20 1 sample_store "[''a'' \<mapsto> VInt64 9]"
        heap_empty "()" "VBool True" True] lx
    by (simp add: sample_value not_cached_def valueToBool_def)
       (simp add: sample_eval_def sample_env_def plain_vm_def sample_store_def)
qed

text \<open>
  C40: the cache of conditions is keyed by the text alone. Once a condition has been answered in one
  ecosystem, \<open>EvalIf\<close> runs the code that was compiled for that ecosystem in all others: for any
  variables, its answer is the same whichever ecosystem it is asked for.
\<close>

theorem EvalIf_ignores_ecosystem:
  assumes "EvalIf env ee n input state vars h w es = Some (Inr (b, None), es')"
  shows "EvalIf env ee m input state' vars' h' w' es' = EvalIf env ee m input state vars' h' w' es'"
proof (cases "input = []")
  case True
  then show ?thesis by (simp add: EvalIf_def)
next
  case False
  then show ?thesis using EvalIf_caches [OF assms False] by (simp add: EvalIf_cached)
qed

theorem EvalIf_ignores_ecosystem_witness:
  "EvalIf sample_env sample_eval 30 ''$a>7'' 2 [''a'' \<mapsto> VInt64 3] heap_empty ()
      ([4 \<mapsto> \<lparr>ec_Source = ''$a>7'', ec_Code = 0\<rparr>], condition_store 1 sample_condition sample_store) =
   EvalIf sample_env sample_eval 30 ''$a>7'' 1 [''a'' \<mapsto> VInt64 3] heap_empty ()
      ([4 \<mapsto> \<lparr>ec_Source = ''$a>7'', ec_Code = 0\<rparr>], condition_store 1 sample_condition sample_store)"
proof (rule EvalIf_ignores_ecosystem)
  let ?es = "([4 \<mapsto> \<lparr>ec_Source = ''$a>7'', ec_Code = 0\<rparr>], condition_store 1 sample_condition sample_store)"
  have crc: "ee_crc sample_eval ''$a>7'' = 4" by (simp add: sample_eval_def)
  have "run_condition sample_env sample_eval 20 0 [''a'' \<mapsto> VInt64 9] heap_empty () (condition_store 1 sample_condition sample_store) =
      Some (Inr (True, None))"
    using run_condition_stored [of sample_condition sample_env sample_eval 20 1 sample_store "[''a'' \<mapsto> VInt64 9]" heap_empty "()" "VBool True"]
    by (simp add: sample_value valueToBool_def)
       (simp add: sample_eval_def sample_env_def plain_vm_def sample_store_def sample_condition_def)
  then show "EvalIf sample_env sample_eval 20 ''$a>7'' 1 [''a'' \<mapsto> VInt64 9] heap_empty () ?es = Some (Inr (True, None), ?es)"
    using crc by (simp add: EvalIf_cached not_cached_def)
qed

end
