(* ===== verification/Compile_Ends.thy ===== *)
theory Compile_Ends
  imports Compile_Safe Eval_If
begin

text \<open>
  The compiler of sources: the lexemes of \<open>lexParser\<close> meet what the compiler relies on, so \<open>CompileBlock\<close> ends on
  every text and its code is typed.
\<close>

section \<open>The lexemes of the lexer\<close>

definition lexem_ok :: "32 word \<Rightarrow> lexval \<Rightarrow> bool" where
  "lexem_ok t v \<longleftrightarrow> (t = lexOper \<longrightarrow> v \<notin> {LUint isLPar, LUint isRPar}) \<and> (t \<in> set error_keys \<longrightarrow> (\<exists>k. v = LUint k))"

abbreviation lexed :: "lexst \<Rightarrow> bool" where
  "lexed s \<equiv> lexems_ok (ls_lexems s)"

lemma lexems_ok_iff: "lexems_ok lx \<longleftrightarrow> list_all (\<lambda>l. lexem_ok (lx_Type l) (lx_Value l)) lx"
  by (auto simp: lexems_ok_def oper_lexems_def lexem_ok_def list_all_iff)

lemma lexed_add [simp]: "lexed (add_lexem t v p s) \<longleftrightarrow> lexed s \<and> lexem_ok t v"
  by (simp add: lexems_ok_iff add_lexem_def)

lemma lexem_ok_kinds [simp]:
  "lexem_ok lexIdent v" "lexem_ok lexNumber v" "lexem_ok lexType v" "lexem_ok lexExtend v" "lexem_ok lexString v" "lexem_ok lexNewLine v"
  "lexem_ok (key_lexem k) (LUint w)" "lexem_ok (key_lexem keyFunc) v"
  by (cases k; simp add: lexem_ok_def lex_consts error_keys_def key_lexem_def)+

lemma lexem_ok_brackets [simp]: "lexem_ok (lexSys OR 32000) v" "lexem_ok (lexSys OR 31488) v"
  by (simp_all add: lexem_ok_def lex_consts error_keys_def key_lexem_def)

lemma lexem_ok_sys [simp]: "lexem_ok (lexSys OR push_bit 8 ch) (LUint w)"
proof -
  have "(lexSys OR push_bit 8 ch) AND 0xff \<noteq> lexOper AND 0xff" by (simp add: sys_low lexOper_def)
  then show ?thesis by (auto simp: lexem_ok_def)
qed

lemma close_ifs_lexed:
  assumes "close_ifs input l p r s = Inr s'" "lexed s"
  shows "lexed s'"
proof -
  have "lexed ((add_lexem (lexSys OR push_bit 8 125) (LUint 125) p ^^ n) s)" for n
    using assms(2) by (induction n) simp_all
  then show ?thesis using assms
    by (auto simp: close_ifs_def res_simps Let_def split: list.splits if_splits)
qed

lemma action_ident_lexed: "action_ident p n s = Inr (s', t, v) \<Longrightarrow> lexed s \<Longrightarrow> lexed s' \<and> lexem_ok t v"
  by (auto simp: action_ident_def Let_def split: list.splits if_splits lexval.splits)

lemma lex_ident_lexed: "lex_ident input p r s = Inr (s', t, v) \<Longrightarrow> lexed s \<Longrightarrow> lexed s' \<and> lexem_ok t v"
proof -
  have "lexed s \<Longrightarrow> key_ident k p n s = Inr (s', t, v) \<Longrightarrow> lexed s' \<and> lexem_ok t v" for k n
    using action_ident_lexed by (cases k) (auto simp: key_ident_def split: list.splits)
  then show "lex_ident input p r s = Inr (s', t, v) \<Longrightarrow> lexed s \<Longrightarrow> lexed s' \<and> lexem_ok t v"
    by (auto simp: lex_ident_def name_ident_def res_simps split: if_splits option.splits)
qed

text \<open>The bytes of an operator are not those of a bracket with its mark: no operator has the rune 1.\<close>

lemma two_bytes:
  "a \<le> 127 \<Longrightarrow> of_nat (be_nat (bytes_of_string (string_of_runes [a]))) \<notin> {isLPar, isRPar}"
  "a \<le> 127 \<Longrightarrow> b \<le> 127 \<Longrightarrow> b \<noteq> 1 \<Longrightarrow> of_nat (be_nat (bytes_of_string (string_of_runes [a, b]))) \<notin> {isLPar, isRPar}"
proof -
  have a: "be_nat (bytes_of_string (string_of_runes [a])) = a" if "a \<le> 127"
    using that by (simp add: utf8_encode_ascii bytes_of_string_def be_nat_def byte_of_char_def unat_of_nat)
  have b: "be_nat (bytes_of_string (string_of_runes [a, b])) = b + 256 * a" if "a \<le> 127" "b \<le> 127"
    using that by (simp add: utf8_encode_ascii bytes_of_string_def be_nat_def byte_of_char_def unat_of_nat)
  have inj: "n < 2 ^ 32 \<Longrightarrow> n \<noteq> 0x2801 \<Longrightarrow> n \<noteq> 0x2901 \<Longrightarrow> (of_nat n :: 32 word) \<notin> {isLPar, isRPar}" for n
    by (auto simp: isLPar_def isRPar_def unat_of_nat dest!: arg_cong [where f = unat])
  show "a \<le> 127 \<Longrightarrow> of_nat (be_nat (bytes_of_string (string_of_runes [a]))) \<notin> {isLPar, isRPar}"
    using a by (intro inj) auto
  show "a \<le> 127 \<Longrightarrow> b \<le> 127 \<Longrightarrow> b \<noteq> 1 \<Longrightarrow> of_nat (be_nat (bytes_of_string (string_of_runes [a, b]))) \<notin> {isLPar, isRPar}"
    unfolding b by (intro inj) (simp, presburger, presburger)
qed

lemma lex_oper_lexed:
  assumes "lex_oper input p r s = Inr (s', t, v)" "lexed s" "p < r" "r \<le> length input" "r \<le> p + 2"
    "input ! p \<le> 127" "r = p + 1 \<or> input ! (p + 1) \<le> 127 \<and> input ! (p + 1) \<noteq> 1"
  shows "lexed s' \<and> lexem_ok t v"
proof -
  have "s' = s" "t = lexOper" "v = LUint (of_nat (be_nat (bytes_of_string (string_of_runes (take (r - p) (drop p input))))))"
    using assms(1,3,4) by (auto simp: lex_oper_def sub_runes_ok Let_def split: if_splits)
  then show ?thesis
    using assms(2-7) two_bytes(1) [of "input ! p"] two_bytes(2) [of "input ! p" "input ! (p + 1)"]
    by (auto simp: take_drop_two lexem_ok_def error_keys_def key_lexem_def lex_consts simp del: string_of_runes_simps)
qed

lemma two_rune_entries:
  "list_all (\<lambda>row. case entry (row ! letter_of 1) of (st, l, f) \<Rightarrow> st = 255 \<or> l \<noteq> lexOper \<or> f \<noteq> 5) lexTable"
  by code_simp

lemma two_rune_oper:
  assumes "todo st r = Inr (st', lexOper, 5)" "st' \<noteq> 255"
  shows "r \<noteq> 1"
proof
  assume r: "r = 1"
  have st: "unat st < 17" using todo_ok [OF assms(1)] by simp
  have "Script_Lexer.machine st (letter_of 1) = (st', lexOper, 5)" using assms(1) unfolding r todo_machine [OF st] by simp
  moreover have "lexTable ! unat st \<in> set lexTable" using st by (simp add: length_lexTable)
  ultimately show False
    using assms(2) two_rune_entries by (auto simp: Script_Lexer.machine_def list_all_iff split: prod.splits)
qed

lemma lex_value_lexed:
  assumes "lex_value pf input l p r s = Inr (s', t, v)" "lexed s" "l < 8"
    and "l = lexOper \<Longrightarrow> p < r \<and> r \<le> length input \<and> r \<le> p + 2 \<and> input ! p \<le> 127 \<and>
      (r = p + 1 \<or> input ! (p + 1) \<le> 127 \<and> input ! (p + 1) \<noteq> 1)"
  shows "lexed s' \<and> (t = lexComment \<or> lexem_ok t v)"
proof -
  have "lexem_ok l LNil" if "l \<noteq> lexOper"
    using that assms(3) by (auto simp: lexem_ok_def error_keys_def key_lexem_def lex_consts)
  moreover have "lex_text input l p r s = Inr (s', t, v) \<Longrightarrow> lexed s' \<and> t = l"
    using assms(2) by (auto simp: lex_text_def res_simps Let_def split: if_splits)
  moreover have "lex_number pf input p r s = Inr (s', t, v) \<Longrightarrow> lexed s' \<and> lexem_ok t v"
    using assms(2) by (auto simp: lex_number_def res_simps Let_def split: if_splits sum.splits prod.splits option.splits)
  moreover have "lex_sys input p s = Inr (s', t, v) \<Longrightarrow> lexed s' \<and> lexem_ok t v"
    using assms(2) by (auto simp: lex_sys_def res_simps Let_def)
  ultimately show ?thesis
    using assms(1,2,4) lex_oper_lexed [of input p r s s' t v] lex_ident_lexed [of input p r s s' t v] unfolding lex_value_def
    by (auto simp: res_simps split: if_splits)
qed

lemma lex_emit_parts:
  assumes "lex_emit pf input l f s = Inr s1" "l \<noteq> 0" "p = (if f AND lexfPop \<noteq> 0 then ls_start s else ls_off s)"
    "q = (if f AND lexfNext \<noteq> 0 then ls_off s + 1 else ls_off s)"
  obtains s2 s3 l' v where "close_ifs input l p q s = Inr s2" "lex_value pf input l p q s2 = Inr (s3, l', v)"
    "s1 = (if l' \<noteq> lexComment then add_lexem l' v p s3 else s3)"
  using assms(1,2) unfolding lex_emit_def Let_def assms(3) [symmetric] assms(4) [symmetric] by (auto simp: res_simps split del: if_split)

lemma lex_step_lexed:
  assumes "lex_inv input s" "ls_off s \<le> length input" "lexed s" "lex_step pf cap behind input s = Inr s'"
  shows "lexed s'"
proof -
  let ?o = "ls_off s"
  let ?r = "if ?o = length input then 32 else input ! ?o"
  obtain st l f where t: "todo (ls_state s) ?r = Inr (st, l, f)"
    using assms(4) by (auto simp: lex_step_def res_simps split: prod.splits)
  have st: "st \<noteq> 255" using assms(4) t by (auto simp: lex_step_def Let_def)
  note e = conjunct1 [OF todo_ok [OF t]]
  let ?p = "if f AND lexfPop \<noteq> 0 then ls_start s else ?o" and ?q = "if f AND lexfNext \<noteq> 0 then ?o + 1 else ?o"
  have last: "?o < length input" if "letter_of ?r \<noteq> 2"
    using that assms(2) letter_of_space by (cases "?o = length input") auto
  have l8: "l < 8" using e st by (auto simp: entry_ok_def main_entry_ok_def split: if_splits)
  have op: "?p < ?q \<and> ?q \<le> length input \<and> ?q \<le> ?p + 2 \<and> input ! ?p \<le> 127 \<and>
      (?q = ?p + 1 \<or> input ! (?p + 1) \<le> 127 \<and> input ! (?p + 1) \<noteq> 1)" if "l = lexOper"
    using that e st last letter_of_ascii [of "input ! ?o"] assms(1,2) two_rune_oper [of "ls_state s" ?r st] t
    by (auto simp: entry_ok_def main_entry_ok_def flag_bits lex_consts lex_inv_def split: if_splits)
  have "lexed s1" if em: "lex_emit pf input l f (s\<lparr>ls_state := st\<rparr>) = Inr s1" for s1
  proof (cases "l = 0")
    case False
    let ?s = "s\<lparr>ls_state := st\<rparr>"
    have pq: "?p = (if f AND lexfPop \<noteq> 0 then ls_start ?s else ls_off ?s)" "?q = (if f AND lexfNext \<noteq> 0 then ls_off ?s + 1 else ls_off ?s)"
      by simp_all
    obtain s2 s3 l' v where "close_ifs input l ?p ?q (s\<lparr>ls_state := st\<rparr>) = Inr s2" "lex_value pf input l ?p ?q s2 = Inr (s3, l', v)"
      "s1 = (if l' \<noteq> lexComment then add_lexem l' v ?p s3 else s3)"
      by (rule lex_emit_parts [OF em False pq])
    with lex_value_lexed [OF this(2) close_ifs_lexed [OF this(1)] l8 op] assms(3) show ?thesis by auto
  qed (use em assms(3) in \<open>auto simp: lex_emit_def\<close>)
  then show ?thesis
    using assms(3,4) t by (auto simp: lex_step_def res_simps Let_def split: if_splits)
qed

lemma lex_loop_lexed:
  assumes "lex_inv input s" "length input \<le> cap" "lexed s" "lex_loop pf cap behind input s = Inr s'"
  shows "lexed s'"
  using assms
proof (induction pf cap behind input s rule: lex_loop.induct)
  case (1 pf cap behind input s)
  show ?case
  proof (cases "ls_off s < length input + 1")
    case True
    then obtain s1 where s1: "lex_step pf cap behind input s = Inr s1" "lex_loop pf cap behind input s1 = Inr s'"
      using "1.prems"(4) by (subst (asm) lex_loop.simps) (auto simp: res_simps)
    then show ?thesis
      using "1.IH" [OF True s1(1)] "1.prems"(1-3) True lex_step_inv [of input s cap pf behind] lex_step_lexed [of input s pf cap behind s1]
      by simp
  qed (use "1.prems"(3,4) in \<open>subst (asm) lex_loop.simps, simp\<close>)
qed

lemma lexParser_lexems_ok:
  assumes "length input \<le> cap"
  shows "safe lexems_ok (lexParser pf cap behind input)"
proof -
  let ?s = "\<lparr>ls_state = 0, ls_off = 0, ls_line = 1, ls_offline = 0, ls_start = 0, ls_skip = False, ls_ifbuf = [], ls_lexems = []\<rparr>"
  have "lex_inv input ?s" "lexed ?s" by (simp_all add: lex_inv_def kw_ok_def main_not_oper lexems_ok_iff)
  with lex_loop_safe [OF this(1) assms, of pf behind] lex_loop_lexed [OF this(1) assms, of pf behind] show ?thesis
    unfolding lexParser_def safe_def by (auto simp: no_fuel_def split: sum.splits go_exc.splits)
qed

lemma CompileBlock_safe:
  assumes "length input \<le> cap" "typed_store st"
  shows "safe (\<lambda>(r, st'). typed_store st') (CompileBlock env pf cap behind input owner st)"
  unfolding CompileBlock_def
  by (rule safe_bind [OF lexParser_lexems_ok [OF assms(1)]]) (rule compile_lexems_safe [OF _ assms(2)])

text \<open>
  C8: the compiler ends on every source. The loop over the lexemes gets four passes per lexeme, and the loops of an
  expression and of the nested initializers of maps and arrays one per lexeme; whatever the text, these are enough.
\<close>

theorem compiler_terminates:
  assumes "length input \<le> cap" "typed_store st"
  shows "CompileBlock env pf cap behind input owner st \<noteq> Inl no_fuel"
  using CompileBlock_safe [OF assms, of env pf behind owner] by (auto simp: safe_def)

theorem compiler_terminates_witness:
  "length (runes (eval_source ''$a>7'')) \<le> 64 \<and> typed_store sample_store \<and>
   CompileBlock sample_env (\<lambda>_. Inl []) 64 0 (runes (eval_source ''$a>7'')) (state_owner 1) sample_store \<noteq> Inl no_fuel"
proof -
  have "length (runes (eval_source ''$a>7'')) \<le> 64" "typed_store sample_store"
    unfolding sample_runes(1) [unfolded sample_runes_def] sample_runes(2) by (simp_all add: typed_store_def sample_store_def)
  with compiler_terminates [OF this] show ?thesis by blast
qed

text \<open>
  C7: compiled code is well typed. Every command in every block the compiler returns is one the machine knows, and its
  operand has the type that the machine asserts for the command. No mark of an open bracket gets into the code.
\<close>

theorem compiled_code_typed:
  assumes "length input \<le> cap" "typed_store st" "CompileBlock env pf cap behind input owner st = Inr (r, st')"
    "cs_blocks st' b = Some blk" "c \<in> set (b_Code blk)"
  shows "typed (bc_Cmd c) (bc_Value c)"
  using CompileBlock_safe [OF assms(1,2), of env pf behind owner] assms(3-5)
  by (auto simp: typed_store_def typed_code_def list_all_iff)

theorem compiled_code_typed_witness:
  "CompileBlock sample_env (ee_float sample_eval) (ee_cap sample_eval) (ee_behind sample_eval) (runes (eval_source ''$a>7'')) (state_owner 1) sample_store =
     Inr (0, condition_store 1 sample_condition sample_store) \<and>
   cs_blocks (condition_store 1 sample_condition sample_store) 1 = Some (condition_block 0 sample_condition) \<and>
   bcode cmdReturn OpInt \<in> set (b_Code (condition_block 0 sample_condition)) \<and> typed cmdReturn OpInt"
proof -
  obtain lx where lx: "lexParser (ee_float sample_eval) (ee_cap sample_eval) (ee_behind sample_eval) (runes (eval_source ''$a>7'')) = Inr lx"
    "map lt lx = condition_toks sample_condition"
    using sample_lex by blast
  have "well_formed sample_condition" "names_of sample_condition = {}" by (simp_all add: sample_condition_def)
  from compile_condition [OF this lx(2), of sample_env 1 sample_store]
  have r: "CompileBlock sample_env (ee_float sample_eval) (ee_cap sample_eval) (ee_behind sample_eval) (runes (eval_source ''$a>7''))
      (state_owner 1) sample_store = Inr (0, condition_store 1 sample_condition sample_store)"
    unfolding CompileBlock_def lx(1) by (simp add: sample_store_def)
  have b: "cs_blocks (condition_store 1 sample_condition sample_store) 1 = Some (condition_block 0 sample_condition)"
    "bcode cmdReturn OpInt \<in> set (b_Code (condition_block 0 sample_condition))"
    by (simp_all add: condition_store_def sample_store_def condition_block_def)
  have i: "length (runes (eval_source ''$a>7'')) \<le> ee_cap sample_eval" "typed_store sample_store"
    unfolding sample_runes(1) [unfolded sample_runes_def] sample_runes(2) by (simp_all add: typed_store_def sample_store_def sample_eval_def)
  from compiled_code_typed [OF i r b] r b show ?thesis by simp
qed

end
