(* ===== verification/Template_Calc.thy ===== *)
theory Template_Calc
  imports Go_Num Converter_Text
begin

text \<open>
  The calculator of page templates, \<open>packages/template/calculate.go\<close>: the text of an expression is split into
  tokens (\<open>parsing\<close>), brought into postfix order (\<open>calculate\<close>) and evaluated on a stack (\<open>calcExp\<close>), with integers, floats
  or decimals. The reference is a grammar of sums and products with their usual values; the calculator agrees with it unless
  a subtracted product is followed by another term.
\<close>

section \<open>The model\<close>

datatype tkind = tkNumber | tkAdd | tkSub | tkMul | tkDiv | tkLPar | tkRPar

datatype exptype = expInt | expFloat | expMoney

datatype tval = TInt int64 | TFloat float64 | TMoney decimal | TPrior int

record token =
  tk_Type :: tkind
  tk_Value :: tval

definition errExp :: string where "errExp = ''wrong expression''"
definition errDiv :: string where "errDiv = ''dividing by zero''"
definition errPrecIsNegative :: string where "errPrecIsNegative = ''precision is negative''"

text \<open>The decimal digits of Unicode beyond Latin-1 (\<open>unicode.IsDigit\<close>) and \<open>strconv.Quote\<close> for the texts of errors.\<close>

record calc_env =
  ce_Nd :: "rune \<Rightarrow> bool"
  ce_Quote :: "string \<Rightarrow> string"

definition IsDigit :: "calc_env \<Rightarrow> rune \<Rightarrow> bool" where
  "IsDigit env ch = (if ch \<le> 255 then 48 \<le> ch \<and> ch \<le> 57 else ce_Nd env ch)"

definition num_error_text :: "calc_env \<Rightarrow> string \<Rightarrow> string \<Rightarrow> num_err \<Rightarrow> string" where
  "num_error_text env func s e =
     ''strconv.'' @ func @ '': parsing '' @ ce_Quote env s @ '': '' @
     (case e of ErrSyntax \<Rightarrow> ''invalid syntax'' | ErrRange \<Rightarrow> ''value out of range'')"

definition parse_number :: "calc_env \<Rightarrow> exptype \<Rightarrow> string \<Rightarrow> tval res" where
  "parse_number env itype s =
     (case itype of
        expInt \<Rightarrow> (case ParseInt s of (v, None) \<Rightarrow> Inr (TInt (i64 v)) | (_, Some e) \<Rightarrow> Inl (Error (num_error_text env ''ParseInt'' s e)))
      | expFloat \<Rightarrow> (case ParseFloat s of (v, None) \<Rightarrow> Inr (TFloat v) | (_, Some e) \<Rightarrow> Inl (Error (num_error_text env ''ParseFloat'' s e)))
      | expMoney \<Rightarrow> bind_res (dec_NewFromString s) (\<lambda>d. Inr (TMoney d)))"

definition is_oper :: "tkind \<Rightarrow> bool" where
  "is_oper k \<longleftrightarrow> k = tkAdd \<or> k = tkSub \<or> k = tkMul \<or> k = tkDiv"

definition prevNumber :: "token list \<Rightarrow> bool" where
  "prevNumber tokens \<longleftrightarrow> tokens \<noteq> [] \<and> tk_Type (last tokens) = tkNumber"

definition prevOper :: "token list \<Rightarrow> bool" where
  "prevOper tokens \<longleftrightarrow> tokens \<noteq> [] \<and> is_oper (tk_Type (last tokens))"

abbreviation tok :: "tkind \<Rightarrow> tval \<Rightarrow> token" where
  "tok k v \<equiv> \<lparr>tk_Type = k, tk_Value = v\<rparr>"

definition calc_ops :: "rune \<Rightarrow> (tkind \<times> int) option" where
  "calc_ops ch = map_of [(43, (tkAdd, 1)), (45, (tkSub, 1)), (42, (tkMul, 2)), (47, (tkDiv, 2))] ch"

text \<open>The characters behind a number: operators, brackets and white space.\<close>

definition parse_char :: "rune \<Rightarrow> token list \<Rightarrow> token list res" where
  "parse_char ch tokens =
     (case calc_ops ch of
        Some (i, pr) \<Rightarrow> if prevOper tokens then Inl (Error errExp) else Inr (tokens @ [tok i (TPrior pr)])
      | None \<Rightarrow>
          if ch = 40 then if prevNumber tokens then Inl (Error errExp) else Inr (tokens @ [tok tkLPar (TPrior 3)])
          else if ch = 41 then if prevOper tokens then Inl (Error errExp) else Inr (tokens @ [tok tkRPar (TPrior 3)])
          else if ch \<in> {32, 9, 10, 13} then Inr tokens
          else Inl (Error errExp))"

definition parse_step :: "calc_env \<Rightarrow> string \<Rightarrow> exptype \<Rightarrow> nat \<times> rune \<Rightarrow> token list \<times> nat \<Rightarrow> (token list \<times> nat) res" where
  "parse_step env input itype = (\<lambda>(off, ch) (tokens, numlen).
     if IsDigit env ch \<or> ch = 46 then Inr (tokens, numlen + 1)
     else bind_res
       (if numlen > 0 then
          bind_res (parse_number env itype (take numlen (drop (off - numlen) input))) (\<lambda>val.
            if prevNumber tokens then Inl (Error errExp) else Inr (tokens @ [tok tkNumber val]))
        else Inr tokens)
       (\<lambda>tokens. bind_res (parse_char ch tokens) (\<lambda>tokens. Inr (tokens, 0))))"

fun parse_loop :: "calc_env \<Rightarrow> string \<Rightarrow> exptype \<Rightarrow> (nat \<times> rune) list \<Rightarrow> token list \<times> nat \<Rightarrow> token list res" where
  "parse_loop env input itype [] s = Inr (fst s)"
| "parse_loop env input itype (c # cs) s = bind_res (parse_step env input itype c s) (parse_loop env input itype cs)"

definition parsing :: "calc_env \<Rightarrow> string \<Rightarrow> exptype \<Rightarrow> token list res" where
  "parsing env input itype = parse_loop env input itype (range_string 0 input) ([], 0)"

text \<open>
  \<open>calcExp\<close>. The stack has its top first; \<open>a\<close> is the element below the top \<open>b\<close>. A return with the text of an error is an
  \<open>Error\<close>.
\<close>

definition bad_assert :: go_exc where
  "bad_assert = Panic ''interface conversion''"

fun div_zero :: "exptype \<Rightarrow> tval \<Rightarrow> bool res" where
  "div_zero expInt (TInt b) = Inr (b = 0)"
| "div_zero expFloat (TFloat b) = Inr (f64_eq b f64_zero)"
| "div_zero expMoney (TMoney b) = Inr (dec_Cmp b dec_zero = 0)"
| "div_zero _ _ = Inl bad_assert"

fun int_func :: "tkind \<Rightarrow> int64 \<Rightarrow> int64 \<Rightarrow> int64 res" where
  "int_func tkAdd a b = Inr (a + b)"
| "int_func tkSub a b = Inr (a - b)"
| "int_func tkMul a b = Inr (a * b)"
| "int_func tkDiv a b = Inr (int64_div a b)"
| "int_func _ a b = Inl (Panic ''index out of range'')"

fun float_func :: "tkind \<Rightarrow> float64 \<Rightarrow> float64 \<Rightarrow> float64 res" where
  "float_func tkAdd a b = Inr (f64_add a b)"
| "float_func tkSub a b = Inr (f64_sub a b)"
| "float_func tkMul a b = Inr (f64_mul a b)"
| "float_func tkDiv a b = Inr (f64_div a b)"
| "float_func _ a b = Inl (Panic ''index out of range'')"

fun money_func :: "tkind \<Rightarrow> decimal \<Rightarrow> decimal \<Rightarrow> decimal res" where
  "money_func tkAdd a b = Inr (dec_Add a b)"
| "money_func tkSub a b = Inr (dec_Sub a b)"
| "money_func tkMul a b = dec_Mul a b"
| "money_func tkDiv a b = dec_Div a b"
| "money_func _ a b = Inl (Panic ''index out of range'')"

fun calc_func :: "tkind \<Rightarrow> exptype \<Rightarrow> tval \<Rightarrow> tval \<Rightarrow> tval res" where
  "calc_func k expInt (TInt a) (TInt b) = bind_res (int_func k a b) (\<lambda>x. Inr (TInt x))"
| "calc_func k expFloat (TFloat a) (TFloat b) = bind_res (float_func k a b) (\<lambda>x. Inr (TFloat x))"
| "calc_func k expMoney (TMoney a) (TMoney b) = bind_res (money_func k a b) (\<lambda>x. Inr (TMoney x))"
| "calc_func k _ _ _ = Inl bad_assert"

fun calc_item :: "exptype \<Rightarrow> token \<Rightarrow> tval list \<Rightarrow> tval list res" where
  "calc_item resType item stack =
     (if tk_Type item = tkNumber then Inr (tk_Value item # stack)
      else case stack of
        b # a # rest \<Rightarrow>
          bind_res (if tk_Type item = tkDiv
                    then bind_res (div_zero resType b) (\<lambda>z. if z then Inl (Error errDiv) else Inr ())
                    else Inr ()) (\<lambda>_.
          bind_res (calc_func (tk_Type item) resType a b) (\<lambda>x. Inr (x # rest)))
      | _ \<Rightarrow> Inl (Error errExp))"

fun calc_items :: "exptype \<Rightarrow> token list \<Rightarrow> tval list \<Rightarrow> tval list res" where
  "calc_items resType [] stack = Inr stack"
| "calc_items resType (t # ts) stack = bind_res (calc_item resType t stack) (calc_items resType ts)"

text \<open>\<open>Decimal.Round\<close> of the vendored package, and the verb \<open>%f\<close> of \<open>fmt\<close>: six digits, the nearest with ties to even.\<close>

definition dec_Round :: "decimal \<Rightarrow> int \<Rightarrow> decimal" where
  "dec_Round d places =
     (case dec_rescale d (wrap32 (wrap32 (- places) - 1)) of
        Dec v e \<Rightarrow>
          let v = (if v < 0 then v - 5 else v + 5); q = v div 10; m = v mod 10
          in Dec (if q < 0 \<and> m \<noteq> 0 then q + 1 else q) (wrap32 (e + 1)))"

definition sprintf_f :: "float64 \<Rightarrow> string" where
  "sprintf_f x =
     (case x of
        FNaN \<Rightarrow> ''NaN''
      | FInf neg \<Rightarrow> (if neg then ''-Inf'' else ''+Inf'')
      | FFin neg q \<Rightarrow>
          let n = nat (round_even (\<bar>q\<bar> * 1000000)); frac = show_nat (n mod 1000000)
          in (if neg then ''-'' else []) @ show_nat (n div 1000000) @ ''.'' @ replicate (6 - length frac) (CHR ''0'') @ frac)"

definition calc_result :: "exptype \<Rightarrow> string \<Rightarrow> tval \<Rightarrow> string res" where
  "calc_result resType prec v =
     (let precInt = fst (ParseInt prec) in
      if prec \<noteq> [] \<and> resType \<noteq> expInt \<and> precInt < 0 then Inr errPrecIsNegative
      else case (resType, v) of
        (expInt, TInt x) \<Rightarrow> Inr (show_int (sint x))
      | (expFloat, TFloat x) \<Rightarrow>
          if prec \<noteq> [] then bind_res (dec_NewFromFloat x) (\<lambda>d. Inr (dec_String (dec_Round d (wrap32 precInt))))
          else Inr (dec_String (case dec_NewFromString (sprintf_f x) of Inl _ \<Rightarrow> dec_zero | Inr d \<Rightarrow> d))
      | (expMoney, TMoney d) \<Rightarrow> Inr (dec_String (if prec \<noteq> [] then dec_Round d (wrap32 precInt) else d))
      | _ \<Rightarrow> Inl bad_assert)"

text \<open>An error that the code turns into its text.\<close>

definition error_text :: "string res \<Rightarrow> string res" where
  "error_text r = (case r of Inl (Error e) \<Rightarrow> Inr e | _ \<Rightarrow> r)"

definition calcExp :: "token list \<Rightarrow> exptype \<Rightarrow> string \<Rightarrow> string res" where
  "calcExp tokens resType prec =
     error_text (bind_res (calc_items resType tokens []) (\<lambda>stack.
       case stack of [v] \<Rightarrow> calc_result resType prec v | _ \<Rightarrow> Inl (Error errExp)))"

text \<open>The buffer of operators has its top first. \<open>>=\<close> compares the priorities, which are ints for every operator.\<close>

definition prior :: "token \<Rightarrow> int res" where
  "prior t = (case tk_Value t of TPrior p \<Rightarrow> Inr p | _ \<Rightarrow> Inl bad_assert)"

definition calc_push :: "token \<Rightarrow> token list \<times> token list \<Rightarrow> (token list \<times> token list) res" where
  "calc_push item = (\<lambda>(stack, buf).
     if tk_Type item = tkNumber then Inr (stack @ [item], buf)
     else if tk_Type item = tkLPar then Inr (stack, item # buf)
     else if tk_Type item = tkRPar then
       let ops = takeWhile (\<lambda>t. tk_Type t \<noteq> tkLPar) buf
       in if length ops = length buf then Inl (Error errExp) else Inr (stack @ ops, drop (length ops + 1) buf)
     else case buf of
       op # rest \<Rightarrow>
         if tk_Type op = tkLPar then Inr (stack, item # buf)
         else bind_res (prior op) (\<lambda>p. bind_res (prior item) (\<lambda>q.
           if p \<ge> q then Inr (stack @ [op], item # rest) else Inr (stack, item # buf)))
     | [] \<Rightarrow> Inr (stack, [item]))"

fun calc_loop :: "token list \<Rightarrow> token list \<times> token list \<Rightarrow> (token list \<times> token list) res" where
  "calc_loop [] s = Inr s"
| "calc_loop (t # ts) s = bind_res (calc_push t s) (calc_loop ts)"

definition calc_type :: "string \<Rightarrow> string \<Rightarrow> exptype" where
  "calc_type ex etype =
     (let etype = if etype = [] \<and> str_contains ex ''.'' then ''float'' else etype
      in if etype = ''float'' then expFloat else if etype = ''money'' then expMoney else expInt)"

definition calculate :: "calc_env \<Rightarrow> string \<Rightarrow> string \<Rightarrow> string \<Rightarrow> string res" where
  "calculate env ex etype prec =
     (let resType = calc_type ex etype in
      error_text (bind_res (parsing env (ex @ '' '') resType) (\<lambda>tk.
        bind_res (calc_loop tk ([], [])) (\<lambda>(stack, buf).
          if list_all (\<lambda>t. is_oper (tk_Type t)) buf then calcExp (stack @ buf) resType prec
          else Inl (Error errExp)))))"

section \<open>The reference: sums and products of integers\<close>

datatype addop = Plus | Minus

datatype mulop = Times | Over

datatype sum_exp = Single prod_exp | Sum sum_exp addop prod_exp
  and prod_exp = Atom atom | Prod prod_exp mulop atom
  and atom = Num nat | Par sum_exp

fun add_value :: "addop \<Rightarrow> int64 \<Rightarrow> int64 \<Rightarrow> int64" where
  "add_value Plus a b = a + b"
| "add_value Minus a b = a - b"

fun mul_value :: "mulop \<Rightarrow> int64 \<Rightarrow> int64 \<Rightarrow> int64 option" where
  "mul_value Times a b = Some (a * b)"
| "mul_value Over a b = (if b = 0 then None else Some (int64_div a b))"

text \<open>The value in the arithmetic of \<open>int64\<close>, from the left; \<open>None\<close> when a divisor is zero.\<close>

primrec sum_value :: "sum_exp \<Rightarrow> int64 option" and prod_value :: "prod_exp \<Rightarrow> int64 option" and atom_value :: "atom \<Rightarrow> int64 option" where
  "sum_value (Single p) = prod_value p"
| "sum_value (Sum s f p) = Option.bind (sum_value s) (\<lambda>a. Option.bind (prod_value p) (\<lambda>b. Some (add_value f a b)))"
| "prod_value (Atom a) = atom_value a"
| "prod_value (Prod p f a) = Option.bind (prod_value p) (\<lambda>x. Option.bind (atom_value a) (\<lambda>y. mul_value f x y))"
| "atom_value (Num n) = Some (of_nat n)"
| "atom_value (Par s) = sum_value s"

fun add_char :: "addop \<Rightarrow> char" where
  "add_char Plus = CHR ''+''"
| "add_char Minus = CHR ''-''"

fun mul_char :: "mulop \<Rightarrow> char" where
  "mul_char Times = CHR ''*''"
| "mul_char Over = CHR ''/''"

primrec show_sum :: "sum_exp \<Rightarrow> string" and show_prod :: "prod_exp \<Rightarrow> string" and show_atom :: "atom \<Rightarrow> string" where
  "show_sum (Single p) = show_prod p"
| "show_sum (Sum s f p) = show_sum s @ add_char f # show_prod p"
| "show_prod (Atom a) = show_atom a"
| "show_prod (Prod p f a) = show_prod p @ mul_char f # show_atom a"
| "show_atom (Num n) = show_nat n"
| "show_atom (Par s) = CHR ''('' # show_sum s @ '')''"

text \<open>What the calculator gets right: a subtracted product is the last term of its level.\<close>

fun compound :: "prod_exp \<Rightarrow> bool" where
  "compound (Atom a) = False"
| "compound (Prod p f a) = True"

fun ends_subtracted :: "sum_exp \<Rightarrow> bool" where
  "ends_subtracted (Single p) = False"
| "ends_subtracted (Sum s f p) \<longleftrightarrow> f = Minus \<and> compound p"

primrec sum_fine :: "sum_exp \<Rightarrow> bool" and prod_fine :: "prod_exp \<Rightarrow> bool" and atom_fine :: "atom \<Rightarrow> bool" where
  "sum_fine (Single p) = prod_fine p"
| "sum_fine (Sum s f p) \<longleftrightarrow> sum_fine s \<and> prod_fine p \<and> \<not> ends_subtracted s"
| "prod_fine (Atom a) = atom_fine a"
| "prod_fine (Prod p f a) \<longleftrightarrow> prod_fine p \<and> atom_fine a"
| "atom_fine (Num n) = True"
| "atom_fine (Par s) = sum_fine s"

text \<open>The numbers fit into \<open>int64\<close>.\<close>

primrec sum_fits :: "sum_exp \<Rightarrow> bool" and prod_fits :: "prod_exp \<Rightarrow> bool" and atom_fits :: "atom \<Rightarrow> bool" where
  "sum_fits (Single p) = prod_fits p"
| "sum_fits (Sum s f p) \<longleftrightarrow> sum_fits s \<and> prod_fits p"
| "prod_fits (Atom a) = atom_fits a"
| "prod_fits (Prod p f a) \<longleftrightarrow> prod_fits p \<and> atom_fits a"
| "atom_fits (Num n) \<longleftrightarrow> n < 2 ^ 63"
| "atom_fits (Par s) = sum_fits s"

section \<open>Tokens and postfix code\<close>

fun add_tok :: "addop \<Rightarrow> token" where
  "add_tok Plus = tok tkAdd (TPrior 1)"
| "add_tok Minus = tok tkSub (TPrior 1)"

fun mul_tok :: "mulop \<Rightarrow> token" where
  "mul_tok Times = tok tkMul (TPrior 2)"
| "mul_tok Over = tok tkDiv (TPrior 2)"

primrec sum_toks :: "sum_exp \<Rightarrow> token list" and prod_toks :: "prod_exp \<Rightarrow> token list" and atom_toks :: "atom \<Rightarrow> token list" where
  "sum_toks (Single p) = prod_toks p"
| "sum_toks (Sum s f p) = sum_toks s @ add_tok f # prod_toks p"
| "prod_toks (Atom a) = atom_toks a"
| "prod_toks (Prod p f a) = prod_toks p @ mul_tok f # atom_toks a"
| "atom_toks (Num n) = [tok tkNumber (TInt (of_nat n))]"
| "atom_toks (Par s) = tok tkLPar (TPrior 3) # sum_toks s @ [tok tkRPar (TPrior 3)]"

text \<open>
  The output for a sum, and the operators that are still in the buffer behind it: the one of its last product, and those of
  the sum. An operator of a sum takes only one operator from the buffer.
\<close>

fun prod_rest :: "prod_exp \<Rightarrow> token list" where
  "prod_rest (Atom a) = []"
| "prod_rest (Prod p f a) = [mul_tok f]"

fun last_rest :: "sum_exp \<Rightarrow> token list" where
  "last_rest (Single p) = prod_rest p"
| "last_rest (Sum s f p) = prod_rest p"

fun sum_rest :: "sum_exp \<Rightarrow> addop list" where
  "sum_rest (Single p) = []"
| "sum_rest (Sum s f p) = f # (if last_rest s = [] then drop 1 (sum_rest s) else sum_rest s)"

primrec sum_code :: "sum_exp \<Rightarrow> token list" and prod_code :: "prod_exp \<Rightarrow> token list" and atom_code :: "atom \<Rightarrow> token list" where
  "sum_code (Single p) = prod_code p"
| "sum_code (Sum s f p) =
     sum_code s @ last_rest s @ (if last_rest s = [] then map add_tok (take 1 (sum_rest s)) else []) @ prod_code p"
| "prod_code (Atom a) = atom_code a"
| "prod_code (Prod p f a) = prod_code p @ prod_rest p @ atom_code a"
| "atom_code (Num n) = [tok tkNumber (TInt (of_nat n))]"
| "atom_code (Par s) = sum_code s @ last_rest s @ map add_tok (sum_rest s)"

lemma tok_kinds [simp]:
  "tk_Type (add_tok f) \<noteq> tkNumber" "tk_Type (add_tok f) \<noteq> tkLPar" "tk_Type (add_tok f) \<noteq> tkRPar" "is_oper (tk_Type (add_tok f))"
  "tk_Type (mul_tok m) \<noteq> tkNumber" "tk_Type (mul_tok m) \<noteq> tkLPar" "tk_Type (mul_tok m) \<noteq> tkRPar" "is_oper (tk_Type (mul_tok m))"
  "prior (add_tok f) = Inr 1" "prior (mul_tok m) = Inr 2" "tk_Type (add_tok f) \<noteq> tkDiv"
  by (cases f; cases m; simp add: is_oper_def prior_def)+

definition opens :: "token list \<Rightarrow> bool" where
  "opens buf \<longleftrightarrow> buf = [] \<or> tk_Type (hd buf) = tkLPar"

definition no_product :: "token list \<Rightarrow> bool" where
  "no_product buf \<longleftrightarrow> opens buf \<or> (\<exists>f. hd buf = add_tok f)"

lemma push_mul: "no_product buf \<Longrightarrow> calc_push (mul_tok m) (out, buf) = Inr (out, mul_tok m # buf)"
  by (cases buf) (auto simp: calc_push_def no_product_def opens_def)

lemma push_mul_mul: "calc_push (mul_tok m) (out, mul_tok k # buf) = Inr (out @ [mul_tok k], mul_tok m # buf)"
  by (simp add: calc_push_def)

lemma push_add:
  "opens buf \<Longrightarrow> calc_push (add_tok f) (out, buf) = Inr (out, add_tok f # buf)"
  "calc_push (add_tok f) (out, mul_tok k # buf) = Inr (out @ [mul_tok k], add_tok f # buf)"
  "calc_push (add_tok f) (out, add_tok g # buf) = Inr (out @ [add_tok g], add_tok f # buf)"
  by (cases buf; auto simp: calc_push_def opens_def)+

lemma prod_rest_cases: "prod_rest p = [] \<or> (\<exists>m. prod_rest p = [mul_tok m])"
  by (cases p) auto

lemma last_rest_cases: "last_rest s = [] \<or> (\<exists>m. last_rest s = [mul_tok m])"
  using prod_rest_cases by (cases s) auto

lemma push_Sum:
  assumes "opens buf"
  shows "calc_push (add_tok f) (out @ sum_code s, last_rest s @ map add_tok (sum_rest s) @ buf) =
    Inr (out @ sum_code s @ last_rest s @ (if last_rest s = [] then map add_tok (take 1 (sum_rest s)) else []),
      map add_tok (sum_rest (Sum s f p)) @ buf)"
  using last_rest_cases [of s] assms by (cases "sum_rest s") (auto simp: push_add)

lemma brackets: "takeWhile (\<lambda>t. tk_Type t \<noteq> tkLPar) (last_rest s @ map add_tok r @ tok tkLPar v # buf) = last_rest s @ map add_tok r"
proof -
  have "takeWhile (\<lambda>t. tk_Type t \<noteq> tkLPar) (xs @ tok tkLPar v # buf) = xs" if "\<forall>x \<in> set xs. tk_Type x \<noteq> tkLPar" for xs
    using that by (induction xs) auto
  from this [of "last_rest s @ map add_tok r"] show ?thesis
    using last_rest_cases [of s] by auto
qed

lemma loop_code:
  "opens buf \<Longrightarrow> calc_loop (sum_toks s @ ts) (out, buf) = calc_loop ts (out @ sum_code s, last_rest s @ map add_tok (sum_rest s) @ buf)"
  "no_product buf \<Longrightarrow> calc_loop (prod_toks p @ ts) (out, buf) = calc_loop ts (out @ prod_code p, prod_rest p @ buf)"
  "calc_loop (atom_toks a @ ts) (out, buf) = calc_loop ts (out @ atom_code a, buf)"
proof (induction s and p and a arbitrary: buf out ts and buf out ts and buf out ts)
  case (Single p)
  then show ?case by (simp add: no_product_def)
next
  case (Sum s f p)
  have "no_product (add_tok f # b)" for b by (auto simp: no_product_def)
  with Sum show ?case using push_Sum [OF Sum.prems, of f out s p] by simp
next
  case (Prod p f a)
  then show ?case using prod_rest_cases [of p] by (auto simp: push_mul push_mul_mul)
next
  case (Num n)
  then show ?case by (simp add: calc_push_def)
next
  case (Par s)
  have "opens (tok tkLPar (TPrior 3) # buf)" by (simp add: opens_def)
  then show ?case using Par [of "tok tkLPar (TPrior 3) # buf"]
    by (simp add: calc_push_def [of "tok tkLPar v" for v] calc_push_def [of "tok tkRPar v" for v] brackets Let_def)
qed simp_all

section \<open>The code evaluates to the value\<close>

definition computes :: "token list \<Rightarrow> int64 option \<Rightarrow> bool" where
  "computes cs v \<longleftrightarrow> (\<forall>ts st. calc_items expInt (cs @ ts) st =
     (case v of None \<Rightarrow> Inl (Error errDiv) | Some x \<Rightarrow> calc_items expInt ts (TInt x # st)))"

lemma item_add [simp]: "calc_item expInt (add_tok f) (TInt b # TInt a # st) = Inr (TInt (add_value f a b) # st)"
  by (cases f) simp_all

lemma item_mul [simp]:
  "calc_item expInt (mul_tok f) (TInt b # TInt a # st) =
     (case mul_value f a b of None \<Rightarrow> Inl (Error errDiv) | Some x \<Rightarrow> Inr (TInt x # st))"
  by (cases f) simp_all

declare calc_item.simps [simp del]

text \<open>The operators of a sum that are still to be applied to the operands \<open>ys\<close> below the top \<open>x\<close>.\<close>

fun collapse :: "addop list \<Rightarrow> int64 list \<Rightarrow> int64 \<Rightarrow> int64" where
  "collapse (f # fs) (y # ys) x = collapse fs ys (add_value f y x)"
| "collapse _ _ x = x"

lemma collapse_code:
  "length ys = length fs \<Longrightarrow>
   calc_items expInt (map add_tok fs @ ts) (TInt x # map TInt ys @ st) = calc_items expInt ts (TInt (collapse fs ys x) # st)"
  by (induction fs ys x rule: collapse.induct) simp_all

lemma collapse_assoc:
  "length ys = length fs \<Longrightarrow> set fs \<subseteq> {Plus} \<Longrightarrow> collapse fs ys (add_value f x t) = add_value f (collapse fs ys x) t"
proof (induction fs ys x rule: collapse.induct)
  case (1 g fs y ys x)
  then have "add_value Plus y (add_value f x t) = add_value f (add_value Plus y x) t" by (cases f) (simp_all add: algebra_simps)
  with 1 show ?case by simp
qed simp_all

definition sum_computes :: "sum_exp \<Rightarrow> bool" where
  "sum_computes s \<longleftrightarrow>
     (case sum_value s of
        None \<Rightarrow> computes (sum_code s @ last_rest s) None
      | Some v \<Rightarrow> \<exists>x ys. length ys = length (sum_rest s) \<and> collapse (sum_rest s) ys x = v \<and> set (tl (sum_rest s)) \<subseteq> {Plus} \<and>
          (\<forall>ts st. calc_items expInt (sum_code s @ last_rest s @ ts) st = calc_items expInt ts (TInt x # map TInt ys @ st)))"

lemma compound_rest: "compound p \<longleftrightarrow> prod_rest p \<noteq> []"
  by (cases p) simp_all

lemma sum_computes_Sum:
  assumes "sum_computes s" "computes (prod_code p @ prod_rest p) (prod_value p)" "\<not> ends_subtracted s"
  shows "sum_computes (Sum s f p)"
proof (cases "sum_value s")
  case None
  then show ?thesis using assms(1) by (simp add: sum_computes_def computes_def)
next
  case (Some v)
  then obtain x ys where s: "length ys = length (sum_rest s)" "collapse (sum_rest s) ys x = v" "set (tl (sum_rest s)) \<subseteq> {Plus}"
    "\<And>ts st. calc_items expInt (sum_code s @ last_rest s @ ts) st = calc_items expInt ts (TInt x # map TInt ys @ st)"
    using assms(1) by (auto simp: sum_computes_def)
  obtain x' ys' where x': "length ys' = length (tl (sum_rest (Sum s f p)))" "set (tl (sum_rest (Sum s f p))) \<subseteq> {Plus}"
    "collapse (tl (sum_rest (Sum s f p))) ys' x' = v"
    "\<And>ts st. calc_items expInt (sum_code s @ last_rest s @ (if last_rest s = [] then map add_tok (take 1 (sum_rest s)) else []) @ ts) st =
      calc_items expInt ts (TInt x' # map TInt ys' @ st)"
  proof (cases "last_rest s = [] \<and> sum_rest s \<noteq> []")
    case True
    then obtain g r y zs where g: "sum_rest s = g # r" "ys = y # zs" using s(1) by (cases "sum_rest s"; cases ys) auto
    then show ?thesis using that [of zs "add_value g y x"] True s by simp
  next
    case False
    then have "set (sum_rest s) \<subseteq> {Plus}" if "last_rest s \<noteq> []"
      using that s(3) assms(3) by (cases s rule: last_rest.cases) (auto simp: compound_rest intro: addop.exhaust split: if_splits)
    then show ?thesis using that [of ys x] False s by (auto split: if_splits)
  qed
  show ?thesis
  proof (cases "prod_value p")
    case None
    then show ?thesis using Some assms(2) x'(4) by (simp add: sum_computes_def computes_def)
  next
    case p: (Some t)
    have "calc_items expInt (sum_code (Sum s f p) @ last_rest (Sum s f p) @ ts) st = calc_items expInt ts (TInt t # map TInt (x' # ys') @ st)" for ts st
      using assms(2) p x'(4) by (simp add: computes_def)
    moreover have "collapse (sum_rest (Sum s f p)) (x' # ys') t = add_value f v t"
      using collapse_assoc [OF x'(1,2), of f x' t] x'(3) by simp
    ultimately show ?thesis
      using Some p x'(1,2) unfolding sum_computes_def by (auto intro!: exI [of _ t] exI [of _ "x' # ys'"])
  qed
qed

lemma sum_computes_code: "sum_computes s \<Longrightarrow> computes (sum_code s @ last_rest s @ map add_tok (sum_rest s)) (sum_value s)"
  by (cases "sum_value s") (auto simp: sum_computes_def computes_def collapse_code)

lemma code_computes:
  "sum_fine s \<Longrightarrow> sum_computes s"
  "prod_fine p \<Longrightarrow> computes (prod_code p @ prod_rest p) (prod_value p)"
  "atom_fine a \<Longrightarrow> computes (atom_code a) (atom_value a)"
proof (induction s and p and a)
  case (Single p)
  then show ?case by (cases "prod_value p") (auto simp: sum_computes_def computes_def)
next
  case (Sum s f p)
  then show ?case by (auto intro: sum_computes_Sum)
next
  case (Prod p f a)
  then show ?case by (cases "prod_value p"; cases "atom_value a") (auto simp: computes_def split: option.splits)
next
  case (Num n)
  then show ?case by (simp add: computes_def calc_item.simps)
next
  case (Par s)
  then show ?case using sum_computes_code by simp
qed simp_all

section \<open>Parsing a printed expression\<close>

definition plain :: "char \<Rightarrow> bool" where
  "plain c \<longleftrightarrow> of_char c < (128 :: nat) \<and> \<not> is_digit c \<and> of_char c \<noteq> (46 :: nat)"

lemma range_ascii: "of_char c < (128 :: nat) \<Longrightarrow> range_string off (c # s) = (off, of_char c) # range_string (off + 1) s"
  by (simp add: range_string.simps [of off "c # s"])

lemma step_digit: "is_digit c \<Longrightarrow> parse_step env input itype (off, of_char c) (tokens, n) = Inr (tokens, n + 1)"
  by (simp add: parse_step_def IsDigit_def is_digit_def)

lemma digit_ascii: "is_digit c \<Longrightarrow> of_char c < (128 :: nat)"
  by (simp add: is_digit_def)

lemma step_plain:
  "plain c \<Longrightarrow> parse_step env input itype (off, of_char c) (tokens, 0) = bind_res (parse_char (of_char c) tokens) (\<lambda>t. Inr (t, 0))"
  by (auto simp: parse_step_def plain_def IsDigit_def is_digit_def char_of_eq_iff)

lemma parse_digits:
  "list_all is_digit ds \<Longrightarrow>
   parse_loop env input itype (range_string off (ds @ r)) (tokens, n) = parse_loop env input itype (range_string (off + length ds) r) (tokens, n + length ds)"
  by (induction ds arbitrary: off n) (simp_all add: range_ascii digit_ascii step_digit)

text \<open>
  A part of an expression is parsed when it ends before the character \<open>c\<close>, with which a number is completed.
\<close>

definition parses :: "string \<Rightarrow> token list \<Rightarrow> bool" where
  "parses txt toks \<longleftrightarrow> (\<forall>env pre c r tokens. plain c \<longrightarrow> \<not> prevNumber tokens \<longrightarrow>
     parse_loop env (pre @ txt @ c # r) expInt (range_string (length pre) (txt @ c # r)) (tokens, 0) =
     bind_res (parse_char (of_char c) (tokens @ toks)) (\<lambda>t. parse_loop env (pre @ txt @ c # r) expInt (range_string (length pre + length txt + 1) r) (t, 0)))"

lemma parses_num:
  assumes "n < 2 ^ 63"
  shows "parses (show_nat n) [tok tkNumber (TInt (of_nat n))]"
proof -
  have "show_int (int n) = show_nat n" by (simp add: show_int_def)
  then have num: "ParseInt (show_nat n) = (int n, None)"
    using ParseInt_show_int [of "int n"] assms by (simp add: min_int64_def max_int64_def)
  have "parse_step env (pre @ show_nat n @ c # r) expInt (length pre + length (show_nat n), of_char c) (tokens, length (show_nat n)) =
      bind_res (parse_char (of_char c) (tokens @ [tok tkNumber (TInt (of_nat n))])) (\<lambda>t. Inr (t, 0))"
    if "plain c" "\<not> prevNumber tokens" for env pre c r tokens
    using that num by (auto simp: parse_step_def plain_def IsDigit_def is_digit_def char_of_eq_iff parse_number_def)
  then show ?thesis
    unfolding parses_def using show_nat_digits [of n]
    by (auto simp: parse_digits range_ascii plain_def bind_res_assoc)
qed

lemma parses_oper:
  assumes "parses t1 ts1" "parses t2 ts2" "plain c" "\<And>tokens. parse_char (of_char c) (tokens @ ts1) = Inr (tokens @ ts1 @ [op])"
    "tk_Type op \<noteq> tkNumber"
  shows "parses (t1 @ c # t2) (ts1 @ op # ts2)"
  unfolding parses_def
proof (intro allI impI)
  fix env :: calc_env and pre c' r tokens
  assume c': "plain c'" "\<not> prevNumber tokens"
  let ?in = "pre @ (t1 @ c # t2) @ c' # r"
  have i: "?in = pre @ t1 @ c # (t2 @ c' # r)" "?in = (pre @ t1 @ [c]) @ t2 @ c' # r" by simp_all
  have n: "\<not> prevNumber (tokens @ ts1 @ [op])" using assms(5) by (simp add: prevNumber_def)
  have "parse_loop env ?in expInt (range_string (length pre) ((t1 @ c # t2) @ c' # r)) (tokens, 0) =
      parse_loop env ?in expInt (range_string (length (pre @ t1 @ [c])) (t2 @ c' # r)) (tokens @ ts1 @ [op], 0)"
    using assms(1) [unfolded parses_def, rule_format, OF assms(3) c'(2), of env pre "t2 @ c' # r"] assms(4) by simp
  also have "\<dots> = bind_res (parse_char (of_char c') (tokens @ ts1 @ op # ts2))
      (\<lambda>t. parse_loop env ?in expInt (range_string (length pre + length (t1 @ c # t2) + 1) r) (t, 0))"
    using assms(2) [unfolded parses_def, rule_format, OF c'(1) n, of env "pre @ t1 @ [c]" r] by (simp add: add.assoc)
  finally show "parse_loop env ?in expInt (range_string (length pre) ((t1 @ c # t2) @ c' # r)) (tokens, 0) =
      bind_res (parse_char (of_char c') (tokens @ ts1 @ op # ts2))
      (\<lambda>t. parse_loop env ?in expInt (range_string (length pre + length (t1 @ c # t2) + 1) r) (t, 0))" .
qed

lemma parses_brackets:
  assumes "parses t ts" "\<And>tokens. \<not> prevOper (tokens @ ts)"
  shows "parses (CHR ''('' # t @ '')'') (tok tkLPar (TPrior 3) # ts @ [tok tkRPar (TPrior 3)])"
  unfolding parses_def
proof (intro allI impI)
  fix env :: calc_env and pre c r tokens
  assume c: "plain c" "\<not> prevNumber tokens"
  let ?in = "pre @ (CHR ''('' # t @ '')'') @ c # r"
  have b: "plain (CHR ''('')" "plain (CHR '')'')" by (simp_all add: plain_def is_digit_def)
  have n: "\<not> prevNumber (tokens @ [tok tkLPar (TPrior 3)])" by (simp add: prevNumber_def)
  have l: "parse_char 40 tokens = Inr (tokens @ [tok tkLPar (TPrior 3)])" using c(2) by (simp add: parse_char_def calc_ops_def)
  have r: "parse_char 41 (tokens @ tok tkLPar (TPrior 3) # ts) = Inr (tokens @ tok tkLPar (TPrior 3) # ts @ [tok tkRPar (TPrior 3)])"
    using assms(2) [of "tokens @ [tok tkLPar (TPrior 3)]"] by (simp add: parse_char_def calc_ops_def)
  have "parse_loop env ?in expInt (range_string (length pre) ((CHR ''('' # t @ '')'') @ c # r)) (tokens, 0) =
      parse_loop env ?in expInt (range_string (length (pre @ ''('')) (t @ CHR '')'' # c # r)) (tokens @ [tok tkLPar (TPrior 3)], 0)"
    using l step_plain [OF b(1), of env ?in expInt "length pre" tokens] by (simp add: range_ascii)
  also have "\<dots> = parse_loop env ?in expInt (range_string (length pre + length t + 2) (c # r)) (tokens @ tok tkLPar (TPrior 3) # ts @ [tok tkRPar (TPrior 3)], 0)"
    using assms(1) [unfolded parses_def, rule_format, OF b(2) n, of env "pre @ ''(''" "c # r"] r by simp
  also have "\<dots> = bind_res (parse_char (of_char c) (tokens @ tok tkLPar (TPrior 3) # ts @ [tok tkRPar (TPrior 3)]))
      (\<lambda>tk. parse_loop env ?in expInt (range_string (length pre + length (CHR ''('' # t @ '')'') + 1) r) (tk, 0))"
    using c(1) step_plain [OF c(1), of env ?in expInt] by (cases "parse_char (of_char c) (tokens @ tok tkLPar (TPrior 3) # ts @ [tok tkRPar (TPrior 3)])") (simp_all add: range_ascii plain_def)
  finally show "parse_loop env ?in expInt (range_string (length pre) ((CHR ''('' # t @ '')'') @ c # r)) (tokens, 0) =
      bind_res (parse_char (of_char c) (tokens @ tok tkLPar (TPrior 3) # ts @ [tok tkRPar (TPrior 3)]))
      (\<lambda>tk. parse_loop env ?in expInt (range_string (length pre + length (CHR ''('' # t @ '')'') + 1) r) (tk, 0))" .
qed

lemma not_prevOper:
  "\<not> prevOper (tokens @ sum_toks s)" "\<not> prevOper (tokens @ prod_toks p)" "\<not> prevOper (tokens @ atom_toks a)"
proof (induction s and p and a arbitrary: tokens and tokens and tokens)
  case (Sum s f p)
  then show ?case using Sum.IH(2) [of "tokens @ sum_toks s @ [add_tok f]"] by simp
next
  case (Prod p f a)
  then show ?case using Prod.IH(2) [of "tokens @ prod_toks p @ [mul_tok f]"] by simp
qed (simp_all add: prevOper_def is_oper_def)

lemma parse_opers:
  "\<not> prevOper tokens \<Longrightarrow> parse_char (of_char (add_char f)) tokens = Inr (tokens @ [add_tok f])"
  "\<not> prevOper tokens \<Longrightarrow> parse_char (of_char (mul_char m)) tokens = Inr (tokens @ [mul_tok m])"
  "plain (add_char f)" "plain (mul_char m)"
  by (cases f; cases m; simp add: parse_char_def calc_ops_def plain_def is_digit_def)+

lemma parses_exp:
  "sum_fits s \<Longrightarrow> parses (show_sum s) (sum_toks s)"
  "prod_fits p \<Longrightarrow> parses (show_prod p) (prod_toks p)"
  "atom_fits a \<Longrightarrow> parses (show_atom a) (atom_toks a)"
proof (induction s and p and a)
  case (Sum s f p)
  then show ?case using not_prevOper(1) by (auto intro!: parses_oper simp: parse_opers)
next
  case (Prod p f a)
  then show ?case using not_prevOper(2) by (auto intro!: parses_oper simp: parse_opers)
next
  case (Par s)
  then show ?case using parses_brackets not_prevOper(1) by simp
qed (simp_all add: parses_num)

lemma parsing_printed:
  assumes "sum_fits s"
  shows "parsing env (show_sum s @ '' '') expInt = Inr (sum_toks s)"
proof -
  have "plain (CHR '' '')" "\<not> prevNumber []" by (simp_all add: plain_def is_digit_def prevNumber_def)
  from parses_exp(1) [OF assms, unfolded parses_def, rule_format, OF this, of env "[]" "[]"]
  show ?thesis by (simp add: parsing_def parse_char_def calc_ops_def range_string.simps [of _ "[]"])
qed

lemma no_dot: "CHR ''.'' \<notin> set (show_sum s)" "CHR ''.'' \<notin> set (show_prod p)" "CHR ''.'' \<notin> set (show_atom a)"
proof (induction s and p and a)
  case (Sum s f p)
  then show ?case by (cases f) auto
next
  case (Prod p f a)
  then show ?case by (cases f) auto
next
  case (Num n)
  then show ?case using show_nat_digits [of n] by (auto simp: list_all_iff is_digit_def)
qed auto

lemma contains_char: "str_contains s [c] \<longleftrightarrow> c \<in> set s"
  unfolding str_contains_def by (induction s) (auto simp: has_prefix_def)

lemma calc_type_int:
  assumes "etype \<notin> {''float'', ''money''}"
  shows "calc_type (show_sum s) etype = expInt"
  using assms no_dot(1) [of s] contains_char [of "show_sum s" "CHR ''.''"] by (auto simp: calc_type_def Let_def)

text \<open>The calculator runs the postfix code of every expression.\<close>

lemma calculate_code:
  assumes "sum_fits s" "etype \<notin> {''float'', ''money''}"
  shows "calculate env (show_sum s) etype prec =
    error_text (calcExp (sum_code s @ last_rest s @ map add_tok (sum_rest s)) expInt prec)"
proof -
  have "calc_loop (sum_toks s) ([], []) = Inr (sum_code s, last_rest s @ map add_tok (sum_rest s))"
    using loop_code(1) [of "[]" s "[]" "[]"] by (simp add: opens_def)
  moreover have "list_all (\<lambda>t. is_oper (tk_Type t)) (last_rest s @ map add_tok (sum_rest s))"
    using last_rest_cases [of s] by (auto simp: list_all_iff)
  ultimately show ?thesis
    unfolding calculate_def calc_type_int [OF assms(2)] Let_def parsing_printed [OF assms(1)] by simp
qed

lemma calcExp_computes:
  assumes "computes cs v"
  shows "error_text (calcExp cs expInt prec) = Inr (case v of None \<Rightarrow> errDiv | Some v \<Rightarrow> show_int (sint v))"
  using assms [unfolded computes_def, rule_format, of "[]" "[]"]
  by (auto simp: calcExp_def calc_result_def error_text_def Let_def split: option.splits)

text \<open>
  C33: the calculator computes the value of every expression of integers, sums, products, quotients and brackets in which a
  subtracted product is the last term of its level: the text that \<open>calculate\<close> returns is the value in the arithmetic of
  \<open>int64\<close>, or the error for a division by zero when a divisor is zero.
\<close>

theorem calculate_correct:
  assumes "sum_fits s" "sum_fine s" "etype \<notin> {''float'', ''money''}"
  shows "calculate env (show_sum s) etype prec = Inr (case sum_value s of None \<Rightarrow> errDiv | Some v \<Rightarrow> show_int (sint v))"
  using calculate_code [OF assms(1,3)] calcExp_computes [OF sum_computes_code [OF code_computes(1) [OF assms(2)]]] by simp

definition sample_sum :: sum_exp where
  "sample_sum = Sum (Sum (Single (Prod (Atom (Num 2)) Times (Par (Sum (Single (Atom (Num 3))) Plus (Atom (Num 4)))))) Plus
     (Prod (Atom (Num 9)) Over (Num 2))) Minus (Prod (Atom (Num 5)) Times (Num 6))"

theorem calculate_correct_witness:
  "sum_fits sample_sum \<and> sum_fine sample_sum \<and>
   calculate \<lparr>ce_Nd = (\<lambda>_. False), ce_Quote = (\<lambda>s. s)\<rparr> ''2*(3+4)+9/2-5*6'' [] [] = Inr ''-12''"
proof -
  have fine: "sum_fits sample_sum" "sum_fine sample_sum" by (simp_all add: sample_sum_def)
  have shown: "show_sum sample_sum = ''2*(3+4)+9/2-5*6''" by (simp add: sample_sum_def show_nat.simps digit_char_def char_of_def bit_Suc_0_iff)
  have val: "sum_value sample_sum = Some (i64 (- 12))" by (simp add: sample_sum_def int64_div_def trunc_div_def)
  have out: "show_int (- 12) = ''-12''" by (simp add: show_int_def show_nat.simps digit_char_def char_of_def bit_Suc_0_iff)
  from calculate_correct [OF fine, of "[]" _ "[]"] show ?thesis using fine by (simp add: shown val out)
qed

text \<open>Outside of these expressions it is wrong: \<open>a-b*c+d\<close> is computed as \<open>a-(b*c+d)\<close>.\<close>

lemma calculate_subtracted_product:
  assumes "a < 2 ^ 63" "b < 2 ^ 63" "c < 2 ^ 63" "d < 2 ^ 63"
  shows "calculate env (show_nat a @ ''-'' @ show_nat b @ ''*'' @ show_nat c @ ''+'' @ show_nat d) [] prec =
    Inr (show_int (sint (of_nat a - (of_nat b * of_nat c + of_nat d) :: int64)))"
proof -
  let ?s = "Sum (Sum (Single (Atom (Num a))) Minus (Prod (Atom (Num b)) Times (Num c))) Plus (Atom (Num d))"
  have "computes (sum_code ?s @ last_rest ?s @ map add_tok (sum_rest ?s)) (Some (of_nat a - (of_nat b * of_nat c + of_nat d)))"
    by (simp add: computes_def calc_item.simps)
  with calculate_code [of ?s "[]" env prec] calcExp_computes assms show ?thesis by simp
qed

end
