(* ===== verification/Query_Cost.thy ===== *)
theory Query_Cost
  imports Go_Num Converter_Text
begin

text \<open>
  The price of a database query, \<open>packages/model/querycost/formula.go\<close>: the table of a query is found in its text and the
  price grows with the number of rows of that table. Counting the rows is an argument; so is the mapping of runes beyond
  ASCII to lower case.
\<close>

section \<open>Words and white space of package strings\<close>

definition IsSpace :: "rune \<Rightarrow> bool" where
  "IsSpace r \<longleftrightarrow> 9 \<le> r \<and> r \<le> 13 \<or> r \<in> {0x20, 0x85, 0xA0, 0x1680, 0x2028, 0x2029, 0x202F, 0x205F, 0x3000} \<or> 0x2000 \<le> r \<and> r \<le> 0x200A"

definition lower_rune :: "(rune \<Rightarrow> rune) \<Rightarrow> rune \<Rightarrow> rune" where
  "lower_rune u r = (if r < 128 then if 65 \<le> r \<and> r \<le> 90 then r + 32 else r else u r)"

definition ToLower :: "(rune \<Rightarrow> rune) \<Rightarrow> string \<Rightarrow> string" where
  "ToLower u s = string_of_runes (map (lower_rune u) (runes s))"

text \<open>\<open>strings.Fields\<close>: the maximal runs of runes that are no space, as slices of the bytes.\<close>

fun fields_loop :: "string \<Rightarrow> (nat \<times> rune) list \<Rightarrow> nat option \<Rightarrow> string list" where
  "fields_loop s [] None = []"
| "fields_loop s [] (Some a) = [drop a s]"
| "fields_loop s ((off, r) # rs) None = fields_loop s rs (if IsSpace r then None else Some off)"
| "fields_loop s ((off, r) # rs) (Some a) =
     (if IsSpace r then take (off - a) (drop a s) # fields_loop s rs None else fields_loop s rs (Some a))"

definition Fields :: "string \<Rightarrow> string list" where
  "Fields s = fields_loop s (range_string 0 s) None"

text \<open>\<open>strings.TrimSpace\<close>: \<open>skip\<close> bytes of leading space; the trailing space starts behind the last rune that is none.\<close>

fun skip_space :: "string \<Rightarrow> (nat \<times> rune) list \<Rightarrow> string" where
  "skip_space s [] = []"
| "skip_space s ((off, r) # rs) = (if IsSpace r then skip_space s rs else drop off s)"

fun space_start :: "nat \<Rightarrow> nat \<Rightarrow> (nat \<times> rune) list \<Rightarrow> nat" where
  "space_start len k [] = k"
| "space_start len k ((off, r) # rs) =
     space_start len (if IsSpace r then k else case rs of [] \<Rightarrow> len | (off', _) # _ \<Rightarrow> off') rs"

definition TrimSpace :: "string \<Rightarrow> string" where
  "TrimSpace s0 = (let s = skip_space s0 (range_string 0 s0) in take (space_start (length s) 0 (range_string 0 s)) s)"

definition trim_chars :: "string \<Rightarrow> string \<Rightarrow> string" where
  "trim_chars cutset s = dropWhile (\<lambda>c. c \<in> set cutset) (trim_right cutset s)"

section \<open>formula.go\<close>

definition SelectCost :: int64 where "SelectCost = 1"
definition UpdateCost :: int64 where "UpdateCost = 1"
definition InsertCost :: int64 where "InsertCost = 1"
definition DeleteCost :: int64 where "DeleteCost = 1"

definition RowCoeff :: float64 where
  "RowCoeff = f64_round False (1 / 10000)"

definition FromStatementMissingError :: go_exc where "FromStatementMissingError = Error ''FROM statement missing''"
definition DeleteMinimumThreeFieldsError :: go_exc where
  "DeleteMinimumThreeFieldsError = Error ''DELETE query must consist minimum of 3 fields''"
definition SetStatementMissingError :: go_exc where "SetStatementMissingError = Error ''SET statement missing''"
definition IntoStatementMissingError :: go_exc where "IntoStatementMissingError = Error ''INTO statement missing''"
definition UnknownQueryTypeError :: go_exc where "UnknownQueryTypeError = Error ''Unknown query type''"

text \<open>The index of the first field that is the word; 0 also when there is none.\<close>

fun word_index :: "nat \<Rightarrow> string list \<Rightarrow> string \<Rightarrow> nat" where
  "word_index i [] w = 0"
| "word_index i (f # fs) w = (if f = w then i else word_index (Suc i) fs w)"

definition strSliceIndex :: "string list \<Rightarrow> string \<Rightarrow> nat" where
  "strSliceIndex fields w = word_index 0 fields w"

definition Quote :: string where "Quote = [char_of (34 :: nat)]"

datatype QueryType = SelectQuery string | UpdateQuery string | InsertQuery string | DeleteQuery string

definition field_at :: "string list \<Rightarrow> nat \<Rightarrow> string res" where
  "field_at fs i = (if i < length fs then Inr (fs ! i) else Inl (Panic ''index out of range''))"

fun GetTableName :: "QueryType \<Rightarrow> string res" where
  "GetTableName (SelectQuery s) =
     (let queryFields = Fields s; i = strSliceIndex queryFields ''from'' in
      if i = 0 then Inr [] else bind_res (field_at queryFields (i + 1)) (\<lambda>f. Inr (trim_chars Quote f)))"
| "GetTableName (UpdateQuery s) =
     (let queryFields = Fields s; i = strSliceIndex queryFields ''set'' in
      if i = 0 then Inl SetStatementMissingError else bind_res (field_at queryFields (i - 1)) (\<lambda>f. Inr (trim_chars Quote f)))"
| "GetTableName (InsertQuery s) =
     (let queryFields = Fields s; i = strSliceIndex queryFields ''into'' in
      if i = 0 then Inl IntoStatementMissingError
      else bind_res (field_at queryFields (i + 1)) (\<lambda>f.
        Inr (trim_chars Quote (case str_index ''('' f of Some k \<Rightarrow> if k > 0 then take k f else f | None \<Rightarrow> f))))"
| "GetTableName (DeleteQuery s) =
     (let queryFields = Fields s; i = strSliceIndex queryFields ''from'' in
      if i = 0 then Inl FromStatementMissingError
      else if length queryFields < 3 then Inl DeleteMinimumThreeFieldsError
      else bind_res (field_at queryFields (i + 1)) (\<lambda>f. Inr (trim_chars Quote f)))"

definition rows_cost :: "int64 \<Rightarrow> int64" where
  "rows_cost rowCount = i64 (int_of_f64 (f64_mul RowCoeff (f64_of_int (sint rowCount))))"

fun CalculateCost :: "QueryType \<Rightarrow> int64 \<Rightarrow> int64" where
  "CalculateCost (SelectQuery s) rowCount = SelectCost + rows_cost rowCount"
| "CalculateCost (UpdateQuery s) rowCount = UpdateCost + rows_cost rowCount"
| "CalculateCost (InsertQuery s) rowCount = InsertCost"
| "CalculateCost (DeleteQuery s) rowCount = DeleteCost + rows_cost rowCount"

definition query_type :: "string \<Rightarrow> QueryType res" where
  "query_type cleaned =
     (if has_prefix ''select'' cleaned then Inr (SelectQuery cleaned)
      else if has_prefix ''insert'' cleaned then Inr (InsertQuery cleaned)
      else if has_prefix ''update'' cleaned then Inr (UpdateQuery cleaned)
      else if has_prefix ''delete'' cleaned then Inr (DeleteQuery cleaned)
      else Inl UnknownQueryTypeError)"

definition QueryCost :: "(rune \<Rightarrow> rune) \<Rightarrow> (string \<Rightarrow> int64 res) \<Rightarrow> string \<Rightarrow> int64 res" where
  "QueryCost u RowCount query =
     bind_res (query_type (TrimSpace (ToLower u query))) (\<lambda>queryType.
     bind_res (GetTableName queryType) (\<lambda>tableName.
     bind_res (RowCount tableName) (\<lambda>rowCount.
       Inr (CalculateCost queryType rowCount))))"

section \<open>Texts in ASCII\<close>

definition ascii :: "string \<Rightarrow> bool" where
  "ascii s \<longleftrightarrow> list_all (\<lambda>c. of_char c < (128 :: nat)) s"

lemma ascii_simps [simp]: "ascii []" "ascii (c # s) \<longleftrightarrow> of_char c < (128 :: nat) \<and> ascii s"
  by (simp_all add: ascii_def)

lemma range_string_ascii:
  "of_char c < (128 :: nat) \<Longrightarrow> range_string off (c # s) = (off, of_char c) # range_string (off + 1) s"
  "range_string off [] = []"
  by (simp_all add: range_string.simps [of off])

lemma runes_ascii: "ascii s \<Longrightarrow> runes s = map of_char s"
proof -
  have "ascii s \<Longrightarrow> map snd (range_string off s) = map of_char s" for off
    by (induction s arbitrary: off) (simp_all add: range_string_ascii)
  then show "ascii s \<Longrightarrow> runes s = map of_char s" by (simp add: runes_def)
qed

lemma ToLower_ascii: "ascii s \<Longrightarrow> ToLower u s = map lower_char s"
proof (induction s)
  case (Cons c s)
  have "utf8_encode (lower_rune u (of_char c)) = [lower_char c]"
    using Cons.prems by (auto simp: lower_rune_def lower_char_def is_upper_def utf8_encode_ascii)
  with Cons show ?case by (simp add: ToLower_def runes_ascii)
qed (simp add: ToLower_def runes_ascii)

abbreviation space_char :: "char \<Rightarrow> bool" where
  "space_char c \<equiv> IsSpace (of_char c)"

fun words_of :: "string \<Rightarrow> string \<Rightarrow> string list" where
  "words_of w [] = (if w = [] then [] else [w])"
| "words_of w (c # s) = (if space_char c then if w = [] then words_of [] s else w # words_of [] s else words_of (w @ [c]) s)"

lemma fields_words:
  "ascii s \<Longrightarrow> fields_loop (pre @ s) (range_string (length pre) s) None = words_of [] s"
  "ascii s \<Longrightarrow> a < length pre \<Longrightarrow> fields_loop (pre @ s) (range_string (length pre) s) (Some a) = words_of (drop a pre) s"
proof (induction s arbitrary: pre a)
  case (Cons c s)
  {
    case 1
    then show ?case using Cons.IH(1) [of "pre @ [c]"] Cons.IH(2) [of "length pre" "pre @ [c]"] by (simp add: range_string_ascii)
  next
    case 2
    then show ?case using Cons.IH(1) [of "pre @ [c]"] Cons.IH(2) [of a "pre @ [c]"] by (auto simp: range_string_ascii)
  }
qed (simp_all add: range_string_ascii)

lemma Fields_ascii: "ascii s \<Longrightarrow> Fields s = words_of [] s"
  using fields_words(1) [of s "[]"] by (simp add: Fields_def)

lemma space_start_ascii:
  "ascii s \<Longrightarrow> s \<noteq> [] \<Longrightarrow> \<not> space_char (last s) \<Longrightarrow> space_start (off + length s) k (range_string off s) = off + length s"
proof (induction s arbitrary: off k)
  case (Cons c s)
  then show ?case
  proof (cases s)
    case (Cons d t)
    then show ?thesis using Cons.prems Cons.IH [of "off + 1"] by (simp add: range_string_ascii)
  qed (simp add: range_string_ascii)
qed simp

lemma TrimSpace_ascii:
  assumes "ascii s" "s \<noteq> []" "\<not> space_char (hd s)" "\<not> space_char (last s)"
  shows "TrimSpace s = s"
proof -
  have "skip_space s (range_string 0 s) = s" using assms(1-3) by (cases s) (simp_all add: range_string_ascii)
  then show ?thesis using space_start_ascii [OF assms(1,2,4), of 0 0] by (simp add: TrimSpace_def)
qed

text \<open>The price of the three kinds of statements, whose table is found by its position among the words.\<close>

lemma space_start_spaces: "ascii t \<Longrightarrow> list_all space_char t \<Longrightarrow> space_start len k (range_string off t) = k"
  by (induction t arbitrary: off) (simp_all add: range_string_ascii)

lemma space_start_tail:
  "ascii (s @ t) \<Longrightarrow> s \<noteq> [] \<Longrightarrow> \<not> space_char (last s) \<Longrightarrow> list_all space_char t \<Longrightarrow>
   space_start (off + length (s @ t)) k (range_string off (s @ t)) = off + length s"
proof (induction s arbitrary: off k)
  case (Cons c s)
  show ?case
  proof (cases s)
    case (Cons d u)
    then show ?thesis using Cons.prems Cons.IH [of "off + 1"] by (simp add: range_string_ascii)
  next
    case Nil
    then show ?thesis using Cons.prems by (cases t) (simp_all add: range_string_ascii space_start_spaces)
  qed
qed simp

lemma TrimSpace_tail:
  assumes "ascii (s @ t)" "s \<noteq> []" "\<not> space_char (hd s)" "\<not> space_char (last s)" "list_all space_char t"
  shows "TrimSpace (s @ t) = s"
proof -
  have "skip_space (s @ t) (range_string 0 (s @ t)) = s @ t" using assms(1-3) by (cases s) (simp_all add: range_string_ascii)
  then show ?thesis using space_start_tail [OF assms(1,2,4,5), of 0 0] by (simp add: TrimSpace_def)
qed

definition is_word :: "string \<Rightarrow> bool" where
  "is_word u \<longleftrightarrow> u \<noteq> [] \<and> ascii u \<and> list_all (\<lambda>c. \<not> space_char c) u"

lemma ascii_append [simp]: "ascii (s @ t) \<longleftrightarrow> ascii s \<and> ascii t"
  by (simp add: ascii_def)

lemma words_of_append: "list_all (\<lambda>c. \<not> space_char c) u \<Longrightarrow> words_of w (u @ s) = words_of (w @ u) s"
  by (induction u arbitrary: w) simp_all

lemma words_of_word: "is_word u \<Longrightarrow> words_of [] (u @ CHR '' '' # s) = u # words_of [] s"
  by (simp add: is_word_def words_of_append IsSpace_def)

lemma space_lower [simp]: "space_char (lower_char c) \<longleftrightarrow> space_char c"
  by (auto simp: lower_char_def is_upper_def IsSpace_def)

lemma ascii_lower: "ascii s \<Longrightarrow> ascii (map lower_char s)"
  by (auto simp: ascii_def list_all_iff lower_char_def is_upper_def)

lemma word_lower: "is_word u \<Longrightarrow> is_word (map lower_char u)"
  by (simp add: is_word_def ascii_lower list_all_iff)

lemma clean_query:
  assumes "ascii (s @ t)" "s \<noteq> []" "\<not> space_char (hd s)" "\<not> space_char (last s)" "list_all space_char t"
  shows "TrimSpace (ToLower u (s @ t)) = map lower_char s"
proof -
  have "TrimSpace (map lower_char s @ map lower_char t) = map lower_char s"
    using assms by (intro TrimSpace_tail) (simp_all add: ascii_lower hd_map last_map list_all_iff)
  then show ?thesis using assms(1) by (simp add: ToLower_ascii)
qed

lemma lower_words:
  "map lower_char ''UPDATE '' = ''update ''" "map lower_char '' SET '' = '' set ''" "map lower_char ''INSERT INTO '' = ''insert into ''"
  "map lower_char ''SELECT '' = ''select ''" "map lower_char '' FROM '' = '' from ''" "map lower_char '' '' = '' ''"
  by code_simp+

lemma keyword_words: "is_word ''update''" "is_word ''set''" "is_word ''insert''" "is_word ''into''" "is_word ''select''" "is_word ''from''"
  by (simp_all add: is_word_def IsSpace_def)

lemma update_cost:
  assumes "is_word tbl" "map lower_char tbl = tbl" "tbl \<noteq> ''set''" "ascii rest" "rest \<noteq> []" "\<not> space_char (last rest)"
  shows "QueryCost u cnt (''UPDATE '' @ tbl @ '' SET '' @ rest) =
    bind_res (cnt (trim_chars Quote tbl)) (\<lambda>n. Inr (UpdateCost + rows_cost n))"
proof -
  let ?q = "''update'' @ CHR '' '' # tbl @ CHR '' '' # ''set'' @ CHR '' '' # map lower_char rest"
  have "TrimSpace (ToLower u ((''UPDATE '' @ tbl @ '' SET '' @ rest) @ [])) = map lower_char (''UPDATE '' @ tbl @ '' SET '' @ rest)"
    using assms by (intro clean_query) (simp_all add: is_word_def IsSpace_def)
  then have clean: "TrimSpace (ToLower u (''UPDATE '' @ tbl @ '' SET '' @ rest)) = ?q"
    by (simp only: map_append lower_words assms(2) append_Nil2) simp
  have a: "ascii ?q" using assms by (simp add: is_word_def ascii_lower)
  have "Fields ?q = ''update'' # tbl # ''set'' # words_of [] (map lower_char rest)"
    by (simp only: Fields_ascii [OF a] words_of_word assms(1) keyword_words)
  then show ?thesis unfolding QueryCost_def clean using assms(3) by (simp add: query_type_def has_prefix_def strSliceIndex_def field_at_def)
qed

lemma insert_cost:
  assumes "is_word tbl" "map lower_char tbl = tbl" "str_index ''('' tbl = None" "ascii rest" "rest \<noteq> []" "\<not> space_char (last rest)"
  shows "QueryCost u cnt (''INSERT INTO '' @ tbl @ '' '' @ rest) = bind_res (cnt (trim_chars Quote tbl)) (\<lambda>n. Inr InsertCost)"
proof -
  let ?q = "''insert'' @ CHR '' '' # ''into'' @ CHR '' '' # tbl @ CHR '' '' # map lower_char rest"
  have "TrimSpace (ToLower u ((''INSERT INTO '' @ tbl @ '' '' @ rest) @ [])) = map lower_char (''INSERT INTO '' @ tbl @ '' '' @ rest)"
    using assms by (intro clean_query) (simp_all add: is_word_def IsSpace_def)
  then have clean: "TrimSpace (ToLower u (''INSERT INTO '' @ tbl @ '' '' @ rest)) = ?q"
    by (simp only: map_append lower_words assms(2) append_Nil2) simp
  have a: "ascii ?q" using assms by (simp add: is_word_def ascii_lower)
  have "Fields ?q = ''insert'' # ''into'' # tbl # words_of [] (map lower_char rest)"
    by (simp only: Fields_ascii [OF a] words_of_word assms(1) keyword_words)
  then show ?thesis unfolding QueryCost_def clean using assms(3) by (simp add: query_type_def has_prefix_def strSliceIndex_def field_at_def)
qed

lemma select_cost:
  assumes "is_word cols" "map lower_char cols \<noteq> ''from''" "is_word tbl" "map lower_char tbl = tbl" "ascii rest"
    and "rest = [] \<or> \<not> space_char (last rest)"
  shows "QueryCost u cnt (''SELECT '' @ cols @ '' FROM '' @ tbl @ '' '' @ rest) =
    bind_res (cnt (trim_chars Quote tbl)) (\<lambda>n. Inr (SelectCost + rows_cost n))"
proof -
  let ?p = "''select'' @ CHR '' '' # map lower_char cols @ CHR '' '' # ''from'' @ CHR '' '' # tbl"
  let ?p' = "''select'' @ CHR '' '' # map lower_char cols @ CHR '' '' # ''from'' @ CHR '' '' # tbl @ CHR '' '' # map lower_char rest"
  have w: "is_word (map lower_char cols)" by (rule word_lower [OF assms(1)])
  obtain q where clean: "TrimSpace (ToLower u (''SELECT '' @ cols @ '' FROM '' @ tbl @ '' '' @ rest)) = q"
    and q: "q = ?p \<or> q = ?p'"
  proof (cases "rest = []")
    case True
    have "TrimSpace (ToLower u ((''SELECT '' @ cols @ '' FROM '' @ tbl) @ '' '')) = map lower_char (''SELECT '' @ cols @ '' FROM '' @ tbl)"
      using assms(1,3) by (intro clean_query) (auto simp: is_word_def IsSpace_def list_all_iff)
    then have "TrimSpace (ToLower u (''SELECT '' @ cols @ '' FROM '' @ tbl @ '' '' @ rest)) = ?p"
      using True by (simp only: map_append lower_words assms(4) append_Nil2 append_assoc) simp
    then show ?thesis using that by blast
  next
    case False
    have "TrimSpace (ToLower u ((''SELECT '' @ cols @ '' FROM '' @ tbl @ '' '' @ rest) @ [])) = map lower_char (''SELECT '' @ cols @ '' FROM '' @ tbl @ '' '' @ rest)"
      using assms False by (intro clean_query) (simp_all add: is_word_def IsSpace_def)
    then have "TrimSpace (ToLower u (''SELECT '' @ cols @ '' FROM '' @ tbl @ '' '' @ rest)) = ?p'"
      by (simp only: map_append lower_words assms(4) append_Nil2) simp
    then show ?thesis using that by blast
  qed
  have a: "ascii q" using q w assms(3,5) by (auto simp: is_word_def ascii_lower)
  have t: "words_of [] tbl = [tbl]" using words_of_append [of tbl "[]" "[]"] assms(3) by (simp add: is_word_def)
  have "words_of [] ?p = [''select'', map lower_char cols, ''from'', tbl]"
    by (simp only: words_of_word w keyword_words t)
  moreover have "words_of [] ?p' = ''select'' # map lower_char cols # ''from'' # tbl # words_of [] (map lower_char rest)"
    by (simp only: words_of_word w keyword_words assms(3))
  ultimately have "\<exists>ws. Fields q = ''select'' # map lower_char cols # ''from'' # tbl # ws"
    using q Fields_ascii [OF a] by metis
  moreover have "has_prefix ''select'' q" using q by (auto simp: has_prefix_def)
  ultimately show ?thesis
    unfolding QueryCost_def clean using assms(2) by (auto simp: query_type_def strSliceIndex_def field_at_def)
qed

end
