(* ===== verification/Contract_DB.thy ===== *)
theory Contract_DB
  imports Query_Cost Script_Values "HOL-Library.AList"
begin

text \<open>
  How contracts write to the database, \<open>packages/smart/selective.go\<close>: \<open>insert\<close> and \<open>update\<close> build the text of an SQL statement from
  columns and values, price it, execute it and record what a rollback needs. The database itself is an argument: what it
  answers to the text of a statement, on a state \<open>'w\<close>.
\<close>

section \<open>Computations on the database\<close>

type_synonym ('w, 'a) db = "'w \<Rightarrow> 'a res \<times> 'w"

definition ret_db :: "'a res \<Rightarrow> ('w, 'a) db" where
  "ret_db r w = (r, w)"

definition bind_db :: "('w, 'a) db \<Rightarrow> ('a \<Rightarrow> ('w, 'b) db) \<Rightarrow> ('w, 'b) db" where
  "bind_db m f w = (case m w of (Inl e, w') \<Rightarrow> (Inl e, w') | (Inr x, w') \<Rightarrow> f x w')"

record RollbackTx =
  rb_BlockID :: int64
  rb_TxHash :: bytes
  rb_NameTable :: string
  rb_TableID :: string
  rb_Data :: string

text \<open>
  The database: one row for a query (an empty row when there is none), the execution of a statement, the number of rows of a
  table, and the creation of a record for the rollback. From the libraries: lower case beyond ASCII, \<open>fmt.Sprint\<close>,
  \<open>json.Marshal\<close> of values and of maps of strings, the format of floats, and the order in which the runtime iterates over a map.
\<close>

record 'w dbenv =
  db_row :: "string \<Rightarrow> 'w \<Rightarrow> (string \<times> string) list res"
  db_exec :: "string \<Rightarrow> ('w, unit) db"
  db_count :: "string \<Rightarrow> 'w \<Rightarrow> int64 res"
  db_rollback :: "RollbackTx \<Rightarrow> ('w, unit) db"
  db_lower :: "rune \<Rightarrow> rune"
  db_sprint :: "val \<Rightarrow> string"
  db_json :: "val \<Rightarrow> string res"
  db_json_map :: "(string \<times> string) list \<Rightarrow> string"
  db_float :: "float64 \<Rightarrow> string"
  db_order :: "string list \<Rightarrow> string list"

text \<open>The part of \<open>SmartContract\<close> that is read here; \<open>sd_BlockID\<close> is \<open>None\<close> when there is no block.\<close>

record sc_data =
  sd_VDE :: bool
  sd_Rollback :: bool
  sd_BlockID :: "int64 option"
  sd_TxHash :: bytes

section \<open>Helpers\<close>

definition escapeSingleQuotes :: "string \<Rightarrow> string" where
  "escapeSingleQuotes s = str_replace [CHR 0x27] [CHR 0x27, CHR 0x27] s"

definition quoted :: "string \<Rightarrow> string" where
  "quoted s = CHR 0x27 # s @ [CHR 0x27]"

definition in_quotes :: "string \<Rightarrow> string" where
  "in_quotes s = Quote @ s @ Quote"

fun param_index :: "(rune \<Rightarrow> rune) \<Rightarrow> nat \<Rightarrow> string list \<Rightarrow> string \<Rightarrow> nat option" where
  "param_index u i [] name = None"
| "param_index u i (f # fs) name = (if ToLower u f = name then Some i else param_index u (Suc i) fs name)"

definition getParam :: "(rune \<Rightarrow> rune) \<Rightarrow> string list \<Rightarrow> string \<Rightarrow> nat option" where
  "getParam u flds name = param_index u 0 flds name"

text \<open>\<open>true\<close> for the tables that every ecosystem has of its own, \<open>false\<close> for those it shares.\<close>

definition FirstEcosystemTables :: "(string \<times> bool) list" where
  "FirstEcosystemTables =
     [(''keys'', False), (''menu'', True), (''pages'', True), (''blocks'', True), (''languages'', True), (''contracts'', True),
      (''tables'', True), (''parameters'', True), (''history'', True), (''sections'', True), (''members'', False), (''roles'', True),
      (''roles_participants'', True), (''notifications'', True), (''applications'', True), (''binaries'', True), (''buffer_data'', True), (''app_params'', True)]"

text \<open>\<open>IsByteColumn\<close>: \<open>(?i)^\d+_suffix$\<close>, where \<open>i\<close> also lets U+017F stand for s and U+212A for k.\<close>

definition fold_rune :: "rune \<Rightarrow> rune" where
  "fold_rune r = (if 65 \<le> r \<and> r \<le> 90 then r + 32 else if r = 0x17F then 115 else if r = 0x212A then 107 else r)"

definition IsByteColumn :: "string \<Rightarrow> string \<Rightarrow> bool" where
  "IsByteColumn table col =
     (case map_of [(''txhash'', ''history''), (''pub'', ''keys''), (''data'', ''binaries'')] col of
        Some suffix \<Rightarrow>
          let rs = runes table; ds = takeWhile rune_digit rs
          in ds \<noteq> [] \<and> map fold_rune (drop (length ds) rs) = map of_char (CHR ''_'' # suffix)
      | None \<Rightarrow> False)"

text \<open>\<open>checkNow\<close>: \<open>(now\s*\(\s*\)|localtime|current_date|current_time)\<close> in the text in lower case.\<close>

definition re_space :: "char \<Rightarrow> bool" where
  "re_space c \<longleftrightarrow> of_char c \<in> {9, 10, 12, 13, 32 :: nat}"

definition now_call :: "string \<Rightarrow> bool" where
  "now_call s \<longleftrightarrow> has_prefix ''now'' s \<and>
     (case dropWhile re_space (drop 3 s) of
        c # t \<Rightarrow> c = CHR ''('' \<and> has_prefix '')'' (dropWhile re_space t)
      | [] \<Rightarrow> False)"

fun has_now :: "string \<Rightarrow> bool" where
  "has_now [] = False"
| "has_now (c # s) \<longleftrightarrow> now_call (c # s) \<or> has_now s"

definition checkNow :: "(rune \<Rightarrow> rune) \<Rightarrow> string \<Rightarrow> unit res" where
  "checkNow u item =
     (let s = ToLower u item in
      if has_now s \<or> str_contains s ''localtime'' \<or> str_contains s ''current_date'' \<or> str_contains s ''current_time''
      then Inl (Error ''It is prohibited to use NOW() or current time functions'') else Inr ())"

definition InterfaceToStr :: "'w dbenv \<Rightarrow> val \<Rightarrow> string res" where
  "InterfaceToStr env v =
     (case v of
        VInt i \<Rightarrow> Inr (show_int (sint i))
      | VFloat f \<Rightarrow> Inr (db_float env f)
      | VInt64 i \<Rightarrow> Inr (show_int (sint i))
      | VString s \<Rightarrow> Inr s
      | VBytes b \<Rightarrow> Inr (string_of_bytes b)
      | VMap m \<Rightarrow> db_json env v
      | VAnyMap m \<Rightarrow> db_json env v
      | VDec d \<Rightarrow> Inr (dec_String d)
      | _ \<Rightarrow> Inr [])"

fun InterfaceSliceToStr :: "'w dbenv \<Rightarrow> val list \<Rightarrow> string list res" where
  "InterfaceSliceToStr env [] = Inr []"
| "InterfaceSliceToStr env (v # vs) =
     bind_res (InterfaceToStr env v) (\<lambda>s. bind_res (InterfaceSliceToStr env vs) (\<lambda>ss. Inr (s # ss)))"

section \<open>The parts of a statement\<close>

text \<open>
  The values: a time must not be the current one, and a text for a column of bytes is decoded from hexadecimal form.
\<close>

definition prepare_value :: "(rune \<Rightarrow> rune) \<Rightarrow> string \<Rightarrow> string list \<Rightarrow> val \<Rightarrow> val res" where
  "prepare_value u table flds v =
     (case v of
        VString s \<Rightarrow>
          bind_res (if has_prefix ''timestamp'' (TrimSpace s) then checkNow u s else Inr ()) (\<lambda>_.
            Inr (case flds of
                   f # _ \<Rightarrow> if IsByteColumn table f \<and> snd (hex_decode s) then VBytes (fst (hex_decode s)) else v
                 | [] \<Rightarrow> v))
      | _ \<Rightarrow> Inr v)"

fun prepare_values :: "'w dbenv \<Rightarrow> string \<Rightarrow> string list \<Rightarrow> val list \<Rightarrow> val list res" where
  "prepare_values env table flds [] = Inr []"
| "prepare_values env table flds (v # vs) =
     bind_res (prepare_value (db_lower env) table flds v) (\<lambda>v.
       bind_res (prepare_values env table (tl flds) vs) (\<lambda>vs. Inr (v # vs)))"

definition slice_error :: go_exc where
  "slice_error = Panic ''slice bounds out of range''"

definition timestampPrefix :: string where "timestampPrefix = ''timestamp ''"

definition is_sign :: "char \<Rightarrow> bool" where
  "is_sign c \<longleftrightarrow> c = CHR ''+'' \<or> c = CHR ''-''"

definition upto_arrow :: "string \<Rightarrow> string" where
  "upto_arrow field = (case str_index ''->'' field of Some i \<Rightarrow> take i field | None \<Rightarrow> field)"

definition select_field :: "string \<Rightarrow> string res" where
  "select_field field =
     (if field = [] then Inl slice_error
      else Inr ((if is_sign (hd field) then tl field
                 else if has_prefix timestampPrefix field then drop (length timestampPrefix) field
                 else if str_contains field ''->'' then upto_arrow field
                 else in_quotes field) @ '',''))"

fun select_fields :: "string list \<Rightarrow> string res" where
  "select_fields [] = Inr []"
| "select_fields (f # fs) = bind_res (select_field f) (\<lambda>a. bind_res (select_fields fs) (\<lambda>b. Inr (a @ b)))"

definition where_item :: "string \<Rightarrow> string \<Rightarrow> string" where
  "where_item field v =
     field @ ''= '' @ (if StrToInt64 v \<noteq> 0 then escapeSingleQuotes v else quoted (escapeSingleQuotes v)) @ '' AND ''"

fun where_items :: "string list \<Rightarrow> string list \<Rightarrow> string res" where
  "where_items [] vs = Inr []"
| "where_items (f # fs) [] = Inl (Panic ''index out of range'')"
| "where_items (f # fs) (v # vs) = bind_res (where_items fs vs) (\<lambda>s. Inr (where_item f v @ s))"

definition where_clause :: "'w dbenv \<Rightarrow> bool \<Rightarrow> string \<Rightarrow> (string list \<times> string list) option \<Rightarrow> string res" where
  "where_clause env isKeyTable keyEcosystem cond =
     (case cond of
        None \<Rightarrow> Inr []
      | Some (fs, vs) \<Rightarrow>
          bind_res (where_items fs vs) (\<lambda>s.
            let s = s @ (if isKeyTable \<and> getParam (db_lower env) fs ''ecosystem'' = None
                         then ''ecosystem = '' @ quoted (show_int (sint (StrToInt64 keyEcosystem))) @ '' AND '' else [])
            in Inr (if s = [] then [] else '' WHERE '' @ take (length s - 5) s)))"

text \<open>
  Changes of flds of JSON columns (\<open>column->field\<close>) are collected; the other items of an \<open>UPDATE\<close> are texts.
\<close>

type_synonym json_fields = "(string \<times> (string \<times> string) list) list"

definition split_arrow :: "string \<Rightarrow> (string \<times> string) option" where
  "split_arrow field =
     (case str_index ''->'' field of
        None \<Rightarrow> None
      | Some i \<Rightarrow> let rest = drop (i + 2) field in if str_contains rest ''->'' then None else Some (take i field, rest))"

definition add_json :: "string \<Rightarrow> string \<Rightarrow> json_fields \<Rightarrow> json_fields" where
  "add_json field v js =
     (case split_arrow field of
        None \<Rightarrow> js
      | Some (c, k) \<Rightarrow> AList.update c (AList.update k v (case map_of js c of Some m \<Rightarrow> m | None \<Rightarrow> [])) js)"

definition update_item :: "string \<Rightarrow> string \<Rightarrow> string \<Rightarrow> json_fields \<Rightarrow> string \<times> json_fields" where
  "update_item table field v js =
     (if IsByteColumn table field \<and> v \<noteq> []
      then (field @ ''=decode('' @ quoted (hex_encode (bytes_of_string v)) @ '','' @ quoted ''HEX'' @ ''),'', js)
      else if hd field = CHR ''+'' then (tl field @ ''='' @ tl field @ ''+'' @ escapeSingleQuotes v @ '','', js)
      else if hd field = CHR ''-'' then (tl field @ ''='' @ tl field @ ''-'' @ escapeSingleQuotes v @ '','', js)
      else if v = ''NULL'' then (field @ ''= NULL,'', js)
      else if has_prefix timestampPrefix field then (drop (length timestampPrefix) field @ ''= to_timestamp('' @ quoted v @ ''),'', js)
      else if has_prefix timestampPrefix v
      then (field @ ''= timestamp '' @ quoted (escapeSingleQuotes (drop (length timestampPrefix) v)) @ '','', js)
      else if str_contains field ''->'' then ([], add_json field v js)
      else (in_quotes field @ ''='' @ quoted (escapeSingleQuotes v) @ '','', js))"

fun update_items :: "bool \<Rightarrow> string \<Rightarrow> string list \<Rightarrow> string list \<Rightarrow> json_fields \<Rightarrow> (string \<times> json_fields) res" where
  "update_items key table [] vs js = Inr ([], js)"
| "update_items key table (f # fs) vs js =
     (if key \<and> f = ''ecosystem'' then update_items key table fs (tl vs) js
      else case vs of
        [] \<Rightarrow> Inl (Panic ''index out of range'')
      | v # vs \<Rightarrow>
          let (s, js) = update_item table f v js
          in bind_res (update_items key table fs vs js) (\<lambda>(t, js). Inr (s @ t, js)))"

definition json_update :: "'w dbenv \<Rightarrow> (string \<times> string) list \<Rightarrow> json_fields \<Rightarrow> string \<Rightarrow> string" where
  "json_update env logData js col =
     (let initial = (case map_of logData col of Some s \<Rightarrow> if s \<noteq> [] \<and> s \<noteq> ''NULL'' then col else quoted ''{}'' | None \<Rightarrow> quoted ''{}'')
      in col @ ''='' @ initial @ ''::jsonb || '' @ quoted (db_json_map env (the (map_of js col))) @ ''::jsonb,'')"

definition update_set :: "'w dbenv \<Rightarrow> bool \<Rightarrow> string \<Rightarrow> string list \<Rightarrow> string list \<Rightarrow> (string \<times> string) list \<Rightarrow> string res" where
  "update_set env key table flds values logData =
     bind_res (update_items key table flds values []) (\<lambda>(s, js).
       Inr (trim_right '','' (s @ concat (map (json_update env logData js) (db_order env (map fst js))))))"

definition insert_column :: "string \<Rightarrow> string" where
  "insert_column field =
     (if is_sign (hd field) then tl field
      else if has_prefix timestampPrefix field then drop (length timestampPrefix) field
      else in_quotes field)"

text \<open>A value that begins with \<open>timestamp\<close> but ends there is cut behind its end.\<close>

definition insert_value :: "string \<Rightarrow> string \<Rightarrow> string \<Rightarrow> string res" where
  "insert_value table field v =
     (if IsByteColumn table field \<and> v \<noteq> []
      then Inr (''decode('' @ quoted (hex_encode (bytes_of_string v)) @ '','' @ quoted ''HEX'' @ '')'')
      else if v = ''NULL'' then Inr ''NULL''
      else if has_prefix ''timestamp'' field then Inr (''to_timestamp('' @ quoted (escapeSingleQuotes v) @ '')'')
      else if has_prefix ''timestamp'' v
      then if length v < length timestampPrefix then Inl slice_error
           else Inr (''timestamp '' @ quoted (escapeSingleQuotes (drop (length timestampPrefix) v)))
      else Inr (quoted (escapeSingleQuotes v)))"

record ins_parts =
  ip_columns :: "string list"
  ip_values :: "string list"
  ip_json :: json_fields
  ip_id :: "string option"

fun insert_items :: "string \<Rightarrow> string list \<Rightarrow> string list \<Rightarrow> ins_parts \<Rightarrow> ins_parts res" where
  "insert_items table [] vs p = Inr p"
| "insert_items table (f # fs) [] p = Inl (Panic ''index out of range'')"
| "insert_items table (f # fs) (v # vs) p =
     (let p = (if f = ''id'' then p\<lparr>ip_id := Some (escapeSingleQuotes v)\<rparr> else p) in
      if split_arrow f \<noteq> None then insert_items table fs vs (p\<lparr>ip_json := add_json f (escapeSingleQuotes v) (ip_json p)\<rparr>)
      else bind_res (insert_value table f v) (\<lambda>s.
        insert_items table fs vs (p\<lparr>ip_columns := ip_columns p @ [insert_column f], ip_values := ip_values p @ [s]\<rparr>)))"

definition insert_json :: "'w dbenv \<Rightarrow> ins_parts \<Rightarrow> ins_parts" where
  "insert_json env p =
     (let cols = db_order env (map fst (ip_json p)) in
      p\<lparr>ip_columns := ip_columns p @ cols,
        ip_values := ip_values p @ map (\<lambda>c. quoted (db_json_map env (the (map_of (ip_json p) c))) @ ''::jsonb'') cols\<rparr>)"

fun insert_where :: "string list \<Rightarrow> string list \<Rightarrow> ins_parts \<Rightarrow> ins_parts res" where
  "insert_where [] vs p = Inr p"
| "insert_where (f # fs) [] p = Inl (Panic ''index out of range'')"
| "insert_where (f # fs) (v # vs) p =
     insert_where fs vs
       (p\<lparr>ip_id := (if f = ''id'' then Some v else ip_id p), ip_columns := ip_columns p @ [f],
         ip_values := ip_values p @ [escapeSingleQuotes v]\<rparr>)"

fun join :: "string \<Rightarrow> string list \<Rightarrow> string" where
  "join sep [] = []"
| "join sep [s] = s"
| "join sep (s # ss) = s @ sep @ join sep ss"

definition insert_query :: "string \<Rightarrow> ins_parts \<Rightarrow> string" where
  "insert_query table p =
     ''INSERT INTO '' @ in_quotes table @ '' ('' @ join '','' (ip_columns p) @ '') VALUES ('' @ join '','' (ip_values p) @ '')''"

section \<open>The whole function\<close>

text \<open>The target of a statement: for a table that the ecosystems share, the rows of one ecosystem.\<close>

record sql_target =
  st_table :: string
  st_flds :: "string list"
  st_vals :: "val list"
  st_isKey :: bool
  st_ecosystem :: string
  st_name :: string

definition sql_target :: "'w dbenv \<Rightarrow> string list \<Rightarrow> val list \<Rightarrow> string \<Rightarrow> bool \<Rightarrow> sql_target" where
  "sql_target env flds ivalues table nowhere =
     (case str_index ''_'' table of
        None \<Rightarrow> \<lparr>st_table = table, st_flds = flds, st_vals = ivalues, st_isKey = False, st_ecosystem = [], st_name = []\<rparr>
      | Some i \<Rightarrow>
          let keyName = drop (i + 1) table; eco = take i table in
          if map_of FirstEcosystemTables keyName = Some False then
            (case getParam (db_lower env) flds ''ecosystem'' of
               Some k \<Rightarrow>
                 if k < length ivalues \<and> sint (StrToInt64 (db_sprint env (ivalues ! k))) > 0
                 then \<lparr>st_table = ''1_'' @ keyName, st_flds = flds, st_vals = ivalues, st_isKey = True,
                       st_ecosystem = (if nowhere then db_sprint env (ivalues ! k) else eco), st_name = keyName\<rparr>
                 else \<lparr>st_table = ''1_'' @ keyName, st_flds = flds @ [''ecosystem''], st_vals = ivalues @ [VString eco], st_isKey = True,
                       st_ecosystem = eco, st_name = keyName\<rparr>
             | None \<Rightarrow>
                 \<lparr>st_table = ''1_'' @ keyName, st_flds = flds @ [''ecosystem''], st_vals = ivalues @ [VString eco], st_isKey = True,
                  st_ecosystem = eco, st_name = keyName\<rparr>)
          else \<lparr>st_table = table, st_flds = flds, st_vals = ivalues, st_isKey = False, st_ecosystem = [], st_name = keyName\<rparr>)"

definition select_query :: "string \<Rightarrow> string \<Rightarrow> string \<Rightarrow> string" where
  "select_query cols table cond = ''SELECT '' @ trim_right '','' (''id,'' @ cols) @ '' FROM '' @ in_quotes table @ '' '' @ cond"

definition query_cost :: "'w dbenv \<Rightarrow> string \<Rightarrow> ('w, int64) db" where
  "query_cost env q w = (QueryCost (db_lower env) (\<lambda>t. db_count env t w) q, w)"

definition model_Update :: "'w dbenv \<Rightarrow> string \<Rightarrow> string \<Rightarrow> string \<Rightarrow> ('w, unit) db" where
  "model_Update env tblname sets cond =
     db_exec env (''UPDATE '' @ in_quotes (trim_chars Quote tblname) @ '' SET '' @ sets @ '' '' @ cond)"

definition GetNextID :: "'w dbenv \<Rightarrow> string \<Rightarrow> ('w, int64) db" where
  "GetNextID env table w =
     (bind_res (db_row env (''select id from '' @ in_quotes table @ '' order by id desc limit 1'') w) (\<lambda>row.
        Inr ((case map_of row ''id'' of Some s \<Rightarrow> StrToInt64 s | None \<Rightarrow> 0) + 1)), w)"

definition rollback_info :: "'w dbenv \<Rightarrow> bool \<Rightarrow> string \<Rightarrow> (string \<times> string) list \<Rightarrow> string res" where
  "rollback_info env isKey table logData =
     (let rows = filter (\<lambda>(k, _). \<not> (k = ''id'' \<or> isKey \<and> k = ''ecosystem'')) logData in
      if list_ex (\<lambda>(k, _). k = []) rows then Inl slice_error
      else Inr (db_json_map env (map (\<lambda>(k, v). (k, if IsByteColumn table k \<and> v \<noteq> [] then hex_encode (bytes_of_string v) else v)) rows)))"

definition addRollback :: "'w dbenv \<Rightarrow> sc_data \<Rightarrow> string \<Rightarrow> string \<Rightarrow> string \<Rightarrow> ('w, unit) db" where
  "addRollback env sc table tableID info =
     (case sd_BlockID sc of
        None \<Rightarrow> ret_db (Inl nil_deref)
      | Some b \<Rightarrow> db_rollback env \<lparr>rb_BlockID = b, rb_TxHash = sd_TxHash sc, rb_NameTable = table, rb_TableID = tableID, rb_Data = info\<rparr>)"

text \<open>The branches: the update of a row that was found, with the record for the rollback, and the insertion. Both return the price and the id.\<close>

definition do_update :: "'w dbenv \<Rightarrow> sc_data \<Rightarrow> sql_target \<Rightarrow> string list \<Rightarrow> string list \<Rightarrow> string \<Rightarrow> (string \<times> string) list \<Rightarrow>
    ('w, int64 \<times> string \<times> string) db" where
  "do_update env sc t flds values cond logData =
     bind_db (ret_db (rollback_info env (st_isKey t) (st_table t) logData)) (\<lambda>info.
     bind_db (ret_db (update_set env (st_isKey t) (st_table t) flds values logData)) (\<lambda>sets.
     bind_db (if sd_VDE sc then ret_db (Inr 0)
              else query_cost env (''UPDATE '' @ in_quotes (st_table t) @ '' SET '' @ sets @ cond)) (\<lambda>cost.
     bind_db (model_Update env (st_table t) sets cond) (\<lambda>_.
       ret_db (Inr (cost, case map_of logData ''id'' of Some i \<Rightarrow> i | None \<Rightarrow> [], info))))))"

text \<open>The error of the \<open>INSERT\<close> is assigned to a variable that shadows the one the function returns: it is logged only.\<close>

definition log_error :: "('w, unit) db \<Rightarrow> ('w, unit) db" where
  "log_error m w = (case m w of (Inl (Error e), w') \<Rightarrow> (Inr (), w') | r \<Rightarrow> r)"

definition do_insert :: "'w dbenv \<Rightarrow> sql_target \<Rightarrow> string list \<Rightarrow> string list \<Rightarrow> (string list \<times> string list) option \<Rightarrow>
    ('w, int64 \<times> string \<times> string) db" where
  "do_insert env t flds values cond =
     bind_db (ret_db (insert_items (st_table t) flds values \<lparr>ip_columns = [], ip_values = [], ip_json = [], ip_id = None\<rparr>)) (\<lambda>p.
     bind_db (ret_db (case cond of None \<Rightarrow> Inr (insert_json env p) | Some (fs, vs) \<Rightarrow> insert_where fs vs (insert_json env p))) (\<lambda>p.
     bind_db (case ip_id p of
                Some i \<Rightarrow> ret_db (Inr (i, p))
              | None \<Rightarrow> bind_db (GetNextID env (st_table t)) (\<lambda>i.
                  let tableID = show_int (sint i)
                  in ret_db (Inr (tableID, p\<lparr>ip_columns := ip_columns p @ [''id''], ip_values := ip_values p @ [quoted tableID]\<rparr>)))) (\<lambda>(tableID, p).
     bind_db (query_cost env (insert_query (st_table t) p)) (\<lambda>cost.
     bind_db (log_error (db_exec env (insert_query (st_table t) p))) (\<lambda>_.
       ret_db (Inr (cost, tableID, [])))))))"

definition errUpdNotExistRecord :: go_exc where
  "errUpdNotExistRecord = Error ''Update for not existing record''"

definition selectiveLoggingAndUpd :: "'w dbenv \<Rightarrow> sc_data \<Rightarrow> string list \<Rightarrow> val list \<Rightarrow> string \<Rightarrow> (string list \<times> string list) option \<Rightarrow>
    bool \<Rightarrow> bool \<Rightarrow> ('w, int64 \<times> string) db" where
  "selectiveLoggingAndUpd env sc flds0 ivalues table cond generalRollback exists =
     (let t = sql_target env flds0 ivalues table (cond = None) in
      if generalRollback \<and> sd_BlockID sc = None
      then ret_db (Inl (Error ''It is impossible to write to DB when Block is undefined''))
      else
      bind_db (ret_db (prepare_values env (st_table t) (st_flds t) (st_vals t))) (\<lambda>ivalues.
      bind_db (ret_db (InterfaceSliceToStr env ivalues)) (\<lambda>values.
      let flds = map (\<lambda>f. TrimSpace (ToLower (db_lower env) f)) (st_flds t) in
      bind_db (ret_db (select_fields flds)) (\<lambda>cols.
      bind_db (ret_db (where_clause env (st_isKey t) (st_ecosystem t) cond)) (\<lambda>addSQLWhere.
      let q = select_query cols (st_table t) addSQLWhere in
      bind_db (query_cost env q) (\<lambda>selectCost.
      bind_db (\<lambda>w. (db_row env q w, w)) (\<lambda>logData.
      if exists \<and> logData = [] then ret_db (Inl errUpdNotExistRecord)
      else
      bind_db (if cond \<noteq> None \<and> logData \<noteq> [] then do_update env sc t flds values addSQLWhere logData
               else do_insert env t flds values cond) (\<lambda>(cost, tableID, info).
      bind_db (if generalRollback
               then addRollback env sc
                 (if st_isKey t then (if cond \<noteq> None \<and> logData \<noteq> [] then case map_of logData ''ecosystem'' of Some e \<Rightarrow> e | None \<Rightarrow> []
                                      else st_ecosystem t) @ ''_'' @ st_name t
                  else st_table t) tableID info
               else ret_db (Inr ())) (\<lambda>_.
        ret_db (Inr (selectCost + cost, tableID)))))))))))"

definition sc_insert :: "'w dbenv \<Rightarrow> sc_data \<Rightarrow> string list \<Rightarrow> val list \<Rightarrow> string \<Rightarrow> ('w, int64 \<times> string) db" where
  "sc_insert env sc flds ivalues table =
     selectiveLoggingAndUpd env sc flds ivalues table None (\<not> sd_VDE sc \<and> sd_Rollback sc) False"

definition sc_update :: "'w dbenv \<Rightarrow> sc_data \<Rightarrow> string list \<Rightarrow> val list \<Rightarrow> string \<Rightarrow> string \<Rightarrow> val \<Rightarrow> ('w, int64 \<times> string) db" where
  "sc_update env sc flds values table whereField whereValue =
     selectiveLoggingAndUpd env sc flds values table (Some ([whereField], [db_sprint env whereValue])) (\<not> sd_VDE sc \<and> sd_Rollback sc) True"

section \<open>Reading a statement as the database does\<close>

text \<open>
  A literal of SQL: an apostrophe, characters in which a doubled apostrophe stands for one, and an apostrophe. \<open>sql_literals n\<close>
  reads \<open>n\<close> of them separated by commas; both return what follows.
\<close>

fun literal_body :: "string \<Rightarrow> (string \<times> string) option" where
  "literal_body [] = None"
| "literal_body [c] = (if c = CHR 0x27 then Some ([], []) else None)"
| "literal_body (c # d # s) =
     (if c = CHR 0x27
      then if d = CHR 0x27 then map_option (\<lambda>(v, r). (CHR 0x27 # v, r)) (literal_body s) else Some ([], d # s)
      else map_option (\<lambda>(v, r). (c # v, r)) (literal_body (d # s)))"

definition sql_literal :: "string \<Rightarrow> (string \<times> string) option" where
  "sql_literal s = (case s of c # t \<Rightarrow> if c = CHR 0x27 then literal_body t else None | [] \<Rightarrow> None)"

fun sql_literals :: "nat \<Rightarrow> string \<Rightarrow> (string list \<times> string) option" where
  "sql_literals 0 s = Some ([], s)"
| "sql_literals (Suc 0) s = map_option (\<lambda>(v, r). ([v], r)) (sql_literal s)"
| "sql_literals (Suc (Suc n)) s =
     Option.bind (sql_literal s) (\<lambda>(v, r).
       case r of c # r \<Rightarrow> if c = CHR '','' then map_option (\<lambda>(vs, r). (v # vs, r)) (sql_literals (Suc n) r) else None | [] \<Rightarrow> None)"

definition ends_literal :: "string \<Rightarrow> bool" where
  "ends_literal r \<longleftrightarrow> r = [] \<or> hd r \<noteq> CHR 0x27"

lemma escape_simps [simp]:
  "escapeSingleQuotes [] = []"
  "escapeSingleQuotes (c # s) = (if c = CHR 0x27 then [CHR 0x27, CHR 0x27] else [c]) @ escapeSingleQuotes s"
  by (simp_all add: escapeSingleQuotes_def str_replace_single)

lemma literal_body_escaped:
  assumes "ends_literal r"
  shows "literal_body (escapeSingleQuotes v @ CHR 0x27 # r) = Some (v, r)"
proof (induction v)
  case Nil
  then show ?case using assms by (cases r) (auto simp: ends_literal_def)
next
  case (Cons c v)
  obtain d s where "escapeSingleQuotes v @ CHR 0x27 # r = d # s" by (cases "escapeSingleQuotes v") auto
  then show ?case using Cons by simp
qed

lemma sql_literal_escaped: "ends_literal r \<Longrightarrow> sql_literal (quoted (escapeSingleQuotes v) @ r) = Some (v, r)"
  by (simp add: sql_literal_def quoted_def literal_body_escaped)

lemma sql_literals_escaped:
  "ends_literal r \<Longrightarrow>
   sql_literals (length vs) (join '','' (map (\<lambda>v. quoted (escapeSingleQuotes v)) vs) @ r) = Some (vs, r)"
proof (induction vs rule: induct_list012)
  case (3 v w vs)
  have "ends_literal (CHR '','' # s)" for s by (simp add: ends_literal_def)
  with 3 show ?case by (simp add: sql_literal_escaped)
qed (simp_all add: sql_literal_escaped)

text \<open>An ordinary column with an ordinary value.\<close>

definition plain_column :: "string \<Rightarrow> string \<Rightarrow> string \<Rightarrow> bool" where
  "plain_column table f v \<longleftrightarrow> f \<noteq> [] \<and> \<not> is_sign (hd f) \<and> \<not> IsByteColumn table f \<and> \<not> has_prefix ''timestamp'' f \<and>
     split_arrow f = None \<and> v \<noteq> ''NULL'' \<and> \<not> has_prefix ''timestamp'' v"

lemma has_prefix_butlast: "has_prefix (p @ [c]) s \<Longrightarrow> has_prefix p s"
proof -
  assume h: "has_prefix (p @ [c]) s"
  have "take (length p) s = take (length p) (take (length (p @ [c])) s)" by simp
  also have "\<dots> = take (length p) (p @ [c])" using h by (simp only: has_prefix_def)
  finally show ?thesis by (simp add: has_prefix_def)
qed

lemma has_prefix_timestamp: "has_prefix timestampPrefix s \<Longrightarrow> has_prefix ''timestamp'' s"
  using has_prefix_butlast [of "''timestamp''" "CHR '' ''" s] by (simp add: timestampPrefix_def)

lemma insert_plain:
  assumes "list_all2 (plain_column table) flds vals"
  shows "\<exists>i. (i = None \<longleftrightarrow> ip_id p = None \<and> ''id'' \<notin> set flds) \<and> insert_items table flds vals p =
    Inr (p\<lparr>ip_columns := ip_columns p @ map in_quotes flds, ip_values := ip_values p @ map (\<lambda>v. quoted (escapeSingleQuotes v)) vals, ip_id := i\<rparr>)"
  using assms
proof (induction flds vals arbitrary: p rule: list_all2_induct)
  case Nil
  show ?case by (intro exI [of _ "ip_id p"]) simp
next
  case (Cons f fs v vs)
  let ?p = "p\<lparr>ip_id := if f = ''id'' then Some (escapeSingleQuotes v) else ip_id p, ip_columns := ip_columns p @ [in_quotes f],
    ip_values := ip_values p @ [quoted (escapeSingleQuotes v)]\<rparr>"
  have "\<not> has_prefix timestampPrefix f" using Cons(1) has_prefix_timestamp [of f] by (auto simp: plain_column_def)
  then have "insert_items table (f # fs) (v # vs) p = insert_items table fs vs ?p"
    using Cons(1) by (simp add: plain_column_def insert_value_def insert_column_def)
  moreover obtain i where "i = None \<longleftrightarrow> ip_id ?p = None \<and> ''id'' \<notin> set fs" "insert_items table fs vs ?p =
      Inr (?p\<lparr>ip_columns := ip_columns ?p @ map in_quotes fs, ip_values := ip_values ?p @ map (\<lambda>v. quoted (escapeSingleQuotes v)) vs, ip_id := i\<rparr>)"
    using Cons(3) [of ?p] by blast
  ultimately show ?case by (intro exI [of _ i]) auto
qed

lemma escape_plain: "CHR 0x27 \<notin> set v \<Longrightarrow> escapeSingleQuotes v = v"
  by (induction v) auto

lemma escape_show_int: "escapeSingleQuotes (show_int i) = show_int i"
proof -
  have "CHR 0x27 \<notin> set (show_nat n)" for n using show_nat_digits [of n] by (auto simp: list_all_iff is_digit_def)
  then show ?thesis by (intro escape_plain) (simp add: show_int_def)
qed

lemma bind_ret_db [simp]: "bind_db (ret_db (Inr x)) k = k x"
  by (simp add: fun_eq_iff bind_db_def ret_db_def)

lemma bind_bind_db: "bind_db (bind_db m f) g = bind_db m (\<lambda>x. bind_db (f x) g)"
  by (simp add: fun_eq_iff bind_db_def split: prod.split sum.split)

lemma bind_db_run: "m w = (Inr x, w1) \<Longrightarrow> bind_db m k w = k x w1"
  by (simp add: bind_db_def)

text \<open>The statement that an insertion without conditions gives to the database.\<close>

lemma do_insert_statement:
  assumes "do_insert env t flds values None w = (Inr (cost, tableID, info), w')"
    and "insert_items (st_table t) flds values \<lparr>ip_columns = [], ip_values = [], ip_json = [], ip_id = None\<rparr> = Inr p0"
  shows "\<exists>p. w' = snd (db_exec env (insert_query (st_table t) p) w) \<and>
    (case ip_id p0 of
       Some i \<Rightarrow> p = insert_json env p0 \<and> tableID = i
     | None \<Rightarrow> p = (insert_json env p0)\<lparr>ip_columns := ip_columns (insert_json env p0) @ [''id''], ip_values := ip_values (insert_json env p0) @ [quoted tableID]\<rparr> \<and>
         (\<exists>i. tableID = show_int i))"
proof -
  have run: "w' = snd (db_exec env q w) \<and> ti = tableID" if "bind_db (query_cost env q) (\<lambda>c. bind_db (log_error (db_exec env q)) (\<lambda>_. ret_db (Inr (c, ti, [])))) w =
      (Inr (cost, tableID, info), w')" for q ti
    using that by (auto simp: bind_db_def query_cost_def log_error_def ret_db_def split: prod.splits sum.splits go_exc.splits)
  have id: "ip_id (insert_json env p0) = ip_id p0" by (simp add: insert_json_def Let_def)
  show ?thesis
  proof (cases "ip_id p0")
    case None
    then obtain n where n: "GetNextID env (st_table t) w = (Inr n, w)"
      using assms by (cases "fst (GetNextID env (st_table t) w)") (auto simp: do_insert_def id bind_db_def GetNextID_def)
    let ?p = "(insert_json env p0)\<lparr>ip_columns := ip_columns (insert_json env p0) @ [''id''],
      ip_values := ip_values (insert_json env p0) @ [quoted (show_int (sint n))]\<rparr>"
    have "bind_db (query_cost env (insert_query (st_table t) ?p)) (\<lambda>c. bind_db (log_error (db_exec env (insert_query (st_table t) ?p)))
        (\<lambda>_. ret_db (Inr (c, show_int (sint n), [])))) w = (Inr (cost, tableID, info), w')"
      using assms None by (simp add: do_insert_def id Let_def bind_bind_db bind_db_run [where m = "GetNextID env (st_table t)", OF n])
    from run [OF this] None show ?thesis by auto
  next
    case (Some i)
    then have "bind_db (query_cost env (insert_query (st_table t) (insert_json env p0))) (\<lambda>c. bind_db (log_error (db_exec env (insert_query (st_table t) (insert_json env p0))))
        (\<lambda>_. ret_db (Inr (c, i, [])))) w = (Inr (cost, tableID, info), w')"
      using assms by (simp add: do_insert_def id)
    from run [OF this] Some show ?thesis by auto
  qed
qed


definition sample_injection :: string where
  "sample_injection = ''x'' @ [CHR 0x27] @ ''); DROP TABLE blocks; --''"

definition sample_dbenv :: "string list dbenv" where
  "sample_dbenv =
     \<lparr>db_row = (\<lambda>q w. Inr [(''id'', ''41'')]), db_exec = (\<lambda>q w. (Inr (), w @ [q])), db_count = (\<lambda>t w. Inr 100),
      db_rollback = (\<lambda>r w. (Inr (), w)), db_lower = (\<lambda>r. r), db_sprint = (\<lambda>v. case v of VString s \<Rightarrow> s | _ \<Rightarrow> []),
      db_json = (\<lambda>_. Inr ''{}''), db_json_map = (\<lambda>_. ''{}''), db_float = (\<lambda>_. ''0''), db_order = (\<lambda>cs. cs)\<rparr>"

lemma quote_char: "Quote = [CHR 0x22]" by code_simp

lemma sample_next_id: "GetNextID sample_dbenv t w = (Inr 42, w)" "show_int 42 = ''42''"
proof -
  have id: "''41'' = show_int 41" and "show_int 42 = ''42''"
    by (simp_all add: show_int_def show_nat.simps digit_char_def char_of_def bit_Suc_0_iff)
  then show "show_int 42 = ''42''" by simp
  have "StrToInt64 ''41'' = 41" unfolding StrToInt64_def id by (simp add: ParseInt_show_int min_int64_def max_int64_def)
  then show "GetNextID sample_dbenv t w = (Inr 42, w)" by (simp add: GetNextID_def sample_dbenv_def)
qed

lemma ascii_join: "list_all ascii vs \<Longrightarrow> ascii (join '','' vs)"
  by (induction vs rule: induct_list012) simp_all

lemma sample_insert_cost:
  assumes "list_all ascii (ip_columns p)" "list_all ascii (ip_values p)" "is_word (in_quotes table)" "map lower_char (in_quotes table) = in_quotes table"
    and "str_index ''('' (in_quotes table) = None"
  shows "query_cost sample_dbenv (insert_query table p) w = (Inr InsertCost, w)"
proof -
  let ?rest = "''('' @ join '','' (ip_columns p) @ '') VALUES ('' @ join '','' (ip_values p) @ '')''"
  have q: "insert_query table p = ''INSERT INTO '' @ in_quotes table @ '' '' @ ?rest"
    by (simp add: insert_query_def)
  have "ascii ?rest" "?rest \<noteq> []" "\<not> space_char (last ?rest)" using ascii_join assms by (simp_all add: IsSpace_def)
  then show ?thesis unfolding query_cost_def q
    by (subst insert_cost) (use assms in simp_all, simp add: sample_dbenv_def)
qed

lemma sample_insert:
  assumes "insert_items (st_table t) flds values \<lparr>ip_columns = [], ip_values = [], ip_json = [], ip_id = None\<rparr> = Inr p"
    and "ip_json p = []" "ip_id p = None" "list_all ascii (ip_columns p)" "list_all ascii (ip_values p)"
    and "is_word (in_quotes (st_table t))" "map lower_char (in_quotes (st_table t)) = in_quotes (st_table t)" "str_index ''('' (in_quotes (st_table t)) = None"
  shows "\<exists>w'. do_insert sample_dbenv t flds values None w = (Inr (InsertCost, ''42'', []), w')"
proof -
  have j: "insert_json sample_dbenv p = p" using assms(2) by (simp add: insert_json_def sample_dbenv_def)
  have e: "log_error (db_exec sample_dbenv q) w = (Inr (), w @ [q])" for q w by (simp add: log_error_def sample_dbenv_def)
  let ?p = "p\<lparr>ip_columns := ip_columns p @ [''id''], ip_values := ip_values p @ [quoted ''42'']\<rparr>"
  have "query_cost sample_dbenv (insert_query (st_table t) ?p) w = (Inr InsertCost, w)" for w
    by (rule sample_insert_cost) (use assms in \<open>simp_all add: quoted_def\<close>)
  then show ?thesis
    by (simp add: do_insert_def assms(1,3) j Let_def bind_bind_db bind_db_run [where m = "GetNextID sample_dbenv (st_table t)", OF sample_next_id(1)] sample_next_id(2)) (simp add: bind_db_def e ret_db_def)
qed


section \<open>What the database does not keep\<close>

text \<open>The value of a column with a sign goes into the statement without quotes: it may name further columns.\<close>

lemma plus_value_unquoted:
  assumes "CHR 0x27 \<notin> set v" "v \<noteq> []" "last v \<noteq> CHR '',''" "db_order env [] = []"
  shows "update_set env True ''1_keys'' [''+amount'', ''ecosystem''] [v, e] logData = Inr (''amount=amount+'' @ v)"
proof -
  have "trim_right '','' (xs @ v @ '','') = xs @ v" for xs
    using assms(2,3) by (cases v rule: rev_cases) (simp_all add: trim_right_def)
  from this [of "''amount=amount+''"] show ?thesis
    using assms by (simp add: update_set_def update_item_def IsByteColumn_def escape_plain)
qed

text \<open>
  An error of the database is not reported: the parts of an insertion do not depend on the execution of the statement, and
  what they return only on whether the execution panics.
\<close>

lemma env_exec [simp]:
  "prepare_values (env\<lparr>db_exec := f\<rparr>) table flds vals = prepare_values env table flds vals"
  "InterfaceSliceToStr (env\<lparr>db_exec := f\<rparr>) vals = InterfaceSliceToStr env vals"
  "insert_json (env\<lparr>db_exec := f\<rparr>) p = insert_json env p"
  "GetNextID (env\<lparr>db_exec := f\<rparr>) table = GetNextID env table"
  "query_cost (env\<lparr>db_exec := f\<rparr>) q = query_cost env q"
  "sql_target (env\<lparr>db_exec := f\<rparr>) flds vals table b = sql_target env flds vals table b"
  "where_clause (env\<lparr>db_exec := f\<rparr>) k e c = where_clause env k e c"
proof -
  show "prepare_values (env\<lparr>db_exec := f\<rparr>) table flds vals = prepare_values env table flds vals"
    by (induction vals arbitrary: flds) simp_all
  have "InterfaceToStr (env\<lparr>db_exec := f\<rparr>) v = InterfaceToStr env v" for v
    by (cases v) (simp_all add: InterfaceToStr_def)
  then show "InterfaceSliceToStr (env\<lparr>db_exec := f\<rparr>) vals = InterfaceSliceToStr env vals" by (induction vals) simp_all
  show "GetNextID (env\<lparr>db_exec := f\<rparr>) table = GetNextID env table" "query_cost (env\<lparr>db_exec := f\<rparr>) q = query_cost env q"
    by (intro ext, simp add: GetNextID_def query_cost_def)+
qed (simp_all add: insert_json_def sql_target_def where_clause_def Let_def split: option.split)

lemma fst_bind_db: "(\<And>x w. fst (k x w) = fst (k' x w)) \<Longrightarrow> fst (bind_db m k w) = fst (bind_db m k' w)"
  by (simp add: bind_db_def split: prod.splits sum.splits)

definition no_panic_exec :: "(string \<Rightarrow> ('w, unit) db) \<Rightarrow> bool" where
  "no_panic_exec f \<longleftrightarrow> (\<forall>q w. case fst (f q w) of Inl (Error e) \<Rightarrow> True | Inr _ \<Rightarrow> True | _ \<Rightarrow> False)"

lemma log_error_ok: "no_panic_exec f \<Longrightarrow> \<exists>w'. log_error (f q) w = (Inr (), w')"
  unfolding no_panic_exec_def log_error_def
  by (drule spec [of _ q], drule spec [of _ w]) (auto split: prod.splits sum.splits go_exc.splits)

lemma fst_log_error:
  assumes "no_panic_exec f" "no_panic_exec g"
  shows "fst (bind_db (log_error (f q)) (\<lambda>_. ret_db r) w) = fst (bind_db (log_error (g q)) (\<lambda>_. ret_db r) w)"
  using log_error_ok [OF assms(1), of q w] log_error_ok [OF assms(2), of q w] by (auto simp: bind_db_def ret_db_def)

lemma do_insert_exec:
  assumes "no_panic_exec f" "no_panic_exec g"
  shows "fst (do_insert (env\<lparr>db_exec := f\<rparr>) t flds vals cond w) = fst (do_insert (env\<lparr>db_exec := g\<rparr>) t flds vals cond w)"
  unfolding do_insert_def env_exec dbenv.simps
  by (intro fst_bind_db) (auto intro!: fst_bind_db fst_log_error [OF assms] split: prod.splits)

text \<open>
  A failed insertion is not reported. When no rollback is recorded (in a virtual dedicated ecosystem, or
  without a block), an insertion returns the same price, id or error whatever the database answers to the \<open>INSERT\<close>: a
  contract goes on as if the row were there.
\<close>

theorem insert_error_lost:
  assumes "no_panic_exec f" "no_panic_exec g" "sd_VDE sc \<or> \<not> sd_Rollback sc"
  shows "fst (sc_insert (env\<lparr>db_exec := f\<rparr>) sc flds vals table w) = fst (sc_insert (env\<lparr>db_exec := g\<rparr>) sc flds vals table w)"
proof -
  have "fst (bind_db (do_insert (env\<lparr>db_exec := f\<rparr>) t fl vl None) (\<lambda>(c, i, info). ret_db (Inr (s + c, i))) w) =
      fst (bind_db (do_insert (env\<lparr>db_exec := g\<rparr>) t fl vl None) (\<lambda>(c, i, info). ret_db (Inr (s + c, i))) w)" for t fl vl s w
    using do_insert_exec [OF assms(1,2), of env t fl vl None w]
    by (auto simp: bind_db_def ret_db_def split: prod.splits sum.splits)
  then show ?thesis
    using assms(3) unfolding sc_insert_def selectiveLoggingAndUpd_def env_exec dbenv.simps Let_def
    by (auto intro!: fst_bind_db)
qed

theorem insert_error_lost_witness:
  "no_panic_exec (\<lambda>q w. (Inl (Error ''disk full''), w)) \<and> no_panic_exec (db_exec sample_dbenv) \<and>
   fst (sc_insert (sample_dbenv\<lparr>db_exec := \<lambda>q w. (Inl (Error ''disk full''), w)\<rparr>) \<lparr>sd_VDE = True, sd_Rollback = True, sd_BlockID = None, sd_TxHash = []\<rparr>
       [''title''] [VString ''a''] ''1_notes'' []) =
   fst (sc_insert sample_dbenv \<lparr>sd_VDE = True, sd_Rollback = True, sd_BlockID = None, sd_TxHash = []\<rparr> [''title''] [VString ''a''] ''1_notes'' [])"
proof -
  have "no_panic_exec (\<lambda>q w. (Inl (Error ''disk full''), w))" "no_panic_exec (db_exec sample_dbenv)"
    by (simp_all add: no_panic_exec_def sample_dbenv_def)
  from insert_error_lost [OF this, of "\<lparr>sd_VDE = True, sd_Rollback = True, sd_BlockID = None, sd_TxHash = []\<rparr>" sample_dbenv
      "[''title'']" "[VString ''a'']" "''1_notes''" "[]"] this show ?thesis by simp
qed

end
