(* ===== verification/Contract_Query.thy ===== *)
theory Contract_Query
  imports Contract_DB
begin

text \<open>
  The parts of a query that contracts give as values, \<open>packages/smart/funcs.go\<close>: the list of columns (\<open>GetColumns\<close>, \<open>PrepareColumns\<close>),
  the order (\<open>GetOrder\<close>) and the condition (\<open>GetWhere\<close>, \<open>PrepareWhere\<close>) become texts of SQL.
\<close>

section \<open>Columns\<close>

fun check_now_all :: "(rune \<Rightarrow> rune) \<Rightarrow> string list \<Rightarrow> unit res" where
  "check_now_all u [] = Inr ()"
| "check_now_all u (s # ss) = bind_res (checkNow u s) (\<lambda>_. check_now_all u ss)"

text \<open>The strings among the elements of a value that is an array.\<close>

fun strings_of :: "val list \<Rightarrow> string list" where
  "strings_of [] = []"
| "strings_of (VString s # vs) = s # strings_of vs"
| "strings_of (v # vs) = strings_of vs"

definition heap_items :: "heap \<Rightarrow> ref \<Rightarrow> nat \<Rightarrow> val list res" where
  "heap_items h r n = bind_res (heap_arr h r) (\<lambda>xs. Inr (take n xs))"

definition GetColumns :: "'w dbenv \<Rightarrow> heap \<Rightarrow> val \<Rightarrow> string list res" where
  "GetColumns env h inColumns =
     bind_res (case inColumns of
                 VString s \<Rightarrow> Inr (if s = [] then [] else str_split (CHR '','') s)
               | VArr r n \<Rightarrow> bind_res (heap_items h r n) (\<lambda>vs. Inr (strings_of vs))
               | _ \<Rightarrow> Inr []) (\<lambda>cols.
       let cols = map (\<lambda>c. Sanitize (ToLower (db_lower env) c) ''*->'') (if cols = [] then [''*''] else cols)
       in bind_res (check_now_all (db_lower env) cols) (\<lambda>_. Inr cols))"

text \<open>\<open>strings.Split(s, "->")\<close>.\<close>

fun split_arrows :: "string \<Rightarrow> string \<Rightarrow> string list" where
  "split_arrows w [] = [w]"
| "split_arrows w [c] = [w @ [c]]"
| "split_arrows w (c # d # s) =
     (if c = CHR ''-'' \<and> d = CHR ''>'' then w # split_arrows [] s else split_arrows (w @ [c]) (d # s))"

definition prepare_column :: "string \<Rightarrow> string" where
  "prepare_column icol =
     (if str_contains icol ''->'' then
        (case split_arrows [] icol of
           [c, k] \<Rightarrow> c @ ''::jsonb->>'' @ quoted k @ '' as '' @ in_quotes (c @ ''.'' @ k)
         | c # ks \<Rightarrow> c @ ''::jsonb#>>'' @ quoted (''{'' @ join '','' ks @ ''}'') @ '' as '' @ in_quotes (c @ ''.'' @ join ''.'' ks)
         | [] \<Rightarrow> [])
      else if list_ex (\<lambda>c. c \<in> set '':*>'' \<or> [c] = Quote) icol then icol
      else in_quotes icol)"

definition PrepareColumns :: "string list \<Rightarrow> string" where
  "PrepareColumns cols = join '','' (map prepare_column cols)"

section \<open>Order\<close>

text \<open>One key of the order; \<open>v\<close> is the direction, \<open>None\<close> for a string (\<open>fmt.Sprint(nil)\<close> is neither 1 nor -1).\<close>

definition order_item :: "'w dbenv \<Rightarrow> string \<Rightarrow> val option \<Rightarrow> string list" where
  "order_item env key v =
     (let s = Sanitize (ToLower (db_lower env) key) [] in
      if s = [] then []
      else [in_quotes s @ (case v of None \<Rightarrow> [] | Some d \<Rightarrow>
              if db_sprint env d = ''-1'' then '' desc'' else if db_sprint env d = ''1'' then '' asc'' else [])])"

text \<open>
  The items of a map: those of a \<open>types.Map\<close> in the order of its keys, those of a Go map in the order of the runtime. A nil
  pointer to a \<open>types.Map\<close> panics in \<open>Keys\<close>.
\<close>

fun map_pairs :: "val Map \<Rightarrow> string list \<Rightarrow> (string \<times> val) list" where
  "map_pairs m [] = []"
| "map_pairs m (k # ks) = (k, case Map_Get m k of Some v \<Rightarrow> v | None \<Rightarrow> VNil) # map_pairs m ks"

definition Map_items :: "val Map \<Rightarrow> (string \<times> val) list res" where
  "Map_items m = bind_res (Map_Keys m) (\<lambda>ks. Inr (map_pairs m ks))"

definition any_items :: "'w dbenv \<Rightarrow> (string \<times> val) list \<Rightarrow> (string \<times> val) list" where
  "any_items env m = map (\<lambda>k. (k, case map_of m k of Some v \<Rightarrow> v | None \<Rightarrow> VNil)) (db_order env (map fst m))"

definition order_map :: "'w dbenv \<Rightarrow> heap \<Rightarrow> val \<Rightarrow> string list res" where
  "order_map env h v =
     (case v of
        VMap None \<Rightarrow> Inl nil_deref
      | VMap (Some r) \<Rightarrow> bind_res (heap_map h r) (\<lambda>m. bind_res (Map_items m) (\<lambda>ps. Inr (concat (map (\<lambda>(k, d). order_item env k (Some d)) ps))))
      | VAnyMap m \<Rightarrow> Inr (concat (map (\<lambda>(k, d). order_item env k (Some d)) (any_items env m)))
      | VString s \<Rightarrow> Inr (order_item env s None)
      | _ \<Rightarrow> Inr [])"

fun order_list :: "'w dbenv \<Rightarrow> heap \<Rightarrow> val list \<Rightarrow> string list res" where
  "order_list env h [] = Inr []"
| "order_list env h (v # vs) = bind_res (order_map env h v) (\<lambda>xs. bind_res (order_list env h vs) (\<lambda>ys. Inr (xs @ ys)))"

definition GetOrder :: "'w dbenv \<Rightarrow> heap \<Rightarrow> val \<Rightarrow> string res" where
  "GetOrder env h inOrder =
     bind_res (case inOrder of
                 VArr r n \<Rightarrow> bind_res (heap_items h r n) (order_list env h)
               | v \<Rightarrow> order_map env h v) (\<lambda>orders.
       let orders = (if orders = [] then [''id''] else orders)
       in bind_res (check_now_all (db_lower env) orders) (\<lambda>_. Inr (join '','' orders)))"

section \<open>Conditions\<close>

text \<open>
  \<open>PrepareWhere\<close> replaces the matches of \<open>->([\w\d_]+)\<close>: a single one by \<open>->>'field'\<close>, a chain of adjacent ones by a path.
\<close>

definition word_char :: "char \<Rightarrow> bool" where
  "word_char c \<longleftrightarrow> is_digit c \<or> is_lower c \<or> is_upper c \<or> c = CHR ''_''"

function arrow_chain :: "string \<Rightarrow> string list \<times> string" where
  "arrow_chain s =
     (let w = takeWhile word_char (drop 2 s) in
      if has_prefix ''->'' s \<and> w \<noteq> []
      then (case arrow_chain (drop (2 + length w) s) of (ws, rest) \<Rightarrow> (w # ws, rest))
      else ([], s))"
  by pat_completeness auto
termination
proof (relation "measure length")
  fix s w
  assume "w = takeWhile word_char (drop 2 s)" "has_prefix ''->'' s \<and> w \<noteq> []"
  then have "s \<noteq> []" by (auto simp: has_prefix_def)
  then show "(drop (2 + length w) s, s) \<in> measure length" by (cases s) auto
qed simp

declare arrow_chain.simps [simp del]

lemma arrow_chain_length: "arrow_chain s = (ws, rest) \<Longrightarrow> length rest \<le> length s \<and> (ws \<noteq> [] \<longrightarrow> length rest < length s)"
proof (induction s arbitrary: ws rest rule: arrow_chain.induct)
  case (1 s)
  let ?w = "takeWhile word_char (drop 2 s)"
  show ?case
  proof (cases "has_prefix ''->'' s \<and> ?w \<noteq> []")
    case True
    obtain ws' r' where r: "arrow_chain (drop (2 + length ?w) s) = (ws', r')" by fastforce
    from 1(1) [OF refl True r] have "length r' \<le> length (drop (2 + length ?w) s)" by simp
    moreover have "0 < length s" using True by auto
    ultimately have "length r' < length s" unfolding length_drop by linarith
    then show ?thesis using 1(2) True r by (auto simp: arrow_chain.simps [of s] Let_def)
  next
    case False
    then show ?thesis using 1(2) by (auto simp: arrow_chain.simps [of s] Let_def)
  qed
qed

function PrepareWhere :: "string \<Rightarrow> string" where
  "PrepareWhere s =
     (case arrow_chain s of
        ([], _) \<Rightarrow> (case s of [] \<Rightarrow> [] | c # t \<Rightarrow> c # PrepareWhere t)
      | ([w], rest) \<Rightarrow> ''->>'' @ quoted w @ PrepareWhere rest
      | (ws, rest) \<Rightarrow> ''::jsonb#>>'' @ quoted (''{'' @ join '','' ws @ ''}'') @ PrepareWhere rest)"
  by pat_completeness auto
termination
  by (relation "measure length") (auto dest: arrow_chain_length [OF sym])

declare PrepareWhere.simps [simp del]

definition where_key :: "'w dbenv \<Rightarrow> string \<Rightarrow> string" where
  "where_key env key = PrepareWhere (Sanitize (ToLower (db_lower env) key) ''->$'')"

definition escape :: "'w dbenv \<Rightarrow> val \<Rightarrow> string" where
  "escape env v = escapeSingleQuotes (db_sprint env v)"

text \<open>
  Maps may contain themselves: \<open>None\<close> is a recursion deeper than the bound. \<open>rec\<close> is the condition of an inner map.
\<close>

definition bind_ores :: "'a res option \<Rightarrow> ('a \<Rightarrow> 'b res option) \<Rightarrow> 'b res option" where
  "bind_ores m f = (case m of None \<Rightarrow> None | Some (Inl e) \<Rightarrow> Some (Inl e) | Some (Inr x) \<Rightarrow> f x)"

text \<open>\<open>*types.Map\<close> values: a nil pointer is the empty map.\<close>

definition map_val :: "heap \<Rightarrow> val \<Rightarrow> val Map res option" where
  "map_val h v =
     (case v of
        VMap None \<Rightarrow> Some (Inr NewMap)
      | VMap (Some r) \<Rightarrow> Some (heap_map h r)
      | _ \<Rightarrow> None)"

fun logic_list :: "(val Map \<Rightarrow> string res option) \<Rightarrow> heap \<Rightarrow> val list \<Rightarrow> string list res option" where
  "logic_list rec h [] = Some (Inr [])"
| "logic_list rec h (v # vs) =
     (case map_val h v of
        None \<Rightarrow> logic_list rec h vs
      | Some m \<Rightarrow> bind_ores (bind_ores (Some m) rec) (\<lambda>s. bind_ores (logic_list rec h vs) (\<lambda>ss. Some (Inr (s # ss)))))"

definition where_logic :: "(val Map \<Rightarrow> string res option) \<Rightarrow> heap \<Rightarrow> string \<Rightarrow> val \<Rightarrow> string res option" where
  "where_logic rec h action v =
     (case v of
        VArr r n \<Rightarrow> bind_ores (Some (heap_items h r n)) (\<lambda>vs. bind_ores (logic_list rec h vs) (\<lambda>ss.
          Some (Inr (if ss = [] then [] else ''('' @ join ('' '' @ action @ '' '') ss @ '')''))))
      | _ \<Rightarrow> Some (Inr []))"

definition where_in :: "'w dbenv \<Rightarrow> heap \<Rightarrow> string \<Rightarrow> val \<Rightarrow> string res" where
  "where_in env h action v =
     (case v of
        VArr r n \<Rightarrow> bind_res (heap_items h r n) (\<lambda>vs.
          Inr (if vs = [] then [] else action @ '' ('' @ join '', '' (map (\<lambda>x. quoted (escape env x)) vs) @ '')''))
      | _ \<Rightarrow> Inr [])"

definition where_oper :: "'w dbenv \<Rightarrow> string \<Rightarrow> val \<Rightarrow> string" where
  "where_oper env action v = action @ '' '' @ quoted (escape env v)"

text \<open>The keys that are operators; the answer is the whole condition.\<close>

definition where_operator :: "'w dbenv \<Rightarrow> (val Map \<Rightarrow> string res option) \<Rightarrow> heap \<Rightarrow> string \<Rightarrow> val \<Rightarrow> string res option option" where
  "where_operator env rec h key v =
     (if key = ''$like'' then Some (Some (Inr (''like '' @ quoted (''%'' @ escape env v @ ''%''))))
      else if key = ''$end'' then Some (Some (Inr (''like '' @ quoted (''%'' @ escape env v))))
      else if key = ''$begin'' then Some (Some (Inr (''like '' @ quoted (escape env v @ ''%''))))
      else if key = ''$and'' then Some (where_logic rec h ''and'' v)
      else if key = ''$or'' then Some (where_logic rec h ''or'' v)
      else if key = ''$in'' then Some (Some (where_in env h ''in'' v))
      else if key = ''$nin'' then Some (Some (where_in env h ''not in'' v))
      else if key = ''$eq'' then Some (Some (Inr (where_oper env ''='' v)))
      else if key = ''$neq'' then Some (Some (Inr (where_oper env ''!='' v)))
      else if key = ''$gt'' then Some (Some (Inr (where_oper env ''>'' v)))
      else if key = ''$gte'' then Some (Some (Inr (where_oper env ''>='' v)))
      else if key = ''$lt'' then Some (Some (Inr (where_oper env ''<'' v)))
      else if key = ''$lte'' then Some (Some (Inr (where_oper env ''<='' v)))
      else None)"

text \<open>
  The elements of an array: maps are conditions on the column; for any other element the column is compared with the text of
  the whole array \<open>v\<close>.
\<close>

fun array_conds :: "'w dbenv \<Rightarrow> (val Map \<Rightarrow> string res option) \<Rightarrow> heap \<Rightarrow> string \<Rightarrow> val \<Rightarrow> val list \<Rightarrow> string list res option" where
  "array_conds env rec h key v [] = Some (Inr [])"
| "array_conds env rec h key v (x # xs) =
     bind_ores (case map_val h x of
                  Some m \<Rightarrow> bind_ores (bind_ores (Some m) rec) (\<lambda>s. Some (Inr (''('' @ key @ '' '' @ s @ '')'')))
                | None \<Rightarrow> Some (Inr (key @ '' = '' @ quoted (escape env v)))) (\<lambda>c.
       bind_ores (array_conds env rec h key v xs) (\<lambda>cs. Some (Inr (c # cs))))"

definition where_column :: "string \<Rightarrow> string" where
  "where_column key = (if CHR ''>'' \<notin> set key \<and> key \<noteq> [] then in_quotes key else key)"

definition where_cond :: "'w dbenv \<Rightarrow> (val Map \<Rightarrow> string res option) \<Rightarrow> heap \<Rightarrow> string \<Rightarrow> val \<Rightarrow> string list res option" where
  "where_cond env rec h key v =
     (case v of
        VArr r n \<Rightarrow>
          bind_ores (Some (heap_items h r n)) (\<lambda>xs. bind_ores (array_conds env rec h key v xs) (\<lambda>cs.
            Some (Inr (if cs = [] then [] else [''('' @ join '' and '' cs @ '')'']))))
      | VMap _ \<Rightarrow>
          (case map_val h v of
             Some m \<Rightarrow> bind_ores (bind_ores (Some m) rec) (\<lambda>s. Some (Inr [''('' @ key @ '' '' @ s @ '')'']))
           | None \<Rightarrow> Some (Inr []))
      | _ \<Rightarrow>
          let ival = escape env v in
          Some (Inr [if ival = ''$isnull'' then key @ '' is null'' else key @ '' = '' @ quoted ival]))"

fun where_loop :: "'w dbenv \<Rightarrow> (val Map \<Rightarrow> string res option) \<Rightarrow> heap \<Rightarrow> (string \<times> val) list \<Rightarrow> string list \<Rightarrow> string res option" where
  "where_loop env rec h [] cond =
     Some (if cond = [] then Inr []
           else let s = join '' and '' cond in bind_res (checkNow (db_lower env) s) (\<lambda>_. Inr s))"
| "where_loop env rec h ((k, v) # ps) cond =
     (let key = where_key env k in
      case where_operator env rec h key v of
        Some r \<Rightarrow> r
      | None \<Rightarrow> bind_ores (where_cond env rec h (where_column key) v) (\<lambda>cs. where_loop env rec h ps (cond @ cs)))"

fun GetWhere :: "'w dbenv \<Rightarrow> heap \<Rightarrow> nat \<Rightarrow> val Map \<Rightarrow> string res option" where
  "GetWhere env h 0 m = None"
| "GetWhere env h (Suc n) m = bind_ores (Some (Map_items m)) (\<lambda>ps. where_loop env (GetWhere env h n) h ps [])"

section \<open>Conditions of columns\<close>

definition operator_keys :: "string list" where
  "operator_keys = [''$like'', ''$end'', ''$begin'', ''$and'', ''$or'', ''$in'', ''$nin'', ''$eq'', ''$neq'', ''$gt'', ''$gte'', ''$lt'', ''$lte'']"

text \<open>A pair that compares a column with a value.\<close>

definition plain_cond :: "'w dbenv \<Rightarrow> string \<times> val \<Rightarrow> bool" where
  "plain_cond env p \<longleftrightarrow>
     (case p of (k, v) \<Rightarrow> where_key env k \<notin> set operator_keys \<and> escape env v \<noteq> ''$isnull'' \<and>
        (case v of VArr _ _ \<Rightarrow> False | VMap _ \<Rightarrow> False | _ \<Rightarrow> True))"

definition equals_cond :: "'w dbenv \<Rightarrow> string \<times> val \<Rightarrow> string" where
  "equals_cond env p = where_column (where_key env (fst p)) @ '' = '' @ quoted (escape env (snd p))"

lemma where_loop_plain:
  "list_all (plain_cond env) ps \<Longrightarrow> where_loop env rec h (ps @ qs) cond = where_loop env rec h qs (cond @ map (equals_cond env) ps)"
proof (induction ps arbitrary: cond)
  case (Cons p ps)
  obtain k v where p: "p = (k, v)" by fastforce
  have o: "where_operator env rec h (where_key env k) v = None"
    using Cons.prems p by (simp add: plain_cond_def where_operator_def operator_keys_def)
  have c: "where_cond env rec h (where_column (where_key env k)) v = Some (Inr [equals_cond env p])"
    using Cons.prems p by (cases v) (simp_all add: plain_cond_def where_cond_def equals_cond_def)
  show ?case using Cons o c p by (simp add: Let_def bind_ores_def)
qed simp

text \<open>The condition of a map of columns and values: every value is a literal that the database reads back as the text of the value.\<close>

lemma where_values_read_back:
  assumes "Map_items m = Inr ps" "ps \<noteq> []" "list_all (plain_cond env) ps" "GetWhere env h (Suc n) m = Some (Inr s)"
  shows "s = join '' and '' (map (equals_cond env) ps)"
    and "ends_literal r \<Longrightarrow> sql_literal (quoted (escape env v) @ r) = Some (db_sprint env v, r)"
proof -
  show "s = join '' and '' (map (equals_cond env) ps)"
    using assms where_loop_plain [OF assms(3), of "GetWhere env h n" h "[]" "[]"]
    by (cases "checkNow (db_lower env) (join '' and '' (map (equals_cond env) ps))") (simp_all add: bind_ores_def Let_def)
  show "ends_literal r \<Longrightarrow> sql_literal (quoted (escape env v) @ r) = Some (db_sprint env v, r)"
    unfolding escape_def by (rule sql_literal_escaped)
qed

text \<open>A key that is an operator ends the loop: what stands beside it in the map, before and behind, is not part of the condition.\<close>

lemma operator_discards_conditions:
  assumes "Map_items m = Inr (ps @ (k, v) # qs)" "list_all (plain_cond env) ps" "where_key env k = ''$or''"
  shows "GetWhere env h (Suc n) m = where_logic (GetWhere env h n) h ''or'' v"
  using assms(1,3) by (simp add: bind_ores_def where_loop_plain [OF assms(2)] where_operator_def)

end
