(* ===== verification/Contract_Call.thy ===== *)
theory Contract_Call
  imports Contract_DB Script_Access Block_Check
begin

text \<open>
  The call of a contract by a transaction, \<open>packages/smart/smart.go\<close> and \<open>smart/utils.go\<close>: the parameters of the transaction become
  variables of the contract (\<open>FillTxData\<close>, \<open>getExtend\<close>), the key and the signature are checked (\<open>GetSignedBy\<close>), gas is bought,
  \<open>conditions\<close> and \<open>action\<close> run in the machine (\<open>VMRun\<close>) and the used gas is paid to the node and the commission wallet
  (\<open>payContract\<close>). Keys, system parameters and the ciphers are arguments.
\<close>

section \<open>The data of a transaction\<close>

text \<open>
  A parameter as \<open>msgpack\<close> decodes it: a value, an unsigned integer, or a map with the attributes of a file. The address
  of a \<open>uint64\<close> has no case in \<open>FillTxData\<close>.
\<close>

datatype txparam = PVal val | PUint64 uint64 | PFile "string option" "string option" "bytes option"

definition file_pairs :: "string \<Rightarrow> string \<Rightarrow> bytes \<Rightarrow> (string \<times> val) list" where
  "file_pairs name mime body = [(''Name'', VString name), (''MimeType'', VString mime), (''Body'', VBytes body)]"

text \<open>\<open>NewFile\<close> loads a Go map; \<open>order\<close> is the order in which the runtime iterates over it.\<close>

definition NewFile :: "((string \<times> val) list \<Rightarrow> (string \<times> val) list) \<Rightarrow> val Map" where
  "NewFile order = fold (\<lambda>(k, v) m. Map_Set m k v) (order (file_pairs [] [] [])) NewMap"

definition NewFileFromMap :: "((string \<times> val) list \<Rightarrow> (string \<times> val) list) \<Rightarrow> string option \<Rightarrow> string option \<Rightarrow> bytes option \<Rightarrow> val Map option" where
  "NewFileFromMap order name mime body =
     (case (name, mime, body) of
        (Some n, Some m, Some b) \<Rightarrow> Some (fold (\<lambda>(k, v) m. Map_Set m k v) (file_pairs n m b) (NewFile order))
      | _ \<Rightarrow> None)"

definition getFieldDefaultValue :: "((string \<times> val) list \<Rightarrow> (string \<times> val) list) \<Rightarrow> ltype \<Rightarrow> heap \<Rightarrow> val \<times> heap" where
  "getFieldDefaultValue order t h =
     (case t of
        TBool \<Rightarrow> (VBool False, h)
      | TFloat \<Rightarrow> (VFloat f64_zero, h)
      | TInt \<Rightarrow> (VInt64 0, h)
      | TMoney \<Rightarrow> (VDec (Dec 0 18), h)
      | TString \<Rightarrow> (VString [], h)
      | TBytes \<Rightarrow> (VBytes [], h)
      | TArray \<Rightarrow> (case heap_alloc (HArr []) h of (r, h) \<Rightarrow> (VArr r 0, h))
      | TMap \<Rightarrow> (case heap_alloc (HMap (NewFile order)) h of (r, h) \<Rightarrow> (VMap (Some r), h))
      | TAddress \<Rightarrow> (VNil, h))"

definition field_value :: "((string \<times> val) list \<Rightarrow> (string \<times> val) list) \<Rightarrow> ltype \<Rightarrow> txparam option \<Rightarrow> heap \<Rightarrow> (val \<times> heap) res" where
  "field_value order t p h =
     (case t of
        TBool \<Rightarrow> (case p of Some (PVal (VBool b)) \<Rightarrow> Inr (VBool b, h) | _ \<Rightarrow> Inl (Error ''Invalid bool type''))
      | TFloat \<Rightarrow> (case p of Some (PVal (VFloat x)) \<Rightarrow> Inr (VFloat x, h) | _ \<Rightarrow> Inl (Error ''Invalid float type''))
      | TInt \<Rightarrow>
          (case p of Some (PVal (VInt64 i)) \<Rightarrow> Inr (VInt64 i, h) | Some (PUint64 u) \<Rightarrow> Inr (VInt64 u, h)
           | _ \<Rightarrow> Inl (Error ''Invalid int type''))
      | TMoney \<Rightarrow>
          (case p of Some (PVal (VString s)) \<Rightarrow> bind_res (dec_NewFromString s) (\<lambda>d. Inr (VDec d, h))
           | _ \<Rightarrow> Inl (Error ''Invalid money type''))
      | TString \<Rightarrow> (case p of Some (PVal (VString s)) \<Rightarrow> Inr (VString s, h) | _ \<Rightarrow> Inl (Error ''Invalid string type''))
      | TBytes \<Rightarrow> (case p of Some (PVal (VBytes b)) \<Rightarrow> Inr (VBytes b, h) | _ \<Rightarrow> Inl (Error ''Invalid bytes type''))
      | TArray \<Rightarrow> (case p of Some (PVal (VArr r n)) \<Rightarrow> Inr (VArr r n, h) | _ \<Rightarrow> Inl (Error ''Invalid array type''))
      | TMap \<Rightarrow>
          (case p of
             Some (PFile n m b) \<Rightarrow>
               (case NewFileFromMap order n m b of
                  Some f \<Rightarrow> (case heap_alloc (HMap f) h of (r, h) \<Rightarrow> Inr (VMap (Some r), h))
                | None \<Rightarrow> Inl (Error ''Invalid attrs of file''))
           | _ \<Rightarrow> Inl (Error ''Invalid file type''))
      | TAddress \<Rightarrow> Inr (VNil, h))"

definition field_error :: "string \<Rightarrow> go_exc \<Rightarrow> go_exc" where
  "field_error name e = (case e of Error m \<Rightarrow> Error (''Invalid param '' @ [CHR 0x27] @ name @ [CHR 0x27] @ '': '' @ m) | _ \<Rightarrow> e)"

text \<open>
  A field without a type ends in a panic. The first of two fields with one name is kept, unless the second is optional and
  missing; then the number of fields does not fit.
\<close>

fun fill_fields :: "((string \<times> val) list \<Rightarrow> (string \<times> val) list) \<Rightarrow> FieldInfo list \<Rightarrow> (string \<Rightarrow> txparam option) \<Rightarrow>
    (string \<times> val) list \<Rightarrow> heap \<Rightarrow> ((string \<times> val) list \<times> heap) res" where
  "fill_fields order [] params d h = Inr (d, h)"
| "fill_fields order (f # fs) params d h =
     (case fd_Type f of
        None \<Rightarrow> Inl nil_deref
      | Some t \<Rightarrow>
          if params (fd_Name f) = None \<and> str_contains (fd_Tags f) ''optional''
          then (case getFieldDefaultValue order t h of (v, h) \<Rightarrow> fill_fields order fs params (AList.update (fd_Name f) v d) h)
          else case field_value order t (params (fd_Name f)) h of
            Inl e \<Rightarrow> Inl (field_error (fd_Name f) e)
          | Inr (v, h) \<Rightarrow> fill_fields order fs params (if map_of d (fd_Name f) = None then AList.update (fd_Name f) v d else d) h)"

definition FillTxData :: "((string \<times> val) list \<Rightarrow> (string \<times> val) list) \<Rightarrow> FieldInfo list \<Rightarrow> (string \<Rightarrow> txparam option) \<Rightarrow> heap \<Rightarrow>
    ((string \<times> val) list \<times> heap) res" where
  "FillTxData order fieldInfos params h =
     bind_res (fill_fields order fieldInfos params [] h) (\<lambda>(d, h).
       if length d \<noteq> length fieldInfos then Inl (Error ''Invalid number of parameters'') else Inr (d, h))"

section \<open>The state of a call\<close>

text \<open>The fields of \<open>SmartContract\<close>, \<open>tx.SmartContract\<close> and \<open>Contract\<close> that the call reads and writes.\<close>

record sc_call =
  cc_VDE :: bool
  cc_Rollback :: bool
  cc_ID :: int
  cc_Time :: int64
  cc_EcosystemID :: int64
  cc_KeyID :: int64
  cc_PublicKey :: bytes
  cc_SignedBy :: int64
  cc_MaxSum :: string
  cc_PayOver :: string
  cc_TokenEcosystem :: int64
  cc_TxData :: "(string \<times> val) list"
  cc_TxHash :: bytes
  cc_TxSignature :: bytes
  cc_TxSize :: int64
  cc_PublicKeys :: "bytes list"
  cc_BlockData :: "BlockData option"
  cc_Name :: string
  cc_Owner :: OwnerInfo
  cc_Funcs :: "(string \<times> blockid) list"
  cc_TxCost :: int64
  cc_TxFuel :: int64
  cc_TxUsedCost :: decimal

record key_row =
  key_PublicKey :: bytes
  key_Amount :: string
  key_Maxpay :: string
  key_Deleted :: int64

text \<open>
  \<open>Key.Get\<close> (the zero key when there is none, and whether there is one), the system parameters, the nodes, the keys of this
  node, \<open>crypto.Address\<close> and \<open>crypto.CheckSign\<close>, the text of a date, and the form of an error (\<open>SetVMError\<close>, or the JSON of a \<open>Throw\<close>).
\<close>

record 'w call_env =
  cl_vm :: "'w VM"
  cl_db :: "'w dbenv"
  cl_Key :: "int64 \<Rightarrow> int64 \<Rightarrow> 'w \<Rightarrow> (key_row \<times> bool) res"
  cl_MaxCost :: int64
  cl_Private :: bool
  cl_FuelRate :: "int64 \<Rightarrow> string"
  cl_SizeFuel :: int64
  cl_commission :: int64
  cl_CommissionWallet :: "int64 \<Rightarrow> string"
  cl_Nodes :: "(int64 \<times> bytes) list"
  cl_NodePublic :: "string res"
  cl_Address :: "bytes \<Rightarrow> int64"
  cl_verify :: "bytes \<Rightarrow> bytes \<Rightarrow> bytes \<Rightarrow> bool res"
  cl_date :: "int64 \<Rightarrow> string"
  cl_wrap :: "string \<Rightarrow> string"

definition GuestKey :: string where "GuestKey = ''4544233900443112470''"

section \<open>The variables of the contract\<close>

definition GetContractLimit :: "'w call_env \<Rightarrow> sc_call \<Rightarrow> int64" where
  "GetContractLimit env sc = (if cc_MaxSum sc \<noteq> [] then StrToInt64 (cc_MaxSum sc) else cl_MaxCost env)"

text \<open>The data of the transaction come last: a field with the name of another variable replaces it.\<close>

definition getExtend :: "'w call_env \<Rightarrow> sc_call \<Rightarrow> string \<Rightarrow> val option" where
  "getExtend env sc =
     (let bd = (case cc_BlockData sc of Some b \<Rightarrow> b | None \<Rightarrow> empty_BlockData) in
      [''type'' \<mapsto> VInt (i64 (cc_ID sc)), ''time'' \<mapsto> VInt64 (cc_Time sc), ''ecosystem_id'' \<mapsto> VInt64 (cc_EcosystemID sc),
       ''node_position'' \<mapsto> VInt64 (bd_NodePosition bd), ''block'' \<mapsto> VInt64 (bd_BlockID bd), ''key_id'' \<mapsto> VInt64 (cc_KeyID sc),
       ''block_key_id'' \<mapsto> VInt64 (bd_KeyID bd), ''parent'' \<mapsto> VString [], ''txcost'' \<mapsto> VInt64 (GetContractLimit env sc),
       ''txhash'' \<mapsto> VBytes (cc_TxHash sc), ''result'' \<mapsto> VString [], ''sc'' \<mapsto> VHost ''*smart.SmartContract'' 0,
       ''contract'' \<mapsto> VHost ''*smart.Contract'' 0, ''block_time'' \<mapsto> VInt64 (bd_Time bd), ''original_contract'' \<mapsto> VString [],
       ''this_contract'' \<mapsto> VString [], ''guest_key'' \<mapsto> VString GuestKey] ++ map_of (cc_TxData sc))"

text \<open>\<open>VMRun\<close>: the gas is the variable \<open>txcost\<close>, which gets the gas that is left. \<open>None\<close>: more than the fuel \<open>n\<close> is needed.\<close>

definition VMRun :: "'w call_env \<Rightarrow> nat \<Rightarrow> blockid \<Rightarrow> (string \<Rightarrow> val option) \<Rightarrow> heap \<Rightarrow> 'w \<Rightarrow>
    (string option res \<times> (string \<Rightarrow> val option) \<times> heap \<times> 'w) option" where
  "VMRun env n b ext h w =
     (case (case ext ''txcost'' of Some (VInt64 c) \<Rightarrow> Inr (sint c) | Some _ \<Rightarrow> Inl bad_assert | None \<Rightarrow> Inr (sint (cl_MaxCost env))) of
        Inl e \<Rightarrow> Some (Inl e, ext, h, w)
      | Inr cost \<Rightarrow>
          (case run_block (cl_vm env) n b (RunInit cost ext h w) of
             None \<Rightarrow> None
           | Some (Inl e, s) \<Rightarrow> Some (Inl e, rt_extend s, rt_heap s, rt_world s)
           | Some (Inr (vs, err), s) \<Rightarrow> Some (Inr err, (rt_extend s)(''txcost'' \<mapsto> VInt64 (i64 (rt_cost s))), rt_heap s, rt_world s)))"

section \<open>Who signed\<close>

definition errDelayedContract :: go_exc where "errDelayedContract = Error ''Incorrect delayed contract''"
definition errDiffKeys :: go_exc where "errDiffKeys = Error ''Contract and user public keys are different''"
definition errDeletedKey :: go_exc where "errDeletedKey = Error ''The key is deleted''"
definition errUnknownNodeID :: go_exc where "errUnknownNodeID = Error ''Unknown node id''"
definition errEmptyPublicKey :: go_exc where "errEmptyPublicKey = Error ''Empty public key''"
definition errIncorrectSign :: go_exc where "errIncorrectSign = Error ''Incorrect sign''"
definition errFuelRate :: go_exc where "errFuelRate = Error ''Fuel rate must be greater than 0''"
definition errCurrentBalance :: go_exc where "errCurrentBalance = Error ''Current balance is not enough''"
definition errCommission :: go_exc where "errCommission = Error ''There is not enough money to pay the commission fee''"

definition PubToID :: "'w call_env \<Rightarrow> string \<Rightarrow> int64" where
  "PubToID env hexkey = (if snd (hex_decode hexkey) then cl_Address env (fst (hex_decode hexkey)) else 0)"

definition GetSignedBy :: "'w call_env \<Rightarrow> sc_call \<Rightarrow> bytes \<Rightarrow> int64 res" where
  "GetSignedBy env sc public =
     (if cc_SignedBy sc \<noteq> 0 then
        if cc_Name sc \<notin> {''@1CallDelayedContract'', ''@1NewUser'', ''@1NewBadBlock''} then Inl errDelayedContract
        else bind_res
          (if cl_Nodes env \<noteq> [] then Inr (list_ex (\<lambda>(_, pub). cl_Address env pub = cc_SignedBy sc) (cl_Nodes env))
           else bind_res (cl_NodePublic env) (\<lambda>pub. Inr (PubToID env pub = cc_SignedBy sc)))
          (\<lambda>isNode. if isNode then Inr (cc_SignedBy sc) else Inl errDelayedContract)
      else if public \<noteq> [] \<and> cc_KeyID sc \<noteq> cl_Address env public then Inl errDiffKeys
      else Inr (cc_KeyID sc))"

text \<open>The key that must have signed, and the check of the signature: the wallet and the keys.\<close>

definition check_signer :: "'w call_env \<Rightarrow> sc_call \<Rightarrow> 'w \<Rightarrow> (key_row \<times> bytes list) res" where
  "check_signer env sc w =
     (let public = (if cc_PublicKey sc \<noteq> [] \<and> cc_PublicKey sc \<noteq> bytes_of_string ''null'' then cc_PublicKey sc else []) in
      bind_res (GetSignedBy env sc public) (\<lambda>signedBy.
      bind_res (cl_Key env (cc_EcosystemID sc) signedBy w) (\<lambda>(wallet, _).
      if key_Deleted wallet = 1 then Inl errDeletedKey
      else
        let public = (if key_PublicKey wallet \<noteq> [] then key_PublicKey wallet else public) in
        bind_res (if cc_ID sc = 258
                  then case map_of (cl_Nodes env) (cc_KeyID sc) of None \<Rightarrow> Inl errUnknownNodeID | Some pub \<Rightarrow> Inr pub
                  else Inr public) (\<lambda>public.
        if public = [] then Inl errEmptyPublicKey
        else
          bind_res (CheckSign (cl_verify env) (cc_PublicKeys sc @ [public]) (cc_TxHash sc) (cc_TxSignature sc) False) (\<lambda>good.
            if good then Inr (wallet, cc_PublicKeys sc @ [public]) else Inl errIncorrectSign)))))"

section \<open>The gas\<close>

definition ext_cost :: "(string \<Rightarrow> val option) \<Rightarrow> int64 res" where
  "ext_cost ext = (case ext ''txcost'' of Some (VInt64 c) \<Rightarrow> Inr c | _ \<Rightarrow> Inl bad_assert)"

record pay_terms =
  pt_fuelRate :: decimal
  pt_wallet :: key_row
  pt_fromID :: int64
  pt_TokenEcosystem :: int64
  pt_sizeFuel :: int64
  pt_cost :: int64

definition dec_text :: "string \<Rightarrow> decimal res" where
  "dec_text s = (if s = [] then Inr dec_zero else dec_NewFromString s)"

text \<open>
  What the payment needs: the rate, the wallet that pays (the contract's, or that of the key), and the gas, which is at
  most what the wallet, or its limit \<open>maxpay\<close>, can pay. The price of the contract is always zero. After an error nothing reads
  the ecosystem of the token that was set in the transaction, and it is not recorded.
\<close>

definition payment_terms :: "'w call_env \<Rightarrow> sc_call \<Rightarrow> key_row \<Rightarrow> (string \<Rightarrow> val option) \<Rightarrow> 'w \<Rightarrow> pay_terms res" where
  "payment_terms env sc wallet ext w =
     (let token = (if cc_TokenEcosystem sc = 0 then 1 else cc_TokenEcosystem sc); owner = cc_Owner sc in
      bind_res (dec_NewFromString (cl_FuelRate env token)) (\<lambda>fuelRate.
      if dec_Cmp fuelRate dec_zero \<le> 0 then Inl errFuelRate
      else
      bind_res (if sint (ow_WalletID owner) > 0 then Inr (ow_WalletID owner, ow_TokenID owner, fuelRate)
                else if cc_PayOver sc \<noteq> [] then bind_res (dec_NewFromString (cc_PayOver sc)) (\<lambda>over. Inr (cc_KeyID sc, token, dec_Add fuelRate over))
                else Inr (cc_KeyID sc, token, fuelRate)) (\<lambda>(fromID, token, fuelRate).
      bind_res (cl_Key env token fromID w) (\<lambda>(payWallet, found).
      if \<not> found then Inl errCurrentBalance
      else if sint (ow_WalletID owner) \<le> 0 \<and> key_PublicKey wallet \<noteq> key_PublicKey payWallet \<and> cc_PublicKey sc \<noteq> key_PublicKey payWallet
          \<and> cc_SignedBy sc = 0 then Inl errDiffKeys
      else
      bind_res (dec_text (key_Amount payWallet)) (\<lambda>amount.
      bind_res (dec_text (key_Maxpay payWallet)) (\<lambda>maxpay.
      let amount = (if dec_Cmp maxpay dec_zero > 0 \<and> dec_Cmp maxpay amount < 0 then maxpay else amount);
          sizeFuel = int64_div (cl_SizeFuel env * cc_TxSize sc) 1024
      in
      bind_res (dec_Mul dec_zero fuelRate) (\<lambda>priceCost.
      if dec_Cmp amount priceCost \<le> 0 then Inl errCurrentBalance
      else
      bind_res (dec_Div amount fuelRate) (\<lambda>q.
      let maxCost = dec_Floor q in
      bind_res (ext_cost ext) (\<lambda>c.
        Inr \<lparr>pt_fuelRate = fuelRate, pt_wallet = payWallet, pt_fromID = fromID, pt_TokenEcosystem = token, pt_sizeFuel = sizeFuel,
          pt_cost = (if dec_Cmp maxCost (dec_Add (Dec (sint c) 0) dec_zero) < 0 then StrToInt64 (dec_String maxCost) else c)\<rparr>)))))))))"

section \<open>The payment\<close>

text \<open>
  \<open>upd\<close> adds an amount to the column (\<open>+amount\<close>) of a wallet or takes it off (\<open>-amount\<close>), \<open>hist\<close> writes the history.
  The error of a wallet that does not exist is recognized; the share that has no receiver is not charged.
\<close>

definition payCommission :: "(string \<Rightarrow> decimal \<Rightarrow> string \<Rightarrow> ('w, unit) db) \<Rightarrow> (string \<Rightarrow> decimal \<Rightarrow> ('w, unit) db) \<Rightarrow> string \<Rightarrow> decimal \<Rightarrow> ('w, unit) db" where
  "payCommission upd hist toID amount = bind_db (upd ''+amount'' amount toID) (\<lambda>_. hist toID amount)"

definition unless_missing :: "('w, unit) db \<Rightarrow> ('w, bool) db" where
  "unless_missing m w =
     (case m w of
        (Inr _, w') \<Rightarrow> (Inr True, w')
      | (Inl e, w') \<Rightarrow> if e = errUpdNotExistRecord then (Inr False, w') else (Inl e, w'))"

definition pay_amounts :: "'w call_env \<Rightarrow> decimal \<Rightarrow> decimal \<Rightarrow> string \<Rightarrow> (decimal \<times> decimal) res" where
  "pay_amounts env usedCost fuelRate walletAmount =
     bind_res (dec_Mul usedCost fuelRate) (\<lambda>apl.
     bind_res (dec_NewFromString walletAmount) (\<lambda>wltAmount.
     let apl = (if dec_Cmp wltAmount apl < 0 then wltAmount else apl) in
     bind_res (dec_Mul apl (Dec (sint (cl_commission env)) 0)) (\<lambda>x.
     bind_res (dec_Div x (Dec 100 0)) (\<lambda>q. Inr (apl, dec_Floor q)))))"

definition pay_split :: "(string \<Rightarrow> decimal \<Rightarrow> string \<Rightarrow> ('w, unit) db) \<Rightarrow> (string \<Rightarrow> decimal \<Rightarrow> ('w, unit) db) \<Rightarrow>
    decimal \<Rightarrow> decimal \<Rightarrow> string \<Rightarrow> string \<Rightarrow> string \<Rightarrow> ('w, unit) db" where
  "pay_split upd hist apl commission fromID toID commissionWallet =
     bind_db (unless_missing (payCommission upd hist toID (dec_Sub apl commission))) (\<lambda>paid.
     let apl = (if paid then apl else commission) in
     bind_db (unless_missing (payCommission upd hist commissionWallet commission)) (\<lambda>paid.
     let apl = (if paid then apl else dec_Sub apl commission) in
     (\<lambda>w. case upd ''-amount'' apl fromID w of
            (Inl (Error e), w') \<Rightarrow> (Inl errCommission, w')
          | r \<Rightarrow> r)))"

text \<open>The statements of the code: an update of the keys, and a row of the history.\<close>

definition db_data :: "sc_call \<Rightarrow> sc_data" where
  "db_data sc = \<lparr>sd_VDE = cc_VDE sc, sd_Rollback = cc_Rollback sc, sd_BlockID = map_option bd_BlockID (cc_BlockData sc), sd_TxHash = cc_TxHash sc\<rparr>"

definition unit_db :: "('w, 'a) db \<Rightarrow> ('w, unit) db" where
  "unit_db m = bind_db m (\<lambda>_. ret_db (Inr ()))"

definition wallet_update :: "'w call_env \<Rightarrow> sc_call \<Rightarrow> string \<Rightarrow> decimal \<Rightarrow> string \<Rightarrow> ('w, unit) db" where
  "wallet_update env sc fld amount wallet =
     unit_db (sc_update (cl_db env) (db_data sc) [fld] [VDec amount] (show_int (sint (cc_TokenEcosystem sc)) @ ''_keys'') ''id'' (VString wallet))"

definition pay_history :: "'w call_env \<Rightarrow> sc_call \<Rightarrow> string \<Rightarrow> string \<Rightarrow> decimal \<Rightarrow> ('w, unit) db" where
  "pay_history env sc fromID toID amount =
     (case cc_BlockData sc of
        None \<Rightarrow> ret_db (Inl nil_deref)
      | Some bd \<Rightarrow>
          unit_db (sc_insert (cl_db env) (db_data sc)
            [''sender_id'', ''recipient_id'', ''amount'', ''comment'', ''block_id'', ''txhash'', ''ecosystem'', ''created_at'']
            [VString fromID, VString toID, VDec amount, VString (''Commission for execution of '' @ cc_Name sc @ '' contract''),
             VInt64 (bd_BlockID bd), VBytes (cc_TxHash sc), VInt64 (cc_TokenEcosystem sc),
             VString (''timestamp '' @ quoted (cl_date env (bd_Time bd)))]
            ''1_history''))"

definition payContract :: "'w call_env \<Rightarrow> sc_call \<Rightarrow> decimal \<Rightarrow> key_row \<Rightarrow> int64 \<Rightarrow> int64 \<Rightarrow> ('w, unit) db" where
  "payContract env sc fuelRate payWallet fromID toID =
     bind_db (ret_db (pay_amounts env (cc_TxUsedCost sc) fuelRate (key_Amount payWallet))) (\<lambda>(apl, commission).
       pay_split (wallet_update env sc) (pay_history env sc (show_int (sint fromID))) apl commission (show_int (sint fromID)) (show_int (sint toID))
         (cl_CommissionWallet env (cc_TokenEcosystem sc)))"

section \<open>The call\<close>

fun run_methods :: "'w call_env \<Rightarrow> nat \<Rightarrow> sc_call \<Rightarrow> string list \<Rightarrow> (string \<Rightarrow> val option) \<Rightarrow> heap \<Rightarrow> 'w \<Rightarrow>
    (string option res \<times> (string \<Rightarrow> val option) \<times> heap \<times> 'w) option" where
  "run_methods env n sc [] ext h w = Some (Inr None, ext, h, w)"
| "run_methods env n sc (m # ms) ext h w =
     (case map_of (cc_Funcs sc) m of
        None \<Rightarrow> run_methods env n sc ms ext h w
      | Some b \<Rightarrow>
          (case VMRun env n b ext h w of
             Some (Inr None, ext, h, w) \<Rightarrow> run_methods env n sc ms ext h w
           | r \<Rightarrow> r))"

definition call_result :: "'w call_env \<Rightarrow> (string \<Rightarrow> val option) \<Rightarrow> heap \<Rightarrow> string" where
  "call_result env ext h =
     (case ext ''result'' of
        None \<Rightarrow> []
      | Some VNil \<Rightarrow> []
      | Some v \<Rightarrow> take 255 (sprint (cl_vm env) h v))"

text \<open>
  The contract runs with the gas of the terms less the price of the size; what it used is \<open>TxFuel\<close>. A failed run is paid
  for too. An error of the payment replaces that of the run.
\<close>

definition run_and_pay :: "'w call_env \<Rightarrow> nat \<Rightarrow> sc_call \<Rightarrow> pay_terms option \<Rightarrow> int64 \<Rightarrow> (string \<Rightarrow> val option) \<Rightarrow> heap \<Rightarrow> 'w \<Rightarrow>
    (string res \<times> sc_call \<times> 'w) option" where
  "run_and_pay env n sc terms toID ext h w =
     (case (case terms of Some t \<Rightarrow> Inr (pt_cost t, pt_sizeFuel t) | None \<Rightarrow> bind_res (ext_cost ext) (\<lambda>c. Inr (c, 0))) of
        Inl e \<Rightarrow> Some (Inl e, sc, w)
      | Inr (before, sizeFuel) \<Rightarrow>
          if sint (before - sizeFuel) \<le> 0 then Some (Inl errCurrentBalance, sc, w)
          else
            let name = snd (ParseName (cc_Name sc));
                ext = ext(''txcost'' \<mapsto> VInt64 (before - sizeFuel), ''original_contract'' \<mapsto> VString name, ''this_contract'' \<mapsto> VString name)
            in
            case run_methods env n sc [''conditions'', ''action''] ext h w of
              None \<Rightarrow> None
            | Some (Inl e, _, _, w) \<Rightarrow> Some (Inl e, sc, w)
            | Some (Inr err, ext, h, w) \<Rightarrow>
                (case ext_cost ext of
                   Inl e \<Rightarrow> Some (Inl e, sc, w)
                 | Inr left \<Rightarrow>
                     let sc = sc\<lparr>cc_TxFuel := before - left, cc_TxUsedCost := Dec (sint (before - left)) 0\<rparr>;
                         (paid, w) = (case terms of Some t \<Rightarrow> payContract env sc (pt_fuelRate t) (pt_wallet t) (pt_fromID t) toID w | None \<Rightarrow> (Inr (), w))
                     in Some (case (paid, err) of
                                (Inl e, _) \<Rightarrow> Inl e
                              | (Inr _, Some e) \<Rightarrow> Inl (Error e)
                              | (Inr _, None) \<Rightarrow> Inr (call_result env ext h), sc, w)))"

definition retError :: "'w call_env \<Rightarrow> string res \<Rightarrow> string res" where
  "retError env r = (case r of Inl (Error e) \<Rightarrow> Inl (Error (if has_prefix ''{'' e then e else cl_wrap env e)) | _ \<Rightarrow> r)"

definition CallContract :: "'w call_env \<Rightarrow> nat \<Rightarrow> sc_call \<Rightarrow> heap \<Rightarrow> 'w \<Rightarrow> (string res \<times> sc_call \<times> 'w) option" where
  "CallContract env n sc h w =
     (let sc = sc\<lparr>cc_TokenEcosystem := 1, cc_TxCost := GetContractLimit env sc\<rparr>;
          sh = snd (vm_AppendStack (cl_vm env) (cc_Name sc) \<lparr>sh_extend = getExtend env sc, sh_heap = h, sh_world = w\<rparr>);
          ext = sh_extend sh; h = sh_heap sh; w = sh_world sh;
          fail = (\<lambda>e. Some (retError env (Inl e), sc, w))
      in
      if \<not> cc_VDE sc \<and> cc_BlockData sc = None then Some (Inl nil_deref, sc, w)
      else
      case check_signer env sc w of
        Inl e \<Rightarrow> fail e
      | Inr (wallet, keys) \<Rightarrow>
          let sc = sc\<lparr>cc_PublicKeys := keys\<rparr>;
              toID = (case cc_BlockData sc of Some bd \<Rightarrow> if cc_VDE sc then 0 else bd_KeyID bd | None \<Rightarrow> 0)
          in
          if sint (cc_EcosystemID sc) > 0 \<and> \<not> cc_VDE sc \<and> \<not> cl_Private env then
            (case payment_terms env sc wallet ext w of
               Inl e \<Rightarrow> fail e
             | Inr t \<Rightarrow> map_option (\<lambda>(r, sc, w). (retError env r, sc, w))
                 (run_and_pay env n (sc\<lparr>cc_TokenEcosystem := pt_TokenEcosystem t\<rparr>) (Some t) toID ext h w))
          else map_option (\<lambda>(r, sc, w). (retError env r, sc, w)) (run_and_pay env n sc None toID ext h w))"

section \<open>Fields and system variables share one name space\<close>

lemma fill_fields_other:
  "fill_fields order fs params d h = Inr (d', h') \<Longrightarrow> x \<notin> fd_Name ` set fs \<Longrightarrow> map_of d' x = map_of d x"
  by (induction fs arbitrary: d h) (auto simp: update_conv split: option.splits if_splits sum.splits prod.splits)

lemma update_names: "fst ` set (AList.update k v d) = insert k (fst ` set d)"
  using dom_update [of k v d] by (simp add: dom_map_of_conv_image_fst)

lemma fill_fields_names:
  "fill_fields order fs params d h = Inr (d', h') \<Longrightarrow> distinct (map fst d) \<Longrightarrow>
   distinct (map fst d') \<and> fst ` set d' = fst ` set d \<union> fd_Name ` set fs"
proof (induction fs arbitrary: d h)
  case (Cons f fs)
  obtain v h1 d1 where d1: "fill_fields order fs params d1 h1 = Inr (d', h')" "d1 = AList.update (fd_Name f) v d \<or> d1 = d \<and> fd_Name f \<in> fst ` set d"
    using Cons.prems(1) by (fastforce simp: map_of_eq_None_iff split: option.splits if_splits sum.splits prod.splits)
  then have "distinct (map fst d1) \<and> fst ` set d1 = insert (fd_Name f) (fst ` set d)"
    using Cons.prems(2) by (elim disjE conjE) (simp_all add: distinct_update update_names insert_absorb)
  with Cons.IH [OF d1(1)] show ?case by auto
qed simp

lemma FillTxData_distinct:
  assumes "FillTxData order fs params h = Inr (d, h')"
  shows "distinct (map fd_Name fs)" "fill_fields order fs params [] h = Inr (d, h')"
proof -
  show f: "fill_fields order fs params [] h = Inr (d, h')"
    using assms by (cases "fill_fields order fs params [] h") (auto simp: FillTxData_def split: if_splits)
  have l: "length d = length fs" using assms f by (simp add: FillTxData_def split: if_splits)
  have "length (map fd_Name fs) = length (map fst d)" using l by simp
  also have "\<dots> = card (set (map fst d))" using fill_fields_names [OF f] by (simp add: distinct_card del: set_map)
  also have "\<dots> = card (set (map fd_Name fs))" using fill_fields_names [OF f] by simp
  finally show "distinct (map fd_Name fs)" by (simp add: card_distinct)
qed

lemma fill_fields_int:
  "fill_fields order fs params d h = Inr (d', h') \<Longrightarrow> distinct (map fd_Name fs) \<Longrightarrow> fd_Name ` set fs \<inter> fst ` set d = {} \<Longrightarrow>
   f \<in> set fs \<Longrightarrow> fd_Type f = Some TInt \<Longrightarrow> params (fd_Name f) = Some (PVal (VInt64 k)) \<Longrightarrow> map_of d' (fd_Name f) = Some (VInt64 k)"
proof (induction fs arbitrary: d h)
  case (Cons g fs)
  show ?case
  proof (cases "f = g")
    case True
    have n: "map_of d (fd_Name g) = None" using Cons.prems(3) by (auto simp: map_of_eq_None_iff)
    have "fill_fields order fs params (AList.update (fd_Name g) (VInt64 k) d) h = Inr (d', h')"
      using Cons.prems(1,5,6) True n by (simp add: field_value_def)
    moreover have "fd_Name g \<notin> fd_Name ` set fs" using Cons.prems(2) by simp
    ultimately show ?thesis using True by (simp add: fill_fields_other update_conv)
  next
    case False
    then have f: "f \<in> set fs" using Cons.prems(4) by simp
    obtain v h1 d1 where d1: "fill_fields order fs params d1 h1 = Inr (d', h')" "d1 = AList.update (fd_Name g) v d \<or> d1 = d"
      using Cons.prems(1) by (fastforce split: option.splits if_splits sum.splits prod.splits)
    then have "fd_Name ` set fs \<inter> fst ` set d1 = {}"
      using Cons.prems(2,3) by (elim disjE) (simp_all add: update_names)
    with Cons.IH [OF d1(1) _ _ f] Cons.prems show ?thesis by simp
  qed
qed simp

lemma variable_without_field:
  assumes "FillTxData order fs params h = Inr (d, h')" "''key_id'' \<notin> fd_Name ` set fs"
  shows "getExtend env (sc\<lparr>cc_TxData := d\<rparr>) ''key_id'' = Some (VInt64 (cc_KeyID sc))"
  using fill_fields_other [OF FillTxData_distinct(2) [OF assms(1)] assms(2)]
  by (simp add: getExtend_def map_add_def Let_def)

declare run_methods.simps [simp del]

lemma run_and_pay_success:
  assumes "run_and_pay env n sc terms toID ext h w = Some (Inr res, sc', w')"
  shows "\<exists>c name ext' h' w1.
    run_methods env n sc [''conditions'', ''action''] (ext(''txcost'' \<mapsto> c, ''original_contract'' \<mapsto> name, ''this_contract'' \<mapsto> name)) h w =
      Some (Inr None, ext', h', w1) \<and> res = call_result env ext' h'"
proof -
  obtain before sizeFuel where b:
    "(case terms of Some t \<Rightarrow> Inr (pt_cost t, pt_sizeFuel t) | None \<Rightarrow> bind_res (ext_cost ext) (\<lambda>c. Inr (c, 0))) = Inr (before, sizeFuel)"
    using assms by (cases "case terms of Some t \<Rightarrow> Inr (pt_cost t, pt_sizeFuel t) | None \<Rightarrow> bind_res (ext_cost ext) (\<lambda>c. Inr (c, 0 :: int64))")
      (auto simp: run_and_pay_def)
  let ?name = "VString (snd (ParseName (cc_Name sc)))"
  let ?m = "run_methods env n sc [''conditions'', ''action'']
    (ext(''txcost'' \<mapsto> VInt64 (before - sizeFuel), ''original_contract'' \<mapsto> ?name, ''this_contract'' \<mapsto> ?name)) h w"
  have pos: "\<not> sint (before - sizeFuel) \<le> 0" using assms by (auto simp: run_and_pay_def b simp del: not_le)
  obtain r ext' h' w1 where m: "?m = Some (r, ext', h', w1)"
    using assms pos by (cases ?m) (auto simp: run_and_pay_def b Let_def)
  have "r = Inr None \<and> res = call_result env ext' h'"
  proof (cases r)
    case (Inl e)
    then show ?thesis using assms pos by (simp add: run_and_pay_def b Let_def m)
  next
    case (Inr err)
    obtain left where "ext_cost ext' = Inr left"
      using assms pos Inr by (cases "ext_cost ext'") (simp_all add: run_and_pay_def b Let_def m)
    then show ?thesis
      using assms pos Inr by (simp add: run_and_pay_def b Let_def m split: prod.splits sum.splits option.splits)
  qed
  with m show ?thesis by blast
qed

lemma retError_Inr: "retError env r = Inr res \<longleftrightarrow> r = Inr res"
  by (auto simp: retError_def split: sum.splits go_exc.splits)

lemma CallContract_success:
  assumes "CallContract env n sc h w = Some (Inr res, sc', w')"
    and sh: "snd (vm_AppendStack (cl_vm env) (cc_Name sc) \<lparr>sh_extend = getExtend env sc, sh_heap = h, sh_world = w\<rparr>) = sh"
  shows "\<exists>sc1 c name ext' h' w1. cc_Funcs sc1 = cc_Funcs sc \<and>
    run_methods env n sc1 [''conditions'', ''action'']
      ((sh_extend sh)(''txcost'' \<mapsto> c, ''original_contract'' \<mapsto> name, ''this_contract'' \<mapsto> name)) (sh_heap sh) (sh_world sh) =
      Some (Inr None, ext', h', w1) \<and> res = call_result env ext' h'"
proof -
  let ?sc = "sc\<lparr>cc_TokenEcosystem := 1, cc_TxCost := GetContractLimit env sc\<rparr>"
  have sh': "snd (vm_AppendStack (cl_vm env) (cc_Name ?sc) \<lparr>sh_extend = getExtend env ?sc, sh_heap = h, sh_world = w\<rparr>) = sh"
  proof -
    have "GetContractLimit env ?sc = GetContractLimit env sc" by (simp add: GetContractLimit_def)
    then have "getExtend env ?sc = getExtend env sc" by (simp add: getExtend_def)
    then show ?thesis using sh by simp
  qed
  have bd: "\<not> (\<not> cc_VDE ?sc \<and> cc_BlockData ?sc = None)"
    using assms(1) unfolding CallContract_def Let_def sh' by (auto split: if_splits)
  obtain wallet keys where k: "check_signer env ?sc (sh_world sh) = Inr (wallet, keys)"
    using assms(1) bd unfolding CallContract_def Let_def sh'
    by (cases "check_signer env ?sc (sh_world sh)") (auto simp: retError_Inr)
  obtain sc1 terms toID sc2 where "cc_Funcs sc1 = cc_Funcs sc"
    "run_and_pay env n sc1 terms toID (sh_extend sh) (sh_heap sh) (sh_world sh) = Some (Inr res, sc2, w')"
  proof (cases "sint (cc_EcosystemID sc) > 0 \<and> \<not> cc_VDE sc \<and> \<not> cl_Private env")
    case True
    obtain t where t: "payment_terms env (?sc\<lparr>cc_PublicKeys := keys\<rparr>) wallet (sh_extend sh) (sh_world sh) = Inr t"
      using assms(1) bd True unfolding CallContract_def Let_def sh'
      by (cases "payment_terms env (?sc\<lparr>cc_PublicKeys := keys\<rparr>) wallet (sh_extend sh) (sh_world sh)") (auto simp: k retError_Inr)
    show ?thesis
      using assms(1) bd True unfolding CallContract_def Let_def sh'
      by (auto simp: k t retError_Inr intro!: that [rotated])
  next
    case False
    show ?thesis
      using assms(1) bd False unfolding CallContract_def Let_def sh'
      by (auto simp: k retError_Inr intro!: that [rotated])
  qed
  then show ?thesis using run_and_pay_success by metis
qed


text \<open>
  C24: what a transaction sends as a number is what the contract reads under the name of the field, also when the contract
  declares a field with the name of a system variable: in every successful call the methods \<open>conditions\<close> and \<open>action\<close>, from whose last
  variables the result is taken, start with \<open>$key_id\<close> (and \<open>$block\<close>, \<open>$time\<close>, \<open>$sc\<close>, \<dots>) bound to what the sender of the transaction wrote
  and not to the key that signed. The exceptions are the four variables the call itself sets afterwards: \<open>$stack\<close>, \<open>$txcost\<close>,
  \<open>$original_contract\<close> and \<open>$this_contract\<close>.
\<close>

theorem field_replaces_variable:
  assumes "FillTxData order fs params h = Inr (d, h')"
    and "f \<in> set fs" "fd_Type f = Some TInt" "params (fd_Name f) = Some (PVal (VInt64 k))"
    and "uses_stack cont_of set_cont eco (cl_vm env)" "fd_Name f \<notin> {''stack'', ''txcost'', ''original_contract'', ''this_contract''}"
    and "CallContract env n (sc\<lparr>cc_TxData := d\<rparr>) h' w = Some (Inr res, sc', w')"
  shows "\<exists>sc1 ext h1 w1 ext' h2 w2. cc_Funcs sc1 = cc_Funcs sc \<and> ext (fd_Name f) = Some (VInt64 k) \<and>
    run_methods env n sc1 [''conditions'', ''action''] ext h1 w1 = Some (Inr None, ext', h2, w2) \<and> res = call_result env ext' h2"
proof -
  let ?sc = "sc\<lparr>cc_TxData := d\<rparr>"
  have "map_of d (fd_Name f) = Some (VInt64 k)"
    using fill_fields_int [OF FillTxData_distinct(2) [OF assms(1)] FillTxData_distinct(1) [OF assms(1)] _ assms(2-4)] by simp
  then have "getExtend env ?sc (fd_Name f) = Some (VInt64 k)" by (simp add: getExtend_def Let_def map_add_find_right)
  moreover obtain sh where sh: "snd (vm_AppendStack (cl_vm env) (cc_Name ?sc) \<lparr>sh_extend = getExtend env ?sc, sh_heap = h', sh_world = w\<rparr>) = sh"
    by blast
  moreover have "sh_extend sh (fd_Name f) = getExtend env ?sc (fd_Name f)"
    using assms(5,6) sh by (auto simp: uses_stack_def AppendStack_extend)
  ultimately have "((sh_extend sh)(''txcost'' \<mapsto> c, ''original_contract'' \<mapsto> name, ''this_contract'' \<mapsto> name)) (fd_Name f) = Some (VInt64 k)" for c name
    using assms(6) by simp
  with CallContract_success [OF assms(7) sh] show ?thesis by (elim exE conjE) (intro exI conjI; assumption?; simp)
qed

text \<open>
  The contract \<open>contract C { data { key_id int } action { $result = $key_id } }\<close> in a transaction of the key 5: its result is 6,
  the number in the transaction.
\<close>

definition whoami_vm :: "(ref \<times> nat) VM" where
  "whoami_vm = stacked_vm
     [0 \<mapsto> func_block [] [] []
        [code_of cmdAssignVar (OpVars [extend_var ''result'']), code_of cmdExtend (OpVal (VString ''key_id'')), code_of cmdAssign OpInt]]
     [''@1C'' \<mapsto> \<lparr>oi_Type = ObjContract, oi_Value = OVBlock 1\<rparr>]"

definition whoami_env :: "(ref \<times> nat) call_env" where
  "whoami_env =
     \<lparr>cl_vm = whoami_vm, cl_db = undefined,
      cl_Key = (\<lambda>e i w. Inr (\<lparr>key_PublicKey = [1], key_Amount = ''100'', key_Maxpay = [], key_Deleted = 0\<rparr>, True)),
      cl_MaxCost = 1000, cl_Private = True, cl_FuelRate = (\<lambda>_. ''1''), cl_SizeFuel = 0, cl_commission = 3, cl_CommissionWallet = (\<lambda>_. ''9''),
      cl_Nodes = [], cl_NodePublic = Inr [], cl_Address = (\<lambda>_. 5), cl_verify = (\<lambda>_ _ _. Inr True), cl_date = (\<lambda>_. ''2018-01-01''), cl_wrap = (\<lambda>e. e)\<rparr>"

definition whoami_call :: sc_call where
  "whoami_call =
     \<lparr>cc_VDE = False, cc_Rollback = False, cc_ID = 300, cc_Time = 0, cc_EcosystemID = 1, cc_KeyID = 5, cc_PublicKey = [1], cc_SignedBy = 0,
      cc_MaxSum = [], cc_PayOver = [], cc_TokenEcosystem = 1, cc_TxData = [], cc_TxHash = [2], cc_TxSignature = [1, 3], cc_TxSize = 10,
      cc_PublicKeys = [], cc_BlockData = Some empty_BlockData, cc_Name = ''@1C'',
      cc_Owner = \<lparr>ow_StateID = 1, ow_Active = False, ow_TableID = 0, ow_WalletID = 0, ow_TokenID = 0\<rparr>, cc_Funcs = [(''action'', 0)], cc_TxCost = 0,
      cc_TxFuel = 0, cc_TxUsedCost = Dec 0 0\<rparr>"

lemma whoami_signer: "check_signer whoami_env (whoami_call\<lparr>cc_TxData := d, cc_TokenEcosystem := 1, cc_TxCost := c\<rparr>) w =
  Inr (\<lparr>key_PublicKey = [1], key_Amount = ''100'', key_Maxpay = [], key_Deleted = 0\<rparr>, [[1]])"
proof -
  have "CheckSign (\<lambda>_ _ _. Inr True) [[1]] [2] [1, 3] False = Inr True" by code_simp
  then show ?thesis by (simp add: check_signer_def whoami_env_def whoami_call_def GetSignedBy_def Let_def bytes_of_string_def)
qed

lemma show_digits: "show_nat (Suc 0) = ''1''" "show_nat 6 = ''6''"
  by (simp_all add: show_nat.simps digit_char_def char_of_def bit_Suc_0_iff)

text \<open>The run of \<open>action\<close>.\<close>

lemma whoami_action:
  assumes "ext ''key_id'' = Some (VInt64 k)" "ext ''txcost'' = Some (VInt64 1000)"
  shows "\<exists>ext' h' w'. VMRun whoami_env 40 0 ext h w = Some (Inr None, ext', h', w') \<and> ext' ''result'' = Some (VInt64 k) \<and> (\<exists>c. ext' ''txcost'' = Some (VInt64 c))"
  unfolding VMRun_def whoami_env_def whoami_vm_def stacked_vm_def
  by (simp add: assms run_eval run_machine extend_var_def cong: run_congs del: RunCode.simps code_loop.simps)

lemma whoami_runs: "\<exists>sc' w'. CallContract whoami_env 40 (whoami_call\<lparr>cc_TxData := [(''key_id'', VInt64 6)]\<rparr>) heap_empty (0, 0) = Some (Inr ''6'', sc', w')"
proof -
  let ?sc = "whoami_call\<lparr>cc_TxData := [(''key_id'', VInt64 6)], cc_TokenEcosystem := 1, cc_TxCost := 1000\<rparr>"
  define sh where "sh = snd (vm_AppendStack whoami_vm ''@1C'' \<lparr>sh_extend = getExtend whoami_env ?sc, sh_heap = heap_empty, sh_world = (0, 0)\<rparr>)"
  have ext: "sh_extend sh ''key_id'' = Some (VInt64 6)" "sh_extend sh ''txcost'' = Some (VInt64 1000)"
    using uses_stacked_vm by (auto simp: sh_def whoami_vm_def uses_stack_def AppendStack_extend getExtend_def whoami_call_def whoami_env_def GetContractLimit_def)
  let ?name = "VString (snd (ParseName ''@1C''))"
  let ?ext = "(sh_extend sh)(''txcost'' \<mapsto> VInt64 1000, ''original_contract'' \<mapsto> ?name, ''this_contract'' \<mapsto> ?name)"
  have name: "cc_Name (whoami_call\<lparr>cc_TxData := d, cc_TokenEcosystem := 1, cc_TxCost := 1000, cc_PublicKeys := ks\<rparr>) = ''@1C''" for d ks
    by (simp add: whoami_call_def)
  obtain ext' h' w' c where act: "VMRun whoami_env 40 0 ?ext (sh_heap sh) (sh_world sh) = Some (Inr None, ext', h', w')"
    "ext' ''result'' = Some (VInt64 6)" "ext' ''txcost'' = Some (VInt64 c)"
    using whoami_action [of ?ext 6 "sh_heap sh" "sh_world sh"] ext by auto
  have run: "run_methods whoami_env 40 (?sc\<lparr>cc_PublicKeys := ks\<rparr>) [''conditions'', ''action''] ?ext (sh_heap sh) (sh_world sh) =
      Some (Inr None, ext', h', w')" for ks
    by (simp add: run_methods.simps act whoami_call_def)
  have res: "call_result whoami_env ext' h' = ''6''" by (simp add: call_result_def act sprint_def show_int_def show_digits)
  have pay: "\<exists>sc'. run_and_pay whoami_env 40 (?sc\<lparr>cc_PublicKeys := [[1]]\<rparr>) None toID (sh_extend sh) (sh_heap sh) (sh_world sh) = Some (Inr ''6'', sc', w')" for toID
    by (simp add: run_and_pay_def ext_cost_def ext name run res act Let_def)
  have limit: "GetContractLimit whoami_env (whoami_call\<lparr>cc_TxData := d\<rparr>) = 1000" for d
    by (simp add: GetContractLimit_def whoami_call_def whoami_env_def)
  have sh: "snd (vm_AppendStack (cl_vm whoami_env) (cc_Name ?sc) \<lparr>sh_extend = getExtend whoami_env ?sc, sh_heap = heap_empty, sh_world = (0, 0)\<rparr>) = sh"
    by (simp add: sh_def whoami_env_def whoami_call_def)
  have "cc_BlockData ?sc = Some empty_BlockData" "\<not> cc_VDE ?sc" "cl_Private whoami_env" by (simp_all add: whoami_call_def whoami_env_def)
  with pay [of "bd_KeyID empty_BlockData"] show ?thesis unfolding CallContract_def Let_def limit sh
    by (elim exE) (simp add: whoami_signer retError_def)
qed

theorem field_replaces_variable_witness:
  "\<exists>sc1 ext h1 w1 ext' h2 w2. cc_Funcs sc1 = [(''action'', 0)] \<and> ext ''key_id'' = Some (VInt64 6) \<and>
    run_methods whoami_env 40 sc1 [''conditions'', ''action''] ext h1 w1 = Some (Inr None, ext', h2, w2) \<and> ''6'' = call_result whoami_env ext' h2"
proof -
  let ?f = "\<lparr>fd_Name = ''key_id'', fd_Type = Some TInt, fd_Tags = []\<rparr>"
  have fill: "FillTxData id [?f] [''key_id'' \<mapsto> PVal (VInt64 6)] heap_empty = Inr ([(''key_id'', VInt64 6)], heap_empty)"
    by (simp add: FillTxData_def field_value_def)
  have vm: "uses_stack id (\<lambda>c _. c) 1 (cl_vm whoami_env)" by (simp add: whoami_env_def whoami_vm_def uses_stacked_vm)
  obtain sc' w' where "CallContract whoami_env 40 (whoami_call\<lparr>cc_TxData := [(''key_id'', VInt64 6)]\<rparr>) heap_empty (0, 0) = Some (Inr ''6'', sc', w')"
    using whoami_runs by blast
  from field_replaces_variable [OF fill, of ?f 6, OF _ _ _ vm _ this] show ?thesis by (simp add: whoami_call_def)
qed

end
