(* ===== verification/Contract_Access.thy ===== *)
theory Contract_Access
  imports Contract_Query Contract_Call Eval_If
begin

text \<open>
  Access rights of contracts to tables and columns (\<open>AccessTable\<close>, \<open>AccessColumns\<close>, \<open>AccessRights\<close> of \<open>packages/smart/smart.go\<close>) and the
  functions of \<open>smart/funcs.go\<close> that contracts call to read and write tables and to change their permissions. The rows
  of \<open>1_tables\<close> and of the parameters, the answers of the database and JSON are arguments.
\<close>

section \<open>Names of tables\<close>

definition ParseTable :: "(rune \<Rightarrow> rune) \<Rightarrow> string \<Rightarrow> int64 \<Rightarrow> string" where
  "ParseTable u tblname defaultEcosystem =
     (let (ecosystem, name) = ParseName tblname;
          (ecosystem, name) = (if ecosystem = 0 then (defaultEcosystem, tblname) else (ecosystem, name))
      in ToLower u (show_int (sint ecosystem) @ ''_'' @ Sanitize name []))"

definition PrefixName :: "string \<Rightarrow> string \<times> string" where
  "PrefixName table =
     (case str_index ''_'' table of
        Some off \<Rightarrow> if off > 0 \<and> is_digit (hd table) then (take off table, drop (off + 1) table) else ([], table)
      | None \<Rightarrow> ([], table))"

section \<open>The environment\<close>

text \<open>
  \<open>ac_Table\<close> is \<open>Table.Get\<close>: the columns of a table as text and whether it exists; \<open>ac_Permissions\<close> its permissions; \<open>ac_cols\<close> and
  \<open>ac_perm\<close> decode the JSON of the columns and of one condition; \<open>ac_Param\<close> is \<open>StateParameter.Get\<close> (value and conditions, empty
  when there is none). \<open>ac_eval\<close> is \<open>VMEvalIf\<close> with the variables of \<open>condition_vars\<close>, \<open>ac_compile\<close> is \<open>VMCompileEval\<close>.
\<close>

record permColumn =
  pc_Update :: string
  pc_Read :: string

record permTable =
  pm_Insert :: string
  pm_Update :: string
  pm_NewColumn :: string
  pm_Read :: string
  pm_Filter :: string

record 'w acc_env =
  ac_db :: "'w dbenv"
  ac_Table :: "int64 \<Rightarrow> string \<Rightarrow> 'w \<Rightarrow> (string \<times> bool) res"
  ac_Permissions :: "int64 \<Rightarrow> string \<Rightarrow> 'w \<Rightarrow> (string \<times> string) list res"
  ac_cols :: "string \<Rightarrow> (string \<times> string) list res"
  ac_perm :: "string \<Rightarrow> permColumn res"
  ac_Param :: "int64 \<Rightarrow> string \<Rightarrow> 'w \<Rightarrow> (string \<times> string) res"
  ac_eval :: "string \<Rightarrow> ('w, bool) db"
  ac_filter :: "string \<Rightarrow> (string \<times> string) list list \<Rightarrow> ('w, bool) db"
  ac_compile :: "string \<Rightarrow> ('w, unit) db"
  ac_indexes :: "string \<Rightarrow> 'w \<Rightarrow> int res"
  ac_rows :: "string \<Rightarrow> string \<Rightarrow> string \<Rightarrow> string \<Rightarrow> int64 \<Rightarrow> int64 \<Rightarrow> 'w \<Rightarrow> (string \<times> string) list list res"
  ac_roles :: "int64 \<Rightarrow> int64 \<Rightarrow> 'w \<Rightarrow> int64 list res"
  ac_row_conditions :: "string \<Rightarrow> int64 \<Rightarrow> 'w \<Rightarrow> string res"
  ac_columns_of :: "string \<Rightarrow> 'w \<Rightarrow> string res"
  ac_column_count :: "string \<Rightarrow> 'w \<Rightarrow> int64 res"
  ac_MaxColumns :: int

text \<open>The contract that runs: its call, whether it has all rights, and the stack of callers.\<close>

record acc_sc =
  as_call :: sc_call
  as_FullAccess :: bool
  as_StackCont :: "val list"

definition GetTableName :: "'w acc_env \<Rightarrow> acc_sc \<Rightarrow> string \<Rightarrow> string" where
  "GetTableName env sc tblname = ParseTable (db_lower (ac_db env)) tblname (cc_EcosystemID (as_call sc))"

text \<open>Reading the database does not change it.\<close>

definition read_db :: "('w \<Rightarrow> 'a res) \<Rightarrow> ('w, 'a) db" where
  "read_db f w = (f w, w)"

definition errAccessDenied :: go_exc where "errAccessDenied = Error ''Access denied''"

section \<open>Conditions\<close>

definition condition_vars :: "sc_call \<Rightarrow> string \<Rightarrow> val option" where
  "condition_vars sc =
     [''ecosystem_id'' \<mapsto> VInt64 (cc_EcosystemID sc), ''key_id'' \<mapsto> VInt64 (cc_KeyID sc), ''sc'' \<mapsto> VHost ''*smart.SmartContract'' 0,
      ''original_contract'' \<mapsto> VString [], ''this_contract'' \<mapsto> VString [],
      ''block_time'' \<mapsto> VInt64 (case cc_BlockData sc of Some bd \<Rightarrow> bd_Time bd | None \<Rightarrow> 0), ''time'' \<mapsto> VInt64 (cc_Time sc)]"

definition sc_EvalIf :: "'w cenv \<Rightarrow> eval_env \<Rightarrow> nat \<Rightarrow> sc_call \<Rightarrow> heap \<Rightarrow> 'w \<Rightarrow> string \<Rightarrow> evals \<times> cstore \<Rightarrow>
    ((bool \<times> string option) res \<times> evals \<times> cstore) option" where
  "sc_EvalIf env ee n sc h w conditions es = EvalIf env ee n conditions (ucast (cc_EcosystemID sc)) (condition_vars sc) h w es"

definition EcosysParam :: "'w acc_env \<Rightarrow> acc_sc \<Rightarrow> string \<Rightarrow> 'w \<Rightarrow> string res" where
  "EcosysParam env sc name w =
     (case ac_Param env (cc_EcosystemID (as_call sc)) name w of
        Inl (Error e) \<Rightarrow> Inr e
      | Inl e \<Rightarrow> Inl e
      | Inr (v, _) \<Rightarrow> Inr v)"

definition Eval :: "'w acc_env \<Rightarrow> string \<Rightarrow> ('w, unit) db" where
  "Eval env condition =
     (if condition = [] then ret_db (Inl (Error ''The condition is empty''))
      else bind_db (ac_eval env condition) (\<lambda>b. ret_db (if b then Inr () else Inl errAccessDenied)))"

definition AccessRights :: "'w acc_env \<Rightarrow> acc_sc \<Rightarrow> string \<Rightarrow> bool \<Rightarrow> ('w, unit) db" where
  "AccessRights env sc condition iscondition =
     bind_db (read_db (ac_Param env (cc_EcosystemID (as_call sc)) condition)) (\<lambda>(v, c).
       let conditions = (if iscondition then c else v) in
       if conditions = [] then ret_db (Inl (Error (''There is not '' @ condition @ '' in parameters'')))
       else bind_db (ac_eval env conditions) (\<lambda>b. ret_db (if b then Inr () else Inl errAccessDenied)))"

section \<open>Access to tables\<close>

definition IsCustomTable :: "'w acc_env \<Rightarrow> string \<Rightarrow> ('w, bool) db" where
  "IsCustomTable env table =
     (case PrefixName table of (prefix, name) \<Rightarrow>
        if prefix = [] then ret_db (Inr False)
        else bind_db (read_db (ac_Table env (StrToInt64 prefix) name)) (\<lambda>(_, found). ret_db (Inr found)))"

definition founder_table :: "'w acc_env \<Rightarrow> acc_sc \<Rightarrow> string \<Rightarrow> bool" where
  "founder_table env sc table \<longleftrightarrow> GetTableName env sc table = ''1_parameters'' \<or> GetTableName env sc table = ''1_app_params''"

definition is_founder :: "'w acc_env \<Rightarrow> acc_sc \<Rightarrow> ('w, bool) db" where
  "is_founder env sc =
     bind_db (read_db (EcosysParam env sc ''founder_account'')) (\<lambda>s. ret_db (Inr (cc_KeyID (as_call sc) = StrToInt64 s)))"

definition AccessTablePerm :: "'w acc_env \<Rightarrow> acc_sc \<Rightarrow> string \<Rightarrow> string \<Rightarrow> ('w, (string \<times> string) list) db" where
  "AccessTablePerm env sc table action =
     (if founder_table env sc table then
        if action = ''read'' then ret_db (Inr [])
        else bind_db (is_founder env sc) (\<lambda>f. ret_db (if f then Inr [] else Inl errAccessDenied))
      else
        bind_db (IsCustomTable env table) (\<lambda>isCustom.
        if \<not> isCustom then ret_db (if action = ''read'' then Inr [] else Inl (Error (table @ '' is not a custom table'')))
        else
          case PrefixName table of (prefix, name) \<Rightarrow>
          bind_db (read_db (ac_Permissions env (StrToInt64 prefix) name)) (\<lambda>perm.
          case map_of perm action of
            None \<Rightarrow> ret_db (Inr perm)
          | Some c \<Rightarrow>
              if c = [] then ret_db (Inr perm)
              else bind_db (ac_eval env c) (\<lambda>b. ret_db (if b then Inr perm else Inl errAccessDenied)))))"

definition AccessTable :: "'w acc_env \<Rightarrow> acc_sc \<Rightarrow> string \<Rightarrow> string \<Rightarrow> ('w, unit) db" where
  "AccessTable env sc table action =
     (if as_FullAccess sc then ret_db (Inr ()) else bind_db (AccessTablePerm env sc table action) (\<lambda>_. ret_db (Inr ())))"

section \<open>Access to columns\<close>

definition getPermColumns :: "'w acc_env \<Rightarrow> string \<Rightarrow> permColumn res" where
  "getPermColumns env input = (if has_prefix ''{'' input then ac_perm env input else Inr \<lparr>pc_Update = input, pc_Read = []\<rparr>)"

text \<open>The name whose condition is looked up.\<close>

definition column_name :: "string \<Rightarrow> string" where
  "column_name col = upto_arrow (Sanitize col ''->'')"

text \<open>
  One column: what stays of its name (nothing when it is denied), the names that were decided before, and whether it was denied
  now. A denied column ends the check of an update.
\<close>

definition check_column :: "'w acc_env \<Rightarrow> bool \<Rightarrow> (string \<times> string) list \<Rightarrow> (string \<times> bool) list \<Rightarrow> string \<Rightarrow>
    ('w, string \<times> (string \<times> bool) list \<times> bool) db" where
  "check_column env update cols checked name =
     (case map_of checked name of
        Some status \<Rightarrow> ret_db (Inr (if status then name else [], checked, False))
      | None \<Rightarrow>
          let cond = (case map_of cols name of Some c \<Rightarrow> c | None \<Rightarrow> []) in
          if cond = [] then ret_db (Inr (name, checked, False))
          else bind_db (ret_db (getPermColumns env cond)) (\<lambda>perm.
            let cond = (if update then pc_Update perm else pc_Read perm) in
            if cond = [] then ret_db (Inr (name, checked, False))
            else bind_db (ac_eval env cond) (\<lambda>b.
              if b then ret_db (Inr (name, (name, True) # checked, False))
              else if update then ret_db (Inl errAccessDenied)
              else ret_db (Inr ([], (name, False) # checked, True)))))"

fun check_columns :: "'w acc_env \<Rightarrow> bool \<Rightarrow> (string \<times> string) list \<Rightarrow> (string \<times> bool) list \<Rightarrow> string list \<Rightarrow> ('w, string list \<times> bool) db" where
  "check_columns env update cols checked [] = ret_db (Inr ([], False))"
| "check_columns env update cols checked (name # names) =
     bind_db (check_column env update cols checked name) (\<lambda>(kept, checked, denied).
       bind_db (check_columns env update cols checked names) (\<lambda>(ks, na). ret_db (Inr (kept # ks, denied \<or> na))))"

definition star_columns :: "'w acc_env \<Rightarrow> (string \<times> string) list \<Rightarrow> string list \<Rightarrow> string list" where
  "star_columns env cols columns = concat (map (\<lambda>c. if c = ''*'' then db_order (ac_db env) (map fst cols) else [c]) columns)"

definition kept_columns :: "string list \<Rightarrow> string list \<Rightarrow> string list" where
  "kept_columns colNames colList = map fst (filter (\<lambda>(_, k). k \<noteq> []) (zip colNames colList))"

text \<open>The columns that may be used: for an update all or none, for reading those that are not denied.\<close>

definition AccessColumns :: "'w acc_env \<Rightarrow> acc_sc \<Rightarrow> string \<Rightarrow> string list \<Rightarrow> bool \<Rightarrow> ('w, string list) db" where
  "AccessColumns env sc table columns update =
     (if as_FullAccess sc then ret_db (Inr columns)
      else if founder_table env sc table then
        if update then bind_db (is_founder env sc) (\<lambda>f. ret_db (if f then Inr columns else Inl errAccessDenied))
        else ret_db (Inr columns)
      else
        case PrefixName table of (prefix, name) \<Rightarrow>
        bind_db (read_db (ac_Table env (StrToInt64 prefix) name)) (\<lambda>(columns_text, found).
        if \<not> found then ret_db (if update then Inl (Error (''Table '' @ table @ '' has not been found'')) else Inr columns)
        else
        bind_db (ret_db (ac_cols env columns_text)) (\<lambda>cols.
        let colNames = star_columns env cols columns in
        bind_db (check_columns env update cols [] (map column_name colNames)) (\<lambda>(colList, notaccess).
          if \<not> update \<and> notaccess then
            let retColumn = kept_columns colNames colList
            in ret_db (if retColumn = [] then Inl errAccessDenied else Inr retColumn)
          else ret_db (Inr columns)))))"

section \<open>Reading and writing tables\<close>

fun params_of :: "(string \<times> val) list \<Rightarrow> string list \<times> val list" where
  "params_of [] = ([], [])"
| "params_of ((k, v) # ps) = (case params_of ps of (ks, vs) \<Rightarrow> (Sanitize k '' ->+'' # ks, v # vs))"

definition mapToParams :: "val Map option \<Rightarrow> (string list \<times> val list) res" where
  "mapToParams m =
     (case m of
        None \<Rightarrow> Inl nil_deref
      | Some m \<Rightarrow> bind_res (Map_items m) (\<lambda>ps. if ps = [] then Inl (Error ''values are undefined'') else Inr (params_of ps)))"

definition system_parameters_denied :: go_exc where
  "system_parameters_denied = Error ''system parameters access denied''"

definition DBInsert :: "'w acc_env \<Rightarrow> acc_sc \<Rightarrow> heap \<Rightarrow> string \<Rightarrow> val Map option \<Rightarrow> ('w, int64 \<times> int64) db" where
  "DBInsert env sc h tblname values =
     (if tblname = ''system_parameters'' then ret_db (Inl system_parameters_denied)
      else
        let table = GetTableName env sc tblname in
        bind_db (AccessTable env sc table ''insert'') (\<lambda>_.
        bind_db (read_db (ac_indexes env table)) (\<lambda>ind.
        bind_db (ret_db (mapToParams values)) (\<lambda>(params, vals).
        bind_db (ret_db (case hd vals of VArr r n \<Rightarrow> heap_items h r n | _ \<Rightarrow> Inr vals)) (\<lambda>vals.
        bind_db (sc_insert (ac_db env) (db_data (as_call sc)) params vals table) (\<lambda>(cost, lastID).
          ret_db (Inr (if ind > 0 then cost * i64 ind else cost, StrToInt64 lastID))))))))"

definition DBUpdateExt :: "'w acc_env \<Rightarrow> acc_sc \<Rightarrow> string \<Rightarrow> string \<Rightarrow> val \<Rightarrow> val Map option \<Rightarrow> ('w, int64) db" where
  "DBUpdateExt env sc tblname col v values =
     (if tblname = ''system_parameters'' then ret_db (Inl system_parameters_denied)
      else
        let table = GetTableName env sc tblname in
        bind_db (AccessTable env sc table ''update'') (\<lambda>_.
        bind_db (ret_db (mapToParams values)) (\<lambda>(columns, vals).
        bind_db (AccessColumns env sc table columns True) (\<lambda>columns.
        bind_db (sc_update (ac_db env) (db_data (as_call sc)) columns vals table col (VString (db_sprint (ac_db env) v))) (\<lambda>(cost, _).
          ret_db (Inr cost))))))"

definition DBUpdate :: "'w acc_env \<Rightarrow> acc_sc \<Rightarrow> string \<Rightarrow> int64 \<Rightarrow> val Map option \<Rightarrow> ('w, int64) db" where
  "DBUpdate env sc tblname i values = DBUpdateExt env sc tblname ''id'' (VInt64 i) values"

definition select_limit :: "int64 \<Rightarrow> int64 \<Rightarrow> int64" where
  "select_limit i limit0 =
     (let limit = (if i \<noteq> 0 then 1 else limit0);
          limit = (if limit = 0 then 25 else limit)
      in if sint limit < 0 \<or> sint limit > 250 then 250 else limit)"

text \<open>The bound \<open>n\<close> is that of \<open>GetWhere\<close>; a row is the list of its columns with the texts of their values.\<close>

definition DBSelect :: "'w acc_env \<Rightarrow> acc_sc \<Rightarrow> heap \<Rightarrow> nat \<Rightarrow> string \<Rightarrow> val \<Rightarrow> int64 \<Rightarrow> val \<Rightarrow> int64 \<Rightarrow> int64 \<Rightarrow> val Map option \<Rightarrow>
    'w \<Rightarrow> ((string \<times> string) list list res \<times> 'w) option" where
  "DBSelect env sc h n tblname inColumns i inOrder offset limit inWhere w =
     (case GetColumns (ac_db env) h inColumns of
        Inl e \<Rightarrow> Some (Inl e, w)
      | Inr columns \<Rightarrow>
     (case GetOrder (ac_db env) h inOrder of
        Inl e \<Rightarrow> Some (Inl e, w)
      | Inr order \<Rightarrow>
     (case GetWhere (ac_db env) h n (case inWhere of Some m \<Rightarrow> m | None \<Rightarrow> NewMap) of
        None \<Rightarrow> None
      | Some (Inl e) \<Rightarrow> Some (Inl e, w)
      | Some (Inr cond) \<Rightarrow>
          let cond = (if i \<noteq> 0 then ''id='' @ quoted (show_int (sint i)) else cond);
              table = GetTableName env sc tblname
          in Some
          (bind_db (AccessTablePerm env sc table ''read'') (\<lambda>perm.
           bind_db (AccessColumns env sc table columns False) (\<lambda>columns.
           bind_db (read_db (ac_rows env table (PrepareColumns columns) cond order offset (select_limit i limit))) (\<lambda>rows.
           case map_of perm ''filter'' of
             None \<Rightarrow> ret_db (Inr rows)
           | Some f \<Rightarrow>
               if f = [] then ret_db (Inr rows)
               else bind_db (ac_filter env f rows) (\<lambda>b. ret_db (if b then Inr rows else Inl errAccessDenied))))) w))))"

section \<open>Who calls\<close>

definition accessContracts :: "acc_sc \<Rightarrow> string list \<Rightarrow> bool" where
  "accessContracts sc names = list_ex (\<lambda>item. cc_Name (as_call sc) = ''@1'' @ item) names"

definition validateAccess :: "string \<Rightarrow> acc_sc \<Rightarrow> string list \<Rightarrow> unit res" where
  "validateAccess funcName sc contracts =
     (if accessContracts sc contracts then Inr () else Inl (Error (funcName @ '' can be only called from '' @ join '' or '' contracts)))"

text \<open>The caller that counts is the last name on the stack that begins with \<open>@\<close>; names are walked from the end.\<close>

fun top_contract :: "val list \<Rightarrow> string option res" where
  "top_contract [] = Inr None"
| "top_contract (VString s # vs) = (if has_prefix ''@'' s then Inr (Some s) else top_contract vs)"
| "top_contract (v # vs) = Inl bad_assert"

fun contract_access :: "acc_sc \<Rightarrow> val list \<Rightarrow> bool res" where
  "contract_access sc [] = Inr False"
| "contract_access sc (VString name # ns) =
     (if name = [] then contract_access sc ns
      else
        let name = (if hd name \<noteq> CHR ''@'' then ''@'' @ show_int (sint (cc_EcosystemID (as_call sc))) @ name else name) in
        bind_res (top_contract (rev (as_StackCont sc))) (\<lambda>t. if t = Some name then Inr True else contract_access sc ns))"
| "contract_access sc (v # ns) = contract_access sc ns"

definition ContractAccess :: "acc_sc \<Rightarrow> val list \<Rightarrow> bool res" where
  "ContractAccess sc names = contract_access sc names"

definition RoleAccess :: "'w acc_env \<Rightarrow> acc_sc \<Rightarrow> val list \<Rightarrow> 'w \<Rightarrow> bool res" where
  "RoleAccess env sc ids w =
     bind_res (ac_roles env (cc_EcosystemID (as_call sc)) (cc_KeyID (as_call sc)) w) (\<lambda>rolesList.
       Inr (list_ex (\<lambda>v. case v of VInt64 i \<Rightarrow> i \<in> set rolesList | _ \<Rightarrow> False) ids))"

section \<open>Conditions of rows and tables\<close>

definition tableParamConditions :: "(string \<times> string) list" where
  "tableParamConditions =
     [(''pages'', ''changing_page''), (''menu'', ''changing_menu''), (''signatures'', ''changing_signature''), (''contracts'', ''changing_contracts''),
      (''blocks'', ''changing_blocks''), (''languages'', ''changing_language''), (''tables'', ''changing_tables'')]"

definition AllowChangeCondition :: "'w acc_env \<Rightarrow> acc_sc \<Rightarrow> string \<Rightarrow> ('w, unit) db" where
  "AllowChangeCondition env sc tblname =
     (case map_of tableParamConditions tblname of
        Some param \<Rightarrow> AccessRights env sc param False
      | None \<Rightarrow> ret_db (Inr ()))"

definition RowConditions :: "'w acc_env \<Rightarrow> acc_sc \<Rightarrow> string \<Rightarrow> int64 \<Rightarrow> bool \<Rightarrow> ('w, unit) db" where
  "RowConditions env sc tblname i conditionOnly =
     bind_db (read_db (ac_row_conditions env (GetTableName env sc tblname) i)) (\<lambda>condition.
       if condition = [] then ret_db (Inl (Error (''Item '' @ show_int (sint i) @ '' has not been found'')))
       else if VString condition \<in> set (as_StackCont sc) then ret_db (Inl (Error ''Recursion detected''))
       else (\<lambda>w. case Eval env condition w of
                   (Inl e, w') \<Rightarrow> if e = errAccessDenied \<and> conditionOnly then AllowChangeCondition env sc tblname w' else (Inl e, w')
                 | r \<Rightarrow> r))"

definition ValidateCondition :: "'w acc_env \<Rightarrow> string \<Rightarrow> ('w, unit) db" where
  "ValidateCondition env condition =
     (if condition = [] then ret_db (Inl (Error ''Conditions is empty'')) else ac_compile env condition)"

definition typeToPSQL :: "(string \<times> string) list" where
  "typeToPSQL =
     [(''json'', ''jsonb''), (''varchar'', ''varchar(102400)''), (''character'', ''character(1) NOT NULL DEFAULT '' @ quoted ''0''),
      (''number'', ''bigint NOT NULL DEFAULT '' @ quoted ''0''), (''datetime'', ''timestamp''), (''double'', ''double precision''),
      (''money'', ''decimal (30, 0) NOT NULL DEFAULT '' @ quoted ''0''), (''text'', ''text'')]"

definition columnType :: "string \<Rightarrow> string res" where
  "columnType colType =
     (case map_of typeToPSQL colType of
        Some t \<Rightarrow> Inr t
      | None \<Rightarrow> Inl (Error (''Type '' @ quoted colType @ '' of columns is not supported'')))"

definition checkColumnName :: "string \<Rightarrow> unit res" where
  "checkColumnName name =
     (if name = [] then Inl (Error ''Column name is empty'')
      else if is_digit (hd name) then Inl (Error ''Column name cannot begin with digit'')
      else if \<not> IsLatin name then Inl (Error (''Name '' @ name @ '' must only contain latin, digit and '' @ quoted ''_'' @ '', '' @ quoted ''-'' @ '' characters''))
      else Inr ())"

text \<open>\<open>TableConditions\<close> for a table that exists: its permissions are compiled, and the right to change it is checked.\<close>

fun compile_perms :: "'w acc_env \<Rightarrow> (string \<times> string) list \<Rightarrow> ('w, unit) db" where
  "compile_perms env [] = ret_db (Inr ())"
| "compile_perms env ((name, cond) # ps) =
     (if cond = [] \<and> name \<noteq> ''Read'' \<and> name \<noteq> ''Filter'' then ret_db (Inl (Error (name @ '' condition is empty'')))
      else bind_db (ac_compile env cond) (\<lambda>_. compile_perms env ps))"

definition perm_fields :: "permTable \<Rightarrow> (string \<times> string) list" where
  "perm_fields p =
     [(''Insert'', pm_Insert p), (''Update'', pm_Update p), (''NewColumn'', pm_NewColumn p), (''Read'', pm_Read p), (''Filter'', pm_Filter p)]"

text \<open>The rights to edit a table: those of its own permissions, or else those of the parameter.\<close>

definition edit_table_rights :: "'w acc_env \<Rightarrow> acc_sc \<Rightarrow> string \<Rightarrow> ('w, unit) db" where
  "edit_table_rights env sc name w =
     (case AccessTable env sc name ''update'' w of
        (Inl (Error e), w') \<Rightarrow> AccessRights env sc ''changing_tables'' False w'
      | r \<Rightarrow> r)"

text \<open>
  \<open>permissions\<close> is the decoded JSON, \<open>columns\<close> the conditions of the columns of a new table (\<open>columnConditions\<close>), \<open>None\<close> when a table
  is edited.
\<close>

definition TableConditions :: "'w acc_env \<Rightarrow> acc_sc \<Rightarrow> string \<Rightarrow> ('w, unit) db option \<Rightarrow> permTable res \<Rightarrow> ('w, unit) db" where
  "TableConditions env sc name0 columns permissions =
     (let name = ToLower (db_lower (ac_db env)) name0 in
      bind_db (ret_db (case columns of
                 None \<Rightarrow> validateAccess ''TableConditions'' sc [''EditTable'']
               | Some _ \<Rightarrow> validateAccess ''TableConditions'' sc [''NewTable'', ''Import'', ''NewTableJoint''])) (\<lambda>_.
      bind_db (read_db (ac_Table env (cc_EcosystemID (as_call sc)) name)) (\<lambda>(_, exists).
      if columns = None \<and> \<not> exists then ret_db (Inl (Error (''Table '' @ name @ '' has not been found'')))
      else if columns \<noteq> None \<and> exists then ret_db (Inl (Error (''table '' @ name @ '' exists'')))
      else
        bind_db (ret_db permissions) (\<lambda>perm.
        bind_db (compile_perms env (perm_fields perm)) (\<lambda>_.
        case columns of
          None \<Rightarrow> edit_table_rights env sc name
        | Some check \<Rightarrow> bind_db check (\<lambda>_. AccessRights env sc ''new_table'' False))))))"

text \<open>The conditions of one column of a new table, from its decoded JSON: name, type and conditions.\<close>

record col_spec =
  cs_name :: "string option"
  cs_type :: "string option"
  cs_conditions :: string

fun columnConditions :: "'w acc_env \<Rightarrow> col_spec list \<Rightarrow> ('w, unit) db" where
  "columnConditions env [] = ret_db (Inr ())"
| "columnConditions env (c # cs) =
     (case (cs_name c, cs_type c) of
        (Some _, Some t) \<Rightarrow>
          if map_of typeToPSQL t = None then ret_db (Inl (Error ''incorrect type''))
          else
            bind_db (ret_db (getPermColumns env (cs_conditions c))) (\<lambda>perm.
            if pc_Update perm = [] then ret_db (Inl (Error ''Conditions is empty''))
            else
              bind_db (ac_compile env (pc_Update perm)) (\<lambda>_.
              bind_db (if pc_Read perm \<noteq> [] then ac_compile env (pc_Read perm) else ret_db (Inr ())) (\<lambda>_.
                columnConditions env cs)))
      | _ \<Rightarrow> ret_db (Inl (Error ''Column name cannot begin with digit'')))"

definition columns_check :: "'w acc_env \<Rightarrow> col_spec list res \<Rightarrow> ('w, unit) db" where
  "columns_check env specs =
     bind_db (ret_db specs) (\<lambda>cols.
       if cols = [] then ret_db (Inl (Error ''Columns are undefined''))
       else if int (length cols) > ac_MaxColumns env then ret_db (Inl (Error (''Too many columns. Limit is '' @ show_int (ac_MaxColumns env))))
       else columnConditions env cols)"

section \<open>Changing permissions\<close>

text \<open>\<open>ac_columns_of\<close> is the query of \<open>PermColumn\<close> for the columns of the first table with the name, in any ecosystem.\<close>

definition PermColumn :: "'w acc_env \<Rightarrow> acc_sc \<Rightarrow> string \<Rightarrow> string \<Rightarrow> string \<Rightarrow> ('w, unit) db" where
  "PermColumn env sc tableName0 name0 permissions =
     bind_db (ret_db (validateAccess ''PermColumn'' sc [''EditColumn''])) (\<lambda>_.
     let name = EscapeSQL (ToLower (db_lower (ac_db env)) name0); tableName = ToLower (db_lower (ac_db env)) tableName0 in
     bind_db (read_db (ac_columns_of env tableName)) (\<lambda>columns_text.
     bind_db (ret_db (ac_cols env columns_text)) (\<lambda>perm.
     unit_db (sc_update (ac_db env) (db_data (as_call sc)) [''columns'']
       [VString (db_json_map (ac_db env) (AList.update name permissions perm))] ''1_tables'' ''name'' (VString tableName)))))"

definition SetPubKey :: "'w acc_env \<Rightarrow> acc_sc \<Rightarrow> int64 \<Rightarrow> bytes \<Rightarrow> ('w, int64) db" where
  "SetPubKey env sc i pubKey =
     bind_db (ret_db (validateAccess ''SetPubKey'' sc [''NewUser''])) (\<lambda>_.
     bind_db (ret_db (if length pubKey = 128
                      then if snd (hex_decode (string_of_bytes pubKey)) then Inr (fst (hex_decode (string_of_bytes pubKey)))
                           else Inl (Error ''encoding/hex: invalid byte'')
                      else Inr pubKey)) (\<lambda>key.
     bind_db (sc_update (ac_db env) (db_data (as_call sc)) [''pub''] [VBytes key] ''1_keys'' ''id'' (VInt64 i)) (\<lambda>(cost, _).
       ret_db (Inr cost))))"

definition NewMoney :: "'w acc_env \<Rightarrow> acc_sc \<Rightarrow> int64 \<Rightarrow> string \<Rightarrow> ('w, unit) db" where
  "NewMoney env sc i amount =
     bind_db (ret_db (validateAccess ''NewMoney'' sc [''NewUser''])) (\<lambda>_.
       unit_db (sc_insert (ac_db env) (db_data (as_call sc)) [''id'', ''amount'', ''ecosystem'']
         [VInt64 i, VString amount, VInt64 (cc_EcosystemID (as_call sc))] ''1_keys''))"

section \<open>Columns that may be used are granted\<close>

text \<open>A column has no condition for the kind of access, or its condition was evaluated to true.\<close>

definition column_granted :: "'w acc_env \<Rightarrow> bool \<Rightarrow> (string \<times> string) list \<Rightarrow> string \<Rightarrow> bool" where
  "column_granted env update cols name \<longleftrightarrow>
     (case map_of cols name of
        None \<Rightarrow> True
      | Some c \<Rightarrow> c = [] \<or>
          (\<exists>perm. getPermColumns env c = Inr perm \<and>
             (let cond = if update then pc_Update perm else pc_Read perm in
              cond = [] \<or> (\<exists>w w'. ac_eval env cond w = (Inr True, w')))))"

lemma bind_db_Inr:
  "bind_db m f w = (Inr y, w') \<longleftrightarrow> (\<exists>x w1. m w = (Inr x, w1) \<and> f x w1 = (Inr y, w'))"
  by (auto simp: bind_db_def split: prod.splits sum.splits)

lemma ret_db_eq: "ret_db r w = (r', w') \<longleftrightarrow> r = r' \<and> w = w'"
  by (auto simp: ret_db_def)

lemma check_column_granted:
  assumes "check_column env update cols checked name w = (Inr (kp, checked', denied), w')"
    and "\<forall>n. map_of checked n = Some True \<longrightarrow> column_granted env update cols n"
  shows "\<forall>n. map_of checked' n = Some True \<longrightarrow> column_granted env update cols n"
    and "kp = [] \<or> kp = name \<and> column_granted env update cols name"
    and "\<not> denied \<Longrightarrow> \<forall>n. map_of checked n \<noteq> Some False \<Longrightarrow> column_granted env update cols name \<and> (\<forall>n. map_of checked' n \<noteq> Some False)"
    and "update \<Longrightarrow> \<not> denied"
proof -
  let ?g = "column_granted env update cols name"
  have "(checked' = checked \<and> (kp = [] \<or> kp = name \<and> ?g) \<and> \<not> denied \<and> (?g \<or> map_of checked name = Some False)) \<or>
    (checked' = (name, True) # checked \<and> kp = name \<and> ?g \<and> \<not> denied) \<or> (checked' = (name, False) # checked \<and> kp = [] \<and> denied \<and> \<not> update)"
  proof (cases "map_of checked name")
    case (Some status)
    then show ?thesis using assms by (cases status) (auto simp: check_column_def ret_db_eq)
  next
    case None
    show ?thesis
    proof (cases "case map_of cols name of Some c \<Rightarrow> c | None \<Rightarrow> []")
      case Nil
      then show ?thesis using assms(1) None
        by (auto simp: check_column_def ret_db_eq column_granted_def split: option.splits)
    next
      case (Cons a c)
      then have cond: "map_of cols name = Some (a # c)" by (auto split: option.splits)
      from assms(1) None Cons obtain perm where perm: "getPermColumns env (a # c) = Inr perm"
        by (auto simp: check_column_def bind_db_Inr ret_db_eq)
      show ?thesis
        using assms(1) None Cons perm cond
        by (auto simp: check_column_def bind_db_Inr ret_db_eq column_granted_def Let_def split: if_splits)
    qed
  qed
  then show "\<forall>n. map_of checked' n = Some True \<longrightarrow> column_granted env update cols n"
    and "kp = [] \<or> kp = name \<and> ?g"
    and "\<not> denied \<Longrightarrow> \<forall>n. map_of checked n \<noteq> Some False \<Longrightarrow> ?g \<and> (\<forall>n. map_of checked' n \<noteq> Some False)"
    and "update \<Longrightarrow> \<not> denied"
    using assms(2) by (auto split: if_splits)
qed

lemma check_columns_granted:
  assumes "check_columns env update cols checked names w = (Inr (ks, na), w')"
    and "\<forall>n. map_of checked n = Some True \<longrightarrow> column_granted env update cols n"
  shows "list_all2 (\<lambda>n k. k = [] \<or> k = n \<and> column_granted env update cols n) names ks \<and> (update \<longrightarrow> \<not> na) \<and>
    (\<not> na \<longrightarrow> (\<forall>n. map_of checked n \<noteq> Some False) \<longrightarrow> list_all (column_granted env update cols) names)"
  using assms
proof (induction names arbitrary: checked w ks na)
  case (Cons name names)
  then obtain x w1 where x: "check_column env update cols checked name w = (Inr x, w1)"
    and k: "(case x of (kp, checked', denied) \<Rightarrow> bind_db (check_columns env update cols checked' names)
      (\<lambda>(ks, na). ret_db (Inr (kp # ks, denied \<or> na)))) w1 = (Inr (ks, na), w')"
    by (auto simp: bind_db_Inr)
  obtain kp checked' denied where "x = (kp, checked', denied)" by (cases x)
  with x k obtain ks' na' where
    c: "check_column env update cols checked name w = (Inr (kp, checked', denied), w1)"
    and r: "check_columns env update cols checked' names w1 = (Inr (ks', na'), w')" "ks = kp # ks'" "na \<longleftrightarrow> denied \<or> na'"
    by (auto simp: bind_db_Inr ret_db_eq)
  note g = check_column_granted [OF c Cons.prems(2)]
  from Cons.IH [OF r(1) g(1)] r(2,3) g(2-4) show ?case by auto
qed (auto simp: ret_db_eq)

lemma Sanitize_ascii: "ascii s \<Longrightarrow> Sanitize s available = filter (\<lambda>c. sanitize_rune available (of_char c)) s"
proof -
  have "ascii s \<Longrightarrow> string_of_runes (filter (sanitize_rune available) (map of_char s)) = filter (\<lambda>c. sanitize_rune available (of_char c)) s"
    by (induction s) (simp_all add: utf8_encode_ascii)
  then show "ascii s \<Longrightarrow> Sanitize s available = filter (\<lambda>c. sanitize_rune available (of_char c)) s"
    by (simp add: Sanitize_def runes_ascii)
qed

lemma column_name_star: "column_name ''*'' = []"
  by (simp add: column_name_def Sanitize_ascii runes_ascii sanitize_rune_def upto_arrow_def)

lemma checked_columns_granted:
  assumes chk: "check_columns env update cols [] (map column_name (star_columns env cols columns)) w = (Inr (ks, na), w')"
    and cs: "cs = (if \<not> update \<and> na then kept_columns (star_columns env cols columns) ks else columns)"
    and order: "set (db_order (ac_db env) (map fst cols)) = fst ` set cols"
  shows "(\<forall>c\<in>set cs. c \<noteq> ''*'' \<longrightarrow> column_granted env update cols (column_name c)) \<and>
    (''*'' \<in> set cs \<longrightarrow> (\<forall>c\<in>fst ` set cols. column_granted env update cols (column_name c)))"
proof -
  let ?names = "star_columns env cols columns"
  from check_columns_granted [OF chk]
  have g: "list_all2 (\<lambda>n k. k = [] \<or> k = n \<and> column_granted env update cols n) (map column_name ?names) ks"
    "update \<longrightarrow> \<not> na" "\<not> na \<longrightarrow> list_all (column_granted env update cols) (map column_name ?names)"
    by simp_all
  show ?thesis
  proof (cases "\<not> update \<and> na")
    case True
    have "c \<noteq> ''*'' \<and> column_granted env update cols (column_name c)" if "c \<in> set cs" for c
    proof -
      from that True cs obtain k where k: "(c, k) \<in> set (zip ?names ks)" "k \<noteq> []" by (auto simp: kept_columns_def)
      then have "(column_name c, k) \<in> set (zip (map column_name ?names) ks)" by (auto simp: zip_map1 image_iff Bex_def)
      then have "k = column_name c \<and> column_granted env update cols (column_name c)" using g(1) k(2) by (auto simp: list_all2_iff)
      then show ?thesis using k(2) column_name_star by auto
    qed
    then show ?thesis by blast
  next
    case False
    then have all: "column_granted env update cols (column_name c)" if "c \<in> set ?names" for c using g(2,3) that by (auto simp: list_all_iff)
    have "c \<in> set ?names" if "c \<in> set cs" "c \<noteq> ''*''" for c
      using that False cs by (auto simp: star_columns_def intro!: bexI [of _ c])
    moreover have "c \<in> set ?names" if "''*'' \<in> set cs" "c \<in> fst ` set cols" for c
    proof -
      have "c \<in> set (db_order (ac_db env) (map fst cols))" using that(2) order by simp
      then show ?thesis using that(1) False cs by (auto simp: star_columns_def intro!: bexI [of _ "''*''"])
    qed
    ultimately show ?thesis using all by blast
  qed
qed

text \<open>
  C16: \<open>AccessColumns\<close> lets through only granted columns. When it returns a list, for reading or for an update, then every column of the
  list has no condition of its own or one that was evaluated to true, and when a star is in the list this holds of every column of the
  table; otherwise the contract has full access, or the table is one of the two that only the founder may change (who is then the
  sender of an update), or the table is not known and is only read.
\<close>

theorem AccessColumns_granted:
  assumes "AccessColumns env sc table columns update w = (Inr cs, w')" "PrefixName table = (prefix, name)"
    and "\<And>ks. set (db_order (ac_db env) ks) = set ks"
  shows "as_FullAccess sc \<or>
    founder_table env sc table \<and> (update \<longrightarrow> fst (is_founder env sc w) = Inr True) \<or>
    \<not> update \<and> (\<exists>columns_text. ac_Table env (StrToInt64 prefix) name w = Inr (columns_text, False)) \<or>
    (\<exists>columns_text cols. ac_Table env (StrToInt64 prefix) name w = Inr (columns_text, True) \<and> ac_cols env columns_text = Inr cols \<and>
      (\<forall>c\<in>set cs. c \<noteq> ''*'' \<longrightarrow> column_granted env update cols (column_name c)) \<and>
      (''*'' \<in> set cs \<longrightarrow> (\<forall>c\<in>fst ` set cols. column_granted env update cols (column_name c))))"
proof (cases "as_FullAccess sc \<or> founder_table env sc table")
  case True
  then show ?thesis using assms(1) by (auto simp: AccessColumns_def bind_db_Inr ret_db_eq split: if_splits)
next
  case False
  then obtain columns_text found where t: "ac_Table env (StrToInt64 prefix) name w = Inr (columns_text, found)"
    using assms(1,2) by (auto simp: AccessColumns_def read_db_def bind_db_Inr)
  show ?thesis
  proof (cases found)
    case True
    obtain cols ks na where "ac_cols env columns_text = Inr cols"
      and "check_columns env update cols [] (map column_name (star_columns env cols columns)) w = (Inr (ks, na), w')"
      and "cs = (if \<not> update \<and> na then kept_columns (star_columns env cols columns) ks else columns)"
      using assms(1,2) False t True by (auto simp: AccessColumns_def read_db_def bind_db_Inr ret_db_eq Let_def split: if_splits)
    with checked_columns_granted [OF this(2,3)] assms(3) t True show ?thesis by simp
  next
    case False
    then show ?thesis
      using assms(1,2) \<open>\<not> (as_FullAccess sc \<or> founder_table env sc table)\<close> t
      by (auto simp: AccessColumns_def read_db_def bind_db_Inr ret_db_eq split: if_splits)
  qed
qed

section \<open>Names that evade the conditions\<close>

lemma column_names:
  "column_name ''-amount'' = ''-amount''" "column_name ''amount*1'' = ''amount1''" "column_name ''AMOUNT'' = ''AMOUNT''"
  by (simp_all add: column_name_def Sanitize_ascii runes_ascii sanitize_rune_def upto_arrow_def has_prefix_def)

lemma prepare_product: "PrepareColumns [''amount*1''] = ''amount*1''"
  by (simp add: PrepareColumns_def prepare_column_def str_contains_def has_prefix_def)

text \<open>
  C17: the condition of a column can be evaded. The table has a condition for the column \<open>amount\<close>. An update of \<open>-amount\<close> and a query
  for \<open>amount*1\<close> are looked up under names that the table does not have, so no condition is evaluated; the statements then
  subtract from the column and read its value.
\<close>

theorem column_conditions_evaded:
  assumes "\<not> as_FullAccess sc" "\<not> founder_table env sc table" "PrefixName table = (prefix, name)"
    and "ac_Table env (StrToInt64 prefix) name w = Inr (columns_text, True)" "ac_cols env columns_text = Inr cols"
    and "map_of cols ''amount'' = Some condition" "map_of cols ''-amount'' = None" "map_of cols ''amount1'' = None"
  shows "AccessColumns env sc table [''-amount''] True w = (Inr [''-amount''], w) \<and>
    update_item tbl ''-amount'' v js = (''amount=amount-'' @ escapeSingleQuotes v @ '','', js) \<and>
    AccessColumns env sc table [''amount*1''] False w = (Inr [''amount*1''], w) \<and>
    PrepareColumns [''amount*1''] = ''amount*1''"
  using assms
  by (simp add: AccessColumns_def read_db_def bind_db_def ret_db_def star_columns_def column_names check_column_def prepare_product
      update_item_def IsByteColumn_def Let_def)

section \<open>The check of the founder\<close>

lemma runes_Cons_ascii: "of_char c < (128 :: nat) \<Longrightarrow> runes (c # s) = of_char c # runes s"
proof -
  have "map snd (range_string off s) = map snd (range_string off' s)" for off off' s
  proof (induction off s arbitrary: off' rule: range_string.induct)
    case (1 off s)
    obtain r w where r: "decode_rune s = (r, w)" by fastforce
    show ?case
    proof (cases "s = []")
      case False
      from 1 [OF False r [symmetric] refl, of "off' + w"] show ?thesis
        using False r by (simp add: range_string.simps [of off] range_string.simps [of off'])
    qed (simp add: range_string.simps)
  qed
  from this [of 1 s 0] show "of_char c < (128 :: nat) \<Longrightarrow> runes (c # s) = of_char c # runes s"
    by (simp add: runes_def range_string_ascii)
qed

lemma runes_append_ascii: "ascii a \<Longrightarrow> runes (a @ s) = map of_char a @ runes s"
  by (induction a) (simp_all add: runes_Cons_ascii)

lemma ToLower_append_ascii: "ascii a \<Longrightarrow> ToLower u (a @ s) = map lower_char a @ ToLower u s"
proof (induction a)
  case (Cons c a)
  have "utf8_encode (lower_rune u (of_char c)) = [lower_char c]"
    using Cons.prems by (auto simp: lower_rune_def lower_char_def is_upper_def utf8_encode_ascii)
  with Cons show ?case by (simp add: ToLower_def runes_Cons_ascii)
qed simp

lemma digit_plain: "is_digit c \<Longrightarrow> of_char c < (128 :: nat) \<and> lower_char c = c \<and> c \<noteq> CHR ''_'' \<and> sanitize_rune [] (of_char c)"
  by (auto simp: is_digit_def lower_char_def is_upper_def sanitize_rune_def)

lemma show_int_plain:
  "ascii (show_int i)" "map lower_char (show_int i) = show_int i" "CHR ''_'' \<notin> set (show_int i)"
  "\<exists>m d t. show_int i = m @ d # t \<and> is_digit d \<and> (m = [] \<or> m = ''-'')"
proof -
  have d: "list_all is_digit (show_nat n)" for n by (rule show_nat_digits)
  have "ascii (show_nat n) \<and> map lower_char (show_nat n) = show_nat n \<and> CHR ''_'' \<notin> set (show_nat n)" for n
    using d [of n] by (induction "show_nat n") (auto simp: list_all_iff ascii_def digit_plain map_idI dest: digit_plain)
  then show "ascii (show_int i)" "map lower_char (show_int i) = show_int i" "CHR ''_'' \<notin> set (show_int i)"
    by (auto simp: show_int_def lower_char_def is_upper_def)
  have "\<exists>d t. show_nat n = d # t \<and> is_digit d" for n using d [of n] by (cases "show_nat n") auto
  then show "\<exists>m d t. show_int i = m @ d # t \<and> is_digit d \<and> (m = [] \<or> m = ''-'')"
    unfolding show_int_def by (metis append_Cons append_Nil)
qed

text \<open>A name that \<open>GetTableName\<close> made is never taken for a table of the founder when it is looked up again.\<close>

lemma founder_table_resolved: "\<not> founder_table env sc (GetTableName env sc tblname)"
proof -
  let ?u = "db_lower (ac_db env)"
  obtain e n where r: "GetTableName env sc tblname = ToLower ?u (show_int e @ ''_'' @ n)"
    by (cases "ParseName tblname"; cases "fst (ParseName tblname) = 0") (simp_all add: GetTableName_def ParseTable_def)
  let ?x = "''_'' @ n"
  obtain m d t where m: "show_int e = m @ d # t" "is_digit d" "m = [] \<or> m = ''-''" using show_int_plain(4) by blast
  have r2: "GetTableName env sc tblname = m @ d # t @ ToLower ?u ?x"
    unfolding r ToLower_append_ascii [OF show_int_plain(1)] show_int_plain(2) using m(1) by simp
  let ?r = "m @ d # t @ ToLower ?u ?x"
  have pn: "ParseName ?r = (0, [])"
    using m(2,3) digit_plain [OF m(2)] by (auto simp: ParseName_def runes_Cons_ascii is_digit_def)
  have "Sanitize ?r [] = d # string_of_runes (filter (sanitize_rune []) (runes (t @ ToLower ?u ?x)))"
  proof -
    have "utf8_encode (of_char d) = [d]" using digit_plain [OF m(2)] by (simp add: utf8_encode_ascii)
    moreover have "\<not> sanitize_rune [] 45" by (simp add: sanitize_rune_def runes_ascii)
    ultimately show ?thesis using m(3) digit_plain [OF m(2)] by (auto simp: Sanitize_def runes_Cons_ascii)
  qed
  then obtain y where y: "Sanitize ?r [] = d # y" by blast
  let ?e = "show_int (sint (cc_EcosystemID (as_call sc)))"
  have "GetTableName env sc ?r = ?e @ ''_'' @ d # ToLower ?u y"
    using pn y digit_plain [OF m(2)] ToLower_append_ascii [of "?e @ ''_'' @ [d]" ?u y] show_int_plain(1,2)
    by (simp add: GetTableName_def ParseTable_def ascii_def lower_char_def is_upper_def)
  moreover have "?e @ ''_'' @ d # ToLower ?u y \<noteq> ''1_'' @ p" if "\<not> is_digit (hd p)" "p \<noteq> []" for p
  proof
    assume eq: "?e @ ''_'' @ d # ToLower ?u y = ''1_'' @ p"
    have "dropWhile (\<lambda>c. c \<noteq> CHR ''_'') (?e @ ''_'' @ d # ToLower ?u y) = ''_'' @ d # ToLower ?u y"
      using show_int_plain(3) by (simp add: dropWhile_append)
    with eq have "d # ToLower ?u y = p" by simp
    with that m(2) show False by auto
  qed
  from this [of "''parameters''"] this [of "''app_params''"] have "?e @ ''_'' @ d # ToLower ?u y \<noteq> ''1_parameters''"
    "?e @ ''_'' @ d # ToLower ?u y \<noteq> ''1_app_params''" by (auto simp: is_digit_def)
  ultimately show ?thesis unfolding r2 founder_table_def by simp
qed

section \<open>Witnesses\<close>

definition sample_acc :: "string list acc_env" where
  "sample_acc =
     \<lparr>ac_db = sample_dbenv, ac_Table = (\<lambda>_ _ _. Inr (''cols'', True)), ac_Permissions = (\<lambda>_ _ _. Inr []),
      ac_cols = (\<lambda>_. Inr [(''amount'', ''owner''), (''title'', ''true'')]), ac_perm = (\<lambda>_. Inl (Error ''json'')), ac_Param = (\<lambda>_ _ _. Inr ([], [])),
      ac_eval = (\<lambda>c w. (Inr (c = ''true''), w)), ac_filter = (\<lambda>_ _ w. (Inr True, w)), ac_compile = (\<lambda>_ w. (Inr (), w)),
      ac_indexes = (\<lambda>_ _. Inr 1), ac_rows = (\<lambda>_ _ _ _ _ _ _. Inr []), ac_roles = (\<lambda>_ _ _. Inr []), ac_row_conditions = (\<lambda>_ _ _. Inr ''owner''),
      ac_columns_of = (\<lambda>_ _. Inr ''cols''), ac_column_count = (\<lambda>_ _. Inr 2), ac_MaxColumns = 50\<rparr>"

definition sample_sc :: acc_sc where
  "sample_sc =
     \<lparr>as_call = \<lparr>cc_VDE = False, cc_Rollback = True, cc_ID = 300, cc_Time = 0, cc_EcosystemID = 1, cc_KeyID = 5, cc_PublicKey = [], cc_SignedBy = 0,
        cc_MaxSum = [], cc_PayOver = [], cc_TokenEcosystem = 1, cc_TxData = [], cc_TxHash = [], cc_TxSignature = [], cc_TxSize = 10,
        cc_PublicKeys = [], cc_BlockData = None, cc_Name = ''@1Edit'',
        cc_Owner = \<lparr>ow_StateID = 1, ow_Active = False, ow_TableID = 0, ow_WalletID = 0, ow_TokenID = 0\<rparr>, cc_Funcs = [], cc_TxCost = 0, cc_TxFuel = 0,
        cc_TxUsedCost = Dec 0 0\<rparr>,
      as_FullAccess = False, as_StackCont = [VString ''@1Edit'']\<rparr>"

lemma sample_selectors:
  "\<not> as_FullAccess sample_sc" "ac_Table sample_acc e t w = Inr (''cols'', True)"
  "ac_cols sample_acc c = Inr [(''amount'', ''owner''), (''title'', ''true'')]" "ac_eval sample_acc ''true'' w = (Inr True, w)"
  by (simp_all add: sample_sc_def sample_acc_def)

lemma sample_table: "GetTableName sample_acc sample_sc ''notes'' = ''1_notes''"
proof -
  have "show_int 1 = ''1''" by (simp add: show_int_def show_nat.simps digit_char_def char_of_def bit_Suc_0_iff)
  then show ?thesis
    by (simp add: GetTableName_def ParseTable_def ParseName_def runes_ascii Sanitize_ascii sanitize_rune_def ToLower_ascii lower_char_def is_upper_def
        sample_sc_def Let_def)
qed

lemma sample_prefix: "PrefixName ''1_notes'' = (''1'', ''notes'')"
  by (simp add: PrefixName_def has_prefix_def is_digit_def)

lemma sample_not_founder: "\<not> founder_table sample_acc sample_sc ''1_notes''"
  using founder_table_resolved [of sample_acc sample_sc "''notes''"] unfolding sample_table .

lemma sample_title: "column_name ''title'' = ''title''"
  by (simp add: column_name_def Sanitize_ascii runes_ascii sanitize_rune_def upto_arrow_def has_prefix_def)

theorem AccessColumns_granted_witness:
  "AccessColumns sample_acc sample_sc ''1_notes'' [''title''] True [] = (Inr [''title''], []) \<and>
   column_granted sample_acc True [(''amount'', ''owner''), (''title'', ''true'')] (column_name ''title'')"
proof -
  have a: "AccessColumns sample_acc sample_sc ''1_notes'' [''title''] True [] = (Inr [''title''], [])"
    using sample_not_founder
    by (simp add: AccessColumns_def sample_prefix sample_title sample_selectors read_db_def bind_db_def ret_db_def star_columns_def check_column_def
        Let_def getPermColumns_def has_prefix_def)
  have order: "set (db_order (ac_db sample_acc) ks) = set ks" for ks by (simp add: sample_acc_def sample_dbenv_def)
  from AccessColumns_granted [OF a sample_prefix order] a sample_not_founder show ?thesis
    by (simp add: sample_selectors)
qed

theorem column_conditions_evaded_witness:
  "AccessColumns sample_acc sample_sc ''1_notes'' [''-amount''] True [] = (Inr [''-amount''], []) \<and>
   update_item ''1_notes'' ''-amount'' ''100'' [] = (''amount=amount-'' @ escapeSingleQuotes ''100'' @ '','', []) \<and>
   AccessColumns sample_acc sample_sc ''1_notes'' [''amount*1''] False [] = (Inr [''amount*1''], []) \<and>
   PrepareColumns [''amount*1''] = ''amount*1''"
proof -
  from column_conditions_evaded [OF sample_selectors(1) sample_not_founder sample_prefix sample_selectors(2,3), of "''owner''"] show ?thesis by simp
qed

section \<open>Who may change conditions\<close>

text \<open>
  C18: whoever changes only the conditions of a row passes \<open>RowConditions\<close> although the condition of the row denies it, unless the table is
  one of seven that have a parameter for it. \<open>app_params\<close> is not among them, and the contract \<open>EditAppParam\<close> of the first ecosystem
  calls \<open>RowConditions\<close> for it.
\<close>

theorem denied_row_conditions_pass:
  assumes "ac_row_conditions env (GetTableName env sc tblname) i w = Inr condition" "condition \<noteq> []"
    and "VString condition \<notin> set (as_StackCont sc)"
    and "ac_eval env condition w = (Inr False, w')" "map_of tableParamConditions tblname = None"
  shows "RowConditions env sc tblname i True w = (Inr (), w') \<and> RowConditions env sc tblname i False w = (Inl errAccessDenied, w')"
  using assms by (simp add: RowConditions_def read_db_def bind_db_def ret_db_def Eval_def AllowChangeCondition_def)

theorem denied_row_conditions_pass_witness:
  "RowConditions sample_acc sample_sc ''app_params'' 7 True [] = (Inr (), []) \<and>
   RowConditions sample_acc sample_sc ''app_params'' 7 False [] = (Inl errAccessDenied, [])"
  by (rule denied_row_conditions_pass [of _ _ _ _ _ "''owner''"])
    (simp_all add: sample_acc_def sample_sc_def tableParamConditions_def)

definition full_name :: "acc_sc \<Rightarrow> string \<Rightarrow> string" where
  "full_name sc name = (if hd name \<noteq> CHR ''@'' then ''@'' @ show_int (sint (cc_EcosystemID (as_call sc))) @ name else name)"

text \<open>
  C23: \<open>ContractAccess\<close> answers whether the contract that runs, the last entry with \<open>@\<close> on the stack of callers, is one of those named; a name
  without \<open>@\<close> is a contract of the ecosystem of the transaction. Callers further down the stack do not count.
\<close>

theorem ContractAccess_caller:
  assumes "as_StackCont sc = earlier @ VString caller # map VString later" "has_prefix ''@'' caller"
    and "list_all (\<lambda>s. \<not> has_prefix ''@'' s) later"
  shows "ContractAccess sc (map VString names) = Inr (\<exists>n\<in>set names. n \<noteq> [] \<and> full_name sc n = caller)"
proof -
  have "top_contract (map VString xs @ VString caller # ys) = Inr (Some caller)" if "list_all (\<lambda>s. \<not> has_prefix ''@'' s) xs" for xs ys
    using that assms(2) by (induction xs) auto
  then have top: "top_contract (rev (as_StackCont sc)) = Inr (Some caller)"
    using assms(1,3) by (simp add: rev_map)
  show ?thesis unfolding ContractAccess_def
    by (induction names) (auto simp: top full_name_def Let_def)
qed

theorem ContractAccess_caller_witness:
  "ContractAccess sample_sc (map VString [''Pay'', ''@1Edit'']) = Inr True"
  using ContractAccess_caller [of sample_sc "[]" "''@1Edit''" "[]" "[''Pay'', ''@1Edit'']"]
  by (simp add: sample_sc_def has_prefix_def full_name_def)

text \<open>\<open>PermColumn\<close> updates every table with the name: its statement is restricted by the name alone, to no ecosystem.\<close>

lemma PermColumn_ignores_ecosystem:
  assumes "StrToInt64 t = 0"
  shows "\<not> st_isKey (sql_target env [''columns''] [v] ''1_tables'' False)"
    and "where_clause env False eco (Some ([''name''], [t])) = Inr ('' WHERE name= '' @ quoted (escapeSingleQuotes t))"
  using assms by (simp_all add: sql_target_def FirstEcosystemTables_def has_prefix_def where_clause_def where_item_def quoted_def Let_def)

end
