(* ===== verification/Contract_Pay.thy ===== *)
theory Contract_Pay
  imports Contract_Call
begin

text \<open>
  The payment for the call of a contract (\<open>payContract\<close> in \<open>packages/smart/smart.go\<close>) keeps the sum of all wallets. The wallets are a
  ledger beside the database; the history is written by the insertion of \<open>packages/smart/selective.go\<close>, which never returns
  the error by which the payment recognizes a wallet that does not exist.
\<close>

section \<open>Insertions do not report a missing row\<close>

text \<open>
  The error of an update of a row that does not exist is the function's own: the database and \<open>json\<close> do not return it.
\<close>

definition foreign_errors :: "'w dbenv \<Rightarrow> bool" where
  "foreign_errors env \<longleftrightarrow>
     (\<forall>q w. db_row env q w \<noteq> Inl errUpdNotExistRecord) \<and> (\<forall>t w. db_count env t w \<noteq> Inl errUpdNotExistRecord) \<and>
     (\<forall>r w. fst (db_rollback env r w) \<noteq> Inl errUpdNotExistRecord) \<and> (\<forall>v. db_json env v \<noteq> Inl errUpdNotExistRecord)"

definition found_db :: "('w, 'a) db \<Rightarrow> bool" where
  "found_db m \<longleftrightarrow> (\<forall>w. fst (m w) \<noteq> Inl errUpdNotExistRecord)"

lemma found_ret: "r \<noteq> Inl errUpdNotExistRecord \<Longrightarrow> found_db (ret_db r)"
  by (simp add: found_db_def ret_db_def)

lemma found_bind: "found_db m \<Longrightarrow> (\<And>x. found_db (k x)) \<Longrightarrow> found_db (bind_db m k)"
  unfolding found_db_def bind_db_def by (auto split: prod.split sum.split) (metis fst_conv)

lemma bind_res_Inl: "bind_res m k = Inl e \<longleftrightarrow> m = Inl e \<or> (\<exists>x. m = Inr x \<and> k x = Inl e)"
  by (cases m) simp_all

lemma found_values: "prepare_values env table flds vals \<noteq> Inl errUpdNotExistRecord"
proof -
  have "checkNow u s \<noteq> Inl errUpdNotExistRecord" for u s by (simp add: checkNow_def Let_def errUpdNotExistRecord_def)
  then have "prepare_value u table flds v \<noteq> Inl errUpdNotExistRecord" for u flds v
    by (cases v) (auto simp: prepare_value_def bind_res_Inl)
  then show ?thesis by (induction vals arbitrary: flds) (auto simp: bind_res_Inl)
qed

lemma found_texts: "foreign_errors env \<Longrightarrow> InterfaceSliceToStr env vals \<noteq> Inl errUpdNotExistRecord"
proof -
  assume "foreign_errors env"
  then have "InterfaceToStr env v \<noteq> Inl errUpdNotExistRecord" for v by (cases v) (simp_all add: InterfaceToStr_def foreign_errors_def)
  then show ?thesis by (induction vals) (auto simp: bind_res_Inl)
qed

lemma found_select: "select_fields flds \<noteq> Inl errUpdNotExistRecord"
  by (induction flds) (auto simp: select_field_def slice_error_def errUpdNotExistRecord_def bind_res_Inl split: if_splits)

lemma found_cost: "foreign_errors env \<Longrightarrow> found_db (query_cost env q)"
proof -
  assume "foreign_errors env"
  moreover have "query_type s \<noteq> Inl errUpdNotExistRecord" for s by (simp add: query_type_def UnknownQueryTypeError_def errUpdNotExistRecord_def)
  moreover have "field_at fs i \<noteq> Inl errUpdNotExistRecord" for fs i by (simp add: field_at_def errUpdNotExistRecord_def)
  then have "GetTableName t \<noteq> Inl errUpdNotExistRecord" for t
    by (cases t) (auto simp: Let_def FromStatementMissingError_def DeleteMinimumThreeFieldsError_def SetStatementMissingError_def
        IntoStatementMissingError_def errUpdNotExistRecord_def bind_res_Inl)
  ultimately show ?thesis by (auto simp: found_db_def query_cost_def QueryCost_def foreign_errors_def bind_res_Inl)
qed

lemma found_items: "insert_items table flds vals p \<noteq> Inl errUpdNotExistRecord"
proof (induction table flds vals p rule: insert_items.induct)
  case (3 table f fs v vs p)
  have "insert_value table f v \<noteq> Inl errUpdNotExistRecord" by (simp add: insert_value_def slice_error_def errUpdNotExistRecord_def)
  with 3 show ?case by (auto simp: Let_def bind_res_Inl)
qed (simp_all add: errUpdNotExistRecord_def)

lemma found_insert:
  assumes "foreign_errors env"
  shows "found_db (do_insert env t flds vals None)"
proof -
  have "found_db (GetNextID env table)" for table
    using assms by (auto simp: found_db_def GetNextID_def foreign_errors_def bind_res_Inl)
  moreover have "found_db (log_error m)" for m :: "('a, unit) db"
    by (auto simp: found_db_def log_error_def errUpdNotExistRecord_def split: prod.split sum.split go_exc.split)
  ultimately show ?thesis unfolding do_insert_def Let_def
    by (auto intro!: found_bind found_ret found_items found_cost [OF assms] split: option.split)
qed

lemma found_sc_insert:
  assumes "foreign_errors env"
  shows "found_db (sc_insert env sc flds vals table)"
proof -
  have "found_db (\<lambda>w. (db_row env q w, w))" for q using assms by (simp add: found_db_def foreign_errors_def)
  moreover have "found_db (addRollback env sc tbl i info)" for tbl i info
    using assms by (auto simp: found_db_def addRollback_def foreign_errors_def ret_db_def nil_deref_def errUpdNotExistRecord_def split: option.split)
  moreover have "Error ''It is impossible to write to DB when Block is undefined'' \<noteq> errUpdNotExistRecord" by (simp add: errUpdNotExistRecord_def)
  ultimately show ?thesis
    unfolding sc_insert_def selectiveLoggingAndUpd_def Let_def
    by (auto simp: where_clause_def intro!: found_bind found_ret found_values found_texts [OF assms] found_select found_cost [OF assms] found_insert [OF assms])
qed

section \<open>Payments keep the sum of all wallets\<close>

text \<open>
  A ledger beside the database: it changes with every update that succeeded. Running the payment with the ledger does to the
  database what the payment does.
\<close>

definition ledger_upd :: "(string \<Rightarrow> decimal \<Rightarrow> string \<Rightarrow> ('w, unit) db) \<Rightarrow> string \<Rightarrow> decimal \<Rightarrow> string \<Rightarrow> ('w \<times> (string \<Rightarrow> rat), unit) db" where
  "ledger_upd upd fld d wallet = (\<lambda>(w, L).
     case upd fld d wallet w of
       (Inr _, w') \<Rightarrow> (Inr (), w', L(wallet := L wallet + (if fld = ''+amount'' then dec_rat d else - dec_rat d)))
     | (Inl e, w') \<Rightarrow> (Inl e, w', L))"

definition ledger_hist :: "(string \<Rightarrow> decimal \<Rightarrow> ('w, unit) db) \<Rightarrow> string \<Rightarrow> decimal \<Rightarrow> ('w \<times> (string \<Rightarrow> rat), unit) db" where
  "ledger_hist hist t d = (\<lambda>(w, L). case hist t d w of (r, w') \<Rightarrow> (r, w', L))"

definition pay_ledger :: "'w call_env \<Rightarrow> sc_call \<Rightarrow> decimal \<Rightarrow> key_row \<Rightarrow> int64 \<Rightarrow> int64 \<Rightarrow> ('w \<times> (string \<Rightarrow> rat), unit) db" where
  "pay_ledger env sc fuelRate payWallet fromID toID =
     bind_db (ret_db (pay_amounts env (cc_TxUsedCost sc) fuelRate (key_Amount payWallet))) (\<lambda>(apl, commission).
       pay_split (ledger_upd (wallet_update env sc)) (ledger_hist (pay_history env sc (show_int (sint fromID)))) apl commission
         (show_int (sint fromID)) (show_int (sint toID)) (cl_CommissionWallet env (cc_TokenEcosystem sc)))"

text \<open>The writing of the history never fails with the error of an update.\<close>

definition hist_ok :: "(string \<Rightarrow> decimal \<Rightarrow> ('w, unit) db) \<Rightarrow> bool" where
  "hist_ok hist \<longleftrightarrow> (\<forall>t d w. fst (hist t d w) \<noteq> Inl errUpdNotExistRecord)"

definition credit :: "string \<Rightarrow> rat \<Rightarrow> (string \<Rightarrow> rat) \<Rightarrow> string \<Rightarrow> rat" where
  "credit i x L = L(i := L i + x)"

lemma credit_sum: "finite S \<Longrightarrow> i \<in> S \<Longrightarrow> sum (credit i x L) S = sum L S + x"
  by (simp add: credit_def sum.remove [of S i])

lemma found_history: "foreign_errors (cl_db env) \<Longrightarrow> hist_ok (pay_history env sc fromID)"
proof -
  assume a: "foreign_errors (cl_db env)"
  have "found_db (pay_history env sc fromID t d)" for t d
    unfolding pay_history_def unit_db_def
    by (cases "cc_BlockData sc") (auto intro!: found_bind found_ret found_sc_insert [OF a] simp: nil_deref_def errUpdNotExistRecord_def)
  then show ?thesis by (simp add: hist_ok_def found_db_def)
qed

lemma credit_zero [simp]: "credit i 0 L = L"
  by (simp add: credit_def)

lemma pay_commission_ledger:
  assumes "hist_ok hist"
  shows "\<exists>L'. unless_missing (payCommission (ledger_upd upd) (ledger_hist hist) t d) (w, L) =
      (fst (unless_missing (payCommission upd hist t d) w), snd (unless_missing (payCommission upd hist t d) w), L') \<and>
    (fst (unless_missing (payCommission upd hist t d) w) = Inr True \<longrightarrow> L' = credit t (dec_rat d) L \<and> fst (upd ''+amount'' d t w) \<noteq> Inl errUpdNotExistRecord) \<and>
    (fst (unless_missing (payCommission upd hist t d) w) = Inr False \<longrightarrow> L' = L \<and> fst (upd ''+amount'' d t w) = Inl errUpdNotExistRecord)"
proof (cases "upd ''+amount'' d t w")
  case (Pair r w1)
  have step: "payCommission upd hist t d w = (case r of Inl e \<Rightarrow> (Inl e, w1) | Inr _ \<Rightarrow> hist t d w1)"
    "payCommission (ledger_upd upd) (ledger_hist hist) t d (w, L) =
      (case r of Inl e \<Rightarrow> (Inl e, w1, L) | Inr _ \<Rightarrow> ledger_hist hist t d (w1, credit t (dec_rat d) L))"
    using Pair by (simp_all add: payCommission_def bind_db_def ledger_upd_def credit_def split: sum.split)
  show ?thesis
  proof (cases r)
    case (Inl e)
    then show ?thesis using step Pair by (simp add: unless_missing_def)
  next
    case (Inr u)
    obtain r2 w2 where h: "hist t d w1 = (r2, w2)" by (cases "hist t d w1")
    then have "r2 \<noteq> Inl errUpdNotExistRecord" using assms unfolding hist_ok_def by (metis fst_conv)
    then show ?thesis using step Inr h Pair by (cases r2) (simp_all add: unless_missing_def ledger_hist_def)
  qed
qed

text \<open>
  What a payment that succeeded did: the share of a receiver is its full share, or nothing when its wallet does not exist, and the
  payer loses what the receivers got.
\<close>

definition share :: "(string \<Rightarrow> decimal \<Rightarrow> string \<Rightarrow> ('w, unit) db) \<Rightarrow> string \<Rightarrow> decimal \<Rightarrow> 'w \<Rightarrow> rat" where
  "share upd wallet d w = (if fst (upd ''+amount'' d wallet w) = Inl errUpdNotExistRecord then 0 else dec_rat d)"

lemma pay_split_ledger:
  assumes "hist_ok hist" "pay_split upd hist apl com from to cw w = (Inr (), w')"
  shows "\<exists>x y. x = share upd to (dec_Sub apl com) w \<and> (\<exists>w1. y = share upd cw com w1) \<and>
    pay_split (ledger_upd upd) (ledger_hist hist) apl com from to cw (w, L) = (Inr (), w', credit from (- (x + y)) (credit cw y (credit to x L)))"
proof -
  let ?m1 = "unless_missing (payCommission upd hist to (dec_Sub apl com))"
  let ?m2 = "unless_missing (payCommission upd hist cw com)"
  obtain p1 w1 where m1: "?m1 w = (Inr p1, w1)"
    using assms(2) by (auto simp: pay_split_def bind_db_def split: prod.splits sum.splits)
  obtain p2 w2 where m2: "?m2 w1 = (Inr p2, w2)"
    using assms(2) m1 by (auto simp: pay_split_def bind_db_def Let_def split: prod.splits sum.splits)
  let ?a1 = "if p1 then apl else com"
  let ?a2 = "if p2 then ?a1 else dec_Sub ?a1 com"
  let ?x = "if p1 then dec_rat (dec_Sub apl com) else 0"
  let ?y = "if p2 then dec_rat com else 0"
  have m3: "upd ''-amount'' ?a2 from w2 = (Inr (), w')"
    using assms(2) m1 m2 by (auto simp: pay_split_def bind_db_def Let_def split: prod.splits sum.splits go_exc.splits)
  have L1: "unless_missing (payCommission (ledger_upd upd) (ledger_hist hist) to (dec_Sub apl com)) (w, L) = (Inr p1, w1, credit to ?x L)"
    "?x = share upd to (dec_Sub apl com) w"
    using pay_commission_ledger [OF assms(1), of upd to "dec_Sub apl com" w L] m1 by (cases p1; auto simp: share_def)+
  have L2: "unless_missing (payCommission (ledger_upd upd) (ledger_hist hist) cw com) (w1, credit to ?x L) = (Inr p2, w2, credit cw ?y (credit to ?x L))"
    "?y = share upd cw com w1"
    using pay_commission_ledger [OF assms(1), of upd cw com w1 "credit to ?x L"] m2 by (cases p2; auto simp: share_def)+
  have "dec_rat ?a2 = ?x + ?y" by (simp add: dec_Sub_rat)
  then have "pay_split (ledger_upd upd) (ledger_hist hist) apl com from to cw (w, L) =
      (Inr (), w', credit from (- (?x + ?y)) (credit cw ?y (credit to ?x L)))"
    using L1(1) L2(1) m3 unfolding pay_split_def bind_db_def Let_def
    by (simp add: ledger_upd_def [of upd "''-amount''"] credit_def [of "from"])
  with L1(2) L2(2) show ?thesis by blast
qed

abbreviation wallet_of :: "int64 \<Rightarrow> string" where
  "wallet_of i \<equiv> show_int (sint i)"


section \<open>A payment on a concrete database\<close>

definition sample_call_env :: "string list call_env" where
  "sample_call_env =
     \<lparr>cl_vm = undefined, cl_db = sample_dbenv,
      cl_Key = (\<lambda>e i w. Inl errCurrentBalance),
      cl_MaxCost = 1000, cl_Private = False, cl_FuelRate = (\<lambda>_. ''1''), cl_SizeFuel = 0, cl_commission = 3, cl_CommissionWallet = (\<lambda>_. ''9''),
      cl_Nodes = [], cl_NodePublic = Inr [], cl_Address = (\<lambda>_. 5), cl_verify = (\<lambda>_ _ _. Inr True), cl_date = (\<lambda>_. ''2018''), cl_wrap = (\<lambda>e. e)\<rparr>"

definition paid_call :: sc_call where
  "paid_call = whoami_call\<lparr>cc_Rollback := True, cc_TxUsedCost := Dec 40 0\<rparr>"

definition sample_key :: key_row where
  "sample_key = \<lparr>key_PublicKey = [1], key_Amount = ''100'', key_Maxpay = [], key_Deleted = 0\<rparr>"

lemmas ascii_eval = ToLower_ascii TrimSpace_ascii lower_char_def is_upper_def IsSpace_def

lemma small_digits: "show_int 1 = ''1''" "show_int 5 = ''5''" "show_int 7 = ''7''" "show_int 9 = ''9''" "show_int 0 = ''0''" "show_int 42 = ''42''"
  by (simp_all add: show_int_def show_nat.simps digit_char_def char_of_def bit_Suc_0_iff)

lemma keys_target: "fld \<in> {''+amount'', ''-amount''} \<Longrightarrow> sql_target sample_dbenv [fld] [VDec d] ''1_keys'' False =
  \<lparr>st_table = ''1_keys'', st_flds = [fld, ''ecosystem''], st_vals = [VDec d, VString ''1''], st_isKey = True, st_ecosystem = ''1'', st_name = ''keys''\<rparr>"
  by (auto simp add: sql_target_def has_prefix_def FirstEcosystemTables_def getParam_def ascii_eval Let_def)

lemma keys_values: "prepare_values sample_dbenv ''1_keys'' [fld, ''ecosystem''] [VDec d, VString ''1''] = Inr [VDec d, VString ''1'']"
  by (simp add: prepare_value_def ascii_eval has_prefix_def IsByteColumn_def)

lemma keys_select: "fld \<in> {''+amount'', ''-amount''} \<Longrightarrow> select_fields [fld, ''ecosystem''] = Inr (''amount,'' @ Quote @ ''ecosystem'' @ Quote @ '','')"
  by (auto simp add: select_field_def is_sign_def has_prefix_def timestampPrefix_def str_contains_def in_quotes_def)

lemma keys_flds: "fld \<in> {''+amount'', ''-amount''} \<Longrightarrow> map (\<lambda>f. TrimSpace (ToLower u f)) [fld, ''ecosystem''] = [fld, ''ecosystem'']"
  by (auto simp: ascii_eval)

lemma small_ints: "StrToInt64 ''1'' = 1" "StrToInt64 ''5'' = 5" "StrToInt64 ''7'' = 7" "StrToInt64 ''9'' = 9"
  unfolding small_digits(1-4) [symmetric] StrToInt64_def
  by (simp_all add: ParseInt_show_int min_int64_def max_int64_def)

definition where_text :: "string \<Rightarrow> string" where
  "where_text i = '' WHERE id= '' @ i @ '' AND ecosystem = '' @ quoted ''1''"

lemma keys_where: "i \<in> {''5'', ''7'', ''9''} \<Longrightarrow> where_clause sample_dbenv True ''1'' (Some ([''id''], [i])) = Inr (where_text i)"
  by (auto simp: where_clause_def where_item_def small_ints small_digits getParam_def ascii_eval where_text_def quoted_def)

lemma where_text_ascii: "i \<in> {''5'', ''7'', ''9''} \<Longrightarrow> ascii (where_text i) \<and> where_text i \<noteq> [] \<and> \<not> space_char (last (where_text i))"
  by (auto simp: where_text_def quoted_def IsSpace_def)

lemma table_lower: "map lower_char (in_quotes ''1_keys'') = in_quotes ''1_keys''" "map lower_char (in_quotes ''1_history'') = in_quotes ''1_history''"
  by code_simp+

lemma table_words: "is_word (in_quotes ''1_keys'')" "is_word (in_quotes ''1_history'')" "in_quotes s \<noteq> ''set''" "str_index ''('' (in_quotes ''1_history'') = None"
  by (simp_all add: in_quotes_def quote_char is_word_def IsSpace_def has_prefix_def)

lemma keys_select_cost:
  assumes "i \<in> {''5'', ''7'', ''9''}"
  shows "query_cost sample_dbenv (select_query (''amount,'' @ Quote @ ''ecosystem'' @ Quote @ '','') ''1_keys'' (where_text i)) w = (Inr (SelectCost + rows_cost 100), w)"
proof -
  have t: "trim_right '','' (''id,'' @ ''amount,'' @ Quote @ ''ecosystem'' @ Quote @ '','') = ''id,amount,'' @ Quote @ ''ecosystem'' @ Quote"
    by (simp add: trim_right_def quote_char)
  have w: "is_word (''id,amount,'' @ Quote @ ''ecosystem'' @ Quote)" "map lower_char (''id,amount,'' @ Quote @ ''ecosystem'' @ Quote) \<noteq> ''from''"
    by (simp_all add: is_word_def IsSpace_def quote_char)
  show ?thesis unfolding query_cost_def select_query_def t
    by (subst select_cost) (use w where_text_ascii [OF assms] in \<open>simp_all add: table_lower table_words\<close>, simp add: sample_dbenv_def)
qed

lemma keys_update_cost:
  assumes "i \<in> {''5'', ''7'', ''9''}" "ascii sets"
  shows "query_cost sample_dbenv (''UPDATE '' @ in_quotes ''1_keys'' @ '' SET '' @ sets @ where_text i) w = (Inr (UpdateCost + rows_cost 100), w)"
  unfolding query_cost_def
  by (subst update_cost) (use assms where_text_ascii [OF assms(1)] in \<open>simp_all add: table_lower table_words\<close>, simp add: sample_dbenv_def)

text \<open>The update of a wallet.\<close>

lemma keys_set:
  assumes "fld \<in> {''+amount'', ''-amount''}" "ascii v" "v \<noteq> []" "CHR 0x27 \<notin> set v" "last v \<noteq> CHR '',''"
  shows "\<exists>sets. ascii sets \<and> update_set sample_dbenv True ''1_keys'' [fld, ''ecosystem''] [v, e] logData = Inr sets"
proof -
  have trim: "trim_right '','' (xs @ v @ '','') = xs @ v" for xs
    using assms(3,5) by (cases v rule: rev_cases) (simp_all add: trim_right_def)
  have ord: "db_order sample_dbenv xs = xs" for xs by (simp add: sample_dbenv_def)
  have "update_set sample_dbenv True ''1_keys'' [''+amount'', ''ecosystem''] [v, e] logData = Inr (''amount=amount+'' @ v)"
    using trim [of "''amount=amount+''"] assms(4) by (simp add: update_set_def update_item_def IsByteColumn_def escape_plain ord)
  moreover have "update_set sample_dbenv True ''1_keys'' [''-amount'', ''ecosystem''] [v, e] logData = Inr (''amount=amount-'' @ v)"
    using trim [of "''amount=amount-''"] assms(4) by (simp add: update_set_def update_item_def IsByteColumn_def escape_plain ord)
  moreover have "ascii (''amount=amount+'' @ v)" "ascii (''amount=amount-'' @ v)" using assms(2) by simp_all
  ultimately show ?thesis using assms(1) by blast
qed

lemma wallet_updated:
  assumes "fld \<in> {''+amount'', ''-amount''}" "i \<in> {''5'', ''7'', ''9''}" "d \<in> {Dec 1 0, Dec 39 0, Dec 40 0}"
  shows "\<exists>w'. wallet_update sample_call_env paid_call fld d i w = (Inr (), w')"
proof -
  have d: "dec_String (Dec 1 0) = ''1''" "dec_String (Dec 39 0) = ''39''" "dec_String (Dec 40 0) = ''40''"
    by code_simp+
  have v: "ascii (dec_String d)" "dec_String d \<noteq> []" "CHR 0x27 \<notin> set (dec_String d)" "last (dec_String d) \<noteq> CHR '',''"
    using assms(3) d by auto
  obtain sets where sets: "ascii sets" "update_set sample_dbenv True ''1_keys'' [fld, ''ecosystem''] [dec_String d, ''1''] [(''id'', ''41'')] = Inr sets"
    using keys_set [OF assms(1) v] by blast
  have exe: "db_exec sample_dbenv q w = (Inr (), w @ [q])" "db_json_map sample_dbenv m = ''{}''" for q w m by (simp_all add: sample_dbenv_def)
  have upd: "\<exists>c w'. do_update sample_dbenv (db_data paid_call)
      \<lparr>st_table = ''1_keys'', st_flds = [fld, ''ecosystem''], st_vals = [VDec d, VString ''1''], st_isKey = True, st_ecosystem = ''1'', st_name = ''keys''\<rparr>
      [fld, ''ecosystem''] [dec_String d, ''1''] (where_text i) [(''id'', ''41'')] w = (Inr (c, ''41'', ''{}''), w')" for w
    using keys_update_cost [OF assms(2) sets(1), of w]
    by (simp add: do_update_def sets(2) rollback_info_def bind_db_def ret_db_def db_data_def paid_call_def whoami_call_def model_Update_def exe)
  have row: "db_row sample_dbenv q w = Inr [(''id'', ''41'')]" for q w by (simp add: sample_dbenv_def)
  have rb: "addRollback sample_dbenv (db_data paid_call) a b c w = (Inr (), w)" for a b c w
    by (simp add: addRollback_def db_data_def paid_call_def whoami_call_def sample_dbenv_def)
  have str: "InterfaceSliceToStr sample_dbenv [VDec d, VString ''1''] = Inr [dec_String d, ''1'']" by (simp add: InterfaceToStr_def)
  have sp: "db_sprint sample_dbenv (VString i) = i" by (simp add: sample_dbenv_def)
  have sd: "sd_BlockID (db_data paid_call) = Some (bd_BlockID empty_BlockData)" by (simp add: db_data_def paid_call_def whoami_call_def)
  have "\<exists>r w'. sc_update sample_dbenv (db_data paid_call) [fld] [VDec d] ''1_keys'' ''id'' (VString i) w = (Inr r, w')"
    using upd [of w] keys_select_cost [OF assms(2), of w]
    by (auto simp: sc_update_def selectiveLoggingAndUpd_def Let_def keys_target [OF assms(1)] keys_values keys_select [OF assms(1)] keys_flds [OF assms(1)] keys_where [OF assms(2)] str sp sd rb row
        bind_db_def ret_db_def simp del: list.map select_fields.simps prepare_values.simps InterfaceSliceToStr.simps)
  then show ?thesis
    by (auto simp: wallet_update_def unit_db_def sample_call_env_def paid_call_def whoami_call_def small_digits bind_db_def ret_db_def simp flip: )
qed

definition hist_cols :: "string list" where
  "hist_cols = [''sender_id'', ''recipient_id'', ''amount'', ''comment'', ''block_id'', ''txhash'', ''ecosystem'', ''created_at'']"

definition hist_comment :: string where
  "hist_comment = ''Commission for execution of @1C contract''"

definition hist_time :: string where
  "hist_time = ''timestamp '' @ quoted ''2018''"

lemma time_allowed: "checkNow u hist_time = Inr ()"
proof -
  have "ToLower u hist_time = map lower_char hist_time" by (rule ToLower_ascii) (simp add: quoted_def hist_time_def)
  also have "\<dots> = hist_time" by code_simp
  finally have "ToLower u hist_time = hist_time" .
  moreover have "\<not> (has_now hist_time \<or> str_contains hist_time ''localtime'' \<or> str_contains hist_time ''current_date'' \<or> str_contains hist_time ''current_time'')"
    by code_simp
  ultimately show ?thesis by (simp add: checkNow_def Let_def)
qed

definition hist_vals :: "string \<Rightarrow> string \<Rightarrow> decimal \<Rightarrow> val list" where
  "hist_vals i j d = [VString i, VString j, VDec d, VString hist_comment, VInt64 0, VBytes [2], VInt64 1, VString hist_time]"

lemma hist_values_kept: "i \<in> {''5'', ''7'', ''9''} \<Longrightarrow> j \<in> {''5'', ''7'', ''9''} \<Longrightarrow> prepare_values sample_dbenv ''1_history'' hist_cols (hist_vals i j d) = Inr (hist_vals i j d)"
proof -
  have "TrimSpace hist_comment = hist_comment" by (rule TrimSpace_ascii) (simp_all add: hist_comment_def IsSpace_def)
  then have c: "prepare_value u t (''comment'' # fs) (VString hist_comment) = Inr (VString hist_comment)" for u t fs
    by (simp add: prepare_value_def IsByteColumn_def) (simp add: hist_comment_def has_prefix_def)
  have "prepare_value u t (''created_at'' # fs) (VString hist_time) = Inr (VString hist_time)" for u t fs
    by (simp add: prepare_value_def IsByteColumn_def time_allowed)
  moreover have "prepare_value u t (''sender_id'' # fs) (VString i) = Inr (VString i)" "prepare_value u t (''recipient_id'' # fs) (VString i) = Inr (VString i)"
    if "i \<in> {''5'', ''7'', ''9''}" for u t fs i
    using that by (auto simp: prepare_value_def IsByteColumn_def TrimSpace_ascii IsSpace_def has_prefix_def)
  moreover have "prepare_value u t fs (VDec d) = Inr (VDec d)" "prepare_value u t fs (VInt64 b) = Inr (VInt64 b)" "prepare_value u t fs (VBytes h) = Inr (VBytes h)" for u t fs b h
    by (simp_all add: prepare_value_def)
  moreover assume "i \<in> {''5'', ''7'', ''9''}" "j \<in> {''5'', ''7'', ''9''}"
  ultimately show ?thesis by (simp add: c hist_cols_def hist_vals_def)
qed

definition hist_texts :: "string \<Rightarrow> string \<Rightarrow> decimal \<Rightarrow> string list" where
  "hist_texts i j d = [i, j, dec_String d, hist_comment, ''0'', [CHR 0x02], ''1'', hist_time]"

lemma hist_strings: "InterfaceSliceToStr sample_dbenv (hist_vals i j d) = Inr (hist_texts i j d)"
proof -
  have "string_of_bytes [2] = [CHR 0x02]" by code_simp
  then show ?thesis by (simp add: hist_vals_def hist_texts_def InterfaceToStr_def small_digits)
qed

lemma hist_flds: "map (\<lambda>f. TrimSpace (ToLower u f)) hist_cols = hist_cols"
  by (simp add: hist_cols_def ToLower_ascii TrimSpace_ascii IsSpace_def lower_char_def is_upper_def)

lemma hist_target: "sql_target sample_dbenv hist_cols vals ''1_history'' True =
  \<lparr>st_table = ''1_history'', st_flds = hist_cols, st_vals = vals, st_isKey = False, st_ecosystem = [], st_name = ''history''\<rparr>"
  by (simp add: sql_target_def has_prefix_def FirstEcosystemTables_def Let_def)

lemma hist_select: "\<exists>cols. select_fields hist_cols = Inr (cols @ '','') \<and> is_word cols \<and> hd cols = CHR 0x22 \<and> last cols = CHR 0x22"
proof -
  have "select_field f = Inr (in_quotes f @ '','')" if "f \<in> set hist_cols" for f
    using that by (auto simp: hist_cols_def select_field_def is_sign_def has_prefix_def timestampPrefix_def str_contains_def)
  then have s: "select_fields hist_cols = Inr (concat (map (\<lambda>f. in_quotes f @ '','') hist_cols))"
    by (simp add: hist_cols_def)
  obtain cols where c: "concat (map (\<lambda>f. in_quotes f @ '','') hist_cols) = cols @ '',''" "is_word cols" "hd cols = CHR 0x22" "last cols = CHR 0x22"
  proof -
    let ?c = "butlast (concat (map (\<lambda>f. in_quotes f @ '','') hist_cols))"
    have "concat (map (\<lambda>f. in_quotes f @ '','') hist_cols) = ?c @ '',''" "is_word ?c" "hd ?c = CHR 0x22" "last ?c = CHR 0x22"
      by (simp_all add: hist_cols_def in_quotes_def quote_char is_word_def IsSpace_def)
    then show ?thesis using that by blast
  qed
  then show ?thesis using s by (intro exI [of _ cols]) simp
qed

lemma hist_select_cost:
  assumes "is_word cols" "hd cols = CHR 0x22" "last cols = CHR 0x22"
  shows "query_cost sample_dbenv (select_query (cols @ '','') ''1_history'' []) w = (Inr (SelectCost + rows_cost 100), w)"
proof -
  have t: "trim_right '','' (''id,'' @ cols @ '','') = ''id,'' @ cols"
    using assms by (cases cols rule: rev_cases) (auto simp: trim_right_def is_word_def)
  have w: "is_word (''id,'' @ cols)" "map lower_char (''id,'' @ cols) \<noteq> ''from''"
    using assms(1) by (simp_all add: is_word_def IsSpace_def lower_char_def is_upper_def)
  show ?thesis unfolding query_cost_def select_query_def t
    by (subst select_cost) (use w in \<open>simp_all add: table_lower table_words\<close>, simp add: sample_dbenv_def)
qed

definition ascii_column :: "string \<Rightarrow> string \<Rightarrow> string \<Rightarrow> bool" where
  "ascii_column table f v \<longleftrightarrow> split_arrow f = None \<and> f \<noteq> ''id'' \<and> ascii (insert_column f) \<and> (\<exists>s. insert_value table f v = Inr s \<and> ascii s)"

lemma insert_items_ascii:
  "list_all2 (ascii_column table) flds vals \<Longrightarrow> list_all ascii (ip_columns p) \<Longrightarrow> list_all ascii (ip_values p) \<Longrightarrow>
   \<exists>p'. insert_items table flds vals p = Inr p' \<and> ip_json p' = ip_json p \<and> ip_id p' = ip_id p \<and> list_all ascii (ip_columns p') \<and> list_all ascii (ip_values p')"
proof (induction flds vals arbitrary: p rule: list_all2_induct)
  case (Cons f fs v vs)
  obtain s where s: "insert_value table f v = Inr s" "ascii s" using Cons(1) by (auto simp: ascii_column_def)
  show ?case using Cons(1,4,5) s Cons(3) [of "p\<lparr>ip_columns := ip_columns p @ [insert_column f], ip_values := ip_values p @ [s]\<rparr>"]
    by (simp add: ascii_column_def)
qed simp

lemma hist_items:
  assumes "i \<in> {''5'', ''7'', ''9''}" "j \<in> {''5'', ''7'', ''9''}" "d \<in> {Dec 1 0, Dec 39 0}"
  shows "\<exists>p. insert_items ''1_history'' hist_cols (hist_texts i j d) \<lparr>ip_columns = [], ip_values = [], ip_json = [], ip_id = None\<rparr> = Inr p \<and>
    ip_json p = [] \<and> ip_id p = None \<and> list_all ascii (ip_columns p) \<and> list_all ascii (ip_values p)"
proof -
  have d: "dec_String d \<in> {''1'', ''39''}"
  proof -
    have "dec_String (Dec 1 0) = ''1''" "dec_String (Dec 39 0) = ''39''" by code_simp+
    then show ?thesis using assms(3) by auto
  qed
  have b: "IsByteColumn ''1_history'' ''txhash''" "hex_encode (bytes_of_string [CHR 0x02]) = ''02''" by code_simp+
  have col: "split_arrow f = None \<and> f \<noteq> ''id'' \<and> ascii (insert_column f)" if "f \<in> set hist_cols" for f
    using that by (auto simp: hist_cols_def split_arrow_def insert_column_def is_sign_def has_prefix_def timestampPrefix_def in_quotes_def quote_char)
  have small: "insert_value ''1_history'' f x = Inr (quoted x)"
    if "x \<in> {''0'', ''1'', ''5'', ''7'', ''9'', ''39''}" "f \<in> {''sender_id'', ''recipient_id'', ''amount'', ''block_id'', ''ecosystem''}" for f x
  proof -
    have "\<not> IsByteColumn ''1_history'' f \<and> \<not> has_prefix ''timestamp'' f" using that(2) by (elim insertE emptyE; simp add: IsByteColumn_def has_prefix_def)
    moreover have "x \<noteq> ''NULL'' \<and> \<not> has_prefix ''timestamp'' x \<and> escapeSingleQuotes x = x" using that(1) by (elim insertE emptyE; simp add: has_prefix_def)
    ultimately show ?thesis by (simp add: insert_value_def)
  qed
  have sm: "ascii_column ''1_history'' f x"
    if x: "x \<in> {''0'', ''1'', ''5'', ''7'', ''9'', ''39''}" and f: "f \<in> {''sender_id'', ''recipient_id'', ''amount'', ''block_id'', ''ecosystem''}" for f x
  proof -
    have "ascii (quoted x)" using x by (elim insertE emptyE; simp add: quoted_def)
    moreover have "f \<in> set hist_cols" using f by (elim insertE emptyE; simp add: hist_cols_def)
    ultimately show ?thesis using col [of f] small [OF x f] by (simp add: ascii_column_def)
  qed
  have q: "ascii (quoted s) \<longleftrightarrow> ascii s" for s by (simp add: quoted_def)
  have in_cols: "''txhash'' \<in> set hist_cols" "''comment'' \<in> set hist_cols" "''created_at'' \<in> set hist_cols" by (simp_all add: hist_cols_def)
  have "insert_value ''1_history'' ''txhash'' [CHR 0x02] = Inr (''decode('' @ quoted ''02'' @ '','' @ quoted ''HEX'' @ '')'')"
    by (simp add: insert_value_def b)
  then have c1: "ascii_column ''1_history'' ''txhash'' [CHR 0x02]" using col [OF in_cols(1)] by (simp add: ascii_column_def q)
  have "insert_value ''1_history'' ''comment'' hist_comment = Inr (quoted (escapeSingleQuotes hist_comment))"
    by (simp add: insert_value_def IsByteColumn_def has_prefix_def hist_comment_def)
  moreover have "ascii (escapeSingleQuotes hist_comment)" by (simp add: hist_comment_def)
  ultimately have c2: "ascii_column ''1_history'' ''comment'' hist_comment" using col [OF in_cols(2)] by (simp add: ascii_column_def q)
  have "insert_value ''1_history'' ''created_at'' hist_time = Inr (''timestamp '' @ quoted (escapeSingleQuotes (quoted ''2018'')))"
    by (simp add: insert_value_def IsByteColumn_def has_prefix_def hist_time_def timestampPrefix_def)
  moreover have "ascii (escapeSingleQuotes (quoted ''2018''))" by (simp add: quoted_def)
  ultimately have c3: "ascii_column ''1_history'' ''created_at'' hist_time" using col [OF in_cols(3)] by (simp add: ascii_column_def q)
  have "ascii_column ''1_history'' ''sender_id'' i" "ascii_column ''1_history'' ''recipient_id'' j" "ascii_column ''1_history'' ''amount'' (dec_String d)"
    "ascii_column ''1_history'' ''block_id'' ''0''" "ascii_column ''1_history'' ''ecosystem'' ''1''"
    using assms(1,2) d by - (rule sm; (elim insertE emptyE)?; simp only: insert_iff simp_thms)+
  with c1 c2 c3 have "list_all2 (ascii_column ''1_history'') hist_cols (hist_texts i j d)"
    unfolding hist_cols_def hist_texts_def by (intro list.rel_intros)
  from insert_items_ascii [OF this, of "\<lparr>ip_columns = [], ip_values = [], ip_json = [], ip_id = None\<rparr>"] show ?thesis by simp
qed

lemma hist_inserted:
  assumes "i \<in> {''5'', ''7'', ''9''}" "j \<in> {''5'', ''7'', ''9''}" "d \<in> {Dec 1 0, Dec 39 0}"
  shows "\<exists>w'. do_insert sample_dbenv
      \<lparr>st_table = ''1_history'', st_flds = hist_cols, st_vals = vals, st_isKey = False, st_ecosystem = [], st_name = ''history''\<rparr>
      hist_cols (hist_texts i j d) None w = (Inr (InsertCost, ''42'', []), w')"
proof -
  obtain p where p: "insert_items ''1_history'' hist_cols (hist_texts i j d) \<lparr>ip_columns = [], ip_values = [], ip_json = [], ip_id = None\<rparr> = Inr p"
    "ip_json p = []" "ip_id p = None" "list_all ascii (ip_columns p)" "list_all ascii (ip_values p)"
    using hist_items [OF assms] by blast
  show ?thesis by (rule sample_insert [OF _ p(2-5)]) (simp_all add: p(1) table_lower table_words)
qed

lemma history_written:
  assumes "i \<in> {''5'', ''7'', ''9''}" "j \<in> {''5'', ''7'', ''9''}" "d \<in> {Dec 1 0, Dec 39 0}"
  shows "\<exists>w'. pay_history sample_call_env paid_call i j d w = (Inr (), w')"
proof -
  obtain cols where c: "select_fields hist_cols = Inr (cols @ '','')" "is_word cols" "hd cols = CHR 0x22" "last cols = CHR 0x22"
    using hist_select by blast
  have row: "db_row sample_dbenv q w = Inr [(''id'', ''41'')]" for q w by (simp add: sample_dbenv_def)
  have rb: "addRollback sample_dbenv (db_data paid_call) a b c w = (Inr (), w)" for a b c w
    by (simp add: addRollback_def db_data_def paid_call_def whoami_call_def sample_dbenv_def)
  have sd: "sd_BlockID (db_data paid_call) = Some (bd_BlockID empty_BlockData)" by (simp add: db_data_def paid_call_def whoami_call_def)
  have "\<exists>r w'. sc_insert sample_dbenv (db_data paid_call) hist_cols (hist_vals i j d) ''1_history'' w = (Inr r, w')"
    using hist_inserted [OF assms, of "hist_vals i j d" w] hist_select_cost [OF c(2-4), of w]
    by (auto simp: sc_insert_def selectiveLoggingAndUpd_def Let_def hist_target hist_values_kept [OF assms(1,2)] hist_strings hist_flds c(1) sd rb row where_clause_def
        bind_db_def ret_db_def simp del: list.map select_fields.simps prepare_values.simps InterfaceSliceToStr.simps)
  moreover have "pay_history sample_call_env paid_call i j d = unit_db (sc_insert sample_dbenv (db_data paid_call) hist_cols (hist_vals i j d) ''1_history'')"
    by (simp add: pay_history_def paid_call_def whoami_call_def sample_call_env_def hist_cols_def hist_vals_def hist_comment_def hist_time_def empty_BlockData_def db_data_def)
  ultimately show ?thesis by (auto simp: unit_db_def bind_db_def ret_db_def)
qed

text \<open>The whole payment: 40 units, of which one is the commission (3 per cent, rounded down).\<close>

lemma sample_amounts: "pay_amounts sample_call_env (Dec 40 0) (Dec 1 0) ''100'' = Inr (Dec 40 0, Dec 1 0)"
  by code_simp

lemma sample_payment: "\<exists>w'. payContract sample_call_env paid_call (Dec 1 0) sample_key 5 7 w = (Inr (), w')"
proof -
  let ?upd = "wallet_update sample_call_env paid_call" and ?hist = "pay_history sample_call_env paid_call ''5''"
  have pc: "\<exists>w'. unless_missing (payCommission ?upd ?hist j d) w = (Inr True, w')" if j: "j \<in> {''5'', ''7'', ''9''}" and d': "d \<in> {Dec 1 0, Dec 39 0}" for j d w
  proof -
    have d: "d \<in> {Dec 1 0, Dec 39 0, Dec 40 0}" using d' by blast
    obtain w1 where w1: "?upd ''+amount'' d j w = (Inr (), w1)" using wallet_updated [OF _ j d, of "''+amount''" w] by blast
    obtain w2 where w2: "?hist j d w1 = (Inr (), w2)" using history_written [OF _ j d', of "''5''" w1] by blast
    show ?thesis by (simp add: unless_missing_def payCommission_def bind_db_def w1 w2)
  qed
  have sub: "dec_Sub (Dec 40 0) (Dec 1 0) = Dec 39 0" by code_simp
  obtain w1 where w1: "unless_missing (payCommission ?upd ?hist ''7'' (Dec 39 0)) w = (Inr True, w1)" using pc by blast
  obtain w2 where w2: "unless_missing (payCommission ?upd ?hist ''9'' (Dec 1 0)) w1 = (Inr True, w2)" using pc by blast
  obtain w3 where w3: "?upd ''-amount'' (Dec 40 0) ''5'' w2 = (Inr (), w3)" using wallet_updated [of "''-amount''" "''5''" "Dec 40 0" w2] by blast
  have "pay_split ?upd ?hist (Dec 40 0) (Dec 1 0) ''5'' ''7'' ''9'' w = (Inr (), w3)"
    by (simp add: pay_split_def bind_db_def Let_def sub w1 w2 w3)
  moreover have "cc_TxUsedCost paid_call = Dec 40 0" "key_Amount sample_key = ''100''" "cl_CommissionWallet sample_call_env x = ''9''" for x
    by (simp_all add: paid_call_def sample_key_def sample_call_env_def)
  ultimately show ?thesis by (simp add: payContract_def sample_amounts small_digits)
qed

lemma foreign_sample: "foreign_errors (cl_db sample_call_env)"
  by (simp add: foreign_errors_def sample_call_env_def sample_dbenv_def)


end
