(* ===== verification/Contract_Rollback.thy ===== *)
theory Contract_Rollback
  imports Contract_DB
begin

text \<open>
  Undoing what a block did, \<open>packages/rollback/transaction.go\<close> and \<open>rollback/block.go\<close>: the records that \<open>selectiveLoggingAndUpd\<close> left are
  read in reverse order and become statements that restore or delete rows. The records of system changes (tables,
  contracts, ecosystems) and the tables of transactions are arguments.
\<close>

section \<open>Definitions\<close>

text \<open>
  \<open>rk_unjson\<close> is \<open>json.Unmarshal\<close> into a map of strings, \<open>rk_sysdata\<close> the decoding of a system record, \<open>rk_sys\<close> the undoing of
  its change (the result is not looked at), \<open>rk_list\<close> the records of a transaction, the latest first, \<open>rk_delete\<close> their removal; the other
  fields are the updates of the tables of transactions, in the order of the code, and the rollback of a transaction that
  is no contract.
\<close>

record 'w rollback_env =
  rk_db :: "'w dbenv"
  rk_unjson :: "string \<Rightarrow> (string \<times> string) list res"
  rk_sysdata :: "string \<Rightarrow> unit res"
  rk_sys :: "string \<Rightarrow> string \<Rightarrow> ('w, unit) db"
  rk_list :: "bytes \<Rightarrow> 'w \<Rightarrow> RollbackTx list res"
  rk_delete :: "bytes \<Rightarrow> ('w, unit) db"
  rk_MarkUnused :: "bytes \<Rightarrow> ('w, unit) db"
  rk_DeleteLog :: "bytes \<Rightarrow> ('w, unit) db"
  rk_UpdateStatus :: "bytes \<Rightarrow> ('w, unit) db"
  rk_DeleteQueue :: "bytes \<Rightarrow> ('w, unit) db"
  rk_parser :: "bytes \<Rightarrow> ('w, unit) db"

definition rollback_item :: "string \<Rightarrow> string \<times> string \<Rightarrow> string" where
  "rollback_item table p =
     (case p of (k, v) \<Rightarrow>
        if v = ''NULL'' then k @ ''=NULL,''
        else if IsByteColumn table k \<and> v \<noteq> []
        then k @ ''=decode('' @ quoted (hex_encode (bytes_of_string v)) @ '','' @ quoted ''HEX'' @ ''),''
        else k @ ''='' @ quoted (escapeSingleQuotes v) @ '','')"

text \<open>The record of an update; without a column the text is cut before its begin.\<close>

definition rollbackUpdatedRow :: "'w rollback_env \<Rightarrow> string \<Rightarrow> string \<Rightarrow> string \<Rightarrow> ('w, unit) db" where
  "rollbackUpdatedRow env table data cond =
     bind_db (ret_db (rk_unjson env data)) (\<lambda>info.
       let items = map (\<lambda>k. rollback_item table (k, the (map_of info k))) (db_order (rk_db env) (map fst info))
       in if concat items = [] then ret_db (Inl slice_error)
          else model_Update (rk_db env) table (butlast (concat items)) cond)"

definition model_Delete :: "'w dbenv \<Rightarrow> string \<Rightarrow> string \<Rightarrow> ('w, unit) db" where
  "model_Delete env tblname cond = db_exec env (''DELETE FROM '' @ in_quotes tblname @ '' '' @ cond)"

definition rollbackInsertedRow :: "'w rollback_env \<Rightarrow> string \<Rightarrow> string \<Rightarrow> ('w, unit) db" where
  "rollbackInsertedRow env table cond = model_Delete (rk_db env) table cond"

text \<open>The row of a record: in a table that the ecosystems share, the row of one ecosystem.\<close>

definition rollback_row :: "RollbackTx \<Rightarrow> string \<times> string" where
  "rollback_row tx =
     (let cond = '' WHERE id='' @ quoted (rb_TableID tx); table = rb_NameTable tx in
      case str_index ''_'' table of
        Some off \<Rightarrow>
          if off > 0 \<and> map_of FirstEcosystemTables (drop (off + 1) table) = Some False
          then (''1_'' @ drop (off + 1) table, cond @ '' AND ecosystem='' @ quoted (show_int (sint (StrToInt64 (take off table)))))
          else (table, cond)
      | None \<Rightarrow> (table, cond))"

definition SysName :: string where "SysName = ''@system''"

definition ignore_error :: "('w, unit) db \<Rightarrow> ('w, unit) db" where
  "ignore_error m w = (case m w of (Inl (Error e), w') \<Rightarrow> (Inr (), w') | r \<Rightarrow> r)"

definition rollback_record :: "'w rollback_env \<Rightarrow> RollbackTx \<Rightarrow> ('w, unit) db" where
  "rollback_record env tx =
     (if rb_NameTable tx = SysName then
        bind_db (ret_db (rk_sysdata env (rb_Data tx))) (\<lambda>_. ignore_error (rk_sys env (rb_Data tx) (rb_TableID tx)))
      else
        case rollback_row tx of (table, cond) \<Rightarrow>
        if rb_Data tx \<noteq> [] then rollbackUpdatedRow env table (rb_Data tx) cond else rollbackInsertedRow env table cond)"

fun rollback_records :: "'w rollback_env \<Rightarrow> RollbackTx list \<Rightarrow> ('w, unit) db" where
  "rollback_records env [] = ret_db (Inr ())"
| "rollback_records env (tx # txs) = bind_db (rollback_record env tx) (\<lambda>_. rollback_records env txs)"

definition rollbackTransaction :: "'w rollback_env \<Rightarrow> bytes \<Rightarrow> ('w, unit) db" where
  "rollbackTransaction env txHash =
     bind_db (\<lambda>w. (rk_list env txHash w, w)) (\<lambda>txs.
     bind_db (rollback_records env txs) (\<lambda>_. rk_delete env txHash))"

text \<open>One transaction of a block: its hash and whether it calls a contract.\<close>

definition rollback_tx :: "'w rollback_env \<Rightarrow> bytes \<times> bool \<Rightarrow> ('w, unit) db" where
  "rollback_tx env t =
     (case t of (txHash, isContract) \<Rightarrow>
        bind_db (rk_MarkUnused env txHash) (\<lambda>_.
        bind_db (rk_DeleteLog env txHash) (\<lambda>_.
        bind_db (rk_UpdateStatus env txHash) (\<lambda>_.
        bind_db (rk_DeleteQueue env txHash) (\<lambda>_.
        if isContract then rollbackTransaction env txHash else rk_parser env txHash)))))"

fun rollback_txs :: "'w rollback_env \<Rightarrow> (bytes \<times> bool) list \<Rightarrow> ('w, unit) db" where
  "rollback_txs env [] = ret_db (Inr ())"
| "rollback_txs env (t # ts) = bind_db (rollback_tx env t) (\<lambda>_. rollback_txs env ts)"

definition rollbackBlock :: "'w rollback_env \<Rightarrow> (bytes \<times> bool) list \<Rightarrow> ('w, unit) db" where
  "rollbackBlock env transactions = rollback_txs env (rev transactions)"

section \<open>Reading the statement\<close>

text \<open>Assignments of literals to columns, \<open>column='literal'\<close>, separated by commas.\<close>

definition sql_assign :: "string \<Rightarrow> ((string \<times> string) \<times> string) option" where
  "sql_assign s =
     (case dropWhile (\<lambda>c. c \<noteq> CHR ''='') s of
        [] \<Rightarrow> None
      | _ # r \<Rightarrow> map_option (\<lambda>(v, r). ((takeWhile (\<lambda>c. c \<noteq> CHR ''='') s, v), r)) (sql_literal r))"

fun sql_assigns :: "nat \<Rightarrow> string \<Rightarrow> ((string \<times> string) list \<times> string) option" where
  "sql_assigns 0 s = Some ([], s)"
| "sql_assigns (Suc 0) s = map_option (\<lambda>(p, r). ([p], r)) (sql_assign s)"
| "sql_assigns (Suc (Suc n)) s =
     Option.bind (sql_assign s) (\<lambda>(p, r).
       case r of c # r \<Rightarrow> if c = CHR '','' then map_option (\<lambda>(ps, r). (p # ps, r)) (sql_assigns (Suc n) r) else None | [] \<Rightarrow> None)"

definition assign_text :: "string \<times> string \<Rightarrow> string" where
  "assign_text p = fst p @ ''='' @ quoted (escapeSingleQuotes (snd p))"

lemma sql_assign_text:
  assumes "CHR ''='' \<notin> set (fst p)" "ends_literal r"
  shows "sql_assign (assign_text p @ r) = Some (p, r)"
proof -
  have "dropWhile (\<lambda>c. c \<noteq> CHR ''='') (assign_text p @ r) = CHR ''='' # quoted (escapeSingleQuotes (snd p)) @ r"
    "takeWhile (\<lambda>c. c \<noteq> CHR ''='') (assign_text p @ r) = fst p"
    using assms(1) by (auto simp: assign_text_def dropWhile_append takeWhile_append)
  then show ?thesis using assms(2) by (simp add: sql_assign_def sql_literal_escaped)
qed

lemma sql_assigns_text:
  assumes "list_all (\<lambda>p. CHR ''='' \<notin> set (fst p)) ps" "ends_literal r" "ps \<noteq> []"
  shows "sql_assigns (length ps) (join '','' (map assign_text ps) @ r) = Some (ps, r)"
  using assms
proof (induction ps rule: induct_list012)
  case (3 p q ps)
  have "ends_literal (CHR '','' # s)" for s by (simp add: ends_literal_def)
  with 3 show ?case by (simp add: sql_assign_text)
qed (simp_all add: sql_assign_text)

lemma concat_commas: "xs \<noteq> [] \<Longrightarrow> concat (map (\<lambda>x. f x @ '','') xs) = join '','' (map f xs) @ '',''"
proof (induction xs)
  case (Cons x xs)
  then show ?case by (cases xs) auto
qed simp

section \<open>The old values come back\<close>

text \<open>What the record of an update holds.\<close>

definition logged_row :: "bool \<Rightarrow> (string \<times> string) list \<Rightarrow> (string \<times> string) list" where
  "logged_row isKey logData = filter (\<lambda>(k, _). \<not> (k = ''id'' \<or> isKey \<and> k = ''ecosystem'')) logData"

definition text_column :: "string \<Rightarrow> string \<times> string \<Rightarrow> bool" where
  "text_column table p \<longleftrightarrow> fst p \<noteq> [] \<and> CHR ''='' \<notin> set (fst p) \<and> \<not> IsByteColumn table (fst p) \<and> snd p \<noteq> ''NULL''"

lemma rollback_info_text:
  assumes "list_all (text_column table) (logged_row isKey logData)"
  shows "rollback_info env isKey table logData = Inr (db_json_map env (logged_row isKey logData))"
proof -
  have "map (\<lambda>(k, v). (k, if IsByteColumn table k \<and> v \<noteq> [] then hex_encode (bytes_of_string v) else v)) rows = rows \<and>
      \<not> list_ex (\<lambda>(k, _). k = []) rows" if "list_all (text_column table) rows" for rows
    using that by (induction rows) (auto simp: text_column_def)
  from this [OF assms] show ?thesis by (simp add: rollback_info_def logged_row_def Let_def)
qed

text \<open>
  C21: a rollback puts the old values back. The record that an update leaves of a row (its values in ordinary columns of texts and
  numbers) becomes a statement in which the database reads, for every recorded column, the value it had before the update, whatever
  characters it contains.
\<close>

theorem rollback_restores_row:
  assumes "rollback_info (rk_db env) isKey table logData = Inr info"
    and "list_all (text_column table) (logged_row isKey logData)" "logged_row isKey logData \<noteq> []" "distinct (map fst logData)"
    and "rk_unjson env (db_json_map (rk_db env) (logged_row isKey logData)) = Inr (logged_row isKey logData)"
    and "set (db_order (rk_db env) (map fst (logged_row isKey logData))) = fst ` set (logged_row isKey logData)"
  shows "\<exists>sets. rollbackUpdatedRow env table info cond = model_Update (rk_db env) table sets cond \<and>
    sql_assigns (length (db_order (rk_db env) (map fst (logged_row isKey logData)))) (sets @ '' '' @ cond) =
      Some (map (\<lambda>k. (k, the (map_of logData k))) (db_order (rk_db env) (map fst (logged_row isKey logData))), '' '' @ cond)"
proof -
  let ?rows = "logged_row isKey logData"
  let ?ks = "db_order (rk_db env) (map fst ?rows)"
  let ?ps = "map (\<lambda>k. (k, the (map_of logData k))) ?ks"
  have same: "map_of ?rows k = map_of logData k" if "k \<in> fst ` set ?rows" for k
  proof -
    from that obtain v where "(k, v) \<in> set ?rows" by auto
    then have "(k, v) \<in> set logData" "map_of ?rows k = Some v"
      using assms(4) by (auto simp: logged_row_def distinct_map_filter intro!: map_of_is_SomeI)
    then show ?thesis using assms(4) by (simp add: map_of_is_SomeI)
  qed
  have txc: "text_column table (k, the (map_of ?rows k))" if "k \<in> fst ` set ?rows" for k
  proof -
    from that obtain v where "map_of ?rows k = Some v" by (metis map_of_eq_None_iff not_None_eq)
    then have "(k, v) \<in> set ?rows" by (rule map_of_SomeD)
    then show ?thesis using assms(2) \<open>map_of ?rows k = Some v\<close> by (auto simp: list_all_iff)
  qed
  have items: "map (\<lambda>k. rollback_item table (k, the (map_of ?rows k))) ?ks = map (\<lambda>p. assign_text p @ '','') ?ps"
    using assms(6) txc same by (auto simp: rollback_item_def text_column_def assign_text_def)
  have ne: "?ps \<noteq> []" using assms(3,6) by auto
  have ok: "list_all (\<lambda>p. CHR ''='' \<notin> set (fst p)) ?ps" using txc assms(6) by (auto simp: list_all_iff text_column_def)
  have info: "rk_unjson env info = Inr ?rows" using assms(1,5) rollback_info_text [OF assms(2), of "rk_db env"] by simp
  have cc: "concat (map (\<lambda>k. rollback_item table (k, the (map_of ?rows k))) ?ks) = join '','' (map assign_text ?ps) @ '',''"
    unfolding items by (rule concat_commas [OF ne])
  have "rollbackUpdatedRow env table info cond = model_Update (rk_db env) table (join '','' (map assign_text ?ps)) cond"
  proof (rule ext)
    show "rollbackUpdatedRow env table info cond w = model_Update (rk_db env) table (join '','' (map assign_text ?ps)) cond w" for w
      unfolding rollbackUpdatedRow_def Let_def info bind_db_def ret_db_def prod.case sum.case cc by simp
  qed
  moreover have "sql_assigns (length ?ps) (join '','' (map assign_text ?ps) @ '' '' @ cond) = Some (?ps, '' '' @ cond)"
    using ok ne by (intro sql_assigns_text) (simp_all add: ends_literal_def)
  ultimately show ?thesis by auto
qed

section \<open>Bytes do not come back\<close>

text \<open>The record of a row: columns of bytes are in hexadecimal form.\<close>

definition recorded_row :: "bool \<Rightarrow> string \<Rightarrow> (string \<times> string) list \<Rightarrow> (string \<times> string) list" where
  "recorded_row isKey table logData =
     map (\<lambda>(k, v). (k, if IsByteColumn table k \<and> v \<noteq> [] then hex_encode (bytes_of_string v) else v)) (logged_row isKey logData)"

lemma rollback_info_recorded: "rollback_info env isKey table logData = Inr info \<Longrightarrow> info = db_json_map env (recorded_row isKey table logData)"
  by (auto simp: rollback_info_def recorded_row_def logged_row_def Let_def split: if_splits)

lemma map_of_recorded:
  assumes "distinct (map fst logData)" "(k, old) \<in> set (logged_row isKey logData)"
  shows "map_of (recorded_row isKey table logData) k = Some (if IsByteColumn table k \<and> old \<noteq> [] then hex_encode (bytes_of_string old) else old)"
proof -
  have "distinct (map fst (recorded_row isKey table logData))"
    using assms(1) by (simp add: recorded_row_def logged_row_def distinct_map_filter comp_def case_prod_unfold)
  then show ?thesis using assms(2) by (intro map_of_is_SomeI) (force simp: recorded_row_def)+
qed

lemma hex_encode_not_NULL: "hex_encode bs \<noteq> ''NULL''"
proof
  assume "hex_encode bs = ''NULL''"
  then have "snd (hex_decode ''NULL'')" using hex_decode_encode [of bs] by simp
  moreover have "\<not> snd (hex_decode ''NULL'')" by code_simp
  ultimately show False by simp
qed

text \<open>The text of an assignment without its comma.\<close>

definition item_text :: "string \<Rightarrow> string \<times> string \<Rightarrow> string" where
  "item_text table p = butlast (rollback_item table p)"

lemma rollback_item_text: "rollback_item table p = item_text table p @ '',''"
  by (simp add: item_text_def rollback_item_def butlast_append split: prod.split)

lemma hex_item:
  assumes "IsByteColumn table k" "old \<noteq> []"
  shows "\<exists>h. item_text table (k, hex_encode (bytes_of_string old)) = k @ ''=decode('' @ quoted h @ '','' @ quoted ''HEX'' @ '')'' \<and>
    hex_decode h = (BinToHex (bytes_of_string old), True) \<and> BinToHex (bytes_of_string old) \<noteq> bytes_of_string old"
proof -
  have len: "length (hex_encode bs) = 2 * length bs" for bs by (induction bs) (simp_all add: hex_encode_def)
  have "length (BinToHex (bytes_of_string old)) = 2 * length (bytes_of_string old)" by (simp add: BinToHex_def bytes_of_string_def len)
  moreover have "bytes_of_string old \<noteq> []" using assms(2) by (simp add: bytes_of_string_def)
  ultimately have "length (BinToHex (bytes_of_string old)) \<noteq> length (bytes_of_string old)" unfolding length_greater_0_conv [symmetric] by linarith
  then have "BinToHex (bytes_of_string old) \<noteq> bytes_of_string old" by metis
  moreover have "hex_encode (bytes_of_string old) \<noteq> []" using len [of "bytes_of_string old"] assms(2) by (auto simp: bytes_of_string_def)
  ultimately show ?thesis
    using assms(1) hex_encode_not_NULL
    by (intro exI [of _ "hex_encode (BinToHex (bytes_of_string old))"])
      (simp add: item_text_def rollback_item_def butlast_append quoted_def hex_decode_encode BinToHex_def)
qed

text \<open>
  C22: a rollback does not put the bytes of a binary column back. The record that an update leaves of a row with such a column holds its bytes
  in hexadecimal form, and the statement of the rollback encodes that text once more: it assigns to the column the bytes of the
  hexadecimal text, twice as many, and not the bytes it had before the update. As for texts, the record is assumed to be read as it was
  written and the map to be iterated over completely.
\<close>

theorem rollback_encodes_twice:
  assumes "rollback_info (rk_db env) isKey table logData = Inr info"
    and "(k, old) \<in> set (logged_row isKey logData)" "distinct (map fst logData)" "IsByteColumn table k" "old \<noteq> []"
    and "rk_unjson env (db_json_map (rk_db env) (recorded_row isKey table logData)) = Inr (recorded_row isKey table logData)"
    and "set (db_order (rk_db env) (map fst (recorded_row isKey table logData))) = fst ` set (recorded_row isKey table logData)"
  shows "\<exists>items h. rollbackUpdatedRow env table info cond = model_Update (rk_db env) table (join '','' items) cond \<and>
    k @ ''=decode('' @ quoted h @ '','' @ quoted ''HEX'' @ '')'' \<in> set items \<and>
    hex_decode h = (BinToHex (bytes_of_string old), True) \<and> BinToHex (bytes_of_string old) \<noteq> bytes_of_string old"
proof -
  let ?row = "recorded_row isKey table logData"
  let ?ks = "db_order (rk_db env) (map fst ?row)"
  let ?items = "map (\<lambda>k. item_text table (k, the (map_of ?row k))) ?ks"
  have info: "rk_unjson env info = Inr ?row" using assms(6) rollback_info_recorded [OF assms(1)] by simp
  have k: "map_of ?row k = Some (hex_encode (bytes_of_string old))" using map_of_recorded [OF assms(3,2), of table] assms(4,5) by simp
  then have "k \<in> set ?ks" using assms(7) map_of_SomeD [OF k] by force
  then have item: "item_text table (k, hex_encode (bytes_of_string old)) \<in> set ?items" using k by force
  then have "?ks \<noteq> []" by auto
  then have cc: "concat (map (\<lambda>k. rollback_item table (k, the (map_of ?row k))) ?ks) = join '','' ?items @ '',''"
    unfolding rollback_item_text by (rule concat_commas)
  have upd: "rollbackUpdatedRow env table info cond = model_Update (rk_db env) table (join '','' ?items) cond"
    unfolding rollbackUpdatedRow_def Let_def info bind_ret_db cc by simp
  obtain h where h: "item_text table (k, hex_encode (bytes_of_string old)) = k @ ''=decode('' @ quoted h @ '','' @ quoted ''HEX'' @ '')''"
    "hex_decode h = (BinToHex (bytes_of_string old), True)" "BinToHex (bytes_of_string old) \<noteq> bytes_of_string old"
    using hex_item [OF assms(4,5)] by blast
  show ?thesis by (intro exI conjI) (rule upd, rule item [unfolded h(1)], rule h(2), rule h(3))
qed

section \<open>Witnesses\<close>

definition sample_old :: "(string \<times> string) list" where
  "sample_old = [(''amount'', ''100''), (''note'', ''it'' @ [CHR 0x27] @ ''s'')]"

definition sample_rollback :: "string list rollback_env" where
  "sample_rollback =
     \<lparr>rk_db = sample_dbenv, rk_unjson = (\<lambda>_. Inr sample_old), rk_sysdata = (\<lambda>_. Inr ()), rk_sys = (\<lambda>_ _ w. (Inr (), w)), rk_list = (\<lambda>_ _. Inr []),
      rk_delete = (\<lambda>_ w. (Inr (), w)), rk_MarkUnused = (\<lambda>_ w. (Inr (), w)), rk_DeleteLog = (\<lambda>_ w. (Inr (), w)),
      rk_UpdateStatus = (\<lambda>_ w. (Inr (), w)), rk_DeleteQueue = (\<lambda>_ w. (Inr (), w)), rk_parser = (\<lambda>_ w. (Inr (), w))\<rparr>"

lemma sample_logged: "logged_row False ((''id'', ''7'') # sample_old) = sample_old"
  by (simp add: logged_row_def sample_old_def)

theorem rollback_restores_row_witness:
  "\<exists>sets. rollbackUpdatedRow sample_rollback ''1_notes'' ''{}'' '' WHERE id=7'' = model_Update sample_dbenv ''1_notes'' sets '' WHERE id=7'' \<and>
    sql_assigns 2 (sets @ '' '' @ '' WHERE id=7'') =
      Some (map (\<lambda>k. (k, the (map_of ((''id'', ''7'') # sample_old) k))) [''amount'', ''note''], '' '' @ '' WHERE id=7'')"
proof -
  have t: "list_all (text_column ''1_notes'') sample_old" by (simp add: sample_old_def text_column_def IsByteColumn_def)
  have e: "rk_db sample_rollback = sample_dbenv" "rk_unjson sample_rollback s = Inr sample_old" "db_order sample_dbenv ks = ks"
    "db_json_map sample_dbenv m = ''{}''" for s ks m by (simp_all add: sample_rollback_def sample_dbenv_def)
  have i: "rollback_info (rk_db sample_rollback) False ''1_notes'' ((''id'', ''7'') # sample_old) = Inr ''{}''"
    using rollback_info_text [of "''1_notes''" False "(''id'', ''7'') # sample_old" sample_dbenv] t by (simp add: sample_logged e)
  have "distinct (map fst ((''id'', ''7'') # sample_old))" "sample_old \<noteq> []" "map fst sample_old = [''amount'', ''note'']" "fst ` set sample_old = {''amount'', ''note''}"
    by (simp_all add: sample_old_def)
  with rollback_restores_row [OF i, unfolded sample_logged e, of "'' WHERE id=7''"] t show ?thesis by (simp add: numeral_2_eq_2)
qed

text \<open>The key of a wallet with the number 7.\<close>

definition sample_key_row :: "(string \<times> string) list" where
  "sample_key_row = [(''id'', ''7''), (''pub'', ''k''), (''amount'', ''100'')]"

definition sample_key_rollback :: "string list rollback_env" where
  "sample_key_rollback = sample_rollback\<lparr>rk_unjson := \<lambda>_. Inr (recorded_row True ''1_keys'' sample_key_row)\<rparr>"

theorem rollback_encodes_twice_witness:
  "\<exists>items h. rollbackUpdatedRow sample_key_rollback ''1_keys'' ''{}'' '' WHERE id=7'' = model_Update sample_dbenv ''1_keys'' (join '','' items) '' WHERE id=7'' \<and>
    ''pub'' @ ''=decode('' @ quoted h @ '','' @ quoted ''HEX'' @ '')'' \<in> set items \<and>
    hex_decode h = (BinToHex (bytes_of_string ''k''), True) \<and> BinToHex (bytes_of_string ''k'') \<noteq> bytes_of_string ''k''"
proof -
  have e: "rk_db sample_key_rollback = sample_dbenv" "rk_unjson sample_key_rollback s = Inr (recorded_row True ''1_keys'' sample_key_row)" "db_order sample_dbenv ks = ks"
    "db_json_map sample_dbenv m = ''{}''" for s ks m by (simp_all add: sample_key_rollback_def sample_rollback_def sample_dbenv_def)
  have row: "logged_row True sample_key_row = [(''pub'', ''k''), (''amount'', ''100'')]" by (simp add: logged_row_def sample_key_row_def)
  have info: "rollback_info (rk_db sample_key_rollback) True ''1_keys'' sample_key_row = Inr ''{}''"
    by (simp add: rollback_info_def e(1) sample_key_row_def) (simp add: e)
  have "IsByteColumn ''1_keys'' ''pub''" by (simp add: IsByteColumn_def runes_ascii rune_digit_def fold_rune_def)
  moreover have "distinct (map fst sample_key_row)" by (simp add: sample_key_row_def)
  ultimately show ?thesis
    using rollback_encodes_twice [OF info, of "''pub''" "''k''" "'' WHERE id=7''"] by (simp add: row e)
qed

end
