(* ===== verification/Spec2Isabelle.thy ===== *)
theory Spec2Isabelle
  imports Converter_Codec Converter_Text Ordered_Map Block_Check Block_Time Block_Limits Network_Client Script_Access Script_Operators Compile_Ends Template_Calc Contract_Access Contract_Pay Contract_Rollback
begin

text \<open>
  A verification library for go-apla, a blockchain node written in Go. A node keeps a chain of
  blocks; every block carries transactions, most of them calls of smart contracts written in the
  node's own script language. Nodes take turns in generating blocks, exchange blocks and
  transactions over a binary TCP protocol, check what they receive and then execute it.

  \<^bold>\<open>Theories and sources\<close> (all sources are under \<open>src/packages\<close>).

  \<^item> \<open>Prelude\<close>: results of Go calls (\<open>'a res\<close>: an error, a panic or a value), the integers of Go at
    their widths, little and big endian bytes, and the locale \<open>codec\<close> of a writer and a reader that
    inverts it.
  \<^item> \<open>Go_Std\<close>: what the code uses of the Go library: \<open>strconv\<close>, \<open>strings\<close>, UTF-8 and the \<open>range\<close> loop
    over a string.
  \<^item> \<open>Converter_Codec\<close>: \<open>converter/converter.go\<close>, the length encodings, \<open>BinMarshal\<close>, \<open>BinUnmarshal\<close> and
    \<open>BinUnmarshalBuff\<close>. Reading inverts writing; the buffer variant refines the slice variant, apart
    from an int32 at the very end of a buffer.
  \<^item> \<open>Converter_Text\<close>: the text conversions of the same file and \<open>crypto/converter.go\<close>: account
    addresses with their check digit, hexadecimal and decimal forms, sanitizing and escaping.
  \<^item> \<open>Ordered_Map\<close>: \<open>types/map.go\<close>, a hash map whose links form a doubly linked list in insertion
    order, with an explicit store of links. The locale \<open>ordered_map\<close> states the contract; the linked
    map is an interpretation of it.
  \<^item> \<open>Block_Codec\<close>: \<open>block/serialization.go\<close>, \<open>utils\<close> (headers, Merkle tree), \<open>transaction\<close> (parsing and
    the cache). Blocks are read back as they were written, the Merkle root binds the transactions.
  \<^item> \<open>Block_Time\<close>: \<open>protocols/generation-queue.go\<close> and the block time calculators of \<open>utils\<close>: whose turn
    it is at which instant, that only one node has it, and that every node gets it again.
  \<^item> \<open>Block_Limits\<close>: \<open>block/limits.go\<close>; the locale \<open>limiter_contract\<close> gives the invariant of every
    limiter over all sequences of offered transactions.
  \<^item> \<open>Block_Check\<close>: \<open>block/block.go\<close>, the checks of a received block, and what acceptance implies.
  \<^item> \<open>Network_Protocol\<close>, \<open>Network_Nodes\<close>, \<open>Network_Client\<close>: \<open>network/protocol.go\<close>, \<open>network/tcpserver\<close> and
    \<open>network/tcpclient\<close>. Messages are interpretations of \<open>codec\<close>; the client and the server are
    composed for the collection of blocks and the dissemination of transactions.
  \<^item> \<open>Script_Lexer\<close>: \<open>script/lex.go\<close>, \<open>lex_table.go\<close> and the generator \<open>lextable/lextable.go\<close>: the table
    is what the generator computes, and lexing inverts printing.

  \<^item> \<open>Go_Num\<close>: floating point numbers and the decimals of \<open>shopspring/decimal\<close> (a vendored package) as far as the
    machine uses them.
  \<^item> \<open>Script_Values\<close>, \<open>Script_Ops\<close>, \<open>Script_VM\<close>: \<open>script/vm.go\<close>, \<open>vminit.go\<close>, \<open>cmds_list.go\<close>. Values with a heap of arrays
    and maps, the binary operators, and the machine: \<open>RunCode\<close> with all its commands, calls of functions, host
    functions and contracts, gas and memory. A run is a state transformer whose \<open>None\<close> means that the fuel
    was not enough.
  \<^item> \<open>Script_Logic\<close>: relations between the states before and after a run, as a family of locales (\<open>run_rel\<close>, \<open>mach_rel\<close>,
    \<open>vm_rel\<close> and their variants with costs): what every command keeps, every program keeps.
    \<open>Script_Gas\<close>, \<open>Script_Memory\<close> and \<open>Script_Access\<close> interpret them: gas bounds every run, so that \<open>2 * c + 2\<close>
    units of fuel suffice for \<open>c\<close> units of gas; the memory counter is the sum of the recorded sizes; system
    variables other than \<open>$stack\<close> keep their values unless a contract is called. \<open>Script_Eval\<close> evaluates concrete programs.
    \<open>Script_Operators\<close>: arithmetic of money. \<open>Contract_Stack\<close>: \<open>AppendStack\<close> and \<open>PopStack\<close> of \<open>smart/funcs.go\<close>, the stack of called
    contracts that the machine asks for around calls.
  \<^item> \<open>Script_Expr\<close>, \<open>Script_Compile\<close>: \<open>script/compile.go\<close>. \<open>compileEval\<close>, a shunting yard with calls, tails of functions,
    indexes and initializers, and the finite machine over lexemes that builds the tree of blocks in a
    store. \<open>Expr_Correct\<close> and \<open>Expr_Run\<close>: expressions are compiled to their postfix code, whose execution
    pushes their value. \<open>Eval_If\<close>: \<open>script/eval.go\<close>, conditions from their text to their answer.
  \<^item> \<open>Compile_Safe\<close>, \<open>Compile_Ends\<close>: what the compiler keeps for every source: the commands it returns are typed as the machine
    asserts, and all its loops end, within four passes per lexeme.
  \<^item> \<open>Template_Calc\<close>: \<open>template/calculate.go\<close>, the calculator of page templates, correct from text to text for expressions of
    integers in which a subtracted product is the last term of its level.
  \<^item> \<open>Query_Cost\<close>: \<open>model/querycost/formula.go\<close>, the price of a statement from its text.
  \<^item> \<open>Contract_DB\<close>, \<open>Contract_Query\<close>: \<open>smart/selective.go\<close> and the query functions of \<open>smart/funcs.go\<close>. Statements are texts, and a
    reader of SQL literals shows that the values of an executed insertion stay inside theirs.
  \<^item> \<open>Contract_Call\<close>: \<open>smart/smart.go\<close> and \<open>smart/utils.go\<close>, the call of a contract by a transaction: its data, the signature,
    gas, the run of \<open>conditions\<close> and \<open>action\<close> in the machine, the payment; what the methods find in the variables.
    \<open>Contract_Pay\<close>: a ledger beside the database shows that payments keep the sum of all wallets.
  \<^item> \<open>Contract_Access\<close>: the rights to tables, columns and rows and the functions \<open>DBInsert\<close>, \<open>DBUpdate\<close> and \<open>DBSelect\<close> that rely on them:
    which columns are granted, stars included, which names evade their conditions, and who may change conditions.
  \<^item> \<open>Contract_Rollback\<close>: \<open>rollback/transaction.go\<close> and \<open>rollback/block.go\<close>: undoing an update puts the old texts and numbers back, but not
    the bytes of binary columns.

  \<^bold>\<open>Conventions.\<close> Go's \<open>int64\<close>, \<open>uint32\<close> and so on are words or, where the code only counts, integers
  with \<open>wrap64\<close>. Errors and panics are values of the sum type \<open>'a res\<close>. Code that is not part of the
  repository (hash functions, signatures, the database, the clock) is an argument of the definitions
  that call it, usually a field of an environment record. Loops are structurally recursive, have
  a measure, or run on fuel. The fuel of the machine is bounded by the gas (\<open>Script_Gas\<close>); \<open>countBlockTime_loop\<close> gets
  as much as there are slots up to the instant; the compiler gets four passes per lexeme, which are enough
  (\<open>Compile_Ends\<close>); \<open>GetWhere\<close> gets a bound on the nesting of maps, which may contain themselves.

  \<^bold>\<open>Not modelled.\<close> The loading of compiled blocks into a running machine (\<open>FlushBlock\<close>) and the registration
  of host functions by reflection (\<open>Extend\<close>), the page template engine, the host functions of contracts other than those for
  access and tables, the execution of blocks (\<open>PlaySafe\<close>), the undoing of system changes, the models over the database, the HTTP API, the
  daemons, migrations, configuration and the clients of external services; the manifest lists each with the reason.
\<close>

end
